(* ===== verification/Prelude.thy ===== *)
theory Prelude
  imports Main "HOL-Library.List_Lexorder" "HOL-Library.Char_ord" "HOL-Library.Multiset"
begin

text \<open>
  What every component shares: Go errors as values, the functions of the packages
  \<open>strings\<close> and \<open>slices\<close> that the components call, loops that stop at the first error,
  and the generic list lemmas behind the component proofs.

  A Go string is its list of bytes (\<open>string\<close>, a list of \<open>char\<close>), and Go's \<open><\<close> on
  strings is the lexicographic order of \<open>HOL-Library.List_Lexorder\<close>. A pointer that may be
  nil is an \<open>option\<close>; a function that returns only an \<open>error\<close> returns \<open>go_error option\<close>
  with \<open>None\<close> for nil; a function that returns \<open>(T, error)\<close> returns \<open>go_error + T\<close>.
\<close>

section \<open>Errors\<close>

text \<open>
  \<open>Err s\<close> is \<open>errors.New(s)\<close>, \<open>Errf f args\<close> is \<open>fmt.Errorf\<close> with the operands kept
  unrendered, \<open>Wrapf f errs args\<close> is an error that wraps others: \<open>fmt.Errorf\<close> with
  \<open>%w\<close> operands, or \<open>errors.Join\<close> (format \<open>join\<close>).
\<close>

datatype go_error = Err string | Errf string "string list" | Wrapf string "go_error list" "string list"

text \<open>\<open>errors.Is\<close>: the target occurs in the tree of wrapped errors.\<close>

fun errors_is :: "go_error \<Rightarrow> go_error \<Rightarrow> bool" where
  "errors_is (Err s) t = (Err s = t)"
| "errors_is (Errf f xs) t = (Errf f xs = t)"
| "errors_is (Wrapf f es xs) t = (Wrapf f es xs = t \<or> list_ex (\<lambda>e. errors_is e t) es)"

text \<open>\<open>errors.Join\<close> drops nil operands and is nil when all of them are.\<close>

definition errors_join :: "go_error option list \<Rightarrow> go_error option" where
  "errors_join es = (case List.map_filter id es of [] \<Rightarrow> None | xs \<Rightarrow> Some (Wrapf ''join'' xs []))"

lemma errors_join_None [simp]: "errors_join es = None \<longleftrightarrow> (\<forall>e\<in>set es. e = None)"
proof -
  have "List.map_filter id es = [] \<longleftrightarrow> (\<forall>e\<in>set es. e = None)"
    by (induction es) (auto simp: List.map_filter_simps split: option.splits)
  then show ?thesis by (auto simp: errors_join_def split: list.splits)
qed

section \<open>Loops that stop at the first error\<close>

text \<open>\<open>for _, x := range xs { if err := f(x); err != nil { return err } }\<close>\<close>

fun first_error :: "('a \<Rightarrow> go_error option) \<Rightarrow> 'a list \<Rightarrow> go_error option" where
  "first_error f [] = None"
| "first_error f (x # xs) = (case f x of Some e \<Rightarrow> Some e | None \<Rightarrow> first_error f xs)"

lemma first_error_None [simp]: "first_error f xs = None \<longleftrightarrow> (\<forall>x\<in>set xs. f x = None)"
  by (induction xs) (auto split: option.splits)

text \<open>The same loop with a state that each round updates.\<close>

fun fold_res :: "('a \<Rightarrow> 's \<Rightarrow> go_error + 's) \<Rightarrow> 'a list \<Rightarrow> 's \<Rightarrow> go_error + 's" where
  "fold_res f [] s = Inr s"
| "fold_res f (x # xs) s = (case f x s of Inl e \<Rightarrow> Inl e | Inr s' \<Rightarrow> fold_res f xs s')"

lemma fold_res_append:
  "fold_res f (xs @ ys) s = (case fold_res f xs s of Inl e \<Rightarrow> Inl e | Inr s' \<Rightarrow> fold_res f ys s')"
  by (induction xs arbitrary: s) (auto split: sum.splits)

lemma fold_res_inv:
  assumes "fold_res f xs s = Inr t" and "P [] s"
    and step: "\<And>ys x zs u v. \<lbrakk>xs = ys @ x # zs; P ys u; f x u = Inr v\<rbrakk> \<Longrightarrow> P (ys @ [x]) v"
  shows "P xs t"
proof -
  have "P ys u" if "xs = ys @ zs" "fold_res f ys s = Inr u" for ys zs u
    using that
  proof (induction ys arbitrary: zs u rule: rev_induct)
    case Nil
    with assms(2) show ?case by simp
  next
    case (snoc y ys)
    then show ?case using step [of ys y zs] by (auto simp: fold_res_append split: sum.splits)
  qed
  from this [of xs "[]"] assms(1) show ?thesis by simp
qed

text \<open>
  The collection \<open>res_simps\<close>: a chain of checks succeeds when each of its steps does. The
  equations run from the case expression of the code to a conjunction.
\<close>

named_theorems res_simps

lemma case_error_None [res_simps]: "(case r of Some e \<Rightarrow> Some e | None \<Rightarrow> x) = None \<longleftrightarrow> r = None \<and> x = None"
  by (cases r) auto

lemma case_error_Inr [res_simps]: "(case r of Some e \<Rightarrow> Inl e | None \<Rightarrow> x) = Inr y \<longleftrightarrow> r = None \<and> x = Inr y"
  by (cases r) auto

lemma case_sum_None [res_simps]: "(case r of Inl e \<Rightarrow> Some e | Inr y \<Rightarrow> f y) = None \<longleftrightarrow> (\<exists>y. r = Inr y \<and> f y = None)"
  by (cases r) auto

lemma case_sum_Inr [res_simps]: "(case r of Inl e \<Rightarrow> Inl e | Inr y \<Rightarrow> f y) = Inr z \<longleftrightarrow> (\<exists>y. r = Inr y \<and> f y = Inr z)"
  by (cases r) auto

lemma if_error_None [res_simps]: "(if b then Some e else x) = None \<longleftrightarrow> \<not> b \<and> x = None"
  by simp

lemma if_error_Inr [res_simps]: "(if b then Inl e else x) = Inr y \<longleftrightarrow> \<not> b \<and> x = Inr y"
  by simp

section \<open>Strings\<close>

text \<open>\<open>strings.Split(s, sep)\<close> for a separator of one byte, and \<open>strings.Join\<close>.\<close>

fun split_on :: "char \<Rightarrow> string \<Rightarrow> string list" where
  "split_on c [] = [[]]"
| "split_on c (x # xs) =
     (if x = c then [] # split_on c xs
      else (case split_on c xs of [] \<Rightarrow> [[x]] | y # ys \<Rightarrow> (x # y) # ys))"

fun join_with :: "string \<Rightarrow> string list \<Rightarrow> string" where
  "join_with sep [] = []"
| "join_with sep [s] = s"
| "join_with sep (s # t # ts) = s @ sep @ join_with sep (t # ts)"

lemma split_on_nonempty [simp]: "split_on c s \<noteq> []"
  by (induction s) (auto split: list.splits)

lemma split_on_no_sep: "x \<in> set (split_on c s) \<Longrightarrow> c \<notin> set x"
proof (induction s arbitrary: x)
  case Nil
  then show ?case by simp
next
  case (Cons a s)
  then show ?case by (cases "split_on c s") (auto split: if_splits)
qed

lemma join_split [simp]: "join_with [c] (split_on c s) = s"
proof (induction s)
  case Nil
  then show ?case by simp
next
  case (Cons a s)
  obtain y ys where "split_on c s = y # ys" by (cases "split_on c s") auto
  with Cons show ?case by (cases ys) auto
qed

lemma split_on_free: "c \<notin> set s \<Longrightarrow> split_on c s = [s]"
  by (induction s) auto

lemma split_on_sep: "c \<notin> set s \<Longrightarrow> split_on c (s @ c # t) = s # split_on c t"
  by (induction s) auto

lemma split_join: "xs \<noteq> [] \<Longrightarrow> (\<And>x. x \<in> set xs \<Longrightarrow> c \<notin> set x) \<Longrightarrow> split_on c (join_with [c] xs) = xs"
proof (induction xs rule: induct_list012)
  case (3 s t ts)
  then have "split_on c (join_with [c] (t # ts)) = t # ts" by simp
  with 3 show ?case by (simp add: split_on_sep)
qed (auto simp: split_on_free)

text \<open>\<open>strings.HasPrefix\<close>, \<open>strings.TrimPrefix\<close>, \<open>strings.HasSuffix\<close>, \<open>strings.TrimSuffix\<close>.\<close>

definition has_prefix :: "string \<Rightarrow> string \<Rightarrow> bool" where
  "has_prefix s p \<longleftrightarrow> take (length p) s = p"

definition trim_prefix :: "string \<Rightarrow> string \<Rightarrow> string" where
  "trim_prefix s p = (if has_prefix s p then drop (length p) s else s)"

definition has_suffix :: "string \<Rightarrow> string \<Rightarrow> bool" where
  "has_suffix s p \<longleftrightarrow> length p \<le> length s \<and> drop (length s - length p) s = p"

definition trim_suffix :: "string \<Rightarrow> string \<Rightarrow> string" where
  "trim_suffix s p = (if has_suffix s p then take (length s - length p) s else s)"

lemma has_prefix_append [simp]: "has_prefix (p @ s) p"
  by (simp add: has_prefix_def)

lemma has_prefixE: "has_prefix s p \<Longrightarrow> (\<And>r. s = p @ r \<Longrightarrow> thesis) \<Longrightarrow> thesis"
  unfolding has_prefix_def by (metis append_take_drop_id)

lemma trim_prefix_append [simp]: "trim_prefix (p @ s) p = s"
  by (simp add: trim_prefix_def)

text \<open>\<open>strings.Cut(s, sep)\<close> for a separator of one byte.\<close>

fun cut_at :: "char \<Rightarrow> string \<Rightarrow> (string \<times> string) option" where
  "cut_at c [] = None"
| "cut_at c (x # xs) = (if x = c then Some ([], xs) else map_option (\<lambda>(a, b). (x # a, b)) (cut_at c xs))"

lemma cut_at_Some: "cut_at c s = Some (a, b) \<longleftrightarrow> s = a @ c # b \<and> c \<notin> set a"
proof (induction s arbitrary: a)
  case Nil
  then show ?case by simp
next
  case (Cons x s)
  then show ?case by (cases a) (auto split: prod.splits)
qed

lemma cut_at_None: "cut_at c s = None \<longleftrightarrow> c \<notin> set s"
  by (induction s) auto

text \<open>ASCII character classes.\<close>

definition is_lower :: "char \<Rightarrow> bool" where
  "is_lower c \<longleftrightarrow> CHR ''a'' \<le> c \<and> c \<le> CHR ''z''"

definition is_upper :: "char \<Rightarrow> bool" where
  "is_upper c \<longleftrightarrow> CHR ''A'' \<le> c \<and> c \<le> CHR ''Z''"

definition is_digit :: "char \<Rightarrow> bool" where
  "is_digit c \<longleftrightarrow> CHR ''0'' \<le> c \<and> c \<le> CHR ''9''"

text \<open>The number a decimal string denotes (the caller has checked the digits).\<close>

definition digit_value :: "char \<Rightarrow> nat" where
  "digit_value c = of_char c - 48"

definition decimal_value :: "string \<Rightarrow> nat" where
  "decimal_value s = foldl (\<lambda>n c. 10 * n + digit_value c) 0 s"

text \<open>\<open>strconv.Itoa\<close> on a non-negative number, and the round trip.\<close>

fun decimal_string :: "nat \<Rightarrow> string" where
  "decimal_string n =
     (if n < 10 then [char_of (48 + n)] else decimal_string (n div 10) @ [char_of (48 + n mod 10)])"

declare decimal_string.simps [simp del]

lemma decimal_value_snoc: "decimal_value (s @ [c]) = 10 * decimal_value s + digit_value c"
  by (simp add: decimal_value_def)

lemma digit_value_char: "n < 10 \<Longrightarrow> digit_value (char_of (48 + n)) = n"
  by (simp add: digit_value_def)

lemma decimal_value_string: "decimal_value (decimal_string n) = n"
proof (induction n rule: decimal_string.induct)
  case (1 n)
  show ?case
  proof (cases "n < 10")
    case True
    then show ?thesis
      by (subst decimal_string.simps) (simp add: decimal_value_def digit_value_char)
  next
    case False
    with 1 show ?thesis
      by (subst decimal_string.simps) (simp add: decimal_value_snoc digit_value_char)
  qed
qed

text \<open>
  \<open>strconv.ParseUint(s, 10, bits)\<close> on ASCII input: \<open>None\<close> for a syntax or a range error.
\<close>

definition parse_uint :: "nat \<Rightarrow> string \<Rightarrow> nat option" where
  "parse_uint bits s =
     (if s \<noteq> [] \<and> list_all is_digit s \<and> decimal_value s < 2 ^ bits
      then Some (decimal_value s) else None)"

lemma parse_uint_bound: "parse_uint bits s = Some n \<Longrightarrow> n < 2 ^ bits"
  by (auto simp: parse_uint_def split: if_splits)

section \<open>Lists\<close>

text \<open>\<open>slices.Index\<close>: the first position of a value, \<open>None\<close> for -1.\<close>

fun index_of :: "'a \<Rightarrow> 'a list \<Rightarrow> nat option" where
  "index_of x [] = None"
| "index_of x (y # ys) = (if x = y then Some 0 else map_option Suc (index_of x ys))"

lemma index_of_None [simp]: "index_of x xs = None \<longleftrightarrow> x \<notin> set xs"
  by (induction xs) auto

lemma index_of_Some: "index_of x xs = Some i \<Longrightarrow> i < length xs \<and> xs ! i = x"
  by (induction xs arbitrary: i) (auto split: if_splits)

lemma index_of_nth [simp]: "distinct xs \<Longrightarrow> i < length xs \<Longrightarrow> index_of (xs ! i) xs = Some i"
proof (induction xs arbitrary: i)
  case Nil
  then show ?case by simp
next
  case (Cons x xs)
  then show ?case by (cases i) (auto simp: nth_mem)
qed

lemma length_filter_less: "x \<in> set xs \<Longrightarrow> \<not> P x \<Longrightarrow> length (filter P xs) < length xs"
  by (induction xs) (auto simp: less_Suc_eq_le)

lemma map_of_keyed:
  "distinct (map k xs) \<Longrightarrow> map_of (map (\<lambda>x. (k x, x)) xs) i = Some x \<longleftrightarrow> x \<in> set xs \<and> k x = i"
  by (induction xs) (auto simp: rev_image_eqI)

lemma map_of_keyed_None: "map_of (map (\<lambda>x. (k x, x)) xs) i = None \<longleftrightarrow> i \<notin> k ` set xs"
  by (auto simp: map_of_eq_None_iff image_image)

lemma count_list_repl: "count_list (replicate n x) y = (if x = y then n else 0)"
  by (induction n) auto

lemma length_takeWhile_less: "\<exists>x\<in>set xs. \<not> P x \<Longrightarrow> length (takeWhile P xs) < length xs"
  by (induction xs) auto

lemma distinct_set_eq_length:
  assumes "distinct xs" and "distinct ys" and "set xs \<subseteq> set ys" and "length xs = length ys"
  shows "set xs = set ys"
  using assms by (metis card_subset_eq distinct_card finite_set)

lemma sorted_key_unique:
  assumes "sorted (map k xs)" "sorted (map k ys)" "mset xs = mset ys" "inj_on k (set xs)"
  shows "xs = ys"
proof -
  have "map k xs = map k ys"
    using assms by (metis mset_map properties_for_sort sorted_sort_id)
  moreover have "set xs = set ys" using assms(3) by (metis set_mset_mset)
  ultimately show ?thesis using assms(4) by (metis inj_on_map_eq_map sup.idem)
qed

end
