(* ===== verification/Model_Core.thy ===== *)
theory Model_Core
  imports Prelude "HOL-Library.Word"
begin

text \<open>
  The domain vocabulary of \<open>internal/model\<close>: capability states, confidence levels,
  completeness and evidence precedence (\<open>state.go\<close>, \<open>evaluation.go\<close>, \<open>evidence.go\<close>),
  capability identifiers (\<open>capability.go\<close>), evaluation scopes, evidence, capabilities and
  deployment candidates, each with its validation method.

  The source's string enums have values outside their constants (a document can carry any
  string): those are the \<open>Other\<close> constructors, which every \<open>is_valid\<close> rejects. A
  timestamp is an \<open>int\<close> that counts nanoseconds from Go's zero time.
\<close>

section \<open>States, confidence, completeness, precedence\<close>

datatype cap_state =
    StateSupported | StateUnsupported | StateMisconfigured | StateUnavailable | StateUnknown
  | OtherState string

fun state_string :: "cap_state \<Rightarrow> string" where
  "state_string StateSupported = ''supported''"
| "state_string StateUnsupported = ''unsupported''"
| "state_string StateMisconfigured = ''misconfigured''"
| "state_string StateUnavailable = ''unavailable''"
| "state_string StateUnknown = ''unknown''"
| "state_string (OtherState s) = s"

fun state_is_valid :: "cap_state \<Rightarrow> go_error option" where
  "state_is_valid (OtherState s) = Some (Errf ''invalid capability state: %q'' [s])"
| "state_is_valid _ = None"

datatype confidence_level =
    ConfidenceVerified | ConfidenceDerived | ConfidenceHeuristic | ConfidenceUnknown
  | OtherConfidence string

fun confidence_is_valid :: "confidence_level \<Rightarrow> go_error option" where
  "confidence_is_valid (OtherConfidence s) = Some (Errf ''invalid confidence level: %q'' [s])"
| "confidence_is_valid _ = None"

datatype completeness = Complete | Partial | Unobserved | OtherCompleteness string

fun completeness_is_valid :: "completeness \<Rightarrow> go_error option" where
  "completeness_is_valid (OtherCompleteness s) = Some (Errf ''invalid completeness: %q'' [s])"
| "completeness_is_valid _ = None"

type_synonym precedence = "8 word"

definition PrecedenceLive :: precedence where "PrecedenceLive = 1"
definition PrecedenceRuntime :: precedence where "PrecedenceRuntime = 2"
definition PrecedenceConfig :: precedence where "PrecedenceConfig = 3"
definition PrecedenceKnowledge :: precedence where "PrecedenceKnowledge = 4"
definition PrecedenceHeuristic :: precedence where "PrecedenceHeuristic = 5"

lemmas precedence_defs =
  PrecedenceLive_def PrecedenceRuntime_def PrecedenceConfig_def PrecedenceKnowledge_def
  PrecedenceHeuristic_def

definition precedence_is_valid :: "precedence \<Rightarrow> go_error option" where
  "precedence_is_valid p =
     (if p \<in> {PrecedenceLive, PrecedenceRuntime, PrecedenceConfig, PrecedenceKnowledge, PrecedenceHeuristic}
      then None else Some (Err ''invalid evidence precedence''))"

definition precedence_string :: "precedence \<Rightarrow> string" where
  "precedence_string p =
     (if p = PrecedenceLive then ''live''
      else if p = PrecedenceRuntime then ''runtime''
      else if p = PrecedenceConfig then ''config''
      else if p = PrecedenceKnowledge then ''knowledge''
      else if p = PrecedenceHeuristic then ''heuristic''
      else ''unknown'')"

definition overrides :: "precedence \<Rightarrow> precedence \<Rightarrow> bool" where
  "overrides p other =
     (if precedence_is_valid p \<noteq> None \<or> precedence_is_valid other \<noteq> None then False else p < other)"

lemma precedence_is_valid_iff: "precedence_is_valid p = None \<longleftrightarrow> p \<in> {1, 2, 3, 4, 5}"
  by (auto simp: precedence_is_valid_def precedence_defs)

lemma precedence_valid_range: "precedence_is_valid p = None \<Longrightarrow> 1 \<le> p \<and> p \<le> PrecedenceHeuristic"
  by (auto simp: precedence_is_valid_iff precedence_defs)

lemma state_is_valid_iff [simp]: "state_is_valid s = None \<longleftrightarrow> (\<nexists>t. s = OtherState t)"
  by (cases s) auto

lemma confidence_is_valid_iff [simp]: "confidence_is_valid c = None \<longleftrightarrow> (\<nexists>t. c = OtherConfidence t)"
  by (cases c) auto

section \<open>Capability identifiers\<close>

type_synonym capability_id = string

definition canonical_namespaces :: "string list" where
  "canonical_namespaces =
     [''host'', ''runtime'', ''container'', ''image'', ''network'', ''storage'', ''systemd'', ''context'']"

definition minCapabilitySegments :: nat where
  "minCapabilitySegments = 2"

text \<open>The regular expression \<open>^[a-z0-9_]+$\<close>.\<close>

definition segment_matches :: "string \<Rightarrow> bool" where
  "segment_matches s \<longleftrightarrow> s \<noteq> [] \<and> list_all (\<lambda>c. is_lower c \<or> is_digit c \<or> c = CHR ''_'') s"

definition id_namespace :: "capability_id \<Rightarrow> string" where
  "id_namespace cid = hd (split_on CHR ''.'' cid)"

definition id_name :: "capability_id \<Rightarrow> string" where
  "id_name cid = last (split_on CHR ''.'' cid)"

definition id_subsystem :: "capability_id \<Rightarrow> string" where
  "id_subsystem cid =
     (let segments = split_on CHR ''.'' cid
      in if length segments \<le> minCapabilitySegments then ''''
         else join_with ''.'' (butlast (tl segments)))"

definition id_validate :: "capability_id \<Rightarrow> go_error option" where
  "id_validate cid =
     (if cid = '''' then Some (Err ''capability ID cannot be empty'')
      else let segments = split_on CHR ''.'' cid
      in if length segments < minCapabilitySegments
         then Some (Errf ''capability ID %q must contain at least two dot-separated segments'' [cid])
      else if hd segments \<notin> set canonical_namespaces
         then Some (Errf ''unknown canonical namespace %q in capability ID %q'' [hd segments, cid])
      else first_error (\<lambda>seg. if segment_matches seg then None
             else Some (Errf ''invalid segment %q in capability ID %q: must match ^[a-z0-9_]+$'' [seg, cid])) segments)"

lemma id_validate_None:
  "id_validate cid = None \<longleftrightarrow>
     2 \<le> length (split_on CHR ''.'' cid) \<and> id_namespace cid \<in> set canonical_namespaces \<and>
     list_all segment_matches (split_on CHR ''.'' cid)"
  by (cases "cid = []")
    (auto simp: id_validate_def Let_def minCapabilitySegments_def id_namespace_def list_all_iff not_less)

section \<open>Scopes, evidence, capabilities\<close>

record scope =
  run_id :: string
  context_id :: string
  sc_runtime :: string
  sc_endpoint :: string

text \<open>The zero value of \<open>model.EvaluationScope\<close>.\<close>

definition empty_scope :: scope where
  "empty_scope = \<lparr>run_id = '''', context_id = '''', sc_runtime = '''', sc_endpoint = ''''\<rparr>"

definition scope_is_valid :: "scope \<Rightarrow> go_error option" where
  "scope_is_valid s =
     (if run_id s = '''' \<or> context_id s = '''' \<or> (sc_runtime s = '''') \<noteq> (sc_endpoint s = '''')
      then Some (Err ''evaluation scope requires run, context and a paired runtime/endpoint'') else None)"

type_synonym instant = int

definition is_zero :: "instant \<Rightarrow> bool" where
  "is_zero t \<longleftrightarrow> t = 0"

definition after :: "instant \<Rightarrow> instant \<Rightarrow> bool" where
  "after t u \<longleftrightarrow> u < t"

text \<open>
  The message of a diagnostic is a fixed text or the rendering \<open>err.Error()\<close> of an error,
  which is kept unrendered.
\<close>

datatype message = Text string | ErrorText go_error

record diagnostic =
  code :: string
  msg :: message
  reference :: string

record namespace =
  ns_kind :: string
  ns_id :: string

record observation_ref =
  or_id :: string
  or_probe :: string

text \<open>\<open>model.EvidenceRef\<close> has the identifier as its only field.\<close>

type_synonym evidence_ref = string

record evidence =
  ev_id :: string
  ev_source :: string
  ev_claim :: string
  ev_precedence :: precedence
  ev_observations :: "observation_ref list"
  ev_timestamp :: instant
  ev_scope :: scope
  ev_completeness :: completeness
  ev_state :: cap_state
  ev_confidence :: confidence_level
  ev_depends_on :: "evidence_ref list"

definition evidence_validate :: "evidence \<Rightarrow> go_error option" where
  "evidence_validate e =
     (if ev_id e = '''' then Some (Err ''evidence ID cannot be empty'')
      else if ev_source e = '''' then Some (Err ''evidence Source cannot be empty'')
      else if ev_claim e = '''' then Some (Err ''evidence Claim cannot be empty'')
      else case precedence_is_valid (ev_precedence e) of
        Some err \<Rightarrow> Some (Wrapf ''invalid evidence precedence: %w'' [err] [])
      | None \<Rightarrow> if is_zero (ev_timestamp e) then Some (Err ''evidence Timestamp cannot be zero'') else None)"

lemma evidence_validate_None:
  "evidence_validate e = None \<longleftrightarrow>
     ev_id e \<noteq> '''' \<and> ev_source e \<noteq> '''' \<and> ev_claim e \<noteq> '''' \<and>
     precedence_is_valid (ev_precedence e) = None \<and> ev_timestamp e \<noteq> 0"
  by (auto simp: evidence_validate_def is_zero_def split: option.splits)

record capability =
  cap_scope :: scope
  cap_id :: capability_id
  cap_state :: cap_state
  cap_confidence :: confidence_level
  cap_reason :: string
  cap_evidence :: "evidence_ref list"

record candidate =
  cand_scope :: scope
  cand_capabilities :: "capability list"
  cand_evidence :: "evidence list"

definition capability_validate :: "capability \<Rightarrow> go_error option" where
  "capability_validate c =
     (case id_validate (cap_id c) of
        Some err \<Rightarrow> Some (Wrapf ''invalid capability ID: %w'' [err] [])
      | None \<Rightarrow> (case state_is_valid (cap_state c) of
          Some err \<Rightarrow> Some (Wrapf ''invalid capability state: %w'' [err] [])
        | None \<Rightarrow> (case confidence_is_valid (cap_confidence c) of
            Some err \<Rightarrow> Some (Wrapf ''invalid capability confidence: %w'' [err] [])
          | None \<Rightarrow> None)))"

lemma capability_validate_None:
  "capability_validate c = None \<longleftrightarrow>
     id_validate (cap_id c) = None \<and> state_is_valid (cap_state c) = None \<and>
     confidence_is_valid (cap_confidence c) = None"
  by (auto simp: capability_validate_def simp del: state_is_valid_iff confidence_is_valid_iff
        split: option.splits)

section \<open>Properties\<close>

lemma overrides_iff:
  "overrides p q \<longleftrightarrow> p \<in> {1, 2, 3, 4, 5} \<and> q \<in> {1, 2, 3, 4, 5} \<and> p < q"
  by (auto simp: overrides_def precedence_is_valid_iff)

text \<open>the identifier of an accepted capability is recovered from the three parts the accessors
  return: namespace, subsystem and name joined by dots give the identifier back, where the
  subsystem is empty exactly for the two-segment form, the namespace is canonical, and neither
  the namespace nor the name is empty or has a dot in it.
\<close>

lemma capability_id_parts:
  assumes "id_validate cid = None"
  shows "cid = id_namespace cid @ ''.'' @
           (if id_subsystem cid = '''' then '''' else id_subsystem cid @ ''.'') @ id_name cid \<and>
         id_namespace cid \<in> set canonical_namespaces \<and>
         segment_matches (id_namespace cid) \<and> segment_matches (id_name cid) \<and>
         CHR ''.'' \<notin> set (id_name cid) \<and>
         (id_subsystem cid = '''' \<longleftrightarrow> length (split_on CHR ''.'' cid) = 2)"
proof -
  let ?segs = "split_on CHR ''.'' cid"
  from assms have len: "2 \<le> length ?segs" and ns: "id_namespace cid \<in> set canonical_namespaces"
    and all: "list_all segment_matches ?segs" by (simp_all add: id_validate_None)
  from len obtain a mid z where segs: "?segs = a # mid @ [z]"
    by (cases ?segs; cases "tl ?segs" rule: rev_cases) auto
  have cid: "cid = join_with ''.'' (a # mid @ [z])" using join_split [of "CHR ''.''" cid] segs by simp
  have snoc: "join_with ''.'' (xs @ [z]) = (if xs = [] then z else join_with ''.'' xs @ ''.'' @ z)" for xs
    by (induction xs rule: induct_list012) auto
  have nonempty: "join_with ''.'' mid \<noteq> ''''" if "mid \<noteq> []"
    using that all segs by (cases mid rule: remdups_adj.cases) (auto simp: segment_matches_def)
  have acc: "id_namespace cid = a" "id_name cid = z"
    "id_subsystem cid = (if mid = [] then '''' else join_with ''.'' mid)"
    using segs by (auto simp: id_namespace_def id_name_def id_subsystem_def minCapabilitySegments_def Let_def
        butlast_append)
  have "cid = a @ ''.'' @ join_with ''.'' (mid @ [z])" using cid by (cases mid) auto
  then have "cid = id_namespace cid @ ''.'' @
      (if id_subsystem cid = '''' then '''' else id_subsystem cid @ ''.'') @ id_name cid"
    using acc snoc [of mid] nonempty by (auto split: if_splits)
  moreover have "segment_matches (id_namespace cid)" "segment_matches (id_name cid)"
    using all segs acc by auto
  moreover have "CHR ''.'' \<notin> set (id_name cid)"
    using split_on_no_sep [of z "CHR ''.''" cid] segs acc by simp
  moreover have "id_subsystem cid = '''' \<longleftrightarrow> length ?segs = 2"
    using acc nonempty segs by (cases mid) auto
  ultimately show ?thesis using ns by blast
qed

lemma capability_id_parts_witness:
  "id_validate ''runtime.podman.network.netavark'' = None \<and>
   id_subsystem ''runtime.podman.network.netavark'' = ''podman.network'' \<and>
   ''runtime.podman.network.netavark'' =
     id_namespace ''runtime.podman.network.netavark'' @ ''.'' @
     (if id_subsystem ''runtime.podman.network.netavark'' = '''' then ''''
      else id_subsystem ''runtime.podman.network.netavark'' @ ''.'') @
     id_name ''runtime.podman.network.netavark''"
proof -
  have h: "id_validate ''runtime.podman.network.netavark'' = None" by code_simp
  have "id_subsystem ''runtime.podman.network.netavark'' = ''podman.network''" by code_simp
  with h capability_id_parts [OF h] show ?thesis by blast
qed

end
