(* ===== verification/Model_Identity.thy ===== *)
theory Model_Identity
  imports Model_Core
begin

text \<open>
  Identities and subordinate-id ranges: \<open>internal/model/target.go\<close>, \<open>identity.go\<close> and the
  records of \<open>context.go\<close>. Ids are \<open>uint32\<close> values (\<open>32 word\<close>); range ends are computed in
  64 bits, as in the source, so they do not wrap. The slice sort of \<open>SubIDRanges.IsValid\<close>
  is a stable sort by the start: the source's sort is not stable, but ranges with the same
  start give the same verdict and the same error in either order.
\<close>

section \<open>Records\<close>

record user_identity =
  uid :: "32 word"
  gid :: "32 word"
  username :: string
  home_dir :: string
  supplementary_groups :: "32 word list"
  groups_known :: bool

record sub_id_range =
  range_start :: "32 word"
  range_length :: "32 word"

record identity_context =
  id_execution :: "user_identity option"
  id_selection :: string
  id_current :: "user_identity option"
  id_target :: "user_identity option"
  id_is_rootless :: "bool option"
  id_sub_uid_ranges :: "sub_id_range list"
  id_sub_gid_ranges :: "sub_id_range list"
  id_xdg_runtime_dir :: string
  id_has_user_systemd :: "bool option"
  id_in_container :: "bool option"

record current_credentials =
  cc_uid :: "32 word"
  cc_euid :: "32 word"
  cc_gid :: "32 word"
  cc_egid :: "32 word"
  cc_groups :: "32 word list"
  cc_groups_known :: bool

definition max_uint32 :: "32 word" where
  "max_uint32 = 4294967295"

definition MaxIdentityGroups :: nat where
  "MaxIdentityGroups = 65536"

section \<open>Selectors and identities\<close>

definition target_name_char :: "char \<Rightarrow> bool" where
  "target_name_char c \<longleftrightarrow> is_lower c \<or> is_upper c \<or> is_digit c \<or> c \<in> set ''_.-''"

definition target_selector_is_valid :: "string \<Rightarrow> go_error option" where
  "target_selector_is_valid v =
     (if v = '''' \<or> v = ''current'' then None
      else case cut_at CHR '':'' v of
        None \<Rightarrow> Some (Err ''invalid target selector'')
      | Some (kind, value) \<Rightarrow>
          if value = '''' then Some (Err ''invalid target selector'')
          else if kind = ''uid'' then
            (if \<not> list_all is_digit value then Some (Err ''invalid numeric target'')
             else case parse_uint 32 value of
               None \<Rightarrow> Some (Err ''invalid numeric target'')
             | Some n \<Rightarrow> if n = unat max_uint32 then Some (Err ''invalid numeric target'') else None)
          else if kind = ''user'' then
            (if length value > 256 \<or> value = ''.'' \<or> value = ''..'' then Some (Err ''target name too long'')
             else if \<not> list_all target_name_char value then Some (Err ''invalid target name'')
             else None)
          else Some (Err ''invalid target selector''))"

text \<open>The loop over the groups with its \<open>seen\<close> set.\<close>

fun groups_check :: "32 word set \<Rightarrow> 32 word list \<Rightarrow> go_error option" where
  "groups_check seen [] = None"
| "groups_check seen (g # gs) =
     (if g = max_uint32 \<or> g \<in> seen then Some (Err ''invalid or duplicate supplementary group'')
      else groups_check (insert g seen) gs)"

definition user_identity_is_valid :: "user_identity \<Rightarrow> go_error option" where
  "user_identity_is_valid u =
     (if uid u = max_uint32 \<or> gid u = max_uint32 \<or> length (supplementary_groups u) > MaxIdentityGroups
        then Some (Err ''invalid identity IDs or group count'')
      else if \<not> groups_known u \<and> length (supplementary_groups u) \<noteq> 0
        then Some (Err ''unobserved groups have values'')
      else groups_check {} (supplementary_groups u))"

fun credential_groups_check :: "32 word set \<Rightarrow> 32 word list \<Rightarrow> go_error option" where
  "credential_groups_check seen [] = None"
| "credential_groups_check seen (g # gs) =
     (if g \<in> seen then Some (Err ''duplicate supplementary group'')
      else credential_groups_check (insert g seen) gs)"

definition current_credentials_is_valid :: "current_credentials \<Rightarrow> go_error option" where
  "current_credentials_is_valid c =
     (if cc_uid c \<noteq> cc_euid c \<or> cc_gid c \<noteq> cc_egid c
        then Some (Err ''real and effective credentials differ'')
      else if \<not> cc_groups_known c \<and> length (cc_groups c) \<noteq> 0
        then Some (Err ''unobserved supplementary groups have values'')
      else credential_groups_check {} (cc_groups c))"

lemma groups_check_None:
  "groups_check seen gs = None \<longleftrightarrow> distinct gs \<and> max_uint32 \<notin> set gs \<and> set gs \<inter> seen = {}"
  by (induction gs arbitrary: seen) auto

lemma credential_groups_check_None:
  "credential_groups_check seen gs = None \<longleftrightarrow> distinct gs \<and> set gs \<inter> seen = {}"
  by (induction gs arbitrary: seen) auto

lemma user_identity_is_valid_None:
  "user_identity_is_valid u = None \<longleftrightarrow>
     uid u \<noteq> max_uint32 \<and> gid u \<noteq> max_uint32 \<and> length (supplementary_groups u) \<le> MaxIdentityGroups \<and>
     (groups_known u \<or> supplementary_groups u = []) \<and>
     distinct (supplementary_groups u) \<and> max_uint32 \<notin> set (supplementary_groups u)"
  by (auto simp: user_identity_is_valid_def groups_check_None not_less)

section \<open>Subordinate ranges\<close>

definition range_end :: "sub_id_range \<Rightarrow> 64 word" where
  "range_end r = ucast (range_start r) + ucast (range_length r)"

definition sub_id_range_is_valid :: "sub_id_range \<Rightarrow> go_error option" where
  "sub_id_range_is_valid r =
     (if range_length r = 0 \<or> range_end r > ucast max_uint32
      then Some (Err ''invalid subordinate range'') else None)"

fun sub_id_loop :: "64 word \<Rightarrow> sub_id_range list \<Rightarrow> go_error option" where
  "sub_id_loop e [] = None"
| "sub_id_loop e (r # rs) =
     (case sub_id_range_is_valid r of
        Some err \<Rightarrow> Some err
      | None \<Rightarrow>
          if ucast (range_start r) < e then Some (Err ''overlapping subordinate ranges'')
          else sub_id_loop (range_end r) rs)"

definition sub_id_ranges_is_valid :: "sub_id_range list \<Rightarrow> go_error option" where
  "sub_id_ranges_is_valid rs = sub_id_loop 0 (sort_key range_start rs)"

text \<open>The ids a range stands for, as numbers.\<close>

definition range_ids :: "sub_id_range \<Rightarrow> nat set" where
  "range_ids r = {unat (range_start r) ..< unat (range_start r) + unat (range_length r)}"

lemma unat_ucast_id [simp]: "unat (ucast (w :: 32 word) :: 64 word) = unat w"
  by (simp add: unsigned_ucast_eq take_bit_nat_eq_self unsigned_less [THEN less_trans])

lemma unat_range_end: "unat (range_end r) = unat (range_start r) + unat (range_length r)"
proof -
  have "unat (range_start r) < 2 ^ 32" "unat (range_length r) < 2 ^ 32"
    using unsigned_less [of "range_start r"] unsigned_less [of "range_length r"] by simp_all
  then show ?thesis
    by (simp add: range_end_def unat_word_ariths unsigned_ucast_eq take_bit_nat_eq_self)
qed

lemma sub_id_range_is_valid_None:
  "sub_id_range_is_valid r = None \<longleftrightarrow>
     0 < unat (range_length r) \<and> unat (range_start r) + unat (range_length r) \<le> 4294967295"
  by (simp add: sub_id_range_is_valid_def word_less_nat_alt unat_range_end max_uint32_def
        unat_gt_0 not_less)

text \<open>A symmetric pairwise relation does not depend on the order of the list.\<close>

lemma sorted_wrt_insort_sym:
  assumes "\<And>a b. P a b \<Longrightarrow> P b a"
  shows "sorted_wrt P (insort_key f x xs) \<longleftrightarrow> (\<forall>y\<in>set xs. P x y) \<and> sorted_wrt P xs"
  using assms by (induction xs) (auto simp: set_insort_key)

lemma sorted_wrt_sort_sym:
  assumes "\<And>a b. P a b \<Longrightarrow> P b a"
  shows "sorted_wrt P (sort_key f xs) \<longleftrightarrow> sorted_wrt P xs"
  by (induction xs) (simp_all add: sorted_wrt_insort_sym assms)

definition disjoint_ranges :: "sub_id_range \<Rightarrow> sub_id_range \<Rightarrow> bool" where
  "disjoint_ranges a b \<longleftrightarrow> range_ids a \<inter> range_ids b = {}"

lemma disjoint_after:
  assumes "sub_id_range_is_valid a = None" "sub_id_range_is_valid b = None" "range_start a \<le> range_start b"
  shows "disjoint_ranges a b \<longleftrightarrow> range_end a \<le> ucast (range_start b)"
proof -
  have "0 < unat (range_length a)" "0 < unat (range_length b)" "unat (range_start a) \<le> unat (range_start b)"
    using assms by (simp_all add: sub_id_range_is_valid_None word_le_nat_alt)
  then show ?thesis
    by (auto simp: disjoint_ranges_def range_ids_def word_le_nat_alt unat_range_end)
qed

lemma sub_id_loop_None:
  "sorted (map range_start rs) \<Longrightarrow>
     sub_id_loop e rs = None \<longleftrightarrow>
       (\<forall>r\<in>set rs. sub_id_range_is_valid r = None \<and> e \<le> ucast (range_start r)) \<and> sorted_wrt disjoint_ranges rs"
proof (induction rs arbitrary: e)
  case Nil
  then show ?case by simp
next
  case (Cons r rs)
  have step: "range_end r \<le> ucast (range_start s) \<longleftrightarrow> disjoint_ranges r s"
    if "s \<in> set rs" "sub_id_range_is_valid r = None" "sub_id_range_is_valid s = None" for s
    using disjoint_after [of r s] that Cons.prems by auto
  have mono: "e \<le> ucast (range_start s)" if "s \<in> set rs" "e \<le> ucast (range_start r)" for s
  proof -
    have "range_start r \<le> range_start s" using that Cons.prems by simp
    then have "(ucast (range_start r) :: 64 word) \<le> ucast (range_start s)"
      by (simp add: word_le_nat_alt)
    with that show ?thesis by simp
  qed
  show ?case
    using Cons step mono by (auto simp: not_less split: option.splits)
qed

section \<open>The whole identity context\<close>

fun group_subset_check :: "32 word set \<Rightarrow> 32 word list \<Rightarrow> go_error option" where
  "group_subset_check groups [] = None"
| "group_subset_check groups (g # gs) =
     (if g \<notin> groups then Some (Err ''execution groups differ from target'') else group_subset_check groups gs)"

definition execution_matches :: "user_identity \<Rightarrow> user_identity option \<Rightarrow> go_error option" where
  "execution_matches e t =
     (case t of
        None \<Rightarrow> Some (Err ''execution does not match target'')
      | Some t' \<Rightarrow>
          if \<not> groups_known e \<or> \<not> groups_known t' \<or> uid e \<noteq> uid t' \<or> gid e \<noteq> gid t' \<or>
             length (supplementary_groups e) \<noteq> length (supplementary_groups t')
          then Some (Err ''execution does not match target'')
          else group_subset_check (set (supplementary_groups t')) (supplementary_groups e))"

definition identity_context_is_valid :: "identity_context \<Rightarrow> go_error option" where
  "identity_context_is_valid c =
     (case target_selector_is_valid (id_selection c) of
        Some err \<Rightarrow> Some err
      | None \<Rightarrow>
          (case first_error (\<lambda>u. case u of None \<Rightarrow> None | Some u' \<Rightarrow> user_identity_is_valid u')
                  [id_current c, id_target c, id_execution c] of
             Some err \<Rightarrow> Some err
           | None \<Rightarrow>
               (case (case id_execution c of None \<Rightarrow> None | Some e \<Rightarrow> execution_matches e (id_target c)) of
                  Some err \<Rightarrow> Some err
                | None \<Rightarrow> errors_join [sub_id_ranges_is_valid (id_sub_uid_ranges c),
                                      sub_id_ranges_is_valid (id_sub_gid_ranges c)])))"

lemma group_subset_check_None: "group_subset_check groups gs = None \<longleftrightarrow> set gs \<subseteq> groups"
  by (induction gs) auto

lemma identity_context_is_validD:
  assumes "identity_context_is_valid c = None"
  shows "target_selector_is_valid (id_selection c) = None"
    and "\<And>u. u \<in> {id_current c, id_target c, id_execution c} \<Longrightarrow> u = Some v \<Longrightarrow> user_identity_is_valid v = None"
    and "id_execution c = Some e \<Longrightarrow> execution_matches e (id_target c) = None"
    and "sub_id_ranges_is_valid (id_sub_uid_ranges c) = None"
    and "sub_id_ranges_is_valid (id_sub_gid_ranges c) = None"
  using assms by (auto simp: identity_context_is_valid_def split: option.splits)

section \<open>Properties\<close>

lemma sub_id_ranges_disjoint:
  "sub_id_ranges_is_valid rs = None \<longleftrightarrow>
     (\<forall>r\<in>set rs. sub_id_range_is_valid r = None) \<and> sorted_wrt disjoint_ranges rs"
proof -
  have "sub_id_ranges_is_valid rs = None \<longleftrightarrow>
      (\<forall>r\<in>set rs. sub_id_range_is_valid r = None) \<and> sorted_wrt disjoint_ranges (sort_key range_start rs)"
    by (simp add: sub_id_ranges_is_valid_def sub_id_loop_None)
  also have "\<dots> \<longleftrightarrow> (\<forall>r\<in>set rs. sub_id_range_is_valid r = None) \<and> sorted_wrt disjoint_ranges rs"
    by (subst sorted_wrt_sort_sym) (auto simp: disjoint_ranges_def)
  finally show ?thesis .
qed

text \<open>\<open>SubIDRanges.IsValid\<close>, which sorts a copy and compares neighbours in 64-bit
  arithmetic, accepts a pool exactly when every range is non-empty and ends within 32 bits and
  no two ranges of the pool, in any order, share an id.
\<close>

lemma sub_id_ranges_spec:
  "sub_id_ranges_is_valid rs = None \<longleftrightarrow>
     list_all (\<lambda>r. 0 < unat (range_length r) \<and>
                 unat (range_start r) + unat (range_length r) \<le> 4294967295) rs \<and>
     sorted_wrt (\<lambda>a b. range_ids a \<inter> range_ids b = {}) rs"
  by (simp add: sub_id_ranges_disjoint list_all_iff sub_id_range_is_valid_None disjoint_ranges_def [abs_def])

text \<open>in an accepted identity context that names an execution identity, the execution
  identity is the target's: same uid and gid, both group sets known, and the same set of
  supplementary groups, although the code only checks that the lengths agree and that one list
  is included in the other.
\<close>

lemma execution_is_target:
  assumes "identity_context_is_valid c = None" and "id_execution c = Some e"
  shows "\<exists>t. id_target c = Some t \<and> uid e = uid t \<and> gid e = gid t \<and> groups_known e \<and> groups_known t \<and>
           set (supplementary_groups e) = set (supplementary_groups t)"
proof -
  from identity_context_is_validD(3) [OF assms] obtain t where t: "id_target c = Some t"
    and m: "groups_known e" "groups_known t" "uid e = uid t" "gid e = gid t"
      "length (supplementary_groups e) = length (supplementary_groups t)"
      "set (supplementary_groups e) \<subseteq> set (supplementary_groups t)"
    by (auto simp: execution_matches_def group_subset_check_None split: option.splits if_splits)
  have "distinct (supplementary_groups e)" "distinct (supplementary_groups t)"
    using identity_context_is_validD(2) [OF assms(1)] assms(2) t
    by (auto simp: user_identity_is_valid_None)
  with m have "set (supplementary_groups e) = set (supplementary_groups t)"
    by (intro distinct_set_eq_length)
  with t m show ?thesis by blast
qed

definition example_user :: user_identity where
  "example_user = \<lparr>uid = 1000, gid = 1000, username = ''a'', home_dir = ''/h'',
     supplementary_groups = [4, 27], groups_known = True\<rparr>"

definition example_identity :: identity_context where
  "example_identity = \<lparr>id_execution = Some (example_user\<lparr>supplementary_groups := [27, 4]\<rparr>),
     id_selection = ''current'', id_current = None, id_target = Some example_user,
     id_is_rootless = None, id_sub_uid_ranges = [\<lparr>range_start = 200, range_length = 50\<rparr>,
       \<lparr>range_start = 100, range_length = 100\<rparr>], id_sub_gid_ranges = [],
     id_xdg_runtime_dir = '''', id_has_user_systemd = None, id_in_container = None\<rparr>"

lemma example_identity_valid: "identity_context_is_valid example_identity = None"
  by (simp add: identity_context_is_valid_def example_identity_def example_user_def
      target_selector_is_valid_def user_identity_is_valid_def max_uint32_def MaxIdentityGroups_def
      execution_matches_def sub_id_ranges_is_valid_def sub_id_range_is_valid_def range_end_def)

lemma execution_is_target_witness:
  "\<exists>t. id_target example_identity = Some t \<and>
     uid (example_user\<lparr>supplementary_groups := [27, 4]\<rparr>) = uid t \<and>
     set [27, 4] = set (supplementary_groups t)"
proof -
  have "id_execution example_identity = Some (example_user\<lparr>supplementary_groups := [27, 4]\<rparr>)"
    by (simp add: example_identity_def)
  from execution_is_target [OF example_identity_valid this] show ?thesis by auto
qed

end
