(* ===== verification/Model_Observation.thy ===== *)
theory Model_Observation
  imports Model_Identity
begin

text \<open>
  The typed observations that probes return and evaluators read: \<open>fact.go\<close>,
  \<open>host.go\<close>, \<open>podman.go\<close>, \<open>configuration.go\<close>, \<open>network_configuration.go\<close>,
  \<open>storage.go\<close>, \<open>storage_path.go\<close>, \<open>subids.go\<close>, \<open>user_context.go\<close> and the payloads of
  \<open>evaluation.go\<close> of \<open>internal/model\<close>. A pointer field is an \<open>option\<close>, so an
  unobserved value stays apart from an observed zero. A Go map is an association list with
  one entry per key; its order stands for the iteration order, which Go does not fix, so
  results that depend on iteration are proved independent of it. A Go \<open>int\<close> that
  counts or indexes a slice is a \<open>nat\<close>.
\<close>

section \<open>Podman and executables (podman.go, evaluation.go)\<close>

record podman_version =
  pv_major :: "32 word"
  pv_minor :: "32 word"
  pv_patch :: "32 word"
  pv_canonical :: string
  pv_suffix :: string
  pv_build :: string
  pv_trailing :: string
  pv_raw :: string

record executable_metadata =
  xm_regular :: bool
  xm_executable_bits :: bool
  xm_mode :: "32 word"
  xm_uid :: "32 word option"
  xm_gid :: "32 word option"

record executable_candidate =
  xc_path :: string
  xc_present :: "bool option"
  xc_file :: "executable_metadata option"
  xc_device :: "64 word option"
  xc_inode :: "64 word option"
  xc_executable :: "bool option"
  xc_masked :: bool

record executable_observation =
  x_role :: string
  x_source :: string
  x_source_id :: string
  x_runtime_path :: string
  x_selected_path :: string
  x_candidates :: "executable_candidate list"

record selected_oci_runtime =
  oci_name :: string
  oci_path :: string

record search_location =
  sl_path :: string
  sl_present :: "bool option"
  sl_directory :: "bool option"

record quadlet_observation =
  q_rootless :: bool
  q_reference :: string
  q_locations :: "search_location list"

record runtime_discovery =
  d_path :: string
  d_installed :: "bool option"
  d_file :: "executable_metadata option"

record podman_version_observation =
  v_path :: string
  v_runnable :: "bool option"
  v_version :: "podman_version option"

record podman_info =
  p_rootless_network_cmd :: "string option"
  p_storage_mount_program :: string
  p_oci_runtime :: "selected_oci_runtime option"
  p_conmon_path :: string
  p_aardvark_path :: string
  p_pasta_path :: string
  p_slirp_path :: string
  p_version_parts :: "podman_version option"
  p_path :: string
  p_graph_root :: "string option"
  p_run_root :: "string option"
  p_service_is_remote :: "bool option"
  p_version :: string
  p_network_backend :: "string option"
  p_storage_driver :: "string option"
  p_cgroup_version :: "string option"
  p_cgroup_manager :: "string option"
  p_rootless :: "bool option"
  p_helper_path :: string
  p_available :: "bool option"

record podman_helper =
  h_path :: string
  h_info_id :: string
  h_helper_path :: string
  h_present :: "bool option"

section \<open>Configuration (configuration.go, network\_configuration.go, storage.go)\<close>

record config_string =
  cs_invalid :: bool
  cs_value :: string
  cs_source_id :: string

record config_list =
  cl_invalid_indices :: "nat list"
  cl_unmodeled_indices :: "nat list"
  cl_values :: "string list"
  cl_origins :: "string list"
  cl_source_id :: string
  cl_append :: "bool option"
  cl_inherited_default :: bool

record config_redacted_list =
  cr_count :: nat
  cr_source_id :: string
  cr_append :: "bool option"
  cr_inherited_default :: bool

record config_uint =
  cu_value :: "64 word"
  cu_source_id :: string

record config_bool =
  cb_value :: bool
  cb_source_id :: string

record engine_configuration =
  e_runtime :: "config_string option"
  e_cgroup_manager :: "config_string option"
  e_runtimes :: "(string \<times> config_list) list"
  e_conmon_path :: "config_list option"
  e_helper_binaries_dir :: "config_list option"
  e_runtime_path :: "config_list option"
  e_environment :: "config_redacted_list option"
  e_selection_overrides :: bool
  e_unprojected_field_count :: nat

record network_configuration =
  n_strings :: "(string \<times> config_string) list"
  n_lists :: "(string \<times> config_list) list"
  n_dns_bind_port :: "config_uint option"
  n_pasta_options :: "config_redacted_list option"
  n_helper_paths :: "(string \<times> config_list) list"
  n_engine_source_id :: string
  n_unprojected_field_count :: nat

record storage_configuration =
  st_problems :: "string list"
  st_mount_program :: "config_string option"
  st_driver :: "config_string option"
  st_driver_priority :: "config_list option"
  st_run_root :: "config_string option"
  st_graph_root :: "config_string option"
  st_rootless_storage_path :: "config_string option"
  st_image_store :: "config_string option"
  st_transient_store :: "config_bool option"
  st_additional_image_stores :: "config_list option"
  st_additional_layer_stores :: "config_list option"
  st_options :: "(string \<times> config_string) list"
  st_unprojected_field_count :: nat

record configuration_source =
  src_network :: "network_configuration option"
  src_phase :: string
  src_storage :: "storage_configuration option"
  src_id :: string
  src_path :: string
  src_kind :: string
  src_status :: string
  src_order :: nat
  src_selected :: bool
  src_applied :: bool
  src_sha256 :: string
  src_field :: string
  src_problem :: string
  src_engine :: "engine_configuration option"

record configuration_observation =
  c_network :: "network_configuration option"
  c_storage :: "storage_configuration option"
  c_family :: string
  c_runtime_path :: string
  c_version_source_id :: string
  c_profile :: string
  c_references :: "string list"
  c_selection_complete :: bool
  c_parse_complete :: bool
  c_sources :: "configuration_source list"
  c_engine :: "engine_configuration option"

section \<open>Storage paths, subordinate ids, user context (storage\_path.go, subids.go, user\_context.go)\<close>

record storage_filesystem =
  fs_type :: int
  fs_read_only :: "bool option"
  fs_nosuid :: "bool option"
  fs_noexec :: "bool option"

record storage_path_metadata =
  sp_role :: string
  sp_path :: string
  sp_present :: "bool option"
  sp_directory :: "bool option"
  sp_checked_path :: string
  sp_ancestor :: bool
  sp_checked_uid :: "32 word option"
  sp_checked_gid :: "32 word option"
  sp_checked_mode :: "32 word option"
  sp_accessible :: "bool option"
  sp_filesystem :: "storage_filesystem option"

record storage_path_observation =
  so_source :: string
  so_source_id :: string
  so_runtime_path :: string
  so_writable :: bool
  so_paths :: "storage_path_metadata list"

record sub_id_record =
  sr_line :: "32 word"
  sr_owner :: string
  sr_range :: "sub_id_range option"
  sr_problem :: string

record sub_id_allocation =
  sa_present :: "bool option"
  sa_ranges :: "sub_id_range list"
  sa_records :: "sub_id_record list"
  sa_total :: "64 word option"
  sa_valid :: "bool option"

record mapping_capabilities =
  mc_inheritable_setuid :: bool
  mc_inheritable_setgid :: bool
  mc_present :: bool
  mc_revision :: "32 word"
  mc_effective :: bool
  mc_setuid :: bool
  mc_setgid :: bool
  mc_root_id :: "32 word option"

record mapping_helper =
  mh_privilege_blocked :: "bool option"
  mh_name :: string
  mh_path :: string
  mh_present :: "bool option"
  mh_regular :: "bool option"
  mh_uid :: "32 word option"
  mh_gid :: "32 word option"
  mh_mode :: "32 word option"
  mh_setuid :: "bool option"
  mh_setgid :: "bool option"
  mh_executable :: "bool option"
  mh_capabilities :: "mapping_capabilities option"
  mh_nosuid :: "bool option"
  mh_noexec :: "bool option"
  mh_no_new_privileges :: "bool option"
  mh_usable :: "bool option"

record sub_id_observation =
  si_uid :: sub_id_allocation
  si_gid :: sub_id_allocation
  si_provider :: string
  si_helpers :: "mapping_helper list"

record runtime_directory_observation =
  rd_path :: string
  rd_source :: string
  rd_present :: "bool option"
  rd_directory :: "bool option"
  rd_uid :: "32 word option"
  rd_mode :: "32 word option"
  rd_private :: "bool option"
  rd_valid :: "bool option"

record user_context_observation =
  u_runtime :: runtime_directory_observation
  u_socket_present :: "bool option"
  u_socket_valid :: "bool option"
  u_accessible :: "bool option"
  u_linger_enabled :: "bool option"
  u_query_attempted :: bool
  u_manager_version :: string

section \<open>Host facts (host.go)\<close>

record kernel_version =
  k_major :: "32 word"
  k_minor :: "32 word"
  k_patch :: "32 word"

record os_observation =
  os_id :: string
  os_version_id :: string
  os_name :: string
  os_pretty_name :: string
  os_variant :: string
  os_id_like :: "string list"

record kernel_observation =
  ko_release :: string
  ko_version :: string
  ko_machine :: string
  ko_architecture :: string
  ko_parts :: "kernel_version option"

record systemd_observation =
  sd_installed :: "bool option"
  sd_utility_installed :: "bool option"
  sd_running :: "bool option"
  sd_runtime_directory :: "bool option"
  sd_accessible :: "bool option"
  sd_version :: string
  sd_utility_path :: string

record cgroup_membership =
  cm_hierarchy :: string
  cm_controllers :: "string list"
  cm_path :: string

record cgroup_mount =
  cg_path :: string
  cg_root :: string
  cg_type :: string
  cg_controller_path :: string
  cg_controllers :: "string list"
  cg_subtree_control :: "string list"

record cgroup_observation =
  cg_mode :: string
  cg_memberships :: "cgroup_membership list"
  cg_mounts :: "cgroup_mount list"

record apparmor_profile =
  aa_name :: string
  aa_mode :: string

record security_observation =
  se_selinux :: string
  se_lsms :: "string list"
  se_apparmor_enabled :: "bool option"
  se_apparmor_profiles :: "apparmor_profile list"
  se_seccomp_mode :: "32 word option"
  se_seccomp_actions :: "string list"
  se_no_new_privileges :: "bool option"
  se_process_scope :: string
  se_unprivileged_userns_clone :: "bool option"
  se_max_user_namespaces :: "64 word option"

record filesystem_registration =
  fr_name :: string
  fr_nodev :: bool

record filesystem_observation =
  fo_registered :: "filesystem_registration list"
  fo_overlay_registered :: "bool option"
  fo_fuse_registered :: "bool option"

record network_observation =
  no_protocols :: "string list"
  no_ipv4_tcp :: "bool option"
  no_ipv4_udp :: "bool option"
  no_ipv6_tcp :: "bool option"
  no_ipv6_udp :: "bool option"
  no_ipv6_all_disabled :: "bool option"
  no_ipv6_default_disabled :: "bool option"

record resolver_observation =
  ro_present :: "bool option"
  ro_nameservers :: "string list"
  ro_domain :: string
  ro_search :: "string list"
  ro_options :: "string list"

record host_observation =
  ho_filesystems :: "filesystem_observation option"
  ho_network :: "network_observation option"
  ho_resolver :: "resolver_observation option"
  ho_cgroups :: "cgroup_observation option"
  ho_namespaces :: "namespace list option"
  ho_security :: "security_observation option"
  ho_os :: "os_observation option"
  ho_kernel :: "kernel_observation option"
  ho_systemd :: "systemd_observation option"

section \<open>Facts, observations, contexts (fact.go, context.go)\<close>

record identity_observation =
  io_selection :: string
  io_account_source :: string
  io_groups_source :: string
  io_resolved :: bool

record fact =
  f_id :: string
  f_scope :: scope
  f_completeness :: completeness
  f_source :: string
  f_raw_data :: string
  f_text :: string
  f_timestamp :: instant

record observation =
  ob_storage_paths :: "storage_path_observation option"
  ob_configuration :: "configuration_observation option"
  ob_quadlet :: "quadlet_observation option"
  ob_executable :: "executable_observation option"
  ob_user_context :: "user_context_observation option"
  ob_subids :: "sub_id_observation option"
  ob_authority :: string
  ob_identity :: "identity_observation option"
  ob_host :: "host_observation option"
  ob_podman_helper :: "podman_helper option"
  ob_id :: string
  ob_probe_id :: string
  ob_timestamp :: instant
  ob_summary :: string
  ob_scope :: scope
  ob_completeness :: completeness
  ob_facts :: "fact list"
  ob_diagnostics :: "diagnostic list"
  ob_podman :: "podman_info option"
  ob_discovery :: "runtime_discovery option"
  ob_version :: "podman_version_observation option"

record host_context =
  hc_os :: string
  hc_os_version :: string
  hc_kernel :: string
  hc_architecture :: string
  hc_cgroup_version :: string
  hc_systemd_active :: "bool option"

record runtime_context =
  rc_active_runtimes :: "string list"
  rc_default_runtime :: string

record evaluation_context =
  ctx_id :: string
  ctx_namespaces :: "namespace list"
  ctx_host :: host_context
  ctx_identity :: identity_context
  ctx_runtime :: runtime_context
  ctx_search_paths :: "string list"

end
