(* ===== verification/Host_Kernel.thy ===== *)
theory Host_Kernel
  imports Model_Observation
begin

text \<open>
  The comparison of kernel versions of \<open>internal/host/kernel_compare.go\<close>.
\<close>

definition cmp_compare :: "'a::linorder \<Rightarrow> 'a \<Rightarrow> int" where
  "cmp_compare a b = (if a < b then -1 else if b < a then 1 else 0)"

text \<open>The loop over the three pairs of components returns the first non-zero order.\<close>

fun compare_pairs :: "('a::linorder \<times> 'a) list \<Rightarrow> int" where
  "compare_pairs [] = 0"
| "compare_pairs ((x, y) # rest) =
     (let order = cmp_compare x y in if order \<noteq> 0 then order else compare_pairs rest)"

definition compare_kernel_versions :: "kernel_version \<Rightarrow> kernel_version \<Rightarrow> int" where
  "compare_kernel_versions a b =
     compare_pairs [(k_major a, k_major b), (k_minor a, k_minor b), (k_patch a, k_patch b)]"

lemma compare_pairs_Cons:
  "compare_pairs ((x, y) # rest) = (if x < y then -1 else if y < x then 1 else compare_pairs rest)"
  by (simp add: cmp_compare_def Let_def)

declare compare_pairs.simps(2) [simp del] compare_pairs_Cons [simp]

lemma compare_pairs_swap: "compare_pairs (map prod.swap ps) = - compare_pairs ps"
  by (induction ps) auto

lemma compare_pairs_zero: "compare_pairs ps = 0 \<longleftrightarrow> (\<forall>(x, y)\<in>set ps. x = y)"
  by (induction ps) (auto split: if_splits)

lemma compare_pairs_trans:
  "\<lbrakk>length xs = length ys; length ys = length zs; compare_pairs (zip xs ys) < 0; compare_pairs (zip ys zs) < 0\<rbrakk>
     \<Longrightarrow> compare_pairs (zip xs zs) < 0"
proof (induction xs ys zs rule: list_induct3)
  case Nil
  then show ?case by simp
next
  case (Cons x xs y ys z zs)
  then show ?case
    by (cases x y rule: linorder_cases; cases y z rule: linorder_cases)
      (auto dest: order.strict_trans less_asym split: if_splits)
qed

text \<open>the version comparison is the comparison function of a total order on the three
  numbers: antisymmetric, zero only for equal versions, and transitive.
\<close>

lemma compare_kernel_versions_order:
  "compare_kernel_versions b a = - compare_kernel_versions a b \<and>
   (compare_kernel_versions a b = 0 \<longleftrightarrow> a = b) \<and>
   \<not> (compare_kernel_versions a b < 0 \<and> compare_kernel_versions b c < 0 \<and> compare_kernel_versions a c \<ge> 0)"
proof (intro conjI notI)
  show "compare_kernel_versions b a = - compare_kernel_versions a b"
    using compare_pairs_swap [of "[(k_major a, k_major b), (k_minor a, k_minor b), (k_patch a, k_patch b)]"]
    by (simp add: compare_kernel_versions_def)
  show "compare_kernel_versions a b = 0 \<longleftrightarrow> a = b"
    by (cases a; cases b) (simp add: compare_kernel_versions_def compare_pairs_zero del: compare_pairs_Cons)
  assume "compare_kernel_versions a b < 0 \<and> compare_kernel_versions b c < 0 \<and> compare_kernel_versions a c \<ge> 0"
  then show False
    using compare_pairs_trans [of "[k_major a, k_minor a, k_patch a]" "[k_major b, k_minor b, k_patch b]"
        "[k_major c, k_minor c, k_patch c]"]
    by (simp add: compare_kernel_versions_def del: compare_pairs_Cons)
qed

end
