(* ===== verification/Requirement_Logic.thy ===== *)
theory Requirement_Logic
  imports Prelude
begin

text \<open>
  The three-valued logic of \<open>internal/requirement/logic.go\<close> and \<open>state.go\<close>. A
  \<open>RequirementState\<close> is a string type, so it has values outside its three constants
  (\<open>OtherRequirement\<close>), which the connectives treat as indeterminate.
\<close>

datatype req_state = Satisfied | Unsatisfied | Indeterminate | OtherRequirement string

fun req_string :: "req_state \<Rightarrow> string" where
  "req_string Satisfied = ''SATISFIED''"
| "req_string Unsatisfied = ''UNSATISFIED''"
| "req_string Indeterminate = ''INDETERMINATE''"
| "req_string (OtherRequirement s) = s"

fun req_is_valid :: "req_state \<Rightarrow> go_error option" where
  "req_is_valid (OtherRequirement s) = Some (Errf ''invalid requirement state: %q'' [s])"
| "req_is_valid _ = None"

definition req_and :: "req_state \<Rightarrow> req_state \<Rightarrow> req_state" where
  "req_and a b =
     (if a = Unsatisfied \<or> b = Unsatisfied then Unsatisfied
      else if req_is_valid a \<noteq> None \<or> req_is_valid b \<noteq> None \<or> a = Indeterminate \<or> b = Indeterminate then Indeterminate
      else Satisfied)"

definition req_or :: "req_state \<Rightarrow> req_state \<Rightarrow> req_state" where
  "req_or a b =
     (if a = Satisfied \<or> b = Satisfied then Satisfied
      else if req_is_valid a \<noteq> None \<or> req_is_valid b \<noteq> None \<or> a = Indeterminate \<or> b = Indeterminate then Indeterminate
      else Unsatisfied)"

fun req_not :: "req_state \<Rightarrow> req_state" where
  "req_not Satisfied = Unsatisfied"
| "req_not Unsatisfied = Satisfied"
| "req_not _ = Indeterminate"

definition req_all :: "req_state list \<Rightarrow> req_state" where
  "req_all states = foldl req_and Satisfied states"

definition req_any :: "req_state list \<Rightarrow> req_state" where
  "req_any states = foldl req_or Unsatisfied states"

section \<open>The interface of a connective\<close>

text \<open>
  A connective has a value that decides it alone and a value that needs every operand. Every other
  combination is indeterminate. Folding it is what the evaluator does with a list of children.
\<close>

locale connective =
  fixes conn :: "req_state \<Rightarrow> req_state \<Rightarrow> req_state" and decided :: req_state and default :: req_state
  assumes distinct_values: "decided \<noteq> default" "decided \<noteq> Indeterminate" "default \<noteq> Indeterminate"
    and conn_decided: "conn a b = decided \<longleftrightarrow> a = decided \<or> b = decided"
    and conn_default: "conn a b = default \<longleftrightarrow> a = default \<and> b = default"
    and conn_values: "conn a b = decided \<or> conn a b = default \<or> conn a b = Indeterminate"
begin

definition combine :: "req_state list \<Rightarrow> req_state" where
  "combine xs = (if decided \<in> set xs then decided else if \<forall>x\<in>set xs. x = default then default else Indeterminate)"

lemma fold_eq: "a \<in> {decided, default, Indeterminate} \<Longrightarrow> foldl conn a xs = combine (a # xs)"
proof (induction xs arbitrary: a)
  case Nil
  then show ?case using distinct_values by (auto simp: combine_def)
next
  case (Cons x xs)
  have "conn a x \<in> {decided, default, Indeterminate}" using conn_values [of a x] by auto
  then have "foldl conn a (x # xs) = combine (conn a x # xs)" using Cons.IH by simp
  also have "\<dots> = combine (a # x # xs)"
  proof -
    have "decided \<in> set (conn a x # xs) \<longleftrightarrow> decided \<in> set (a # x # xs)" using conn_decided [of a x] by auto
    moreover have "(\<forall>y\<in>set (conn a x # xs). y = default) \<longleftrightarrow> (\<forall>y\<in>set (a # x # xs). y = default)"
      using conn_default [of a x] by auto
    ultimately show ?thesis by (simp only: combine_def)
  qed
  finally show ?case .
qed

lemma fold_default: "foldl conn default xs = combine xs"
  using fold_eq [of default xs] distinct_values by (auto simp: combine_def)

lemma fold_determinate:
  assumes "length xs = length ys" and "\<forall>i<length xs. xs ! i \<in> {decided, default} \<longrightarrow> ys ! i = xs ! i"
    and "foldl conn default xs \<noteq> Indeterminate"
  shows "foldl conn default ys = foldl conn default xs"
proof (cases "decided \<in> set xs")
  case True
  then have "decided \<in> set ys" using assms(1,2) by (metis in_set_conv_nth insertI1)
  with True show ?thesis by (simp add: fold_default combine_def)
next
  case False
  with assms(3) have all: "\<forall>x\<in>set xs. x = default" by (auto simp: fold_default combine_def split: if_splits)
  then have "\<forall>i<length xs. ys ! i = xs ! i" using assms(2) by (simp add: nth_mem)
  then have "ys = xs" using assms(1) by (simp add: nth_equalityI)
  then show ?thesis by simp
qed

end

interpretation conjunction: connective req_and Unsatisfied Satisfied
proof
  fix a b
  show "req_and a b = Unsatisfied \<longleftrightarrow> a = Unsatisfied \<or> b = Unsatisfied"
    "req_and a b = Satisfied \<longleftrightarrow> a = Satisfied \<and> b = Satisfied"
    "req_and a b = Unsatisfied \<or> req_and a b = Satisfied \<or> req_and a b = Indeterminate"
    by (cases a; cases b; simp add: req_and_def)+
qed simp_all

interpretation disjunction: connective req_or Satisfied Unsatisfied
proof
  fix a b
  show "req_or a b = Satisfied \<longleftrightarrow> a = Satisfied \<or> b = Satisfied"
    "req_or a b = Unsatisfied \<longleftrightarrow> a = Unsatisfied \<and> b = Unsatisfied"
    "req_or a b = Satisfied \<or> req_or a b = Unsatisfied \<or> req_or a b = Indeterminate"
    by (cases a; cases b; simp add: req_or_def)+
qed simp_all

lemma req_not_and: "req_not (req_and a b) = req_or (req_not a) (req_not b)"
  by (cases a; cases b) (simp_all add: req_and_def req_or_def)

lemma req_not_eq: "req_not x = Satisfied \<longleftrightarrow> x = Unsatisfied" "req_not x = Unsatisfied \<longleftrightarrow> x = Satisfied"
  by (cases x; simp)+

lemma req_not_all: "req_not (req_all xs) = req_any (map req_not xs)"
proof -
  have "Satisfied \<in> set (map req_not xs) \<longleftrightarrow> Unsatisfied \<in> set xs"
    unfolding set_map image_iff by (metis req_not_eq(1))
  moreover have "(\<forall>y\<in>set (map req_not xs). y = Unsatisfied) \<longleftrightarrow> (\<forall>x\<in>set xs. x = Satisfied)"
    by (simp add: req_not_eq)
  ultimately show ?thesis
    unfolding req_all_def req_any_def conjunction.fold_default disjunction.fold_default
      conjunction.combine_def disjunction.combine_def by (simp only: req_not.simps if_distrib [of req_not])
qed

section \<open>Properties\<close>

text \<open>
  \<open>All\<close> is unsatisfied exactly when some operand is, satisfied exactly when every operand
  is, and indeterminate otherwise; \<open>Any\<close> is its dual. Both therefore ignore the order of
  their operands, and \<open>Not\<close> exchanges them. Operands outside the enumeration count as
  indeterminate.
\<close>

lemma all_any_spec:
  "req_all xs = (if Unsatisfied \<in> set xs then Unsatisfied
     else if \<forall>x\<in>set xs. x = Satisfied then Satisfied else Indeterminate) \<and>
   req_any xs = (if Satisfied \<in> set xs then Satisfied
     else if \<forall>x\<in>set xs. x = Unsatisfied then Unsatisfied else Indeterminate) \<and>
   req_not (req_all xs) = req_any (map req_not xs)"
  unfolding req_not_all unfolding req_all_def req_any_def conjunction.fold_default disjunction.fold_default
    conjunction.combine_def disjunction.combine_def by (intro conjI refl)

lemma all_any_spec_witness:
  "req_all [Satisfied, OtherRequirement ''x'', Unsatisfied] = Unsatisfied \<and>
   req_any [Unsatisfied, OtherRequirement ''x''] = Indeterminate"
  using all_any_spec [of "[Satisfied, OtherRequirement ''x'', Unsatisfied]"]
    all_any_spec [of "[Unsatisfied, OtherRequirement ''x'']"] by simp

end
