(* ===== verification/Requirement_Eval.thy ===== *)
theory Requirement_Eval
  imports Requirement_Logic Model_Core
begin

text \<open>
  The requirement evaluator of \<open>internal/requirement/evaluate.go\<close>. A document is a graph of
  \<open>Node\<close> structs linked by pointers, so nodes live in a heap: a pointer is \<open>None\<close> (nil) or an
  address, and sharing and cycles are possible. \<open>validateNode\<close> bounds its own recursion by
  \<open>MaxDepth\<close>. \<open>evaluateNode\<close> does not, so \<open>evaluate_node\<close> has fuel, and \<open>None\<close> stands for a
  run that does not end or dereferences nil; a validated document never needs more fuel than
  \<open>MaxDepth + 1\<close>. The shared counter \<open>*count\<close> is threaded through the calls; the set
  \<open>active\<close> holds the nodes on the current path, as the deferred deletion restores it.
\<close>

definition MaxDepth :: nat where "MaxDepth = 32"
definition MaxNodes :: nat where "MaxNodes = 512"
definition MaxCandidates :: nat where "MaxCandidates = 128"
definition MaxCandidateEntries :: nat where "MaxCandidateEntries = 4096"

type_synonym addr = nat

record node =
  n_capability :: capability_id
  n_all :: "addr option list option"
  n_any :: "addr option list option"
  n_not :: "addr option"

type_synonym node_heap = "addr \<Rightarrow> node"

section \<open>Validation\<close>

definition operators :: "node \<Rightarrow> nat" where
  "operators n = length (filter id [n_capability n \<noteq> '''', n_all n \<noteq> None, n_any n \<noteq> None, n_not n \<noteq> None])"

definition children :: "node \<Rightarrow> addr option list" where
  "children n =
     (if n_not n \<noteq> None then [n_not n]
      else case n_any n of Some cs \<Rightarrow> cs | None \<Rightarrow> (case n_all n of Some cs \<Rightarrow> cs | None \<Rightarrow> []))"

function (sequential) validate_node :: "node_heap \<Rightarrow> addr option \<Rightarrow> nat \<Rightarrow> nat \<Rightarrow> addr set \<Rightarrow> go_error + nat"
  and validate_children :: "node_heap \<Rightarrow> addr option list \<Rightarrow> nat \<Rightarrow> nat \<Rightarrow> addr set \<Rightarrow> go_error + nat" where
  "validate_node h None depth cnt active = Inl (Err ''nil requirement node'')"
| "validate_node h (Some a) depth cnt active =
     (if depth > MaxDepth \<or> cnt + 1 > MaxNodes then Inl (Err ''requirement size limit exceeded'')
      else if a \<in> active then Inl (Err ''cyclic requirement document'')
      else if operators (h a) \<noteq> 1 then Inl (Err ''requirement node needs exactly one operator'')
      else if n_capability (h a) \<noteq> '''' then
        (case id_validate (n_capability (h a)) of Some err \<Rightarrow> Inl err | None \<Rightarrow> Inr (cnt + 1))
      else validate_children h (children (h a)) (depth + 1) (cnt + 1) (insert a active))"
| "validate_children h [] depth cnt active = Inr cnt"
| "validate_children h (c # cs) depth cnt active =
     (case validate_node h c depth cnt active of
        Inl err \<Rightarrow> Inl err
      | Inr cnt' \<Rightarrow> validate_children h cs depth cnt' active)"
  by pat_completeness auto
termination
  by (relation "measures [\<lambda>x. case x of Inl (_, _, d, _) \<Rightarrow> MaxDepth + 1 - d | Inr (_, _, d, _) \<Rightarrow> MaxDepth + 1 - d,
      \<lambda>x. case x of Inl _ \<Rightarrow> 0 | Inr (_, cs, _) \<Rightarrow> Suc (length cs)]")
    (auto simp: not_less MaxDepth_def)

definition validate :: "node_heap \<Rightarrow> addr option \<Rightarrow> go_error option" where
  "validate h root = (case validate_node h root 1 0 {} of Inl err \<Rightarrow> Some err | Inr _ \<Rightarrow> None)"

section \<open>Evaluation\<close>

datatype result =
  Result (rs_state: req_state) (rs_reason: message) (rs_scope: "scope option")
    (rs_diagnostics: "diagnostic list") (rs_children: "result list")

definition uncertain :: "string \<Rightarrow> message \<Rightarrow> result" where
  "uncertain c reason = Result Indeterminate reason None [\<lparr>code = c, msg = reason, reference = ''''\<rparr>] []"

record candidate_index =
  ix_scope :: scope
  ix_caps :: "capability_id \<Rightarrow> capability option"
  ix_evidence :: "string \<Rightarrow> evidence option"

fun index_capabilities :: "scope \<Rightarrow> capability list \<Rightarrow> (capability_id \<Rightarrow> capability option) \<Rightarrow>
    go_error + (capability_id \<Rightarrow> capability option)" where
  "index_capabilities s [] caps = Inr caps"
| "index_capabilities s (c # cs) caps =
     (case capability_validate c of
        Some err \<Rightarrow> Inl err
      | None \<Rightarrow>
          if cap_scope c \<noteq> s then Inl (Err ''capability scope differs from deployment candidate'')
          else if caps (cap_id c) \<noteq> None then Inl (Err ''duplicate capability in deployment candidate'')
          else index_capabilities s cs (caps(cap_id c \<mapsto> c)))"

fun index_candidate_evidence :: "evidence list \<Rightarrow> (string \<Rightarrow> evidence option) \<Rightarrow> go_error + (string \<Rightarrow> evidence option)" where
  "index_candidate_evidence [] evidence = Inr evidence"
| "index_candidate_evidence (e # es) evidence =
     (if evidence (ev_id e) \<noteq> None then Inl (Err ''duplicate evidence in deployment candidate'')
      else index_candidate_evidence es (evidence(ev_id e \<mapsto> e)))"

definition index_candidate :: "candidate \<Rightarrow> go_error + candidate_index" where
  "index_candidate c =
     (case scope_is_valid (cand_scope c) of
        Some err \<Rightarrow> Inl err
      | None \<Rightarrow>
          if length (cand_capabilities c) > MaxCandidateEntries \<or> length (cand_evidence c) > MaxCandidateEntries
          then Inl (Err ''candidate size limit exceeded'')
          else case index_capabilities (cand_scope c) (cand_capabilities c) Map.empty of
            Inl err \<Rightarrow> Inl err
          | Inr caps \<Rightarrow>
              (case index_candidate_evidence (cand_evidence c) Map.empty of
                 Inl err \<Rightarrow> Inl err
               | Inr evidence \<Rightarrow> Inr \<lparr>ix_scope = cand_scope c, ix_caps = caps, ix_evidence = evidence\<rparr>))"

definition bad_reference :: "candidate_index \<Rightarrow> capability_id \<Rightarrow> capability \<Rightarrow> evidence_ref \<Rightarrow> bool" where
  "bad_reference index i c ref =
     (case ix_evidence index ref of
        None \<Rightarrow> True
      | Some ev \<Rightarrow> evidence_validate ev \<noteq> None \<or> ev_scope ev \<noteq> ix_scope index \<or> ev_completeness ev \<noteq> Complete \<or>
          ev_state ev \<noteq> cap_state c \<or> ev_claim ev \<noteq> i \<or> confidence_is_valid (ev_confidence ev) \<noteq> None)"

definition predicate :: "capability_id \<Rightarrow> candidate_index \<Rightarrow> result" where
  "predicate i index =
     (case ix_caps index i of
        None \<Rightarrow> uncertain ''missing_capability'' (Text (''capability '' @ i @ '' was not evaluated''))
      | Some c \<Rightarrow>
          if cap_state c = StateUnknown \<or> cap_state c = StateUnavailable
          then uncertain ''indeterminate_capability'' (Text (i @ '': '' @ state_string (cap_state c)))
          else if cap_evidence c = []
          then uncertain ''missing_evidence'' (Text (''capability '' @ i @ '' has no evidence''))
          else if list_ex (bad_reference index i c) (cap_evidence c)
          then uncertain ''invalid_evidence'' (Text (''capability '' @ i @ '' has invalid supporting evidence''))
          else Result (if cap_state c = StateSupported then Satisfied else Unsatisfied)
                 (Text (i @ '': '' @ state_string (cap_state c))) None [] [])"

text \<open>One round of the loop over the children: fold the state, collect diagnostics and the child.\<close>

definition add_child :: "(req_state \<Rightarrow> req_state \<Rightarrow> req_state) \<Rightarrow> result \<Rightarrow> result \<Rightarrow> result" where
  "add_child conn r child =
     Result (conn (rs_state r) (rs_state child)) (rs_reason r) (rs_scope r)
       (rs_diagnostics r @ rs_diagnostics child) (rs_children r @ [child])"

fun evaluate_node :: "nat \<Rightarrow> node_heap \<Rightarrow> candidate_index \<Rightarrow> addr option \<Rightarrow> result option" where
  "evaluate_node 0 h index p = None"
| "evaluate_node (Suc fuel) h index None = None"
| "evaluate_node (Suc fuel) h index (Some a) =
     (let n = h a in
      if n_capability n \<noteq> '''' then Some (predicate (n_capability n) index)
      else if n_not n \<noteq> None then
        map_option (\<lambda>child. Result (req_not (rs_state child)) (Text ''not'') None (rs_diagnostics child) [child])
          (evaluate_node fuel h index (n_not n))
      else
        let (cs, conn, initial, reason) =
              (case n_any n of
                 Some cs \<Rightarrow> (cs, req_or, Unsatisfied, ''any'')
               | None \<Rightarrow> ((case n_all n of Some cs \<Rightarrow> cs | None \<Rightarrow> []), req_and, Satisfied, ''all''))
        in map_option (foldl (add_child conn) (Result initial (Text reason) None [] []))
             (those (map (evaluate_node fuel h index) cs)))"

definition add_candidate :: "result \<Rightarrow> scope \<Rightarrow> result \<Rightarrow> result" where
  "add_candidate r s child =
     add_child req_or r (Result (rs_state child) (rs_reason child) (Some s) (rs_diagnostics child) (rs_children child))"

fun evaluate_candidates :: "nat \<Rightarrow> node_heap \<Rightarrow> addr option \<Rightarrow> candidate list \<Rightarrow> result \<Rightarrow> result option" where
  "evaluate_candidates fuel h root [] r = Some r"
| "evaluate_candidates fuel h root (c # cs) r =
     (case (case index_candidate c of
              Inl err \<Rightarrow> Some (uncertain ''invalid_candidate'' (ErrorText err))
            | Inr index \<Rightarrow> evaluate_node fuel h index root) of
        None \<Rightarrow> None
      | Some child \<Rightarrow> evaluate_candidates fuel h root cs (add_candidate r (cand_scope c) child))"

definition evaluate_requirement :: "nat \<Rightarrow> node_heap \<Rightarrow> addr option \<Rightarrow> candidate list \<Rightarrow> result option" where
  "evaluate_requirement fuel h root candidates =
     (case validate h root of
        Some err \<Rightarrow> Some (uncertain ''invalid_requirement'' (ErrorText err))
      | None \<Rightarrow>
          if candidates = [] \<or> length candidates > MaxCandidates
          then Some (uncertain ''invalid_candidates'' (Text ''missing or excessive deployment candidates''))
          else evaluate_candidates fuel h root candidates
                 (Result Unsatisfied (Text ''any complete deployment candidate'') None [] []))"

section \<open>Documents as trees\<close>

datatype formula = FCap capability_id | FAll "formula list" | FAny "formula list" | FNot formula

fun nodes :: "formula \<Rightarrow> nat" where
  "nodes (FCap i) = 1"
| "nodes (FAll fs) = Suc (sum_list (map nodes fs))"
| "nodes (FAny fs) = Suc (sum_list (map nodes fs))"
| "nodes (FNot f) = Suc (nodes f)"

text \<open>
  The tree a pointer unfolds to within a depth, when every node of it has exactly one operator,
  its capabilities are valid and no pointer is nil.
\<close>

fun unfold :: "nat \<Rightarrow> node_heap \<Rightarrow> addr option \<Rightarrow> formula option" where
  "unfold 0 h p = None"
| "unfold (Suc d) h None = None"
| "unfold (Suc d) h (Some a) =
     (if operators (h a) \<noteq> 1 then None
      else if n_capability (h a) \<noteq> '''' then
        (if id_validate (n_capability (h a)) = None then Some (FCap (n_capability (h a))) else None)
      else map_option (\<lambda>fs. if n_not (h a) \<noteq> None then FNot (hd fs) else if n_any (h a) \<noteq> None then FAny fs else FAll fs)
             (those (map (unfold d h) (children (h a)))))"

text \<open>What a document says, given the verdict on each capability.\<close>

fun denote :: "(capability_id \<Rightarrow> req_state) \<Rightarrow> formula \<Rightarrow> req_state" where
  "denote v (FCap i) = v i"
| "denote v (FAll fs) = req_all (map (denote v) fs)"
| "denote v (FAny fs) = req_any (map (denote v) fs)"
| "denote v (FNot f) = req_not (denote v f)"

lemma those_Some: "those xs = Some ys \<longleftrightarrow> xs = map Some ys"
proof (induction xs arbitrary: ys)
  case Nil
  then show ?case by auto
next
  case (Cons x xs)
  then show ?case by (cases x; cases ys) auto
qed

lemma those_map_Some:
  "those (map f xs) = Some ys \<longleftrightarrow> length ys = length xs \<and> (\<forall>i<length xs. f (xs ! i) = Some (ys ! i))"
  unfolding those_Some by (auto simp: list_eq_iff_nth_eq)

lemma those_map_cong: "(\<And>x y. x \<in> set xs \<Longrightarrow> f x = Some y \<Longrightarrow> g x = Some y) \<Longrightarrow>
    those (map f xs) = Some ys \<Longrightarrow> those (map g xs) = Some ys"
  by (auto simp: those_map_Some)

lemma unfold_mono: "unfold d h p = Some t \<Longrightarrow> d \<le> e \<Longrightarrow> unfold e h p = Some t"
proof (induction d h p arbitrary: t e rule: unfold.induct)
  case (3 d h a)
  then obtain e' where e: "e = Suc e'" "d \<le> e'" by (cases e) auto
  show ?case
  proof (cases "n_capability (h a) = ''''")
    case False
    with 3 e show ?thesis by (auto split: if_splits)
  next
    case True
    with 3(2) obtain fs where fs: "those (map (unfold d h) (children (h a))) = Some fs" and op: "operators (h a) = 1"
      by (auto split: if_splits)
    have "those (map (unfold e' h) (children (h a))) = Some fs"
      using those_map_cong [OF _ fs] 3(1) [OF _ _ _ _ e(2)] op True by simp
    with fs 3(2) True op e(1) show ?thesis by simp
  qed
qed auto

lemma unfold_unique: "unfold d h p = Some t \<Longrightarrow> unfold e h p = Some u \<Longrightarrow> t = u"
  using unfold_mono by (metis nat_le_linear option.inject)

text \<open>A node unfolds to a tree one larger than the trees of its children together.\<close>

lemma not_child: "n_not n \<noteq> None \<Longrightarrow> children n = [n_not n]"
  by (simp add: children_def)

lemma unfold_children:
  assumes "unfold (Suc d) h (Some a) = Some t" and "n_capability (h a) = ''''"
  obtains fs where "those (map (unfold d h) (children (h a))) = Some fs" and "nodes t = Suc (sum_list (map nodes fs))"
proof -
  from assms obtain fs where fs: "those (map (unfold d h) (children (h a))) = Some fs"
    and t: "t = (if n_not (h a) \<noteq> None then FNot (hd fs) else if n_any (h a) \<noteq> None then FAny fs else FAll fs)"
    by (auto split: if_splits)
  have "nodes t = Suc (sum_list (map nodes fs))"
  proof (cases "n_not (h a) = None")
    case True
    then show ?thesis by (simp add: t)
  next
    case False
    then have "length fs = 1" using fs by (auto simp: not_child split: option.splits)
    then obtain f where "fs = [f]" by (cases fs) auto
    with False show ?thesis by (simp add: t)
  qed
  with fs show thesis by (rule that)
qed

section \<open>Validation accepts the bounded trees\<close>

lemma validate_sound:
  "validate_node h p depth n active = Inr m \<Longrightarrow>
     depth \<le> MaxDepth \<and> m \<le> MaxNodes \<and> (\<exists>t. unfold (MaxDepth + 1 - depth) h p = Some t \<and> m = n + nodes t)"
  "validate_children h cs depth n active = Inr m \<Longrightarrow> n \<le> MaxNodes \<Longrightarrow>
     m \<le> MaxNodes \<and> (\<exists>ts. those (map (unfold (MaxDepth + 1 - depth) h) cs) = Some ts \<and> m = n + sum_list (map nodes ts))"
proof (induction h p depth n active and h cs depth n active arbitrary: m and m
    rule: validate_node_validate_children.induct)
  case (2 h a depth n active)
  then have ok: "depth \<le> MaxDepth" "n + 1 \<le> MaxNodes" "a \<notin> active" "operators (h a) = 1"
    by (auto split: if_splits)
  then have fuel: "MaxDepth + 1 - depth = Suc (MaxDepth + 1 - (depth + 1))" by simp
  show ?case
  proof (cases "n_capability (h a) = ''''")
    case False
    with 2(2) ok fuel show ?thesis by (auto split: option.splits)
  next
    case True
    with 2(2) ok have "validate_children h (children (h a)) (depth + 1) (n + 1) (insert a active) = Inr m" by simp
    with 2(1) ok True obtain ts where m: "m \<le> MaxNodes" "m = n + 1 + sum_list (map nodes ts)"
      and ts: "those (map (unfold (MaxDepth + 1 - (depth + 1)) h) (children (h a))) = Some ts" by auto
    obtain t where t: "unfold (MaxDepth + 1 - depth) h (Some a) = Some t"
      using ts True ok unfolding fuel by simp
    from unfold_children [OF t [unfolded fuel] True] ts have "nodes t = Suc (sum_list (map nodes ts))" by auto
    with t m ok show ?thesis by auto
  qed
next
  case (4 h c cs depth n active)
  then obtain k where k: "validate_node h c depth n active = Inr k"
    and rest: "validate_children h cs depth k active = Inr m" by (auto split: sum.splits)
  from 4(1) [OF k] obtain t where "k \<le> MaxNodes" "unfold (MaxDepth + 1 - depth) h c = Some t" "k = n + nodes t" by auto
  with 4(2) [OF k rest] show ?case by auto
qed auto

lemma validate_complete:
  "unfold (MaxDepth + 1 - depth) h p = Some t \<Longrightarrow> n + nodes t \<le> MaxNodes \<Longrightarrow>
     (\<forall>b\<in>active. \<exists>d u. unfold d h (Some b) = Some u \<and> nodes t < nodes u) \<Longrightarrow>
     validate_node h p depth n active = Inr (n + nodes t)"
  "those (map (unfold (MaxDepth + 1 - depth) h) cs) = Some ts \<Longrightarrow> n + sum_list (map nodes ts) \<le> MaxNodes \<Longrightarrow>
     (\<forall>b\<in>active. \<exists>d u. unfold d h (Some b) = Some u \<and> sum_list (map nodes ts) < nodes u) \<Longrightarrow>
     validate_children h cs depth n active = Inr (n + sum_list (map nodes ts))"
proof (induction h p depth n active and h cs depth n active arbitrary: t and ts
    rule: validate_node_validate_children.induct)
  case (1 h depth n active)
  then show ?case by (cases "MaxDepth + 1 - depth") auto
next
  case (2 h a depth n active)
  then obtain d where fuel: "MaxDepth + 1 - depth = Suc d" by (cases "MaxDepth + 1 - depth") auto
  then have d: "depth \<le> MaxDepth" "d = MaxDepth + 1 - (depth + 1)" by auto
  have op: "operators (h a) = 1" using 2(2) unfolding fuel by (auto split: if_splits)
  have "nodes t > 0" by (cases t) auto
  then have le: "n + 1 \<le> MaxNodes" using 2(3) by simp
  have "a \<notin> active" using 2(2,4) unfold_unique by blast
  note ok = d(1) op le this
  show ?case
  proof (cases "n_capability (h a) = ''''")
    case False
    with 2(2) ok fuel show ?thesis by (auto split: if_splits)
  next
    case True
    from 2(2) fuel have un: "unfold (Suc d) h (Some a) = Some t" by simp
    from unfold_children [OF un True] obtain fs where fs: "those (map (unfold d h) (children (h a))) = Some fs"
      and nt: "nodes t = Suc (sum_list (map nodes fs))" .
    have "\<forall>b\<in>insert a active. \<exists>d u. unfold d h (Some b) = Some u \<and> sum_list (map nodes fs) < nodes u"
      using 2(2,4) nt by (metis Suc_lessD insert_iff lessI)
    then have "validate_children h (children (h a)) (depth + 1) (n + 1) (insert a active) = Inr (n + 1 + sum_list (map nodes fs))"
      using 2(1) fs 2(3) ok True nt unfolding d(2) by simp
    with ok True nt show ?thesis by simp
  qed
next
  case (3 h depth n active)
  then show ?case by simp
next
  case (4 h c cs depth n active)
  then obtain t ts' where ts: "ts = t # ts'" and t: "unfold (MaxDepth + 1 - depth) h c = Some t"
    and ts': "those (map (unfold (MaxDepth + 1 - depth) h) cs) = Some ts'"
    by (auto split: option.splits)
  have "validate_node h c depth n active = Inr (n + nodes t)"
    using 4(1) [OF t] 4(4,5) ts by fastforce
  moreover have "validate_children h cs depth (n + nodes t) active = Inr (n + nodes t + sum_list (map nodes ts'))"
    using 4(2) [OF calculation ts'] 4(4,5) ts by fastforce
  ultimately show ?case by (simp add: ts)
qed

lemma validate_None:
  "validate h root = None \<longleftrightarrow> (\<exists>t. unfold MaxDepth h root = Some t \<and> nodes t \<le> MaxNodes)"
proof
  assume "validate h root = None"
  then obtain m where "validate_node h root 1 0 {} = Inr m" by (auto simp: validate_def split: sum.splits)
  from validate_sound(1) [OF this] show "\<exists>t. unfold MaxDepth h root = Some t \<and> nodes t \<le> MaxNodes" by auto
next
  assume "\<exists>t. unfold MaxDepth h root = Some t \<and> nodes t \<le> MaxNodes"
  then obtain t where "unfold MaxDepth h root = Some t" "nodes t \<le> MaxNodes" by blast
  then have "validate_node h root 1 0 {} = Inr (0 + nodes t)"
    using validate_complete(1) [of 1 h root t 0 "{}"] by simp
  then show "validate h root = None" by (simp add: validate_def)
qed

section \<open>Evaluation follows the tree\<close>

lemma those_map_exists: "(\<And>x. x \<in> set xs \<Longrightarrow> \<exists>y. f x = Some y) \<Longrightarrow> \<exists>ys. those (map f xs) = Some ys"
proof (induction xs)
  case (Cons x xs)
  then obtain y ys where "f x = Some y" "those (map f xs) = Some ys" by (metis list.set_intros)
  then show ?case by simp
qed simp

lemma foldl_add_child: "rs_state (foldl (add_child conn) r rs) = foldl conn (rs_state r) (map rs_state rs)"
  by (induction rs arbitrary: r) (simp_all add: add_child_def)

text \<open>What \<open>evaluate_node\<close> makes of the results of the children.\<close>

definition assemble :: "node \<Rightarrow> result list \<Rightarrow> result" where
  "assemble n rs =
     (if n_not n \<noteq> None then Result (req_not (rs_state (hd rs))) (Text ''not'') None (rs_diagnostics (hd rs)) [hd rs]
      else if n_any n \<noteq> None then foldl (add_child req_or) (Result Unsatisfied (Text ''any'') None [] []) rs
      else foldl (add_child req_and) (Result Satisfied (Text ''all'') None [] []) rs)"

lemma evaluate_node_children:
  "n_capability (h a) = '''' \<Longrightarrow>
   evaluate_node (Suc d) h index (Some a) =
     map_option (assemble (h a)) (those (map (evaluate_node d h index) (children (h a))))"
  by (cases "n_not (h a)"; cases "n_any (h a)"; cases "n_all (h a)";
      cases "evaluate_node d h index (n_not (h a))")
    (auto simp: children_def assemble_def Let_def fun_eq_iff option.map_comp comp_def intro!: map_option_cong)

lemma evaluate_node_denote:
  "unfold d h p = Some t \<Longrightarrow>
     \<exists>r. evaluate_node d h index p = Some r \<and> rs_state r = denote (\<lambda>i. rs_state (predicate i index)) t"
proof (induction d h p arbitrary: t rule: unfold.induct)
  case (3 d h a)
  let ?v = "\<lambda>i. rs_state (predicate i index)"
  have op: "operators (h a) = 1" using 3(2) by (auto split: if_splits)
  show ?case
  proof (cases "n_capability (h a) = ''''")
    case False
    with 3(2) show ?thesis by (auto split: if_splits)
  next
    case True
    from 3(2) op True obtain fs where fs: "those (map (unfold d h) (children (h a))) = Some fs"
      and t: "t = (if n_not (h a) \<noteq> None then FNot (hd fs) else if n_any (h a) \<noteq> None then FAny fs else FAll fs)"
      by auto
    have child: "\<exists>r. evaluate_node d h index (children (h a) ! i) = Some r \<and> rs_state r = denote ?v (fs ! i)"
      if "i < length (children (h a))" for i
      using 3(1) op True fs that by (simp add: those_map_Some)
    have "\<exists>rs. those (map (evaluate_node d h index) (children (h a))) = Some rs"
      by (rule those_map_exists) (use child in \<open>auto simp: in_set_conv_nth\<close>)
    then obtain rs where rs: "those (map (evaluate_node d h index) (children (h a))) = Some rs" by blast
    have len: "length rs = length (children (h a))" "length fs = length (children (h a))"
      using rs fs by (simp_all add: those_map_Some)
    have states: "map rs_state rs = map (denote ?v) fs"
      using rs child len by (auto simp: those_map_Some list_eq_iff_nth_eq)
    have "rs_state (assemble (h a) rs) = denote ?v t"
    proof (cases "n_not (h a) = None")
      case True
      then show ?thesis
        by (simp add: assemble_def t foldl_add_child states req_all_def req_any_def)
    next
      case False
      then have "length rs = 1" using len by (simp add: not_child)
      then obtain r f where "rs = [r]" "fs = [f]" using len by (metis length_0_conv length_Suc_conv One_nat_def)
      with False states show ?thesis by (simp add: assemble_def t)
    qed
    with rs True show ?thesis by (simp add: evaluate_node_children del: evaluate_node.simps)
  qed
qed auto

lemma denote_determinate:
  assumes "\<And>i. v i \<in> {Satisfied, Unsatisfied} \<Longrightarrow> w i = v i"
  shows "denote v t \<in> {Satisfied, Unsatisfied} \<Longrightarrow> denote w t = denote v t"
proof (induction t)
  case (FCap i)
  then show ?case using assms by simp
next
  case (FAll fs)
  then show ?case
    unfolding denote.simps req_all_def
    by (intro conjunction.fold_determinate) auto
next
  case (FAny fs)
  then show ?case
    unfolding denote.simps req_any_def
    by (intro disjunction.fold_determinate) auto
next
  case (FNot t)
  then show ?case by (cases "denote v t") auto
qed

text \<open>The verdict on one candidate.\<close>

definition candidate_verdict :: "formula \<Rightarrow> candidate \<Rightarrow> req_state" where
  "candidate_verdict t c =
     (case index_candidate c of
        Inl _ \<Rightarrow> Indeterminate
      | Inr index \<Rightarrow> denote (\<lambda>i. rs_state (predicate i index)) t)"

lemma evaluate_candidates_state:
  assumes t: "unfold fuel h root = Some t"
  shows "\<exists>r'. evaluate_candidates fuel h root cs r = Some r' \<and>
     rs_state r' = foldl req_or (rs_state r) (map (candidate_verdict t) cs)"
proof (induction cs arbitrary: r)
  case Nil
  then show ?case by simp
next
  case (Cons c cs)
  have "\<exists>child. (case index_candidate c of
              Inl err \<Rightarrow> Some (uncertain ''invalid_candidate'' (ErrorText err))
            | Inr index \<Rightarrow> evaluate_node fuel h index root) = Some child \<and> rs_state child = candidate_verdict t c"
    using evaluate_node_denote [OF t] by (auto simp: candidate_verdict_def uncertain_def split: sum.splits)
  then obtain child where child: "(case index_candidate c of
              Inl err \<Rightarrow> Some (uncertain ''invalid_candidate'' (ErrorText err))
            | Inr index \<Rightarrow> evaluate_node fuel h index root) = Some child" "rs_state child = candidate_verdict t c" by blast
  then have "evaluate_candidates fuel h root (c # cs) r =
      evaluate_candidates fuel h root cs (add_candidate r (cand_scope c) child)" by simp
  with Cons.IH [of "add_candidate r (cand_scope c) child"] child(2) show ?case
    by (simp add: add_candidate_def add_child_def)
qed

definition requirement_verdict :: "node_heap \<Rightarrow> addr option \<Rightarrow> candidate list \<Rightarrow> req_state" where
  "requirement_verdict h root cs =
     (case unfold MaxDepth h root of
        None \<Rightarrow> Indeterminate
      | Some t \<Rightarrow>
          if nodes t \<le> MaxNodes \<and> cs \<noteq> [] \<and> length cs \<le> MaxCandidates
          then req_any (map (candidate_verdict t) cs) else Indeterminate)"

lemma evaluate_requirement_state:
  assumes "MaxDepth \<le> fuel"
  shows "\<exists>r. evaluate_requirement fuel h root cs = Some r \<and> rs_state r = requirement_verdict h root cs"
proof (cases "validate h root")
  case None
  then obtain t where t: "unfold MaxDepth h root = Some t" "nodes t \<le> MaxNodes" by (auto simp: validate_None)
  note un = unfold_mono [OF t(1) assms]
  show ?thesis
    using None t evaluate_candidates_state [OF un, of cs "Result Unsatisfied (Text ''any complete deployment candidate'') None [] []"]
    by (auto simp: evaluate_requirement_def requirement_verdict_def uncertain_def req_any_def)
next
  case (Some err)
  then have "\<not> (\<exists>t. unfold MaxDepth h root = Some t \<and> nodes t \<le> MaxNodes)" by (metis option.distinct(1) validate_None)
  with Some show ?thesis
    by (auto simp: evaluate_requirement_def requirement_verdict_def uncertain_def split: option.splits)
qed

lemma evaluate_node_mono:
  "evaluate_node d h index p = Some r \<Longrightarrow> d \<le> e \<Longrightarrow> evaluate_node e h index p = Some r"
proof (induction d arbitrary: p r e)
  case (Suc d)
  from Suc.prems(2) obtain e' where e: "e = Suc e'" "d \<le> e'" by (cases e) auto
  from Suc.prems(1) obtain a where p: "p = Some a" by (cases p) auto
  show ?case
  proof (cases "n_capability (h a) = ''''")
    case False
    with Suc.prems(1) show ?thesis by (simp add: p e(1) Let_def)
  next
    case True
    from Suc.prems(1) obtain rs where rs: "those (map (evaluate_node d h index) (children (h a))) = Some rs"
      and r: "r = assemble (h a) rs" by (auto simp: p evaluate_node_children [where h = h and a = a, OF True] simp del: evaluate_node.simps)
    have "those (map (evaluate_node e' h index) (children (h a))) = Some rs"
      using those_map_cong [OF _ rs] Suc.IH [OF _ e(2)] by blast
    then show ?thesis by (simp add: p e(1) r evaluate_node_children [where h = h and a = a, OF True] del: evaluate_node.simps)
  qed
qed simp

lemma evaluate_candidates_mono:
  "evaluate_candidates d h root cs r = Some r' \<Longrightarrow> d \<le> e \<Longrightarrow> evaluate_candidates e h root cs r = Some r'"
proof (induction cs arbitrary: r)
  case (Cons c cs)
  show ?case
  proof (cases "index_candidate c")
    case (Inl err)
    with Cons.prems Cons.IH show ?thesis by simp
  next
    case (Inr index)
    with Cons.prems(1) obtain child where child: "evaluate_node d h index root = Some child"
      and rest: "evaluate_candidates d h root cs (add_candidate r (cand_scope c) child) = Some r'"
      by (auto split: option.splits)
    show ?thesis
      using Inr evaluate_node_mono [OF child Cons.prems(2)] Cons.IH [OF rest Cons.prems(2)] by simp
  qed
qed simp

lemma evaluate_requirement_mono:
  "evaluate_requirement d h root cs = Some r \<Longrightarrow> d \<le> e \<Longrightarrow> evaluate_requirement e h root cs = Some r"
  using evaluate_candidates_mono [of d h root cs _ r e]
  by (cases "validate h root"; cases "cs = [] \<or> length cs > MaxCandidates") (simp_all add: evaluate_requirement_def)

section \<open>Candidates\<close>

lemma upd_None: "(f(k \<mapsto> v)) x = None \<longleftrightarrow> x \<noteq> k \<and> f x = None"
  by simp

lemma index_capabilities_Inr:
  "index_capabilities s cs caps = Inr r \<longleftrightarrow>
     (\<forall>c\<in>set cs. capability_validate c = None \<and> cap_scope c = s) \<and> distinct (map cap_id cs) \<and>
     (\<forall>c\<in>set cs. caps (cap_id c) = None) \<and> r = caps ++ map_of (rev (map (\<lambda>c. (cap_id c, c)) cs))"
proof (induction cs arbitrary: caps)
  case Nil
  then show ?case by auto
next
  case (Cons c cs)
  have "caps(cap_id c \<mapsto> c) ++ map_of (rev (map (\<lambda>c. (cap_id c, c)) cs)) =
      caps ++ map_of (rev (map (\<lambda>c. (cap_id c, c)) (c # cs)))"
    by (simp add: map_add_def fun_eq_iff map_of_append split: option.split)
  moreover have "(\<forall>x\<in>set cs. (caps(cap_id c \<mapsto> c)) (cap_id x) = None) \<longleftrightarrow>
      cap_id c \<notin> cap_id ` set cs \<and> (\<forall>x\<in>set cs. caps (cap_id x) = None)"
    unfolding upd_None image_iff by metis
  ultimately show ?case unfolding index_capabilities.simps res_simps Cons.IH by simp blast
qed

lemma index_candidate_evidence_Inr:
  "index_candidate_evidence es evidence = Inr r \<longleftrightarrow>
     distinct (map ev_id es) \<and> (\<forall>e\<in>set es. evidence (ev_id e) = None) \<and>
     r = evidence ++ map_of (rev (map (\<lambda>e. (ev_id e, e)) es))"
proof (induction es arbitrary: evidence)
  case Nil
  then show ?case by auto
next
  case (Cons e es)
  have "evidence(ev_id e \<mapsto> e) ++ map_of (rev (map (\<lambda>e. (ev_id e, e)) es)) =
      evidence ++ map_of (rev (map (\<lambda>e. (ev_id e, e)) (e # es)))"
    by (simp add: map_add_def fun_eq_iff map_of_append split: option.split)
  moreover have "(\<forall>x\<in>set es. (evidence(ev_id e \<mapsto> e)) (ev_id x) = None) \<longleftrightarrow>
      ev_id e \<notin> ev_id ` set es \<and> (\<forall>x\<in>set es. evidence (ev_id x) = None)"
    unfolding upd_None image_iff by metis
  ultimately show ?case unfolding index_candidate_evidence.simps res_simps Cons.IH by simp blast
qed

lemma map_of_rev_keyed:
  "distinct (map k xs) \<Longrightarrow> map_of (rev (map (\<lambda>x. (k x, x)) xs)) i = Some x \<longleftrightarrow> x \<in> set xs \<and> k x = i"
  using map_of_keyed [of k "rev xs" i x] by (simp add: rev_map [symmetric])

lemma index_candidate_Inr:
  "index_candidate c = Inr ix \<longleftrightarrow>
     scope_is_valid (cand_scope c) = None \<and> length (cand_capabilities c) \<le> MaxCandidateEntries \<and>
     length (cand_evidence c) \<le> MaxCandidateEntries \<and>
     (\<forall>x\<in>set (cand_capabilities c). capability_validate x = None \<and> cap_scope x = cand_scope c) \<and>
     distinct (map cap_id (cand_capabilities c)) \<and> distinct (map ev_id (cand_evidence c)) \<and>
     ix = \<lparr>ix_scope = cand_scope c, ix_caps = map_of (rev (map (\<lambda>x. (cap_id x, x)) (cand_capabilities c))),
       ix_evidence = map_of (rev (map (\<lambda>e. (ev_id e, e)) (cand_evidence c)))\<rparr>"
  unfolding index_candidate_def res_simps index_capabilities_Inr index_candidate_evidence_Inr by auto

lemma predicate_values: "rs_state (predicate i ix) \<in> {Satisfied, Unsatisfied, Indeterminate}"
  by (auto simp: predicate_def uncertain_def split: option.splits)

text \<open>
  What supports a verdict on a capability: evidence of the candidate for every reference, valid,
  complete, of the candidate's scope, about the capability and of its state.
\<close>

definition evidenced :: "candidate \<Rightarrow> capability \<Rightarrow> bool" where
  "evidenced cand c \<longleftrightarrow>
     cap_evidence c \<noteq> [] \<and>
     (\<forall>ref\<in>set (cap_evidence c). \<exists>ev\<in>set (cand_evidence cand).
        ev_id ev = ref \<and> evidence_validate ev = None \<and> ev_scope ev = cand_scope cand \<and>
        ev_completeness ev = Complete \<and> ev_state ev = cap_state c \<and> ev_claim ev = cap_id c \<and>
        confidence_is_valid (ev_confidence ev) = None)"

lemma evidenced_iff:
  assumes ix: "index_candidate cand = Inr ix"
  shows "evidenced cand c \<longleftrightarrow> cap_evidence c \<noteq> [] \<and> \<not> list_ex (bad_reference ix (cap_id c) c) (cap_evidence c)"
proof -
  have dist: "distinct (map ev_id (cand_evidence cand))" and sc: "ix_scope ix = cand_scope cand"
    and evs: "ix_evidence ix = map_of (rev (map (\<lambda>e. (ev_id e, e)) (cand_evidence cand)))"
    using ix by (simp_all add: index_candidate_Inr)
  have look: "ix_evidence ix ref = Some ev \<longleftrightarrow> ev \<in> set (cand_evidence cand) \<and> ev_id ev = ref" for ref ev
    unfolding evs by (rule map_of_rev_keyed [OF dist])
  have "\<not> bad_reference ix (cap_id c) c ref \<longleftrightarrow> (\<exists>ev. ix_evidence ix ref = Some ev \<and> evidence_validate ev = None \<and>
      ev_scope ev = cand_scope cand \<and> ev_completeness ev = Complete \<and> ev_state ev = cap_state c \<and>
      ev_claim ev = cap_id c \<and> confidence_is_valid (ev_confidence ev) = None)" for ref
    by (auto simp: bad_reference_def sc simp del: confidence_is_valid_iff split: option.splits)
  then show ?thesis
    unfolding evidenced_def list_ex_iff look by blast
qed

lemma predicate_state:
  assumes ix: "index_candidate cand = Inr ix"
  shows "rs_state (predicate i ix) =
     (if \<exists>c\<in>set (cand_capabilities cand). cap_id c = i \<and> cap_state c \<notin> {StateUnknown, StateUnavailable} \<and> evidenced cand c
      then if \<exists>c\<in>set (cand_capabilities cand). cap_id c = i \<and> cap_state c = StateSupported then Satisfied else Unsatisfied
      else Indeterminate)"
proof (cases "ix_caps ix i")
  case None
  then have "\<not> (\<exists>c\<in>set (cand_capabilities cand). cap_id c = i)"
    using ix map_of_rev_keyed [of cap_id "cand_capabilities cand" i] by (auto simp: index_candidate_Inr)
  with None show ?thesis by (auto simp: predicate_def uncertain_def)
next
  case (Some c)
  have dist: "distinct (map cap_id (cand_capabilities cand))"
    and caps: "ix_caps ix = map_of (rev (map (\<lambda>x. (cap_id x, x)) (cand_capabilities cand)))"
    using ix by (simp_all add: index_candidate_Inr)
  have "x \<in> set (cand_capabilities cand) \<and> cap_id x = i \<longleftrightarrow> x = c" for x
    using map_of_rev_keyed [OF dist, of i x] Some unfolding caps by auto
  then have only: "(\<exists>x\<in>set (cand_capabilities cand). cap_id x = i \<and> P x) \<longleftrightarrow> P c" for P by metis
  have "cap_id c = i" using map_of_rev_keyed [OF dist, of i c] Some unfolding caps by auto
  then show ?thesis
    unfolding only using Some evidenced_iff [OF ix, of c] by (auto simp: predicate_def uncertain_def)
qed

definition example_heap :: node_heap where
  "example_heap a = (if a = 0 then \<lparr>n_capability = '''', n_all = Some [Some 1, Some 1], n_any = None, n_not = None\<rparr>
     else \<lparr>n_capability = ''runtime.podman'', n_all = None, n_any = None, n_not = None\<rparr>)"

lemma example_unfold: "unfold MaxDepth example_heap (Some 0) = Some (FAll [FCap ''runtime.podman'', FCap ''runtime.podman''])"
proof -
  have "id_validate ''runtime.podman'' = None" by code_simp
  then have "unfold (Suc (Suc 0)) example_heap (Some 0) = Some (FAll [FCap ''runtime.podman'', FCap ''runtime.podman''])"
    by (simp add: example_heap_def operators_def children_def)
  then show ?thesis by (rule unfold_mono) (simp add: MaxDepth_def)
qed

definition example_candidate :: "cap_state \<Rightarrow> candidate" where
  "example_candidate s =
     \<lparr>cand_scope = \<lparr>run_id = ''r'', context_id = ''c'', sc_runtime = '''', sc_endpoint = ''''\<rparr>,
      cand_capabilities = [\<lparr>cap_scope = \<lparr>run_id = ''r'', context_id = ''c'', sc_runtime = '''', sc_endpoint = ''''\<rparr>,
        cap_id = ''runtime.podman'', cap_state = s, cap_confidence = ConfidenceVerified, cap_reason = '''',
        cap_evidence = [''e'']\<rparr>],
      cand_evidence = [\<lparr>ev_id = ''e'', ev_source = ''probe'', ev_claim = ''runtime.podman'', ev_precedence = 1,
        ev_observations = [], ev_timestamp = 5,
        ev_scope = \<lparr>run_id = ''r'', context_id = ''c'', sc_runtime = '''', sc_endpoint = ''''\<rparr>,
        ev_completeness = Complete, ev_state = s, ev_confidence = ConfidenceVerified, ev_depends_on = []\<rparr>]\<rparr>"

lemma example_candidate_index: "state_is_valid s = None \<Longrightarrow> \<exists>ix. index_candidate (example_candidate s) = Inr ix"
proof -
  have "id_validate ''runtime.podman'' = None" by code_simp
  moreover assume "state_is_valid s = None"
  ultimately show ?thesis
    by (simp add: index_candidate_Inr example_candidate_def scope_is_valid_def MaxCandidateEntries_def
        capability_validate_None del: state_is_valid_iff)
qed

section \<open>Properties\<close>

text \<open>
  C33: \<open>Validate\<close> accepts a document exactly when it unfolds to a tree of depth at most 32 with
  at most 512 nodes (a shared node counts once per path), every node with exactly one operator, no
  nil pointer and only valid capability identifiers. In particular it rejects every cyclic
  document, and it rejects no shared acyclic one for being shared.
\<close>

theorem validate_accepts_trees:
  "validate h root = None \<longleftrightarrow> (\<exists>t. unfold 32 h root = Some t \<and> nodes t \<le> 512)"
  using validate_None [of h root] by (simp only: MaxDepth_def MaxNodes_def)

text \<open>
  C7: \<open>Evaluate\<close> returns on every input, cyclic documents and nil pointers included: 32
  nested calls are enough for any document that passes validation, more fuel never changes the
  result, and the verdict is the three-valued meaning of the document for each candidate, combined
  with \<open>Or\<close>. A malformed document, an empty or an excessive candidate list is indeterminate.
\<close>

theorem evaluate_requirement_spec:
  assumes "32 \<le> fuel"
  shows "\<exists>r. evaluate_requirement fuel h root cs = Some r \<and> evaluate_requirement 32 h root cs = Some r \<and>
     rs_state r = (case unfold 32 h root of
        None \<Rightarrow> Indeterminate
      | Some t \<Rightarrow> if nodes t \<le> 512 \<and> cs \<noteq> [] \<and> length cs \<le> 128
          then req_any (map (candidate_verdict t) cs) else Indeterminate)"
proof -
  obtain r where r: "evaluate_requirement 32 h root cs = Some r" "rs_state r = requirement_verdict h root cs"
    using evaluate_requirement_state [of 32 h root cs] by (auto simp: MaxDepth_def)
  then show ?thesis
    using evaluate_requirement_mono [OF r(1) assms]
    by (intro exI [of _ r] conjI) (simp_all only: requirement_verdict_def MaxDepth_def MaxNodes_def MaxCandidates_def)
qed

theorem evaluate_requirement_spec_witness:
  "\<exists>r. evaluate_requirement 40 example_heap (Some 0) [] = Some r \<and> rs_state r = Indeterminate"
proof -
  have u: "unfold 32 example_heap (Some 0) = Some (FAll [FCap ''runtime.podman'', FCap ''runtime.podman''])"
    using example_unfold by (simp only: MaxDepth_def)
  have "(32 :: nat) \<le> 40" by simp
  from evaluate_requirement_spec [OF this, of example_heap "Some 0" "[]"] show ?thesis by (auto simp: u)
qed

text \<open>
  A predicate on an accepted candidate is satisfied or unsatisfied only on evidence: the
  capability was evaluated to a state other than unknown and unavailable, and every piece of
  evidence it names is in the candidate, valid, complete, of the same scope, claim and state.
  It is satisfied exactly for a supported capability, and indeterminate in every other case.
\<close>

lemma predicate_spec:
  assumes "index_candidate cand = Inr ix"
  shows "rs_state (predicate i ix) =
     (if \<exists>c\<in>set (cand_capabilities cand). cap_id c = i \<and> cap_state c \<notin> {StateUnknown, StateUnavailable} \<and> evidenced cand c
      then if \<exists>c\<in>set (cand_capabilities cand). cap_id c = i \<and> cap_state c = StateSupported then Satisfied else Unsatisfied
      else Indeterminate)"
  using assms by (rule predicate_state)

lemma predicate_spec_witness:
  "\<exists>ix. index_candidate (example_candidate StateSupported) = Inr ix \<and>
     rs_state (predicate ''runtime.podman'' ix) = Satisfied"
proof -
  obtain ix where ix: "index_candidate (example_candidate StateSupported) = Inr ix"
    using example_candidate_index [of StateSupported] by auto
  have "evidenced (example_candidate StateSupported) (hd (cand_capabilities (example_candidate StateSupported)))"
    by (simp add: evidenced_def example_candidate_def evidence_validate_None precedence_is_valid_iff)
  then show ?thesis using ix predicate_spec [OF ix, of "''runtime.podman''"] by (simp add: example_candidate_def)
qed

text \<open>
  C11: unknown never turns into a wrong verdict. When a requirement is decided, resolving what was
  indeterminate cannot change the verdict: for candidates that keep every decided capability, and
  whatever happens to the undecided ones and to candidates that were rejected, the verdict is the
  same.
\<close>

theorem verdict_stable:
  assumes "evaluate_requirement 32 h root cs = Some r" and "rs_state r \<noteq> Indeterminate"
    and "length cs' = length cs"
    and "\<And>i ix. i < length cs \<Longrightarrow> index_candidate (cs ! i) = Inr ix \<Longrightarrow>
       \<exists>ix'. index_candidate (cs' ! i) = Inr ix' \<and>
         (\<forall>c. rs_state (predicate c ix) \<noteq> Indeterminate \<longrightarrow> rs_state (predicate c ix') = rs_state (predicate c ix))"
  shows "\<exists>r'. evaluate_requirement 32 h root cs' = Some r' \<and> rs_state r' = rs_state r"
proof -
  have states: "\<exists>r. evaluate_requirement 32 h root xs = Some r \<and> rs_state r = requirement_verdict h root xs" for xs
    using evaluate_requirement_state [of 32 h root xs] by (simp add: MaxDepth_def)
  have v: "requirement_verdict h root cs = rs_state r" using states [of cs] assms(1) by auto
  with assms(2) obtain t where t: "unfold MaxDepth h root = Some t" "nodes t \<le> MaxNodes" "cs \<noteq> []" "length cs \<le> MaxCandidates"
    and any: "req_any (map (candidate_verdict t) cs) = rs_state r"
    by (auto simp: requirement_verdict_def split: option.splits if_splits)
  have each: "candidate_verdict t (cs' ! i) = candidate_verdict t (cs ! i)"
    if i: "i < length cs" and d: "candidate_verdict t (cs ! i) \<in> {Satisfied, Unsatisfied}" for i
  proof -
    from d obtain ix where ix: "index_candidate (cs ! i) = Inr ix"
      and den: "denote (\<lambda>c. rs_state (predicate c ix)) t \<in> {Satisfied, Unsatisfied}"
      by (auto simp: candidate_verdict_def split: sum.splits)
    from assms(4) [OF i ix] obtain ix' where ix': "index_candidate (cs' ! i) = Inr ix'"
      and keep: "\<And>c. rs_state (predicate c ix) \<noteq> Indeterminate \<Longrightarrow> rs_state (predicate c ix') = rs_state (predicate c ix)"
      by blast
    have "denote (\<lambda>c. rs_state (predicate c ix')) t = denote (\<lambda>c. rs_state (predicate c ix)) t"
      by (rule denote_determinate [OF _ den]) (use keep in auto)
    then show ?thesis by (simp add: candidate_verdict_def ix ix')
  qed
  have "req_any (map (candidate_verdict t) cs') = req_any (map (candidate_verdict t) cs)"
    unfolding req_any_def
  proof (rule disjunction.fold_determinate)
    show "foldl req_or Unsatisfied (map (candidate_verdict t) cs) \<noteq> Indeterminate"
      using any assms(2) by (simp add: req_any_def)
  qed (use each assms(3) in auto)
  then have "requirement_verdict h root cs' = rs_state r"
    using t any assms(3) by (auto simp: requirement_verdict_def)
  then show ?thesis using states [of cs'] by auto
qed

theorem verdict_stable_witness:
  "\<exists>r r'. evaluate_requirement 32 example_heap (Some 0) [example_candidate StateSupported] = Some r \<and>
     evaluate_requirement 32 example_heap (Some 0) [example_candidate StateSupported] = Some r' \<and>
     rs_state r = Satisfied \<and> rs_state r' = Satisfied"
proof -
  obtain ix where ix: "index_candidate (example_candidate StateSupported) = Inr ix"
    using example_candidate_index [of StateSupported] by auto
  have "evidenced (example_candidate StateSupported) (hd (cand_capabilities (example_candidate StateSupported)))"
    by (simp add: evidenced_def example_candidate_def evidence_validate_None precedence_is_valid_iff)
  then have p: "rs_state (predicate ''runtime.podman'' ix) = Satisfied"
    using predicate_state [OF ix, of "''runtime.podman''"] by (simp add: example_candidate_def)
  have "requirement_verdict example_heap (Some 0) [example_candidate StateSupported] = Satisfied"
    by (simp add: requirement_verdict_def example_unfold MaxNodes_def MaxCandidates_def candidate_verdict_def ix p
        req_any_def req_all_def req_and_def req_or_def)
  then obtain r where r: "evaluate_requirement 32 example_heap (Some 0) [example_candidate StateSupported] = Some r"
    "rs_state r = Satisfied"
    using evaluate_requirement_state [of 32 example_heap "Some 0" "[example_candidate StateSupported]"]
    by (auto simp: MaxDepth_def)
  then show ?thesis
    using verdict_stable [OF r(1), of "[example_candidate StateSupported]"] by auto
qed

end
