(* ===== verification/Kahn.thy ===== *)
theory Kahn
  imports Prelude
begin

text \<open>
  Kahn's algorithm, the loop that two components of the program share: the capability graph
  (\<open>topological\<close> of \<open>internal/capability/graph.go\<close>, with a sorted slice as its ready queue)
  and the probe registry (\<open>kahnTopoSort\<close> of \<open>internal/probe/registry.go\<close>, with a heap).
  The ready queue is the locale \<open>ready_queue\<close>; \<open>priority_queue\<close> extends it with the
  promise that \<open>pop\<close> returns an element of least key. The facts proved here once (the loop
  ends within as many rounds as there are nodes, its output is a topological order, it is
  complete exactly for acyclic graphs, and it is the greedy order of the keys) are used by
  both components through interpretations on their own queues.
\<close>

section \<open>The loop\<close>

text \<open>
  \<open>for _, child := range children { counts[child]--; if counts[child] == 0 { ready = append(ready, child) } }\<close>:
  the new counts and the children that became ready, in order.
\<close>

fun relax :: "('n \<Rightarrow> int) \<Rightarrow> 'n list \<Rightarrow> ('n \<Rightarrow> int) \<times> 'n list" where
  "relax cnt [] = (cnt, [])"
| "relax cnt (c # cs) =
     (let cnt' = cnt(c := cnt c - 1); (cnt'', new) = relax cnt' cs
      in (cnt'', if cnt' c = 0 then c # new else new))"

text \<open>
  The main loop, one unit of fuel per round; it also ends when the queue is empty, and
  \<open>kahn_loop_finished\<close> below shows that this is how it always ends.
\<close>

fun kahn_loop :: "('q \<Rightarrow> ('n \<times> 'q) option) \<Rightarrow> ('n list \<Rightarrow> 'q \<Rightarrow> 'q) \<Rightarrow> ('n \<Rightarrow> 'n list) \<Rightarrow> nat \<Rightarrow>
    ('n \<Rightarrow> int) \<times> 'q \<times> 'n list \<Rightarrow> ('n \<Rightarrow> int) \<times> 'q \<times> 'n list" where
  "kahn_loop pop push ds 0 s = s"
| "kahn_loop pop push ds (Suc f) (cnt, q, ord) =
     (case pop q of
        None \<Rightarrow> (cnt, q, ord)
      | Some (x, q') \<Rightarrow>
          (let (cnt', new) = relax cnt (ds x)
           in kahn_loop pop push ds f (cnt', push new q', ord @ [x])))"

section \<open>Graphs and orders\<close>

definition dep_rel :: "'n list \<Rightarrow> ('n \<Rightarrow> 'n list) \<Rightarrow> ('n \<times> 'n) set" where
  "dep_rel ids deps = {(d, i). i \<in> set ids \<and> d \<in> set (deps i)}"

text \<open>Every node comes after all its dependencies.\<close>

fun topo_from :: "('n \<Rightarrow> 'n list) \<Rightarrow> 'n set \<Rightarrow> 'n list \<Rightarrow> bool" where
  "topo_from deps seen [] \<longleftrightarrow> True"
| "topo_from deps seen (x # xs) \<longleftrightarrow> set (deps x) \<subseteq> seen \<and> topo_from deps (insert x seen) xs"

abbreviation topo_order :: "('n \<Rightarrow> 'n list) \<Rightarrow> 'n list \<Rightarrow> bool" where
  "topo_order deps xs \<equiv> topo_from deps {} xs"

text \<open>Each node is one of least key among those whose dependencies have been emitted.\<close>

fun greedy_from :: "('n \<Rightarrow> 'k::linorder) \<Rightarrow> 'n list \<Rightarrow> ('n \<Rightarrow> 'n list) \<Rightarrow> 'n set \<Rightarrow> 'n list \<Rightarrow> bool" where
  "greedy_from key ids deps seen [] \<longleftrightarrow> True"
| "greedy_from key ids deps seen (x # xs) \<longleftrightarrow>
     (\<forall>y\<in>set ids. y \<notin> seen \<and> set (deps y) \<subseteq> seen \<longrightarrow> key x \<le> key y) \<and>
     greedy_from key ids deps (insert x seen) xs"

lemma topo_from_append:
  "topo_from deps seen (xs @ ys) \<longleftrightarrow> topo_from deps seen xs \<and> topo_from deps (seen \<union> set xs) ys"
  by (induction xs arbitrary: seen) auto

lemma greedy_from_append:
  "greedy_from key ids deps seen (xs @ ys) \<longleftrightarrow>
     greedy_from key ids deps seen xs \<and> greedy_from key ids deps (seen \<union> set xs) ys"
  by (induction xs arbitrary: seen) auto

lemma greedy_from_cong:
  "set ids = set ids' \<Longrightarrow> greedy_from key ids deps seen xs = greedy_from key ids' deps seen xs"
  by (induction xs arbitrary: seen) auto

lemma topo_from_closed: "topo_from deps seen xs \<Longrightarrow> x \<in> set xs \<Longrightarrow> set (deps x) \<subseteq> seen \<union> set xs"
  by (induction xs arbitrary: seen) fastforce+

lemma topo_from_earlier:
  assumes "topo_from deps seen xs" "distinct xs" "i \<in> set xs" "d \<in> set (deps i)" "d \<notin> seen"
  shows "length (takeWhile (\<lambda>y. y \<noteq> d) xs) < length (takeWhile (\<lambda>y. y \<noteq> i) xs)"
proof -
  from assms(3) obtain ys zs where xs: "xs = ys @ i # zs" by (auto dest: split_list)
  with assms have "d \<in> set ys" "i \<notin> set ys" by (auto simp: topo_from_append)
  then have "length (takeWhile (\<lambda>y. y \<noteq> d) ys) < length ys" by (intro length_takeWhile_less) auto
  moreover have "takeWhile (\<lambda>y. y \<noteq> i) xs = ys"
  proof -
    have "takeWhile (\<lambda>y. y \<noteq> i) (ys @ i # zs) = ys @ takeWhile (\<lambda>y. y \<noteq> i) (i # zs)"
      by (rule takeWhile_append2) (use \<open>i \<notin> set ys\<close> in auto)
    then show ?thesis using xs by simp
  qed
  moreover have "takeWhile (\<lambda>y. y \<noteq> d) xs = takeWhile (\<lambda>y. y \<noteq> d) ys"
    using xs \<open>d \<in> set ys\<close> by (simp add: takeWhile_append1)
  ultimately show ?thesis by simp
qed

lemma acyclic_source:
  assumes "acyclic r" and "finite R" and "R \<noteq> {}"
  shows "\<exists>x\<in>R. \<forall>y\<in>R. (y, x) \<notin> r"
proof -
  have "finite (r \<inter> R \<times> R)" using assms(2) by simp
  moreover have "acyclic (r \<inter> R \<times> R)" by (rule acyclic_subset [OF assms(1)]) simp
  ultimately have "wf (r \<inter> R \<times> R)" by (rule finite_acyclic_wf)
  then obtain x where "x \<in> R" and "\<And>y. (y, x) \<in> r \<inter> R \<times> R \<Longrightarrow> y \<notin> R"
    using assms(3) wfE_min' by metis
  then show ?thesis by blast
qed

text \<open>A full topological order exists for a closed graph only if the graph is acyclic.\<close>

lemma topo_order_acyclic:
  assumes "topo_order deps xs" and "distinct xs" and "set xs = set ids"
  shows "acyclic (dep_rel ids deps)"
proof -
  have "dep_rel ids deps \<subseteq> measure (\<lambda>x. length (takeWhile (\<lambda>y. y \<noteq> x) xs))"
    using topo_from_earlier [OF assms(1,2)] assms(3) by (auto simp: dep_rel_def)
  then show ?thesis by (meson acyclic_subset wf_acyclic wf_measure)
qed

text \<open>Two greedy topological orders of the same nodes are equal.\<close>

lemma greedy_unique_from:
  assumes "topo_from deps seen xs" "topo_from deps seen ys"
    and "greedy_from key ids deps seen xs" "greedy_from key ids deps seen ys"
    and "distinct xs" "distinct ys" "set xs = set ys" "set xs \<subseteq> set ids" "set xs \<inter> seen = {}"
    and "inj_on key (set ids)"
  shows "xs = ys"
  using assms
proof (induction xs arbitrary: seen ys)
  case Nil
  then show ?case by simp
next
  case (Cons x xs)
  from Cons.prems(7) obtain y ys' where ys: "ys = y # ys'" by (cases ys) auto
  with Cons.prems have "y \<in> set ids" "y \<notin> seen" "x \<in> set ids" "x \<notin> seen" by auto
  then have "key x \<le> key y" "key y \<le> key x" using Cons.prems(1-4) ys by auto
  then have "x = y" using \<open>x \<in> set ids\<close> \<open>y \<in> set ids\<close> Cons.prems(10) by (simp add: inj_on_eq_iff)
  moreover have "xs = ys'"
    using Cons.prems ys \<open>x = y\<close> by (intro Cons.IH [of "insert x seen"]) auto
  ultimately show ?case using ys by simp
qed

lemmas greedy_unique = greedy_unique_from [where seen = "{}", simplified]

section \<open>One round\<close>

lemma relax_spec:
  "relax cnt cs = (cnt', new) \<Longrightarrow>
     cnt' i = cnt i - int (count_list cs i) \<and>
     count (mset new) i = (if 1 \<le> cnt i \<and> cnt i \<le> int (count_list cs i) then 1 else 0)"
proof (induction cs arbitrary: cnt cnt' new)
  case Nil
  then show ?case by auto
next
  case (Cons c cs)
  obtain cnt'' new' where r: "relax (cnt(c := cnt c - 1)) cs = (cnt'', new')" by fastforce
  from Cons.IH [OF this] Cons.prems r show ?case by (auto simp: Let_def split: if_splits)
qed

lemma length_filter_insert:
  "x \<notin> S \<Longrightarrow> int (length (filter (\<lambda>d. d \<notin> insert x S) l)) =
     int (length (filter (\<lambda>d. d \<notin> S) l)) - int (count_list l x)"
  by (induction l) auto

text \<open>
  What the loop keeps: a node's count is the number of its dependencies not yet emitted, and the
  queue holds, once each, the nodes not emitted whose count is zero.
\<close>

definition kahn_inv :: "'n list \<Rightarrow> ('n \<Rightarrow> 'n list) \<Rightarrow> ('n \<Rightarrow> int) \<Rightarrow> 'n multiset \<Rightarrow> 'n list \<Rightarrow> bool" where
  "kahn_inv ids deps cnt ready ord \<longleftrightarrow>
     distinct ord \<and> set ord \<subseteq> set ids \<and> topo_order deps ord \<and>
     (\<forall>i\<in>set ids. cnt i = int (length (filter (\<lambda>d. d \<notin> set ord) (deps i)))) \<and>
     (\<forall>i. count ready i = (if i \<in> set ids \<and> i \<notin> set ord \<and> cnt i = 0 then 1 else 0))"

definition reverse_edges :: "'n list \<Rightarrow> ('n \<Rightarrow> 'n list) \<Rightarrow> ('n \<Rightarrow> 'n list) \<Rightarrow> bool" where
  "reverse_edges ids deps ds \<longleftrightarrow>
     (\<forall>d\<in>set ids. \<forall>i. count_list (ds d) i = (if i \<in> set ids then count_list (deps i) d else 0))"

lemma kahn_inv_step:
  assumes inv: "kahn_inv ids deps cnt (add_mset x ready) ord" and ds: "reverse_edges ids deps ds"
    and rx: "relax cnt (ds x) = (cnt', new)"
  shows "kahn_inv ids deps cnt' (mset new + ready) (ord @ [x])"
proof -
  have cx: "count (add_mset x ready) x = (if x \<in> set ids \<and> x \<notin> set ord \<and> cnt x = 0 then 1 else 0)"
    using inv unfolding kahn_inv_def by blast
  then have x: "x \<in> set ids" "x \<notin> set ord" "cnt x = 0" by (auto split: if_splits)
  then have depx: "set (deps x) \<subseteq> set ord"
    using inv by (auto simp: kahn_inv_def filter_empty_conv)
  have cnt': "cnt' i = int (length (filter (\<lambda>d. d \<notin> set (ord @ [x])) (deps i)))" if "i \<in> set ids" for i
    using that relax_spec [OF rx, of i] inv ds x length_filter_insert [of x "set ord" "deps i"]
    by (simp add: kahn_inv_def reverse_edges_def)
  have emitted: "cnt i = 0" if "i \<in> set ord" for i
  proof -
    have "set (deps i) \<subseteq> set ord" "i \<in> set ids"
      using that inv topo_from_closed [of deps "{}" ord i] by (auto simp: kahn_inv_def)
    then have "filter (\<lambda>d. d \<notin> set ord) (deps i) = []" by (auto simp: filter_empty_conv)
    then show ?thesis using inv \<open>i \<in> set ids\<close> by (simp add: kahn_inv_def)
  qed
  have "count (mset new + ready) i = (if i \<in> set ids \<and> i \<notin> set (ord @ [x]) \<and> cnt' i = 0 then 1 else 0)" for i
  proof (cases "i \<in> set ids")
    case True
    have q: "count ready i + (if i = x then 1 else 0) = (if i \<notin> set ord \<and> cnt i = 0 then 1 else 0)"
    proof -
      have "count (add_mset x ready) i = (if i \<in> set ids \<and> i \<notin> set ord \<and> cnt i = 0 then 1 else 0)"
        using inv unfolding kahn_inv_def by blast
      then show ?thesis using True by (auto split: if_splits)
    qed
    have "0 \<le> cnt' i" using cnt' True by simp
    moreover have "cnt' i \<le> cnt i" using relax_spec [OF rx, of i] by simp
    ultimately show ?thesis
      using relax_spec [OF rx, of i] q x True emitted [of i] by (auto split: if_splits)
  next
    case False
    have "count_list (ds x) i = 0" using False x ds by (simp add: reverse_edges_def)
    moreover have "count (add_mset x ready) i = 0" using False inv by (simp add: kahn_inv_def)
    ultimately show ?thesis using False relax_spec [OF rx, of i] by (auto split: if_splits)
  qed
  then show ?thesis
    using inv x depx cnt' by (auto simp: kahn_inv_def topo_from_append)
qed

lemma kahn_inv_init:
  assumes "distinct ids" and "\<forall>i\<in>set ids. cnt i = int (length (deps i))"
  shows "kahn_inv ids deps cnt (mset (filter (\<lambda>i. cnt i = 0) ids)) []"
  using assms by (auto simp: kahn_inv_def distinct_count_atmost_1 [THEN iffD1])

lemma kahn_inv_stuck:
  assumes inv: "kahn_inv ids deps cnt {#} ord" and ids: "distinct ids"
    and closed: "\<forall>i\<in>set ids. set (deps i) \<subseteq> set ids"
  shows "length ord = length ids \<longleftrightarrow> acyclic (dep_rel ids deps)"
proof
  assume "length ord = length ids"
  with inv ids have "set ord = set ids" by (intro distinct_set_eq_length) (auto simp: kahn_inv_def)
  then show "acyclic (dep_rel ids deps)" using inv topo_order_acyclic [of deps ord ids] by (auto simp: kahn_inv_def)
next
  assume ac: "acyclic (dep_rel ids deps)"
  show "length ord = length ids"
  proof (rule ccontr)
    assume ne: "length ord \<noteq> length ids"
    have "distinct ord" "set ord \<subseteq> set ids" using inv by (auto simp: kahn_inv_def)
    with ne ids have "set ids - set ord \<noteq> {}" by (metis Diff_eq_empty_iff distinct_card subset_antisym)
    then obtain x where x: "x \<in> set ids" "x \<notin> set ord"
      and src: "\<forall>y\<in>set ids - set ord. (y, x) \<notin> dep_rel ids deps"
      using acyclic_source [OF ac, of "set ids - set ord"] by auto
    have "cnt x \<noteq> 0" using inv x by (auto simp: kahn_inv_def dest: spec [of _ x] split: if_splits)
    then obtain d where "d \<in> set (deps x)" "d \<notin> set ord"
      using inv x by (auto simp: kahn_inv_def filter_empty_conv)
    then show False using src x closed by (auto simp: dep_rel_def)
  qed
qed

section \<open>The ready queue\<close>

locale ready_queue =
  fixes pop :: "'q \<Rightarrow> ('n \<times> 'q) option"
    and push :: "'n list \<Rightarrow> 'q \<Rightarrow> 'q"
    and elems :: "'q \<Rightarrow> 'n multiset"
    and qinv :: "'q \<Rightarrow> bool"
  assumes pop_None: "qinv q \<Longrightarrow> pop q = None \<longleftrightarrow> elems q = {#}"
    and pop_Some: "qinv q \<Longrightarrow> pop q = Some (x, q') \<Longrightarrow> elems q = add_mset x (elems q') \<and> qinv q'"
    and push_elems: "qinv q \<Longrightarrow> elems (push xs q) = mset xs + elems q"
    and push_qinv: "qinv q \<Longrightarrow> qinv (push xs q)"
begin

lemma kahn_loop_inv:
  assumes "kahn_loop pop push ds f (cnt, q, ord) = (cnt', q', ord')"
    and "qinv q" and "kahn_inv ids deps cnt (elems q) ord" and "reverse_edges ids deps ds"
  shows "qinv q' \<and> kahn_inv ids deps cnt' (elems q') ord'"
  using assms
proof (induction f arbitrary: cnt q ord)
  case 0
  then show ?case by simp
next
  case (Suc f)
  show ?case
  proof (cases "pop q")
    case None
    with Suc.prems show ?thesis by simp
  next
    case (Some p)
    obtain x q1 where p: "p = (x, q1)" by fastforce
    obtain c1 new where rx: "relax cnt (ds x) = (c1, new)" by fastforce
    have q1: "elems q = add_mset x (elems q1)" "qinv q1" using pop_Some Suc.prems(2) Some p by auto
    have "kahn_inv ids deps c1 (elems (push new q1)) (ord @ [x])"
      using kahn_inv_step [OF _ Suc.prems(4) rx] Suc.prems(3) q1 by (simp add: push_elems)
    then show ?thesis using Suc.IH Suc.prems(1,4) Some p rx q1 push_qinv by simp
  qed
qed

lemma kahn_loop_finished:
  assumes "kahn_loop pop push ds f (cnt, q, ord) = (cnt', q', ord')"
    and "qinv q" and "kahn_inv ids deps cnt (elems q) ord" and "reverse_edges ids deps ds"
    and "distinct ids" and "length ids \<le> f + length ord"
  shows "elems q' = {#}"
  using assms
proof (induction f arbitrary: cnt q ord)
  case 0
  then have ord: "distinct ord" "set ord \<subseteq> set ids" by (auto simp: kahn_inv_def)
  then have "length ord = length ids"
    using 0 by (metis add_0 card_mono distinct_card finite_set le_antisym)
  then have "set ord = set ids" using distinct_set_eq_length ord 0 by blast
  moreover have "\<forall>i. count (elems q) i = (if i \<in> set ids \<and> i \<notin> set ord \<and> cnt i = 0 then 1 else 0)"
    using 0 unfolding kahn_inv_def by blast
  ultimately have "count (elems q) i = 0" for i by simp
  then show ?case using 0 by (auto intro: multiset_eqI)
next
  case (Suc f)
  show ?case
  proof (cases "pop q")
    case None
    with Suc.prems pop_None show ?thesis by simp
  next
    case (Some p)
    obtain x q1 where p: "p = (x, q1)" by fastforce
    obtain c1 new where rx: "relax cnt (ds x) = (c1, new)" by fastforce
    have q1: "elems q = add_mset x (elems q1)" "qinv q1" using pop_Some Suc.prems(2) Some p by auto
    have "kahn_inv ids deps c1 (elems (push new q1)) (ord @ [x])"
      using kahn_inv_step [OF _ Suc.prems(4) rx] Suc.prems(3) q1 by (simp add: push_elems)
    then show ?thesis using Suc.IH Suc.prems Some p rx q1 push_qinv by simp
  qed
qed

text \<open>The whole run: the queue is empty at the end, and the output is complete iff the graph is acyclic.\<close>

lemma kahn_run:
  assumes run: "kahn_loop pop push ds (length ids) (cnt, q, []) = (cnt', q', ord)"
    and q: "qinv q" "elems q = mset (filter (\<lambda>i. cnt i = 0) ids)"
    and cnt: "\<forall>i\<in>set ids. cnt i = int (length (deps i))"
    and ids: "distinct ids" and ds: "reverse_edges ids deps ds"
    and closed: "\<forall>i\<in>set ids. set (deps i) \<subseteq> set ids"
  shows "elems q' = {#}" and "distinct ord" and "set ord \<subseteq> set ids" and "topo_order deps ord"
    and "length ord = length ids \<longleftrightarrow> acyclic (dep_rel ids deps)"
proof -
  have init: "kahn_inv ids deps cnt (elems q) []" using kahn_inv_init [OF ids cnt] q by simp
  show e: "elems q' = {#}" using kahn_loop_finished [OF run q(1) init ds ids] by simp
  have inv: "kahn_inv ids deps cnt' (elems q') ord" using kahn_loop_inv [OF run q(1) init ds] by simp
  then show "distinct ord" "set ord \<subseteq> set ids" "topo_order deps ord" by (auto simp: kahn_inv_def)
  show "length ord = length ids \<longleftrightarrow> acyclic (dep_rel ids deps)"
    using kahn_inv_stuck [OF _ ids closed] inv e by simp
qed

end

locale priority_queue = ready_queue pop push elems qinv
  for pop :: "'q \<Rightarrow> ('n \<times> 'q) option" and push elems qinv +
  fixes key :: "'n \<Rightarrow> 'k::linorder"
  assumes pop_least: "qinv q \<Longrightarrow> pop q = Some (x, q') \<Longrightarrow> y \<in># elems q \<Longrightarrow> key x \<le> key y"
begin

lemma kahn_loop_greedy:
  assumes "kahn_loop pop push ds f (cnt, q, ord) = (cnt', q', ord')"
    and "qinv q" and "kahn_inv ids deps cnt (elems q) ord" and "reverse_edges ids deps ds"
    and "greedy_from key ids deps {} ord"
  shows "greedy_from key ids deps {} ord'"
  using assms
proof (induction f arbitrary: cnt q ord)
  case 0
  then show ?case by simp
next
  case (Suc f)
  show ?case
  proof (cases "pop q")
    case None
    with Suc.prems show ?thesis by simp
  next
    case (Some p)
    obtain x q1 where p: "p = (x, q1)" by fastforce
    obtain c1 new where rx: "relax cnt (ds x) = (c1, new)" by fastforce
    have q1: "elems q = add_mset x (elems q1)" "qinv q1" using pop_Some Suc.prems(2) Some p by auto
    have next_inv: "kahn_inv ids deps c1 (elems (push new q1)) (ord @ [x])"
      using kahn_inv_step [OF _ Suc.prems(4) rx] Suc.prems(3) q1 by (simp add: push_elems)
    have "key x \<le> key y" if "y \<in> set ids" "y \<notin> set ord" "set (deps y) \<subseteq> set ord" for y
    proof -
      have "filter (\<lambda>d. d \<notin> set ord) (deps y) = []" using that by (auto simp: filter_empty_conv)
      then have "cnt y = 0" using Suc.prems(3) that by (simp add: kahn_inv_def)
      then have "count (elems q) y = 1" using Suc.prems(3) that by (simp add: kahn_inv_def)
      then show ?thesis using pop_least Suc.prems(2) Some p by (metis count_eq_zero_iff zero_neq_one)
    qed
    then have "greedy_from key ids deps {} (ord @ [x])"
      using Suc.prems(5) by (simp add: greedy_from_append)
    then show ?thesis using Suc.IH Suc.prems(1,4) Some p rx q1 push_qinv next_inv by simp
  qed
qed

end

end
