(* ===== verification/Reg_Heap.thy ===== *)
theory Reg_Heap
  imports Prelude
begin

text \<open>
  The min-heap \<open>regOrderHeap\<close> of \<open>internal/probe/registry.go\<close> together with the functions of
  Go's \<open>container/heap\<close> that maintain it. A heap is the slice of its entries;
  \<open>heap_up\<close> and \<open>heap_down\<close> are the sift loops of the library, driven by the methods
  \<open>Less\<close> and \<open>Swap\<close> of the source. \<open>heap.Pop\<close> is only called on a non-empty heap;
  \<open>heap_pop\<close> returns \<open>None\<close> for the empty one.
\<close>

record heap_entry =
  he_id :: string
  he_order :: nat

type_synonym reg_heap = "heap_entry list"

definition heap_less :: "reg_heap \<Rightarrow> nat \<Rightarrow> nat \<Rightarrow> bool" where
  "heap_less h i j \<longleftrightarrow> he_order (h ! i) < he_order (h ! j)"

definition heap_swap :: "reg_heap \<Rightarrow> nat \<Rightarrow> nat \<Rightarrow> reg_heap" where
  "heap_swap h i j = h[i := h ! j, j := h ! i]"

function heap_up :: "reg_heap \<Rightarrow> nat \<Rightarrow> reg_heap" where
  "heap_up h j =
     (let i = (j - 1) div 2
      in if i = j \<or> \<not> heap_less h j i then h else heap_up (heap_swap h i j) i)"
  by pat_completeness auto
termination
  by (relation "measure snd") auto

function heap_down :: "reg_heap \<Rightarrow> nat \<Rightarrow> nat \<Rightarrow> reg_heap" where
  "heap_down h i n =
     (let j1 = 2 * i + 1
      in if j1 \<ge> n then h
         else let j = (if j1 + 1 < n \<and> heap_less h (j1 + 1) j1 then j1 + 1 else j1)
              in if \<not> heap_less h j i then h else heap_down (heap_swap h i j) j n)"
  by pat_completeness auto
termination
  by (relation "measure (\<lambda>(h, i, n). n - i)") (auto simp: Let_def split: if_splits)

declare heap_up.simps [simp del] heap_down.simps [simp del]

definition heap_push :: "heap_entry \<Rightarrow> reg_heap \<Rightarrow> reg_heap" where
  "heap_push e h = heap_up (h @ [e]) (length h)"

definition heap_pop :: "reg_heap \<Rightarrow> (heap_entry \<times> reg_heap) option" where
  "heap_pop h =
     (if h = [] then None
      else let n = length h - 1; h' = heap_down (heap_swap h 0 n) 0 n
           in Some (h' ! n, take n h'))"

section \<open>The heap property\<close>

text \<open>The first \<open>n\<close> entries form a heap: no entry is smaller than its parent.\<close>

definition heap_upto :: "reg_heap \<Rightarrow> nat \<Rightarrow> bool" where
  "heap_upto h n \<longleftrightarrow> (\<forall>k. 0 < k \<and> k < n \<longrightarrow> he_order (h ! ((k - 1) div 2)) \<le> he_order (h ! k))"

abbreviation is_heap :: "reg_heap \<Rightarrow> bool" where
  "is_heap h \<equiv> heap_upto h (length h)"

lemma length_heap_swap [simp]: "length (heap_swap h i j) = length h"
  by (simp add: heap_swap_def)

lemma nth_heap_swap:
  "i < length h \<Longrightarrow> j < length h \<Longrightarrow>
     heap_swap h i j ! k = (if k = j then h ! i else if k = i then h ! j else h ! k)"
  by (auto simp: heap_swap_def nth_list_update)

lemma mset_heap_swap: "i < length h \<Longrightarrow> j < length h \<Longrightarrow> mset (heap_swap h i j) = mset h"
  unfolding heap_swap_def by (rule mset_swap)

lemma parent_iff: "0 < k \<Longrightarrow> (k - 1) div 2 = i \<longleftrightarrow> k = 2 * i + 1 \<or> k = 2 * i + 2" for k i :: nat
  by auto

lemma heap_up_mset: "j < length h \<Longrightarrow> mset (heap_up h j) = mset h"
proof (induction h j rule: heap_up.induct)
  case (1 h j)
  let ?i = "(j - 1) div 2"
  have "?i < length h" using 1(2) by (meson div_le_dividend diff_le_self le_trans le_less_trans)
  with 1 show ?case
    by (subst heap_up.simps) (simp add: Let_def mset_heap_swap)
qed

text \<open>While an entry sifts up, only its own relation to its parent may be violated.\<close>

definition up_inv :: "reg_heap \<Rightarrow> nat \<Rightarrow> bool" where
  "up_inv h j \<longleftrightarrow>
     (\<forall>k. 0 < k \<and> k < length h \<and> k \<noteq> j \<longrightarrow> he_order (h ! ((k - 1) div 2)) \<le> he_order (h ! k)) \<and>
     (\<forall>k. 0 < j \<and> k < length h \<and> (k = 2 * j + 1 \<or> k = 2 * j + 2) \<longrightarrow>
        he_order (h ! ((j - 1) div 2)) \<le> he_order (h ! k))"

lemma up_inv_swap:
  assumes inv: "up_inv h j" and j: "j < length h" "(j - 1) div 2 \<noteq> j" and less: "heap_less h j ((j - 1) div 2)"
  shows "up_inv (heap_swap h ((j - 1) div 2) j) ((j - 1) div 2)"
proof -
  let ?i = "(j - 1) div 2" and ?K = "\<lambda>k. he_order (h ! k)"
  have ij: "0 < j" "?i < j" using j(2) by (cases j; simp)+
  have i: "?i < length h" using ij j(1) by simp
  have jc: "j = 2 * ?i + 1 \<or> j = 2 * ?i + 2" using parent_iff [OF ij(1), of ?i] by simp
  note at = nth_heap_swap [OF i j(1)]
  have lt: "?K j < ?K ?i" using less by (simp add: heap_less_def)
  have A: "?K ((k - 1) div 2) \<le> ?K k" if "0 < k" "k < length h" "k \<noteq> j" for k
    using inv that by (simp add: up_inv_def)
  have B: "?K ?i \<le> ?K k" if "k < length h" "k = 2 * j + 1 \<or> k = 2 * j + 2" for k
    using inv ij that unfolding up_inv_def by blast
  have "he_order (heap_swap h ?i j ! ((k - 1) div 2)) \<le> he_order (heap_swap h ?i j ! k)"
    if k: "0 < k" "k < length h" "k \<noteq> ?i" for k
  proof -
    define p where "p = (k - 1) div 2"
    have a: "k \<noteq> j \<Longrightarrow> ?K p \<le> ?K k" unfolding p_def by (rule A [OF k(1,2)])
    have b: "p = j \<Longrightarrow> ?K ?i \<le> ?K k" using B [OF k(2)] parent_iff [OF k(1), of j] by (simp add: p_def)
    consider "k = j" | "k \<noteq> j" "p = j" | "k \<noteq> j" "p \<noteq> j" "p = ?i" | "k \<noteq> j" "p \<noteq> j" "p \<noteq> ?i" by blast
    then show ?thesis unfolding p_def [symmetric] at
    proof cases
      case 1
      then have "p = ?i" by (simp add: p_def)
      with 1 k(3) lt ij show "he_order (if p = j then h ! ?i else if p = ?i then h ! j else h ! p) \<le>
          he_order (if k = j then h ! ?i else if k = ?i then h ! j else h ! k)" by simp
    qed (use a b lt k(3) in simp_all)
  qed
  moreover have "he_order (heap_swap h ?i j ! ((?i - 1) div 2)) \<le> he_order (heap_swap h ?i j ! k)"
    if k: "0 < ?i" "k < length h" "k = 2 * ?i + 1 \<or> k = 2 * ?i + 2" for k
  proof -
    define p where "p = (?i - 1) div 2"
    have p: "p \<noteq> ?i" "p \<noteq> j" using k(1) ij by (auto simp: p_def)
    have top: "?K p \<le> ?K ?i" unfolding p_def using ij by (intro A [OF k(1) i]) simp
    have "0 < k" "(k - 1) div 2 = ?i" using k(3) by auto
    then have "?K ?i \<le> ?K k" if "k \<noteq> j" using A [of k] k(2) that by simp
    moreover have "k \<noteq> ?i" using k(3) by auto
    ultimately show ?thesis unfolding p_def [symmetric] at using p top by (cases "k = j") simp_all
  qed
  ultimately show ?thesis unfolding up_inv_def by simp
qed

lemma heap_up_heap: "j < length h \<Longrightarrow> up_inv h j \<Longrightarrow> is_heap (heap_up h j)"
proof (induction h j rule: heap_up.induct)
  case (1 h j)
  let ?i = "(j - 1) div 2"
  show ?case
  proof (cases "?i = j \<or> \<not> heap_less h j ?i")
    case True
    then have "heap_up h j = h" by (subst heap_up.simps) (simp add: Let_def)
    moreover have "is_heap h"
      using True 1(3) by (auto simp: up_inv_def heap_upto_def heap_less_def not_less)
    ultimately show ?thesis by simp
  next
    case False
    then have "heap_up h j = heap_up (heap_swap h ?i j) ?i" by (subst heap_up.simps) (simp add: Let_def)
    moreover have "?i < length h" using 1(2) by (meson div_le_dividend diff_le_self le_trans le_less_trans)
    ultimately show ?thesis using 1(1) [OF refl False] up_inv_swap [OF 1(3,2)] False by simp
  qed
qed

lemma heap_push_correct:
  assumes "is_heap h"
  shows "is_heap (heap_push e h)" and "mset (heap_push e h) = add_mset e (mset h)"
proof -
  have "up_inv (h @ [e]) (length h)"
    using assms by (auto simp: up_inv_def heap_upto_def nth_append)
  then show "is_heap (heap_push e h)" unfolding heap_push_def by (intro heap_up_heap) simp_all
  show "mset (heap_push e h) = add_mset e (mset h)" unfolding heap_push_def by (subst heap_up_mset) simp_all
qed

text \<open>While an entry sifts down, only its own relation to its children may be violated.\<close>

definition down_inv :: "reg_heap \<Rightarrow> nat \<Rightarrow> nat \<Rightarrow> bool" where
  "down_inv h i n \<longleftrightarrow>
     (\<forall>k. 0 < k \<and> k < n \<and> (k - 1) div 2 \<noteq> i \<longrightarrow> he_order (h ! ((k - 1) div 2)) \<le> he_order (h ! k)) \<and>
     (\<forall>k. 0 < i \<and> k < n \<and> (k = 2 * i + 1 \<or> k = 2 * i + 2) \<longrightarrow>
        he_order (h ! ((i - 1) div 2)) \<le> he_order (h ! k))"

text \<open>The child the loop compares with: the smaller one.\<close>

definition least_child :: "reg_heap \<Rightarrow> nat \<Rightarrow> nat \<Rightarrow> nat" where
  "least_child h i n =
     (let j1 = 2 * i + 1 in if j1 + 1 < n \<and> heap_less h (j1 + 1) j1 then j1 + 1 else j1)"

lemma least_child:
  assumes "2 * i + 1 < n"
  shows "least_child h i n < n" and "i < least_child h i n" and "(least_child h i n - 1) div 2 = i"
    and "k < n \<Longrightarrow> k = 2 * i + 1 \<or> k = 2 * i + 2 \<Longrightarrow> he_order (h ! least_child h i n) \<le> he_order (h ! k)"
  using assms by (auto simp: least_child_def Let_def heap_less_def)

lemma heap_down_step:
  "heap_down h i n =
     (if 2 * i + 1 \<ge> n \<or> \<not> heap_less h (least_child h i n) i then h
      else heap_down (heap_swap h i (least_child h i n)) (least_child h i n) n)"
  by (subst heap_down.simps) (simp add: Let_def least_child_def)

lemma heap_down_induct [case_names step]:
  assumes "\<And>h i n. (2 * i + 1 < n \<Longrightarrow> heap_less h (least_child h i n) i \<Longrightarrow>
      P (heap_swap h i (least_child h i n)) (least_child h i n) n) \<Longrightarrow> P h i n"
  shows "P h i n"
proof (induction "n - i" arbitrary: h i rule: less_induct)
  case less
  show ?case
  proof (rule assms)
    assume "2 * i + 1 < n"
    with least_child(1,2) [of i n h] have "n - least_child h i n < n - i" by simp
    then show "P (heap_swap h i (least_child h i n)) (least_child h i n) n" by (rule less)
  qed
qed

lemma heap_down_frame:
  "n \<le> length h \<Longrightarrow> mset (heap_down h i n) = mset h \<and> length (heap_down h i n) = length h \<and>
     drop n (heap_down h i n) = drop n h"
proof (induction h i n rule: heap_down_induct)
  case (step h i n)
  let ?j = "least_child h i n"
  show ?case
  proof (cases "2 * i + 1 \<ge> n \<or> \<not> heap_less h ?j i")
    case True
    then have "heap_down h i n = h" by (subst heap_down_step) simp
    then show ?thesis by simp
  next
    case False
    then have lt: "2 * i + 1 < n" by simp
    note j = least_child [OF lt, where h = h]
    have eq: "heap_down h i n = heap_down (heap_swap h i ?j) ?j n" using False by (subst heap_down_step) simp
    have "drop n (heap_swap h i ?j) = drop n h" using j(1,2) by (simp add: heap_swap_def)
    moreover have "mset (heap_swap h i ?j) = mset h" using j(1,2) step(2) by (intro mset_heap_swap) simp_all
    ultimately show ?thesis using step(1) False step(2) unfolding eq by simp
  qed
qed

lemma down_inv_swap:
  assumes inv: "down_inv h i n" and n: "n \<le> length h" "2 * i + 1 < n" and less: "heap_less h (least_child h i n) i"
  shows "down_inv (heap_swap h i (least_child h i n)) (least_child h i n) n"
proof -
  let ?j = "least_child h i n" and ?K = "\<lambda>k. he_order (h ! k)"
  note j = least_child [OF n(2), where h = h]
  have i: "i < length h" "?j < length h" using j(1,2) n(1) by simp_all
  note at = nth_heap_swap [OF i]
  have lt: "?K ?j < ?K i" using less by (simp add: heap_less_def)
  have A: "?K ((k - 1) div 2) \<le> ?K k" if "0 < k" "k < n" "(k - 1) div 2 \<noteq> i" for k
    using inv that by (simp add: down_inv_def)
  have B: "?K ((i - 1) div 2) \<le> ?K k" if "0 < i" "k < n" "k = 2 * i + 1 \<or> k = 2 * i + 2" for k
    using inv that unfolding down_inv_def by blast
  have j0: "0 < ?j" using j(2) by simp
  have "he_order (heap_swap h i ?j ! ((k - 1) div 2)) \<le> he_order (heap_swap h i ?j ! k)"
    if k: "0 < k" "k < n" "(k - 1) div 2 \<noteq> ?j" for k
  proof -
    define p where "p = (k - 1) div 2"
    have pk: "p < k" using k(1) by (simp add: p_def)
    have c: "p = i \<Longrightarrow> ?K ?j \<le> ?K k" using j(4) [OF k(2)] parent_iff [OF k(1), of i] by (simp add: p_def)
    have a: "p \<noteq> i \<Longrightarrow> ?K p \<le> ?K k" unfolding p_def by (rule A [OF k(1,2)])
    have b: "k = i \<Longrightarrow> ?K p \<le> ?K ?j" using B [of ?j] k(1) j(1) parent_iff [OF j0, of i] j(3) by (simp add: p_def)
    have jp: "k = ?j \<longrightarrow> p = i" using j(3) by (simp add: p_def)
    have "p \<noteq> ?j" using k(3) by (simp add: p_def)
    consider "k = ?j" | "k \<noteq> ?j" "p = i" | "k = i" | "k \<noteq> ?j" "k \<noteq> i" "p \<noteq> i" by blast
    then show ?thesis unfolding p_def [symmetric] at using \<open>p \<noteq> ?j\<close> jp pk a b c lt
      by cases (auto dest: less_imp_le)
  qed
  moreover have "he_order (heap_swap h i ?j ! ((?j - 1) div 2)) \<le> he_order (heap_swap h i ?j ! k)"
    if k: "k < n" "k = 2 * ?j + 1 \<or> k = 2 * ?j + 2" for k
  proof -
    have kk: "0 < k" "(k - 1) div 2 = ?j" "k \<noteq> i" "k \<noteq> ?j" using k(2) j(2) by auto
    have "?K ?j \<le> ?K k" using A [OF kk(1) k(1)] kk(2) j(2) by simp
    then show ?thesis unfolding at j(3) using kk j(2) by simp
  qed
  ultimately show ?thesis unfolding down_inv_def by blast
qed

lemma heap_down_heap: "n \<le> length h \<Longrightarrow> down_inv h i n \<Longrightarrow> heap_upto (heap_down h i n) n"
proof (induction h i n rule: heap_down_induct)
  case (step h i n)
  let ?j = "least_child h i n"
  show ?case
  proof (cases "2 * i + 1 \<ge> n \<or> \<not> heap_less h ?j i")
    case False
    then have "heap_down h i n = heap_down (heap_swap h i ?j) ?j n" by (subst heap_down_step) simp
    with False step down_inv_swap show ?thesis by simp
  next
    case True
    have "he_order (h ! ((k - 1) div 2)) \<le> he_order (h ! k)" if k: "0 < k" "k < n" for k
    proof (cases "(k - 1) div 2 = i")
      case False
      with step(3) k show ?thesis by (simp add: down_inv_def)
    next
      case par: True
      then have c: "k = 2 * i + 1 \<or> k = 2 * i + 2" using parent_iff [OF k(1)] by blast
      with k True have "\<not> heap_less h ?j i" and lt: "2 * i + 1 < n" by auto
      then show ?thesis using least_child(4) [OF lt k(2) c, of h] par by (simp add: heap_less_def)
    qed
    then show ?thesis using True by (subst heap_down_step) (simp add: heap_upto_def)
  qed
qed

lemma is_heap_least: "is_heap h \<Longrightarrow> k < length h \<Longrightarrow> he_order (h ! 0) \<le> he_order (h ! k)"
proof (induction k rule: less_induct)
  case (less k)
  show ?case
  proof (cases "k = 0")
    case False
    then have "(k - 1) div 2 < k" by simp
    then have "he_order (h ! 0) \<le> he_order (h ! ((k - 1) div 2))" using less by simp
    also have "\<dots> \<le> he_order (h ! k)" using less(2,3) False by (simp add: heap_upto_def)
    finally show ?thesis .
  qed simp
qed

text \<open>\<open>Pop\<close> takes out an entry of least order and leaves a heap of the others.\<close>

lemma heap_pop_correct:
  assumes "is_heap h" and "heap_pop h = Some (e, h')"
  shows "is_heap h'" and "mset h = add_mset e (mset h')" and "\<forall>x\<in>set h. he_order e \<le> he_order x"
proof -
  define n where "n = length h - 1"
  define d where "d = heap_down (heap_swap h 0 n) 0 n"
  have ne: "h \<noteq> []" and e: "e = d ! n" and h': "h' = take n d"
    using assms(2) by (auto simp: heap_pop_def Let_def n_def d_def split: if_splits)
  then have n: "n < length h" "length h = Suc n" by (simp_all add: n_def)
  have sw: "length (heap_swap h 0 n) = length h" "mset (heap_swap h 0 n) = mset h"
    using n ne by (simp_all add: mset_heap_swap)
  have fr: "mset d = mset h" "length d = Suc n" "drop n d = drop n (heap_swap h 0 n)"
    using heap_down_frame [of n "heap_swap h 0 n" 0] n sw by (simp_all add: d_def)
  have "drop n d = [d ! n]" using fr(2) by (simp add: Cons_nth_drop_Suc [symmetric])
  then have dd: "d = h' @ [e]" using append_take_drop_id [of n d] by (simp add: h' e)
  then show "mset h = add_mset e (mset h')" using fr(1) by simp
  have "d ! n = heap_swap h 0 n ! n" using fr(2,3) sw n by (metis Cons_nth_drop_Suc lessI list.inject)
  then have "e = h ! 0" using n ne by (simp add: e nth_heap_swap)
  then show "\<forall>x\<in>set h. he_order e \<le> he_order x" using is_heap_least [OF assms(1)] by (auto simp: in_set_conv_nth)
  have "down_inv (heap_swap h 0 n) 0 n"
    using assms(1) n ne by (auto simp: down_inv_def heap_upto_def nth_heap_swap)
  then have "heap_upto d n" unfolding d_def using sw n by (intro heap_down_heap) simp_all
  then show "is_heap h'" using fr(2) by (auto simp: heap_upto_def h')
qed

end
