(* ===== verification/Probe_Registry.thy ===== *)
theory Probe_Registry
  imports Kahn Reg_Heap
begin

text \<open>
  The probe registry of \<open>internal/probe/registry.go\<close>: \<open>Register\<close> and \<open>Resolve\<close> as
  functions on the registry's state, \<open>kahnTopoSort\<close> with its heap (an instance of the
  shared loop of \<open>Kahn\<close>), and \<open>compilePlan\<close>, which turns the captured declarations into
  the index-based plan the orchestrator executes. A probe is represented by what the registry
  asks of it: its identifier and its declared dependencies.
\<close>

record probe_decl =
  pd_id :: string
  pd_dependencies :: "string list"

record plan_node =
  pn_id :: string
  pn_probe :: "probe_decl option"
  pn_dependencies :: "nat list"
  pn_downstream :: "nat list"

record execution_plan =
  pl_nodes :: "plan_node list"
  pl_indices :: "string \<Rightarrow> nat"

record probe_registry =
  rg_probes :: "string \<Rightarrow> probe_decl option"
  rg_ordered :: "string list"
  rg_index :: "string \<Rightarrow> nat"
  rg_error :: "go_error option"
  rg_resolved :: bool
  rg_plan :: "string list"
  rg_compiled :: "execution_plan option"

definition ErrRegistryResolved :: go_error where
  "ErrRegistryResolved = Err ''registry is resolved and immutable''"

definition ErrCycleDetected :: go_error where
  "ErrCycleDetected = Err ''dependency cycle detected''"

text \<open>A lookup in \<open>regIndex\<close> of an absent key is 0.\<close>

definition new_probe_registry :: probe_registry where
  "new_probe_registry = \<lparr>rg_probes = Map.empty, rg_ordered = [], rg_index = (\<lambda>_. 0), rg_error = None,
     rg_resolved = False, rg_plan = [], rg_compiled = None\<rparr>"

definition register :: "probe_decl option \<Rightarrow> probe_registry \<Rightarrow> probe_registry \<times> go_error option" where
  "register p r =
     (case p of
        None \<Rightarrow> (r, Some (Err ''cannot register nil probe''))
      | Some q \<Rightarrow>
          if pd_id q = '''' then (r, Some (Err ''cannot register probe with empty ID''))
          else if rg_resolved r then (r, Some ErrRegistryResolved)
          else if rg_probes r (pd_id q) \<noteq> None then (r, Some (Errf ''duplicate probe ID %q'' [pd_id q]))
          else (r\<lparr>rg_probes := (rg_probes r)(pd_id q \<mapsto> q),
                  rg_index := (rg_index r)(pd_id q := length (rg_ordered r)),
                  rg_ordered := rg_ordered r @ [pd_id q]\<rparr>, None))"

section \<open>The topological sort\<close>

text \<open>The heap as the ready queue of Kahn's loop.\<close>

definition reg_pop :: "reg_heap \<Rightarrow> (string \<times> reg_heap) option" where
  "reg_pop h = map_option (\<lambda>(e, h'). (he_id e, h')) (heap_pop h)"

fun reg_push :: "(string \<Rightarrow> nat) \<Rightarrow> string list \<Rightarrow> reg_heap \<Rightarrow> reg_heap" where
  "reg_push index [] h = h"
| "reg_push index (x # xs) h = reg_push index xs (heap_push \<lparr>he_id = x, he_order = index x\<rparr> h)"

text \<open>The in-degrees and the reverse adjacency.\<close>

fun count_edges :: "string \<Rightarrow> string list \<Rightarrow> (string \<Rightarrow> int) \<times> (string \<Rightarrow> string list) \<Rightarrow>
    (string \<Rightarrow> int) \<times> (string \<Rightarrow> string list)" where
  "count_edges i [] g = g"
| "count_edges i (dep # deps) (inDegree, dependents) =
     count_edges i deps (inDegree(i := inDegree i + 1), dependents(dep := dependents dep @ [i]))"

fun build_degrees :: "(string \<Rightarrow> string list) \<Rightarrow> string list \<Rightarrow> (string \<Rightarrow> int) \<times> (string \<Rightarrow> string list) \<Rightarrow>
    (string \<Rightarrow> int) \<times> (string \<Rightarrow> string list)" where
  "build_degrees deps [] g = g"
| "build_degrees deps (i # ids) g = build_degrees deps ids (count_edges i (deps i) g)"

definition kahn_topo_sort :: "string list \<Rightarrow> (string \<Rightarrow> string list) \<Rightarrow> (string \<Rightarrow> nat) \<Rightarrow> go_error + string list" where
  "kahn_topo_sort ids deps index =
     (let (inDegree, dependents) = build_degrees deps ids (\<lambda>_. 0, \<lambda>_. []);
          pq = reg_push index (filter (\<lambda>i. inDegree i = 0) ids) [];
          (_, _, plan) = kahn_loop reg_pop (reg_push index) dependents (length ids) (inDegree, pq, [])
      in if length plan \<noteq> length ids then Inl (Wrapf ''%w: %d of %d nodes reached'' [ErrCycleDetected]
             [decimal_string (length plan), decimal_string (length ids)]) else Inr plan)"

section \<open>The compiled plan\<close>

definition add_dependency :: "nat \<Rightarrow> plan_node list \<Rightarrow> nat \<Rightarrow> plan_node list" where
  "add_dependency i nodes parent =
     (let nodes' = nodes[i := (nodes ! i)\<lparr>pn_dependencies := pn_dependencies (nodes ! i) @ [parent]\<rparr>]
      in nodes'[parent := (nodes' ! parent)\<lparr>pn_downstream := pn_downstream (nodes' ! parent) @ [i]\<rparr>])"

fun compile_nodes :: "(string \<Rightarrow> probe_decl option) \<Rightarrow> (string \<Rightarrow> string list) \<Rightarrow> (string \<Rightarrow> nat) \<Rightarrow> nat \<Rightarrow> string list \<Rightarrow>
    execution_plan \<Rightarrow> execution_plan" where
  "compile_nodes probes deps indices i [] plan = plan"
| "compile_nodes probes deps indices i (x # ids) plan =
     (let nodes = (pl_nodes plan)[i := (pl_nodes plan ! i)\<lparr>pn_id := x, pn_probe := probes x\<rparr>]
      in compile_nodes probes deps indices (i + 1) ids
           \<lparr>pl_nodes = foldl (add_dependency i) nodes (map indices (deps x)),
            pl_indices = (pl_indices plan)(x := i)\<rparr>)"

definition compile_plan :: "string list \<Rightarrow> (string \<Rightarrow> probe_decl option) \<Rightarrow> (string \<Rightarrow> string list) \<Rightarrow> (string \<Rightarrow> nat) \<Rightarrow>
    execution_plan" where
  "compile_plan ids probes deps indices =
     compile_nodes probes deps indices 0 ids
       \<lparr>pl_nodes = replicate (length ids) \<lparr>pn_id = '''', pn_probe = None, pn_dependencies = [], pn_downstream = []\<rparr>,
        pl_indices = (\<lambda>_. 0)\<rparr>"

section \<open>Resolution\<close>

definition captured :: "probe_registry \<Rightarrow> string \<Rightarrow> string list" where
  "captured r i = (case rg_probes r i of None \<Rightarrow> [] | Some p \<Rightarrow> pd_dependencies p)"

definition dependency_error :: "probe_registry \<Rightarrow> string \<Rightarrow> string \<Rightarrow> go_error option" where
  "dependency_error r i dep =
     (if dep = i then Some (Wrapf ''%w: probe %q depends on itself'' [ErrCycleDetected] [i])
      else if rg_probes r dep = None then Some (Errf ''probe %q declares unknown dependency %q'' [i, dep])
      else None)"

definition registry_resolve :: "probe_registry \<Rightarrow> probe_registry \<times> go_error option" where
  "registry_resolve r =
     (if rg_resolved r then (r, rg_error r)
      else
        let failed = (\<lambda>err. (r\<lparr>rg_resolved := True, rg_plan := [], rg_error := Some err\<rparr>, Some err))
        in case first_error (\<lambda>i. first_error (dependency_error r i) (captured r i)) (rg_ordered r) of
             Some err \<Rightarrow> failed err
           | None \<Rightarrow>
               (case kahn_topo_sort (rg_ordered r) (captured r) (rg_index r) of
                  Inl err \<Rightarrow> failed err
                | Inr plan \<Rightarrow>
                    (r\<lparr>rg_resolved := True, rg_plan := plan,
                       rg_compiled := Some (compile_plan (rg_ordered r) (rg_probes r) (captured r) (rg_index r))\<rparr>, None)))"

definition registry_all :: "probe_registry \<Rightarrow> probe_decl option list" where
  "registry_all r = map (rg_probes r) (rg_ordered r)"

definition registry_get :: "probe_registry \<Rightarrow> string \<Rightarrow> probe_decl option" where
  "registry_get r i = rg_probes r i"

definition resolved_plan :: "probe_registry \<Rightarrow> go_error + string list" where
  "resolved_plan r =
     (if \<not> rg_resolved r then Inl (Err ''registry has not been resolved'')
      else case rg_error r of Some err \<Rightarrow> Inl err | None \<Rightarrow> Inr (rg_plan r))"

definition execution :: "probe_registry \<Rightarrow> go_error + execution_plan option" where
  "execution r =
     (if \<not> rg_resolved r then Inl (Err ''registry has not been resolved'')
      else case rg_error r of Some err \<Rightarrow> Inl err | None \<Rightarrow> Inr (rg_compiled r))"

section \<open>The heap as a priority queue\<close>

definition reg_qinv :: "(string \<Rightarrow> nat) \<Rightarrow> reg_heap \<Rightarrow> bool" where
  "reg_qinv index h \<longleftrightarrow> is_heap h \<and> (\<forall>e\<in>set h. he_order e = index (he_id e))"

definition reg_elems :: "reg_heap \<Rightarrow> string multiset" where
  "reg_elems h = image_mset he_id (mset h)"

lemma reg_push_correct:
  "reg_qinv index h \<Longrightarrow> reg_qinv index (reg_push index xs h) \<and> reg_elems (reg_push index xs h) = mset xs + reg_elems h"
proof (induction xs arbitrary: h)
  case (Cons x xs)
  let ?e = "\<lparr>he_id = x, he_order = index x\<rparr>"
  have "is_heap h" and orders: "\<forall>e\<in>set h. he_order e = index (he_id e)" using Cons.prems by (auto simp: reg_qinv_def)
  note push = heap_push_correct [OF \<open>is_heap h\<close>, of ?e]
  have "set (heap_push ?e h) = insert ?e (set h)" using push(2) by (metis set_mset_add_mset_insert set_mset_mset)
  then have "reg_qinv index (heap_push ?e h)" using push(1) orders by (simp add: reg_qinv_def)
  moreover have "reg_elems (heap_push ?e h) = add_mset x (reg_elems h)" by (simp add: reg_elems_def push(2))
  ultimately show ?case using Cons.IH by simp
qed simp

lemma reg_pop_correct:
  assumes "reg_qinv index h" and "reg_pop h = Some (x, h')"
  shows "reg_elems h = add_mset x (reg_elems h')" and "reg_qinv index h'" and "y \<in># reg_elems h \<Longrightarrow> index x \<le> index y"
proof -
  from assms obtain e where e: "heap_pop h = Some (e, h')" "he_id e = x" and "is_heap h"
    and orders: "\<forall>e\<in>set h. he_order e = index (he_id e)"
    by (auto simp: reg_pop_def reg_qinv_def)
  note pop = heap_pop_correct [OF \<open>is_heap h\<close> e(1)]
  show "reg_elems h = add_mset x (reg_elems h')" by (simp add: reg_elems_def pop(2) e(2))
  have set: "set h = insert e (set h')" using pop(2) by (metis set_mset_add_mset_insert set_mset_mset)
  then show "reg_qinv index h'" using pop(1) orders by (simp add: reg_qinv_def)
  show "index x \<le> index y" if "y \<in># reg_elems h"
    using that pop(3) orders set e(2) by (auto simp: reg_elems_def)
qed

lemma reg_pop_None: "reg_pop h = None \<longleftrightarrow> reg_elems h = {#}"
  by (simp add: reg_pop_def heap_pop_def reg_elems_def Let_def)

interpretation reg_queue: ready_queue reg_pop "reg_push index" reg_elems "reg_qinv index" for index
  using reg_push_correct reg_pop_correct(1,2) reg_pop_None by unfold_locales blast+

interpretation reg_order: priority_queue reg_pop "reg_push index" reg_elems "reg_qinv index" index for index
  using reg_pop_correct(3) by unfold_locales

section \<open>The sort is a topological order\<close>

lemma count_edges_eq:
  "count_edges i deps (inDegree, dependents) =
     (inDegree(i := inDegree i + int (length deps)), \<lambda>d. dependents d @ replicate (count_list deps d) i)"
  by (induction deps arbitrary: inDegree dependents) (auto simp: fun_eq_iff)

lemma build_degrees_eq:
  assumes "distinct ids" and "build_degrees deps ids (\<lambda>_. 0, \<lambda>_. []) = (inDegree, dependents)"
  shows "\<forall>i\<in>set ids. inDegree i = int (length (deps i))" and "reverse_edges ids deps dependents"
proof -
  have gen: "build_degrees deps ids (c, d) = (c', d') \<Longrightarrow> distinct ids \<Longrightarrow> (\<forall>i\<in>set ids. c i = 0) \<Longrightarrow>
      (\<forall>i. c' i = (if i \<in> set ids then int (length (deps i)) else c i)) \<and>
      (\<forall>k i. count_list (d' k) i = count_list (d k) i + (if i \<in> set ids then count_list (deps i) k else 0))"
    for c d c' d' ids
  proof (induction ids arbitrary: c d)
    case (Cons x ids)
    then show ?case by (fastforce simp: count_edges_eq count_list_repl)
  qed simp
  from gen [OF assms(2,1)] show "\<forall>i\<in>set ids. inDegree i = int (length (deps i))" and "reverse_edges ids deps dependents"
    by (auto simp: reverse_edges_def)
qed

lemma kahn_topo_sort_run:
  assumes ids: "distinct ids" and closed: "\<forall>i\<in>set ids. set (deps i) \<subseteq> set ids"
  obtains plan where "kahn_topo_sort ids deps index =
      (if length plan \<noteq> length ids then Inl (Wrapf ''%w: %d of %d nodes reached'' [ErrCycleDetected]
             [decimal_string (length plan), decimal_string (length ids)]) else Inr plan)"
    and "distinct plan" and "set plan \<subseteq> set ids" and "topo_order deps plan"
    and "greedy_from index ids deps {} plan"
    and "length plan = length ids \<longleftrightarrow> acyclic (dep_rel ids deps)"
proof -
  obtain inDegree dependents where b: "build_degrees deps ids (\<lambda>_. 0, \<lambda>_. []) = (inDegree, dependents)" by fastforce
  note maps = build_degrees_eq [OF ids b]
  let ?ready = "filter (\<lambda>i. inDegree i = 0) ids"
  let ?pq = "reg_push index ?ready []"
  have "reg_qinv index []" by (simp add: reg_qinv_def heap_upto_def)
  note pq = reg_push_correct [OF this, of ?ready]
  have elems: "reg_elems ?pq = mset ?ready" using pq by (simp add: reg_elems_def)
  obtain c' q' plan where run:
    "kahn_loop reg_pop (reg_push index) dependents (length ids) (inDegree, ?pq, []) = (c', q', plan)"
    by (cases "kahn_loop reg_pop (reg_push index) dependents (length ids) (inDegree, ?pq, [])")
  note res = reg_queue.kahn_run [OF run conjunct1 [OF pq] elems maps(1) ids maps(2) closed]
  have greedy: "greedy_from index ids deps {} plan"
    using reg_order.kahn_loop_greedy [OF run conjunct1 [OF pq] _ maps(2)] kahn_inv_init [OF ids maps(1)] elems by simp
  show thesis
    by (rule that [of plan]) (use b run res greedy in \<open>auto simp: kahn_topo_sort_def Let_def\<close>)
qed

section \<open>The compiled plan mirrors the declarations\<close>

text \<open>
  What the orchestrator relies on: identifiers and indices correspond, dependencies are in range,
  and the downstream lists are the dependency lists reversed, with the same multiplicities.
\<close>

definition plan_links :: "plan_node list \<Rightarrow> bool" where
  "plan_links nodes \<longleftrightarrow>
     (\<forall>i<length nodes. set (pn_dependencies (nodes ! i)) \<subseteq> {..<length nodes}) \<and>
     (\<forall>i<length nodes. \<forall>j. count_list (pn_downstream (nodes ! i)) j =
        (if j < length nodes then count_list (pn_dependencies (nodes ! j)) i else 0))"

lemma add_dependency_links:
  assumes "plan_links nodes" and "i < length nodes" and "parent < length nodes"
  shows "plan_links (add_dependency i nodes parent)" and "length (add_dependency i nodes parent) = length nodes"
    and "j < length nodes \<Longrightarrow> pn_id (add_dependency i nodes parent ! j) = pn_id (nodes ! j)"
    and "j < length nodes \<Longrightarrow> pn_probe (add_dependency i nodes parent ! j) = pn_probe (nodes ! j)"
    and "j < length nodes \<Longrightarrow> pn_dependencies (add_dependency i nodes parent ! j) =
           pn_dependencies (nodes ! j) @ (if j = i then [parent] else [])"
proof -
  let ?n = "add_dependency i nodes parent"
  show len: "length ?n = length nodes" by (simp add: add_dependency_def Let_def)
  have dep: "pn_dependencies (?n ! j) = pn_dependencies (nodes ! j) @ (if j = i then [parent] else [])"
    if "j < length nodes" for j
    using assms that by (auto simp: add_dependency_def Let_def nth_list_update)
  have down: "pn_downstream (?n ! j) = pn_downstream (nodes ! j) @ (if j = parent then [i] else [])"
    if "j < length nodes" for j
    using assms that by (auto simp: add_dependency_def Let_def nth_list_update)
  show "pn_id (?n ! j) = pn_id (nodes ! j)" "pn_probe (?n ! j) = pn_probe (nodes ! j)" if "j < length nodes"
    using assms that by (auto simp: add_dependency_def Let_def nth_list_update)
  show "pn_dependencies (?n ! j) = pn_dependencies (nodes ! j) @ (if j = i then [parent] else [])" if "j < length nodes"
    by (rule dep [OF that])
  show "plan_links ?n"
    unfolding plan_links_def len
  proof (intro conjI allI impI)
    fix j assume j: "j < length nodes"
    show "set (pn_dependencies (?n ! j)) \<subseteq> {..<length nodes}"
      using assms j by (auto simp: dep plan_links_def)
    fix k
    show "count_list (pn_downstream (?n ! j)) k = (if k < length nodes then count_list (pn_dependencies (?n ! k)) j else 0)"
      using assms j by (auto simp: dep down plan_links_def)
  qed
qed

lemma add_dependencies_links:
  assumes "plan_links nodes" and "i < length nodes" and "set ps \<subseteq> {..<length nodes}"
  shows "plan_links (foldl (add_dependency i) nodes ps) \<and> length (foldl (add_dependency i) nodes ps) = length nodes \<and>
    (\<forall>j<length nodes. pn_id (foldl (add_dependency i) nodes ps ! j) = pn_id (nodes ! j) \<and>
       pn_probe (foldl (add_dependency i) nodes ps ! j) = pn_probe (nodes ! j) \<and>
       pn_dependencies (foldl (add_dependency i) nodes ps ! j) = pn_dependencies (nodes ! j) @ (if j = i then ps else []))"
  using assms
proof (induction ps arbitrary: nodes)
  case (Cons p ps)
  note step = add_dependency_links [of nodes i p]
  have p: "p < length nodes" using Cons.prems by simp
  show ?case using Cons.IH [of "add_dependency i nodes p"] step [OF Cons.prems(1,2) p] Cons.prems by auto
qed simp

lemma compile_nodes_links:
  assumes "plan_links (pl_nodes plan)" and "length (pl_nodes plan) = length (pre @ rest)"
    and "distinct (pre @ rest)" and "\<forall>x\<in>set rest. \<forall>d\<in>set (deps x). indices d < length (pre @ rest)"
    and "\<forall>j<length pre. pn_id (pl_nodes plan ! j) = pre ! j \<and> pn_probe (pl_nodes plan ! j) = probes (pre ! j) \<and>
       pn_dependencies (pl_nodes plan ! j) = map indices (deps (pre ! j)) \<and> pl_indices plan (pre ! j) = j"
    and "\<forall>j<length (pre @ rest). length pre \<le> j \<longrightarrow> pn_dependencies (pl_nodes plan ! j) = []"
  defines "result \<equiv> compile_nodes probes deps indices (length pre) rest plan"
  shows "plan_links (pl_nodes result) \<and> length (pl_nodes result) = length (pre @ rest) \<and>
    (\<forall>j<length (pre @ rest). pn_id (pl_nodes result ! j) = (pre @ rest) ! j \<and>
       pn_probe (pl_nodes result ! j) = probes ((pre @ rest) ! j) \<and>
       pn_dependencies (pl_nodes result ! j) = map indices (deps ((pre @ rest) ! j)) \<and>
       pl_indices result ((pre @ rest) ! j) = j)"
  using assms(1-6) unfolding result_def
proof (induction rest arbitrary: pre plan)
  case Nil
  then show ?case by simp
next
  case (Cons x rest)
  let ?i = "length pre" and ?N = "length (pre @ x # rest)"
  let ?nodes = "(pl_nodes plan)[?i := (pl_nodes plan ! ?i)\<lparr>pn_id := x, pn_probe := probes x\<rparr>]"
  let ?new = "foldl (add_dependency ?i) ?nodes (map indices (deps x))"
  let ?plan = "\<lparr>pl_nodes = ?new, pl_indices = (pl_indices plan)(x := ?i)\<rparr>"
  have len: "length ?nodes = ?N" using Cons.prems(2) by simp
  have i: "?i < length ?nodes" using len by simp
  have same: "pn_dependencies (?nodes ! j) = pn_dependencies (pl_nodes plan ! j)"
    "pn_downstream (?nodes ! j) = pn_downstream (pl_nodes plan ! j)" if "j < ?N" for j
    using that Cons.prems(2) by (simp_all add: nth_list_update)
  have links: "plan_links ?nodes"
    using Cons.prems(1) unfolding plan_links_def len using same Cons.prems(2) by simp
  have ps: "set (map indices (deps x)) \<subseteq> {..<length ?nodes}" using Cons.prems(4) len by auto
  note step = add_dependencies_links [OF links i ps]
  have step_node: "pn_id (?new ! j) = pn_id (?nodes ! j)" "pn_probe (?new ! j) = pn_probe (?nodes ! j)"
    "pn_dependencies (?new ! j) = pn_dependencies (?nodes ! j) @ (if j = ?i then map indices (deps x) else [])"
    if "j < ?N" for j using step that unfolding len by blast+
  have "compile_nodes probes deps indices ?i (x # rest) plan =
      compile_nodes probes deps indices (length (pre @ [x])) rest ?plan" by (simp add: Let_def)
  moreover have "plan_links (pl_nodes (compile_nodes probes deps indices (length (pre @ [x])) rest ?plan)) \<and>
      length (pl_nodes (compile_nodes probes deps indices (length (pre @ [x])) rest ?plan)) = length ((pre @ [x]) @ rest) \<and>
      (\<forall>j<length ((pre @ [x]) @ rest).
        pn_id (pl_nodes (compile_nodes probes deps indices (length (pre @ [x])) rest ?plan) ! j) = ((pre @ [x]) @ rest) ! j \<and>
        pn_probe (pl_nodes (compile_nodes probes deps indices (length (pre @ [x])) rest ?plan) ! j) = probes (((pre @ [x]) @ rest) ! j) \<and>
        pn_dependencies (pl_nodes (compile_nodes probes deps indices (length (pre @ [x])) rest ?plan) ! j) =
          map indices (deps (((pre @ [x]) @ rest) ! j)) \<and>
        pl_indices (compile_nodes probes deps indices (length (pre @ [x])) rest ?plan) (((pre @ [x]) @ rest) ! j) = j)"
  proof (rule Cons.IH)
    show "plan_links (pl_nodes ?plan)" "length (pl_nodes ?plan) = length ((pre @ [x]) @ rest)" using step len by simp_all
    show "distinct ((pre @ [x]) @ rest)" "\<forall>y\<in>set rest. \<forall>d\<in>set (deps y). indices d < length ((pre @ [x]) @ rest)"
      using Cons.prems(3,4) by auto
    have fresh: "pn_dependencies (pl_nodes plan ! ?i) = []" using Cons.prems(6) by simp
    have "pre ! j \<noteq> x" if "j < ?i" for j using Cons.prems(3) that by (auto dest: nth_mem)
    then show "\<forall>j<length (pre @ [x]). pn_id (pl_nodes ?plan ! j) = (pre @ [x]) ! j \<and>
        pn_probe (pl_nodes ?plan ! j) = probes ((pre @ [x]) ! j) \<and>
        pn_dependencies (pl_nodes ?plan ! j) = map indices (deps ((pre @ [x]) ! j)) \<and> pl_indices ?plan ((pre @ [x]) ! j) = j"
      using Cons.prems(2,5) fresh step_node by (auto simp: nth_append less_Suc_eq)
    show "\<forall>j<length ((pre @ [x]) @ rest). length (pre @ [x]) \<le> j \<longrightarrow> pn_dependencies (pl_nodes ?plan ! j) = []"
      using Cons.prems(6) step_node same by simp
  qed
  ultimately show ?case by simp
qed

lemma compile_plan_links:
  assumes "distinct ids" and "\<forall>x\<in>set ids. \<forall>d\<in>set (deps x). indices d < length ids"
  shows "plan_links (pl_nodes (compile_plan ids probes deps indices))"
    and "length (pl_nodes (compile_plan ids probes deps indices)) = length ids"
    and "j < length ids \<Longrightarrow> pn_id (pl_nodes (compile_plan ids probes deps indices) ! j) = ids ! j"
    and "j < length ids \<Longrightarrow> pn_probe (pl_nodes (compile_plan ids probes deps indices) ! j) = probes (ids ! j)"
    and "j < length ids \<Longrightarrow> pn_dependencies (pl_nodes (compile_plan ids probes deps indices) ! j) = map indices (deps (ids ! j))"
    and "j < length ids \<Longrightarrow> pl_indices (compile_plan ids probes deps indices) (ids ! j) = j"
proof -
  let ?empty = "\<lparr>pl_nodes = replicate (length ids) \<lparr>pn_id = '''', pn_probe = None, pn_dependencies = [], pn_downstream = []\<rparr>,
        pl_indices = (\<lambda>_. 0)\<rparr>"
  have L: "plan_links (pl_nodes ?empty)" by (simp add: plan_links_def)
  note C = compile_nodes_links [OF L, of "[]" ids deps indices probes]
  show "plan_links (pl_nodes (compile_plan ids probes deps indices))"
    and "length (pl_nodes (compile_plan ids probes deps indices)) = length ids"
    and "j < length ids \<Longrightarrow> pn_id (pl_nodes (compile_plan ids probes deps indices) ! j) = ids ! j"
    and "j < length ids \<Longrightarrow> pn_probe (pl_nodes (compile_plan ids probes deps indices) ! j) = probes (ids ! j)"
    and "j < length ids \<Longrightarrow> pn_dependencies (pl_nodes (compile_plan ids probes deps indices) ! j) = map indices (deps (ids ! j))"
    and "j < length ids \<Longrightarrow> pl_indices (compile_plan ids probes deps indices) (ids ! j) = j"
    using C assms by (simp_all add: compile_plan_def)
qed

section \<open>Reachable registries\<close>

inductive registry_reachable :: "probe_registry \<Rightarrow> bool" where
  created: "registry_reachable new_probe_registry"
| registered: "registry_reachable r \<Longrightarrow> registry_reachable (fst (register p r))"
| resolved: "registry_reachable r \<Longrightarrow> registry_reachable (fst (registry_resolve r))"

inductive_cases registry_reachableE: "registry_reachable r"

definition registry_inv :: "probe_registry \<Rightarrow> bool" where
  "registry_inv r \<longleftrightarrow>
     distinct (rg_ordered r) \<and> (\<forall>i. rg_probes r i \<noteq> None \<longleftrightarrow> i \<in> set (rg_ordered r)) \<and>
     (\<forall>j<length (rg_ordered r). rg_index r (rg_ordered r ! j) = j) \<and>
     (\<forall>i p. rg_probes r i = Some p \<longrightarrow> pd_id p = i) \<and>
     (rg_resolved r \<or> rg_error r = None)"

lemma resolve_keeps [simp]:
  "rg_ordered (fst (registry_resolve r)) = rg_ordered r"
  "rg_probes (fst (registry_resolve r)) = rg_probes r"
  "rg_index (fst (registry_resolve r)) = rg_index r"
  by (simp_all add: registry_resolve_def Let_def split: option.split sum.split)

lemma register_cases:
  obtains "fst (register p r) = r" and "snd (register p r) \<noteq> None"
  | q where "p = Some q" and "rg_probes r (pd_id q) = None" and "\<not> rg_resolved r" and "snd (register p r) = None"
    and "fst (register p r) = r\<lparr>rg_probes := (rg_probes r)(pd_id q \<mapsto> q),
       rg_index := (rg_index r)(pd_id q := length (rg_ordered r)), rg_ordered := rg_ordered r @ [pd_id q]\<rparr>"
proof (cases "snd (register p r)")
  case None
  then show thesis by (intro that(2) [of "the p"]) (auto simp: register_def split: option.splits if_splits)
next
  case (Some e)
  then show thesis by (intro that(1)) (auto simp: register_def split: option.splits if_splits)
qed

lemma reachable_inv: "registry_reachable r \<Longrightarrow> registry_inv r"
proof (induction rule: registry_reachable.induct)
  case created
  then show ?case by (simp add: registry_inv_def new_probe_registry_def)
next
  case (registered r p)
  show ?case
  proof (cases rule: register_cases [of p r])
    case 1
    with registered show ?thesis by simp
  next
    case (2 q)
    have inv: "distinct (rg_ordered r)" "\<And>i. rg_probes r i \<noteq> None \<longleftrightarrow> i \<in> set (rg_ordered r)"
      "\<And>j. j < length (rg_ordered r) \<Longrightarrow> rg_index r (rg_ordered r ! j) = j"
      "\<And>i p. rg_probes r i = Some p \<Longrightarrow> pd_id p = i"
      using registered.IH unfolding registry_inv_def by blast+
    have fresh: "pd_id q \<notin> set (rg_ordered r)" using inv(2) 2(2) by blast
    have "((rg_index r)(pd_id q := length (rg_ordered r))) ((rg_ordered r @ [pd_id q]) ! j) = j"
      if "j < length (rg_ordered r @ [pd_id q])" for j
    proof (cases "j = length (rg_ordered r)")
      case False
      with that have j: "j < length (rg_ordered r)" by simp
      then have "rg_ordered r ! j \<noteq> pd_id q" using fresh nth_mem by metis
      with j inv(3) show ?thesis by (simp add: nth_append)
    qed simp
    moreover have "rg_error r = None" using registered.IH 2(3) by (simp add: registry_inv_def)
    ultimately show ?thesis unfolding 2(5) registry_inv_def using fresh inv(1,2,4) by auto
  qed
next
  case (resolved r)
  have "rg_resolved (fst (registry_resolve r))"
    by (simp add: registry_resolve_def Let_def split: option.split sum.split)
  with resolved show ?case by (simp add: registry_inv_def)
qed

text \<open>The plan the orchestrator relies on: linked, indexed by identifier, and acyclic.\<close>

definition plan_ok :: "execution_plan \<Rightarrow> bool" where
  "plan_ok plan \<longleftrightarrow>
     plan_links (pl_nodes plan) \<and>
     (\<forall>i<length (pl_nodes plan). pl_indices plan (pn_id (pl_nodes plan ! i)) = i) \<and>
     (\<exists>rank :: nat \<Rightarrow> nat. \<forall>i<length (pl_nodes plan). \<forall>d\<in>set (pn_dependencies (pl_nodes plan ! i)). rank d < rank i)"

definition known_dependencies :: "probe_registry \<Rightarrow> bool" where
  "known_dependencies r \<longleftrightarrow> (\<forall>i\<in>set (rg_ordered r). set (captured r i) \<subseteq> set (rg_ordered r))"

definition registry_acyclic :: "probe_registry \<Rightarrow> bool" where
  "registry_acyclic r \<longleftrightarrow> acyclic (dep_rel (rg_ordered r) (captured r))"

lemma dependency_check:
  assumes "registry_inv r"
  shows "first_error (\<lambda>i. first_error (dependency_error r i) (captured r i)) (rg_ordered r) = None \<longleftrightarrow>
    known_dependencies r \<and> (\<forall>i\<in>set (rg_ordered r). i \<notin> set (captured r i))"
  using assms by (auto simp: dependency_error_def known_dependencies_def registry_inv_def split: if_splits)

lemma acyclic_irreflexive: "registry_acyclic r \<Longrightarrow> i \<in> set (rg_ordered r) \<Longrightarrow> i \<notin> set (captured r i)"
  unfolding registry_acyclic_def acyclic_def dep_rel_def by blast

lemma rank_of_order:
  assumes top: "topo_order deps plan" and dist: "distinct plan" and "set plan = set ids" and ids: "distinct ids"
    and closed: "\<forall>i\<in>set ids. set (deps i) \<subseteq> set ids" and index: "\<forall>j<length ids. index (ids ! j) = j"
  shows "\<exists>rank :: nat \<Rightarrow> nat. \<forall>i<length ids. \<forall>d\<in>set (map index (deps (ids ! i))). rank d < rank i"
proof (intro exI allI impI ballI)
  fix i d
  let ?rank = "\<lambda>i. length (takeWhile (\<lambda>y. y \<noteq> ids ! i) plan)"
  assume i: "i < length ids" and "d \<in> set (map index (deps (ids ! i)))"
  then obtain x where x: "x \<in> set (deps (ids ! i))" "d = index x" by auto
  then have "x \<in> set ids" using closed i by auto
  then have "ids ! d = x" using index x(2) by (auto simp: in_set_conv_nth)
  moreover have "ids ! i \<in> set plan" using i assms(3) by simp
  ultimately show "?rank d < ?rank i" using topo_from_earlier [OF top dist, of "ids ! i" x] x(1) by simp
qed

lemma registry_resolve_success:
  assumes inv: "registry_inv r" and open_: "\<not> rg_resolved r"
  obtains (accepted) plan compiled where "known_dependencies r" and "registry_acyclic r"
    and "registry_resolve r = (r\<lparr>rg_resolved := True, rg_plan := plan, rg_compiled := Some compiled\<rparr>, None)"
    and "mset plan = mset (rg_ordered r)" and "topo_order (captured r) plan"
    and "greedy_from (rg_index r) (rg_ordered r) (captured r) {} plan"
    and "compiled = compile_plan (rg_ordered r) (rg_probes r) (captured r) (rg_index r)" and "plan_ok compiled"
  | (rejected) err where "\<not> (known_dependencies r \<and> registry_acyclic r)"
    and "registry_resolve r = (r\<lparr>rg_resolved := True, rg_plan := [], rg_error := Some err\<rparr>, Some err)"
    and "known_dependencies r \<Longrightarrow> errors_is err ErrCycleDetected"
proof (cases "first_error (\<lambda>i. first_error (dependency_error r i) (captured r i)) (rg_ordered r)")
  case (Some err)
  have "errors_is err ErrCycleDetected" if "known_dependencies r"
  proof -
    have "first_error f xs = Some e \<Longrightarrow> \<exists>x\<in>set xs. f x = Some e" for f e and xs :: "string list"
      by (induction xs) (auto split: option.splits)
    from this [OF Some] this obtain i d where id: "i \<in> set (rg_ordered r)" "d \<in> set (captured r i)"
      "dependency_error r i d = Some err" by blast
    then have "rg_probes r d \<noteq> None" using that inv by (auto simp: known_dependencies_def registry_inv_def)
    with id(3) show ?thesis by (auto simp: dependency_error_def ErrCycleDetected_def split: if_splits)
  qed
  moreover have "\<not> (known_dependencies r \<and> registry_acyclic r)"
    using dependency_check [OF inv] Some acyclic_irreflexive by auto
  ultimately show thesis using Some open_ by (intro rejected) (simp_all add: registry_resolve_def Let_def)
next
  case None
  then have known: "known_dependencies r" by (simp only: dependency_check [OF inv])
  have ids: "distinct (rg_ordered r)" and index: "\<forall>j<length (rg_ordered r). rg_index r (rg_ordered r ! j) = j"
    using inv by (simp_all add: registry_inv_def)
  have closed: "\<forall>i\<in>set (rg_ordered r). set (captured r i) \<subseteq> set (rg_ordered r)"
    using known by (simp add: known_dependencies_def)
  obtain plan where sort: "kahn_topo_sort (rg_ordered r) (captured r) (rg_index r) =
      (if length plan \<noteq> length (rg_ordered r) then Inl (Wrapf ''%w: %d of %d nodes reached'' [ErrCycleDetected]
             [decimal_string (length plan), decimal_string (length (rg_ordered r))]) else Inr plan)"
    and plan: "distinct plan" "set plan \<subseteq> set (rg_ordered r)" "topo_order (captured r) plan"
      "greedy_from (rg_index r) (rg_ordered r) (captured r) {} plan"
    and full: "length plan = length (rg_ordered r) \<longleftrightarrow> acyclic (dep_rel (rg_ordered r) (captured r))"
    using kahn_topo_sort_run [OF ids closed, of "rg_index r"] by metis
  show thesis
  proof (cases "registry_acyclic r")
    case True
    then have len: "length plan = length (rg_ordered r)" using full by (simp add: registry_acyclic_def)
    then have same: "set plan = set (rg_ordered r)" using plan ids by (intro distinct_set_eq_length)
    let ?compiled = "compile_plan (rg_ordered r) (rg_probes r) (captured r) (rg_index r)"
    have "\<forall>x\<in>set (rg_ordered r). \<forall>d\<in>set (captured r x). rg_index r d < length (rg_ordered r)"
      using closed index by (metis in_set_conv_nth subsetD)
    note C = compile_plan_links [OF ids this, where probes = "rg_probes r"]
    have "plan_ok ?compiled"
      unfolding plan_ok_def using C rank_of_order [OF plan(3,1) same ids closed index] by simp
    moreover have "mset plan = mset (rg_ordered r)" using same plan(1) ids by (simp add: set_eq_iff_mset_eq_distinct)
    ultimately show thesis
      using None sort len open_ plan known True
      by (intro accepted [where plan = plan and compiled = ?compiled])
        (simp_all add: registry_resolve_def Let_def del: first_error_None)
  next
    case False
    then have len: "length plan \<noteq> length (rg_ordered r)" using full by (simp add: registry_acyclic_def)
    then show thesis
      using None sort open_ False
      by (intro rejected) (simp_all add: registry_resolve_def Let_def ErrCycleDetected_def del: first_error_None, simp)
  qed
qed

section \<open>Properties\<close>

text \<open>
  C35: on a reachable registry that is still open, \<open>Resolve\<close> succeeds exactly when every
  declared dependency is a registered probe and the declarations are acyclic. The plan is then
  the one order that lists every probe once, after its dependencies, and among the probes that
  could come next always takes the one registered first. A failure with known dependencies is
  reported as a cycle.
\<close>

theorem registry_resolve_spec:
  assumes "registry_reachable r" and "\<not> rg_resolved r"
  shows "(snd (registry_resolve r) = None \<longleftrightarrow> known_dependencies r \<and> registry_acyclic r) \<and>
     (snd (registry_resolve r) = None \<longrightarrow>
        (\<forall>plan. resolved_plan (fst (registry_resolve r)) = Inr plan \<longleftrightarrow>
           mset plan = mset (rg_ordered r) \<and> topo_order (captured r) plan \<and>
           greedy_from (rg_index r) (rg_ordered r) (captured r) {} plan)) \<and>
     (\<forall>err. snd (registry_resolve r) = Some err \<and> known_dependencies r \<longrightarrow> errors_is err ErrCycleDetected)"
proof -
  have inv: "registry_inv r" by (rule reachable_inv [OF assms(1)])
  show ?thesis
    using inv assms(2)
  proof (cases rule: registry_resolve_success)
    case (accepted plan compiled)
    have "other = plan" if "mset other = mset (rg_ordered r)" "topo_order (captured r) other"
      "greedy_from (rg_index r) (rg_ordered r) (captured r) {} other" for other
    proof -
      have ids: "distinct (rg_ordered r)" "inj_on (rg_index r) (set (rg_ordered r))"
        using inv by (auto simp: registry_inv_def inj_on_def in_set_conv_nth)
      have "distinct other" "distinct plan" "set other = set plan" "set other \<subseteq> set (rg_ordered r)"
        using that(1) accepted(4) ids(1) mset_eq_setD by (metis mset_eq_imp_distinct_iff order_refl)+
      then show ?thesis using greedy_unique [of "captured r" other plan "rg_index r" "rg_ordered r"] that accepted ids by simp
    qed
    note unique = this
    have "rg_error r = None" using inv assms(2) by (simp add: registry_inv_def)
    then have read: "resolved_plan (fst (registry_resolve r)) = Inr plan" using accepted(3) by (simp add: resolved_plan_def)
    have iff: "resolved_plan (fst (registry_resolve r)) = Inr other \<longleftrightarrow>
        mset other = mset (rg_ordered r) \<and> topo_order (captured r) other \<and>
        greedy_from (rg_index r) (rg_ordered r) (captured r) {} other" for other
      unfolding read using unique [of other] accepted(4-6) by blast
    have "snd (registry_resolve r) = None" by (simp add: accepted(3))
    with iff accepted(1,2) show ?thesis by simp
  next
    case (rejected err)
    then show ?thesis by auto
  qed
qed

definition example_probes :: probe_registry where
  "example_probes =
     fst (register (Some \<lparr>pd_id = ''info'', pd_dependencies = [''cli'']\<rparr>)
       (fst (register (Some \<lparr>pd_id = ''cli'', pd_dependencies = []\<rparr>) new_probe_registry)))"

lemma example_probes_reachable: "registry_reachable example_probes" "\<not> rg_resolved example_probes"
  unfolding example_probes_def
  by (intro registry_reachable.intros) (simp add: register_def new_probe_registry_def)

lemma example_probes_resolve: "snd (registry_resolve example_probes) = None"
  by code_simp

theorem registry_resolve_spec_witness:
  "registry_reachable example_probes \<and> known_dependencies example_probes \<and> registry_acyclic example_probes"
  using registry_resolve_spec [OF example_probes_reachable] example_probes_reachable example_probes_resolve by blast

text \<open>Calls on a registry, one after the other, with their answers.\<close>

datatype registry_request = CallRegister "probe_decl option" | CallResolve

primrec registry_call :: "registry_request \<Rightarrow> probe_registry \<Rightarrow> probe_registry \<times> go_error option" where
  "registry_call (CallRegister p) r = register p r"
| "registry_call CallResolve r = registry_resolve r"

fun registry_calls :: "registry_request list \<Rightarrow> probe_registry \<Rightarrow> probe_registry \<times> go_error option list" where
  "registry_calls [] r = (r, [])"
| "registry_calls (c # cs) r =
     (let (r1, answer) = registry_call c r; (r2, answers) = registry_calls cs r1 in (r2, answer # answers))"

text \<open>The answers of a sealed registry.\<close>

primrec sealed_answer :: "go_error option \<Rightarrow> registry_request \<Rightarrow> go_error option" where
  "sealed_answer outcome (CallRegister p) = Some
     (case p of None \<Rightarrow> Err ''cannot register nil probe''
      | Some q \<Rightarrow> if pd_id q = '''' then Err ''cannot register probe with empty ID'' else ErrRegistryResolved)"
| "sealed_answer outcome CallResolve = outcome"

lemma sealed_call: "rg_resolved r \<Longrightarrow> registry_call c r = (r, sealed_answer (rg_error r) c)"
  by (cases c) (auto simp: register_def registry_resolve_def split: option.split)

lemma sealed_calls: "rg_resolved r \<Longrightarrow> registry_calls cs r = (r, map (sealed_answer (rg_error r)) cs)"
  by (induction cs) (simp_all add: sealed_call)

lemma registry_outcome:
  assumes "registry_inv r" and "\<not> rg_resolved r" and "registry_resolve r = (sealed, outcome)"
  shows "rg_resolved sealed \<and> rg_error sealed = outcome \<and> (outcome = None \<longrightarrow> rg_compiled sealed \<noteq> None)"
proof -
  have "rg_error r = None" using assms(1,2) by (simp add: registry_inv_def)
  then show ?thesis using assms(2,3) by (auto simp: registry_resolve_def Let_def split: option.splits sum.splits)
qed

text \<open>
  C36: the first \<open>Resolve\<close> seals a registry for good, also when it fails. Whatever calls follow, the registry stays as
  that call left it: every later \<open>Resolve\<close> repeats its outcome, every \<open>Register\<close> is refused with the error of its
  argument, if that is nil or has no identifier, and as a sealed registry otherwise. If the first \<open>Resolve\<close> failed, the
  plan and the execution are read as that very error; if it succeeded, both are there.
\<close>

theorem registry_sealed:
  assumes "registry_reachable r" and "\<not> rg_resolved r" and "registry_resolve r = (sealed, outcome)"
  shows "registry_calls calls sealed = (sealed, map (sealed_answer outcome) calls) \<and>
    (case outcome of
       Some err \<Rightarrow> resolved_plan sealed = Inl err \<and> execution sealed = Inl err
     | None \<Rightarrow> resolved_plan sealed = Inr (rg_plan sealed) \<and> (\<exists>compiled. execution sealed = Inr (Some compiled)))"
proof -
  note sealed = registry_outcome [OF reachable_inv [OF assms(1)] assms(2,3)]
  then have "registry_calls calls sealed = (sealed, map (sealed_answer outcome) calls)" using sealed_calls [of sealed calls] by simp
  then show ?thesis using sealed by (auto simp: resolved_plan_def execution_def split: option.split)
qed

definition looping_probes :: probe_registry where
  "looping_probes = fst (register (Some \<lparr>pd_id = ''loop'', pd_dependencies = [''loop'']\<rparr>) new_probe_registry)"

theorem registry_sealed_witness:
  "\<exists>err sealed. registry_resolve looping_probes = (sealed, Some err) \<and> execution sealed = Inl err \<and>
     registry_calls [CallRegister (Some \<lparr>pd_id = ''late'', pd_dependencies = []\<rparr>), CallResolve] sealed =
       (sealed, [Some ErrRegistryResolved, Some err])"
proof -
  have reachable: "registry_reachable looping_probes" "\<not> rg_resolved looping_probes"
    unfolding looping_probes_def by (intro registry_reachable.intros) (simp add: register_def new_probe_registry_def)
  have "snd (registry_resolve looping_probes) \<noteq> None" by code_simp
  then obtain sealed err where run: "registry_resolve looping_probes = (sealed, Some err)" by (metis not_None_eq prod.collapse)
  from registry_sealed [OF reachable run, of "[CallRegister (Some \<lparr>pd_id = ''late'', pd_dependencies = []\<rparr>), CallResolve]"] run
  show ?thesis by simp
qed

text \<open>the compiled plan of a successful \<open>Resolve\<close> mirrors the declarations: node \<open>j\<close> is the
  probe registered as number \<open>j\<close>, with its declared dependencies as indices in declared order,
  the downstream lists are exactly the reversed dependencies with their multiplicities, and the
  dependencies can be ranked, so the plan has no cycle.
\<close>

lemma compiled_plan_mirrors:
  assumes "registry_reachable r" and "\<not> rg_resolved r" and "snd (registry_resolve r) = None"
  shows "\<exists>plan. execution (fst (registry_resolve r)) = Inr (Some plan) \<and> plan_ok plan \<and>
     length (pl_nodes plan) = length (rg_ordered r) \<and>
     (\<forall>j<length (rg_ordered r).
        pn_id (pl_nodes plan ! j) = rg_ordered r ! j \<and>
        pn_probe (pl_nodes plan ! j) = rg_probes r (rg_ordered r ! j) \<and>
        map (\<lambda>d. rg_ordered r ! d) (pn_dependencies (pl_nodes plan ! j)) = captured r (rg_ordered r ! j))"
proof -
  have inv: "registry_inv r" by (rule reachable_inv [OF assms(1)])
  show ?thesis
    using inv assms(2)
  proof (cases rule: registry_resolve_success)
    case (accepted plan compiled)
    have ids: "distinct (rg_ordered r)" and index: "\<And>j. j < length (rg_ordered r) \<Longrightarrow> rg_index r (rg_ordered r ! j) = j"
      using inv by (simp_all add: registry_inv_def)
    have closed: "\<And>i d. i \<in> set (rg_ordered r) \<Longrightarrow> d \<in> set (captured r i) \<Longrightarrow> d \<in> set (rg_ordered r)"
      using accepted(1) by (auto simp: known_dependencies_def)
    have at: "rg_index r d < length (rg_ordered r) \<and> rg_ordered r ! rg_index r d = d" if "d \<in> set (rg_ordered r)" for d
      using that index by (auto simp: in_set_conv_nth)
    have "\<forall>x\<in>set (rg_ordered r). \<forall>d\<in>set (captured r x). rg_index r d < length (rg_ordered r)"
      using closed at by blast
    note C = compile_plan_links [OF ids this, where probes = "rg_probes r", folded accepted(7)]
    have "map (\<lambda>d. rg_ordered r ! d) (pn_dependencies (pl_nodes compiled ! j)) = captured r (rg_ordered r ! j)"
      if "j < length (rg_ordered r)" for j
      unfolding C(5) [OF that] map_map
      by (rule map_idI) (use closed [of "rg_ordered r ! j"] at that in auto)
    moreover have "rg_error r = None" using inv assms(2) by (simp add: registry_inv_def)
    ultimately show ?thesis using accepted(3,8) C(2,3,4) by (simp add: execution_def)
  next
    case (rejected err)
    with assms(3) show ?thesis by simp
  qed
qed

lemma compiled_plan_mirrors_witness:
  "\<exists>plan. execution (fst (registry_resolve example_probes)) = Inr (Some plan) \<and> plan_ok plan"
  using compiled_plan_mirrors [OF example_probes_reachable example_probes_resolve] by blast

end
