(* ===== verification/Orchestrator.thy ===== *)
theory Orchestrator
  imports Probe_Registry Model_Observation
begin

text \<open>
  The probe scheduler of \<open>internal/probe/orchestrator.go\<close> and \<open>retainObservation\<close> of
  \<open>internal/probe/observation.go\<close>. The critical sections of the code are functions on the
  scheduler's state; the goroutines are a step relation in which every worker, the main goroutine
  and the cancellation of the context take atomic steps in any order: one step for each access to
  shared state (a queue operation, a section under \<open>stateMu\<close>, an atomic increment, a read of
  \<open>ctx.Err()\<close>). What a probe's \<open>Run\<close> returns is a parameter of the relation.
\<close>

section \<open>Results\<close>

datatype probe_status = ProbeSucceeded | ProbeFailed | ProbeSkipped | ProbeCancelled | OtherProbeStatus "8 word"

fun probe_status_string :: "probe_status \<Rightarrow> string" where
  "probe_status_string ProbeSucceeded = ''succeeded''"
| "probe_status_string ProbeFailed = ''failed''"
| "probe_status_string ProbeSkipped = ''skipped''"
| "probe_status_string ProbeCancelled = ''cancelled''"
| "probe_status_string (OtherProbeStatus n) = ''unknown''"

text \<open>\<open>None\<close> is the zero \<open>Observation\<close> of a result without a run.\<close>

record probe_result =
  rt_probe_id :: string
  rt_status :: probe_status
  rt_observation :: "observation option"
  rt_err :: "go_error option"
  rt_duration :: int

definition ErrDependencyFailed :: go_error where
  "ErrDependencyFailed = Err ''probe dependency failed or skipped''"

definition ErrObservationScope :: go_error where
  "ErrObservationScope = Err ''probe returned a different evaluation scope''"

definition skipped_result :: "string \<Rightarrow> probe_result" where
  "skipped_result i = \<lparr>rt_probe_id = i, rt_status = ProbeSkipped, rt_observation = None,
     rt_err = Some ErrDependencyFailed, rt_duration = 0\<rparr>"

definition cancelled_result :: "string \<Rightarrow> go_error \<Rightarrow> probe_result" where
  "cancelled_result i err = \<lparr>rt_probe_id = i, rt_status = ProbeCancelled, rt_observation = None,
     rt_err = Some err, rt_duration = 0\<rparr>"

text \<open>The scope of an observation and of its facts: the zero scope is filled in.\<close>

definition retain_observation :: "observation \<Rightarrow> scope \<Rightarrow> observation \<times> go_error option" where
  "retain_observation obs s =
     (let fill = (\<lambda>t. if t = empty_scope then s else t);
          facts = map (\<lambda>f. f\<lparr>f_scope := fill (f_scope f)\<rparr>) (ob_facts obs);
          obs' = obs\<lparr>ob_scope := fill (ob_scope obs), ob_facts := facts\<rparr>
      in (obs', if ob_scope obs' \<noteq> s \<or> (\<exists>f\<in>set facts. f_scope f \<noteq> s) then Some ErrObservationScope else None))"

text \<open>What \<open>processProbe\<close> makes of the outcome of \<open>Run\<close>, given \<open>ctx.Err()\<close>.\<close>

definition classify :: "string \<Rightarrow> scope \<Rightarrow> go_error option \<Rightarrow> observation \<Rightarrow> go_error option \<Rightarrow> int \<Rightarrow> probe_result" where
  "classify i s ctx obs run_err dur =
     (let (obs', scope_err) = retain_observation obs s;
          err = (if scope_err \<noteq> None then errors_join [run_err, scope_err] else run_err)
      in \<lparr>rt_probe_id = i,
          rt_status = (case err of None \<Rightarrow> ProbeSucceeded
             | Some e \<Rightarrow> (case ctx of Some c \<Rightarrow> if e = c \<or> errors_is e c then ProbeCancelled else ProbeFailed
                                  | None \<Rightarrow> ProbeFailed)),
          rt_observation = Some obs',
          rt_err = (case err of None \<Rightarrow> None
             | Some e \<Rightarrow> (case ctx of Some c \<Rightarrow> if e = c \<or> errors_is e c then Some c else Some e | None \<Rightarrow> Some e)),
          rt_duration = dur\<rparr>)"

section \<open>Construction\<close>

record orchestrator =
  or_plan :: "execution_plan option"
  or_max_concurrency :: int

definition defaultConcurrencyCap :: int where
  "defaultConcurrencyCap = 8"

definition default_concurrency :: "int \<Rightarrow> int" where
  "default_concurrency cpus = max 1 (min cpus defaultConcurrencyCap)"

definition with_max_concurrency :: "int \<Rightarrow> orchestrator \<Rightarrow> go_error + orchestrator" where
  "with_max_concurrency n orch =
     (if n < 1 then Inl (Errf ''maxConcurrency must be >= 1'' []) else Inr (orch\<lparr>or_max_concurrency := n\<rparr>))"

text \<open>
  The options of \<open>NewOrchestrator\<close> are the arguments of \<open>WithMaxConcurrency\<close>, the only option
  of the package. The registry is returned because \<open>Resolve\<close> seals it.
\<close>

definition new_orchestrator :: "int \<Rightarrow> probe_registry option \<Rightarrow> int list \<Rightarrow>
    probe_registry option \<times> (go_error + orchestrator)" where
  "new_orchestrator cpus registry options =
     (case registry of
        None \<Rightarrow> (None, Inl (Err ''registry cannot be nil''))
      | Some r \<Rightarrow>
          (case fold_res with_max_concurrency options
                 \<lparr>or_plan = None, or_max_concurrency = default_concurrency cpus\<rparr> of
             Inl err \<Rightarrow> (Some r, Inl err)
           | Inr orch \<Rightarrow>
               (case registry_resolve r of
                  (r', Some err) \<Rightarrow> (Some r', Inl err)
                | (r', None) \<Rightarrow>
                    (case execution r' of
                       Inl err \<Rightarrow> (Some r', Inl err)
                     | Inr plan \<Rightarrow> (Some r', Inr (orch\<lparr>or_plan := plan\<rparr>))))))"

section \<open>The critical sections\<close>

record probe_state =
  ps_remaining :: int
  ps_finalized :: bool
  ps_result :: probe_result

text \<open>
  \<open>cascadeSkipLocked\<close>; the stack is held with its top first. \<open>None\<close> is an index out of range,
  a panic in Go, which \<open>plan_ok\<close> excludes.
\<close>

definition unfinalized :: "probe_state list \<Rightarrow> nat" where
  "unfinalized states = length (filter (\<lambda>s. \<not> ps_finalized s) states)"

lemma unfinalized_update:
  assumes "i < length states" and "\<not> ps_finalized (states ! i)" and "ps_finalized s"
  shows "unfinalized states = Suc (unfinalized (states[i := s]))"
proof -
  have "unfinalized states = unfinalized (take i states @ states ! i # drop (Suc i) states)"
    by (rule arg_cong [OF id_take_nth_drop [OF assms(1)]])
  moreover have "states[i := s] = take i states @ s # drop (Suc i) states" using assms(1) by (rule upd_conv_take_nth_drop)
  ultimately show ?thesis using assms(2,3) by (simp add: unfinalized_def)
qed

definition skip_state :: "plan_node list \<Rightarrow> probe_state list \<Rightarrow> nat \<Rightarrow> probe_state list" where
  "skip_state nodes states i =
     states[i := (states ! i)\<lparr>ps_finalized := True, ps_result := skipped_result (pn_id (nodes ! i))\<rparr>]"

lemma skip_state_less:
  "i < length states \<Longrightarrow> \<not> ps_finalized (states ! i) \<Longrightarrow> unfinalized (skip_state nodes states i) < unfinalized states"
  using unfinalized_update [of i states "skip_state nodes states i ! i"] by (simp add: skip_state_def)

function cascade_skip :: "plan_node list \<Rightarrow> probe_state list \<Rightarrow> nat list \<Rightarrow> nat \<Rightarrow> (probe_state list \<times> nat) option" where
  "cascade_skip nodes states [] cnt = Some (states, cnt)"
| "cascade_skip nodes states (i # stack) cnt =
     (if i \<ge> length states then None
      else if ps_finalized (states ! i) then cascade_skip nodes states stack cnt
      else let states' = skip_state nodes states i
           in cascade_skip nodes states'
                (rev (filter (\<lambda>d. d \<ge> length states' \<or> \<not> ps_finalized (states' ! d)) (pn_downstream (nodes ! i))) @ stack)
                (cnt + 1))"
  by pat_completeness auto
termination
  by (relation "measures [\<lambda>(nodes, states, stack, cnt). unfinalized states, \<lambda>(nodes, states, stack, cnt). length stack]")
    (auto simp: skip_state_less not_le)

text \<open>The loop over the dependents of a probe that succeeded.\<close>

fun release :: "nat list \<Rightarrow> probe_state list \<Rightarrow> nat list \<Rightarrow> (probe_state list \<times> nat list) option" where
  "release [] states runnable = Some (states, runnable)"
| "release (d # ds) states runnable =
     (if d \<ge> length states then None
      else let remaining = ps_remaining (states ! d) - 1
           in release ds (states[d := (states ! d)\<lparr>ps_remaining := remaining\<rparr>])
                (if remaining = 0 then runnable @ [d] else runnable))"

text \<open>
  The section of \<open>recordFinal\<close> under the lock, for a probe that is not finalized yet: the new
  states, the number of probes skipped with it, and the probes that became runnable.
\<close>

definition record_final :: "plan_node list \<Rightarrow> probe_state list \<Rightarrow> nat \<Rightarrow> probe_result \<Rightarrow>
    (probe_state list \<times> nat \<times> nat list) option" where
  "record_final nodes states i result =
     (let states' = states[i := (states ! i)\<lparr>ps_finalized := True, ps_result := result\<rparr>]
      in if rt_status result = ProbeSucceeded
         then map_option (\<lambda>(states'', runnable). (states'', 0, runnable)) (release (pn_downstream (nodes ! i)) states' [])
         else map_option (\<lambda>(states'', cnt). (states'', cnt, []))
                (cascade_skip nodes states' (rev (pn_downstream (nodes ! i))) 0))"

section \<open>Goroutines\<close>

text \<open>Where a worker is; it carries the local variables that the rest of its code uses.\<close>

datatype worker =
    Idle
  | Popped nat
  | Checked nat
  | Running nat
  | Recording nat probe_result
  | Counting nat "nat list"
  | Exited

datatype main_pc = Waiting | Joining | Returned "probe_result list"

record sched =
  sc_states :: "probe_state list"
  sc_queue :: "string list"
  sc_closed :: bool
  sc_finalized :: nat
  sc_all_done :: bool
  sc_ctx :: "go_error option"
  sc_workers :: "worker list"
  sc_main :: main_pc

definition set_worker :: "sched \<Rightarrow> nat \<Rightarrow> worker \<Rightarrow> sched" where
  "set_worker s w x = s\<lparr>sc_workers := (sc_workers s)[w := x]\<rparr>"

definition at_worker :: "sched \<Rightarrow> nat \<Rightarrow> worker \<Rightarrow> bool" where
  "at_worker s w x \<longleftrightarrow> w < length (sc_workers s) \<and> sc_workers s ! w = x"

text \<open>\<open>push\<close>, \<open>pop\<close> and \<open>close\<close> of \<open>runQueue\<close>; \<open>pop\<close> blocks where it is not enabled.\<close>

definition queue_push :: "string \<Rightarrow> sched \<Rightarrow> sched" where
  "queue_push i s = (if sc_closed s then s else s\<lparr>sc_queue := sc_queue s @ [i]\<rparr>)"

definition queue_close :: "sched \<Rightarrow> sched" where
  "queue_close s = s\<lparr>sc_closed := True\<rparr>"

text \<open>\<open>signalCompletion\<close>.\<close>

definition signal_completion :: "nat \<Rightarrow> sched \<Rightarrow> sched" where
  "signal_completion n s =
     s\<lparr>sc_finalized := sc_finalized s + 1, sc_all_done := sc_all_done s \<or> sc_finalized s + 1 = n\<rparr>"

text \<open>The result slice of \<open>Run\<close>, in registration order, with its defensive fallback.\<close>

definition collect :: "execution_plan \<Rightarrow> probe_state list \<Rightarrow> probe_result list" where
  "collect plan states =
     map (\<lambda>i. if ps_finalized (states ! i) then ps_result (states ! i) else skipped_result (pn_id (pl_nodes plan ! i)))
       [0..<length (pl_nodes plan)]"

text \<open>The state when the workers have been started; an empty plan returns at once.\<close>

definition zero_result :: probe_result where
  "zero_result = \<lparr>rt_probe_id = '''', rt_status = ProbeSucceeded, rt_observation = None, rt_err = None, rt_duration = 0\<rparr>"

definition initial_sched :: "execution_plan \<Rightarrow> int \<Rightarrow> sched" where
  "initial_sched plan max_concurrency =
     \<lparr>sc_states = map (\<lambda>node. \<lparr>ps_remaining = int (length (pn_dependencies node)), ps_finalized = False,
        ps_result = zero_result\<rparr>) (pl_nodes plan),
      sc_queue = map pn_id (filter (\<lambda>node. pn_dependencies node = []) (pl_nodes plan)),
      sc_closed = False, sc_finalized = 0, sc_all_done = False, sc_ctx = None,
      sc_workers = replicate (nat (min max_concurrency (int (length (pl_nodes plan))))) Idle,
      sc_main = (if pl_nodes plan = [] then Returned [] else Waiting)\<rparr>"

type_synonym behaviour = "nat \<Rightarrow> observation \<times> go_error option \<Rightarrow> bool"

text \<open>A step, labelled with the probe whose \<open>Run\<close> it starts, if any.\<close>

inductive step :: "behaviour \<Rightarrow> scope \<Rightarrow> execution_plan \<Rightarrow> sched \<Rightarrow> nat option \<Rightarrow> sched \<Rightarrow> bool"
  for behaves :: behaviour and scope :: scope and plan :: execution_plan
where
  pop: "at_worker s w Idle \<Longrightarrow> sc_queue s = x # q \<Longrightarrow>
     step behaves scope plan s None (set_worker (s\<lparr>sc_queue := q\<rparr>) w (Popped (pl_indices plan x)))"
| exit: "at_worker s w Idle \<Longrightarrow> sc_queue s = [] \<Longrightarrow> sc_closed s \<Longrightarrow>
     step behaves scope plan s None (set_worker s w Exited)"
| fast_path: "at_worker s w (Popped i) \<Longrightarrow> i < length (sc_states s) \<Longrightarrow> ps_finalized (sc_states s ! i) \<Longrightarrow>
     step behaves scope plan s None (set_worker s w Idle)"
| check: "at_worker s w (Popped i) \<Longrightarrow> i < length (sc_states s) \<Longrightarrow> \<not> ps_finalized (sc_states s ! i) \<Longrightarrow>
     step behaves scope plan s None (set_worker s w (Checked i))"
| cancelled: "at_worker s w (Checked i) \<Longrightarrow> sc_ctx s = Some err \<Longrightarrow>
     step behaves scope plan s None (set_worker s w (Recording i (cancelled_result (pn_id (pl_nodes plan ! i)) err)))"
| start: "at_worker s w (Checked i) \<Longrightarrow> sc_ctx s = None \<Longrightarrow>
     step behaves scope plan s (Some i) (set_worker s w (Running i))"
| finish: "at_worker s w (Running i) \<Longrightarrow> behaves i (obs, err) \<Longrightarrow>
     step behaves scope plan s None
       (set_worker s w (Recording i (classify (pn_id (pl_nodes plan ! i)) scope (sc_ctx s) obs err dur)))"
| already_final: "at_worker s w (Recording i r) \<Longrightarrow> i < length (sc_states s) \<Longrightarrow> ps_finalized (sc_states s ! i) \<Longrightarrow>
     step behaves scope plan s None (set_worker s w Idle)"
| finalize: "at_worker s w (Recording i r) \<Longrightarrow> i < length (sc_states s) \<Longrightarrow> \<not> ps_finalized (sc_states s ! i) \<Longrightarrow>
     record_final (pl_nodes plan) (sc_states s) i r = Some (states, cnt, runnable) \<Longrightarrow>
     step behaves scope plan s None (set_worker (s\<lparr>sc_states := states\<rparr>) w (Counting cnt runnable))"
| count: "at_worker s w (Counting (Suc k) runnable) \<Longrightarrow>
     step behaves scope plan s None (set_worker (s\<lparr>sc_finalized := sc_finalized s + 1\<rparr>) w (Counting k runnable))"
| push: "at_worker s w (Counting 0 (d # ds)) \<Longrightarrow>
     step behaves scope plan s None (set_worker (queue_push (pn_id (pl_nodes plan ! d)) s) w (Counting 0 ds))"
| signal: "at_worker s w (Counting 0 []) \<Longrightarrow>
     step behaves scope plan s None (set_worker (signal_completion (length (pl_nodes plan)) s) w Idle)"
| cancel: "sc_ctx s = None \<Longrightarrow> step behaves scope plan s None (s\<lparr>sc_ctx := Some err\<rparr>)"
| close: "sc_main s = Waiting \<Longrightarrow> sc_all_done s \<Longrightarrow>
     step behaves scope plan s None ((queue_close s)\<lparr>sc_main := Joining\<rparr>)"
| join: "sc_main s = Joining \<Longrightarrow> (\<forall>x\<in>set (sc_workers s). x = Exited) \<Longrightarrow>
     step behaves scope plan s None (s\<lparr>sc_main := Returned (collect plan (sc_states s))\<rparr>)"

text \<open>The states an execution reaches, with the probes it has started, in order.\<close>

inductive run :: "behaviour \<Rightarrow> scope \<Rightarrow> execution_plan \<Rightarrow> int \<Rightarrow> nat list \<Rightarrow> sched \<Rightarrow> bool"
  for behaves :: behaviour and scope :: scope and plan :: execution_plan and max_concurrency :: int
where
  begin_run: "run behaves scope plan max_concurrency [] (initial_sched plan max_concurrency)"
| silent: "run behaves scope plan max_concurrency started s \<Longrightarrow> step behaves scope plan s None t \<Longrightarrow>
     run behaves scope plan max_concurrency started t"
| starting: "run behaves scope plan max_concurrency started s \<Longrightarrow> step behaves scope plan s (Some i) t \<Longrightarrow>
     run behaves scope plan max_concurrency (started @ [i]) t"

section \<open>The critical sections keep the plan's bookkeeping\<close>

definition succeeded :: "probe_state list \<Rightarrow> nat \<Rightarrow> bool" where
  "succeeded states i \<longleftrightarrow> ps_finalized (states ! i) \<and> rt_status (ps_result (states ! i)) = ProbeSucceeded"

definition broken :: "probe_state list \<Rightarrow> nat \<Rightarrow> bool" where
  "broken states i \<longleftrightarrow> ps_finalized (states ! i) \<and> rt_status (ps_result (states ! i)) \<noteq> ProbeSucceeded"

definition ready :: "probe_state list \<Rightarrow> nat \<Rightarrow> bool" where
  "ready states i \<longleftrightarrow> i < length states \<and> \<not> ps_finalized (states ! i) \<and> ps_remaining (states ! i) = 0"

lemma release_spec:
  "set ds \<subseteq> {..<length states} \<Longrightarrow>
   \<exists>states' new. release ds states runnable = Some (states', runnable @ new) \<and> length states' = length states \<and>
     (\<forall>j<length states. ps_finalized (states' ! j) = ps_finalized (states ! j) \<and>
        ps_result (states' ! j) = ps_result (states ! j) \<and>
        ps_remaining (states' ! j) = ps_remaining (states ! j) - int (count_list ds j)) \<and>
     (\<forall>j. count (mset new) j = (if j < length states \<and> 1 \<le> ps_remaining (states ! j) \<and>
        ps_remaining (states ! j) \<le> int (count_list ds j) then 1 else 0))"
proof (induction ds arbitrary: states runnable)
  case Nil
  then show ?case by (intro exI [of _ states] exI [of _ "[]"]) auto
next
  case (Cons d ds)
  let ?rem = "ps_remaining (states ! d) - 1"
  let ?states = "states[d := (states ! d)\<lparr>ps_remaining := ?rem\<rparr>]"
  let ?first = "if ?rem = 0 then [d] else []"
  have d: "d < length states" "set ds \<subseteq> {..<length ?states}" using Cons.prems by auto
  obtain states' new where IH: "release ds ?states (runnable @ ?first) = Some (states', (runnable @ ?first) @ new)"
    "length states' = length ?states"
    "\<And>j. j < length ?states \<Longrightarrow> ps_finalized (states' ! j) = ps_finalized (?states ! j) \<and>
        ps_result (states' ! j) = ps_result (?states ! j) \<and>
        ps_remaining (states' ! j) = ps_remaining (?states ! j) - int (count_list ds j)"
    "\<And>j. count (mset new) j = (if j < length ?states \<and> 1 \<le> ps_remaining (?states ! j) \<and>
        ps_remaining (?states ! j) \<le> int (count_list ds j) then 1 else 0)"
    using Cons.IH [OF d(2), of "runnable @ ?first"] by blast
  show ?case
  proof (intro exI conjI allI impI)
    show "release (d # ds) states runnable = Some (states', runnable @ ?first @ new)"
      using IH(1) d(1) by (simp add: Let_def split: if_splits)
    show "length states' = length states" using IH(2) by simp
    fix j
    show "ps_finalized (states' ! j) = ps_finalized (states ! j)" "ps_result (states' ! j) = ps_result (states ! j)"
      "ps_remaining (states' ! j) = ps_remaining (states ! j) - int (count_list (d # ds) j)" if "j < length states"
      using IH(3) [of j] that d(1) by (cases "j = d"; simp)+
    show "count (mset (?first @ new)) j = (if j < length states \<and> 1 \<le> ps_remaining (states ! j) \<and>
        ps_remaining (states ! j) \<le> int (count_list (d # ds) j) then 1 else 0)"
      using IH(4) [of j] d(1) by (cases "j = d") auto
  qed
qed

lemma skip_state_nth:
  "i < length states \<Longrightarrow> j < length states \<Longrightarrow> skip_state nodes states i ! j =
     (if j = i then (states ! i)\<lparr>ps_finalized := True, ps_result := skipped_result (pn_id (nodes ! i))\<rparr> else states ! j)"
  by (simp add: skip_state_def)

lemma length_skip_state [simp]: "length (skip_state nodes states i) = length states"
  by (simp add: skip_state_def)

text \<open>
  What a cascade does: it finalizes as skipped the stack and everything downstream that is not
  finalized yet, and nothing else; it leaves the rest alone and counts what it finalizes.
\<close>

definition cascade_rel :: "plan_node list \<Rightarrow> probe_state list \<Rightarrow> nat list \<Rightarrow> probe_state list \<Rightarrow> bool" where
  "cascade_rel nodes states stack states' \<longleftrightarrow>
     length states' = length states \<and>
     (\<forall>j<length states. ps_remaining (states' ! j) = ps_remaining (states ! j)) \<and>
     (\<forall>j<length states. ps_finalized (states ! j) \<longrightarrow> states' ! j = states ! j) \<and>
     (\<forall>j<length states. \<not> ps_finalized (states ! j) \<and> ps_finalized (states' ! j) \<longrightarrow>
        ps_result (states' ! j) = skipped_result (pn_id (nodes ! j)) \<and>
        (\<forall>d\<in>set (pn_downstream (nodes ! j)). ps_finalized (states' ! d)) \<and>
        (j \<in> set stack \<or> (\<exists>c<length states. \<not> ps_finalized (states ! c) \<and> ps_finalized (states' ! c) \<and>
           j \<in> set (pn_downstream (nodes ! c))))) \<and>
     (\<forall>j\<in>set stack. ps_finalized (states' ! j))"

lemma cascade_skip_spec:
  "set stack \<subseteq> {..<length states} \<Longrightarrow>
   \<forall>i<length states. set (pn_downstream (nodes ! i)) \<subseteq> {..<length states} \<Longrightarrow>
   \<exists>states' k. cascade_skip nodes states stack cnt = Some (states', cnt + k) \<and>
     unfinalized states = unfinalized states' + k \<and> cascade_rel nodes states stack states'"
proof (induction nodes states stack cnt rule: cascade_skip.induct)
  case (1 nodes states cnt)
  then show ?case by (auto simp: cascade_rel_def)
next
  case (2 nodes states i stack cnt)
  have i: "i < length states" using 2(3) by simp
  show ?case
  proof (cases "ps_finalized (states ! i)")
    case True
    with 2(1) 2(3,4) i obtain states' k where IH: "cascade_skip nodes states stack cnt = Some (states', cnt + k)"
      "unfinalized states = unfinalized states' + k" "cascade_rel nodes states stack states'" by auto
    have "ps_finalized (states' ! i)" using IH(3) True i by (simp add: cascade_rel_def)
    then have "cascade_rel nodes states (i # stack) states'"
      using IH(3) unfolding cascade_rel_def list.set by blast
    with IH True i show ?thesis by auto
  next
    case False
    let ?s = "skip_state nodes states i"
    let ?new = "rev (filter (\<lambda>d. d \<ge> length ?s \<or> \<not> ps_finalized (?s ! d)) (pn_downstream (nodes ! i)))"
    have "set (?new @ stack) \<subseteq> {..<length ?s}" using 2(3,4) i by auto
    then obtain states' k where IH: "cascade_skip nodes ?s (?new @ stack) (cnt + 1) = Some (states', cnt + 1 + k)"
      "unfinalized ?s = unfinalized states' + k" "cascade_rel nodes ?s (?new @ stack) states'"
      using 2(2) [OF _ False refl] 2(4) i by auto
    have run: "cascade_skip nodes states (i # stack) cnt = Some (states', cnt + Suc k)"
      using IH(1) False i by (simp add: Let_def)
    have "unfinalized states = Suc (unfinalized ?s)"
      using unfinalized_update [OF i False, of "?s ! i"] i by (simp add: skip_state_def)
    then have cnt: "unfinalized states = unfinalized states' + Suc k" using IH(2) by simp
    note nth = skip_state_nth [OF i, where nodes = nodes]
    have C: "length states' = length states"
      "\<And>j. j < length states \<Longrightarrow> ps_remaining (states' ! j) = ps_remaining (?s ! j)"
      "\<And>j. j < length states \<Longrightarrow> ps_finalized (?s ! j) \<Longrightarrow> states' ! j = ?s ! j"
      "\<And>j. j < length states \<Longrightarrow> \<not> ps_finalized (?s ! j) \<Longrightarrow> ps_finalized (states' ! j) \<Longrightarrow>
        ps_result (states' ! j) = skipped_result (pn_id (nodes ! j)) \<and>
        (\<forall>d\<in>set (pn_downstream (nodes ! j)). ps_finalized (states' ! d)) \<and>
        (j \<in> set (?new @ stack) \<or> (\<exists>c<length states. \<not> ps_finalized (?s ! c) \<and> ps_finalized (states' ! c) \<and>
           j \<in> set (pn_downstream (nodes ! c))))"
      "\<And>j. j \<in> set (?new @ stack) \<Longrightarrow> ps_finalized (states' ! j)"
      using IH(3) unfolding cascade_rel_def length_skip_state by blast+
    have self: "states' ! i = ?s ! i" "ps_finalized (?s ! i)" using C(3) [OF i] nth [OF i] by simp_all
    have down: "ps_finalized (states' ! d)" if "d \<in> set (pn_downstream (nodes ! i))" for d
    proof (cases "ps_finalized (?s ! d)")
      case True
      have "d < length states" using that 2(4) i by auto
      with True C(3) show ?thesis by simp
    next
      case False
      with that have "d \<in> set ?new" by simp
      then show ?thesis using C(5) by simp
    qed
    have "cascade_rel nodes states (i # stack) states'"
      unfolding cascade_rel_def
    proof (intro conjI allI impI ballI)
      show "length states' = length states" by (rule C(1))
      fix j
      show "ps_remaining (states' ! j) = ps_remaining (states ! j)" if "j < length states"
        using C(2) [OF that] nth [OF that] by (cases "j = i") simp_all
      show "states' ! j = states ! j" if "j < length states" "ps_finalized (states ! j)"
        using C(3) [OF that(1)] nth [OF that(1)] that(2) False by (cases "j = i") simp_all
      show "ps_finalized (states' ! j)" if "j \<in> set (i # stack)" using that self C(5) by auto
    next
      fix j assume j: "j < length states" and new: "\<not> ps_finalized (states ! j) \<and> ps_finalized (states' ! j)"
      show "ps_result (states' ! j) = skipped_result (pn_id (nodes ! j))"
        using C(4) [OF j] new nth [OF j] self by (cases "j = i") simp_all
      show "j \<in> set (i # stack) \<or> (\<exists>c<length states. \<not> ps_finalized (states ! c) \<and> ps_finalized (states' ! c) \<and>
           j \<in> set (pn_downstream (nodes ! c)))"
      proof (cases "j = i")
        case False
        then have "\<not> ps_finalized (?s ! j)" using new nth [OF j] by simp
        then consider "j \<in> set ?new" | "j \<in> set stack"
          | c where "c < length states" "\<not> ps_finalized (?s ! c)" "ps_finalized (states' ! c)" "j \<in> set (pn_downstream (nodes ! c))"
          using C(4) [OF j] new by auto
        then show ?thesis
        proof cases
          case 1
          then have "j \<in> set (pn_downstream (nodes ! i))" by simp
          with \<open>\<not> ps_finalized (states ! i)\<close> i self show ?thesis by auto
        next
          case (3 c)
          then have "\<not> ps_finalized (states ! c)" using nth [OF 3(1)] self by (cases "c = i") simp_all
          with 3 show ?thesis by blast
        qed simp
      qed simp
      fix d assume d: "d \<in> set (pn_downstream (nodes ! j))"
      show "ps_finalized (states' ! d)"
        using C(4) [OF j] new nth [OF j] down d by (cases "j = i") simp_all
    qed
    with run cnt show ?thesis by blast
  qed
qed

definition state_inv :: "plan_node list \<Rightarrow> probe_state list \<Rightarrow> bool" where
  "state_inv nodes states \<longleftrightarrow>
     length states = length nodes \<and>
     (\<forall>i<length nodes. ps_remaining (states ! i) =
        int (length (filter (\<lambda>d. d \<notin> {d. succeeded states d}) (pn_dependencies (nodes ! i))))) \<and>
     (\<forall>i<length nodes. ps_finalized (states ! i) \<longrightarrow> rt_probe_id (ps_result (states ! i)) = pn_id (nodes ! i) \<and>
        (if rt_status (ps_result (states ! i)) = ProbeSkipped
         then \<exists>d\<in>set (pn_dependencies (nodes ! i)). broken states d
         else \<forall>d\<in>set (pn_dependencies (nodes ! i)). succeeded states d)) \<and>
     (\<forall>i<length nodes. (\<exists>d\<in>set (pn_dependencies (nodes ! i)). broken states d) \<longrightarrow>
        ps_finalized (states ! i) \<and> rt_status (ps_result (states ! i)) = ProbeSkipped)"

lemma state_invD:
  assumes "state_inv nodes states"
  shows "length states = length nodes"
    and "i < length nodes \<Longrightarrow> ps_remaining (states ! i) =
        int (length (filter (\<lambda>d. d \<notin> {d. succeeded states d}) (pn_dependencies (nodes ! i))))"
    and "i < length nodes \<Longrightarrow> ps_finalized (states ! i) \<Longrightarrow> rt_probe_id (ps_result (states ! i)) = pn_id (nodes ! i)"
    and "i < length nodes \<Longrightarrow> ps_finalized (states ! i) \<Longrightarrow> rt_status (ps_result (states ! i)) = ProbeSkipped \<Longrightarrow>
        \<exists>d\<in>set (pn_dependencies (nodes ! i)). broken states d"
    and "i < length nodes \<Longrightarrow> ps_finalized (states ! i) \<Longrightarrow> rt_status (ps_result (states ! i)) \<noteq> ProbeSkipped \<Longrightarrow>
        d \<in> set (pn_dependencies (nodes ! i)) \<Longrightarrow> succeeded states d"
    and "i < length nodes \<Longrightarrow> d \<in> set (pn_dependencies (nodes ! i)) \<Longrightarrow> broken states d \<Longrightarrow>
        ps_finalized (states ! i) \<and> rt_status (ps_result (states ! i)) = ProbeSkipped"
  using assms unfolding state_inv_def by (auto split: if_splits)

text \<open>A ready probe has all its dependencies succeeded.\<close>

lemma ready_succeeded:
  assumes "state_inv nodes states" and "ready states i" and "d \<in> set (pn_dependencies (nodes ! i))"
  shows "succeeded states d"
proof -
  have i: "i < length nodes" using assms(1,2) by (simp add: state_inv_def ready_def)
  have "length (filter (\<lambda>d. d \<notin> {d. succeeded states d}) (pn_dependencies (nodes ! i))) = 0"
    using state_invD(2) [OF assms(1) i] assms(2) by (simp add: ready_def)
  then have "filter (\<lambda>d. d \<notin> {d. succeeded states d}) (pn_dependencies (nodes ! i)) = []" by simp
  with assms(3) show ?thesis by (auto simp: filter_empty_conv)
qed

lemma plan_linksD:
  assumes "plan_links nodes" and "i < length nodes"
  shows "set (pn_dependencies (nodes ! i)) \<subseteq> {..<length nodes}" and "set (pn_downstream (nodes ! i)) \<subseteq> {..<length nodes}"
    and "j < length nodes \<Longrightarrow> count_list (pn_downstream (nodes ! i)) j = count_list (pn_dependencies (nodes ! j)) i"
    and "j < length nodes \<Longrightarrow> j \<in> set (pn_downstream (nodes ! i)) \<longleftrightarrow> i \<in> set (pn_dependencies (nodes ! j))"
proof -
  have cnt: "count_list (pn_downstream (nodes ! i)) j =
      (if j < length nodes then count_list (pn_dependencies (nodes ! j)) i else 0)" for j
    using assms unfolding plan_links_def by blast
  show "set (pn_dependencies (nodes ! i)) \<subseteq> {..<length nodes}" using assms by (simp add: plan_links_def)
  show "set (pn_downstream (nodes ! i)) \<subseteq> {..<length nodes}" 
    by (rule subsetI) (metis cnt count_list_0_iff lessThan_iff)
  show "count_list (pn_downstream (nodes ! i)) j = count_list (pn_dependencies (nodes ! j)) i" if "j < length nodes"
    using cnt that by simp
  then show "j \<in> set (pn_downstream (nodes ! i)) \<longleftrightarrow> i \<in> set (pn_dependencies (nodes ! j))" if "j < length nodes"
    using that by (metis count_list_0_iff)
qed

text \<open>What finalizing a ready probe does to the states.\<close>

definition recorded :: "plan_node list \<Rightarrow> probe_state list \<Rightarrow> nat \<Rightarrow> probe_result \<Rightarrow> probe_state list \<Rightarrow> nat \<Rightarrow> nat list \<Rightarrow> bool" where
  "recorded nodes states i r states' k runnable \<longleftrightarrow>
     state_inv nodes states' \<and> unfinalized states = unfinalized states' + k + 1 \<and>
     (\<forall>j<length nodes. ps_finalized (states ! j) \<longrightarrow>
        ps_finalized (states' ! j) \<and> ps_result (states' ! j) = ps_result (states ! j)) \<and>
     ps_finalized (states' ! i) \<and> ps_result (states' ! i) = r \<and>
     (\<forall>j<length nodes. succeeded states' j \<longrightarrow> succeeded states j \<or> j = i) \<and>
     (\<forall>j<length nodes. ps_finalized (states' ! j) \<longrightarrow> ps_finalized (states ! j) \<or> j = i \<or>
        ps_result (states' ! j) = skipped_result (pn_id (nodes ! j))) \<and>
     (\<forall>j. (if ready states' j then 1 else 0) + (if j = i then 1 else 0) =
        (if ready states j then 1 else 0) + count (mset runnable) j)"

lemma record_success:
  assumes links: "plan_links nodes" and inv: "state_inv nodes states" and rdy: "ready states i"
    and r: "rt_status r = ProbeSucceeded" "rt_probe_id r = pn_id (nodes ! i)"
  shows "\<exists>states' runnable. record_final nodes states i r = Some (states', 0, runnable) \<and>
     recorded nodes states i r states' 0 runnable"
proof -
  let ?s = "states[i := (states ! i)\<lparr>ps_finalized := True, ps_result := r\<rparr>]"
  have n: "length states = length nodes" and i: "i < length nodes" "\<not> ps_finalized (states ! i)"
    using inv rdy by (simp_all add: state_inv_def ready_def)
  note D = plan_linksD [OF links i(1)]
  have "set (pn_downstream (nodes ! i)) \<subseteq> {..<length ?s}" using D(2) n by simp
  then obtain s' new where rel: "release (pn_downstream (nodes ! i)) ?s [] = Some (s', [] @ new)"
    and len: "length s' = length ?s"
    and each: "\<And>j. j < length ?s \<Longrightarrow> ps_finalized (s' ! j) = ps_finalized (?s ! j) \<and> ps_result (s' ! j) = ps_result (?s ! j) \<and>
        ps_remaining (s' ! j) = ps_remaining (?s ! j) - int (count_list (pn_downstream (nodes ! i)) j)"
    and new: "\<And>j. count (mset new) j = (if j < length ?s \<and> 1 \<le> ps_remaining (?s ! j) \<and>
        ps_remaining (?s ! j) \<le> int (count_list (pn_downstream (nodes ! i)) j) then 1 else 0)"
    using release_spec [of "pn_downstream (nodes ! i)" ?s "[]"] by blast
  have run: "record_final nodes states i r = Some (s', 0, new)" using rel r(1) by (simp add: record_final_def Let_def)
  have fin: "ps_finalized (s' ! j) \<longleftrightarrow> ps_finalized (states ! j) \<or> j = i" if "j < length nodes" for j
    using each [of j] that n i by (cases "j = i") simp_all
  have res: "ps_result (s' ! j) = (if j = i then r else ps_result (states ! j))" if "j < length nodes" for j
    using each [of j] that n i by (cases "j = i") simp_all
  have rem: "ps_remaining (s' ! j) = ps_remaining (states ! j) - int (count_list (pn_dependencies (nodes ! j)) i)"
    if "j < length nodes" for j
    using each [of j] that n i D(3) [OF that] by (cases "j = i") simp_all
  have suc: "succeeded s' j \<longleftrightarrow> succeeded states j \<or> j = i" if "j < length nodes" for j
    using fin [OF that] res [OF that] r(1) i(2) by (cases "j = i") (auto simp: succeeded_def)
  have brk: "broken s' j \<longleftrightarrow> broken states j" if "j < length nodes" for j
    using fin [OF that] res [OF that] r(1) i(2) by (cases "j = i") (auto simp: broken_def)
  have notsuc: "i \<notin> {d. succeeded states d}" using i(2) by (simp add: succeeded_def)
  have deps: "d < length nodes" if "j < length nodes" "d \<in> set (pn_dependencies (nodes ! j))" for j d
    using plan_linksD(1) [OF links that(1)] that(2) by auto
  have left: "ps_remaining (s' ! j) = int (length (filter (\<lambda>d. d \<notin> {d. succeeded s' d}) (pn_dependencies (nodes ! j))))"
    if j: "j < length nodes" for j
  proof -
    have "filter (\<lambda>d. d \<notin> {d. succeeded s' d}) (pn_dependencies (nodes ! j)) =
        filter (\<lambda>d. d \<notin> insert i {d. succeeded states d}) (pn_dependencies (nodes ! j))"
      by (rule filter_cong) (use suc deps [OF j] in auto)
    then show ?thesis
      using length_filter_insert [OF notsuc] rem [OF j] state_invD(2) [OF inv j] by simp
  qed
  have mono: "succeeded s' d" if "succeeded states d" "d < length nodes" for d using that suc by blast
  have "state_inv nodes s'"
    unfolding state_inv_def
  proof (intro conjI allI impI)
    show "length s' = length nodes" using len n by simp
    fix j assume j: "j < length nodes"
    show "ps_remaining (s' ! j) = int (length (filter (\<lambda>d. d \<notin> {d. succeeded s' d}) (pn_dependencies (nodes ! j))))"
      by (rule left [OF j])
    show "rt_probe_id (ps_result (s' ! j)) = pn_id (nodes ! j)" if "ps_finalized (s' ! j)"
      using that fin [OF j] res [OF j] r(2) state_invD(3) [OF inv j] by (cases "j = i") auto
    show "if rt_status (ps_result (s' ! j)) = ProbeSkipped then \<exists>d\<in>set (pn_dependencies (nodes ! j)). broken s' d
         else \<forall>d\<in>set (pn_dependencies (nodes ! j)). succeeded s' d" if "ps_finalized (s' ! j)"
    proof (cases "j = i")
      case True
      have "succeeded s' d" if "d \<in> set (pn_dependencies (nodes ! i))" for d
        using ready_succeeded [OF inv rdy that] deps [OF i(1) that] mono by blast
      then show ?thesis using res [OF j] True r(1) by simp
    next
      case False
      then have fj: "ps_finalized (states ! j)" "ps_result (s' ! j) = ps_result (states ! j)" using that fin [OF j] res [OF j] by simp_all
      show ?thesis
        using state_invD(4,5) [OF inv j fj(1)] brk mono deps [OF j] unfolding fj(2) by (auto split: if_splits)
    qed
    assume "\<exists>d\<in>set (pn_dependencies (nodes ! j)). broken s' d"
    then obtain d where d: "d \<in> set (pn_dependencies (nodes ! j))" "broken states d" using brk deps [OF j] by blast
    note skip = state_invD(6) [OF inv j d]
    then have "j \<noteq> i" using i(2) by auto
    with skip show "ps_finalized (s' ! j)" "rt_status (ps_result (s' ! j)) = ProbeSkipped"
      using fin [OF j] res [OF j] by simp_all
  qed
  moreover have "unfinalized states = unfinalized s' + 0 + 1"
  proof -
    have "map (\<lambda>s. \<not> ps_finalized s) s' = map (\<lambda>s. \<not> ps_finalized s) ?s"
      using each len by (auto simp: list_eq_iff_nth_eq)
    moreover have "unfinalized xs = length (filter (\<lambda>b. b) (map (\<lambda>s. \<not> ps_finalized s) xs))" for xs
      by (simp add: unfinalized_def filter_map comp_def)
    ultimately have "unfinalized s' = unfinalized ?s" by (simp only:)
    then show ?thesis using unfinalized_update [of i states "(states ! i)\<lparr>ps_finalized := True, ps_result := r\<rparr>"] i n by simp
  qed
  moreover have "(if ready s' j then 1 else 0) + (if j = i then 1 else 0) = (if ready states j then 1 else 0) + count (mset new) j" for j
  proof (cases "j < length nodes")
    case True
    have "0 \<le> ps_remaining (s' ! j)" using left [OF True] by simp
    have open': "\<not> ps_finalized (states ! j)" if "j \<noteq> i" "1 \<le> ps_remaining (states ! j)" "ps_remaining (s' ! j) = 0"
    proof
      assume fj: "ps_finalized (states ! j)"
      have cnt: "count_list (pn_dependencies (nodes ! j)) i \<noteq> 0" using rem [OF True] that by auto
      then have ij: "i \<in> set (pn_dependencies (nodes ! j))" by (metis count_list_0_iff)
      have "filter (\<lambda>d. d \<notin> {d. succeeded s' d}) (pn_dependencies (nodes ! j)) = []" using left [OF True] that(3) by simp
      then have all: "\<forall>d\<in>set (pn_dependencies (nodes ! j)). succeeded s' d" by (auto simp: filter_empty_conv)
      show False
      proof (cases "rt_status (ps_result (states ! j)) = ProbeSkipped")
        case True
        then obtain d where "d \<in> set (pn_dependencies (nodes ! j))" "broken states d"
          using state_invD(4) [OF inv \<open>j < length nodes\<close> fj] by blast
        then have "broken s' d" "succeeded s' d" using brk deps [OF \<open>j < length nodes\<close>] all by auto
        then show False by (simp add: broken_def succeeded_def)
      next
        case False
        then have "succeeded states i" using state_invD(5) [OF inv \<open>j < length nodes\<close> fj False ij] by simp
        then show False using notsuc by simp
      qed
    qed
    have ri: "ps_remaining (states ! i) = 0" using rdy by (simp add: ready_def)
    have rs: "ps_remaining (?s ! j) = ps_remaining (states ! j)" using True n i by (cases "j = i") simp_all
    have nj: "count (mset new) j = (if 1 \<le> ps_remaining (states ! j) \<and> ps_remaining (s' ! j) = 0 then 1 else 0)"
      using new [of j] rem [OF True] D(3) [OF True] True n rs \<open>0 \<le> ps_remaining (s' ! j)\<close> by auto
    have "ps_remaining (s' ! j) \<le> ps_remaining (states ! j)" using rem [OF True] by simp
    with \<open>0 \<le> ps_remaining (s' ! j)\<close> show ?thesis
      using nj fin [OF True] open' rdy ri True n len i(2) by (cases "j = i") (auto simp: ready_def)
  next
    case False
    then show ?thesis using new [of j] n len i by (auto simp: ready_def)
  qed
  ultimately have "recorded nodes states i r s' 0 new"
    unfolding recorded_def using fin res i by (auto simp: succeeded_def)
  with run show ?thesis by blast
qed

lemma record_failure:
  assumes links: "plan_links nodes" and inv: "state_inv nodes states" and rdy: "ready states i"
    and r: "rt_status r \<noteq> ProbeSucceeded" "rt_status r \<noteq> ProbeSkipped" "rt_probe_id r = pn_id (nodes ! i)"
  shows "\<exists>states' k. record_final nodes states i r = Some (states', k, []) \<and> recorded nodes states i r states' k []"
proof -
  let ?s = "states[i := (states ! i)\<lparr>ps_finalized := True, ps_result := r\<rparr>]"
  have n: "length states = length nodes" and i: "i < length nodes" "\<not> ps_finalized (states ! i)"
    using inv rdy by (simp_all add: state_inv_def ready_def)
  have down: "set (pn_downstream (nodes ! j)) \<subseteq> {..<length nodes}" if "j < length nodes" for j
    by (rule plan_linksD(2) [OF links that])
  have edge: "j \<in> set (pn_downstream (nodes ! c)) \<longleftrightarrow> c \<in> set (pn_dependencies (nodes ! j))"
    if "c < length nodes" "j < length nodes" for c j by (rule plan_linksD(4) [OF links that])
  have deps: "d < length nodes" if "j < length nodes" "d \<in> set (pn_dependencies (nodes ! j))" for j d
    using plan_linksD(1) [OF links that(1)] that(2) by auto
  obtain s' k where run: "cascade_skip nodes ?s (rev (pn_downstream (nodes ! i))) 0 = Some (s', 0 + k)"
    and cnt: "unfinalized ?s = unfinalized s' + k"
    and C: "cascade_rel nodes ?s (rev (pn_downstream (nodes ! i))) s'"
    using cascade_skip_spec [of "rev (pn_downstream (nodes ! i))" ?s nodes 0] down n i by auto
  note C' = C [unfolded cascade_rel_def length_list_update n]
  have s_at: "?s ! j = (if j = i then (states ! i)\<lparr>ps_finalized := True, ps_result := r\<rparr> else states ! j)"
    if "j < length nodes" for j using that n by (simp add: nth_list_update)
  have self: "s' ! i = ?s ! i" using C' i(1) s_at [OF i(1)] by simp
  have old: "s' ! j = states ! j" if "j < length nodes" "ps_finalized (states ! j)" for j
    using C' s_at [OF that(1)] that i(2) by auto
  have rem: "ps_remaining (s' ! j) = ps_remaining (states ! j)" if "j < length nodes" for j
    using C' s_at [OF that] that by (cases "j = i") simp_all
  text \<open>The probes that the cascade finalizes.\<close>
  define new where "new j \<longleftrightarrow> j < length nodes \<and> j \<noteq> i \<and> \<not> ps_finalized (states ! j) \<and> ps_finalized (s' ! j)" for j
  have new_s: "new j \<longleftrightarrow> j < length nodes \<and> \<not> ps_finalized (?s ! j) \<and> ps_finalized (s' ! j)" for j
    using s_at [of j] by (cases "j = i") (auto simp: new_def)
  have new_res: "ps_result (s' ! j) = skipped_result (pn_id (nodes ! j))" if "new j" for j
    using C' that unfolding new_s by blast
  have new_down: "ps_finalized (s' ! d)" if "new j" "d \<in> set (pn_downstream (nodes ! j))" for j d
    using C' that unfolding new_s by blast
  have new_src: "\<exists>c<length nodes. (c = i \<or> new c) \<and> j \<in> set (pn_downstream (nodes ! c))" if "new j" for j
  proof -
    from C' that have "j \<in> set (pn_downstream (nodes ! i)) \<or>
        (\<exists>c<length nodes. new c \<and> j \<in> set (pn_downstream (nodes ! c)))" unfolding new_s set_rev by blast
    then show ?thesis using i(1) by blast
  qed
  have seeds: "ps_finalized (s' ! d)" if "d \<in> set (pn_downstream (nodes ! i))" for d
    using C' that unfolding set_rev by blast
  have fin: "ps_finalized (s' ! j) \<longleftrightarrow> ps_finalized (states ! j) \<or> j = i \<or> new j" if "j < length nodes" for j
    using that old [OF that] self s_at [OF i(1)] by (auto simp: new_def)
  have res: "ps_result (s' ! j) = (if j = i then r else if new j then skipped_result (pn_id (nodes ! j)) else ps_result (states ! j))"
    if j: "j < length nodes" and f: "ps_finalized (s' ! j)" for j
  proof -
    consider "j = i" | "new j" "j \<noteq> i" | "ps_finalized (states ! j)" "j \<noteq> i" "\<not> new j"
      using fin [OF j] f by blast
    then show ?thesis
    proof cases
      case 1
      then show ?thesis using self s_at [OF i(1)] by simp
    next
      case 2
      then show ?thesis using new_res by simp
    next
      case 3
      then show ?thesis using old [OF j] by simp
    qed
  qed
  have suc: "succeeded s' j \<longleftrightarrow> succeeded states j" if "j < length nodes" for j
  proof -
    consider "j = i" | "j \<noteq> i" "new j" | "j \<noteq> i" "\<not> new j" by blast
    then show ?thesis
    proof cases
      case 1
      then have "s' ! j = (states ! i)\<lparr>ps_finalized := True, ps_result := r\<rparr>" using self s_at [OF i(1)] by simp
      then show ?thesis unfolding succeeded_def using 1 r(1) i(2) by simp
    next
      case 2
      then have "\<not> ps_finalized (states ! j)" "ps_finalized (s' ! j)" by (simp_all add: new_def)
      then show ?thesis using 2 new_res [OF 2(2)] by (simp add: succeeded_def skipped_result_def)
    next
      case 3
      then show ?thesis using fin [OF that] old [OF that] by (auto simp: succeeded_def)
    qed
  qed
  have brk: "broken s' j \<longleftrightarrow> broken states j \<or> j = i \<or> new j" if "j < length nodes" for j
  proof -
    consider "j = i" | "j \<noteq> i" "new j" | "j \<noteq> i" "\<not> new j" by blast
    then show ?thesis
    proof cases
      case 1
      then have "s' ! j = (states ! i)\<lparr>ps_finalized := True, ps_result := r\<rparr>" using self s_at [OF i(1)] by simp
      then show ?thesis unfolding broken_def using 1 r(1) i(2) by simp
    next
      case 2
      then have "\<not> ps_finalized (states ! j)" "ps_finalized (s' ! j)" by (simp_all add: new_def)
      then show ?thesis using 2 new_res [OF 2(2)] by (simp add: broken_def skipped_result_def)
    next
      case 3
      then show ?thesis using fin [OF that] old [OF that] by (auto simp: broken_def)
    qed
  qed
  have dep_i: "\<not> succeeded states c" if "c = i \<or> new c" for c
    using that i(2) by (auto simp: succeeded_def new_def)
  text \<open>Whatever depends on a newly broken probe was not finalized before, or was skipped already.\<close>
  have skip: "ps_finalized (s' ! j) \<and> rt_status (ps_result (s' ! j)) = ProbeSkipped"
    if j: "j < length nodes" and c: "c \<in> set (pn_dependencies (nodes ! j))" "c = i \<or> new c" for j c
  proof -
    have cn: "c < length nodes" using deps [OF j c(1)] .
    have "j \<in> set (pn_downstream (nodes ! c))" using edge [OF cn j] c(1) by simp
    then have f: "ps_finalized (s' ! j)" using c(2) seeds new_down by blast
    have "j \<noteq> i"
    proof
      assume "j = i"
      then have "succeeded states c" using ready_succeeded [OF inv rdy] c(1) by simp
      then show False using dep_i [OF c(2)] by simp
    qed
    show ?thesis
    proof (cases "new j")
      case True
      then show ?thesis using new_res f by (simp add: skipped_result_def)
    next
      case False
      then have fj: "ps_finalized (states ! j)" using fin [OF j] f \<open>j \<noteq> i\<close> by simp
      have "rt_status (ps_result (states ! j)) = ProbeSkipped"
      proof (rule ccontr)
        assume "rt_status (ps_result (states ! j)) \<noteq> ProbeSkipped"
        then have "succeeded states c" using state_invD(5) [OF inv j fj _ c(1)] by simp
        then show False using dep_i [OF c(2)] by simp
      qed
      then show ?thesis using f old [OF j fj] by simp
    qed
  qed
  have "state_inv nodes s'"
    unfolding state_inv_def
  proof (intro conjI allI impI)
    show "length s' = length nodes" using C' by simp
    fix j assume j: "j < length nodes"
    have "filter (\<lambda>d. d \<notin> {d. succeeded s' d}) (pn_dependencies (nodes ! j)) =
        filter (\<lambda>d. d \<notin> {d. succeeded states d}) (pn_dependencies (nodes ! j))"
      by (rule filter_cong) (use suc deps [OF j] in auto)
    then show "ps_remaining (s' ! j) = int (length (filter (\<lambda>d. d \<notin> {d. succeeded s' d}) (pn_dependencies (nodes ! j))))"
      using rem [OF j] state_invD(2) [OF inv j] by simp
    show "rt_probe_id (ps_result (s' ! j)) = pn_id (nodes ! j)" if "ps_finalized (s' ! j)"
      using res [OF j that] fin [OF j] that r(3) state_invD(3) [OF inv j] by (auto simp: skipped_result_def)
    show "if rt_status (ps_result (s' ! j)) = ProbeSkipped then \<exists>d\<in>set (pn_dependencies (nodes ! j)). broken s' d
         else \<forall>d\<in>set (pn_dependencies (nodes ! j)). succeeded s' d" if f: "ps_finalized (s' ! j)"
    proof -
      consider "j = i" | "j \<noteq> i" "new j" | "j \<noteq> i" "\<not> new j" by blast
      then show ?thesis
      proof cases
        case 1
        have "succeeded s' d" if "d \<in> set (pn_dependencies (nodes ! i))" for d
          using ready_succeeded [OF inv rdy that] deps [OF i(1) that] suc by blast
        then show ?thesis using res [OF j f] 1 r(2) by simp
      next
        case 2
        then obtain c where "c < length nodes" "c = i \<or> new c" "j \<in> set (pn_downstream (nodes ! c))" using new_src by blast
        then have "c \<in> set (pn_dependencies (nodes ! j))" "broken s' c" using edge [of c j] j brk [of c] by simp_all
        then show ?thesis using new_res [OF 2(2)] by (auto simp: skipped_result_def)
      next
        case 3
        then have fj: "ps_finalized (states ! j)" using fin [OF j] f by simp
        note same = old [OF j fj]
        show ?thesis
          using state_invD(4,5) [OF inv j fj] brk suc deps [OF j] unfolding same by (auto split: if_splits)
      qed
    qed
    assume "\<exists>d\<in>set (pn_dependencies (nodes ! j)). broken s' d"
    then obtain d where d: "d \<in> set (pn_dependencies (nodes ! j))" "broken s' d" by blast
    have "ps_finalized (s' ! j) \<and> rt_status (ps_result (s' ! j)) = ProbeSkipped"
    proof (cases "d = i \<or> new d")
      case True
      then show ?thesis using skip [OF j d(1)] by blast
    next
      case False
      then have "broken states d" using brk [OF deps [OF j d(1)]] d(2) by blast
      from state_invD(6) [OF inv j d(1) this] show ?thesis using old [OF j] by simp
    qed
    then show "ps_finalized (s' ! j)" "rt_status (ps_result (s' ! j)) = ProbeSkipped" by simp_all
  qed
  moreover have "unfinalized states = unfinalized s' + k + 1"
    using unfinalized_update [of i states "(states ! i)\<lparr>ps_finalized := True, ps_result := r\<rparr>"] i n cnt by simp
  moreover have "(if ready s' j then 1 else 0) + (if j = i then 1 else 0) = (if ready states j then 1 else 0) + count (mset []) j" for j
  proof (cases "j < length nodes")
    case True
    have "\<not> ready states j" if nj: "new j"
    proof
      assume rj: "ready states j"
      obtain c where "c < length nodes" "c = i \<or> new c" "j \<in> set (pn_downstream (nodes ! c))" using new_src [OF nj] by blast
      then have "c \<in> set (pn_dependencies (nodes ! j))" using edge [of c j] True by simp
      from ready_succeeded [OF inv rj this] show False using dep_i \<open>c = i \<or> new c\<close> by blast
    qed
    then show ?thesis
      using fin [OF True] rem [OF True] rdy True n C' i(2) by (cases "j = i") (auto simp: ready_def)
  next
    case False
    then show ?thesis using n C' i by (auto simp: ready_def)
  qed
  ultimately have "recorded nodes states i r s' k []"
    unfolding recorded_def using fin res i old suc new_res by (simp add: i(1))
  then show ?thesis using run r(1) by (auto simp: record_final_def Let_def)
qed

end
