(* ===== verification/Orchestrator_Run.thy ===== *)
theory Orchestrator_Run
  imports Orchestrator
begin

text \<open>
  What every interleaving of the scheduler's goroutines guarantees. A probe that is neither
  finalized nor waiting for a dependency is held by exactly one token: a queue entry, a worker that
  is processing it, or a worker that is about to push it. From this invariant follow: a probe is
  started at most once and only after its dependencies, the results reported, the absence of
  deadlocks, and the termination of every execution.
\<close>

section \<open>Tokens\<close>

fun worker_tokens :: "worker \<Rightarrow> nat list" where
  "worker_tokens (Popped i) = [i]"
| "worker_tokens (Checked i) = [i]"
| "worker_tokens (Running i) = [i]"
| "worker_tokens (Recording i r) = [i]"
| "worker_tokens (Counting k ds) = ds"
| "worker_tokens Idle = []"
| "worker_tokens Exited = []"

text \<open>The increments of the counter that a worker still owes.\<close>

fun pending :: "worker \<Rightarrow> nat" where
  "pending (Counting k ds) = Suc k"
| "pending _ = 0"

definition wsum :: "(worker \<Rightarrow> nat) \<Rightarrow> sched \<Rightarrow> nat" where
  "wsum f s = sum_list (map f (sc_workers s))"

definition tokens :: "execution_plan \<Rightarrow> sched \<Rightarrow> nat \<Rightarrow> nat" where
  "tokens plan s j = count_list (map (pl_indices plan) (sc_queue s)) j + wsum (\<lambda>x. count_list (worker_tokens x) j) s"

lemma sum_list_update_nat:
  "w < length xs \<Longrightarrow> sum_list (map f (xs[w := y])) + f (xs ! w) = sum_list (map f xs) + (f y :: nat)"
  by (induction xs arbitrary: w) (auto split: nat.split)

lemma wsum_set_worker:
  "at_worker s w x \<Longrightarrow> wsum f (set_worker s w y) + f x = wsum f s + f y"
  using sum_list_update_nat [of w "sc_workers s" f y] by (auto simp: wsum_def at_worker_def set_worker_def)

lemma at_worker_in: "at_worker s w x \<Longrightarrow> x \<in> set (sc_workers s)"
  by (auto simp: at_worker_def)

lemma in_at_worker: "x \<in> set (sc_workers s) \<Longrightarrow> \<exists>w. at_worker s w x"
  by (auto simp: at_worker_def in_set_conv_nth)

lemma set_worker_subset: "x \<in> set (sc_workers (set_worker s w y)) \<Longrightarrow> x \<in> set (sc_workers s) \<or> x = y"
  using set_update_subset_insert [of "sc_workers s" w y] by (auto simp: set_worker_def)

lemma set_worker_simps [simp]:
  "sc_states (set_worker s w x) = sc_states s" "sc_queue (set_worker s w x) = sc_queue s"
  "sc_closed (set_worker s w x) = sc_closed s" "sc_finalized (set_worker s w x) = sc_finalized s"
  "sc_all_done (set_worker s w x) = sc_all_done s" "sc_ctx (set_worker s w x) = sc_ctx s"
  "sc_main (set_worker s w x) = sc_main s"
  by (simp_all add: set_worker_def)

lemma at_worker_update [simp]:
  "at_worker (s\<lparr>sc_states := a\<rparr>) w x = at_worker s w x" "at_worker (s\<lparr>sc_queue := b\<rparr>) w x = at_worker s w x"
  "at_worker (s\<lparr>sc_finalized := c\<rparr>) w x = at_worker s w x" "at_worker (queue_push i s) w x = at_worker s w x"
  "at_worker (signal_completion n s) w x = at_worker s w x"
  by (simp_all add: at_worker_def queue_push_def signal_completion_def)

lemma wsum_update [simp]:
  "wsum f (s\<lparr>sc_states := a\<rparr>) = wsum f s" "wsum f (s\<lparr>sc_queue := b\<rparr>) = wsum f s"
  "wsum f (s\<lparr>sc_finalized := c\<rparr>) = wsum f s" "wsum f (queue_push i s) = wsum f s"
  "wsum f (signal_completion n s) = wsum f s" "wsum f (s\<lparr>sc_ctx := e\<rparr>) = wsum f s"
  "wsum f (s\<lparr>sc_closed := b'\<rparr>) = wsum f s" "wsum f (s\<lparr>sc_main := m\<rparr>) = wsum f s"
  by (simp_all add: wsum_def queue_push_def signal_completion_def queue_close_def)

lemma wsum_ge: "x \<in> set (sc_workers s) \<Longrightarrow> f x \<le> wsum f s"
  unfolding wsum_def by (rule member_le_sum_list) simp_all

section \<open>The invariant of the scheduler\<close>

definition worker_ok :: "execution_plan \<Rightarrow> bool \<Rightarrow> worker \<Rightarrow> bool" where
  "worker_ok plan closed x = (case x of
      Recording i r \<Rightarrow> rt_status r \<noteq> ProbeSkipped \<and> rt_probe_id r = pn_id (pl_nodes plan ! i)
    | Exited \<Rightarrow> closed
    | _ \<Rightarrow> True)"

definition sched_inv :: "execution_plan \<Rightarrow> sched \<Rightarrow> bool" where
  "sched_inv plan s \<longleftrightarrow>
     state_inv (pl_nodes plan) (sc_states s) \<and>
     (\<forall>j. tokens plan s j = (if ready (sc_states s) j then 1 else 0)) \<and>
     unfinalized (sc_states s) + sc_finalized s + wsum pending s = length (pl_nodes plan) \<and>
     (sc_all_done s \<longleftrightarrow> sc_finalized s = length (pl_nodes plan)) \<and>
     (sc_closed s \<longleftrightarrow> sc_main s \<noteq> Waiting) \<and>
     (sc_closed s \<longrightarrow> sc_all_done s) \<and>
     (\<forall>x\<in>set (sc_workers s). worker_ok plan (sc_closed s) x) \<and>
     (\<forall>out. sc_main s = Returned out \<longrightarrow> (\<forall>x\<in>set (sc_workers s). x = Exited) \<and> out = collect plan (sc_states s))"

lemma sched_invD:
  assumes "sched_inv plan s"
  shows "state_inv (pl_nodes plan) (sc_states s)" "tokens plan s j = (if ready (sc_states s) j then 1 else 0)"
    "unfinalized (sc_states s) + sc_finalized s + wsum pending s = length (pl_nodes plan)"
    "sc_all_done s \<longleftrightarrow> sc_finalized s = length (pl_nodes plan)"
    "sc_closed s \<longleftrightarrow> sc_main s \<noteq> Waiting" "sc_closed s \<Longrightarrow> sc_all_done s"
    "x \<in> set (sc_workers s) \<Longrightarrow> worker_ok plan (sc_closed s) x"
    "sc_main s = Returned out \<Longrightarrow> (\<forall>x\<in>set (sc_workers s). x = Exited) \<and> out = collect plan (sc_states s)"
  using assms unfolding sched_inv_def by blast+

lemmas sched_invI = sched_inv_def [THEN iffD2, OF conjI, OF _ conjI, OF _ _ conjI, OF _ _ _ conjI, OF _ _ _ _ conjI,
  OF _ _ _ _ _ conjI, OF _ _ _ _ _ _ conjI]

lemma worker_ok_simps [simp]:
  "worker_ok plan c Idle" "worker_ok plan c (Popped i)" "worker_ok plan c (Checked i)" "worker_ok plan c (Running i)"
  "worker_ok plan c (Counting k ds)" "worker_ok plan c Exited = c"
  "worker_ok plan c (Recording i r) = (rt_status r \<noteq> ProbeSkipped \<and> rt_probe_id r = pn_id (pl_nodes plan ! i))"
  by (simp_all add: worker_ok_def)

lemma workers_ok_set:
  assumes "sched_inv plan s" and "sc_workers s' = sc_workers s" and "worker_ok plan (sc_closed s) y"
  shows "\<forall>x\<in>set (sc_workers (set_worker s' w y)). worker_ok plan (sc_closed s) x"
  using sched_invD(7) [OF assms(1)] assms(2,3) by (auto dest!: set_worker_subset)

text \<open>Whatever a token stands for is ready, and no other token stands for it.\<close>

lemma token_ready:
  assumes "sched_inv plan s" and "x \<in> set (sc_workers s)" and "i \<in> set (worker_tokens x)"
  shows "ready (sc_states s) i"
proof (rule ccontr)
  assume "\<not> ready (sc_states s) i"
  then have "wsum (\<lambda>x. count_list (worker_tokens x) i) s = 0"
    using sched_invD(2) [OF assms(1), of i] by (simp add: tokens_def)
  then have "count_list (worker_tokens x) i = 0" using wsum_ge [OF assms(2), of "\<lambda>x. count_list (worker_tokens x) i"] by simp
  with assms(3) show False by (simp add: count_list_0_iff)
qed

lemma owing_not_done:
  assumes "sched_inv plan s" and "x \<in> set (sc_workers s)" and "0 < pending x"
  shows "sc_finalized s < length (pl_nodes plan)" "\<not> sc_all_done s" "\<not> sc_closed s"
proof -
  show *: "sc_finalized s < length (pl_nodes plan)"
    using sched_invD(3) [OF assms(1)] wsum_ge [OF assms(2), of pending] assms(3) by simp
  then show "\<not> sc_all_done s" using sched_invD(4) [OF assms(1)] by simp
  then show "\<not> sc_closed s" using sched_invD(6) [OF assms(1)] by blast
qed

lemma ready_open: "ready states i \<Longrightarrow> 0 < unfinalized states"
proof -
  assume "ready states i"
  then have "states ! i \<in> set (filter (\<lambda>s. \<not> ps_finalized s) states)" by (simp add: ready_def)
  then show "0 < unfinalized states" unfolding unfinalized_def by (metis length_pos_if_in_set)
qed

lemma token_not_closed:
  assumes "sched_inv plan s" and "x \<in> set (sc_workers s)" and "i \<in> set (worker_tokens x)"
  shows "\<not> sc_closed s" "sc_main s = Waiting"
proof -
  have "0 < unfinalized (sc_states s)" by (rule ready_open [OF token_ready [OF assms]])
  then have "\<not> sc_all_done s" using sched_invD(3,4) [OF assms(1)] by simp
  then show "\<not> sc_closed s" using sched_invD(6) [OF assms(1)] by blast
  then show "sc_main s = Waiting" using sched_invD(5) [OF assms(1)] by blast
qed

text \<open>A step that only moves one worker, keeping its token and what it owes.\<close>

lemma sched_inv_move:
  assumes "sched_inv plan s" and "at_worker s w x" and "x \<noteq> Exited"
    and "worker_tokens y = worker_tokens x" and "pending y = pending x" and "worker_ok plan (sc_closed s) y"
  shows "sched_inv plan (set_worker s w y)"
proof -
  have sum: "wsum f (set_worker s w y) = wsum f s" if "f x = f y" for f
    using wsum_set_worker [OF assms(2), of f y] that by simp
  have ret: "sc_main s \<noteq> Returned out" for out
    using sched_invD(8) [OF assms(1)] at_worker_in [OF assms(2)] assms(3) by blast
  show ?thesis
    using assms(1,6) sum [of pending] sum [of "\<lambda>x. count_list (worker_tokens x) j" for j] assms(4,5) ret
    unfolding sched_inv_def tokens_def by (auto dest!: set_worker_subset)
qed


lemma sched_inv_initial:
  assumes "plan_ok plan" and "pl_nodes plan \<noteq> []"
  shows "sched_inv plan (initial_sched plan max_concurrency)"
proof -
  let ?nodes = "pl_nodes plan" and ?s = "initial_sched plan max_concurrency"
  have open0: "\<not> ps_finalized (sc_states ?s ! i)" if "i < length ?nodes" for i using that by (simp add: initial_sched_def)
  have none: "wsum f ?s = 0" if "f Idle = 0" for f using that by (simp add: wsum_def initial_sched_def sum_list_replicate)
  have "state_inv ?nodes (sc_states ?s)"
  proof -
    have dead: "\<not> succeeded (sc_states ?s) d" "\<not> broken (sc_states ?s) d" if "d < length ?nodes" for d
      using open0 [OF that] by (simp_all add: succeeded_def broken_def)
    have deps: "d < length ?nodes" if "i < length ?nodes" "d \<in> set (pn_dependencies (?nodes ! i))" for i d
      using plan_linksD(1) [of ?nodes i] assms(1) that by (auto simp: plan_ok_def)
    have "filter (\<lambda>d. d \<notin> {d. succeeded (sc_states ?s) d}) (pn_dependencies (?nodes ! i)) = pn_dependencies (?nodes ! i)"
      if "i < length ?nodes" for i using dead(1) deps [OF that] by (auto intro: filter_True)
    then show ?thesis unfolding state_inv_def using open0 dead(2) deps by (auto simp: initial_sched_def)
  qed
  moreover have "tokens plan ?s j = (if ready (sc_states ?s) j then 1 else 0)" for j
  proof -
    have idx: "pl_indices plan (pn_id (?nodes ! i)) = i" if "i < length ?nodes" for i
      using assms(1) that by (simp add: plan_ok_def)
    have "filter (\<lambda>node. pn_dependencies node = []) ?nodes =
        map ((!) ?nodes) (filter (\<lambda>i. pn_dependencies (?nodes ! i) = []) [0..<length ?nodes])"
      using filter_map [of "\<lambda>node. pn_dependencies node = []" "(!) ?nodes" "[0..<length ?nodes]"]
      by (simp add: map_nth comp_def)
    then have "map (pl_indices plan) (sc_queue ?s) = filter (\<lambda>i. pn_dependencies (?nodes ! i) = []) [0..<length ?nodes]"
      using idx by (auto simp: initial_sched_def comp_def intro: map_idI)
    moreover have "distinct (filter (\<lambda>i. pn_dependencies (?nodes ! i) = []) [0..<length ?nodes])" by simp
    ultimately have "count_list (map (pl_indices plan) (sc_queue ?s)) j =
        (if j < length ?nodes \<and> pn_dependencies (?nodes ! j) = [] then 1 else 0)"
      by (auto simp: count_mset [symmetric] distinct_count_atmost_1)
    then show ?thesis using none by (auto simp: tokens_def ready_def initial_sched_def)
  qed
  moreover have "unfinalized (sc_states ?s) = length ?nodes" by (simp add: unfinalized_def initial_sched_def)
  ultimately show ?thesis
    using none [of pending] assms(2)
    by (auto simp: sched_inv_def initial_sched_def worker_ok_def split: if_splits)
qed

section \<open>Every step keeps the invariant\<close>

lemma sched_inv_finalize:
  assumes ok: "plan_ok plan" and inv: "sched_inv plan s" and at: "at_worker s w (Recording i r)"
    and rec: "record_final (pl_nodes plan) (sc_states s) i r = Some (states, cnt, runnable)"
  shows "sched_inv plan (set_worker (s\<lparr>sc_states := states\<rparr>) w (Counting cnt runnable))"
    and "recorded (pl_nodes plan) (sc_states s) i r states cnt runnable"
proof -
  let ?x = "Recording i r" and ?t = "set_worker (s\<lparr>sc_states := states\<rparr>) w (Counting cnt runnable)"
  have mem: "?x \<in> set (sc_workers s)" by (rule at_worker_in [OF at])
  have rdy: "ready (sc_states s) i" by (rule token_ready [OF inv mem]) simp
  have wait: "\<not> sc_closed s" "sc_main s = Waiting" using token_not_closed [OF inv mem, of i] by simp_all
  have links: "plan_links (pl_nodes plan)" using ok by (simp add: plan_ok_def)
  have r: "rt_status r \<noteq> ProbeSkipped" "rt_probe_id r = pn_id (pl_nodes plan ! i)"
    using sched_invD(7) [OF inv mem] by (simp_all add: worker_ok_def)
  note si = sched_invD(1) [OF inv]
  show rel: "recorded (pl_nodes plan) (sc_states s) i r states cnt runnable"
  proof (cases "rt_status r = ProbeSucceeded")
    case True
    from record_success [OF links si rdy True r(2)] rec show ?thesis by auto
  next
    case False
    from record_failure [OF links si rdy False r] rec show ?thesis by auto
  qed
  have sum: "wsum f ?t + f ?x = wsum f s + f (Counting cnt runnable)" for f
    using wsum_set_worker [of "s\<lparr>sc_states := states\<rparr>" w ?x f] at by simp
  have "tokens plan ?t j = (if ready (sc_states ?t) j then 1 else 0)" for j
  proof -
    have "tokens plan ?t j + (if j = i then 1 else 0) = tokens plan s j + count_list runnable j"
      using sum [of "\<lambda>x. count_list (worker_tokens x) j"] by (cases "j = i") (simp_all add: tokens_def)
    also have "\<dots> = (if ready (sc_states s) j then 1 else 0) + count (mset runnable) j"
      using sched_invD(2) [OF inv, of j] by (simp add: count_mset)
    also have "\<dots> = (if ready states j then 1 else 0) + (if j = i then 1 else 0)"
      using rel unfolding recorded_def by metis
    finally show ?thesis by simp
  qed
  moreover have "unfinalized (sc_states ?t) + sc_finalized ?t + wsum pending ?t = length (pl_nodes plan)"
    using sched_invD(3) [OF inv] sum [of pending] rel by (simp add: recorded_def)
  moreover have "\<forall>x\<in>set (sc_workers ?t). worker_ok plan (sc_closed ?t) x"
    using workers_ok_set [OF inv, of "s\<lparr>sc_states := states\<rparr>" "Counting cnt runnable" w] by simp
  ultimately show "sched_inv plan ?t"
    using rel wait sched_invD(4,5,6) [OF inv] unfolding sched_inv_def by (simp add: recorded_def)
qed

lemma sched_inv_pop:
  assumes inv: "sched_inv plan s" and at: "at_worker s w Idle" and q: "sc_queue s = x # q"
  shows "sched_inv plan (set_worker (s\<lparr>sc_queue := q\<rparr>) w (Popped (pl_indices plan x)))"
proof -
  let ?t = "set_worker (s\<lparr>sc_queue := q\<rparr>) w (Popped (pl_indices plan x))"
  have sum: "wsum f ?t + f Idle = wsum f s + f (Popped (pl_indices plan x))" for f
    using wsum_set_worker [of "s\<lparr>sc_queue := q\<rparr>" w Idle f] at by simp
  have "tokens plan ?t j = tokens plan s j" for j
    using sum [of "\<lambda>x. count_list (worker_tokens x) j"] q by (simp add: tokens_def)
  moreover have "sc_main s \<noteq> Returned out" for out
    using sched_invD(8) [OF inv] at_worker_in [OF at] by blast
  ultimately show ?thesis
    using sched_invD [OF inv] sum [of pending] workers_ok_set [OF inv, of "s\<lparr>sc_queue := q\<rparr>" "Popped (pl_indices plan x)" w]
    by (intro sched_invI) simp_all
qed

lemma sched_inv_push:
  assumes ok: "plan_ok plan" and inv: "sched_inv plan s" and at: "at_worker s w (Counting 0 (d # ds))"
  shows "sched_inv plan (set_worker (queue_push (pn_id (pl_nodes plan ! d)) s) w (Counting 0 ds))"
proof -
  let ?t = "set_worker (queue_push (pn_id (pl_nodes plan ! d)) s) w (Counting 0 ds)"
  have mem: "Counting 0 (d # ds) \<in> set (sc_workers s)" by (rule at_worker_in [OF at])
  have wait: "\<not> sc_closed s" "sc_main s = Waiting" using token_not_closed [OF inv mem, of d] by simp_all
  have "ready (sc_states s) d" by (rule token_ready [OF inv mem]) simp
  then have "pl_indices plan (pn_id (pl_nodes plan ! d)) = d"
    using ok sched_invD(1) [OF inv] by (simp add: plan_ok_def state_inv_def ready_def)
  moreover have sum: "wsum f ?t + f (Counting 0 (d # ds)) = wsum f s + f (Counting 0 ds)" for f
    using wsum_set_worker [of "queue_push (pn_id (pl_nodes plan ! d)) s" w "Counting 0 (d # ds)" f] at by simp
  ultimately have "tokens plan ?t j = tokens plan s j" for j
    using sum [of "\<lambda>x. count_list (worker_tokens x) j"] wait by (cases "j = d") (simp_all add: tokens_def queue_push_def)
  then show ?thesis
    using sched_invD(1-6) [OF inv] sum [of pending] wait
      workers_ok_set [OF inv, of "queue_push (pn_id (pl_nodes plan ! d)) s" "Counting 0 ds" w]
    by (intro sched_invI) (simp_all add: queue_push_def)
qed

lemma sched_inv_count:
  assumes inv: "sched_inv plan s" and at: "at_worker s w x" and x: "x = Counting k ds"
    and y: "worker_tokens y = ds" "Suc (pending y) = Suc k" "worker_ok plan False y"
    and t: "t = set_worker (s\<lparr>sc_finalized := sc_finalized s + 1, sc_all_done := all\<rparr>) w y"
    and fin: "all \<longleftrightarrow> sc_finalized s + 1 = length (pl_nodes plan)"
  shows "sched_inv plan t"
proof -
  let ?s = "s\<lparr>sc_finalized := sc_finalized s + 1, sc_all_done := all\<rparr>"
  have mem: "x \<in> set (sc_workers s)" by (rule at_worker_in [OF at])
  have owing: "\<not> sc_closed s" using owing_not_done [OF inv mem] x by simp
  then have wait: "sc_main s = Waiting" using sched_invD(5) [OF inv] by blast
  have "at_worker ?s w x" using at by (simp add: at_worker_def)
  then have sum: "wsum f t + f x = wsum f s + f y" for f
    using wsum_set_worker [of ?s w x f y] t by (simp add: wsum_def)
  have "tokens plan t j = tokens plan s j" for j
    using sum [of "\<lambda>x. count_list (worker_tokens x) j"] t x y(1) by (simp add: tokens_def)
  moreover have "unfinalized (sc_states t) + sc_finalized t + wsum pending t = length (pl_nodes plan)"
    using sched_invD(3) [OF inv] sum [of pending] x y(2) t by simp
  moreover have "\<forall>x\<in>set (sc_workers t). worker_ok plan (sc_closed t) x"
    using workers_ok_set [OF inv, of ?s y w] owing y(3) unfolding t by simp
  moreover have "sc_all_done t \<longleftrightarrow> sc_finalized t = length (pl_nodes plan)" using fin unfolding t by simp
  moreover have "sc_closed t = False" "sc_main t = Waiting" "state_inv (pl_nodes plan) (sc_states t)" "sc_states t = sc_states s"
    using owing wait sched_invD(1) [OF inv] unfolding t by simp_all
  ultimately show ?thesis
    using sched_invD(2) [OF inv] by (intro sched_invI) simp_all
qed


lemma classify_result:
  "rt_probe_id (classify i sc ctx obs err dur) = i" "rt_status (classify i sc ctx obs err dur) \<noteq> ProbeSkipped"
  by (auto simp: classify_def Let_def split: prod.splits option.splits)

lemma cancelled_result_simps [simp]:
  "rt_probe_id (cancelled_result i err) = i" "rt_status (cancelled_result i err) = ProbeCancelled"
  by (simp_all add: cancelled_result_def)

lemma held_open:
  assumes "sched_inv plan s" and "at_worker s w x" and "i \<in> set (worker_tokens x)"
  shows "\<not> ps_finalized (sc_states s ! i)"
  using token_ready [OF assms(1) at_worker_in [OF assms(2)] assms(3)] by (simp add: ready_def)

lemma step_inv:
  assumes "plan_ok plan" and "sched_inv plan s" and "step behaves scope plan s l t"
  shows "sched_inv plan t"
  using assms(3)
proof cases
  case (pop w x q)
  then show ?thesis using sched_inv_pop [OF assms(2)] by simp
next
  case (exit w)
  then show ?thesis using sched_inv_move [OF assms(2) exit(3), of Exited] by simp
next
  case (fast_path w i)
  then show ?thesis using held_open [OF assms(2) fast_path(3), of i] by simp
next
  case (check w i)
  then show ?thesis using sched_inv_move [OF assms(2) check(3), of "Checked i"] by simp
next
  case (cancelled w i err)
  then show ?thesis
    using sched_inv_move [OF assms(2) cancelled(3), of "Recording i (cancelled_result (pn_id (pl_nodes plan ! i)) err)"] by simp
next
  case (start w i)
  then show ?thesis using sched_inv_move [OF assms(2) start(3), of "Running i"] by simp
next
  case (finish w i obs err dur)
  then show ?thesis
    using sched_inv_move [OF assms(2) finish(3), of "Recording i (classify (pn_id (pl_nodes plan ! i)) scope (sc_ctx s) obs err dur)"]
    by (simp add: classify_result)
next
  case (already_final w i r)
  then show ?thesis using held_open [OF assms(2) already_final(3), of i] by simp
next
  case (finalize w i r states cnt runnable)
  then show ?thesis using sched_inv_finalize(1) [OF assms(1,2)] by simp
next
  case (count w k runnable)
  have mem: "Counting (Suc k) runnable \<in> set (sc_workers s)" by (rule at_worker_in [OF count(3)])
  have "sc_finalized s + 1 \<noteq> length (pl_nodes plan)"
    using sched_invD(3) [OF assms(2)] wsum_ge [OF mem, of pending] by simp
  moreover have "t = set_worker (s\<lparr>sc_finalized := sc_finalized s + 1, sc_all_done := False\<rparr>) w (Counting k runnable)"
    using count(2) owing_not_done(2) [OF assms(2) mem] by (cases s) simp
  ultimately show ?thesis using sched_inv_count [OF assms(2) count(3) refl, of "Counting k runnable"] by simp
next
  case (push w d ds)
  then show ?thesis using sched_inv_push [OF assms(1,2)] by simp
next
  case (signal w)
  have mem: "Counting 0 [] \<in> set (sc_workers s)" by (rule at_worker_in [OF signal(3)])
  have "t = set_worker (s\<lparr>sc_finalized := sc_finalized s + 1, sc_all_done := (sc_finalized s + 1 = length (pl_nodes plan))\<rparr>) w Idle"
    using signal(2) owing_not_done(2) [OF assms(2) mem] by (simp add: signal_completion_def)
  then show ?thesis using sched_inv_count [OF assms(2) signal(3) refl, of Idle] by simp
next
  case (cancel err)
  have "sched_inv plan t \<longleftrightarrow> sched_inv plan s" unfolding cancel(2) sched_inv_def tokens_def by simp
  then show ?thesis using assms(2) by simp
next
  case close
  have "worker_ok plan True x" if "x \<in> set (sc_workers s)" for x
    using sched_invD(7) [OF assms(2) that] by (cases x) simp_all
  then show ?thesis using sched_invD(1-4) [OF assms(2)] close
    by (intro sched_invI) (simp_all add: tokens_def queue_close_def)
next
  case join
  then show ?thesis using sched_invD(1-7) [OF assms(2)] by (intro sched_invI) (simp_all add: tokens_def)
qed

text \<open>A plan without probes: no worker is started and the result is empty.\<close>

lemma empty_plan_step:
  "pl_nodes plan = [] \<Longrightarrow> sc_workers s = [] \<Longrightarrow> sc_main s = Returned [] \<Longrightarrow> step behaves scope plan s l t \<Longrightarrow>
   l = None \<and> sc_workers t = [] \<and> sc_main t = Returned []"
  by (erule step.cases) (auto simp: at_worker_def)

lemma run_inv:
  assumes "plan_ok plan" and "run behaves scope plan mc started s"
  shows "if pl_nodes plan = [] then started = [] \<and> sc_workers s = [] \<and> sc_main s = Returned [] else sched_inv plan s"
  using assms(2)
proof induction
  case begin_run
  then show ?case using sched_inv_initial [OF assms(1)] by (simp add: initial_sched_def)
next
  case (silent started s t)
  then show ?case using step_inv [OF assms(1)] empty_plan_step [of plan s] by (auto split: if_splits)
next
  case (starting started s i t)
  then show ?case using step_inv [OF assms(1)] empty_plan_step [of plan s behaves scope "Some i" t] by (auto split: if_splits)
qed

lemma run_inv_nonempty: "plan_ok plan \<Longrightarrow> run behaves scope plan mc started s \<Longrightarrow> pl_nodes plan \<noteq> [] \<Longrightarrow> sched_inv plan s"
  using run_inv [of plan behaves scope mc started s] by simp

lemma returned_all_final:
  assumes "sched_inv plan s" and "sc_main s = Returned out"
  shows "out = map (\<lambda>i. ps_result (sc_states s ! i)) [0..<length (pl_nodes plan)]"
    and "i < length (pl_nodes plan) \<Longrightarrow> ps_finalized (sc_states s ! i)"
proof -
  have "sc_closed s" using sched_invD(5) [OF assms(1)] assms(2) by simp
  then have "unfinalized (sc_states s) = 0" using sched_invD(3,4,6) [OF assms(1)] by simp
  then have "\<forall>x\<in>set (sc_states s). ps_finalized x" by (simp add: unfinalized_def filter_empty_conv)
  then show all: "ps_finalized (sc_states s ! i)" if "i < length (pl_nodes plan)" for i
    using that state_invD(1) [OF sched_invD(1) [OF assms(1)]] by simp
  show "out = map (\<lambda>i. ps_result (sc_states s ! i)) [0..<length (pl_nodes plan)]"
    using sched_invD(8) [OF assms] all by (auto simp: collect_def)
qed

section \<open>What a run reports\<close>

lemma run_reports_each:
  assumes "plan_ok plan" and "run behaves scope plan mc started s" and "sc_main s = Returned out"
  shows "length out = length (pl_nodes plan) \<and>
     (\<forall>i<length (pl_nodes plan). rt_probe_id (out ! i) = pn_id (pl_nodes plan ! i) \<and>
        (rt_status (out ! i) = ProbeSkipped \<longleftrightarrow>
           (\<exists>d\<in>set (pn_dependencies (pl_nodes plan ! i)). rt_status (out ! d) \<noteq> ProbeSucceeded)))"
proof (cases "pl_nodes plan = []")
  case True
  then show ?thesis using run_inv [OF assms(1,2)] assms(3) by simp
next
  case False
  have inv: "sched_inv plan s" by (rule run_inv_nonempty [OF assms(1,2) False])
  note R = returned_all_final [OF inv assms(3)] and si = sched_invD(1) [OF inv]
  have deps: "d < length (pl_nodes plan)" if "i < length (pl_nodes plan)" "d \<in> set (pn_dependencies (pl_nodes plan ! i))" for i d
    using plan_linksD(1) [of "pl_nodes plan" i] assms(1) that by (auto simp: plan_ok_def)
  have "rt_status (ps_result (sc_states s ! i)) = ProbeSkipped \<longleftrightarrow>
      (\<exists>d\<in>set (pn_dependencies (pl_nodes plan ! i)). rt_status (ps_result (sc_states s ! d)) \<noteq> ProbeSucceeded)"
    if i: "i < length (pl_nodes plan)" for i
    using state_invD(4,5,6) [OF si i] R(2) [OF i] R(2) [OF deps [OF i]] unfolding broken_def succeeded_def by blast
  then show ?thesis using R deps state_invD(3) [OF si] by auto
qed

text \<open>
  C2: when \<open>Run\<close> returns, in whatever order the workers interleaved and whether or not the context
  was cancelled, it reports one result per probe of the plan, in registration order and under the
  probe's identifier; a probe is reported as skipped exactly when some dependency is reported as not
  succeeded, so a dependent of a failed, cancelled or skipped probe is never run or cancelled itself.
\<close>

theorem run_reports:
  assumes "plan_ok plan" and "run behaves scope plan mc started s" and "sc_main s = Returned out"
  shows "length out = length (pl_nodes plan) \<and>
     (\<forall>i<length (pl_nodes plan). rt_probe_id (out ! i) = pn_id (pl_nodes plan ! i) \<and>
        (rt_status (out ! i) = ProbeSkipped \<longleftrightarrow>
           (\<exists>d\<in>set (pn_dependencies (pl_nodes plan ! i)). rt_status (out ! d) \<noteq> ProbeSucceeded)))"
  using assms by (rule run_reports_each)

section \<open>Which probes are started, and when\<close>

text \<open>A worker past the start of a probe, and one whose probe must have been started.\<close>

fun runs :: "worker \<Rightarrow> nat set" where
  "runs (Running i) = {i}"
| "runs (Recording i r) = {i}"
| "runs _ = {}"

fun claims :: "worker \<Rightarrow> nat set" where
  "claims (Running i) = {i}"
| "claims (Recording i r) = (if rt_status r = ProbeSucceeded then {i} else {})"
| "claims _ = {}"

text \<open>No probe twice, and the dependencies of each before it.\<close>

definition start_order :: "plan_node list \<Rightarrow> nat list \<Rightarrow> bool" where
  "start_order nodes started \<longleftrightarrow> distinct started \<and>
     (\<forall>k<length started. started ! k < length nodes \<and> set (pn_dependencies (nodes ! (started ! k))) \<subseteq> set (take k started))"

definition started_inv :: "execution_plan \<Rightarrow> nat list \<Rightarrow> sched \<Rightarrow> bool" where
  "started_inv plan started s \<longleftrightarrow>
     start_order (pl_nodes plan) started \<and>
     (\<forall>i\<in>set started. ps_finalized (sc_states s ! i) \<or> (\<exists>x\<in>set (sc_workers s). i \<in> runs x)) \<and>
     (\<forall>x\<in>set (sc_workers s). claims x \<subseteq> set started) \<and>
     (\<forall>i<length (pl_nodes plan). succeeded (sc_states s) i \<longrightarrow> i \<in> set started)"

lemma set_worker_keeps:
  "x' \<in> set (sc_workers s) \<Longrightarrow> at_worker s w x \<Longrightarrow> x' = x \<or> x' \<in> set (sc_workers (set_worker s w y))"
proof -
  assume "x' \<in> set (sc_workers s)" and at: "at_worker s w x"
  then obtain v where v: "v < length (sc_workers s)" "sc_workers s ! v = x'" by (auto simp: in_set_conv_nth)
  show ?thesis
  proof (cases "v = w")
    case True
    with v at show ?thesis by (simp add: at_worker_def)
  next
    case False
    then have "sc_workers (set_worker s w y) ! v = x'" "v < length (sc_workers (set_worker s w y))"
      using v by (simp_all add: set_worker_def)
    then show ?thesis using nth_mem by metis
  qed
qed

lemma set_worker_new: "at_worker s w x \<Longrightarrow> y \<in> set (sc_workers (set_worker s w y))"
  by (simp add: at_worker_def set_worker_def set_update_memI)

lemma started_inv_move:
  assumes "started_inv plan started s" and "at_worker s w x" and "sc_states s' = sc_states s" and "sc_workers s' = sc_workers s"
    and "runs x \<subseteq> runs y" and "claims y \<subseteq> set started"
  shows "started_inv plan started (set_worker s' w y)"
proof -
  have at: "at_worker s' w x" using assms(2,4) by (simp add: at_worker_def)
  have "\<exists>x\<in>set (sc_workers (set_worker s' w y)). i \<in> runs x" if i: "x' \<in> set (sc_workers s)" "i \<in> runs x'" for i x'
    using set_worker_keeps [OF _ at, of x' y] set_worker_new [OF at, of y] i assms(4,5) by auto
  moreover have "claims x' \<subseteq> set started" if "x' \<in> set (sc_workers (set_worker s' w y))" for x'
    using set_worker_subset [OF that] assms(1,4,6) by (auto simp: started_inv_def)
  ultimately show ?thesis using assms(1,3) unfolding started_inv_def set_worker_simps by (metis)
qed

text \<open>A second holder of a probe's token is excluded.\<close>

lemma token_unique:
  assumes inv: "sched_inv plan s" and at: "at_worker s w x" and other: "y \<in> set (sc_workers s)" "y \<noteq> x"
    and tok: "i \<in> set (worker_tokens x)" "i \<in> set (worker_tokens y)"
  shows False
proof -
  let ?f = "\<lambda>x. count_list (worker_tokens x) i"
  have "wsum ?f (set_worker s w Idle) + ?f x = wsum ?f s" using wsum_set_worker [OF at, of ?f Idle] by simp
  moreover have "y \<in> set (sc_workers (set_worker s w Idle))" using set_worker_keeps [OF other(1) at] other(2) by blast
  then have "?f y \<le> wsum ?f (set_worker s w Idle)" by (rule wsum_ge)
  moreover have "?f x \<noteq> 0" "?f y \<noteq> 0" using tok by (simp_all add: count_list_0_iff)
  moreover have "wsum ?f s \<le> 1" using sched_invD(2) [OF inv, of i] by (simp add: tokens_def split: if_splits)
  ultimately show False by simp
qed

lemma runs_token: "runs x \<subseteq> set (worker_tokens x)"
  by (cases x) simp_all

lemma started_inv_start:
  assumes ok: "plan_ok plan" and inv: "sched_inv plan s" and st: "started_inv plan started s"
    and at: "at_worker s w (Checked i)"
  shows "started_inv plan (started @ [i]) (set_worker s w (Running i))"
proof -
  have rdy: "ready (sc_states s) i" by (rule token_ready [OF inv at_worker_in [OF at]]) simp
  have i: "i < length (pl_nodes plan)" using rdy state_invD(1) [OF sched_invD(1) [OF inv]] by (simp add: ready_def)
  have fresh: "i \<notin> set started"
  proof
    assume "i \<in> set started"
    then obtain x where x: "x \<in> set (sc_workers s)" "i \<in> runs x"
      using st rdy by (auto simp: started_inv_def ready_def)
    then have "x \<noteq> Checked i" "i \<in> set (worker_tokens x)" using runs_token by auto
    then show False using token_unique [OF inv at x(1), of i] by simp
  qed
  have deps: "set (pn_dependencies (pl_nodes plan ! i)) \<subseteq> set started"
  proof
    fix d assume d: "d \<in> set (pn_dependencies (pl_nodes plan ! i))"
    have "succeeded (sc_states s) d" by (rule ready_succeeded [OF sched_invD(1) [OF inv] rdy d])
    moreover have "d < length (pl_nodes plan)" using plan_linksD(1) [of "pl_nodes plan" i] ok i d by (auto simp: plan_ok_def)
    ultimately show "d \<in> set started" using st by (auto simp: started_inv_def)
  qed
  have "start_order (pl_nodes plan) (started @ [i])"
    using st fresh deps i unfolding started_inv_def start_order_def by (auto simp: nth_append less_Suc_eq)
  moreover have "ps_finalized (sc_states s ! j) \<or> (\<exists>x\<in>set (sc_workers (set_worker s w (Running i))). j \<in> runs x)"
    if j: "j \<in> set (started @ [i])" for j
  proof (cases "j = i")
    case True
    then show ?thesis using set_worker_new [OF at, of "Running i"] by force
  next
    case False
    then have "ps_finalized (sc_states s ! j) \<or> (\<exists>x\<in>set (sc_workers s). j \<in> runs x)"
      using st j by (simp add: started_inv_def)
    then show ?thesis using set_worker_keeps [OF _ at, of _ "Running i"] by force
  qed
  moreover have "claims x \<subseteq> set (started @ [i])" if "x \<in> set (sc_workers (set_worker s w (Running i)))" for x
    using set_worker_subset [OF that] st by (auto simp: started_inv_def)
  moreover have "j \<in> set (started @ [i])" if "j < length (pl_nodes plan)" "succeeded (sc_states s) j" for j
    using st that by (simp add: started_inv_def)
  ultimately show ?thesis unfolding started_inv_def set_worker_simps by blast
qed


lemma started_inv_finalize:
  assumes st: "started_inv plan started s" and at: "at_worker s w (Recording i r)"
    and rel: "recorded (pl_nodes plan) (sc_states s) i r states cnt runnable"
    and len: "length states = length (pl_nodes plan)" and bound: "set started \<subseteq> {..<length (pl_nodes plan)}"
  shows "started_inv plan started (set_worker (s\<lparr>sc_states := states\<rparr>) w (Counting cnt runnable))"
proof -
  let ?t = "set_worker (s\<lparr>sc_states := states\<rparr>) w (Counting cnt runnable)"
  have at': "at_worker (s\<lparr>sc_states := states\<rparr>) w (Recording i r)" using at by simp
  have "ps_finalized (states ! j) \<or> (\<exists>x\<in>set (sc_workers ?t). j \<in> runs x)" if j: "j \<in> set started" for j
  proof -
    consider "ps_finalized (sc_states s ! j)" | x where "x \<in> set (sc_workers s)" "j \<in> runs x"
      using st j by (auto simp: started_inv_def)
    then show ?thesis
    proof cases
      case 1
      then show ?thesis using rel bound j by (auto simp: recorded_def)
    next
      case (2 x)
      then show ?thesis
        using set_worker_keeps [OF _ at', of x "Counting cnt runnable"] rel by (cases "x = Recording i r") (auto simp: recorded_def)
    qed
  qed
  moreover have "claims x \<subseteq> set started" if "x \<in> set (sc_workers ?t)" for x
    using set_worker_subset [OF that] st by (auto simp: started_inv_def)
  moreover have "j \<in> set started" if j: "j < length (pl_nodes plan)" "succeeded states j" for j
  proof (cases "succeeded (sc_states s) j")
    case True
    then show ?thesis using st j(1) by (simp add: started_inv_def)
  next
    case False
    then have "j = i" "rt_status r = ProbeSucceeded" using rel j by (auto simp: recorded_def succeeded_def)
    then have "j \<in> claims (Recording i r)" by simp
    then show ?thesis using st at_worker_in [OF at] unfolding started_inv_def by blast
  qed
  moreover have "sc_states ?t = states" by simp
  ultimately show ?thesis using st unfolding started_inv_def by simp
qed

lemma claimed: "started_inv plan started s \<Longrightarrow> at_worker s w x \<Longrightarrow> claims x \<subseteq> set started"
  using at_worker_in unfolding started_inv_def by blast

lemma started_inv_step:
  assumes ok: "plan_ok plan" and inv: "sched_inv plan s" and st: "started_inv plan started s"
    and step: "step behaves scope plan s l t"
  shows "started_inv plan (case l of None \<Rightarrow> started | Some i \<Rightarrow> started @ [i]) t"
  using step
proof cases
  case (pop w x q)
  then show ?thesis using started_inv_move [OF st pop(3)] by simp
next
  case (exit w)
  then show ?thesis using started_inv_move [OF st exit(3)] by simp
next
  case (fast_path w i)
  then show ?thesis using started_inv_move [OF st fast_path(3)] by simp
next
  case (check w i)
  then show ?thesis using started_inv_move [OF st check(3)] by simp
next
  case (cancelled w i err)
  then show ?thesis using started_inv_move [OF st cancelled(3)] by simp
next
  case (start w i)
  then show ?thesis using started_inv_start [OF ok inv st start(3)] by simp
next
  case (finish w i obs err dur)
  then show ?thesis using started_inv_move [OF st finish(3)] claimed [OF st finish(3)] by simp
next
  case (already_final w i r)
  then show ?thesis using held_open [OF inv already_final(3), of i] by simp
next
  case (finalize w i r states cnt runnable)
  have rel: "recorded (pl_nodes plan) (sc_states s) i r states cnt runnable"
    by (rule sched_inv_finalize(2) [OF ok inv finalize(3,6)])
  have "set started \<subseteq> {..<length (pl_nodes plan)}"
    using st by (auto simp: started_inv_def start_order_def in_set_conv_nth)
  moreover have "length states = length (pl_nodes plan)" using rel by (simp add: recorded_def state_inv_def)
  ultimately show ?thesis using started_inv_finalize [OF st finalize(3) rel] finalize by simp
next
  case (count w k runnable)
  then show ?thesis using started_inv_move [OF st count(3)] by simp
next
  case (push w d ds)
  then show ?thesis using started_inv_move [OF st push(3), of "queue_push (pn_id (pl_nodes plan ! d)) s"] by (simp add: queue_push_def)
next
  case (signal w)
  then show ?thesis
    using started_inv_move [OF st signal(3), of "signal_completion (length (pl_nodes plan)) s"] by (simp add: signal_completion_def)
next
  case (cancel err)
  then show ?thesis using st by (simp add: started_inv_def)
next
  case close
  then show ?thesis using st by (simp add: started_inv_def queue_close_def)
next
  case join
  then show ?thesis using st by (simp add: started_inv_def)
qed

lemma run_started:
  assumes "plan_ok plan" and "run behaves scope plan mc started s" and "pl_nodes plan \<noteq> []"
  shows "started_inv plan started s"
  using assms(2)
proof induction
  case begin_run
  then show ?case
    using assms(3) by (auto simp: started_inv_def start_order_def initial_sched_def succeeded_def)
next
  case (silent started s t)
  then show ?case using started_inv_step [OF assms(1) run_inv_nonempty [OF assms(1) silent(1) assms(3)]] by fastforce
next
  case (starting started s i t)
  then show ?case using started_inv_step [OF assms(1) run_inv_nonempty [OF assms(1) starting(1) assms(3)]] by fastforce
qed

text \<open>
  C1: in every interleaving, a probe's \<open>Run\<close> is started at most once, and only after the \<open>Run\<close> of
  each of its dependencies was started and that dependency was finalized as succeeded; a probe that
  was started is finalized or still held by a worker.
\<close>

theorem probes_start_once_in_order:
  assumes "plan_ok plan" and "run behaves scope plan mc started s"
  shows "start_order (pl_nodes plan) started \<and>
     (\<forall>i\<in>set started. ps_finalized (sc_states s ! i) \<or> (\<exists>x\<in>set (sc_workers s). i \<in> runs x)) \<and>
     (\<forall>l t i. step behaves scope plan s l t \<longrightarrow> l = Some i \<longrightarrow>
        i \<notin> set started \<and> (\<forall>d\<in>set (pn_dependencies (pl_nodes plan ! i)). succeeded (sc_states s) d))"
proof (cases "pl_nodes plan = []")
  case True
  then have "started = []" "sc_workers s = []" using run_inv [OF assms] by simp_all
  moreover have "\<not> step behaves scope plan s (Some i) t" for i t
    using \<open>sc_workers s = []\<close> by (auto elim: step.cases simp: at_worker_def)
  ultimately show ?thesis by (auto simp: start_order_def)
next
  case False
  note inv = run_inv_nonempty [OF assms False] and st = run_started [OF assms False]
  have "i \<notin> set started \<and> (\<forall>d\<in>set (pn_dependencies (pl_nodes plan ! i)). succeeded (sc_states s) d)"
    if "step behaves scope plan s (Some i) t" for i t
    using that
  proof cases
    case (start w)
    have "ready (sc_states s) i" by (rule token_ready [OF inv at_worker_in [OF start(2)]]) simp
    moreover have "i \<notin> set started"
      using started_inv_start [OF assms(1) inv st start(2)] by (simp add: started_inv_def start_order_def)
    ultimately show ?thesis using ready_succeeded [OF sched_invD(1) [OF inv]] by blast
  qed
  then show ?thesis using st unfolding started_inv_def by blast
qed


section \<open>No deadlock\<close>

lemma step_workers: "step behaves scope plan s l t \<Longrightarrow> length (sc_workers t) = length (sc_workers s)"
  by (erule step.cases) (auto simp: set_worker_def queue_push_def queue_close_def signal_completion_def)

lemma run_workers:
  "run behaves scope plan mc started s \<Longrightarrow> length (sc_workers s) = nat (min mc (int (length (pl_nodes plan))))"
  by (induction rule: run.induct) (auto simp: step_workers initial_sched_def)

text \<open>A worker that holds a token or owes an increment can always go on.\<close>

lemma busy_worker_steps:
  assumes ok: "plan_ok plan" and inv: "sched_inv plan s" and x: "x \<in> set (sc_workers s)" "x \<noteq> Idle" "x \<noteq> Exited"
    and total: "\<And>i. \<exists>out. behaves i out"
  shows "\<exists>l t. step behaves scope plan s l t \<and> sc_ctx t = sc_ctx s"
proof -
  obtain w where at: "at_worker s w x" using in_at_worker [OF x(1)] by blast
  show ?thesis
  proof (cases x)
    case (Popped i)
    have "ready (sc_states s) i" by (rule token_ready [OF inv x(1)]) (simp add: Popped)
    then show ?thesis using step.check [of s w i behaves scope plan] at Popped by (fastforce simp: ready_def)
  next
    case (Checked i)
    show ?thesis
    proof (cases "sc_ctx s")
      case None
      then show ?thesis using step.start [of s w i behaves scope plan] at Checked by fastforce
    next
      case (Some err)
      then show ?thesis using step.cancelled [of s w i err behaves scope plan] at Checked by fastforce
    qed
  next
    case (Running i)
    obtain obs err where "behaves i (obs, err)" using total [of i] by auto
    then show ?thesis using step.finish [of s w i behaves obs err scope plan] at Running by fastforce
  next
    case (Recording i r)
    have rdy: "ready (sc_states s) i" by (rule token_ready [OF inv x(1)]) (simp add: Recording)
    have links: "plan_links (pl_nodes plan)" using ok by (simp add: plan_ok_def)
    have r: "rt_status r \<noteq> ProbeSkipped" "rt_probe_id r = pn_id (pl_nodes plan ! i)"
      using sched_invD(7) [OF inv x(1)] by (simp_all add: Recording)
    obtain states k runnable where "record_final (pl_nodes plan) (sc_states s) i r = Some (states, k, runnable)"
      using record_success [OF links sched_invD(1) [OF inv] rdy _ r(2)] record_failure [OF links sched_invD(1) [OF inv] rdy _ r]
      by (cases "rt_status r = ProbeSucceeded") auto
    then show ?thesis
      using step.finalize [of s w i r plan states k runnable behaves scope] at Recording rdy by (fastforce simp: ready_def)
  next
    case (Counting k ds)
    show ?thesis
    proof (cases k)
      case (Suc m)
      then show ?thesis using step.count [of s w m ds behaves scope plan] at Counting by fastforce
    next
      case 0
      show ?thesis
      proof (cases ds)
        case Nil
        then show ?thesis using step.signal [of s w behaves scope plan] at Counting 0 by (fastforce simp: signal_completion_def)
      next
        case (Cons d ds')
        then show ?thesis using step.push [of s w d ds' behaves scope plan] at Counting 0 by (fastforce simp: queue_push_def)
      qed
    qed
  qed (use x in simp_all)
qed

text \<open>Without a token no probe is left: the probe of least rank among the open ones would be ready.\<close>

lemma no_token_all_final:
  assumes ok: "plan_ok plan" and si: "state_inv (pl_nodes plan) states" and none: "\<And>i. \<not> ready states i"
  shows "unfinalized states = 0"
proof -
  let ?nodes = "pl_nodes plan"
  obtain rank :: "nat \<Rightarrow> nat" where rank: "\<And>i d. i < length ?nodes \<Longrightarrow> d \<in> set (pn_dependencies (?nodes ! i)) \<Longrightarrow> rank d < rank i"
    using ok by (auto simp: plan_ok_def)
  have links: "plan_links ?nodes" using ok by (simp add: plan_ok_def)
  have fin: "ps_finalized (states ! i)" if "i < length ?nodes" for i
    using that
  proof (induction "rank i" arbitrary: i rule: less_induct)
    case less
    show ?case
    proof (cases "\<exists>d\<in>set (pn_dependencies (?nodes ! i)). broken states d")
      case True
      then show ?thesis using state_invD(6) [OF si less(2)] by blast
    next
      case False
      have "succeeded states d" if d: "d \<in> set (pn_dependencies (?nodes ! i))" for d
      proof -
        have "d < length ?nodes" using plan_linksD(1) [OF links less(2)] d by auto
        then have "ps_finalized (states ! d)" using less(1) rank [OF less(2) d] by blast
        then show ?thesis using False d by (auto simp: broken_def succeeded_def)
      qed
      then have "filter (\<lambda>d. d \<notin> {d. succeeded states d}) (pn_dependencies (?nodes ! i)) = []" by (simp add: filter_empty_conv)
      then have "ps_remaining (states ! i) = 0" using state_invD(2) [OF si less(2)] by simp
      then show ?thesis using none [of i] less(2) state_invD(1) [OF si] by (simp add: ready_def)
    qed
  qed
  then show ?thesis using state_invD(1) [OF si] by (auto simp: unfinalized_def filter_empty_conv in_set_conv_nth)
qed

lemma progress:
  assumes ok: "plan_ok plan" and reach: "run behaves scope plan mc started s" and mc: "1 \<le> mc"
    and total: "\<And>i. \<exists>out. behaves i out" and open_main: "\<And>out. sc_main s \<noteq> Returned out"
  shows "\<exists>l t. step behaves scope plan s l t \<and> sc_ctx t = sc_ctx s"
proof -
  have nonempty: "pl_nodes plan \<noteq> []" using run_inv [OF ok reach] open_main by (cases "pl_nodes plan = []") auto
  note inv = run_inv_nonempty [OF ok reach nonempty]
  show ?thesis
  proof (cases "\<exists>x\<in>set (sc_workers s). x \<noteq> Idle \<and> x \<noteq> Exited")
    case True
    then show ?thesis using busy_worker_steps [OF ok inv] total by blast
  next
    case False
    have workers: "sc_workers s \<noteq> []" using run_workers [OF reach] mc nonempty by (auto simp: nat_eq_iff min_def split: if_splits)
    show ?thesis
    proof (cases "\<forall>x\<in>set (sc_workers s). x = Exited")
      case True
      then have "Exited \<in> set (sc_workers s)" using workers by (cases "sc_workers s") auto
      then have "sc_closed s" using sched_invD(7) [OF inv] by fastforce
      then have "sc_main s = Joining" using sched_invD(5) [OF inv] open_main by (cases "sc_main s") auto
      then show ?thesis using step.join [of s behaves scope plan] True by fastforce
    next
      case False
      then obtain w where at: "at_worker s w Idle"
        using \<open>\<not> (\<exists>x\<in>set (sc_workers s). x \<noteq> Idle \<and> x \<noteq> Exited)\<close> in_at_worker by metis
      show ?thesis
      proof (cases "sc_queue s")
        case (Cons i q)
        then show ?thesis using step.pop [OF at, of i q behaves scope plan] by fastforce
      next
        case Nil
        show ?thesis
        proof (cases "sc_closed s")
          case True
          then show ?thesis using step.exit [OF at Nil, of behaves scope plan] by fastforce
        next
          case False
          have idle: "\<forall>x\<in>set (sc_workers s). worker_tokens x = [] \<and> pending x = 0"
            using \<open>\<not> (\<exists>x\<in>set (sc_workers s). x \<noteq> Idle \<and> x \<noteq> Exited)\<close> by fastforce
          then have zero: "wsum (\<lambda>x. count_list (worker_tokens x) j) s = 0" "wsum pending s = 0" for j
            by (auto simp: wsum_def intro!: sum_list_0 map_idI)
          then have "\<not> ready (sc_states s) j" for j
            using sched_invD(2) [OF inv, of j] Nil by (simp add: tokens_def split: if_splits)
          then have "unfinalized (sc_states s) = 0" by (rule no_token_all_final [OF ok sched_invD(1) [OF inv]])
          then have "sc_all_done s" using sched_invD(3,4) [OF inv] zero(2) by simp
          moreover have "sc_main s = Waiting" using sched_invD(5) [OF inv] False by blast
          ultimately show ?thesis using step.close [of s behaves scope plan] by (fastforce simp: queue_close_def)
        qed
      qed
    qed
  qed
qed


section \<open>Termination\<close>

fun worker_work :: "worker \<Rightarrow> nat" where
  "worker_work Exited = 0"
| "worker_work Idle = 1"
| "worker_work (Counting k ds) = 2 + k + 6 * length ds"
| "worker_work (Recording i r) = 2"
| "worker_work (Running i) = 3"
| "worker_work (Checked i) = 4"
| "worker_work (Popped i) = 5"

fun main_work :: "main_pc \<Rightarrow> nat" where
  "main_work Waiting = 2"
| "main_work Joining = 1"
| "main_work (Returned out) = 0"

definition work :: "execution_plan \<Rightarrow> sched \<Rightarrow> nat" where
  "work plan s = (6 * length (pl_nodes plan) + 1) * unfinalized (sc_states s) + wsum worker_work s +
     5 * length (sc_queue s) + main_work (sc_main s) + (if sc_ctx s = None then 1 else 0)"

lemma token_balance:
  "(if P then 1 else 0) + (if Q then 1 else 0) = (if R then 1 else 0) + (c :: nat) \<Longrightarrow> (Q \<Longrightarrow> R) \<Longrightarrow> c \<le> 1 \<and> (0 < c \<longrightarrow> P)"
  by (auto split: if_splits)

lemma recorded_runnable:
  assumes "recorded nodes states i r states' k runnable" and "ready states i"
  shows "length runnable \<le> length nodes"
proof -
  have le: "count (mset runnable) j \<le> 1" "0 < count (mset runnable) j \<Longrightarrow> ready states' j" for j
  proof -
    have eq: "(if ready states' j then 1 else 0) + (if j = i then 1 else 0) = (if ready states j then 1 else 0) + count (mset runnable) j"
      using assms(1) unfolding recorded_def by blast
    have "ready states j" if "j = i" using assms(2) that by simp
    from token_balance [OF eq this] show "count (mset runnable) j \<le> 1" "0 < count (mset runnable) j \<Longrightarrow> ready states' j"
      by blast+
  qed
  have "distinct runnable" using le(1) by (metis count_mset_0_iff distinct_count_atmost_1 le_less_Suc_eq less_one One_nat_def order.order_iff_strict)
  moreover have "set runnable \<subseteq> {..<length nodes}"
  proof
    fix j assume "j \<in> set runnable"
    then have "0 < count (mset runnable) j" by simp
    then have "ready states' j" by (rule le(2))
    then show "j \<in> {..<length nodes}" using assms(1) by (simp add: recorded_def state_inv_def ready_def)
  qed
  ultimately show ?thesis using card_mono [of "{..<length nodes}" "set runnable"] by (simp add: distinct_card)
qed

lemma work_move:
  assumes "at_worker s w x" and "worker_work y + 5 * length (sc_queue s') < worker_work x + 5 * length (sc_queue s)"
    and "sc_workers s' = sc_workers s" "sc_states s' = sc_states s" "sc_main s' = sc_main s" "sc_ctx s' = sc_ctx s"
  shows "work plan (set_worker s' w y) < work plan s"
proof -
  have "at_worker s' w x" using assms(1,3) by (simp add: at_worker_def)
  then have "wsum worker_work (set_worker s' w y) + worker_work x = wsum worker_work s' + worker_work y" by (rule wsum_set_worker)
  moreover have "wsum worker_work s' = wsum worker_work s" using assms(3) by (simp add: wsum_def)
  ultimately show ?thesis using assms(2,4,5,6) by (simp add: work_def)
qed

lemma step_decreases:
  assumes ok: "plan_ok plan" and inv: "sched_inv plan s" and step: "step behaves scope plan s l t"
  shows "work plan t < work plan s"
  using step
proof cases
  case (pop w x q)
  then show ?thesis using work_move [OF pop(3), of "Popped (pl_indices plan x)" "s\<lparr>sc_queue := q\<rparr>" plan] by simp
next
  case (exit w)
  then show ?thesis using work_move [OF exit(3), of Exited s plan] by simp
next
  case (fast_path w i)
  then show ?thesis using work_move [OF fast_path(3), of Idle s plan] by simp
next
  case (check w i)
  then show ?thesis using work_move [OF check(3), of "Checked i" s plan] by simp
next
  case (cancelled w i err)
  then show ?thesis
    using work_move [OF cancelled(3), of "Recording i (cancelled_result (pn_id (pl_nodes plan ! i)) err)" s plan] by simp
next
  case (start w i)
  then show ?thesis using work_move [OF start(3), of "Running i" s plan] by simp
next
  case (finish w i obs err dur)
  then show ?thesis
    using work_move [OF finish(3), of "Recording i (classify (pn_id (pl_nodes plan ! i)) scope (sc_ctx s) obs err dur)" s plan] by simp
next
  case (already_final w i r)
  then show ?thesis using work_move [OF already_final(3), of Idle s plan] by simp
next
  case (finalize w i r states cnt runnable)
  let ?n = "length (pl_nodes plan)"
  have rel: "recorded (pl_nodes plan) (sc_states s) i r states cnt runnable"
    by (rule sched_inv_finalize(2) [OF ok inv finalize(3,6)])
  have "ready (sc_states s) i" by (rule token_ready [OF inv at_worker_in [OF finalize(3)]]) simp
  then have len: "length runnable \<le> ?n" by (rule recorded_runnable [OF rel])
  have un: "unfinalized (sc_states s) = unfinalized states + cnt + 1" using rel by (simp add: recorded_def)
  have "at_worker (s\<lparr>sc_states := states\<rparr>) w (Recording i r)" using finalize(3) by simp
  from wsum_set_worker [OF this, of worker_work "Counting cnt runnable"]
  have ws: "wsum worker_work t + 2 = wsum worker_work s + (2 + cnt + 6 * length runnable)" using finalize(2) by simp
  have "(6 * ?n + 1) * unfinalized (sc_states s) = (6 * ?n + 1) * unfinalized states + (6 * ?n + 1) * (cnt + 1)"
    unfolding un by (simp add: algebra_simps)
  moreover have "cnt + 6 * length runnable < (6 * ?n + 1) * (cnt + 1)"
    using len by (simp add: algebra_simps)
  ultimately show ?thesis using ws finalize(2) by (simp add: work_def)
next
  case (count w k runnable)
  then show ?thesis
    using work_move [OF count(3), of "Counting k runnable" "s\<lparr>sc_finalized := sc_finalized s + 1\<rparr>" plan] by simp
next
  case (push w d ds)
  then show ?thesis
    using work_move [OF push(3), of "Counting 0 ds" "queue_push (pn_id (pl_nodes plan ! d)) s" plan] by (simp add: queue_push_def)
next
  case (signal w)
  then show ?thesis
    using work_move [OF signal(3), of Idle "signal_completion (length (pl_nodes plan)) s" plan] by (simp add: signal_completion_def)
next
  case (cancel err)
  then show ?thesis by (simp add: work_def)
next
  case close
  then show ?thesis by (simp add: work_def queue_close_def wsum_def)
next
  case join
  then show ?thesis by (simp add: work_def)
qed

lemma initial_work:
  "work plan (initial_sched plan mc) \<le> 6 * length (pl_nodes plan) ^ 2 + 7 * length (pl_nodes plan) + 3"
proof -
  let ?n = "length (pl_nodes plan)"
  have "unfinalized (sc_states (initial_sched plan mc)) = ?n" by (simp add: unfinalized_def initial_sched_def)
  moreover have "wsum worker_work (initial_sched plan mc) \<le> ?n" by (simp add: wsum_def initial_sched_def sum_list_replicate)
  moreover have "length (sc_queue (initial_sched plan mc)) \<le> ?n" by (simp add: initial_sched_def)
  moreover have "main_work (sc_main (initial_sched plan mc)) \<le> 2" by (simp add: initial_sched_def)
  ultimately have "work plan (initial_sched plan mc) \<le> (6 * ?n + 1) * ?n + ?n + 5 * ?n + 3" by (simp add: work_def)
  then show ?thesis by (simp add: power2_eq_square algebra_simps)
qed

lemma run_step: "run behaves scope plan mc started s \<Longrightarrow> step behaves scope plan s l t \<Longrightarrow> \<exists>started'. run behaves scope plan mc started' t"
  by (cases l) (auto intro: run.intros)

lemma empty_plan_work:
  "pl_nodes plan = [] \<Longrightarrow> sc_workers s = [] \<Longrightarrow> sc_main s = Returned [] \<Longrightarrow> step behaves scope plan s l t \<Longrightarrow> work plan t < work plan s"
  by (erule step.cases) (auto simp: at_worker_def work_def)

lemma run_decreases:
  assumes "plan_ok plan" and "run behaves scope plan mc started s" and "step behaves scope plan s l t"
  shows "work plan t < work plan s"
proof (cases "pl_nodes plan = []")
  case True
  then show ?thesis using run_inv [OF assms(1,2)] empty_plan_work [OF True _ _ assms(3)] by simp
next
  case False
  then show ?thesis using step_decreases [OF assms(1) run_inv_nonempty [OF assms(1,2)] assms(3)] by simp
qed

text \<open>
  C5: every execution of \<open>Run\<close> is finite, whatever the interleaving, the probes' outcomes and the
  moment of cancellation: a plan with \<open>n\<close> probes takes at most \<open>6 n^2 + 7 n + 3\<close> steps.
\<close>

theorem run_terminates:
  assumes "plan_ok plan" and "f 0 = initial_sched plan max_concurrency"
    and "\<forall>k<m. \<exists>l. step behaves scope plan (f k) l (f (Suc k))"
  shows "m \<le> 6 * length (pl_nodes plan) ^ 2 + 7 * length (pl_nodes plan) + 3"
proof -
  have "(\<exists>started. run behaves scope plan max_concurrency started (f k)) \<and>
      work plan (f k) + k \<le> work plan (initial_sched plan max_concurrency)" if "k \<le> m" for k
    using that
  proof (induction k)
    case 0
    show ?case unfolding assms(2) using run.begin_run [of behaves scope plan max_concurrency] by auto
  next
    case (Suc k)
    then have "k < m" by simp
    with Suc obtain started l where r: "run behaves scope plan max_concurrency started (f k)"
      and st: "step behaves scope plan (f k) l (f (Suc k))" using assms(3) by fastforce
    show ?case using run_decreases [OF assms(1) r st] run_step [OF r st] Suc by auto
  qed
  from this [of m] show ?thesis using initial_work [of plan max_concurrency] by simp
qed

text \<open>
  C4: from every state that \<open>Run\<close> reaches, its goroutines can go on, without any further
  cancellation, until \<open>Run\<close> returns; with the finiteness of executions, no interleaving deadlocks.
  The hypotheses are that at least one worker is allowed, and that every call of a probe's \<open>Run\<close>
  returns something.
\<close>

theorem run_returns:
  assumes "plan_ok plan" and "run behaves scope plan max_concurrency started s" and "1 \<le> max_concurrency"
    and "\<forall>i. \<exists>outcome. behaves i outcome"
  shows "\<exists>t out. (\<lambda>s t. \<exists>l. step behaves scope plan s l t \<and> sc_ctx t = sc_ctx s)\<^sup>*\<^sup>* s t \<and> sc_main t = Returned out"
  using assms(2)
proof (induction "work plan s" arbitrary: started s rule: less_induct)
  case less
  show ?case
  proof (cases "\<exists>out. sc_main s = Returned out")
    case True
    then show ?thesis by blast
  next
    case False
    then obtain l t where t: "step behaves scope plan s l t" "sc_ctx t = sc_ctx s"
      using progress [OF assms(1) less(2) assms(3), of] assms(4) by blast
    then obtain started' where "run behaves scope plan max_concurrency started' t" using run_step [OF less(2)] by blast
    with less(1) [OF run_decreases [OF assms(1) less(2) t(1)]] t show ?thesis
      by (blast intro: converse_rtranclp_into_rtranclp)
  qed
qed


section \<open>The order of execution does not matter\<close>

definition timeless :: "probe_result \<Rightarrow> probe_result" where
  "timeless r = r\<lparr>rt_duration := 0\<rparr>"

text \<open>What a probe reports when it is run and nothing is cancelled.\<close>

definition own_result :: "(nat \<Rightarrow> observation \<times> go_error option) \<Rightarrow> scope \<Rightarrow> execution_plan \<Rightarrow> nat \<Rightarrow> probe_result" where
  "own_result outcome scope plan i = classify (pn_id (pl_nodes plan ! i)) scope None (fst (outcome i)) (snd (outcome i)) 0"

fun worker_result_ok :: "(nat \<Rightarrow> probe_result) \<Rightarrow> worker \<Rightarrow> bool" where
  "worker_result_ok own (Recording i r) = (timeless r = own i)"
| "worker_result_ok own _ = True"

definition results_inv :: "(nat \<Rightarrow> probe_result) \<Rightarrow> execution_plan \<Rightarrow> sched \<Rightarrow> bool" where
  "results_inv own plan s \<longleftrightarrow>
     (\<forall>x\<in>set (sc_workers s). worker_result_ok own x) \<and>
     (\<forall>i<length (pl_nodes plan). ps_finalized (sc_states s ! i) \<longrightarrow>
        timeless (ps_result (sc_states s ! i)) = own i \<or>
        ps_result (sc_states s ! i) = skipped_result (pn_id (pl_nodes plan ! i)))"

lemma timeless_simps [simp]:
  "timeless (classify i s ctx obs err dur) = classify i s ctx obs err 0" "rt_status (timeless r) = rt_status r"
  "timeless (skipped_result i) = skipped_result i"
  by (auto simp: timeless_def classify_def skipped_result_def Let_def split: prod.splits)

lemma results_inv_move:
  assumes "results_inv own plan s" and "sc_workers s' = sc_workers s" "sc_states s' = sc_states s" and "worker_result_ok own y"
  shows "results_inv own plan (set_worker s' w y)"
  using assms set_worker_subset [of _ s' w y] by (auto simp: results_inv_def)

lemma results_inv_step:
  assumes ok: "plan_ok plan" and inv: "sched_inv plan s" and res: "results_inv own plan s"
    and step: "step behaves scope plan s l t" and calm: "sc_ctx t = None"
    and det: "\<And>i out. behaves i out \<Longrightarrow> out = outcome i" and own: "own = own_result outcome scope plan"
  shows "results_inv own plan t \<and> sc_ctx s = None"
  using step
proof cases
  case (pop w x q)
  then show ?thesis using results_inv_move [OF res, of "s\<lparr>sc_queue := q\<rparr>"] calm by simp
next
  case (exit w)
  then show ?thesis using results_inv_move [OF res refl refl] calm by simp
next
  case (fast_path w i)
  then show ?thesis using results_inv_move [OF res refl refl] calm by simp
next
  case (check w i)
  then show ?thesis using results_inv_move [OF res refl refl] calm by simp
next
  case (cancelled w i err)
  then show ?thesis using calm by simp
next
  case (start w i)
  then show ?thesis using results_inv_move [OF res refl refl] calm by simp
next
  case (finish w i obs err dur)
  have "outcome i = (obs, err)" using det [OF finish(4)] by simp
  then show ?thesis using results_inv_move [OF res refl refl] calm finish by (simp add: own own_result_def)
next
  case (already_final w i r)
  then show ?thesis using results_inv_move [OF res refl refl] calm by simp
next
  case (finalize w i r states cnt runnable)
  have rel: "recorded (pl_nodes plan) (sc_states s) i r states cnt runnable"
    by (rule sched_inv_finalize(2) [OF ok inv finalize(3,6)])
  have r: "timeless r = own i" using res at_worker_in [OF finalize(3)] by (auto simp: results_inv_def)
  have "timeless (ps_result (states ! j)) = own j \<or> ps_result (states ! j) = skipped_result (pn_id (pl_nodes plan ! j))"
    if j: "j < length (pl_nodes plan)" "ps_finalized (states ! j)" for j
  proof -
    consider "ps_finalized (sc_states s ! j)" | "j = i" | "ps_result (states ! j) = skipped_result (pn_id (pl_nodes plan ! j))"
      using rel j unfolding recorded_def by blast
    then show ?thesis
    proof cases
      case 1
      then have "ps_result (states ! j) = ps_result (sc_states s ! j)" using rel j(1) unfolding recorded_def by blast
      then show ?thesis using res j(1) 1 unfolding results_inv_def by metis
    next
      case 2
      then show ?thesis using rel r by (simp add: recorded_def)
    qed simp
  qed
  moreover have "\<forall>x\<in>set (sc_workers t). worker_result_ok own x"
  proof
    fix x assume "x \<in> set (sc_workers t)"
    then have "x \<in> set (sc_workers s) \<or> x = Counting cnt runnable"
      using set_worker_subset [of x "s\<lparr>sc_states := states\<rparr>"] finalize(2) by simp
    then show "worker_result_ok own x" using res by (auto simp: results_inv_def)
  qed
  ultimately show ?thesis using calm finalize(2) by (simp add: results_inv_def)
next
  case (count w k runnable)
  then show ?thesis using results_inv_move [OF res, of "s\<lparr>sc_finalized := sc_finalized s + 1\<rparr>"] calm by simp
next
  case (push w d ds)
  then show ?thesis
    using results_inv_move [OF res, of "queue_push (pn_id (pl_nodes plan ! d)) s"] calm by (simp add: queue_push_def split: if_splits)
next
  case (signal w)
  then show ?thesis
    using results_inv_move [OF res, of "signal_completion (length (pl_nodes plan)) s"] calm by (simp add: signal_completion_def)
next
  case (cancel err)
  then show ?thesis using calm by simp
next
  case close
  then show ?thesis using res calm by (simp add: results_inv_def queue_close_def)
next
  case join
  then show ?thesis using res calm by (simp add: results_inv_def)
qed

lemma results_inv_run:
  assumes ok: "plan_ok plan" and nonempty: "pl_nodes plan \<noteq> []" and "run behaves scope plan mc started s" and "sc_ctx s = None"
    and det: "\<And>i out. behaves i out \<Longrightarrow> out = outcome i"
  shows "results_inv (own_result outcome scope plan) plan s"
  using assms(3,4)
proof induction
  case begin_run
  then show ?case by (simp add: results_inv_def initial_sched_def)
next
  case (silent started s t)
  have "sc_ctx s = None" using silent(2,4) by (cases rule: step.cases) (auto simp: queue_push_def queue_close_def signal_completion_def split: if_splits)
  then show ?case
    using results_inv_step [OF ok run_inv_nonempty [OF ok silent(1) nonempty] silent(3) silent(2) silent(4) det refl] by blast
next
  case (starting started s i t)
  have "sc_ctx s = None" using starting(2,4) by (cases rule: step.cases) auto
  then show ?case
    using results_inv_step [OF ok run_inv_nonempty [OF ok starting(1) nonempty] starting(3) starting(2) starting(4) det refl] by blast
qed

lemma own_result_status: "rt_status (own_result outcome scope plan i) \<noteq> ProbeSkipped"
  by (simp add: own_result_def classify_result)

lemma reported_result:
  assumes ok: "plan_ok plan" and reach: "run behaves scope plan mc started s" and ret: "sc_main s = Returned out"
    and calm: "sc_ctx s = None" and det: "\<forall>i out. behaves i out \<longrightarrow> out = outcome i" and i: "i < length (pl_nodes plan)"
  shows "timeless (out ! i) =
     (if \<exists>d\<in>set (pn_dependencies (pl_nodes plan ! i)). rt_status (out ! d) \<noteq> ProbeSucceeded
      then skipped_result (pn_id (pl_nodes plan ! i)) else own_result outcome scope plan i)"
proof -
  have nonempty: "pl_nodes plan \<noteq> []" using i by auto
  note inv = run_inv_nonempty [OF ok reach nonempty]
  note R = returned_all_final [OF inv ret]
  have out: "out ! i = ps_result (sc_states s ! i)" using R(1) i by simp
  have alt: "timeless (out ! i) = own_result outcome scope plan i \<or> out ! i = skipped_result (pn_id (pl_nodes plan ! i))"
    using results_inv_run [OF ok nonempty reach calm, of outcome] det R(2) [OF i] i out by (simp add: results_inv_def)
  have skip: "rt_status (out ! i) = ProbeSkipped \<longleftrightarrow>
      (\<exists>d\<in>set (pn_dependencies (pl_nodes plan ! i)). rt_status (out ! d) \<noteq> ProbeSucceeded)"
    using run_reports_each [OF ok reach ret] i by blast
  have "rt_status (skipped_result (pn_id (pl_nodes plan ! i))) = ProbeSkipped" by (simp add: skipped_result_def)
  then show ?thesis
    using alt skip own_result_status [of outcome scope plan i] timeless_simps(2) [of "out ! i"] timeless_simps(3) by metis
qed

text \<open>
  C3: without cancellation the report does not depend on the schedule: two executions of the same
  plan, with any two concurrency limits and any two interleavings, report the same results up to the
  measured durations, when each probe's \<open>Run\<close> answers the same in both.
\<close>

theorem schedule_independent:
  assumes "plan_ok plan" and "\<forall>i out. behaves i out \<longrightarrow> out = outcome i"
    and "run behaves scope plan mc1 started1 s1" "sc_main s1 = Returned out1" "sc_ctx s1 = None"
    and "run behaves scope plan mc2 started2 s2" "sc_main s2 = Returned out2" "sc_ctx s2 = None"
  shows "map timeless out1 = map timeless out2"
proof -
  let ?nodes = "pl_nodes plan"
  obtain rank :: "nat \<Rightarrow> nat" where rank: "\<And>i d. i < length ?nodes \<Longrightarrow> d \<in> set (pn_dependencies (?nodes ! i)) \<Longrightarrow> rank d < rank i"
    using assms(1) by (auto simp: plan_ok_def)
  have links: "plan_links ?nodes" using assms(1) by (simp add: plan_ok_def)
  note r1 = reported_result [where outcome = outcome, OF assms(1,3,4,5,2)]
    and r2 = reported_result [where outcome = outcome, OF assms(1,6,7,8,2)]
  have same: "timeless (out1 ! i) = timeless (out2 ! i)" if "i < length ?nodes" for i
    using that
  proof (induction "rank i" arbitrary: i rule: less_induct)
    case less
    have "rt_status (out1 ! d) = rt_status (out2 ! d)" if d: "d \<in> set (pn_dependencies (?nodes ! i))" for d
    proof -
      have "d < length ?nodes" using plan_linksD(1) [OF links less(2)] d by auto
      then show ?thesis using less(1) [OF rank [OF less(2) d]] timeless_simps(2) by metis
    qed
    then show ?case unfolding r1 [OF less(2)] r2 [OF less(2)] by (simp cong: bex_cong)
  qed
  have "length out1 = length ?nodes" "length out2 = length ?nodes"
    using run_reports_each [OF assms(1,3,4)] run_reports_each [OF assms(1,6,7)] by blast+
  then show ?thesis using same by (simp add: list_eq_iff_nth_eq)
qed


section \<open>Construction\<close>

lemma reachable_compiled:
  "registry_reachable r \<Longrightarrow> rg_resolved r \<Longrightarrow> rg_error r = None \<Longrightarrow> \<exists>plan. rg_compiled r = Some plan \<and> plan_ok plan"
proof (induction rule: registry_reachable.induct)
  case created
  then show ?case by (simp add: new_probe_registry_def)
next
  case (registered r p)
  show ?case
  proof (cases rule: register_cases [of p r])
    case 1
    with registered show ?thesis by simp
  next
    case (2 q)
    with registered show ?thesis by simp
  qed
next
  case (resolved r)
  show ?case
  proof (cases "rg_resolved r")
    case True
    then have "fst (registry_resolve r) = r" by (simp add: registry_resolve_def)
    with resolved True show ?thesis by simp
  next
    case False
    show ?thesis
      using reachable_inv [OF resolved(1)] False
    proof (cases rule: registry_resolve_success)
      case (accepted plan compiled)
      then show ?thesis by simp
    next
      case (rejected err)
      then show ?thesis using resolved.prems by simp
    qed
  qed
qed

lemma options_applied:
  "fold_res with_max_concurrency options orch =
     (if \<exists>n\<in>set options. n < 1 then Inl (Errf ''maxConcurrency must be >= 1'' [])
      else Inr (orch\<lparr>or_max_concurrency := last (or_max_concurrency orch # options)\<rparr>))"
  by (induction options arbitrary: orch) (auto simp: with_max_concurrency_def)

lemma resolve_error: "rg_resolved (fst (registry_resolve r)) \<and> rg_error (fst (registry_resolve r)) = snd (registry_resolve r)"
  if "registry_reachable r"
proof (cases "rg_resolved r")
  case True
  then show ?thesis by (simp add: registry_resolve_def)
next
  case False
  show ?thesis
    using reachable_inv [OF that] False
  proof (cases rule: registry_resolve_success)
    case (accepted plan compiled)
    then show ?thesis using reachable_inv [OF that] False by (simp add: registry_inv_def)
  next
    case (rejected err)
    then show ?thesis by simp
  qed
qed

lemma new_orchestrator_result:
  assumes "registry_reachable r"
  shows "new_orchestrator cpus (Some r) options =
    (if \<exists>n\<in>set options. n < 1 then (Some r, Inl (Errf ''maxConcurrency must be >= 1'' []))
     else (Some (fst (registry_resolve r)),
       case snd (registry_resolve r) of Some err \<Rightarrow> Inl err
       | None \<Rightarrow> Inr \<lparr>or_plan = rg_compiled (fst (registry_resolve r)),
           or_max_concurrency = last (default_concurrency cpus # options)\<rparr>))"
  using resolve_error [OF assms]
  by (auto simp: new_orchestrator_def options_applied execution_def split: option.splits prod.splits)

lemma default_concurrency_bounds: "1 \<le> default_concurrency cpus" "default_concurrency cpus \<le> 8"
  by (simp_all add: default_concurrency_def defaultConcurrencyCap_def)

text \<open>\<open>NewOrchestrator\<close> on a registry built by the package fails exactly when an option asks for
  fewer than one worker or \<open>Resolve\<close> fails; otherwise the plan it holds is well linked, indexed and
  without cycles, and the number of workers is at least one: the last option given, or the default,
  which is between 1 and 8 whatever the number of processors.
\<close>

lemma new_orchestrator_spec:
  assumes "registry_reachable r"
  shows "(case snd (new_orchestrator cpus (Some r) options) of
      Inl err \<Rightarrow> (\<exists>n\<in>set options. n < 1) \<or> snd (registry_resolve r) = Some err
    | Inr orch \<Rightarrow> (\<exists>plan. or_plan orch = Some plan \<and> plan_ok plan) \<and> snd (registry_resolve r) = None \<and>
        (\<forall>n\<in>set options. 1 \<le> n) \<and> 1 \<le> or_max_concurrency orch \<and>
        (options \<noteq> [] \<longrightarrow> or_max_concurrency orch = last options) \<and>
        (options = [] \<longrightarrow> or_max_concurrency orch = max 1 (min cpus 8)))"
proof (cases "\<exists>n\<in>set options. n < 1")
  case True
  then show ?thesis by (simp add: new_orchestrator_result [OF assms])
next
  case False
  show ?thesis
  proof (cases "snd (registry_resolve r)")
    case None
    obtain plan where plan: "rg_compiled (fst (registry_resolve r)) = Some plan" "plan_ok plan"
      using reachable_compiled [OF registry_reachable.resolved [OF assms]] resolve_error [OF assms] None by auto
    have "1 \<le> last (default_concurrency cpus # options)"
      using False last_in_set [of options] default_concurrency_bounds(1) [of cpus] by (auto simp: not_less)
    with False None plan show ?thesis
      by (auto simp: new_orchestrator_result [OF assms] default_concurrency_def defaultConcurrencyCap_def not_less)
  next
    case (Some err)
    with False show ?thesis by (simp add: new_orchestrator_result [OF assms])
  qed
qed

lemma new_orchestrator_spec_witness:
  "\<exists>orch. snd (new_orchestrator 64 (Some example_probes) []) = Inr orch \<and> or_max_concurrency orch = 8"
  using new_orchestrator_spec [where cpus = 64 and options = "[]", OF example_probes_reachable(1)] example_probes_resolve
  by (auto split: sum.splits)

section \<open>A run of two probes\<close>

definition example_plan :: execution_plan where
  "example_plan = \<lparr>pl_nodes =
      [\<lparr>pn_id = ''cli'', pn_probe = None, pn_dependencies = [], pn_downstream = [1]\<rparr>,
       \<lparr>pn_id = ''info'', pn_probe = None, pn_dependencies = [0], pn_downstream = []\<rparr>],
     pl_indices = (\<lambda>i. if i = ''info'' then 1 else 0)\<rparr>"

lemma less_2: "(i :: nat) < Suc (Suc 0) \<longleftrightarrow> i = 0 \<or> i = 1"
  by auto

lemma example_plan_ok: "plan_ok example_plan"
  unfolding plan_ok_def plan_links_def example_plan_def
  by (auto simp: less_2 intro!: exI [of _ "\<lambda>i. i"])

definition empty_observation :: observation where
  "empty_observation = \<lparr>ob_storage_paths = None, ob_configuration = None, ob_quadlet = None, ob_executable = None,
     ob_user_context = None, ob_subids = None, ob_authority = [], ob_identity = None, ob_host = None,
     ob_podman_helper = None, ob_id = [], ob_probe_id = [], ob_timestamp = 0, ob_summary = [],
     ob_scope = empty_scope, ob_completeness = Unobserved, ob_facts = [], ob_diagnostics = [],
     ob_podman = None, ob_discovery = None, ob_version = None\<rparr>"

definition broken_outcome :: "nat \<Rightarrow> observation \<times> go_error option" where
  "broken_outcome i = (empty_observation, if i = 0 then Some (Err ''unavailable'') else None)"


definition example_run_scope :: scope where
  "example_run_scope = \<lparr>run_id = ''run-1'', context_id = ''context-1'', sc_runtime = ''podman'', sc_endpoint = ''unix''\<rparr>"

definition broken_runs :: behaviour where
  "broken_runs i out \<longleftrightarrow> out = broken_outcome i"

text \<open>An execution of the example that returns and was not cancelled exists.\<close>

lemma returns:
  assumes "plan_ok plan" and "run behaves scope plan max_concurrency started s" and "1 \<le> max_concurrency"
    and "\<forall>i. \<exists>outcome. behaves i outcome"
  shows "\<exists>started' t out. run behaves scope plan max_concurrency started' t \<and> sc_main t = Returned out \<and> sc_ctx t = sc_ctx s"
  using assms(2)
proof (induction "work plan s" arbitrary: started s rule: less_induct)
  case less
  show ?case
  proof (cases "\<exists>out. sc_main s = Returned out")
    case True
    then show ?thesis using less(2) by blast
  next
    case False
    then obtain l t where t: "step behaves scope plan s l t" "sc_ctx t = sc_ctx s"
      using progress [OF assms(1) less(2) assms(3)] assms(4) by blast
    then obtain started' where "run behaves scope plan max_concurrency started' t" using run_step [OF less(2)] by blast
    with less(1) [OF run_decreases [OF assms(1) less(2) t(1)] this] t(2) show ?thesis by simp
  qed
qed

lemma example_returns:
  obtains started s out where "run broken_runs empty_scope example_plan 2 started s" and "sc_main s = Returned out" and "sc_ctx s = None"
  using returns [OF example_plan_ok run.begin_run, of 2 broken_runs empty_scope]
  by (auto simp: broken_runs_def initial_sched_def)

lemma broken_deterministic: "\<forall>i out. broken_runs i out \<longrightarrow> out = broken_outcome i"
  by (simp add: broken_runs_def)

text \<open>The first probe fails, so the second is skipped.\<close>

theorem run_reports_witness:
  "\<exists>started s out. run broken_runs empty_scope example_plan 2 started s \<and> sc_main s = Returned out \<and>
     length out = 2 \<and> rt_status (out ! 0) = ProbeFailed \<and> rt_status (out ! 1) = ProbeSkipped"
proof -
  obtain started s out where r: "run broken_runs empty_scope example_plan 2 started s" "sc_main s = Returned out" "sc_ctx s = None"
    by (rule example_returns)
  note all = run_reports [OF example_plan_ok r(1,2)]
  have "timeless (out ! 0) = own_result broken_outcome empty_scope example_plan 0"
    using reported_result [OF example_plan_ok r broken_deterministic, of 0] by (simp add: example_plan_def)
  then have "rt_status (out ! 0) = rt_status (own_result broken_outcome empty_scope example_plan 0)"
    using timeless_simps(2) by metis
  also have "\<dots> = ProbeFailed" by (simp add: own_result_def classify_def broken_outcome_def retain_observation_def empty_observation_def Let_def)
  finally have "rt_status (out ! 0) = ProbeFailed" .
  moreover have "length out = 2 \<and> (rt_status (out ! 0) \<noteq> ProbeSucceeded \<longrightarrow> rt_status (out ! 1) = ProbeSkipped)"
    using all by (simp add: example_plan_def less_2)
  ultimately show ?thesis using r(1,2) by auto
qed

theorem probes_start_once_in_order_witness:
  "\<exists>started s. run broken_runs empty_scope example_plan 2 started s \<and> start_order (pl_nodes example_plan) started \<and> sc_main s \<noteq> Waiting"
proof -
  obtain started s out where r: "run broken_runs empty_scope example_plan 2 started s" "sc_main s = Returned out" "sc_ctx s = None"
    by (rule example_returns)
  have "sc_main s \<noteq> Waiting" using r(2) by simp
  then show ?thesis using probes_start_once_in_order [OF example_plan_ok r(1)] r(1) by blast
qed

theorem run_terminates_witness:
  "\<not> (\<exists>f. f 0 = initial_sched example_plan 2 \<and> (\<forall>k<42. \<exists>l. step broken_runs empty_scope example_plan (f k) l (f (Suc k))))"
proof
  have len: "length (pl_nodes example_plan) = 2" by (simp add: example_plan_def)
  assume "\<exists>f. f 0 = initial_sched example_plan 2 \<and> (\<forall>k<42. \<exists>l. step broken_runs empty_scope example_plan (f k) l (f (Suc k)))"
  then obtain f where f: "f 0 = initial_sched example_plan 2" "\<forall>k<42. \<exists>l. step broken_runs empty_scope example_plan (f k) l (f (Suc k))"
    by blast
  from run_terminates [OF example_plan_ok f] show False by (simp add: len)
qed

theorem run_returns_witness:
  "\<exists>t out. (\<lambda>s t. \<exists>l. step broken_runs empty_scope example_plan s l t \<and> sc_ctx t = sc_ctx s)\<^sup>*\<^sup>* (initial_sched example_plan 2) t \<and>
     sc_main t = Returned out"
  by (rule run_returns [OF example_plan_ok run.begin_run]) (auto simp: broken_runs_def)

theorem schedule_independent_witness:
  "\<exists>started1 s1 out1 started2 s2 out2. run broken_runs empty_scope example_plan 2 started1 s1 \<and> sc_main s1 = Returned out1 \<and>
     run broken_runs empty_scope example_plan 1 started2 s2 \<and> sc_main s2 = Returned out2 \<and>
     map timeless out1 = map timeless out2"
proof -
  obtain started1 s1 out1 where r1: "run broken_runs empty_scope example_plan 2 started1 s1" "sc_main s1 = Returned out1" "sc_ctx s1 = None"
    by (rule example_returns)
  obtain started2 s2 out2 where r2: "run broken_runs empty_scope example_plan 1 started2 s2" "sc_main s2 = Returned out2" "sc_ctx s2 = None"
    using returns [OF example_plan_ok run.begin_run, of 1 broken_runs empty_scope]
    by (auto simp: broken_runs_def initial_sched_def example_plan_def)
  show ?thesis using schedule_independent [OF example_plan_ok broken_deterministic r1 r2] r1 r2 by blast
qed

section \<open>The scope of an observation\<close>

text \<open>
  \<open>retainObservation\<close> fills in the missing scopes and nothing else: it accepts exactly the
  observations whose scope and facts' scopes are missing or the run's; then every scope is the run's;
  all facts are kept, in order, with their other fields; and retaining again changes nothing.
\<close>

lemma retain_observation_spec:
  "(let (obs', err) = retain_observation obs s in
     (err = None \<longleftrightarrow> ob_scope obs \<in> {empty_scope, s} \<and> (\<forall>f\<in>set (ob_facts obs). f_scope f \<in> {empty_scope, s})) \<and>
     (err = None \<longrightarrow> ob_scope obs' = s \<and> (\<forall>f\<in>set (ob_facts obs'). f_scope f = s)) \<and>
     map (\<lambda>f. f\<lparr>f_scope := s\<rparr>) (ob_facts obs') = map (\<lambda>f. f\<lparr>f_scope := s\<rparr>) (ob_facts obs) \<and>
     obs'\<lparr>ob_scope := s, ob_facts := []\<rparr> = obs\<lparr>ob_scope := s, ob_facts := []\<rparr> \<and>
     retain_observation obs' s = (obs', err))"
  by (auto simp: retain_observation_def Let_def)

lemma retain_observation_spec_witness:
  "snd (retain_observation empty_observation example_run_scope) = None"
  using retain_observation_spec [of empty_observation example_run_scope]
  by (simp add: empty_observation_def Let_def split: prod.splits)

end
