(* ===== verification/Evidence_Graph.thy ===== *)
theory Evidence_Graph
  imports Kahn Model_Observation
begin

text \<open>
  The evidence graph of \<open>internal/capability/graph.go\<close>: \<open>topological\<close> (Kahn's algorithm with
  a ready slice that is kept sorted) and \<open>ValidateDataset\<close> with its helpers. A Go map is an
  association list with one entry per key, in insertion order; \<open>topological\<close> is shown not
  to depend on that order. The loop over the edges in \<open>ValidateDataset\<close> runs in insertion order
  here: Go's order only decides which of several errors is reported.
\<close>

definition MaxGraphEntries :: nat where
  "MaxGraphEntries = 4096"

definition MaxGraphReferences :: nat where
  "MaxGraphReferences = 16384"

section \<open>The dependency order\<close>

definition edges_of :: "(string \<times> string list) list \<Rightarrow> string \<Rightarrow> string list" where
  "edges_of edges i = (case map_of edges i of None \<Rightarrow> [] | Some ds \<Rightarrow> ds)"

type_synonym edge_state = "(string \<Rightarrow> int) \<times> (string \<Rightarrow> string list) \<times> nat"

fun add_deps :: "string set \<Rightarrow> string \<Rightarrow> string set \<Rightarrow> string list \<Rightarrow> edge_state \<Rightarrow> go_error + edge_state" where
  "add_deps keys i seen [] s = Inr s"
| "add_deps keys i seen (dep # deps) (counts, downstream, references) =
     (if dep \<notin> keys \<or> dep \<in> seen then Inl (Errf ''missing or duplicate dependency of %s'' [i])
      else if references + 1 > MaxGraphReferences then Inl (Err ''dependency reference limit exceeded'')
      else add_deps keys i (insert dep seen) deps
             (counts(i := counts i + 1), downstream(dep := downstream dep @ [i]), references + 1))"

text \<open>The ready slice: pop takes the head, new nodes are appended and the slice is sorted.\<close>

fun slice_pop :: "string list \<Rightarrow> (string \<times> string list) option" where
  "slice_pop [] = None"
| "slice_pop (x # xs) = Some (x, xs)"

definition slice_push :: "string list \<Rightarrow> string list \<Rightarrow> string list" where
  "slice_push new ready = sort (ready @ new)"

definition topological :: "(string \<times> string list) list \<Rightarrow> go_error + string list" where
  "topological edges =
     (if length edges > MaxGraphEntries then Inl (Err ''dependency graph size limit exceeded'')
      else
        let ids = sort (map fst edges)
        in case fold_res (\<lambda>i s. add_deps (set (map fst edges)) i {} (edges_of edges i) s) ids (\<lambda>_. 0, \<lambda>_. [], 0) of
             Inl e \<Rightarrow> Inl e
           | Inr (counts, downstream, references) \<Rightarrow>
               (let ready = filter (\<lambda>i. counts i = 0) ids;
                    (_, _, order) = kahn_loop slice_pop slice_push downstream (length ids) (counts, ready, [])
                in if length order \<noteq> length edges then Inl (Err ''cyclic dependency graph'') else Inr order))"

interpretation slice_queue: ready_queue slice_pop slice_push mset sorted
proof unfold_locales
  fix q :: "string list"
  show "slice_pop q = None \<longleftrightarrow> mset q = {#}" by (cases q) auto
next
  fix q :: "string list" and x q'
  assume "sorted q" and "slice_pop q = Some (x, q')"
  then show "mset q = add_mset x (mset q') \<and> sorted q'" by (cases q) auto
qed (auto simp: slice_push_def)

interpretation slice_order: priority_queue slice_pop slice_push mset sorted "\<lambda>i. i"
proof unfold_locales
  fix q :: "string list" and x q' y
  assume "sorted q" and "slice_pop q = Some (x, q')" and "y \<in># mset q"
  then show "x \<le> y" by (cases q) auto
qed

lemma add_deps_Inr:
  "references \<le> MaxGraphReferences \<Longrightarrow>
   add_deps keys i seen deps (counts, downstream, references) = Inr s \<longleftrightarrow>
     distinct deps \<and> set deps \<subseteq> keys \<and> set deps \<inter> seen = {} \<and> references + length deps \<le> MaxGraphReferences \<and>
     s = (counts(i := counts i + int (length deps)),
          \<lambda>d. downstream d @ replicate (count_list deps d) i, references + length deps)"
proof (induction deps arbitrary: seen counts downstream references)
  case Nil
  then show ?case by (auto simp: fun_eq_iff)
next
  case (Cons dep deps)
  have ds: "(\<lambda>d. (downstream(dep := downstream dep @ [i])) d @ replicate (count_list deps d) i) =
      (\<lambda>d. downstream d @ replicate (count_list (dep # deps) d) i)"
    by (auto simp: fun_eq_iff)
  have cs: "(counts(i := counts i + 1))(i := (counts(i := counts i + 1)) i + int (length deps)) =
      counts(i := counts i + int (length (dep # deps)))"
    by (simp add: fun_eq_iff)
  show ?case
  proof (cases "dep \<in> keys \<and> dep \<notin> seen \<and> references + 1 \<le> MaxGraphReferences")
    case False
    then show ?thesis by auto
  next
    case True
    then have "add_deps keys i seen (dep # deps) (counts, downstream, references) = Inr s \<longleftrightarrow>
        add_deps keys i (insert dep seen) deps
          (counts(i := counts i + 1), downstream(dep := downstream dep @ [i]), references + 1) = Inr s" by simp
    also note Cons.IH [of "references + 1" "insert dep seen" "counts(i := counts i + 1)" "downstream(dep := downstream dep @ [i])",
        unfolded cs ds]
    finally show ?thesis using True by auto
  qed
qed

text \<open>What the declaration loop accepts, and the maps it builds.\<close>

definition declared :: "string set \<Rightarrow> (string \<Rightarrow> string list) \<Rightarrow> string \<Rightarrow> bool" where
  "declared keys deps i \<longleftrightarrow> distinct (deps i) \<and> set (deps i) \<subseteq> keys"

lemma declare_ok:
  "references \<le> MaxGraphReferences \<Longrightarrow>
   (\<exists>s. fold_res (\<lambda>i s. add_deps keys i {} (deps i) s) ids (counts, downstream, references) = Inr s) \<longleftrightarrow>
     (\<forall>i\<in>set ids. declared keys deps i) \<and>
     references + (\<Sum>i\<leftarrow>ids. length (deps i)) \<le> MaxGraphReferences"
proof (induction ids arbitrary: counts downstream references)
  case Nil
  then show ?case by simp
next
  case (Cons i ids)
  let ?r = "add_deps keys i {} (deps i) (counts, downstream, references)"
  show ?case
  proof (cases ?r)
    case (Inl e)
    then have "\<not> (declared keys deps i \<and> references + length (deps i) \<le> MaxGraphReferences)"
      using add_deps_Inr [OF Cons.prems, of keys i "{}" "deps i" counts downstream] by (auto simp: declared_def)
    with Inl show ?thesis by auto
  next
    case (Inr s)
    note spec = iffD1 [OF add_deps_Inr [OF Cons.prems] Inr]
    then have decl: "declared keys deps i" "references + length (deps i) \<le> MaxGraphReferences"
      by (auto simp: declared_def)
    obtain c d where "s = (c, d, references + length (deps i))" using spec by blast
    with Inr decl Cons.IH [of "references + length (deps i)" c d] show ?thesis by (simp add: add.assoc)
  qed
qed

lemma declare_maps:
  assumes "fold_res (\<lambda>i s. add_deps keys i {} (deps i) s) ids (\<lambda>_. 0, \<lambda>_. [], 0) = Inr (counts, downstream, references)"
    and "distinct ids"
  shows "\<forall>i\<in>set ids. counts i = int (length (deps i))" and "reverse_edges ids deps downstream"
proof -
  let ?P = "\<lambda>xs (c, d, r). r \<le> MaxGraphReferences \<and> (\<forall>i. c i = (if i \<in> set xs then int (length (deps i)) else 0)) \<and>
      (\<forall>k i. count_list (d k) i = (if i \<in> set xs then count_list (deps i) k else 0))"
  have "?P ids (counts, downstream, references)"
  proof (rule fold_res_inv [OF assms(1)])
    fix ys x zs u v
    assume ids: "ids = ys @ x # zs" and u: "?P ys u" and v: "add_deps keys x {} (deps x) u = Inr v"
    obtain c d r where [simp]: "u = (c, d, r)" by (cases u)
    have "x \<notin> set ys" using ids assms(2) by simp
    moreover from v u have "r + length (deps x) \<le> MaxGraphReferences"
      and "v = (c(x := c x + int (length (deps x))), \<lambda>k. d k @ replicate (count_list (deps x) k) x, r + length (deps x))"
      by (auto simp: add_deps_Inr)
    ultimately show "?P (ys @ [x]) v" using u by (auto simp: count_list_repl)
  qed simp
  then show "\<forall>i\<in>set ids. counts i = int (length (deps i))" and "reverse_edges ids deps downstream"
    by (auto simp: reverse_edges_def)
qed

text \<open>The graphs the declaration loop accepts.\<close>

definition declarable :: "(string \<times> string list) list \<Rightarrow> bool" where
  "declarable edges \<longleftrightarrow>
     length edges \<le> MaxGraphEntries \<and>
     (\<forall>i\<in>set (map fst edges). declared (set (map fst edges)) (edges_of edges) i) \<and>
     (\<Sum>i\<leftarrow>sort (map fst edges). length (edges_of edges i)) \<le> MaxGraphReferences"

lemma topological_run:
  assumes dist: "distinct (map fst edges)" and ok: "declarable edges"
  obtains ord where
    "topological edges = (if length ord \<noteq> length edges then Inl (Err ''cyclic dependency graph'') else Inr ord)"
    and "distinct ord" and "set ord \<subseteq> set (map fst edges)" and "topo_order (edges_of edges) ord"
    and "greedy_from (\<lambda>i. i) (map fst edges) (edges_of edges) {} ord"
    and "length ord = length edges \<longleftrightarrow> acyclic (dep_rel (map fst edges) (edges_of edges))"
proof -
  let ?ids = "sort (map fst edges)" and ?deps = "edges_of edges"
  let ?build = "fold_res (\<lambda>i s. add_deps (set (map fst edges)) i {} (?deps i) s) ?ids (\<lambda>_. 0, \<lambda>_. [], 0)"
  have ids: "distinct ?ids" using dist by simp
  obtain counts downstream references where b: "?build = Inr (counts, downstream, references)"
    using ok declare_ok [of 0 "set (map fst edges)" ?deps ?ids "\<lambda>_. 0" "\<lambda>_. []"]
    by (fastforce simp: declarable_def)
  note maps = declare_maps [OF b ids]
  let ?ready = "filter (\<lambda>i. counts i = 0) ?ids"
  obtain c' q' ord where run:
    "kahn_loop slice_pop slice_push downstream (length ?ids) (counts, ?ready, []) = (c', q', ord)"
    by (cases "kahn_loop slice_pop slice_push downstream (length ?ids) (counts, ?ready, [])")
  have closed: "\<forall>i\<in>set ?ids. set (?deps i) \<subseteq> set ?ids" using ok by (auto simp: declarable_def declared_def)
  have q: "sorted ?ready" by (simp add: sorted_filter [where f = "\<lambda>x. x", simplified])
  note res = slice_queue.kahn_run [OF run q refl maps(1) ids maps(2) closed]
  have greedy: "greedy_from (\<lambda>i. i) ?ids ?deps {} ord"
    using slice_order.kahn_loop_greedy [OF run q _ maps(2)] kahn_inv_init [OF ids maps(1)] by simp
  show ?thesis
  proof (rule that [of ord])
    show "topological edges = (if length ord \<noteq> length edges then Inl (Err ''cyclic dependency graph'') else Inr ord)"
      using ok b run by (simp add: topological_def Let_def declarable_def)
    show "greedy_from (\<lambda>i. i) (map fst edges) ?deps {} ord"
      using greedy by (simp add: greedy_from_cong [of ?ids "map fst edges"])
    show "length ord = length edges \<longleftrightarrow> acyclic (dep_rel (map fst edges) ?deps)"
      using res(5) by (simp add: dep_rel_def)
  qed (use res in auto)
qed

lemma topological_rejects: "\<not> declarable edges \<Longrightarrow> \<exists>e. topological edges = Inl e"
  using declare_ok [of 0 "set (map fst edges)" "edges_of edges" "sort (map fst edges)" "\<lambda>_. 0" "\<lambda>_. []"]
  by (auto simp: topological_def declarable_def Let_def split: sum.splits)

lemma perm_keys: "distinct ks \<Longrightarrow> mset xs = mset ks \<longleftrightarrow> distinct xs \<and> set xs = set ks"
  by (metis mset_eq_imp_distinct_iff mset_eq_setD set_eq_iff_mset_eq_distinct)

lemma topological_accepts:
  assumes "distinct (map fst edges)"
  shows "(\<exists>order. topological edges = Inr order) \<longleftrightarrow>
     declarable edges \<and> acyclic (dep_rel (map fst edges) (edges_of edges))"
proof (cases "declarable edges")
  case True
  from topological_run [OF assms True] obtain ord where
    "topological edges = (if length ord \<noteq> length edges then Inl (Err ''cyclic dependency graph'') else Inr ord)"
    "length ord = length edges \<longleftrightarrow> acyclic (dep_rel (map fst edges) (edges_of edges))" by blast
  with True show ?thesis by auto
next
  case False
  with topological_rejects show ?thesis by fastforce
qed

lemma topological_Inr:
  assumes "distinct (map fst edges)"
  shows "topological edges = Inr order \<longleftrightarrow>
     declarable edges \<and> mset order = mset (map fst edges) \<and> topo_order (edges_of edges) order \<and>
     greedy_from (\<lambda>i. i) (map fst edges) (edges_of edges) {} order"
proof (cases "declarable edges")
  case True
  from topological_run [OF assms True] obtain ord where
    top: "topological edges = (if length ord \<noteq> length edges then Inl (Err ''cyclic dependency graph'') else Inr ord)"
    and ord: "distinct ord" "set ord \<subseteq> set (map fst edges)" "topo_order (edges_of edges) ord"
      "greedy_from (\<lambda>i. i) (map fst edges) (edges_of edges) {} ord"
    and full: "length ord = length edges \<longleftrightarrow> acyclic (dep_rel (map fst edges) (edges_of edges))" by blast
  have complete: "mset ord = mset (map fst edges) \<longleftrightarrow> length ord = length edges"
    using ord(1,2) distinct_set_eq_length [of ord "map fst edges"] assms perm_keys [OF assms, of ord]
    by (metis length_map size_mset)
  show ?thesis
  proof
    assume "topological edges = Inr order"
    with top have "order = ord" "length ord = length edges" by (auto split: if_splits)
    with True complete ord show "declarable edges \<and> mset order = mset (map fst edges) \<and>
        topo_order (edges_of edges) order \<and> greedy_from (\<lambda>i. i) (map fst edges) (edges_of edges) {} order" by simp
  next
    assume R: "declarable edges \<and> mset order = mset (map fst edges) \<and> topo_order (edges_of edges) order \<and>
      greedy_from (\<lambda>i. i) (map fst edges) (edges_of edges) {} order"
    then have "distinct order" "set order = set (map fst edges)" using perm_keys [OF assms] by auto
    with R have len: "length ord = length edges" using full topo_order_acyclic by blast
    then have "distinct ord" "set ord = set (map fst edges)" using complete perm_keys [OF assms] by auto
    with R \<open>distinct order\<close> \<open>set order = set (map fst edges)\<close> ord have "ord = order"
      using greedy_unique [of "edges_of edges" ord order "\<lambda>i. i" "map fst edges"] by simp
    with top len show "topological edges = Inr order" by simp
  qed
next
  case False
  with topological_rejects show ?thesis by fastforce
qed

lemma edges_of_cong:
  assumes "distinct (map fst edges)" and "mset edges = mset edges'"
  shows "edges_of edges = edges_of edges'"
proof -
  have "mset (map fst edges) = mset (map fst edges')" using assms(2) by (simp only: mset_map)
  then have "distinct (map fst edges')" using assms(1) mset_eq_imp_distinct_iff by blast
  then have "map_of edges = map_of edges'"
    using assms map_of_inject_set mset_eq_setD by blast
  then show ?thesis by (simp add: edges_of_def fun_eq_iff)
qed

lemma topological_mset:
  assumes "distinct (map fst edges)" and "mset edges = mset edges'"
  shows "topological edges = topological edges'"
proof -
  have keys: "mset (map fst edges) = mset (map fst edges')" using assms(2) by (simp only: mset_map)
  have "sort (map fst edges) = sort (map fst edges')"
    using keys by (metis properties_for_sort mset_sort sorted_sort)
  moreover have "set (map fst edges) = set (map fst edges')" using keys by (rule mset_eq_setD)
  moreover have "length edges = length edges'" using assms(2) by (rule mset_eq_length)
  ultimately show ?thesis
    unfolding topological_def edges_of_cong [OF assms] by (simp only:)
qed

section \<open>Contexts and observations\<close>

fun namespaces_check :: "string set \<Rightarrow> namespace list \<Rightarrow> go_error option" where
  "namespaces_check seen [] = None"
| "namespaces_check seen (ns # rest) =
     (if ns_kind ns = '''' \<or> ns_id ns = '''' \<or> ns_kind ns \<in> seen
      then Some (Err ''invalid or duplicate namespace observation'')
      else namespaces_check (insert (ns_kind ns) seen) rest)"

fun index_contexts :: "evaluation_context list \<Rightarrow> string set \<Rightarrow> go_error + string set" where
  "index_contexts [] contexts = Inr contexts"
| "index_contexts (c # cs) contexts =
     (case identity_context_is_valid (ctx_identity c) of
        Some err \<Rightarrow> Inl err
      | None \<Rightarrow>
          if ctx_id c = '''' \<or> ctx_id c \<in> contexts then Inl (Err ''missing or duplicate context ID'')
          else case namespaces_check {} (ctx_namespaces c) of
            Some err \<Rightarrow> Inl err
          | None \<Rightarrow> index_contexts cs (insert (ctx_id c) contexts))"

definition fact_rejected :: "observation \<Rightarrow> string list \<Rightarrow> fact \<Rightarrow> bool" where
  "fact_rejected obs facts f \<longleftrightarrow>
     f_id f = '''' \<or> f_id f \<in> set facts \<or> f_scope f \<noteq> ob_scope obs \<or> is_zero (f_timestamp f) \<or>
     after (f_timestamp f) (ob_timestamp obs) \<or> f_source f = '''' \<or>
     completeness_is_valid (f_completeness f) \<noteq> None"

fun index_facts :: "observation \<Rightarrow> fact list \<Rightarrow> string list \<Rightarrow> go_error + string list" where
  "index_facts obs [] facts = Inr facts"
| "index_facts obs (f # fs) facts =
     (if fact_rejected obs facts f then Inl (Err ''invalid or duplicate fact'')
      else if ob_completeness obs = Complete \<and> f_completeness f \<noteq> Complete
        then Inl (Err ''complete observation relies on incomplete fact'')
      else if length (facts @ [f_id f]) > MaxGraphEntries then Inl (Err ''fact count limit exceeded'')
      else index_facts obs fs (facts @ [f_id f]))"

fun index_observations :: "observation list \<Rightarrow> string set \<Rightarrow> (string \<times> observation) list \<Rightarrow> string list \<Rightarrow>
    go_error + (string \<times> observation) list" where
  "index_observations [] contexts observations facts = Inr observations"
| "index_observations (obs # rest) contexts observations facts =
     (if ob_id obs = '''' \<or> ob_probe_id obs = '''' \<or> is_zero (ob_timestamp obs) \<or>
         scope_is_valid (ob_scope obs) \<noteq> None \<or> context_id (ob_scope obs) \<notin> contexts \<or>
         completeness_is_valid (ob_completeness obs) \<noteq> None
      then Inl (Err ''invalid observation metadata or scope'')
      else if map_of observations (ob_id obs) \<noteq> None then Inl (Err ''duplicate observation ID'')
      else if ob_facts obs = [] then Inl (Err ''observation has no facts'')
      else case index_facts obs (ob_facts obs) facts of
        Inl err \<Rightarrow> Inl err
      | Inr facts' \<Rightarrow> index_observations rest contexts (observations @ [(ob_id obs, obs)]) facts')"

section \<open>Evidence\<close>

definition validate_evidence :: "evidence \<Rightarrow> go_error option" where
  "validate_evidence ev =
     first_error id [evidence_validate ev, scope_is_valid (ev_scope ev), id_validate (ev_claim ev),
       state_is_valid (ev_state ev), confidence_is_valid (ev_confidence ev),
       completeness_is_valid (ev_completeness ev)]"

fun observation_refs_check :: "evidence \<Rightarrow> (string \<times> observation) list \<Rightarrow> string set \<Rightarrow> observation_ref list \<Rightarrow>
    go_error option" where
  "observation_refs_check ev observations seen [] = None"
| "observation_refs_check ev observations seen (ref # refs) =
     (case map_of observations (or_id ref) of
        None \<Rightarrow> Some (Err ''invalid observation reference, scope or timestamp'')
      | Some obs \<Rightarrow>
          if or_id ref \<in> seen \<or> ob_probe_id obs \<noteq> or_probe ref \<or> ob_scope obs \<noteq> ev_scope ev \<or>
             after (ob_timestamp obs) (ev_timestamp ev)
          then Some (Err ''invalid observation reference, scope or timestamp'')
          else if ev_completeness ev = Complete \<and> ob_completeness obs \<noteq> Complete
            then Some (Err ''complete claim relies on incomplete observation'')
          else observation_refs_check ev observations (insert (or_id ref) seen) refs)"

fun index_evidence :: "string set \<Rightarrow> (string \<times> observation) list \<Rightarrow> evidence list \<Rightarrow>
    (string \<times> string list) list \<Rightarrow> (string \<times> evidence) list \<Rightarrow> nat \<Rightarrow>
    go_error + (string \<times> string list) list \<times> (string \<times> evidence) list" where
  "index_evidence contexts observations [] edges evidence references = Inr (edges, evidence)"
| "index_evidence contexts observations (ev # rest) edges evidence references =
     (case validate_evidence ev of
        Some err \<Rightarrow> Inl err
      | None \<Rightarrow>
          if context_id (ev_scope ev) \<notin> contexts then Inl (Err ''evidence references missing context'')
          else if map_of edges (ev_id ev) \<noteq> None then Inl (Err ''duplicate evidence ID'')
          else if references + length (ev_observations ev) + length (ev_depends_on ev) > MaxGraphReferences
            then Inl (Err ''evidence reference limit exceeded'')
          else if ev_observations ev = [] then Inl (Err ''evidence has no observation'')
          else case observation_refs_check ev observations {} (ev_observations ev) of
            Some err \<Rightarrow> Inl err
          | None \<Rightarrow> index_evidence contexts observations rest (edges @ [(ev_id ev, ev_depends_on ev)])
                     (evidence @ [(ev_id ev, ev)]) (references + length (ev_observations ev) + length (ev_depends_on ev)))"

text \<open>The zero \<open>model.Evidence\<close> a map lookup of an absent key returns.\<close>

definition zero_evidence :: evidence where
  "zero_evidence = \<lparr>ev_id = '''', ev_source = '''', ev_claim = '''', ev_precedence = 0, ev_observations = [],
     ev_timestamp = 0, ev_scope = empty_scope, ev_completeness = OtherCompleteness '''',
     ev_state = OtherState '''', ev_confidence = OtherConfidence '''', ev_depends_on = []\<rparr>"

definition lookup_evidence :: "(string \<times> evidence) list \<Rightarrow> string \<Rightarrow> evidence" where
  "lookup_evidence m i = (case map_of m i of None \<Rightarrow> zero_evidence | Some e \<Rightarrow> e)"

definition edge_error :: "evidence \<Rightarrow> evidence \<Rightarrow> go_error option" where
  "edge_error dep ev =
     (if ev_scope dep \<noteq> ev_scope ev then Some (Err ''missing or incompatible evidence dependency'')
      else if after (ev_timestamp dep) (ev_timestamp ev) \<or>
              (ev_completeness ev = Complete \<and> ev_completeness dep \<noteq> Complete)
        then Some (Err ''claim relies on incomplete or future evidence dependency'')
      else None)"

record dataset =
  ds_run_id :: string
  ds_at :: instant
  ds_contexts :: "evaluation_context list"
  ds_observations :: "observation list"
  ds_evidence :: "evidence list"

definition validate_dataset :: "dataset \<Rightarrow> go_error option" where
  "validate_dataset d =
     (if ds_run_id d = '''' \<or> is_zero (ds_at d) then Some (Err ''missing evaluation run identity or timestamp'')
      else if length (ds_contexts d) + length (ds_observations d) + length (ds_evidence d) > MaxGraphEntries
        then Some (Err ''evidence graph size limit exceeded'')
      else case index_contexts (ds_contexts d) {} of
        Inl err \<Rightarrow> Some err
      | Inr contexts \<Rightarrow>
          (case index_observations (ds_observations d) contexts [] [] of
             Inl err \<Rightarrow> Some err
           | Inr observations \<Rightarrow>
               (case index_evidence contexts observations (ds_evidence d) [] [] 0 of
                  Inl err \<Rightarrow> Some err
                | Inr (edges, evidence) \<Rightarrow>
                    (case first_error (\<lambda>(i, deps). first_error (\<lambda>dep.
                            edge_error (lookup_evidence evidence dep) (lookup_evidence evidence i)) deps) edges of
                       Some err \<Rightarrow> Some err
                     | None \<Rightarrow> (case topological edges of Inl err \<Rightarrow> Some err | Inr _ \<Rightarrow> None)))))"

section \<open>Specification\<close>

text \<open>The declarative conditions, with no loop, no order and no accumulator.\<close>

definition context_ok :: "evaluation_context \<Rightarrow> bool" where
  "context_ok c \<longleftrightarrow>
     identity_context_is_valid (ctx_identity c) = None \<and> ctx_id c \<noteq> '''' \<and>
     (\<forall>ns\<in>set (ctx_namespaces c). ns_kind ns \<noteq> '''' \<and> ns_id ns \<noteq> '''') \<and>
     distinct (map ns_kind (ctx_namespaces c))"

definition fact_ok :: "observation \<Rightarrow> fact \<Rightarrow> bool" where
  "fact_ok obs f \<longleftrightarrow>
     f_id f \<noteq> '''' \<and> f_source f \<noteq> '''' \<and> f_scope f = ob_scope obs \<and> f_timestamp f \<noteq> 0 \<and>
     f_timestamp f \<le> ob_timestamp obs \<and> completeness_is_valid (f_completeness f) = None \<and>
     (ob_completeness obs = Complete \<longrightarrow> f_completeness f = Complete)"

definition observation_ok :: "string set \<Rightarrow> observation \<Rightarrow> bool" where
  "observation_ok contexts obs \<longleftrightarrow>
     ob_id obs \<noteq> '''' \<and> ob_probe_id obs \<noteq> '''' \<and> ob_timestamp obs \<noteq> 0 \<and>
     scope_is_valid (ob_scope obs) = None \<and> context_id (ob_scope obs) \<in> contexts \<and>
     completeness_is_valid (ob_completeness obs) = None \<and>
     ob_facts obs \<noteq> [] \<and> (\<forall>f\<in>set (ob_facts obs). fact_ok obs f)"

definition fact_ids :: "observation list \<Rightarrow> string list" where
  "fact_ids obs = concat (map (\<lambda>ob. map f_id (ob_facts ob)) obs)"

definition observation_ref_ok :: "observation list \<Rightarrow> evidence \<Rightarrow> observation_ref \<Rightarrow> bool" where
  "observation_ref_ok observations ev ref \<longleftrightarrow>
     (\<exists>obs\<in>set observations. ob_id obs = or_id ref \<and> ob_probe_id obs = or_probe ref \<and>
        ob_scope obs = ev_scope ev \<and> ob_timestamp obs \<le> ev_timestamp ev \<and>
        (ev_completeness ev = Complete \<longrightarrow> ob_completeness obs = Complete))"

definition evidence_dep_ok :: "evidence list \<Rightarrow> evidence \<Rightarrow> string \<Rightarrow> bool" where
  "evidence_dep_ok evidence ev dep \<longleftrightarrow>
     (\<exists>e\<in>set evidence. ev_id e = dep \<and> ev_scope e = ev_scope ev \<and> ev_timestamp e \<le> ev_timestamp ev \<and>
        (ev_completeness ev = Complete \<longrightarrow> ev_completeness e = Complete))"

definition evidence_ok :: "string set \<Rightarrow> observation list \<Rightarrow> evidence \<Rightarrow> bool" where
  "evidence_ok contexts observations ev \<longleftrightarrow>
     validate_evidence ev = None \<and> context_id (ev_scope ev) \<in> contexts \<and> ev_observations ev \<noteq> [] \<and>
     distinct (map or_id (ev_observations ev)) \<and>
     (\<forall>ref\<in>set (ev_observations ev). observation_ref_ok observations ev ref)"

definition reference_count :: "evidence list \<Rightarrow> nat" where
  "reference_count evs = (\<Sum>e\<leftarrow>evs. length (ev_observations e) + length (ev_depends_on e))"

text \<open>Evidence \<open>j\<close> depends on evidence \<open>i\<close>.\<close>

definition evidence_rel :: "evidence list \<Rightarrow> (string \<times> string) set" where
  "evidence_rel evs = {(i, j). \<exists>e\<in>set evs. ev_id e = j \<and> i \<in> set (ev_depends_on e)}"

definition dataset_wf :: "dataset \<Rightarrow> bool" where
  "dataset_wf d \<longleftrightarrow>
     ds_run_id d \<noteq> '''' \<and> ds_at d \<noteq> 0 \<and>
     length (ds_contexts d) + length (ds_observations d) + length (ds_evidence d) \<le> MaxGraphEntries \<and>
     (\<forall>c\<in>set (ds_contexts d). context_ok c) \<and> distinct (map ctx_id (ds_contexts d)) \<and>
     (\<forall>obs\<in>set (ds_observations d). observation_ok (ctx_id ` set (ds_contexts d)) obs) \<and>
     distinct (map ob_id (ds_observations d)) \<and> distinct (fact_ids (ds_observations d)) \<and>
     length (fact_ids (ds_observations d)) \<le> MaxGraphEntries \<and>
     (\<forall>ev\<in>set (ds_evidence d). evidence_ok (ctx_id ` set (ds_contexts d)) (ds_observations d) ev) \<and>
     distinct (map ev_id (ds_evidence d)) \<and> reference_count (ds_evidence d) \<le> MaxGraphReferences \<and>
     (\<forall>ev\<in>set (ds_evidence d). distinct (ev_depends_on ev) \<and>
        (\<forall>dep\<in>set (ev_depends_on ev). evidence_dep_ok (ds_evidence d) ev dep)) \<and>
     acyclic (evidence_rel (ds_evidence d))"

section \<open>The loops meet the specification\<close>

lemma namespaces_check_None:
  "namespaces_check seen nss = None \<longleftrightarrow>
     (\<forall>ns\<in>set nss. ns_kind ns \<noteq> '''' \<and> ns_id ns \<noteq> '''') \<and> distinct (map ns_kind nss) \<and>
     ns_kind ` set nss \<inter> seen = {}"
  by (induction nss arbitrary: seen) auto

lemma index_contexts_step:
  "context_ok c \<and> ctx_id c \<notin> contexts \<Longrightarrow> index_contexts (c # cs) contexts = index_contexts cs (insert (ctx_id c) contexts)"
  "\<not> (context_ok c \<and> ctx_id c \<notin> contexts) \<Longrightarrow> \<exists>e. index_contexts (c # cs) contexts = Inl e"
  using namespaces_check_None [of "{}" "ctx_namespaces c"]
  by (auto simp: context_ok_def split: option.splits)

lemma index_contexts_Inr:
  "index_contexts cs contexts = Inr r \<longleftrightarrow>
     (\<forall>c\<in>set cs. context_ok c) \<and> distinct (map ctx_id cs) \<and> ctx_id ` set cs \<inter> contexts = {} \<and>
     r = contexts \<union> ctx_id ` set cs"
proof (induction cs arbitrary: contexts)
  case Nil
  then show ?case by auto
next
  case (Cons c cs)
  show ?case
  proof (cases "context_ok c \<and> ctx_id c \<notin> contexts")
    case True
    then show ?thesis unfolding index_contexts_step(1) [OF True] Cons.IH by auto
  next
    case False
    then obtain e where "index_contexts (c # cs) contexts = Inl e" using index_contexts_step(2) by blast
    with False show ?thesis by (auto simp del: index_contexts.simps)
  qed
qed

lemma fact_rejected_iff:
  "fact_rejected obs facts f \<or> (ob_completeness obs = Complete \<and> f_completeness f \<noteq> Complete) \<longleftrightarrow>
     \<not> fact_ok obs f \<or> f_id f \<in> set facts"
  by (auto simp: fact_rejected_def fact_ok_def is_zero_def after_def)

lemma index_facts_Inr:
  "length facts \<le> MaxGraphEntries \<Longrightarrow>
   index_facts obs fs facts = Inr r \<longleftrightarrow>
     (\<forall>f\<in>set fs. fact_ok obs f) \<and> distinct (map f_id fs) \<and> f_id ` set fs \<inter> set facts = {} \<and>
     length facts + length fs \<le> MaxGraphEntries \<and> r = facts @ map f_id fs"
proof (induction fs arbitrary: facts)
  case Nil
  then show ?case by auto
next
  case (Cons f fs)
  show ?case
  proof (cases "fact_ok obs f \<and> f_id f \<notin> set facts \<and> length facts < MaxGraphEntries")
    case False
    then show ?thesis using fact_rejected_iff [of obs facts f] by auto
  next
    case True
    then have "index_facts obs (f # fs) facts = index_facts obs fs (facts @ [f_id f])"
      using fact_rejected_iff [of obs facts f] by auto
    with True Cons.IH [of "facts @ [f_id f]"] show ?thesis by auto
  qed
qed

lemma conj_groups:
  assumes "a1 = b1" "(a2 \<and> a3) = (b2 \<and> b3)" "(a4 \<and> a5) = (b4 \<and> b5)" "a6 = b6" "a7 = b7"
  shows "(a1 \<and> a2 \<and> a3 \<and> a4 \<and> a5 \<and> a6 \<and> a7) = (b1 \<and> b2 \<and> b3 \<and> b4 \<and> b5 \<and> b6 \<and> b7)"
  using assms by blast

lemma index_observations_Inr:
  "length facts \<le> MaxGraphEntries \<Longrightarrow>
   index_observations obs contexts observations facts = Inr r \<longleftrightarrow>
     (\<forall>ob\<in>set obs. observation_ok contexts ob) \<and> distinct (map ob_id obs) \<and>
     ob_id ` set obs \<inter> fst ` set observations = {} \<and> distinct (fact_ids obs) \<and>
     set (fact_ids obs) \<inter> set facts = {} \<and> length facts + length (fact_ids obs) \<le> MaxGraphEntries \<and>
     r = observations @ map (\<lambda>ob. (ob_id ob, ob)) obs"
proof (induction obs arbitrary: observations facts)
  case Nil
  then show ?case by (auto simp: fact_ids_def)
next
  case (Cons x obs)
  let ?meta = "ob_id x \<noteq> '''' \<and> ob_probe_id x \<noteq> '''' \<and> ob_timestamp x \<noteq> 0 \<and> scope_is_valid (ob_scope x) = None \<and>
    context_id (ob_scope x) \<in> contexts \<and> completeness_is_valid (ob_completeness x) = None \<and>
    ob_id x \<notin> fst ` set observations \<and> ob_facts x \<noteq> []"
  have fresh: "map_of observations (ob_id x) = None \<longleftrightarrow> ob_id x \<notin> fst ` set observations"
    by (simp add: map_of_eq_None_iff)
  show ?case
  proof (cases ?meta)
    case False
    then show ?thesis by (auto simp: observation_ok_def is_zero_def fresh)
  next
    case True
    note facts = index_facts_Inr [OF Cons.prems, of x "ob_facts x"]
    show ?thesis
    proof (cases "index_facts x (ob_facts x) facts")
      case (Inl e)
      then have "\<not> ((\<forall>f\<in>set (ob_facts x). fact_ok x f) \<and> distinct (map f_id (ob_facts x)) \<and>
          f_id ` set (ob_facts x) \<inter> set facts = {} \<and> length facts + length (ob_facts x) \<le> MaxGraphEntries)"
        using facts by auto
      moreover have "index_observations (x # obs) contexts observations facts = Inl e"
        using True Inl by (simp add: is_zero_def fresh)
      moreover have "fact_ids (x # obs) = map f_id (ob_facts x) @ fact_ids obs" by (simp add: fact_ids_def)
      ultimately show ?thesis by (auto simp: observation_ok_def)
    next
      case (Inr fs)
      from iffD1 [OF facts Inr] have fs: "\<forall>f\<in>set (ob_facts x). fact_ok x f" "distinct (map f_id (ob_facts x))"
        "f_id ` set (ob_facts x) \<inter> set facts = {}" "length fs \<le> MaxGraphEntries"
        "fs = facts @ map f_id (ob_facts x)" by auto
      have step: "index_observations (x # obs) contexts observations facts =
          index_observations obs contexts (observations @ [(ob_id x, x)]) fs"
        using True Inr by (simp add: is_zero_def fresh)
      have ok: "observation_ok contexts x" using True fs(1) by (simp add: observation_ok_def)
      have ids: "fact_ids (x # obs) = map f_id (ob_facts x) @ fact_ids obs" by (simp add: fact_ids_def)
      show ?thesis unfolding step Cons.IH [OF fs(4)]
      proof (rule conj_groups)
        show "(\<forall>ob\<in>set obs. observation_ok contexts ob) \<longleftrightarrow> (\<forall>ob\<in>set (x # obs). observation_ok contexts ob)"
          using ok by simp
        show "distinct (map ob_id obs) \<and> ob_id ` set obs \<inter> fst ` set (observations @ [(ob_id x, x)]) = {} \<longleftrightarrow>
            distinct (map ob_id (x # obs)) \<and> ob_id ` set (x # obs) \<inter> fst ` set observations = {}"
          using True by auto
        show "distinct (fact_ids obs) \<and> set (fact_ids obs) \<inter> set fs = {} \<longleftrightarrow>
            distinct (fact_ids (x # obs)) \<and> set (fact_ids (x # obs)) \<inter> set facts = {}"
          unfolding ids fs(5) using fs(2,3) by auto
        show "length fs + length (fact_ids obs) \<le> MaxGraphEntries \<longleftrightarrow>
            length facts + length (fact_ids (x # obs)) \<le> MaxGraphEntries"
          using fs(5) ids by (simp add: add.assoc)
      qed simp
    qed
  qed
qed

lemma observation_refs_check_None:
  assumes "distinct (map ob_id obs)"
  shows "observation_refs_check ev (map (\<lambda>ob. (ob_id ob, ob)) obs) seen refs = None \<longleftrightarrow>
     (\<forall>ref\<in>set refs. observation_ref_ok obs ev ref) \<and> distinct (map or_id refs) \<and> or_id ` set refs \<inter> seen = {}"
proof (induction refs arbitrary: seen)
  case Nil
  then show ?case by simp
next
  case (Cons ref refs)
  let ?m = "map (\<lambda>ob. (ob_id ob, ob)) obs"
  show ?case
  proof (cases "map_of ?m (or_id ref)")
    case None
    then have "or_id ref \<notin> ob_id ` set obs" by (simp add: map_of_keyed_None)
    then have "\<not> observation_ref_ok obs ev ref"
      unfolding observation_ref_ok_def by (metis image_eqI)
    with None show ?thesis by simp
  next
    case (Some ob)
    then have ob: "ob \<in> set obs" "ob_id ob = or_id ref" using map_of_keyed [OF assms] by blast+
    then have "observation_ref_ok obs ev ref \<longleftrightarrow> ob_probe_id ob = or_probe ref \<and> ob_scope ob = ev_scope ev \<and>
        ob_timestamp ob \<le> ev_timestamp ev \<and> (ev_completeness ev = Complete \<longrightarrow> ob_completeness ob = Complete)"
      using assms by (auto simp: observation_ref_ok_def distinct_map inj_on_def)
    with Some show ?thesis by (auto simp: Cons.IH after_def)
  qed
qed

lemma index_evidence_Inr:
  assumes obs: "distinct (map ob_id obs)"
  shows "references \<le> MaxGraphReferences \<Longrightarrow>
   index_evidence contexts (map (\<lambda>ob. (ob_id ob, ob)) obs) evs edges evidence references = Inr r \<longleftrightarrow>
     (\<forall>ev\<in>set evs. evidence_ok contexts obs ev) \<and>
     (distinct (map ev_id evs) \<and> ev_id ` set evs \<inter> fst ` set edges = {}) \<and>
     references + reference_count evs \<le> MaxGraphReferences \<and>
     r = (edges @ map (\<lambda>e. (ev_id e, ev_depends_on e)) evs, evidence @ map (\<lambda>e. (ev_id e, e)) evs)"
proof (induction evs arbitrary: edges evidence references)
  case Nil
  then show ?case by (auto simp: reference_count_def)
next
  case (Cons ev evs)
  let ?m = "map (\<lambda>ob. (ob_id ob, ob)) obs"
  let ?refs = "references + length (ev_observations ev) + length (ev_depends_on ev)"
  have count: "references + reference_count (ev # evs) = ?refs + reference_count evs"
    by (simp add: reference_count_def)
  have fresh: "map_of edges (ev_id ev) = None \<longleftrightarrow> ev_id ev \<notin> fst ` set edges"
    by (simp add: map_of_eq_None_iff)
  have check: "observation_refs_check ev ?m {} (ev_observations ev) = None \<longleftrightarrow>
      (\<forall>ref\<in>set (ev_observations ev). observation_ref_ok obs ev ref) \<and> distinct (map or_id (ev_observations ev))"
    by (simp add: observation_refs_check_None [OF obs])
  show ?case
  proof (cases "evidence_ok contexts obs ev \<and> ev_id ev \<notin> fst ` set edges \<and> ?refs \<le> MaxGraphReferences")
    case True
    then have step: "index_evidence contexts ?m (ev # evs) edges evidence references =
        index_evidence contexts ?m evs (edges @ [(ev_id ev, ev_depends_on ev)]) (evidence @ [(ev_id ev, ev)]) ?refs"
      using check fresh by (simp add: evidence_ok_def)
    have le: "?refs \<le> MaxGraphReferences" using True by simp
    show ?thesis unfolding step Cons.IH [OF le] count using True by auto
  next
    case False
    have "\<exists>e. index_evidence contexts ?m (ev # evs) edges evidence references = Inl e"
    proof (cases "validate_evidence ev = None \<and> context_id (ev_scope ev) \<in> contexts \<and> map_of edges (ev_id ev) = None \<and>
        ?refs \<le> MaxGraphReferences \<and> ev_observations ev \<noteq> []")
      case True
      then have "observation_refs_check ev ?m {} (ev_observations ev) \<noteq> None"
        using False check fresh by (auto simp: evidence_ok_def)
      with True show ?thesis by auto
    next
      case False
      then show ?thesis by (auto split: option.splits)
    qed
    moreover have "?refs + reference_count evs \<le> MaxGraphReferences \<Longrightarrow> ?refs \<le> MaxGraphReferences" by simp
    ultimately show ?thesis using False count by (auto simp del: index_evidence.simps)
  qed
qed

lemma edges_check_None:
  assumes dist: "distinct (map ev_id evs)" and ok: "\<forall>ev\<in>set evs. evidence_ok contexts obs ev"
  shows "first_error (\<lambda>(i, deps). first_error (\<lambda>dep.
      edge_error (lookup_evidence (map (\<lambda>e. (ev_id e, e)) evs) dep)
        (lookup_evidence (map (\<lambda>e. (ev_id e, e)) evs) i)) deps)
      (map (\<lambda>e. (ev_id e, ev_depends_on e)) evs) = None \<longleftrightarrow>
    (\<forall>ev\<in>set evs. \<forall>dep\<in>set (ev_depends_on ev). evidence_dep_ok evs ev dep)"
proof -
  let ?m = "map (\<lambda>e. (ev_id e, e)) evs"
  have self: "lookup_evidence ?m (ev_id ev) = ev" if "ev \<in> set evs" for ev
    using that map_of_keyed [OF dist, of "ev_id ev" ev] by (simp add: lookup_evidence_def)
  have "edge_error (lookup_evidence ?m dep) ev = None \<longleftrightarrow> evidence_dep_ok evs ev dep" if "ev \<in> set evs" for ev dep
  proof (cases "map_of ?m dep")
    case None
    then have "\<not> evidence_dep_ok evs ev dep" by (auto simp: map_of_keyed_None evidence_dep_ok_def)
    moreover have "scope_is_valid (ev_scope ev) = None"
      using ok that by (auto simp: evidence_ok_def validate_evidence_def simp del: first_error.simps)
    then have "run_id (ev_scope ev) \<noteq> ''''" by (auto simp: scope_is_valid_def split: if_splits)
    then have "empty_scope \<noteq> ev_scope ev" unfolding empty_scope_def by (metis scope.select_convs(1))
    ultimately show ?thesis using None by (simp add: edge_error_def lookup_evidence_def zero_evidence_def)
  next
    case (Some e)
    then have "e \<in> set evs" "ev_id e = dep" using map_of_keyed [OF dist] by blast+
    then have "evidence_dep_ok evs ev dep \<longleftrightarrow> edge_error e ev = None"
      using dist by (auto simp: evidence_dep_ok_def edge_error_def after_def distinct_map inj_on_def)
    with Some show ?thesis by (simp add: lookup_evidence_def)
  qed
  then show ?thesis using self by auto
qed

lemma edges_of_evidence:
  assumes "distinct (map ev_id evs)" and "ev \<in> set evs"
  shows "edges_of (map (\<lambda>e. (ev_id e, ev_depends_on e)) evs) (ev_id ev) = ev_depends_on ev"
proof -
  let ?edges = "map (\<lambda>e. (ev_id e, ev_depends_on e)) evs"
  have "distinct (map fst ?edges)" using assms(1) by (simp add: comp_def)
  moreover have "(ev_id ev, ev_depends_on ev) \<in> set ?edges" using assms(2) by auto
  ultimately have "map_of ?edges (ev_id ev) = Some (ev_depends_on ev)" by (rule map_of_is_SomeI)
  then show ?thesis by (simp add: edges_of_def)
qed

lemma sum_list_sort: "(\<Sum>i\<leftarrow>sort xs. f i) = (\<Sum>i\<leftarrow>xs. (f i :: nat))" for xs :: "string list"
  by (metis mset_map mset_sort sum_mset_sum_list)

lemma dep_rel_evidence:
  assumes "distinct (map ev_id evs)"
  shows "dep_rel (map ev_id evs) (edges_of (map (\<lambda>e. (ev_id e, ev_depends_on e)) evs)) = evidence_rel evs"
proof -
  have "(i, j) \<in> dep_rel (map ev_id evs) (edges_of (map (\<lambda>e. (ev_id e, ev_depends_on e)) evs)) \<longleftrightarrow>
      (\<exists>e\<in>set evs. ev_id e = j \<and> i \<in> set (edges_of (map (\<lambda>e. (ev_id e, ev_depends_on e)) evs) (ev_id e)))" for i j
    by (auto simp: dep_rel_def)
  then have "(i, j) \<in> dep_rel (map ev_id evs) (edges_of (map (\<lambda>e. (ev_id e, ev_depends_on e)) evs)) \<longleftrightarrow>
      (i, j) \<in> evidence_rel evs" for i j
    using edges_of_evidence [OF assms] by (simp add: evidence_rel_def)
  then show ?thesis by auto
qed

lemma declarable_evidence:
  assumes dist: "distinct (map ev_id evs)" and len: "length evs \<le> MaxGraphEntries"
    and refs: "reference_count evs \<le> MaxGraphReferences"
    and deps: "\<forall>ev\<in>set evs. \<forall>dep\<in>set (ev_depends_on ev). evidence_dep_ok evs ev dep"
  shows "declarable (map (\<lambda>e. (ev_id e, ev_depends_on e)) evs) \<longleftrightarrow> (\<forall>ev\<in>set evs. distinct (ev_depends_on ev))"
proof -
  let ?edges = "map (\<lambda>e. (ev_id e, ev_depends_on e)) evs"
  have keys: "map fst ?edges = map ev_id evs" by simp
  have "(\<Sum>i\<leftarrow>map ev_id evs. length (edges_of ?edges i)) = (\<Sum>e\<leftarrow>evs. length (edges_of ?edges (ev_id e)))"
    by (simp add: comp_def)
  also have "\<dots> = (\<Sum>e\<leftarrow>evs. length (ev_depends_on e))"
    by (intro arg_cong [where f = sum_list] map_cong refl) (simp add: edges_of_evidence [OF dist])
  also have "\<dots> \<le> reference_count evs"
    unfolding reference_count_def by (induction evs) auto
  finally have sum: "(\<Sum>i\<leftarrow>map ev_id evs. length (edges_of ?edges i)) \<le> MaxGraphReferences" using refs by simp
  have sub: "set (ev_depends_on ev) \<subseteq> ev_id ` set evs" if "ev \<in> set evs" for ev
    using deps that unfolding evidence_dep_ok_def by (metis image_eqI subsetI)
  have "declared (ev_id ` set evs) (edges_of ?edges) (ev_id ev) \<longleftrightarrow> distinct (ev_depends_on ev)"
    if "ev \<in> set evs" for ev
    using sub [OF that] by (simp add: declared_def edges_of_evidence [OF dist that])
  then show ?thesis
    using len sum unfolding declarable_def keys sum_list_sort by simp
qed

lemma evidence_topological:
  assumes dist: "distinct (map ev_id evs)" and len: "length evs \<le> MaxGraphEntries"
    and refs: "reference_count evs \<le> MaxGraphReferences"
    and deps: "\<forall>ev\<in>set evs. \<forall>dep\<in>set (ev_depends_on ev). evidence_dep_ok evs ev dep"
  shows "(\<exists>order. topological (map (\<lambda>e. (ev_id e, ev_depends_on e)) evs) = Inr order) \<longleftrightarrow>
    (\<forall>ev\<in>set evs. distinct (ev_depends_on ev)) \<and> acyclic (evidence_rel evs)"
proof -
  have keys: "map fst (map (\<lambda>e. (ev_id e, ev_depends_on e)) evs) = map ev_id evs" by simp
  show ?thesis
    using topological_accepts [of "map (\<lambda>e. (ev_id e, ev_depends_on e)) evs", unfolded keys, OF dist]
    by (simp only: declarable_evidence [OF assms] dep_rel_evidence [OF dist])
qed

lemma dep_rel_edges:
  assumes "distinct (map fst edges)"
  shows "dep_rel (map fst edges) (edges_of edges) = {(d, i). \<exists>deps. (i, deps) \<in> set edges \<and> d \<in> set deps}"
proof -
  have "(d, i) \<in> dep_rel (map fst edges) (edges_of edges) \<longleftrightarrow> (\<exists>deps. (i, deps) \<in> set edges \<and> d \<in> set deps)" for d i
  proof (cases "map_of edges i")
    case None
    then have "i \<notin> fst ` set edges" by (simp add: map_of_eq_None_iff)
    moreover from this have "(i, deps) \<notin> set edges" for deps by (metis fst_conv image_eqI)
    ultimately show ?thesis by (auto simp: dep_rel_def)
  next
    case (Some deps)
    then have "(i, x) \<in> set edges \<longleftrightarrow> x = deps" for x
      using assms map_of_eq_Some_iff by fastforce
    moreover have "i \<in> fst ` set edges" using Some map_of_SomeD by force
    ultimately show ?thesis using Some by (auto simp: dep_rel_def edges_of_def)
  qed
  then show ?thesis by auto
qed

lemma declarable_edges:
  assumes "distinct (map fst edges)"
  shows "declarable edges \<longleftrightarrow>
     length edges \<le> 4096 \<and> (\<Sum>(i, deps)\<leftarrow>edges. length deps) \<le> 16384 \<and>
     (\<forall>(i, deps)\<in>set edges. distinct deps \<and> set deps \<subseteq> fst ` set edges)"
proof -
  have of: "edges_of edges (fst e) = snd e" if "e \<in> set edges" for e
    using assms that by (cases e) (simp add: edges_of_def)
  have "(\<Sum>i\<leftarrow>map fst edges. length (edges_of edges i)) = (\<Sum>e\<leftarrow>edges. length (edges_of edges (fst e)))"
    by (simp add: comp_def)
  also have "\<dots> = (\<Sum>(i, deps)\<leftarrow>edges. length deps)"
    by (intro arg_cong [where f = sum_list] map_cong refl) (simp add: of split_def)
  finally have sum: "(\<Sum>i\<leftarrow>map fst edges. length (edges_of edges i)) = (\<Sum>(i, deps)\<leftarrow>edges. length deps)" .
  have "(\<forall>i\<in>set (map fst edges). declared (set (map fst edges)) (edges_of edges) i) \<longleftrightarrow>
      (\<forall>(i, deps)\<in>set edges. distinct deps \<and> set deps \<subseteq> fst ` set edges)"
    using of by (simp add: declared_def split_def)
  then show ?thesis
    unfolding declarable_def sum_list_sort sum by (auto simp: MaxGraphEntries_def MaxGraphReferences_def)
qed

lemma conj_tail:
  "(e' \<Longrightarrow> f = f') \<Longrightarrow> (a \<Longrightarrow> e' \<Longrightarrow> f' \<Longrightarrow> t = t') \<Longrightarrow>
     (a \<and> c \<and> ob \<and> e' \<and> f \<and> t) \<longleftrightarrow> (a \<and> c \<and> ob \<and> e' \<and> f' \<and> t')"
  by blast

lemma validate_dataset_wf:
  "validate_dataset d = None \<longleftrightarrow> dataset_wf d"
proof -
  let ?ctx = "ctx_id ` set (ds_contexts d)" and ?obs = "ds_observations d" and ?evs = "ds_evidence d"
  let ?m = "map (\<lambda>ob. (ob_id ob, ob)) ?obs"
  let ?edges = "map (\<lambda>e. (ev_id e, ev_depends_on e)) ?evs" and ?em = "map (\<lambda>e. (ev_id e, e)) ?evs"
  let ?H = "ds_run_id d \<noteq> '''' \<and> ds_at d \<noteq> 0 \<and> length (ds_contexts d) + length ?obs + length ?evs \<le> MaxGraphEntries"
  let ?C = "(\<forall>c\<in>set (ds_contexts d). context_ok c) \<and> distinct (map ctx_id (ds_contexts d))"
  let ?O = "(\<forall>obs\<in>set ?obs. observation_ok ?ctx obs) \<and> distinct (map ob_id ?obs) \<and> distinct (fact_ids ?obs) \<and>
     length (fact_ids ?obs) \<le> MaxGraphEntries"
  let ?E = "(\<forall>ev\<in>set ?evs. evidence_ok ?ctx ?obs ev) \<and> distinct (map ev_id ?evs) \<and>
     reference_count ?evs \<le> MaxGraphReferences"
  let ?edge = "first_error (\<lambda>(i, deps). first_error (\<lambda>dep.
     edge_error (lookup_evidence ?em dep) (lookup_evidence ?em i)) deps) ?edges"
  let ?D = "\<forall>ev\<in>set ?evs. \<forall>dep\<in>set (ev_depends_on ev). evidence_dep_ok ?evs ev dep"
  let ?T = "(\<forall>ev\<in>set ?evs. distinct (ev_depends_on ev)) \<and> acyclic (evidence_rel ?evs)"
  have C: "index_contexts (ds_contexts d) {} = Inr r \<longleftrightarrow> ?C \<and> r = ?ctx" for r
    by (auto simp: index_contexts_Inr)
  have Ob: "index_observations ?obs ?ctx [] [] = Inr r \<longleftrightarrow> ?O \<and> r = ?m" for r
    by (auto simp: index_observations_Inr)
  have Ev: "index_evidence ?ctx ?m ?evs [] [] 0 = Inr r \<longleftrightarrow> ?E \<and> r = (?edges, ?em)" if "?O" for r
    using index_evidence_Inr [of ?obs 0 ?ctx ?evs "[]" "[]" r] that by auto
  have Ed: "?edge = None \<longleftrightarrow> ?D" if "?E"
    using edges_check_None [of ?evs ?ctx ?obs] that by blast
  have To: "(\<exists>order. topological ?edges = Inr order) \<longleftrightarrow> ?T" if "?H" "?E" "?D"
    using evidence_topological [of ?evs] that by simp
  have split: "dataset_wf d \<longleftrightarrow> ?H \<and> ?C \<and> ?O \<and> ?E \<and> ?D \<and> ?T" unfolding dataset_wf_def by blast
  have "validate_dataset d = None \<longleftrightarrow> ?H \<and> (\<exists>c. index_contexts (ds_contexts d) {} = Inr c \<and>
      (\<exists>m. index_observations ?obs c [] [] = Inr m \<and>
      (\<exists>edges evidence. index_evidence c m ?evs [] [] 0 = Inr (edges, evidence) \<and>
        first_error (\<lambda>(i, deps). first_error (\<lambda>dep.
            edge_error (lookup_evidence evidence dep) (lookup_evidence evidence i)) deps) edges = None \<and>
        (\<exists>order. topological edges = Inr order))))"
    unfolding validate_dataset_def is_zero_def
    by (simp only: res_simps split_paired_Ex prod.case simp_thms de_Morgan_disj not_less ex_simps conj_assoc)
  also have "\<dots> \<longleftrightarrow> ?H \<and> ?C \<and> (\<exists>m. index_observations ?obs ?ctx [] [] = Inr m \<and>
      (\<exists>edges evidence. index_evidence ?ctx m ?evs [] [] 0 = Inr (edges, evidence) \<and>
        first_error (\<lambda>(i, deps). first_error (\<lambda>dep.
            edge_error (lookup_evidence evidence dep) (lookup_evidence evidence i)) deps) edges = None \<and>
        (\<exists>order. topological edges = Inr order)))" 
    by (simp only: C conj_assoc ex_simps simp_thms)
  also have "\<dots> \<longleftrightarrow> ?H \<and> ?C \<and> ?O \<and> (\<exists>edges evidence. index_evidence ?ctx ?m ?evs [] [] 0 = Inr (edges, evidence) \<and>
        first_error (\<lambda>(i, deps). first_error (\<lambda>dep.
            edge_error (lookup_evidence evidence dep) (lookup_evidence evidence i)) deps) edges = None \<and>
        (\<exists>order. topological edges = Inr order))" 
    by (simp only: Ob conj_assoc ex_simps simp_thms)
  also have "\<dots> \<longleftrightarrow> ?H \<and> ?C \<and> ?O \<and> ?E \<and> ?edge = None \<and> (\<exists>order. topological ?edges = Inr order)"

  proof (cases ?O)
    case True
    show ?thesis by (simp only: Ev [OF True] prod.inject conj_assoc ex_simps simp_thms)
  qed (simp only: simp_thms)
  also have "\<dots> \<longleftrightarrow> dataset_wf d"
    unfolding split by (rule conj_tail [OF Ed To])
  finally show ?thesis .
qed

section \<open>Properties\<close>

text \<open>on a map of dependencies, \<open>topological\<close> returns an order exactly when the map and the
  references are within their limits, no entry repeats a dependency or names an undeclared one,
  and the dependency relation is acyclic; otherwise it returns an error.
\<close>

lemma topological_accepts_acyclic:
  assumes "distinct (map fst edges)"
  shows "(\<exists>order. topological edges = Inr order) \<longleftrightarrow>
     length edges \<le> 4096 \<and> (\<Sum>(i, deps)\<leftarrow>edges. length deps) \<le> 16384 \<and>
     (\<forall>(i, deps)\<in>set edges. distinct deps \<and> set deps \<subseteq> fst ` set edges) \<and>
     acyclic {(d, i). \<exists>deps. (i, deps) \<in> set edges \<and> d \<in> set deps}"
  unfolding topological_accepts [OF assms] dep_rel_edges [OF assms] declarable_edges [OF assms]
  by (simp only: conj_assoc)

lemma topological_accepts_acyclic_witness:
  "distinct (map fst [(''b'', [''a'']), (''a'', [])]) \<and>
   (\<exists>order. topological [(''b'', [''a'']), (''a'', [])] = Inr order) =
     acyclic {(d, i). \<exists>deps. (i, deps) \<in> set [(''b'', [''a'']), (''a'', [])] \<and> d \<in> set deps}"
proof -
  have d: "distinct (map fst [(''b'', [''a'']), (''a'', [])])" by simp
  show ?thesis by (subst topological_accepts_acyclic [OF d]) simp
qed

text \<open>the order \<open>topological\<close> returns is the only one with three properties: it lists every
  node once, every node after its dependencies, and each node is the least, in string order, of
  those whose dependencies are already listed. In particular it does not depend on the
  iteration order of the map.
\<close>

lemma topological_order_unique:
  assumes "distinct (map fst edges)" and "topological edges = Inr order"
  shows "mset order = mset (map fst edges) \<and> topo_order (edges_of edges) order \<and>
     greedy_from (\<lambda>i. i) (map fst edges) (edges_of edges) {} order \<and>
     (\<forall>other. mset other = mset (map fst edges) \<and> topo_order (edges_of edges) other \<and>
        greedy_from (\<lambda>i. i) (map fst edges) (edges_of edges) {} other \<longrightarrow> other = order) \<and>
     (\<forall>edges'. mset edges' = mset edges \<longrightarrow> topological edges' = Inr order)"
proof -
  have "topological edges' = Inr order" if "mset edges' = mset edges" for edges'
    using topological_mset [OF assms(1)] that assms(2) by metis
  moreover have "other = order" if "topological edges = Inr other" for other
    using that assms(2) by simp
  ultimately show ?thesis
    using iffD1 [OF topological_Inr [OF assms(1)] assms(2)] topological_Inr [OF assms(1)] by blast
qed

lemma topological_order_unique_witness:
  "topological [(''c'', [''a'']), (''b'', []), (''a'', [])] = Inr [''a'', ''b'', ''c''] \<and>
   topological [(''a'', []), (''b'', []), (''c'', [''a''])] = Inr [''a'', ''b'', ''c'']"
proof -
  let ?e = "[(''c'', [''a'']), (''b'', []), (''a'', [])] :: (string \<times> string list) list"
  have d: "distinct (map fst ?e)" by simp
  have t: "topological ?e = Inr [''a'', ''b'', ''c'']"
    by (simp add: topological_def MaxGraphEntries_def MaxGraphReferences_def Let_def edges_of_def
        slice_push_def)
  with topological_order_unique [OF d t] show ?thesis by simp
qed

text \<open>
  C34: \<open>ValidateDataset\<close> accepts a dataset exactly when it satisfies the declarative
  conditions of \<open>dataset_wf\<close>: sizes within the limits, valid and unique contexts,
  observations, facts and evidence, references that exist in the same scope and are neither
  later nor less complete than what rests on them, and acyclic evidence dependencies.
\<close>

theorem validate_dataset_spec:
  "validate_dataset d = None \<longleftrightarrow> dataset_wf d"
  by (rule validate_dataset_wf)

end
