(* ===== verification/Resolver.thy ===== *)
theory Resolver
  imports Model_Core "HOL-Library.Product_Lexorder"
begin

text \<open>
  Evidence resolution of \<open>internal/capability/resolver.go\<close>. \<open>Resolve\<close> is \<open>resolve\<close>; its two
  loops are \<open>select_loop\<close> and \<open>rank_loop\<close>. \<open>weaker\<close> indexes a slice with the result of
  \<open>slices.Index\<close>, which is -1 for an absent value: that panic is \<open>None\<close> here, and so is a
  panic of anything that calls it; \<open>resolve_total\<close> excludes it. \<open>sort.Slice\<close> is a stable
  sort: the order of equal identifiers, which Go leaves open, does not arise on a validated
  dataset.
\<close>

record resolution =
  res_capability :: capability
  res_superseded :: "evidence_ref list"
  res_diagnostics :: "diagnostic list"

definition diagnostic_of :: "string \<Rightarrow> string \<Rightarrow> string \<Rightarrow> diagnostic" where
  "diagnostic_of c m ref = \<lparr>code = c, msg = Text m, reference = ref\<rparr>"

definition confidence_levels :: "confidence_level list" where
  "confidence_levels = [ConfidenceUnknown, ConfidenceHeuristic, ConfidenceDerived, ConfidenceVerified]"

definition weaker :: "confidence_level \<Rightarrow> confidence_level \<Rightarrow> confidence_level option" where
  "weaker a b =
     (case (index_of a confidence_levels, index_of b confidence_levels) of
        (Some i, Some j) \<Rightarrow> Some (confidence_levels ! min i j)
      | _ \<Rightarrow> None)"

definition confidence :: "evidence \<Rightarrow> confidence_level option" where
  "confidence ev =
     weaker (if ev_precedence ev = PrecedenceLive \<or> ev_precedence ev = PrecedenceRuntime then ConfidenceVerified
             else if ev_precedence ev = PrecedenceConfig then ConfidenceDerived
             else ConfidenceHeuristic) (ev_confidence ev)"

definition unusable :: "evidence \<Rightarrow> scope \<Rightarrow> instant \<Rightarrow> string" where
  "unusable ev scope at =
     (if run_id (ev_scope ev) \<noteq> run_id scope \<or> after (ev_timestamp ev) at then ''stale_evidence''
      else if ev_scope ev \<noteq> scope then ''incompatible_scope''
      else if evidence_validate ev \<noteq> None \<or> state_is_valid (ev_state ev) \<noteq> None \<or>
              confidence_is_valid (ev_confidence ev) \<noteq> None then ''invalid_evidence''
      else if ev_completeness ev \<noteq> Complete then ''incomplete_evidence''
      else '''')"

text \<open>The first loop: the usable evidence of the claim, its best precedence, the exclusions.\<close>

fun select_loop :: "scope \<Rightarrow> capability_id \<Rightarrow> instant \<Rightarrow> evidence list \<Rightarrow>
    evidence list \<times> precedence \<times> diagnostic list \<Rightarrow> evidence list \<times> precedence \<times> diagnostic list" where
  "select_loop scope cid at [] s = s"
| "select_loop scope cid at (ev # evs) (selected, best, diags) =
     (if ev_claim ev \<noteq> cid then select_loop scope cid at evs (selected, best, diags)
      else if unusable ev scope at \<noteq> '''' then
        select_loop scope cid at evs
          (selected, best, diags @ [diagnostic_of (unusable ev scope at) ''evidence excluded from resolution'' (ev_id ev)])
      else select_loop scope cid at evs (selected @ [ev], min best (ev_precedence ev), diags))"

text \<open>The second loop: the evidence at the best precedence decides, the rest is superseded.\<close>

fun rank_loop :: "precedence \<Rightarrow> evidence list \<Rightarrow> bool \<Rightarrow> resolution \<Rightarrow> resolution option" where
  "rank_loop best [] first r = Some r"
| "rank_loop best (ev # evs) first r =
     (if ev_precedence ev \<noteq> best then rank_loop best evs first (r\<lparr>res_superseded := res_superseded r @ [ev_id ev]\<rparr>)
      else
        let c = (res_capability r)\<lparr>cap_evidence := cap_evidence (res_capability r) @ [ev_id ev]\<rparr>
        in case confidence ev of None \<Rightarrow> None | Some conf \<Rightarrow>
          if first then
            rank_loop best evs False (r\<lparr>res_capability := c\<lparr>cap_state := ev_state ev, cap_confidence := conf,
              cap_reason := ''selected complete '' @ precedence_string best @ '' evidence''\<rparr>\<rparr>)
          else
            let c' = (if ev_state ev \<noteq> cap_state c
                      then c\<lparr>cap_state := StateUnknown, cap_reason := ''conflicting evidence at equal precedence''\<rparr>
                      else c)
            in case weaker (cap_confidence c') conf of None \<Rightarrow> None
               | Some w \<Rightarrow> rank_loop best evs False (r\<lparr>res_capability := c'\<lparr>cap_confidence := w\<rparr>\<rparr>))"

definition initial_resolution :: "scope \<Rightarrow> capability_id \<Rightarrow> resolution" where
  "initial_resolution scope cid =
     \<lparr>res_capability = \<lparr>cap_scope = scope, cap_id = cid, cap_state = StateUnknown,
        cap_confidence = ConfidenceUnknown, cap_reason = ''no complete evidence for this candidate'',
        cap_evidence = []\<rparr>, res_superseded = [], res_diagnostics = []\<rparr>"

definition settle_unknown :: "resolution \<Rightarrow> resolution" where
  "settle_unknown r =
     (if cap_state (res_capability r) = StateUnknown
      then r\<lparr>res_capability := (res_capability r)\<lparr>cap_confidence := ConfidenceUnknown\<rparr>\<rparr> else r)"

definition resolve :: "scope \<Rightarrow> capability_id \<Rightarrow> instant \<Rightarrow> evidence list \<Rightarrow> resolution option" where
  "resolve scope cid at input =
     (let result = initial_resolution scope cid
      in if scope_is_valid scope \<noteq> None \<or> id_validate cid \<noteq> None \<or> is_zero at then
           Some (result\<lparr>res_diagnostics := [diagnostic_of ''invalid_scope'' ''invalid evaluation scope or claim'' '''']\<rparr>)
         else
           let evidence = sort_key ev_id input;
               (selected, best, diags) = select_loop scope cid at evidence ([], PrecedenceHeuristic + 1, [])
           in map_option settle_unknown (rank_loop best selected True (result\<lparr>res_diagnostics := diags\<rparr>)))"

section \<open>The order of confidence\<close>

fun confidence_key :: "confidence_level \<Rightarrow> nat \<times> string" where
  "confidence_key ConfidenceUnknown = (0, '''')"
| "confidence_key ConfidenceHeuristic = (1, '''')"
| "confidence_key ConfidenceDerived = (2, '''')"
| "confidence_key ConfidenceVerified = (3, '''')"
| "confidence_key (OtherConfidence s) = (4, s)"

lemma confidence_key_inject: "confidence_key a = confidence_key b \<longleftrightarrow> a = b"
  by (cases a; cases b) auto

instantiation confidence_level :: linorder
begin

definition less_eq_confidence_level :: "confidence_level \<Rightarrow> confidence_level \<Rightarrow> bool" where
  "less_eq_confidence_level a b \<longleftrightarrow> confidence_key a \<le> confidence_key b"

definition less_confidence_level :: "confidence_level \<Rightarrow> confidence_level \<Rightarrow> bool" where
  "less_confidence_level a b \<longleftrightarrow> confidence_key a < confidence_key b"

instance
proof
  fix a b c :: confidence_level
  show "a \<le> b \<Longrightarrow> b \<le> a \<Longrightarrow> a = b"
    unfolding less_eq_confidence_level_def by (metis confidence_key_inject order_antisym)
  show "a \<le> b \<Longrightarrow> b \<le> c \<Longrightarrow> a \<le> c" unfolding less_eq_confidence_level_def by (rule order_trans)
qed (auto simp: less_eq_confidence_level_def less_confidence_level_def)

end

lemma weaker_min [simp]:
  "confidence_is_valid a = None \<Longrightarrow> confidence_is_valid b = None \<Longrightarrow> weaker a b = Some (min a b)"
  by (cases a; cases b) (auto simp: weaker_def confidence_levels_def min_def less_eq_confidence_level_def)

lemma confidence_is_valid_min [simp]:
  "confidence_is_valid a = None \<Longrightarrow> confidence_is_valid b = None \<Longrightarrow> confidence_is_valid (min a b) = None"
  by (simp add: min_def del: confidence_is_valid_iff)

text \<open>The confidence that evidence of a precedence can carry at most, and what it carries.\<close>

definition ceiling :: "precedence \<Rightarrow> confidence_level" where
  "ceiling p = (if p \<le> PrecedenceRuntime \<and> p \<noteq> 0 then ConfidenceVerified
     else if p = PrecedenceConfig then ConfidenceDerived else ConfidenceHeuristic)"

definition carried :: "evidence \<Rightarrow> confidence_level" where
  "carried ev = min (ceiling (ev_precedence ev)) (ev_confidence ev)"

section \<open>The two loops\<close>

definition eligible :: "scope \<Rightarrow> capability_id \<Rightarrow> instant \<Rightarrow> evidence \<Rightarrow> bool" where
  "eligible scope cid at ev \<longleftrightarrow> ev_claim ev = cid \<and> unusable ev scope at = ''''"

lemma eligible_iff:
  "eligible scope cid at ev \<longleftrightarrow>
     ev_claim ev = cid \<and> ev_scope ev = scope \<and> ev_timestamp ev \<le> at \<and> evidence_validate ev = None \<and>
     state_is_valid (ev_state ev) = None \<and> confidence_is_valid (ev_confidence ev) = None \<and>
     ev_completeness ev = Complete"
  by (auto simp: eligible_def unusable_def after_def simp del: state_is_valid_iff confidence_is_valid_iff)

lemma confidence_carried:
  assumes "eligible scope cid at ev"
  shows "confidence ev = Some (carried ev)" and "confidence_is_valid (carried ev) = None"
proof -
  have p: "ev_precedence ev \<in> {1, 2, 3, 4, 5}" and c: "confidence_is_valid (ev_confidence ev) = None"
    using assms by (auto simp: eligible_iff evidence_validate_None precedence_is_valid_iff)
  then show "confidence ev = Some (carried ev)"
    by (auto simp: confidence_def carried_def ceiling_def precedence_defs simp del: confidence_is_valid_iff)
  have "confidence_is_valid (ceiling (ev_precedence ev)) = None" by (simp add: ceiling_def)
  with c show "confidence_is_valid (carried ev) = None"
    by (simp add: carried_def del: confidence_is_valid_iff)
qed

definition exclusions :: "scope \<Rightarrow> capability_id \<Rightarrow> instant \<Rightarrow> evidence list \<Rightarrow> diagnostic list" where
  "exclusions scope cid at evs =
     map (\<lambda>ev. diagnostic_of (unusable ev scope at) ''evidence excluded from resolution'' (ev_id ev))
       (filter (\<lambda>ev. ev_claim ev = cid \<and> \<not> eligible scope cid at ev) evs)"

lemma select_loop_eq:
  "select_loop scope cid at evs (selected, best, diags) =
     (selected @ filter (eligible scope cid at) evs,
      foldl min best (map ev_precedence (filter (eligible scope cid at) evs)),
      diags @ exclusions scope cid at evs)"
  by (induction evs arbitrary: selected best diags) (auto simp: eligible_def exclusions_def)

lemma foldl_min_Min: "foldl min (b :: 'a::linorder) xs = Min (insert b (set xs))"
proof -
  have "(\<lambda>x s. min s x) = (min :: 'a \<Rightarrow> 'a \<Rightarrow> 'a)" by (auto simp: fun_eq_iff min.commute)
  then have "foldl min b xs = fold min xs b" by (simp add: foldl_conv_fold)
  then show ?thesis using Min.set_eq_fold [of b xs] by simp
qed

definition ranked :: "precedence \<Rightarrow> evidence list \<Rightarrow> capability \<Rightarrow> capability" where
  "ranked best evs c =
     (let D = filter (\<lambda>ev. ev_precedence ev = best) evs;
          agree = (\<forall>ev\<in>set D. ev_state ev = cap_state c)
      in c\<lparr>cap_evidence := cap_evidence c @ map ev_id D,
           cap_state := (if agree then cap_state c else StateUnknown),
           cap_confidence := foldl min (cap_confidence c) (map carried D),
           cap_reason := (if agree then cap_reason c else ''conflicting evidence at equal precedence'')\<rparr>)"

definition rank_step :: "evidence \<Rightarrow> capability \<Rightarrow> capability" where
  "rank_step ev c =
     (let c0 = c\<lparr>cap_evidence := cap_evidence c @ [ev_id ev]\<rparr>;
          c1 = (if ev_state ev \<noteq> cap_state c0
            then c0\<lparr>cap_state := StateUnknown, cap_reason := ''conflicting evidence at equal precedence''\<rparr> else c0)
      in c1\<lparr>cap_confidence := min (cap_confidence c) (carried ev)\<rparr>)"

lemma ranked_Cons:
  assumes "ev_precedence ev = best"
  shows "ranked best (ev # evs) c = ranked best evs (rank_step ev c)"
proof (cases "ev_state ev = cap_state c")
  case True
  then show ?thesis using assms by (cases c) (simp add: rank_step_def ranked_def Let_def, blast)
next
  case False
  then show ?thesis using assms by (cases c) (simp add: rank_step_def ranked_def Let_def)
qed

lemma rank_loop_rest:
  "\<forall>ev\<in>set evs. eligible scope cid at ev \<Longrightarrow> confidence_is_valid (cap_confidence (res_capability r)) = None \<Longrightarrow>
   rank_loop best evs False r = Some (r\<lparr>res_capability := ranked best evs (res_capability r),
     res_superseded := res_superseded r @ map ev_id (filter (\<lambda>ev. ev_precedence ev \<noteq> best) evs)\<rparr>)"
proof (induction evs arbitrary: r)
  case Nil
  then show ?case by (simp add: ranked_def)
next
  case (Cons ev evs)
  have e: "eligible scope cid at ev" and es: "\<forall>ev\<in>set evs. eligible scope cid at ev" using Cons.prems(1) by auto
  note conf = confidence_carried [OF e]
  show ?case
  proof (cases "ev_precedence ev = best")
    case False
    have "rank_loop best (ev # evs) False r =
        rank_loop best evs False (r\<lparr>res_superseded := res_superseded r @ [ev_id ev]\<rparr>)" using False by simp
    also note Cons.IH [OF es]
    finally show ?thesis using False Cons.prems(2) by (simp add: ranked_def del: confidence_is_valid_iff)
  next
    case True
    let ?c = "res_capability r"
    have "rank_loop best (ev # evs) False r = rank_loop best evs False (r\<lparr>res_capability := rank_step ev ?c\<rparr>)"
      using True conf Cons.prems(2)
      by (cases "ev_state ev = cap_state ?c") (simp_all add: rank_step_def Let_def del: confidence_is_valid_iff)
    also have "\<dots> = Some (r\<lparr>res_capability := ranked best evs (rank_step ev ?c),
        res_superseded := res_superseded r @ map ev_id (filter (\<lambda>ev. ev_precedence ev \<noteq> best) evs)\<rparr>)"
      using Cons.IH [OF es, of "r\<lparr>res_capability := rank_step ev ?c\<rparr>"] conf Cons.prems(2)
      by (simp add: rank_step_def Let_def del: confidence_is_valid_iff)
    also have "ranked best evs (rank_step ev ?c) = ranked best (ev # evs) ?c"
      using ranked_Cons [OF True, of evs ?c] by simp
    finally show ?thesis using True by simp
  qed
qed

lemma ranked_filter: "ranked best (filter (\<lambda>ev. ev_precedence ev = best) evs) c = ranked best evs c"
  by (simp add: ranked_def)

definition first_choice :: "precedence \<Rightarrow> evidence \<Rightarrow> capability \<Rightarrow> capability" where
  "first_choice best ev c =
     c\<lparr>cap_evidence := cap_evidence c @ [ev_id ev], cap_state := ev_state ev, cap_confidence := carried ev,
       cap_reason := ''selected complete '' @ precedence_string best @ '' evidence''\<rparr>"

lemma rank_loop_first:
  "\<forall>ev\<in>set evs. eligible scope cid at ev \<Longrightarrow>
   rank_loop best evs True r = Some (r\<lparr>
     res_capability := (case filter (\<lambda>ev. ev_precedence ev = best) evs of [] \<Rightarrow> res_capability r
        | d # ds \<Rightarrow> ranked best ds (first_choice best d (res_capability r))),
     res_superseded := res_superseded r @ map ev_id (filter (\<lambda>ev. ev_precedence ev \<noteq> best) evs)\<rparr>)"
proof (induction evs arbitrary: r)
  case Nil
  then show ?case by simp
next
  case (Cons ev evs)
  have e: "eligible scope cid at ev" and es: "\<forall>ev\<in>set evs. eligible scope cid at ev" using Cons.prems(1) by auto
  note conf = confidence_carried [OF e]
  show ?case
  proof (cases "ev_precedence ev = best")
    case False
    have "rank_loop best (ev # evs) True r =
        rank_loop best evs True (r\<lparr>res_superseded := res_superseded r @ [ev_id ev]\<rparr>)" using False by simp
    also note Cons.IH [OF es]
    finally show ?thesis using False by (simp split: list.split)
  next
    case True
    have "rank_loop best (ev # evs) True r =
        rank_loop best evs False (r\<lparr>res_capability := first_choice best ev (res_capability r)\<rparr>)"
      using True conf by (simp add: first_choice_def Let_def del: confidence_is_valid_iff)
    also have "\<dots> = Some (r\<lparr>res_capability := ranked best evs (first_choice best ev (res_capability r)),
        res_superseded := res_superseded r @ map ev_id (filter (\<lambda>ev. ev_precedence ev \<noteq> best) evs)\<rparr>)"
      using rank_loop_rest [OF es, of "r\<lparr>res_capability := first_choice best ev (res_capability r)\<rparr>"] conf
      by (simp add: first_choice_def del: confidence_is_valid_iff)
    finally show ?thesis using True by (simp add: ranked_filter)
  qed
qed

section \<open>What is resolved\<close>

definition candidates :: "scope \<Rightarrow> capability_id \<Rightarrow> instant \<Rightarrow> evidence list \<Rightarrow> evidence list" where
  "candidates scope cid at input = filter (eligible scope cid at) (sort_key ev_id input)"

text \<open>The evidence that decides: the eligible evidence no eligible evidence overrides.\<close>

definition decisive :: "scope \<Rightarrow> capability_id \<Rightarrow> instant \<Rightarrow> evidence list \<Rightarrow> evidence list" where
  "decisive scope cid at input =
     filter (\<lambda>ev. \<forall>other\<in>set (candidates scope cid at input). \<not> overrides (ev_precedence other) (ev_precedence ev))
       (candidates scope cid at input)"

definition verdict :: "precedence \<Rightarrow> evidence list \<Rightarrow> capability \<Rightarrow> capability" where
  "verdict best D c = (case D of [] \<Rightarrow> c | d # ds \<Rightarrow> ranked best ds (first_choice best d c))"

lemma candidates_eligible: "ev \<in> set (candidates scope cid at input) \<Longrightarrow> eligible scope cid at ev"
  by (simp add: candidates_def)

lemma best_precedence:
  assumes "\<forall>ev\<in>set E. eligible scope cid at ev"
  defines "best \<equiv> foldl min (PrecedenceHeuristic + 1) (map ev_precedence E)"
  shows "ev \<in> set E \<Longrightarrow> ev_precedence ev = best \<longleftrightarrow>
     (\<forall>other\<in>set E. \<not> overrides (ev_precedence other) (ev_precedence ev))"
    and "E \<noteq> [] \<Longrightarrow> \<exists>ev\<in>set E. ev_precedence ev = best"
proof -
  have valid: "precedence_is_valid (ev_precedence ev) = None" if "ev \<in> set E" for ev
    using assms(1) that by (simp add: eligible_iff evidence_validate_None)
  have less: "ev_precedence ev < PrecedenceHeuristic + 1" if "ev \<in> set E" for ev
    using valid [OF that] by (auto simp: precedence_is_valid_iff precedence_defs)
  have best: "best = Min (insert (PrecedenceHeuristic + 1) (ev_precedence ` set E))"
    by (simp add: best_def foldl_min_Min)
  have lower: "best \<le> ev_precedence ev" if "ev \<in> set E" for ev unfolding best using that by simp
  show some: "\<exists>ev\<in>set E. ev_precedence ev = best" if ne: "E \<noteq> []"
  proof -
    obtain a where a: "a \<in> set E" using ne by (cases E) auto
    have "best \<in> insert (PrecedenceHeuristic + 1) (ev_precedence ` set E)" unfolding best by (rule Min_in) auto
    moreover have "best \<noteq> PrecedenceHeuristic + 1" using lower [OF a] less [OF a] by auto
    ultimately show ?thesis by auto
  qed
  show "ev_precedence ev = best \<longleftrightarrow> (\<forall>other\<in>set E. \<not> overrides (ev_precedence other) (ev_precedence ev))"
    if "ev \<in> set E"
  proof
    assume "ev_precedence ev = best"
    then show "\<forall>other\<in>set E. \<not> overrides (ev_precedence other) (ev_precedence ev)"
      using lower by (metis overrides_def not_le)
  next
    assume none: "\<forall>other\<in>set E. \<not> overrides (ev_precedence other) (ev_precedence ev)"
    from that some obtain b where b: "b \<in> set E" "ev_precedence b = best" by fastforce
    then have "\<not> best < ev_precedence ev" using none valid [OF that] valid [OF b(1)] by (auto simp: overrides_def)
    with lower [OF that] show "ev_precedence ev = best" by simp
  qed
qed

lemma resolve_eq:
  assumes "scope_is_valid scope = None" and "id_validate cid = None" and "\<not> is_zero at"
  shows "resolve scope cid at input = Some (settle_unknown
     \<lparr>res_capability = verdict (foldl min (PrecedenceHeuristic + 1) (map ev_precedence (candidates scope cid at input)))
        (decisive scope cid at input) (res_capability (initial_resolution scope cid)),
      res_superseded = map ev_id (filter (\<lambda>ev. ev \<notin> set (decisive scope cid at input)) (candidates scope cid at input)),
      res_diagnostics = exclusions scope cid at (sort_key ev_id input)\<rparr>)"
proof -
  let ?E = "candidates scope cid at input"
  let ?best = "foldl min (PrecedenceHeuristic + 1) (map ev_precedence ?E)"
  have el: "\<forall>ev\<in>set ?E. eligible scope cid at ev" by (simp add: candidates_def)
  note bp = best_precedence(1) [OF el]
  have D: "filter (\<lambda>ev. ev_precedence ev = ?best) ?E = decisive scope cid at input"
    unfolding decisive_def by (rule filter_cong) (use bp in auto)
  have S: "filter (\<lambda>ev. ev_precedence ev \<noteq> ?best) ?E = filter (\<lambda>ev. ev \<notin> set (decisive scope cid at input)) ?E"
    unfolding D [symmetric] by (rule filter_cong) auto
  show ?thesis
    using assms rank_loop_first [OF el, of ?best] unfolding D S
    by (simp add: resolve_def Let_def select_loop_eq candidates_def [symmetric] verdict_def initial_resolution_def
        del: rank_loop.simps split: list.split)
qed

lemma ranked_fields:
  "cap_scope (ranked best D c) = cap_scope c" "cap_id (ranked best D c) = cap_id c"
  by (simp_all add: ranked_def Let_def)

lemma verdict_fields:
  assumes "\<forall>ev\<in>set D. ev_precedence ev = best" and "D \<noteq> []"
  shows "cap_evidence (verdict best D c) = cap_evidence c @ map ev_id D"
    and "cap_state (verdict best D c) =
      (if \<forall>ev\<in>set D. ev_state ev = ev_state (hd D) then ev_state (hd D) else StateUnknown)"
    and "cap_confidence (verdict best D c) = Min (carried ` set D)"
    and "cap_scope (verdict best D c) = cap_scope c" "cap_id (verdict best D c) = cap_id c"
proof -
  obtain d ds where D: "D = d # ds" using assms(2) by (cases D) auto
  have all: "\<forall>ev\<in>set ds. ev_precedence ev = best" using assms(1) D by simp
  then have ds: "filter (\<lambda>ev. ev_precedence ev = best) ds = ds" by simp
  show "cap_evidence (verdict best D c) = cap_evidence c @ map ev_id D"
    and "cap_state (verdict best D c) =
      (if \<forall>ev\<in>set D. ev_state ev = ev_state (hd D) then ev_state (hd D) else StateUnknown)"
    and "cap_scope (verdict best D c) = cap_scope c" "cap_id (verdict best D c) = cap_id c"
    using all by (simp_all add: D verdict_def ranked_def first_choice_def ds Let_def cong: conj_cong)
  show "cap_confidence (verdict best D c) = Min (carried ` set D)"
    by (simp add: D verdict_def ranked_def first_choice_def ds Let_def foldl_min_Min del: set_filter)
qed

lemma settle_unknown_fields [simp]:
  "cap_state (res_capability (settle_unknown r)) = cap_state (res_capability r)"
  "cap_evidence (res_capability (settle_unknown r)) = cap_evidence (res_capability r)"
  "cap_scope (res_capability (settle_unknown r)) = cap_scope (res_capability r)"
  "cap_id (res_capability (settle_unknown r)) = cap_id (res_capability r)"
  "res_superseded (settle_unknown r) = res_superseded r"
  "res_diagnostics (settle_unknown r) = res_diagnostics r"
  "cap_confidence (res_capability (settle_unknown r)) =
     (if cap_state (res_capability r) = StateUnknown then ConfidenceUnknown else cap_confidence (res_capability r))"
  by (auto simp: settle_unknown_def)

lemma decisive_same_precedence:
  "\<forall>ev\<in>set (decisive scope cid at input).
     ev_precedence ev = foldl min (PrecedenceHeuristic + 1) (map ev_precedence (candidates scope cid at input))"
  using best_precedence(1) [of "candidates scope cid at input" scope cid at] candidates_eligible
  by (auto simp: decisive_def)

lemma decisive_eligible: "ev \<in> set (decisive scope cid at input) \<Longrightarrow> eligible scope cid at ev"
  by (simp add: decisive_def candidates_def)

lemma decisive_Nil: "decisive scope cid at input = [] \<longleftrightarrow> candidates scope cid at input = []"
proof
  assume D: "decisive scope cid at input = []"
  show "candidates scope cid at input = []"
  proof (rule ccontr)
    assume "candidates scope cid at input \<noteq> []"
    with best_precedence [of "candidates scope cid at input" scope cid at] candidates_eligible
    obtain ev where "ev \<in> set (candidates scope cid at input)"
      "\<forall>other\<in>set (candidates scope cid at input). \<not> overrides (ev_precedence other) (ev_precedence ev)" by meson
    then have "ev \<in> set (decisive scope cid at input)" by (simp add: decisive_def)
    with D show False by simp
  qed
qed (simp add: decisive_def)

lemma decisive_only:
  assumes "\<forall>ev\<in>set D. ev \<in> set (decisive scope cid at input)"
  shows "decisive scope cid at D = sort_key ev_id D"
proof -
  have "filter (eligible scope cid at) (sort_key ev_id D) = sort_key ev_id D"
    using assms decisive_eligible by (intro filter_True) auto
  then have c: "candidates scope cid at D = sort_key ev_id D" by (simp add: candidates_def)
  have "\<not> overrides (ev_precedence x) (ev_precedence y)" if "x \<in> set D" "y \<in> set D" for x y
  proof -
    have "x \<in> set (decisive scope cid at input)" "y \<in> set (decisive scope cid at input)" using assms that by auto
    then have "ev_precedence x = ev_precedence y" using decisive_same_precedence by metis
    then show ?thesis by (simp add: overrides_def)
  qed
  then show ?thesis unfolding decisive_def c by (intro filter_True) simp
qed

lemma decisive_sorted: "sorted (map ev_id (decisive scope cid at input))"
  unfolding decisive_def candidates_def by (intro sorted_filter sorted_sort_key)

lemma sort_key_mset:
  assumes "mset xs = mset ys" and "distinct (map k xs)"
  shows "sort_key k xs = sort_key k ys"
proof (rule sorted_key_unique)
  show "inj_on k (set (sort_key k xs))" using assms(2) by (simp add: distinct_map)
qed (use assms(1) in auto)

text \<open>Example data for the witnesses.\<close>

definition example_scope :: scope where
  "example_scope = \<lparr>run_id = ''r'', context_id = ''c'', sc_runtime = '''', sc_endpoint = ''''\<rparr>"

definition example_evidence :: "string \<Rightarrow> evidence" where
  "example_evidence i = \<lparr>ev_id = i, ev_source = ''probe'', ev_claim = ''runtime.podman'', ev_precedence = 1,
     ev_observations = [\<lparr>or_id = ''ob'', or_probe = ''p''\<rparr>], ev_timestamp = 5, ev_scope = example_scope,
     ev_completeness = Complete, ev_state = StateSupported, ev_confidence = ConfidenceVerified, ev_depends_on = []\<rparr>"

lemma resolve_result:
  "\<exists>r. resolve scope cid at input = Some r \<and> cap_id (res_capability r) = cid \<and> cap_scope (res_capability r) = scope \<and>
     state_is_valid (cap_state (res_capability r)) = None \<and>
     confidence_is_valid (cap_confidence (res_capability r)) = None \<and>
     (cap_state (res_capability r) \<noteq> StateUnknown \<or> cap_confidence (res_capability r) = ConfidenceUnknown)"
proof (cases "scope_is_valid scope = None \<and> id_validate cid = None \<and> \<not> is_zero at")
  case False
  then show ?thesis by (auto simp: resolve_def Let_def initial_resolution_def)
next
  case True
  let ?D = "decisive scope cid at input" and ?c = "res_capability (initial_resolution scope cid)"
  have carried: "confidence_is_valid (carried ev) = None" "state_is_valid (ev_state ev) = None" if "ev \<in> set ?D" for ev
    using confidence_carried(2) decisive_eligible [OF that] by (blast, simp add: eligible_iff)
  show ?thesis
  proof (cases "?D = []")
    case True
    with resolve_eq [of scope cid at input] \<open>scope_is_valid scope = None \<and> id_validate cid = None \<and> \<not> is_zero at\<close>
    show ?thesis by (simp add: verdict_def initial_resolution_def)
  next
    case False
    note v = verdict_fields [OF decisive_same_precedence False, of ?c]
    have "Min (carried ` set ?D) \<in> carried ` set ?D" using False by simp
    then have "confidence_is_valid (Min (carried ` set ?D)) = None" using carried by force
    moreover have "state_is_valid (ev_state (hd ?D)) = None" using False carried by simp
    ultimately show ?thesis
      using True resolve_eq [of scope cid at input] v
      by (simp add: initial_resolution_def del: state_is_valid_iff confidence_is_valid_iff)
  qed
qed

lemma resolve_outcome:
  assumes "scope_is_valid scope = None" and "id_validate cid = None" and "\<not> is_zero at"
  shows "\<exists>r. resolve scope cid at input = Some r \<and>
     cap_evidence (res_capability r) = map ev_id (decisive scope cid at input) \<and>
     (\<forall>s. s \<noteq> StateUnknown \<longrightarrow> cap_state (res_capability r) = s \<longleftrightarrow>
        decisive scope cid at input \<noteq> [] \<and> (\<forall>ev\<in>set (decisive scope cid at input). ev_state ev = s)) \<and>
     (cap_state (res_capability r) \<noteq> StateUnknown \<longrightarrow>
        cap_confidence (res_capability r) =
          Min ((\<lambda>ev. min (ceiling (ev_precedence ev)) (ev_confidence ev)) ` set (decisive scope cid at input))) \<and>
     res_superseded r =
       map ev_id (filter (\<lambda>ev. ev \<notin> set (decisive scope cid at input)) (candidates scope cid at input))"
proof (cases "decisive scope cid at input = []")
  case True
  with resolve_eq [OF assms, of input] show ?thesis
    by (auto simp: verdict_def initial_resolution_def)
next
  case False
  let ?c = "res_capability (initial_resolution scope cid)"
  note v = verdict_fields [OF decisive_same_precedence False, of ?c]
  have hd: "hd (decisive scope cid at input) \<in> set (decisive scope cid at input)" using False by simp
  have carried: "carried = (\<lambda>ev. min (ceiling (ev_precedence ev)) (ev_confidence ev))"
    by (simp add: fun_eq_iff carried_def)
  obtain r where r: "resolve scope cid at input = Some r"
    and e: "cap_evidence (res_capability r) = map ev_id (decisive scope cid at input)"
    and st: "cap_state (res_capability r) =
      (if \<forall>ev\<in>set (decisive scope cid at input). ev_state ev = ev_state (hd (decisive scope cid at input))
       then ev_state (hd (decisive scope cid at input)) else StateUnknown)"
    and c: "cap_confidence (res_capability r) =
      (if cap_state (res_capability r) = StateUnknown then ConfidenceUnknown
       else Min (carried ` set (decisive scope cid at input)))"
    and su: "res_superseded r =
      map ev_id (filter (\<lambda>ev. ev \<notin> set (decisive scope cid at input)) (candidates scope cid at input))"
    by (rule that [OF resolve_eq [OF assms, of input]]) (simp_all add: v, simp add: initial_resolution_def)
  have "cap_state (res_capability r) = s \<longleftrightarrow> (\<forall>ev\<in>set (decisive scope cid at input). ev_state ev = s)"
    if "s \<noteq> StateUnknown" for s
    using hd that unfolding st by metis
  with False r e c su show ?thesis unfolding carried by auto
qed

section \<open>Properties\<close>

text \<open>
  \<open>Resolve\<close> returns a result for every input: the table lookup of \<open>weaker\<close>, which
  panics on a value outside the enumeration, is never reached with one, since unvalidated evidence
  is excluded first. The result is about the requested claim and scope, carries a valid state and
  confidence, and an unknown state always has unknown confidence.
\<close>

lemma resolve_total:
  "\<exists>r. resolve scope cid at input = Some r \<and> cap_id (res_capability r) = cid \<and> cap_scope (res_capability r) = scope \<and>
     state_is_valid (cap_state (res_capability r)) = None \<and>
     confidence_is_valid (cap_confidence (res_capability r)) = None \<and>
     (cap_state (res_capability r) \<noteq> StateUnknown \<or> cap_confidence (res_capability r) = ConfidenceUnknown)"
  by (rule resolve_result)

lemma resolve_total_witness:
  "\<exists>r. resolve example_scope ''runtime.podman'' 9 [example_evidence ''a''] = Some r \<and> cap_id (res_capability r) = ''runtime.podman''"
  using resolve_total [of example_scope "''runtime.podman''" 9 "[example_evidence ''a'']"] by blast

text \<open>
  C8: on a valid request, the claim is decided by the eligible evidence (same claim and scope,
  valid, complete, not from the future) that no other eligible evidence overrides. A state other
  than unknown is reported exactly when such evidence exists and all of it agrees on that state,
  and then with the least confidence any of it carries under the ceiling of its precedence; the
  remaining eligible evidence is listed as superseded, in identifier order.
\<close>

theorem resolve_spec:
  assumes "scope_is_valid scope = None" and "id_validate cid = None" and "\<not> is_zero at"
  shows "\<exists>r. resolve scope cid at input = Some r \<and>
     cap_evidence (res_capability r) = map ev_id (decisive scope cid at input) \<and>
     (\<forall>s. s \<noteq> StateUnknown \<longrightarrow> cap_state (res_capability r) = s \<longleftrightarrow>
        decisive scope cid at input \<noteq> [] \<and> (\<forall>ev\<in>set (decisive scope cid at input). ev_state ev = s)) \<and>
     (cap_state (res_capability r) \<noteq> StateUnknown \<longrightarrow>
        cap_confidence (res_capability r) =
          Min ((\<lambda>ev. min (ceiling (ev_precedence ev)) (ev_confidence ev)) ` set (decisive scope cid at input))) \<and>
     res_superseded r =
       map ev_id (filter (\<lambda>ev. ev \<notin> set (decisive scope cid at input)) (candidates scope cid at input))"
  using assms by (rule resolve_outcome)

theorem resolve_spec_witness:
  "\<exists>r. resolve example_scope ''runtime.podman'' 9 [example_evidence ''a''] = Some r \<and>
     cap_evidence (res_capability r) = [''a''] \<and> cap_state (res_capability r) = StateSupported"
proof -
  have s: "scope_is_valid example_scope = None" by (simp add: scope_is_valid_def example_scope_def)
  have i: "id_validate ''runtime.podman'' = None" by code_simp
  have t: "\<not> is_zero 9" by (simp add: is_zero_def)
  have "decisive example_scope ''runtime.podman'' 9 [example_evidence ''a''] = [example_evidence ''a'']"
    by (simp add: decisive_def candidates_def eligible_iff example_evidence_def evidence_validate_None
        precedence_is_valid_iff overrides_def)
  with resolve_spec [OF s i t, of "[example_evidence ''a'']"] show ?thesis
    by (auto simp: example_evidence_def)
qed

text \<open>the resolved capability depends on the decisive evidence alone. Dropping every other piece
  of evidence (overridden, stale, of another scope or claim, incomplete, invalid) from the input
  gives the same capability, so weaker evidence can never shadow stronger evidence.
\<close>

lemma resolve_only_decisive:
  "map_option res_capability (resolve scope cid at (filter (\<lambda>ev. ev \<in> set (decisive scope cid at input)) input)) =
   map_option res_capability (resolve scope cid at input)"
proof (cases "scope_is_valid scope = None \<and> id_validate cid = None \<and> \<not> is_zero at")
  case False
  then show ?thesis by (auto simp: resolve_def Let_def)
next
  case True
  let ?D = "decisive scope cid at input" and ?F = "filter (\<lambda>ev. ev \<in> set (decisive scope cid at input)) input"
  let ?Q = "\<lambda>ev. \<forall>other\<in>set (candidates scope cid at input). \<not> overrides (ev_precedence other) (ev_precedence ev)"
  have D: "?D = sort_key ev_id (filter (\<lambda>ev. ?Q ev \<and> eligible scope cid at ev) input)"
    unfolding decisive_def candidates_def [of scope cid at input] by (simp add: filter_sort conj_commute)
  have "?F = filter (\<lambda>ev. ?Q ev \<and> eligible scope cid at ev) input"
    by (rule filter_cong) (auto simp: D)
  with D have F: "decisive scope cid at ?F = ?D" using decisive_only [of ?F scope cid at input] by simp
  have "verdict (foldl min (PrecedenceHeuristic + 1) (map ev_precedence (candidates scope cid at ?F))) ?D c =
      verdict (foldl min (PrecedenceHeuristic + 1) (map ev_precedence (candidates scope cid at input))) ?D c" for c
  proof (cases ?D)
    case Nil
    then show ?thesis by (simp add: verdict_def)
  next
    case (Cons d ds)
    then have d: "d \<in> set ?D" by simp
    show ?thesis
      using bspec [OF decisive_same_precedence d] bspec [OF decisive_same_precedence [of scope cid at ?F], unfolded F, OF d]
      by (simp only:)
  qed
  with True show ?thesis by (simp add: resolve_eq F settle_unknown_def)
qed

text \<open>
  C9: for evidence with distinct identifiers the order of the input slice does not matter: the
  whole resolution, diagnostics and superseded references included, is the same for every
  permutation.
\<close>

theorem resolve_permutation:
  assumes "mset input = mset input'" and "distinct (map ev_id input)"
  shows "resolve scope cid at input = resolve scope cid at input'"
  unfolding resolve_def sort_key_mset [OF assms] by simp

theorem resolve_permutation_witness:
  "resolve example_scope ''runtime.podman'' 9 [example_evidence ''a'', example_evidence ''b''] =
   resolve example_scope ''runtime.podman'' 9 [example_evidence ''b'', example_evidence ''a'']"
  by (rule resolve_permutation) (simp_all add: example_evidence_def)

end
