(* ===== verification/Capability_Registry.thy ===== *)
theory Capability_Registry
  imports Evidence_Graph Resolver
begin

text \<open>
  The capability registry of \<open>internal/capability/registry.go\<close>: \<open>NewRegistry\<close> orders the
  catalog by its prerequisites, \<open>Evaluate\<close> runs it on one candidate scope. An \<open>Evaluator\<close> is a
  pure function, nil as \<open>None\<close>; a registry is its list of definitions. \<open>Evaluate\<close> returns
  its partial result along with an error, so its model returns both; the outer \<open>None\<close> is a panic
  (a nil evaluator or a panic of \<open>Resolve\<close>), which \<open>evaluate_total\<close> excludes. Cloning a slice
  is the identity on values.
\<close>

type_synonym evaluator = "scope \<Rightarrow> observation list \<Rightarrow> evidence list"

record cap_definition =
  def_id :: capability_id
  def_description :: string
  def_dependencies :: "capability_id list"
  def_evaluate :: "evaluator option"

definition zero_definition :: cap_definition where
  "zero_definition = \<lparr>def_id = '''', def_description = '''', def_dependencies = [], def_evaluate = None\<rparr>"

section \<open>NewRegistry\<close>

fun index_definitions :: "cap_definition list \<Rightarrow> (string \<times> cap_definition) list \<Rightarrow> (string \<times> string list) list \<Rightarrow>
    go_error + (string \<times> cap_definition) list \<times> (string \<times> string list) list" where
  "index_definitions [] byID edges = Inr (byID, edges)"
| "index_definitions (d # ds) byID edges =
     (if id_validate (def_id d) \<noteq> None \<or> def_description d = '''' \<or> def_evaluate d = None
      then Inl (Err ''invalid capability definition'')
      else if map_of byID (def_id d) \<noteq> None then Inl (Err ''duplicate capability definition'')
      else index_definitions ds (byID @ [(def_id d, d)]) (edges @ [(def_id d, def_dependencies d)]))"

definition new_registry :: "cap_definition list \<Rightarrow> go_error + cap_definition list" where
  "new_registry definitions =
     (case index_definitions definitions [] [] of
        Inl err \<Rightarrow> Inl err
      | Inr (byID, edges) \<Rightarrow>
          (case topological edges of
             Inl err \<Rightarrow> Inl err
           | Inr order \<Rightarrow> Inr (map (\<lambda>i. case map_of byID i of None \<Rightarrow> zero_definition | Some d \<Rightarrow> d) order)))"

section \<open>Evaluate\<close>

record evaluation =
  evl_candidate :: candidate
  evl_resolutions :: "resolution list"
  evl_diagnostics :: "diagnostic list"

type_synonym resolved = "capability_id \<Rightarrow> capability option"

type_synonym eval_state = "dataset \<times> resolved \<times> evaluation"

text \<open>A map lookup of an absent key is the zero capability, whose state is not supported.\<close>

fun missing_prerequisite :: "capability_id list \<Rightarrow> resolved \<Rightarrow> string" where
  "missing_prerequisite [] resolved = ''''"
| "missing_prerequisite (dep # deps) resolved =
     (if map_option cap_state (resolved dep) \<noteq> Some StateSupported
      then ''prerequisite '' @ dep @ '' is not supported''
      else missing_prerequisite deps resolved)"

definition record_resolution :: "capability_id \<Rightarrow> resolution \<Rightarrow> eval_state \<Rightarrow> eval_state" where
  "record_resolution cid resolution = (\<lambda>(data, resolved, result).
     (data, resolved(cid \<mapsto> res_capability resolution),
      \<lparr>evl_candidate = (evl_candidate result)
         \<lparr>cand_capabilities := cand_capabilities (evl_candidate result) @ [res_capability resolution]\<rparr>,
       evl_resolutions = evl_resolutions result @ [resolution],
       evl_diagnostics = evl_diagnostics result @ res_diagnostics resolution\<rparr>))"

definition blocked :: "scope \<Rightarrow> capability_id \<Rightarrow> string \<Rightarrow> resolution" where
  "blocked scope cid reason =
     \<lparr>res_capability = \<lparr>cap_scope = scope, cap_id = cid, cap_state = StateUnknown,
        cap_confidence = ConfidenceUnknown, cap_reason = reason, cap_evidence = []\<rparr>,
      res_superseded = [], res_diagnostics = [diagnostic_of ''missing_prerequisite'' reason cid]\<rparr>"

text \<open>One round of the loop over the definitions: the new state, and the error it returns.\<close>

definition evaluate_step :: "scope \<Rightarrow> evaluation_context \<Rightarrow> cap_definition \<Rightarrow> eval_state \<Rightarrow>
    (eval_state \<times> go_error option) option" where
  "evaluate_step scope ec d = (\<lambda>(data, resolved, result).
     let identity = ctx_identity ec;
         reason = (if id_current identity = None \<or> id_target identity = None
           then ''execution or target identity is unobserved''
           else missing_prerequisite (def_dependencies d) resolved)
     in if reason \<noteq> '''' then
          Some (record_resolution (def_id d) (blocked scope (def_id d) reason) (data, resolved, result), None)
        else case def_evaluate d of None \<Rightarrow> None | Some f \<Rightarrow>
          let generated = f scope (ds_observations data)
          in if \<exists>ev\<in>set generated. ev_claim ev \<noteq> def_id d \<or> ev_scope ev \<noteq> scope
             then Some ((data, resolved, result), Some (Err ''evaluator returned another claim or scope''))
             else
               let data' = data\<lparr>ds_evidence := ds_evidence data @ generated\<rparr>
               in case validate_dataset data' of
                    Some err \<Rightarrow> Some ((data', resolved, result), Some err)
                  | None \<Rightarrow>
                      (case resolve scope (def_id d) (ds_at data') (ds_evidence data') of
                         None \<Rightarrow> None
                       | Some resolution \<Rightarrow> Some (record_resolution (def_id d) resolution (data', resolved, result), None)))"

fun evaluate_loop :: "scope \<Rightarrow> evaluation_context \<Rightarrow> cap_definition list \<Rightarrow> eval_state \<Rightarrow>
    (eval_state \<times> go_error option) option" where
  "evaluate_loop scope ec [] s = Some (s, None)"
| "evaluate_loop scope ec (d # ds) s =
     (case evaluate_step scope ec d s of
        None \<Rightarrow> None
      | Some (s', Some err) \<Rightarrow> Some (s', Some err)
      | Some (s', None) \<Rightarrow> evaluate_loop scope ec ds s')"

text \<open>The loop over the contexts keeps the last match.\<close>

definition find_context :: "dataset \<Rightarrow> string \<Rightarrow> evaluation_context option" where
  "find_context data i = List.find (\<lambda>c. ctx_id c = i) (rev (ds_contexts data))"

definition empty_evaluation :: "scope \<Rightarrow> evaluation" where
  "empty_evaluation scope =
     \<lparr>evl_candidate = \<lparr>cand_scope = scope, cand_capabilities = [], cand_evidence = []\<rparr>,
      evl_resolutions = [], evl_diagnostics = []\<rparr>"

definition evaluate :: "cap_definition list \<Rightarrow> scope \<Rightarrow> dataset \<Rightarrow> (evaluation \<times> go_error option) option" where
  "evaluate registry scope data =
     (let result = empty_evaluation scope
      in if scope_is_valid scope \<noteq> None \<or> run_id scope \<noteq> ds_run_id data
         then Some (result, Some (Err ''candidate does not belong to evaluation run''))
         else case validate_dataset data of
           Some err \<Rightarrow> Some (result, Some err)
         | None \<Rightarrow>
             (case find_context data (context_id scope) of
                None \<Rightarrow> Some (result, Some (Err ''candidate context is missing''))
              | Some ec \<Rightarrow>
                  (case evaluate_loop scope ec registry (data, Map.empty, result) of
                     None \<Rightarrow> None
                   | Some ((data', resolved, result'), Some err) \<Rightarrow> Some (result', Some err)
                   | Some ((data', resolved, result'), None) \<Rightarrow>
                       Some (result'\<lparr>evl_candidate := (evl_candidate result')
                         \<lparr>cand_evidence := filter (\<lambda>ev. ev_scope ev = scope) (ds_evidence data')\<rparr>\<rparr>, None))))"

section \<open>The registry is in dependency order\<close>

lemma index_definitions_Inr:
  "index_definitions ds byID edges = Inr r \<longleftrightarrow>
     (\<forall>d\<in>set ds. id_validate (def_id d) = None \<and> def_description d \<noteq> '''' \<and> def_evaluate d \<noteq> None) \<and>
     distinct (map def_id ds) \<and> def_id ` set ds \<inter> fst ` set byID = {} \<and>
     r = (byID @ map (\<lambda>d. (def_id d, d)) ds, edges @ map (\<lambda>d. (def_id d, def_dependencies d)) ds)"
proof (induction ds arbitrary: byID edges)
  case Nil
  then show ?case by auto
next
  case (Cons d ds)
  have fresh: "map_of byID (def_id d) = None \<longleftrightarrow> def_id d \<notin> fst ` set byID" by (simp add: map_of_eq_None_iff)
  show ?case unfolding index_definitions.simps if_error_Inr Cons.IH fresh by auto
qed

lemma new_registry_Inr:
  "new_registry ds = Inr reg \<longleftrightarrow>
     (\<forall>d\<in>set ds. id_validate (def_id d) = None \<and> def_description d \<noteq> '''' \<and> def_evaluate d \<noteq> None) \<and>
     distinct (map def_id ds) \<and>
     (\<exists>order. topological (map (\<lambda>d. (def_id d, def_dependencies d)) ds) = Inr order \<and>
        reg = map (\<lambda>i. case map_of (map (\<lambda>d. (def_id d, d)) ds) i of None \<Rightarrow> zero_definition | Some d \<Rightarrow> d) order)"
  by (auto simp: new_registry_def res_simps index_definitions_Inr)

lemma registry_keys: "map fst (map (\<lambda>d. (def_id d, def_dependencies d)) ds) = map def_id ds"
  by simp

lemma edges_of_definitions:
  assumes "distinct (map def_id ds)" and "d \<in> set ds"
  shows "edges_of (map (\<lambda>d. (def_id d, def_dependencies d)) ds) (def_id d) = def_dependencies d"
proof -
  have "distinct (map fst (map (\<lambda>d. (def_id d, def_dependencies d)) ds))" using assms(1) by (simp add: comp_def)
  moreover have "(def_id d, def_dependencies d) \<in> set (map (\<lambda>d. (def_id d, def_dependencies d)) ds)" using assms(2) by auto
  ultimately show ?thesis by (simp add: edges_of_def)
qed

lemma new_registry_order:
  assumes "new_registry ds = Inr reg"
  shows "mset reg = mset ds" and "distinct (map def_id reg)"
    and "topo_order (edges_of (map (\<lambda>d. (def_id d, def_dependencies d)) ds)) (map def_id reg)"
proof -
  let ?edges = "map (\<lambda>d. (def_id d, def_dependencies d)) ds"
  let ?look = "\<lambda>i. case map_of (map (\<lambda>d. (def_id d, d)) ds) i of None \<Rightarrow> zero_definition | Some d \<Rightarrow> d"
  from assms obtain order where dist: "distinct (map def_id ds)" and top: "topological ?edges = Inr order"
    and reg: "reg = map ?look order" by (auto simp: new_registry_Inr)
  have keys: "distinct (map fst ?edges)" unfolding registry_keys by (rule dist)
  note T = iffD1 [OF topological_Inr [OF keys] top, unfolded registry_keys]
  have look: "?look (def_id d) = d" if "d \<in> set ds" for d
    using that map_of_keyed [OF dist, of "def_id d" d] by simp
  have "map ?look (map def_id ds) = ds" unfolding map_map by (rule map_idI) (simp add: look)
  moreover have "mset reg = mset (map ?look (map def_id ds))" using T reg by (simp only: mset_map)
  ultimately show m: "mset reg = mset ds" by simp
  have "set order = def_id ` set ds" using T mset_eq_setD by fastforce
  then have "\<forall>i\<in>set order. def_id (?look i) = i" using look by auto
  then have ids: "map def_id reg = order" unfolding reg map_map by (intro map_idI) simp
  show "distinct (map def_id reg)" using m dist by (metis mset_eq_imp_distinct_iff mset_map)
  show "topo_order (edges_of ?edges) (map def_id reg)" unfolding ids using T by blast
qed

lemma new_registry_prerequisites:
  assumes reg: "new_registry ds = Inr (ys @ d # zs)"
  shows "set (def_dependencies d) \<subseteq> def_id ` set ys"
proof -
  from reg have "d \<in> set ds" using new_registry_order(1) [OF reg] by (metis in_set_conv_decomp mset_eq_setD)
  moreover from reg have "distinct (map def_id ds)" by (simp add: new_registry_Inr)
  ultimately have "edges_of (map (\<lambda>d. (def_id d, def_dependencies d)) ds) (def_id d) = def_dependencies d"
    by (simp add: edges_of_definitions)
  then show ?thesis using new_registry_order(3) [OF reg] by (simp add: topo_from_append)
qed

section \<open>The evaluation loop\<close>

lemma evaluate_loop_inv:
  assumes "evaluate_loop scope ec defs s = Some (t, None)" and "P [] s"
    and step: "\<And>ys d zs u v. \<lbrakk>defs = ys @ d # zs; P ys u; evaluate_step scope ec d u = Some (v, None)\<rbrakk> \<Longrightarrow> P (ys @ [d]) v"
  shows "P defs t"
proof -
  have "P (ys @ ds) t" if "evaluate_loop scope ec ds u = Some (t, None)" "P ys u" "defs = ys @ ds" for ds ys u
    using that
  proof (induction ds arbitrary: ys u)
    case Nil
    then show ?case by simp
  next
    case (Cons d ds)
    from Cons.prems(1) obtain v where v: "evaluate_step scope ec d u = Some (v, None)"
      and rest: "evaluate_loop scope ec ds v = Some (t, None)"
      by (auto split: option.splits)
    from step [OF Cons.prems(3,2) v] Cons.IH [OF rest, of "ys @ [d]"] Cons.prems(3) show ?case by simp
  qed
  from this [OF assms(1,2)] show ?thesis by simp
qed

text \<open>
  A capability is grounded in evidence when what it refers to is there, about the same claim and
  scope, complete and valid, and bears out every state other than unknown.
\<close>

definition supporting :: "scope \<Rightarrow> capability \<Rightarrow> evidence \<Rightarrow> bool" where
  "supporting scope c ev \<longleftrightarrow>
     ev_scope ev = scope \<and> ev_claim ev = cap_id c \<and> ev_completeness ev = Complete \<and>
     evidence_validate ev = None \<and> confidence_is_valid (ev_confidence ev) = None \<and>
     (cap_state c = StateUnknown \<or> ev_state ev = cap_state c)"

definition grounded :: "scope \<Rightarrow> evidence list \<Rightarrow> capability \<Rightarrow> bool" where
  "grounded scope evs c \<longleftrightarrow>
     cap_scope c = scope \<and> id_validate (cap_id c) = None \<and> state_is_valid (cap_state c) = None \<and>
     confidence_is_valid (cap_confidence c) = None \<and>
     (cap_state c = StateUnknown \<or> cap_evidence c \<noteq> []) \<and>
     (\<forall>r\<in>set (cap_evidence c). \<exists>ev\<in>set evs. ev_id ev = r \<and> supporting scope c ev)"

lemma grounded_mono: "grounded scope evs c \<Longrightarrow> set evs \<subseteq> set evs' \<Longrightarrow> grounded scope evs' c"
  unfolding grounded_def by (meson subsetD)

lemma resolve_grounded:
  assumes "scope_is_valid scope = None" and cid: "id_validate cid = None" and "\<not> is_zero at"
    and r: "resolve scope cid at input = Some r"
  shows "grounded scope input (res_capability r)" and "cap_id (res_capability r) = cid"
proof -
  let ?D = "decisive scope cid at input"
  from resolve_outcome [OF assms(1-3), of input] r
  have e: "cap_evidence (res_capability r) = map ev_id ?D"
    and st: "\<And>s. s \<noteq> StateUnknown \<Longrightarrow> cap_state (res_capability r) = s \<Longrightarrow> ?D \<noteq> [] \<and> (\<forall>ev\<in>set ?D. ev_state ev = s)"
    by auto
  from resolve_result [of scope cid at input] r show id: "cap_id (res_capability r) = cid" by auto
  have "supporting scope (res_capability r) ev" if "ev \<in> set ?D" for ev
    using decisive_eligible [OF that] st that id by (auto simp: supporting_def eligible_iff)
  moreover have "ev \<in> set input" if "ev \<in> set ?D" for ev using that by (simp add: decisive_def candidates_def)
  ultimately show "grounded scope input (res_capability r)"
    unfolding grounded_def using resolve_result [of scope cid at input] r e st cid id by auto
qed

lemma missing_prerequisite_None:
  "missing_prerequisite deps resolved = '''' \<longleftrightarrow>
     (\<forall>dep\<in>set deps. map_option cap_state (resolved dep) = Some StateSupported)"
  by (induction deps) auto

definition identity_observed :: "evaluation_context \<Rightarrow> bool" where
  "identity_observed ec \<longleftrightarrow> id_current (ctx_identity ec) \<noteq> None \<and> id_target (ctx_identity ec) \<noteq> None"

text \<open>What a round without an error does: it blocks the capability, or resolves it on the extended dataset.\<close>

lemma evaluate_step_cases:
  assumes "evaluate_step scope ec d (data, resolved, result) = Some (s, None)"
  obtains (blocked) reason where "s = record_resolution (def_id d) (blocked scope (def_id d) reason) (data, resolved, result)"
  | (resolved) generated resolution where "identity_observed ec"
    and "\<forall>dep\<in>set (def_dependencies d). map_option cap_state (resolved dep) = Some StateSupported"
    and "\<forall>ev\<in>set generated. ev_claim ev = def_id d \<and> ev_scope ev = scope"
    and "validate_dataset (data\<lparr>ds_evidence := ds_evidence data @ generated\<rparr>) = None"
    and "resolve scope (def_id d) (ds_at data) (ds_evidence data @ generated) = Some resolution"
    and "s = record_resolution (def_id d) resolution
           (data\<lparr>ds_evidence := ds_evidence data @ generated\<rparr>, resolved, result)"
proof -
  let ?reason = "if id_current (ctx_identity ec) = None \<or> id_target (ctx_identity ec) = None
    then ''execution or target identity is unobserved''
    else missing_prerequisite (def_dependencies d) resolved"
  show thesis
  proof (cases "?reason = ''''")
    case False
    with assms show thesis by (intro blocked [of ?reason]) (simp add: evaluate_step_def Let_def)
  next
    case True
    then have obs: "identity_observed ec" and miss: "missing_prerequisite (def_dependencies d) resolved = ''''"
      by (auto simp: identity_observed_def split: if_splits)
    from assms True show thesis
      by (auto simp: evaluate_step_def Let_def split: option.splits if_splits
          intro!: that(2) [OF obs miss [unfolded missing_prerequisite_None]])
  qed
qed

definition eval_inv :: "scope \<Rightarrow> evaluation_context \<Rightarrow> dataset \<Rightarrow> cap_definition list \<Rightarrow> eval_state \<Rightarrow> bool" where
  "eval_inv scope ec data ys = (\<lambda>(data', resolved, result).
     (let caps = cand_capabilities (evl_candidate result) in
        cand_scope (evl_candidate result) = scope \<and>
        map cap_id caps = map def_id ys \<and>
        (\<forall>c\<in>set caps. grounded scope (ds_evidence data') c) \<and>
        (\<forall>i c. resolved i = Some c \<longrightarrow> c \<in> set caps \<and> cap_id c = i) \<and>
        (\<forall>(c, d)\<in>set (zip caps ys). cap_state c \<noteq> StateUnknown \<longrightarrow> identity_observed ec \<and>
           (\<forall>dep\<in>set (def_dependencies d). \<exists>c'\<in>set caps. cap_id c' = dep \<and> cap_state c' = StateSupported)) \<and>
        (\<exists>extra. data' = data\<lparr>ds_evidence := ds_evidence data @ extra\<rparr> \<and> (\<forall>ev\<in>set extra. ev_scope ev = scope)) \<and>
        validate_dataset data' = None))"

lemma eval_inv_record:
  assumes inv: "eval_inv scope ec data ys (data0, resolved, result)"
    and c: "grounded scope (ds_evidence data0 @ generated) c" "cap_id c = def_id d" "res_capability resolution = c"
    and gate: "cap_state c \<noteq> StateUnknown \<longrightarrow> identity_observed ec \<and>
      (\<forall>dep\<in>set (def_dependencies d). map_option cap_state (resolved dep) = Some StateSupported)"
    and gen: "\<forall>ev\<in>set generated. ev_scope ev = scope"
    and valid: "validate_dataset (data0\<lparr>ds_evidence := ds_evidence data0 @ generated\<rparr>) = None"
  shows "eval_inv scope ec data (ys @ [d])
    (record_resolution (def_id d) resolution (data0\<lparr>ds_evidence := ds_evidence data0 @ generated\<rparr>, resolved, result))"
proof -
  let ?caps = "cand_capabilities (evl_candidate result)"
  from inv have len: "length ?caps = length ys" unfolding eval_inv_def Let_def prod.case by (metis length_map)
  have old: "\<forall>c\<in>set ?caps. grounded scope (ds_evidence data0 @ generated) c"
    using inv grounded_mono [of scope "ds_evidence data0"] by (auto simp: eval_inv_def Let_def)
  have res: "\<exists>c'\<in>set ?caps. cap_id c' = dep \<and> cap_state c' = StateSupported"
    if "map_option cap_state (resolved dep) = Some StateSupported" for dep
    using inv that by (auto simp: eval_inv_def Let_def)
  obtain extra where extra: "data0 = data\<lparr>ds_evidence := ds_evidence data @ extra\<rparr>" "\<forall>ev\<in>set extra. ev_scope ev = scope"
    using inv by (auto simp: eval_inv_def Let_def)
  have ext: "\<exists>extra. data0\<lparr>ds_evidence := ds_evidence data0 @ generated\<rparr> = data\<lparr>ds_evidence := ds_evidence data @ extra\<rparr> \<and>
      (\<forall>ev\<in>set extra. ev_scope ev = scope)"
    using extra gen by (intro exI [of _ "extra @ generated"]) auto
  have zip: "zip (?caps @ [c]) (ys @ [d]) = zip ?caps ys @ [(c, d)]" using len by simp
  have gates: "\<forall>(b, e)\<in>set (zip (?caps @ [c]) (ys @ [d])). cap_state b \<noteq> StateUnknown \<longrightarrow> identity_observed ec \<and>
      (\<forall>dep\<in>set (def_dependencies e). \<exists>c'\<in>set (?caps @ [c]). cap_id c' = dep \<and> cap_state c' = StateSupported)"
    unfolding zip using inv gate res by (fastforce simp: eval_inv_def Let_def)
  note parts = inv [unfolded eval_inv_def Let_def prod.case]
  let ?data = "data0\<lparr>ds_evidence := ds_evidence data0 @ generated\<rparr>"
  obtain result' where rec: "record_resolution (def_id d) resolution (?data, resolved, result) =
      (?data, resolved(def_id d \<mapsto> c), result')"
    and fields: "cand_scope (evl_candidate result') = cand_scope (evl_candidate result)"
      "cand_capabilities (evl_candidate result') = ?caps @ [c]"
    using c(3) by (simp add: record_resolution_def)
  have found: "c' \<in> set (?caps @ [c]) \<and> cap_id c' = i" if "(resolved(def_id d \<mapsto> c)) i = Some c'" for i c'
    using that parts c(2) by (cases "i = def_id d") auto
  show ?thesis
    unfolding rec eval_inv_def prod.case Let_def fields
    using parts c(1,2) old found gates ext valid by (intro conjI) simp_all
qed

lemma blocked_grounded: "id_validate cid = None \<Longrightarrow> grounded scope evs (res_capability (blocked scope cid reason))"
  by (simp add: grounded_def blocked_def)

lemma validate_dataset_at: "validate_dataset data = None \<Longrightarrow> \<not> is_zero (ds_at data)"
  by (auto simp: validate_dataset_def split: if_splits)

lemma eval_inv_step:
  assumes inv: "eval_inv scope ec data ys u" and step: "evaluate_step scope ec d u = Some (v, None)"
    and id: "id_validate (def_id d) = None" and scope: "scope_is_valid scope = None"
  shows "eval_inv scope ec data (ys @ [d]) v"
proof -
  obtain data0 resolved result where u: "u = (data0, resolved, result)" by (cases u)
  have valid0: "validate_dataset data0 = None" using inv by (simp add: u eval_inv_def Let_def)
  from step [unfolded u] show ?thesis
  proof (cases rule: evaluate_step_cases)
    case (blocked reason)
    have "eval_inv scope ec data (ys @ [d])
      (record_resolution (def_id d) (blocked scope (def_id d) reason) (data0\<lparr>ds_evidence := ds_evidence data0 @ []\<rparr>, resolved, result))"
      by (rule eval_inv_record [OF inv [unfolded u] _ _ refl])
        (use blocked_grounded [OF id] valid0 in \<open>simp_all add: blocked_def\<close>)
    with blocked show ?thesis by simp
  next
    case (resolved generated resolution)
    note g = resolve_grounded [OF scope id validate_dataset_at [OF valid0] resolved(5)]
    show ?thesis unfolding resolved(6)
      by (rule eval_inv_record [OF inv [unfolded u] g refl]) (use resolved in auto)
  qed
qed

lemma evaluate_step_total: "def_evaluate d \<noteq> None \<Longrightarrow> evaluate_step scope ec d s \<noteq> None"
proof -
  have r: "resolve a b c e \<noteq> None" for a b c e using resolve_result [of a b c e] by auto
  assume f: "def_evaluate d \<noteq> None"
  show ?thesis
  proof
    assume "evaluate_step scope ec d s = None"
    with f show False by (auto simp: evaluate_step_def Let_def r split: option.splits if_splits prod.splits)
  qed
qed

lemma evaluate_loop_total: "\<forall>d\<in>set ds. def_evaluate d \<noteq> None \<Longrightarrow> evaluate_loop scope ec ds s \<noteq> None"
proof (induction ds arbitrary: s)
  case (Cons d ds)
  then show ?case using evaluate_step_total [of d scope ec s] by (auto split: option.splits)
qed simp

lemma new_registry_valid:
  assumes "new_registry ds = Inr reg" and "d \<in> set reg"
  shows "id_validate (def_id d) = None" and "def_evaluate d \<noteq> None"
  using assms new_registry_order(1) [OF assms(1)] mset_eq_setD by (fastforce simp: new_registry_Inr)+

lemma evaluate_Some_None:
  assumes "evaluate reg scope data = Some (evl, None)"
  obtains ec data' resolved result where "scope_is_valid scope = None" and "run_id scope = ds_run_id data"
    and "validate_dataset data = None" and "find_context data (context_id scope) = Some ec"
    and "evaluate_loop scope ec reg (data, Map.empty, empty_evaluation scope) = Some ((data', resolved, result), None)"
    and "evl = result\<lparr>evl_candidate := (evl_candidate result)
           \<lparr>cand_evidence := filter (\<lambda>ev. ev_scope ev = scope) (ds_evidence data')\<rparr>\<rparr>"
  using assms unfolding evaluate_def Let_def by (auto split: if_splits option.splits)

lemma evaluate_loop_eval_inv:
  assumes "evaluate_loop scope ec reg (data, Map.empty, empty_evaluation scope) = Some (t, None)"
    and "validate_dataset data = None" and "scope_is_valid scope = None"
    and "\<forall>d\<in>set reg. id_validate (def_id d) = None"
  shows "eval_inv scope ec data reg t"
proof (rule evaluate_loop_inv [OF assms(1)])
  show "eval_inv scope ec data [] (data, Map.empty, empty_evaluation scope)"
    using assms(2) by (simp add: eval_inv_def Let_def empty_evaluation_def exI [where x = "[]"])
next
  fix ys d zs u v
  assume "reg = ys @ d # zs" "eval_inv scope ec data ys u" "evaluate_step scope ec d u = Some (v, None)"
  then show "eval_inv scope ec data (ys @ [d]) v" using assms(3,4) by (intro eval_inv_step) auto
qed

text \<open>The facts about a completed evaluation that the properties and the requirement evaluator use.\<close>

lemma evaluate_result:
  assumes reg: "new_registry ds = Inr reg" and ev: "evaluate reg scope data = Some (evl, None)"
  defines "cand \<equiv> evl_candidate evl"
  shows "cand_scope cand = scope" and "scope_is_valid scope = None"
    and "map cap_id (cand_capabilities cand) = map def_id reg"
    and "\<forall>c\<in>set (cand_capabilities cand). grounded scope (cand_evidence cand) c"
    and "\<forall>(c, d)\<in>set (zip (cand_capabilities cand) reg). cap_state c \<noteq> StateUnknown \<longrightarrow>
           (\<exists>ec. find_context data (context_id scope) = Some ec \<and> identity_observed ec) \<and>
           (\<forall>dep\<in>set (def_dependencies d). \<exists>c'\<in>set (cand_capabilities cand). cap_id c' = dep \<and> cap_state c' = StateSupported)"
    and "\<forall>e\<in>set (cand_evidence cand). ev_scope e = scope"
    and "\<exists>data'. validate_dataset data' = None \<and> cand_evidence cand = filter (\<lambda>e. ev_scope e = scope) (ds_evidence data')"
proof -
  from ev obtain ec data' resolved result where valid: "scope_is_valid scope = None" "validate_dataset data = None"
    and ctx: "find_context data (context_id scope) = Some ec"
    and loop: "evaluate_loop scope ec reg (data, Map.empty, empty_evaluation scope) = Some ((data', resolved, result), None)"
    and evl: "evl = result\<lparr>evl_candidate := (evl_candidate result)
           \<lparr>cand_evidence := filter (\<lambda>ev. ev_scope ev = scope) (ds_evidence data')\<rparr>\<rparr>"
    by (rule evaluate_Some_None)
  have inv: "eval_inv scope ec data reg (data', resolved, result)"
    using evaluate_loop_eval_inv [OF loop valid(2,1)] new_registry_valid(1) [OF reg] by blast
  note parts = inv [unfolded eval_inv_def Let_def prod.case]
  have c: "cand_capabilities cand = cand_capabilities (evl_candidate result)"
    "cand_evidence cand = filter (\<lambda>ev. ev_scope ev = scope) (ds_evidence data')"
    "cand_scope cand = cand_scope (evl_candidate result)" by (simp_all add: cand_def evl)
  show "cand_scope cand = scope" "scope_is_valid scope = None" "map cap_id (cand_capabilities cand) = map def_id reg"
    using parts valid c by simp_all
  have "grounded scope (filter (\<lambda>ev. ev_scope ev = scope) evs) x" if "grounded scope evs x" for evs x
    using that by (auto simp: grounded_def supporting_def) 
  then show "\<forall>x\<in>set (cand_capabilities cand). grounded scope (cand_evidence cand) x" using parts c by simp
  show "\<forall>(c, d)\<in>set (zip (cand_capabilities cand) reg). cap_state c \<noteq> StateUnknown \<longrightarrow>
           (\<exists>ec. find_context data (context_id scope) = Some ec \<and> identity_observed ec) \<and>
           (\<forall>dep\<in>set (def_dependencies d). \<exists>c'\<in>set (cand_capabilities cand). cap_id c' = dep \<and> cap_state c' = StateSupported)"
    using parts ctx unfolding c by blast
  show "\<forall>e\<in>set (cand_evidence cand). ev_scope e = scope" by (simp add: c)
  show "\<exists>data'. validate_dataset data' = None \<and> cand_evidence cand = filter (\<lambda>e. ev_scope e = scope) (ds_evidence data')"
    using parts c by blast
qed

section \<open>Properties\<close>

text \<open>\<open>NewRegistry\<close> accepts exactly the catalogs within the limits whose definitions are
  valid and unique and whose prerequisites are declared, listed once and acyclic. The registry is
  then a permutation of the catalog in which every definition comes after all its prerequisites.
\<close>

lemma new_registry_spec:
  "((\<exists>reg. new_registry ds = Inr reg) \<longleftrightarrow>
     (\<forall>d\<in>set ds. id_validate (def_id d) = None \<and> def_description d \<noteq> '''' \<and> def_evaluate d \<noteq> None) \<and>
     distinct (map def_id ds) \<and> length ds \<le> 4096 \<and> (\<Sum>d\<leftarrow>ds. length (def_dependencies d)) \<le> 16384 \<and>
     (\<forall>d\<in>set ds. distinct (def_dependencies d) \<and> set (def_dependencies d) \<subseteq> def_id ` set ds) \<and>
     acyclic {(dep, i). \<exists>d\<in>set ds. def_id d = i \<and> dep \<in> set (def_dependencies d)}) \<and>
   (\<forall>reg ys d zs. new_registry ds = Inr reg \<longrightarrow> mset reg = mset ds \<and>
     (reg = ys @ d # zs \<longrightarrow> set (def_dependencies d) \<subseteq> def_id ` set ys))"
proof -
  let ?edges = "map (\<lambda>d. (def_id d, def_dependencies d)) ds"
  have rel: "{(dep, i). \<exists>deps. (i, deps) \<in> set ?edges \<and> dep \<in> set deps} =
      {(dep, i). \<exists>d\<in>set ds. def_id d = i \<and> dep \<in> set (def_dependencies d)}" by auto
  have sums: "(\<Sum>(i, deps)\<leftarrow>?edges. length deps) = (\<Sum>d\<leftarrow>ds. length (def_dependencies d))" by (simp add: comp_def)
  have keys: "fst ` set ?edges = def_id ` set ds" by force
  have each: "(\<forall>(i, deps)\<in>set ?edges. distinct deps \<and> set deps \<subseteq> fst ` set ?edges) \<longleftrightarrow>
      (\<forall>d\<in>set ds. distinct (def_dependencies d) \<and> set (def_dependencies d) \<subseteq> def_id ` set ds)"
    unfolding keys by auto
  have "(\<exists>order. topological ?edges = Inr order) \<longleftrightarrow> length ds \<le> 4096 \<and> (\<Sum>d\<leftarrow>ds. length (def_dependencies d)) \<le> 16384 \<and>
      (\<forall>d\<in>set ds. distinct (def_dependencies d) \<and> set (def_dependencies d) \<subseteq> def_id ` set ds) \<and>
      acyclic {(dep, i). \<exists>d\<in>set ds. def_id d = i \<and> dep \<in> set (def_dependencies d)}" if "distinct (map def_id ds)"
  proof -
    have d: "distinct (map fst ?edges)" using that by (simp add: comp_def)
    show ?thesis
      unfolding topological_accepts [OF d] dep_rel_edges [OF d] declarable_edges [OF d] rel sums each
      by (simp only: length_map conj_assoc)
  qed
  then have "(\<exists>reg. new_registry ds = Inr reg) \<longleftrightarrow>
     (\<forall>d\<in>set ds. id_validate (def_id d) = None \<and> def_description d \<noteq> '''' \<and> def_evaluate d \<noteq> None) \<and>
     distinct (map def_id ds) \<and> length ds \<le> 4096 \<and> (\<Sum>d\<leftarrow>ds. length (def_dependencies d)) \<le> 16384 \<and>
     (\<forall>d\<in>set ds. distinct (def_dependencies d) \<and> set (def_dependencies d) \<subseteq> def_id ` set ds) \<and>
     acyclic {(dep, i). \<exists>d\<in>set ds. def_id d = i \<and> dep \<in> set (def_dependencies d)}"
    by (simp only: new_registry_Inr) blast
  then show ?thesis using new_registry_order(1) new_registry_prerequisites by blast
qed

definition example_definition :: cap_definition where
  "example_definition = \<lparr>def_id = ''runtime.podman'', def_description = ''d'', def_dependencies = [],
     def_evaluate = Some (\<lambda>s obs. [])\<rparr>"

definition example_dataset :: dataset where
  "example_dataset = \<lparr>ds_run_id = ''r'', ds_at = 9,
     ds_contexts = [\<lparr>ctx_id = ''c'', ctx_namespaces = [],
       ctx_host = \<lparr>hc_os = '''', hc_os_version = '''', hc_kernel = '''', hc_architecture = '''',
         hc_cgroup_version = '''', hc_systemd_active = None\<rparr>,
       ctx_identity = example_identity\<lparr>id_current := Some example_user\<rparr>,
       ctx_runtime = \<lparr>rc_active_runtimes = [], rc_default_runtime = ''''\<rparr>, ctx_search_paths = []\<rparr>],
     ds_observations = [], ds_evidence = []\<rparr>"

lemma example_registry: "new_registry [example_definition] = Inr [example_definition]"
proof -
  have "id_validate ''runtime.podman'' = None" by code_simp
  then show ?thesis
    by (simp add: new_registry_def example_definition_def topological_def MaxGraphEntries_def MaxGraphReferences_def
        edges_of_def Let_def)
qed

lemma new_registry_spec_witness:
  "\<exists>reg. new_registry [example_definition] = Inr reg \<and> mset reg = mset [example_definition]"
  using new_registry_spec [of "[example_definition]"] example_registry by blast

lemma example_dataset_valid: "validate_dataset example_dataset = None"
proof -
  have "identity_context_is_valid (example_identity\<lparr>id_current := Some example_user\<rparr>) = None"
    by (simp add: identity_context_is_valid_def example_identity_def example_user_def
        target_selector_is_valid_def user_identity_is_valid_def max_uint32_def MaxIdentityGroups_def
        execution_matches_def sub_id_ranges_is_valid_def sub_id_range_is_valid_def range_end_def)
  then show ?thesis
    by (simp add: validate_dataset_def example_dataset_def is_zero_def MaxGraphEntries_def topological_def Let_def)
qed

lemma example_evaluation:
  "\<exists>evl. evaluate [example_definition] example_scope example_dataset = Some (evl, None)"
proof -
  have s: "scope_is_valid example_scope = None" "run_id example_scope = ds_run_id example_dataset"
    by (simp_all add: scope_is_valid_def example_scope_def example_dataset_def)
  have e: "example_dataset\<lparr>ds_evidence := ds_evidence example_dataset @ []\<rparr> = example_dataset"
    by (simp add: example_dataset_def)
  obtain ec where ec: "find_context example_dataset (context_id example_scope) = Some ec" and obs: "identity_observed ec"
    by (simp add: find_context_def example_dataset_def example_scope_def identity_observed_def example_identity_def)
  obtain r where r: "resolve example_scope ''runtime.podman'' (ds_at example_dataset) (ds_evidence example_dataset) = Some r"
    using resolve_result by blast
  have "evaluate_step example_scope ec example_definition (example_dataset, Map.empty, result) =
      Some (record_resolution ''runtime.podman'' r (example_dataset, Map.empty, result), None)" for result
    using obs r example_dataset_valid
    by (auto simp: evaluate_step_def example_definition_def Let_def identity_observed_def e [simplified])
  then show ?thesis
    by (simp add: evaluate_def s example_dataset_valid ec record_resolution_def Let_def)
qed

text \<open>
  C6: an evaluation that returns no error has one capability for every definition of the registry,
  in its order. Each is grounded: what it refers to is evidence of the returned candidate, about
  its own claim and scope, valid and complete, and bears out its state. A capability with a state
  other than unknown has all its prerequisites reported as supported, and none is reported unless
  the current and the target identity were observed.
\<close>

theorem evaluate_sound:
  assumes "new_registry ds = Inr reg" and "evaluate reg scope data = Some (evl, None)"
  shows "map cap_id (cand_capabilities (evl_candidate evl)) = map def_id reg \<and>
     (\<forall>c\<in>set (cand_capabilities (evl_candidate evl)). grounded scope (cand_evidence (evl_candidate evl)) c) \<and>
     (\<forall>(c, d)\<in>set (zip (cand_capabilities (evl_candidate evl)) reg). cap_state c \<noteq> StateUnknown \<longrightarrow>
        (\<exists>ec. find_context data (context_id scope) = Some ec \<and> identity_observed ec) \<and>
        (\<forall>dep\<in>set (def_dependencies d). \<exists>c'\<in>set (cand_capabilities (evl_candidate evl)).
           cap_id c' = dep \<and> cap_state c' = StateSupported))"
  using evaluate_result [OF assms] by (intro conjI)

theorem evaluate_sound_witness:
  "\<exists>evl. evaluate [example_definition] example_scope example_dataset = Some (evl, None) \<and>
     map cap_id (cand_capabilities (evl_candidate evl)) = [''runtime.podman'']"
proof -
  obtain evl where e: "evaluate [example_definition] example_scope example_dataset = Some (evl, None)"
    using example_evaluation by blast
  from evaluate_sound [OF example_registry e] e show ?thesis by (auto simp: example_definition_def)
qed

text \<open>
  On a registry that \<open>NewRegistry\<close> built, \<open>Evaluate\<close> never panics, for any candidate
  scope, any dataset and any evaluators: it returns an evaluation and possibly an error.
\<close>

lemma evaluate_total:
  assumes "new_registry ds = Inr reg"
  shows "\<exists>evl err. evaluate reg scope data = Some (evl, err)"
proof -
  have loop: "evaluate_loop scope ec reg s = None \<longleftrightarrow> False" for ec s
    using evaluate_loop_total new_registry_valid(2) [OF assms] by blast
  have "evaluate reg scope data \<noteq> None"
  proof
    assume "evaluate reg scope data = None"
    then show False by (simp add: evaluate_def Let_def loop split: if_splits option.splits prod.splits)
  qed
  then show ?thesis by auto
qed

lemma evaluate_total_witness:
  "\<exists>evl err. evaluate [example_definition] example_scope example_dataset = Some (evl, err)"
  by (rule evaluate_total [OF example_registry])

end
