(* ===== verification/Catalog_Base.thy ===== *)
theory Catalog_Base
  imports Model_Observation
begin

text \<open>
  The building blocks of the capability catalog (\<open>internal/capability\<close>): how an evaluator turns
  observations into evidence, and the contract that every evaluator keeps. \<open>about\<close> is that
  contract for one item of evidence: it speaks for the claim and the scope it was asked for, and it
  is neither fresher-dated, nor more complete, than the observations of that scope it rests on.
\<close>

section \<open>Evidence builders\<close>

definition local_podman :: "scope \<Rightarrow> bool" where
  "local_podman s \<longleftrightarrow> sc_runtime s = ''podman'' \<and> sc_endpoint s = ''local''"

definition observation_ref_of :: "observation \<Rightarrow> observation_ref" where
  "observation_ref_of obs = \<lparr>or_id = ob_id obs, or_probe = ob_probe_id obs\<rparr>"

definition derived_confidence :: "cap_state \<Rightarrow> confidence_level" where
  "derived_confidence st = (if st = StateUnknown then ConfidenceUnknown else ConfidenceDerived)"

definition runtime_evidence :: "observation \<Rightarrow> capability_id \<Rightarrow> cap_state \<Rightarrow> evidence" where
  "runtime_evidence obs cid st =
     \<lparr>ev_id = ob_id obs @ ''.'' @ cid, ev_source = ''Podman effective runtime observation'', ev_claim = cid,
      ev_precedence = PrecedenceRuntime, ev_observations = [observation_ref_of obs],
      ev_timestamp = ob_timestamp obs, ev_scope = ob_scope obs, ev_completeness = ob_completeness obs,
      ev_state = st, ev_confidence = derived_confidence st, ev_depends_on = []\<rparr>"

definition include_observation :: "evidence \<Rightarrow> observation \<Rightarrow> evidence" where
  "include_observation ev obs =
     ev\<lparr>ev_observations := ev_observations ev @ [observation_ref_of obs],
        ev_timestamp := (if after (ob_timestamp obs) (ev_timestamp ev) then ob_timestamp obs else ev_timestamp ev),
        ev_completeness := (if ob_completeness obs \<noteq> Complete then Partial else ev_completeness ev)\<rparr>"

definition prerequisite_evidence :: "observation \<Rightarrow> capability_id \<Rightarrow> cap_state \<Rightarrow> string \<Rightarrow> evidence" where
  "prerequisite_evidence obs cid st source =
     (runtime_evidence obs cid st)\<lparr>ev_precedence := PrecedenceLive, ev_source := source\<rparr>"

definition configuration_evidence :: "observation \<Rightarrow> capability_id \<Rightarrow> cap_state \<Rightarrow> string \<Rightarrow> evidence" where
  "configuration_evidence obs cid st description =
     (runtime_evidence obs cid st)\<lparr>ev_precedence := PrecedenceConfig, ev_source := description\<rparr>"

definition undecided :: "evidence \<Rightarrow> evidence" where
  "undecided ev = ev\<lparr>ev_state := StateUnknown, ev_confidence := ConfidenceUnknown\<rparr>"

text \<open>The version observation that qualifies a configuration profile.\<close>

definition version_binds :: "scope \<Rightarrow> configuration_observation \<Rightarrow> observation \<Rightarrow> bool" where
  "version_binds s c source \<longleftrightarrow>
     ob_id source = c_version_source_id c \<and> ob_scope source = s \<and>
     (case ob_version source of
        None \<Rightarrow> False
      | Some v \<Rightarrow> v_path v = c_runtime_path c \<and> v_runnable v = Some True \<and>
          (case v_version v of None \<Rightarrow> False | Some n \<Rightarrow> ''podman-'' @ pv_canonical n = c_profile c))"

definition bind_configuration_version :: "evidence \<Rightarrow> configuration_observation \<Rightarrow> observation list \<Rightarrow> evidence" where
  "bind_configuration_version ev c observations =
     (case List.find (version_binds (ev_scope ev) c) observations of
        Some source \<Rightarrow> include_observation ev source
      | None \<Rightarrow> undecided ev)"

definition boolean_state :: "bool option \<Rightarrow> cap_state \<Rightarrow> cap_state" where
  "boolean_state value negative =
     (case value of None \<Rightarrow> StateUnknown | Some b \<Rightarrow> if b then StateSupported else negative)"

text \<open>Where an item comes from that a loop over the observations with a given payload appends.\<close>

lemma concat_payloadE:
  assumes "ev \<in> set (concat (map (\<lambda>ob. case f ob of None \<Rightarrow> [] | Some x \<Rightarrow> g ob x) obs))"
  obtains ob x where "ob \<in> set obs" and "f ob = Some x" and "ev \<in> set (g ob x)"
proof -
  obtain ob where "ob \<in> set obs" and ev: "ev \<in> set (case f ob of None \<Rightarrow> [] | Some x \<Rightarrow> g ob x)" using assms by auto
  then show thesis using that by (cases "f ob") simp_all
qed

section \<open>The contract of an evaluator\<close>

definition rests_on :: "scope \<Rightarrow> observation list \<Rightarrow> evidence \<Rightarrow> observation_ref \<Rightarrow> bool" where
  "rests_on s obs ev r \<longleftrightarrow> (\<exists>ob\<in>set obs. ob_scope ob = s \<and> r = observation_ref_of ob \<and>
     ob_timestamp ob \<le> ev_timestamp ev \<and> (ev_completeness ev = Complete \<longrightarrow> ob_completeness ob = Complete))"

definition about :: "scope \<Rightarrow> observation list \<Rightarrow> capability_id \<Rightarrow> evidence \<Rightarrow> bool" where
  "about s obs cid ev \<longleftrightarrow>
     ev_claim ev = cid \<and> ev_scope ev = s \<and> ev_id ev \<noteq> '''' \<and> ev_source ev \<noteq> '''' \<and> ev_depends_on ev = [] \<and>
     precedence_is_valid (ev_precedence ev) = None \<and> state_is_valid (ev_state ev) = None \<and>
     ev_confidence ev = derived_confidence (ev_state ev) \<and>
     ev_observations ev \<noteq> [] \<and> (\<forall>r\<in>set (ev_observations ev). rests_on s obs ev r)"

named_theorems evidence_intros

lemma precedence_valid [simp]:
  "precedence_is_valid PrecedenceLive = None" "precedence_is_valid PrecedenceRuntime = None"
  "precedence_is_valid PrecedenceConfig = None" "precedence_is_valid PrecedenceKnowledge = None"
  by (simp_all add: precedence_is_valid_def)

lemma about_runtime [evidence_intros]:
  "ob \<in> set obs \<Longrightarrow> ob_scope ob = s \<Longrightarrow> state_is_valid st = None \<Longrightarrow> about s obs cid (runtime_evidence ob cid st)"
  by (auto simp: about_def runtime_evidence_def rests_on_def)

lemma about_prerequisite [evidence_intros]:
  "ob \<in> set obs \<Longrightarrow> ob_scope ob = s \<Longrightarrow> state_is_valid st = None \<Longrightarrow> source \<noteq> '''' \<Longrightarrow>
   about s obs cid (prerequisite_evidence ob cid st source)"
  by (auto simp: about_def prerequisite_evidence_def runtime_evidence_def rests_on_def)

lemma about_configuration [evidence_intros]:
  "ob \<in> set obs \<Longrightarrow> ob_scope ob = s \<Longrightarrow> state_is_valid st = None \<Longrightarrow> source \<noteq> '''' \<Longrightarrow>
   about s obs cid (configuration_evidence ob cid st source)"
  by (auto simp: about_def configuration_evidence_def runtime_evidence_def rests_on_def)

lemma about_include [evidence_intros]:
  assumes "about s obs cid ev" and "ob \<in> set obs" and "ob_scope ob = s"
  shows "about s obs cid (include_observation ev ob)"
proof -
  have "rests_on s obs (include_observation ev ob) r" if "r \<in> set (ev_observations ev)" for r
  proof -
    have "rests_on s obs ev r" using assms(1) that unfolding about_def by blast
    then obtain x where "x \<in> set obs" "ob_scope x = s" "r = observation_ref_of x" "ob_timestamp x \<le> ev_timestamp ev"
      "ev_completeness ev = Complete \<longrightarrow> ob_completeness x = Complete"
      by (auto simp: rests_on_def)
    then show ?thesis unfolding rests_on_def by (intro bexI [of _ x]) (auto simp: include_observation_def after_def)
  qed
  moreover have "rests_on s obs (include_observation ev ob) (observation_ref_of ob)"
    unfolding rests_on_def using assms(2,3) by (intro bexI [of _ ob]) (auto simp: include_observation_def after_def)
  ultimately show ?thesis using assms(1) by (auto simp: about_def include_observation_def)
qed

lemma about_undecided [evidence_intros]: "about s obs cid ev \<Longrightarrow> about s obs cid (undecided ev)"
  by (auto simp: about_def undecided_def rests_on_def derived_confidence_def)

lemma about_bind [evidence_intros]:
  assumes "about s obs cid ev"
  shows "about s obs cid (bind_configuration_version ev c obs)"
proof (cases "List.find (version_binds (ev_scope ev) c) obs")
  case None
  then show ?thesis using about_undecided [OF assms] by (simp add: bind_configuration_version_def)
next
  case (Some source)
  then have "source \<in> set obs" "version_binds (ev_scope ev) c source" by (auto simp: find_Some_iff in_set_conv_nth)
  moreover have "ev_scope ev = s" using assms by (simp add: about_def)
  ultimately have "source \<in> set obs" "ob_scope source = s" by (simp_all add: version_binds_def)
  then show ?thesis using about_include [OF assms] Some by (simp add: bind_configuration_version_def)
qed

lemma about_precedence [evidence_intros]:
  "about s obs cid ev \<Longrightarrow> precedence_is_valid p = None \<Longrightarrow> about s obs cid (ev\<lparr>ev_precedence := p\<rparr>)"
  by (auto simp: about_def rests_on_def)

lemma about_source [evidence_intros]:
  "about s obs cid ev \<Longrightarrow> source \<noteq> '''' \<Longrightarrow> about s obs cid (ev\<lparr>ev_source := source\<rparr>)"
  by (auto simp: about_def rests_on_def)

lemma about_id [evidence_intros]:
  "about s obs cid ev \<Longrightarrow> i \<noteq> '''' \<Longrightarrow> about s obs cid (ev\<lparr>ev_id := i\<rparr>)"
  by (auto simp: about_def rests_on_def)

lemma about_foldl:
  assumes "about s obs cid ev" and "\<And>ev x. x \<in> set xs \<Longrightarrow> about s obs cid ev \<Longrightarrow> about s obs cid (f ev x)"
  shows "about s obs cid (foldl f ev xs)"
  using assms by (induction xs arbitrary: ev) auto

lemma bind_keeps [simp]:
  "ev_claim (bind_configuration_version ev c obs) = ev_claim ev" "ev_scope (bind_configuration_version ev c obs) = ev_scope ev"
  by (auto simp: bind_configuration_version_def include_observation_def undecided_def split: option.splits)

lemma boolean_state_valid [simp]: "state_is_valid neg = None \<Longrightarrow> state_is_valid (boolean_state b neg) = None"
  by (auto simp: boolean_state_def split: option.splits)

text \<open>
  The interface that the registry relies on: an evaluator produces evidence under the contract, and
  none outside the scope it serves. What a client may conclude is proved once here.
\<close>

locale evidence_source =
  fixes produce :: "scope \<Rightarrow> observation list \<Rightarrow> evidence list"
    and claim :: capability_id
    and serves :: "scope \<Rightarrow> bool"
  assumes own: "ev \<in> set (produce s obs) \<Longrightarrow> about s obs claim ev"
    and silent: "\<not> serves s \<Longrightarrow> produce s obs = []"
begin

lemma claims: "ev \<in> set (produce s obs) \<Longrightarrow> ev_claim ev = claim \<and> ev_scope ev = s"
  using own [of ev s obs] by (simp add: about_def)

lemma validates:
  assumes "ev \<in> set (produce s obs)" and "claim \<noteq> ''''" and "\<And>ob. ob \<in> set obs \<Longrightarrow> 0 < ob_timestamp ob"
  shows "evidence_validate ev = None"
proof -
  have a: "about s obs claim ev" by (rule own [OF assms(1)])
  then obtain r where "r \<in> set (ev_observations ev)" by (cases "ev_observations ev") (auto simp: about_def)
  then have "rests_on s obs ev r" using a unfolding about_def by blast
  then obtain ob where "ob \<in> set obs" "ob_timestamp ob \<le> ev_timestamp ev" by (auto simp: rests_on_def)
  then have "0 < ev_timestamp ev" using assms(3) by fastforce
  then show ?thesis using a assms(2) by (auto simp: evidence_validate_None about_def)
qed

lemma references:
  assumes "ev \<in> set (produce s obs)" and "r \<in> set (ev_observations ev)"
  shows "\<exists>ob\<in>set obs. ob_scope ob = s \<and> r = observation_ref_of ob \<and> ob_timestamp ob \<le> ev_timestamp ev \<and>
    (ev_completeness ev = Complete \<longrightarrow> ob_completeness ob = Complete)"
  using own [OF assms(1)] assms(2) unfolding about_def rests_on_def by blast

end

end
