(* ===== verification/Catalog_Examples.thy ===== *)
theory Catalog_Examples
  imports Catalog_Base
begin

text \<open>
  Observations of one host, on which the statements about the catalog are evaluated: Podman answered
  \<open>podman info\<close> with Netavark as its backend, a second probe found the Netavark helper at the
  reported path, and a third measured that file and the target's access to it.
\<close>

definition podman_scope :: scope where
  "podman_scope = \<lparr>run_id = ''r'', context_id = ''c'', sc_runtime = ''podman'', sc_endpoint = ''local''\<rparr>"

definition blank_observation :: observation where
  "blank_observation = \<lparr>ob_storage_paths = None, ob_configuration = None, ob_quadlet = None, ob_executable = None,
     ob_user_context = None, ob_subids = None, ob_authority = '''', ob_identity = None, ob_host = None,
     ob_podman_helper = None, ob_id = '''', ob_probe_id = '''', ob_timestamp = 0, ob_summary = '''',
     ob_scope = podman_scope, ob_completeness = Complete, ob_facts = [], ob_diagnostics = [],
     ob_podman = None, ob_discovery = None, ob_version = None\<rparr>"

definition netavark_path :: string where
  "netavark_path = ''/usr/libexec/podman/netavark''"

definition example_info :: podman_info where
  "example_info = \<lparr>p_rootless_network_cmd = None, p_storage_mount_program = '''', p_oci_runtime = None,
     p_conmon_path = '''', p_aardvark_path = '''', p_pasta_path = '''', p_slirp_path = '''', p_version_parts = None,
     p_path = ''/usr/bin/podman'', p_graph_root = None, p_run_root = None, p_service_is_remote = Some False,
     p_version = ''5.4.2'', p_network_backend = Some ''netavark'', p_storage_driver = Some ''overlay'',
     p_cgroup_version = Some ''v2'', p_cgroup_manager = Some ''systemd'', p_rootless = Some True,
     p_helper_path = netavark_path, p_available = Some True\<rparr>"

definition info_observation :: observation where
  "info_observation = blank_observation\<lparr>ob_id := ''info'', ob_probe_id := ''podman.info'', ob_timestamp := 5,
     ob_podman := Some example_info\<rparr>"

definition helper_observation :: observation where
  "helper_observation = blank_observation\<lparr>ob_id := ''helper'', ob_probe_id := ''podman.helper'', ob_timestamp := 6,
     ob_podman_helper := Some \<lparr>h_path = ''/usr/bin/podman'', h_info_id = ''info'', h_helper_path = netavark_path,
       h_present = Some True\<rparr>\<rparr>"

definition measured_candidate :: executable_candidate where
  "measured_candidate = \<lparr>xc_path = netavark_path, xc_present = Some True,
     xc_file = Some \<lparr>xm_regular = True, xm_executable_bits = True, xm_mode = 493, xm_uid = Some 0, xm_gid = Some 0\<rparr>,
     xc_device = Some 1, xc_inode = Some 2, xc_executable = Some True, xc_masked = False\<rparr>"

definition measured_observation :: observation where
  "measured_observation = blank_observation\<lparr>ob_id := ''measured'', ob_probe_id := ''podman.selected'', ob_timestamp := 7,
     ob_executable := Some \<lparr>x_role = ''netavark'', x_source = ''runtime'', x_source_id = ''info'',
       x_runtime_path = ''/usr/bin/podman'', x_selected_path = netavark_path, x_candidates = [measured_candidate]\<rparr>\<rparr>"

definition example_observations :: "observation list" where
  "example_observations = [info_observation, helper_observation, measured_observation]"

lemmas example_observation_defs = example_observations_def info_observation_def helper_observation_def
  measured_observation_def measured_candidate_def example_info_def blank_observation_def podman_scope_def

end
