(* ===== verification/Catalog_Runtime.thy ===== *)
theory Catalog_Runtime
  imports Catalog_Base
begin

text \<open>
  The evaluators over what the selected Podman reports and over executable metadata:
  \<open>podman_cli.go\<close>, \<open>podman_info.go\<close> and the inventory of \<open>executable.go\<close>
  (\<open>internal/capability\<close>). A loop that appends one item per matching observation is a \<open>concat\<close>
  over the observations, \<open>continue\<close> the empty list.
\<close>

section \<open>The CLI (podman\_cli.go)\<close>

definition PodmanID :: capability_id where "PodmanID = ''runtime.podman''"

text \<open>The third component says whether the observation measures the CLI at all.\<close>

definition podman_version_state :: "observation \<Rightarrow> cap_state \<times> precedence \<times> bool" where
  "podman_version_state obs =
     (case ob_version obs of
        None \<Rightarrow> (StateUnknown, PrecedenceRuntime, False)
      | Some v \<Rightarrow>
          (case v_runnable v of
             None \<Rightarrow> (StateUnknown, PrecedenceRuntime, True)
           | Some runnable \<Rightarrow>
               if \<not> runnable then (StateUnavailable, PrecedenceRuntime, True)
               else if v_version v \<noteq> None then (StateSupported, PrecedenceRuntime, True)
               else (StateUnknown, PrecedenceRuntime, True)))"

definition podman_cli_state :: "observation \<Rightarrow> cap_state \<times> precedence \<times> bool" where
  "podman_cli_state obs =
     (case ob_discovery obs of
        None \<Rightarrow> podman_version_state obs
      | Some d \<Rightarrow>
          if d_installed d = Some False then (StateUnsupported, PrecedenceLive, True)
          else case d_file d of
            None \<Rightarrow> podman_version_state obs
          | Some f \<Rightarrow> if \<not> xm_regular f \<or> \<not> xm_executable_bits f then (StateUnavailable, PrecedenceLive, True)
                      else podman_version_state obs)"

definition podman_cli_evidence :: "scope \<Rightarrow> observation list \<Rightarrow> evidence list" where
  "podman_cli_evidence s observations =
     (if \<not> local_podman s then []
      else concat (map (\<lambda>obs.
        if ob_scope obs \<noteq> s then []
        else case podman_cli_state obs of (st, p, measured) \<Rightarrow>
          if \<not> measured then []
          else [\<lparr>ev_id = ob_id obs @ ''.cli'', ev_source = ''Podman CLI observation'', ev_claim = PodmanID,
                 ev_precedence = p, ev_observations = [observation_ref_of obs], ev_timestamp = ob_timestamp obs,
                 ev_scope = s, ev_completeness = ob_completeness obs, ev_state = st,
                 ev_confidence = derived_confidence st, ev_depends_on = []\<rparr>]) observations))"

lemma podman_cli_state_valid:
  "podman_cli_state obs = (st, p, m) \<Longrightarrow> state_is_valid st = None \<and> precedence_is_valid p = None"
  by (auto simp: podman_cli_state_def podman_version_state_def split: option.splits if_splits)

interpretation podman_cli: evidence_source podman_cli_evidence PodmanID local_podman
proof
  fix ev s obs
  assume "ev \<in> set (podman_cli_evidence s obs)"
  then obtain ob st p where "ob \<in> set obs" "ob_scope ob = s" "podman_cli_state ob = (st, p, True)"
    and "ev = \<lparr>ev_id = ob_id ob @ ''.cli'', ev_source = ''Podman CLI observation'', ev_claim = PodmanID,
      ev_precedence = p, ev_observations = [observation_ref_of ob], ev_timestamp = ob_timestamp ob,
      ev_scope = s, ev_completeness = ob_completeness ob, ev_state = st,
      ev_confidence = derived_confidence st, ev_depends_on = []\<rparr>"
    by (auto simp: podman_cli_evidence_def split: if_splits)
  then show "about s obs PodmanID ev"
    using podman_cli_state_valid [of ob st p True] by (auto simp: about_def rests_on_def)
qed (simp add: podman_cli_evidence_def)

section \<open>Effective information (podman\_info.go)\<close>

definition PodmanInfoID :: capability_id where "PodmanInfoID = ''runtime.podman.info''"

definition info_state :: "podman_info \<Rightarrow> cap_state" where
  "info_state info =
     (if p_available info = None \<or> p_service_is_remote info = Some True then StateUnknown
      else if p_available info = Some False then StateUnavailable
      else if p_version_parts info = None \<or> p_rootless info = None then StateUnknown
      else if \<exists>value\<in>set [p_network_backend info, p_storage_driver info, p_cgroup_version info,
          p_cgroup_manager info, p_graph_root info, p_run_root info]. value = None \<or> value = Some ''''
      then StateUnknown
      else StateSupported)"

definition same_version :: "podman_version option \<Rightarrow> podman_version option \<Rightarrow> bool" where
  "same_version a b =
     (case (a, b) of
        (Some x, Some y) \<Rightarrow> pv_canonical x = pv_canonical y \<and> pv_suffix x = pv_suffix y \<and> pv_build x = pv_build y
      | _ \<Rightarrow> False)"

text \<open>One round of the inner loop, which confronts the report with a version observation.\<close>

definition confront_version :: "scope \<Rightarrow> observation \<Rightarrow> podman_info \<Rightarrow> evidence \<Rightarrow> observation \<Rightarrow> evidence" where
  "confront_version s obs info ev other =
     (case ob_version other of
        None \<Rightarrow> ev
      | Some v \<Rightarrow>
          if ob_scope other \<noteq> s \<or> v_path v \<noteq> p_path info \<or> v_version v = None then ev
          else let ev' = (if p_version_parts info \<noteq> None \<and> \<not> same_version (p_version_parts info) (v_version v)
                          then undecided ev else ev)
               in if ob_id other \<noteq> ob_id obs then include_observation ev' other else ev')"

definition podman_info_evidence :: "scope \<Rightarrow> observation list \<Rightarrow> evidence list" where
  "podman_info_evidence s observations =
     (if \<not> local_podman s then []
      else concat (map (\<lambda>obs.
        case ob_podman obs of
          None \<Rightarrow> []
        | Some info \<Rightarrow>
            if ob_scope obs \<noteq> s then []
            else [foldl (confront_version s obs info) (runtime_evidence obs PodmanInfoID (info_state info)) observations])
        observations))"

lemma info_state_valid [simp]: "state_is_valid (info_state info) = None"
  by (simp add: info_state_def)

interpretation podman_info: evidence_source podman_info_evidence PodmanInfoID local_podman
proof
  fix ev s obs
  assume "ev \<in> set (podman_info_evidence s obs)"
  then obtain ob info where ob: "ob \<in> set obs" "ob_scope ob = s"
    and ev: "ev = foldl (confront_version s ob info) (runtime_evidence ob PodmanInfoID (info_state info)) obs"
    by (auto simp: podman_info_evidence_def split: if_splits option.splits)
  show "about s obs PodmanInfoID ev"
    unfolding ev
  proof (rule about_foldl)
    show "about s obs PodmanInfoID (confront_version s ob info ev' x)"
      if "x \<in> set obs" "about s obs PodmanInfoID ev'" for ev' x
      using that by (auto simp: confront_version_def Let_def intro!: evidence_intros split: option.splits)
  qed (auto intro: evidence_intros ob)
qed (simp add: podman_info_evidence_def)

section \<open>Executables (executable.go)\<close>

definition executable_state :: "executable_candidate \<Rightarrow> bool \<Rightarrow> cap_state" where
  "executable_state c access =
     (case xc_present c of
        None \<Rightarrow> StateUnknown
      | Some present \<Rightarrow>
          if \<not> present then StateUnsupported
          else if xc_masked c then StateMisconfigured
          else case xc_file c of
            None \<Rightarrow> StateUnknown
          | Some f \<Rightarrow>
              if \<not> xm_regular f then StateMisconfigured
              else if \<not> access then StateSupported
              else case xc_executable c of
                None \<Rightarrow> StateUnknown
              | Some x \<Rightarrow> if \<not> xm_executable_bits f \<or> \<not> x then StateMisconfigured else StateSupported)"

text \<open>The loop over the candidates, which stops at the first supported one.\<close>

fun inventory_state :: "bool \<Rightarrow> executable_candidate list \<Rightarrow> cap_state \<Rightarrow> cap_state" where
  "inventory_state access [] st = st"
| "inventory_state access (c # cs) st =
     (let nxt = executable_state c access
      in if nxt = StateSupported then nxt
         else inventory_state access cs (if nxt = StateUnknown \<or> st = StateUnsupported then nxt else st))"

definition inventory_evidence :: "string \<Rightarrow> capability_id \<Rightarrow> bool \<Rightarrow> scope \<Rightarrow> observation list \<Rightarrow> evidence list" where
  "inventory_evidence role cid access s observations =
     (if \<not> local_podman s then []
      else concat (map (\<lambda>obs.
        case ob_executable obs of
          None \<Rightarrow> []
        | Some x \<Rightarrow>
            if ob_scope obs \<noteq> s \<or> x_role x \<noteq> role \<or> x_source x \<noteq> ''trusted_candidates'' then []
            else [prerequisite_evidence obs cid
                   (if x_candidates x = [] then StateUnknown else inventory_state access (x_candidates x) StateUnsupported)
                   ''trusted candidate metadata; custom paths require selection evidence'']) observations))"

definition selected_helper_path :: "podman_info \<Rightarrow> string \<Rightarrow> string" where
  "selected_helper_path p role =
     (if role = ''oci_runtime'' then (case p_oci_runtime p of None \<Rightarrow> '''' | Some r \<Rightarrow> oci_path r)
      else if role = ''conmon'' then p_conmon_path p
      else if role = ''netavark'' then (if p_network_backend p = Some ''netavark'' then p_helper_path p else '''')
      else if role = ''aardvark_dns'' then p_aardvark_path p
      else if role = ''pasta'' then p_pasta_path p
      else if role = ''slirp4netns'' then p_slirp_path p
      else '''')"

lemma executable_state_valid [simp]: "state_is_valid (executable_state c access) = None"
  by (auto simp: executable_state_def split: option.splits)

lemma inventory_state_valid: "state_is_valid st = None \<Longrightarrow> state_is_valid (inventory_state access cs st) = None"
  by (induction cs arbitrary: st) (auto simp: Let_def simp del: state_is_valid_iff)

interpretation inventory: evidence_source "inventory_evidence role cid access" cid local_podman for role cid access
proof
  fix ev s obs
  assume "ev \<in> set (inventory_evidence role cid access s obs)"
  then show "about s obs cid ev"
    by (auto simp: inventory_evidence_def inventory_state_valid simp del: state_is_valid_iff
        intro!: evidence_intros split: if_splits option.splits)
qed (simp add: inventory_evidence_def)

lemma executable_state_iff:
  "executable_state c access = StateSupported \<longleftrightarrow>
     xc_present c = Some True \<and> \<not> xc_masked c \<and>
     (\<exists>f. xc_file c = Some f \<and> xm_regular f \<and> (access \<longrightarrow> xm_executable_bits f \<and> xc_executable c = Some True))"
  "executable_state c access = StateUnsupported \<longleftrightarrow> xc_present c = Some False"
  "executable_state c access \<noteq> StateUnavailable"
  by (auto simp: executable_state_def split: option.splits)

lemma inventory_state_supported:
  "st \<noteq> StateSupported \<Longrightarrow>
   inventory_state access cs st = StateSupported \<longleftrightarrow> (\<exists>c\<in>set cs. executable_state c access = StateSupported)"
  by (induction cs arbitrary: st) (auto simp: Let_def)

lemma inventory_state_unsupported:
  "inventory_state access cs st = StateUnsupported \<longleftrightarrow>
     st = StateUnsupported \<and> (\<forall>c\<in>set cs. executable_state c access = StateUnsupported)"
  by (induction cs arbitrary: st) (auto simp: Let_def)

end
