(* ===== verification/Go_Path.thy ===== *)
theory Go_Path
  imports Prelude
begin

text \<open>
  The lexical path functions of Go's package \<open>path\<close> that the components call: \<open>IsAbs\<close>,
  \<open>Clean\<close> and \<open>Join\<close>. A path is cleaned element by element on a stack, top first.
\<close>

definition path_is_abs :: "string \<Rightarrow> bool" where
  "path_is_abs p = has_prefix p ''/''"

definition clean_element :: "bool \<Rightarrow> string list \<Rightarrow> string \<Rightarrow> string list" where
  "clean_element rooted stack x =
     (if x = '''' \<or> x = ''.'' then stack
      else if x = ''..'' then
        (case stack of
           [] \<Rightarrow> (if rooted then [] else [''..''])
         | y # ys \<Rightarrow> (if y = ''..'' then ''..'' # stack else ys))
      else x # stack)"

definition clean_elements :: "bool \<Rightarrow> string list \<Rightarrow> string list" where
  "clean_elements rooted xs = rev (foldl (clean_element rooted) [] xs)"

definition path_clean :: "string \<Rightarrow> string" where
  "path_clean p =
     (let xs = clean_elements (path_is_abs p) (split_on CHR ''/'' p)
      in if path_is_abs p then ''/'' @ join_with ''/'' xs
         else if xs = [] then ''.'' else join_with ''/'' xs)"

definition path_join :: "string list \<Rightarrow> string" where
  "path_join elems =
     (let xs = filter (\<lambda>e. e \<noteq> '''') elems in if xs = [] then '''' else path_clean (join_with ''/'' xs))"

section \<open>Cleaned paths\<close>

text \<open>
  The elements of a cleaned path: none is empty or a dot, and dot-dot occurs only at the front of a
  path that is not rooted.
\<close>

definition clean_list :: "bool \<Rightarrow> string list \<Rightarrow> bool" where
  "clean_list rooted xs \<longleftrightarrow> (\<exists>n ys. xs = replicate n ''..'' @ ys \<and> (rooted \<longrightarrow> n = 0) \<and> set ys \<inter> {'''', ''.'', ''..''} = {})"

lemma clean_listI:
  "xs = replicate n ''..'' @ ys \<Longrightarrow> (rooted \<Longrightarrow> n = 0) \<Longrightarrow> set ys \<inter> {'''', ''.'', ''..''} = {} \<Longrightarrow> clean_list rooted xs"
  unfolding clean_list_def by blast

lemma clean_list_snoc:
  assumes "x \<notin> {'''', ''.'', ''..''}" and "clean_list rooted xs"
  shows "clean_list rooted (xs @ [x])"
proof -
  obtain n ys where "xs = replicate n ''..'' @ ys" "rooted \<longrightarrow> n = 0" "set ys \<inter> {'''', ''.'', ''..''} = {}"
    using assms(2) unfolding clean_list_def by blast
  then show ?thesis using assms(1) by (intro clean_listI [of _ n "ys @ [x]"]) auto
qed

lemma clean_list_element:
  assumes "clean_list rooted (rev stack)"
  shows "clean_list rooted (rev (clean_element rooted stack x))"
proof -
  obtain n ys where nys: "rev stack = replicate n ''..'' @ ys" "rooted \<longrightarrow> n = 0" "set ys \<inter> {'''', ''.'', ''..''} = {}"
    using assms unfolding clean_list_def by blast
  consider "x = '''' \<or> x = ''.''" | "x = ''..''" | "x \<notin> {'''', ''.'', ''..''}" by blast
  then show ?thesis
  proof cases
    case 1
    with assms show ?thesis by (simp add: clean_element_def)
  next
    case 3
    then have "clean_list rooted (rev stack @ [x])" using assms by (rule clean_list_snoc)
    with 3 show ?thesis by (simp add: clean_element_def)
  next
    case 2
    show ?thesis
    proof (cases stack)
      case Nil
      have "rooted \<or> clean_list rooted [''..'']"
        using clean_listI [of "[''..'']" 1 "[]" rooted] by auto
      with 2 Nil assms show ?thesis by (auto simp: clean_element_def)
    next
      case (Cons y rest)
      show ?thesis
      proof (cases "y = ''..''")
        case True
        have "ys = []"
        proof (rule ccontr)
          assume "ys \<noteq> []"
          then have "y = last ys" using nys(1) Cons by (metis last_appendR last_snoc rev.simps(2))
          then show False using True \<open>ys \<noteq> []\<close> nys(3) last_in_set [of ys] by auto
        qed
        then have "rev (''..'' # stack) = replicate (Suc n) ''..'' @ []" using nys(1) by (simp add: replicate_append_same)
        moreover have "\<not> rooted" using nys Cons \<open>ys = []\<close> by auto
        ultimately have "clean_list rooted (rev (''..'' # stack))" by (intro clean_listI [of _ "Suc n" "[]"]) simp_all
        then show ?thesis using 2 Cons True by (simp add: clean_element_def)
      next
        case False
        have "ys \<noteq> []"
        proof
          assume "ys = []"
          then have "y \<in> set (replicate n ''..'')" using nys(1) Cons by (metis append_Nil2 in_set_conv_decomp rev.simps(2))
          then show False using False by simp
        qed
        then obtain zs z where "ys = zs @ [z]" by (cases ys rule: rev_cases) auto
        then have "rev rest @ [y] = (replicate n ''..'' @ zs) @ [z]" using nys(1) Cons by simp
        then have "rev rest = replicate n ''..'' @ zs" by (simp only: append1_eq_conv)
        then have "clean_list rooted (rev rest)"
          using nys(2,3) \<open>ys = zs @ [z]\<close> by (intro clean_listI [of _ n zs]) auto
        then show ?thesis using 2 Cons False by (simp add: clean_element_def)
      qed
    qed
  qed
qed

lemma clean_list_fold: "clean_list rooted (rev stack) \<Longrightarrow> clean_list rooted (rev (foldl (clean_element rooted) stack xs))"
  by (induction xs arbitrary: stack) (auto simp: clean_list_element)

lemma clean_elements_clean: "clean_list rooted (clean_elements rooted xs)"
  unfolding clean_elements_def by (rule clean_list_fold) (rule clean_listI [of _ 0 "[]"]; simp)

lemma fold_clean_dots: "foldl (clean_element False) (replicate k ''..'') (replicate n ''..'') = replicate (n + k) ''..''"
proof (induction n arbitrary: k)
  case (Suc n)
  have "clean_element False (replicate k ''..'') ''..'' = replicate (Suc k) ''..''"
    by (cases k) (simp_all add: clean_element_def)
  then show ?case using Suc [of "Suc k"] by simp
qed simp

lemma fold_clean_names:
  "set ys \<inter> {'''', ''.'', ''..''} = {} \<Longrightarrow> foldl (clean_element rooted) stack ys = rev ys @ stack"
  by (induction ys arbitrary: stack) (auto simp: clean_element_def)

lemma clean_elements_id:
  assumes "clean_list rooted xs"
  shows "clean_elements rooted xs = xs"
proof -
  obtain n ys where nys: "xs = replicate n ''..'' @ ys" "rooted \<longrightarrow> n = 0" "set ys \<inter> {'''', ''.'', ''..''} = {}"
    using assms unfolding clean_list_def by blast
  have "foldl (clean_element rooted) [] (replicate n ''..'') = replicate n ''..''"
    using nys(2) fold_clean_dots [of 0 n] by (cases rooted) auto
  then show ?thesis by (simp add: clean_elements_def nys(1) fold_clean_names [OF nys(3)])
qed

lemma clean_elements_empty: "clean_elements rooted ('''' # xs) = clean_elements rooted xs"
  by (simp add: clean_elements_def clean_element_def)

lemma clean_element_subset: "set (clean_element rooted stack x) \<subseteq> insert x (set stack)"
  by (auto simp: clean_element_def split: list.splits)

lemma clean_elements_subset: "set (clean_elements rooted xs) \<subseteq> set xs"
proof -
  have "set (foldl (clean_element rooted) stack xs) \<subseteq> set stack \<union> set xs" for stack
  proof (induction xs arbitrary: stack)
    case (Cons x xs)
    show ?case using Cons [of "clean_element rooted stack x"] clean_element_subset [of rooted stack x] by auto
  qed simp
  from this [of "[]"] show ?thesis by (simp add: clean_elements_def)
qed

text \<open>Cleaning a path twice is cleaning it once.\<close>

lemma clean_list_free: "clean_list rooted xs \<Longrightarrow> x \<in> set xs \<Longrightarrow> x \<noteq> ''''"
  by (auto simp: clean_list_def)

lemma path_clean_idem: "path_clean (path_clean p) = path_clean p"
proof -
  define rooted where "rooted = path_is_abs p"
  define xs where "xs = clean_elements rooted (split_on CHR ''/'' p)"
  have clean: "clean_list rooted xs" unfolding xs_def by (rule clean_elements_clean)
  have free: "CHR ''/'' \<notin> set x" if "x \<in> set xs" for x
    using that clean_elements_subset [of rooted "split_on CHR ''/'' p"] split_on_no_sep [of x "CHR ''/''" p] by (auto simp: xs_def)
  have split: "split_on CHR ''/'' (join_with ''/'' xs) = xs" if "xs \<noteq> []" using split_join [OF that free] .
  show ?thesis
  proof (cases rooted)
    case True
    then have p: "path_clean p = ''/'' @ join_with ''/'' xs" by (simp add: path_clean_def rooted_def xs_def Let_def)
    have abs: "path_is_abs (path_clean p)" using p by (simp add: path_is_abs_def has_prefix_def)
    have "clean_elements True (split_on CHR ''/'' (path_clean p)) = xs"
    proof (cases "xs = []")
      case True
      then show ?thesis using p by (simp add: clean_elements_def clean_element_def)
    next
      case False
      then show ?thesis using p split True clean clean_elements_id [of True xs] by (simp add: clean_elements_empty)
    qed
    then have "path_clean (path_clean p) = ''/'' @ join_with ''/'' xs"
      using abs by (simp only: path_clean_def [of "path_clean p"] Let_def if_True)
    then show ?thesis using p by (simp only:)
  next
    case False
    then have p: "path_clean p = (if xs = [] then ''.'' else join_with ''/'' xs)"
      by (simp add: path_clean_def rooted_def xs_def Let_def)
    show ?thesis
    proof (cases xs)
      case Nil
      then show ?thesis using p by (simp add: path_clean_def path_is_abs_def has_prefix_def clean_elements_def clean_element_def)
    next
      case (Cons y ys)
      have "y \<noteq> ''''" "CHR ''/'' \<notin> set y" using clean_list_free [OF clean] free Cons by auto
      then have rel: "\<not> path_is_abs (path_clean p)"
        using p Cons by (cases ys; cases y) (auto simp: path_is_abs_def has_prefix_def)
      have "clean_elements False (split_on CHR ''/'' (path_clean p)) = xs"
        using p Cons split clean clean_elements_id [of False xs] False by simp
      then have "path_clean (path_clean p) = (if xs = [] then ''.'' else join_with ''/'' xs)"
        using rel by (simp only: path_clean_def [of "path_clean p"] Let_def if_False)
      then show ?thesis using p by (simp only:)
    qed
  qed
qed

end
