(* ===== verification/Catalog_Engine.thy ===== *)
theory Catalog_Engine
  imports Catalog_Runtime Go_Path
begin

text \<open>
  The evaluators over the engine configuration: \<open>internal/capability/engine.go\<close>. An access
  \<open>x.Candidates[len(x.Candidates)-1]\<close> is \<open>last\<close>; the guards before it make the list non-empty.
\<close>

definition EngineParsedID :: capability_id where "EngineParsedID = ''runtime.podman.config.engine.parsed''"
definition CgroupManagerSystemdID :: capability_id where
  "CgroupManagerSystemdID = ''runtime.podman.cgroup_manager.systemd''"

section \<open>Parsed configuration\<close>

definition source_broken :: "configuration_source \<Rightarrow> bool" where
  "source_broken src \<longleftrightarrow> src_selected src \<and> (src_status src = ''malformed'' \<or> src_status src = ''invalid'')"

definition engine_parsed_state :: "configuration_observation \<Rightarrow> cap_state" where
  "engine_parsed_state c =
     (if \<not> c_selection_complete c \<or> c_profile c = ''unqualified'' then StateUnknown
      else if list_ex source_broken (c_sources c) then StateMisconfigured
      else if \<not> c_parse_complete c then StateUnknown
      else case c_engine c of
        None \<Rightarrow> StateUnknown
      | Some e \<Rightarrow> (case e_cgroup_manager e of
          Some m \<Rightarrow> if cs_invalid m then StateMisconfigured else StateSupported
        | None \<Rightarrow> StateSupported))"

definition of_family :: "string \<Rightarrow> configuration_observation option \<Rightarrow> configuration_observation option" where
  "of_family family c = (case c of None \<Rightarrow> None | Some c' \<Rightarrow> if c_family c' = family then Some c' else None)"

definition engine_parsed_evidence :: "scope \<Rightarrow> observation list \<Rightarrow> evidence list" where
  "engine_parsed_evidence s observations =
     (if \<not> local_podman s then []
      else concat (map (\<lambda>obs.
        case of_family ''engine'' (ob_configuration obs) of
          None \<Rightarrow> []
        | Some c \<Rightarrow>
            if ob_scope obs \<noteq> s then []
            else [bind_configuration_version
                   (configuration_evidence obs EngineParsedID (engine_parsed_state c)
                     ''selected source order and recognized engine fields; absence retains unmeasured built-in defaults'')
                   c observations]) observations))"

section \<open>The cgroup manager\<close>

definition cgroup_manager_state :: "string \<Rightarrow> cap_state" where
  "cgroup_manager_state value =
     (if value = ''systemd'' then StateSupported else if value = ''cgroupfs'' then StateUnsupported else StateUnknown)"

definition configured_cgroup_manager :: "configuration_observation \<Rightarrow> cap_state" where
  "configured_cgroup_manager c =
     (if engine_parsed_state c \<noteq> StateSupported then StateUnknown
      else case c_engine c of
        None \<Rightarrow> StateUnknown
      | Some e \<Rightarrow> (case e_cgroup_manager e of None \<Rightarrow> StateUnknown | Some m \<Rightarrow> cgroup_manager_state (cs_value m)))"

definition cgroup_manager_evidence :: "scope \<Rightarrow> observation list \<Rightarrow> evidence list" where
  "cgroup_manager_evidence s observations =
     (if \<not> local_podman s then []
      else concat (map (\<lambda>obs.
        if ob_scope obs \<noteq> s then []
        else (case ob_podman obs of
                None \<Rightarrow> []
              | Some p \<Rightarrow> (case p_cgroup_manager p of
                  None \<Rightarrow> []
                | Some m \<Rightarrow> if p_available p = Some True
                    then [runtime_evidence obs CgroupManagerSystemdID (cgroup_manager_state m)] else [])) @
             (case of_family ''engine'' (ob_configuration obs) of
                None \<Rightarrow> []
              | Some c \<Rightarrow> [bind_configuration_version
                  (configuration_evidence obs CgroupManagerSystemdID (configured_cgroup_manager c)
                    ''configured cgroup-manager choice; systemd/user-manager access and cgroup delegation remain separate'')
                  c observations])) observations))"

section \<open>Configured executables\<close>

definition environment_overridden :: "engine_configuration \<Rightarrow> bool" where
  "environment_overridden e = (case e_environment e of None \<Rightarrow> False | Some env \<Rightarrow> cr_count env \<noteq> 0 \<or> cr_inherited_default env)"

text \<open>The names that the engine would try, \<open>None\<close> when the configuration does not determine them.\<close>

definition default_locations :: "string \<Rightarrow> string list" where
  "default_locations name = (if path_is_abs name then [name] else [path_join [''/usr/bin'', name], path_join [''/bin'', name]])"

definition configured_names :: "engine_configuration \<Rightarrow> string \<Rightarrow> string list option" where
  "configured_names e role =
     (if role = ''conmon'' then
        (case e_conmon_path e of
           None \<Rightarrow> None
         | Some l \<Rightarrow> if cl_inherited_default l then None else Some (cl_values l @ default_locations ''conmon''))
      else if role = ''oci_runtime'' then
        (case e_runtime e of
           None \<Rightarrow> None
         | Some r \<Rightarrow>
             if cs_value r = '''' then None
             else if path_is_abs (cs_value r) then Some (cs_value r # default_locations (cs_value r))
             else case map_of (e_runtimes e) (cs_value r) of
               None \<Rightarrow> None
             | Some l \<Rightarrow> if cl_inherited_default l then None else Some (cl_values l @ default_locations (cs_value r)))
      else None)"

definition candidate_prefix :: "string list \<Rightarrow> executable_candidate list \<Rightarrow> bool" where
  "candidate_prefix names candidates \<longleftrightarrow>
     length candidates \<le> length names \<and> map xc_path candidates = take (length candidates) names"

definition configured_paths_match :: "engine_configuration \<Rightarrow> executable_observation \<Rightarrow> bool" where
  "configured_paths_match e x \<longleftrightarrow>
     x_candidates x \<noteq> [] \<and> \<not> e_selection_overrides e \<and> \<not> environment_overridden e \<and>
     (case configured_names e (x_role x) of
        None \<Rightarrow> False
      | Some names \<Rightarrow> candidate_prefix names (x_candidates x) \<and>
          (if x_selected_path x = '''' then length (x_candidates x) = length names
           else xc_path (last (x_candidates x)) = x_selected_path x))"

definition missing_means_broken :: "cap_state \<Rightarrow> cap_state" where
  "missing_means_broken st = (if st = StateUnsupported then StateMisconfigured else st)"

text \<open>Nothing selected: every candidate was looked at and found absent, or not looked at.\<close>

definition unselected_state :: "executable_candidate list \<Rightarrow> cap_state" where
  "unselected_state candidates = (if list_ex (\<lambda>c. xc_present c = None) candidates then StateUnknown else StateMisconfigured)"

definition configured_executable_state :: "configuration_observation \<Rightarrow> executable_observation \<Rightarrow> cap_state" where
  "configured_executable_state c x =
     (case c_engine c of
        None \<Rightarrow> StateUnknown
      | Some e \<Rightarrow>
          if engine_parsed_state c = StateSupported \<and> configured_paths_match e x
          then missing_means_broken
            (if x_selected_path x \<noteq> '''' then executable_state (last (x_candidates x)) True
             else unselected_state (x_candidates x))
          else StateUnknown)"

definition configured_executable_from :: "capability_id \<Rightarrow> scope \<Rightarrow> observation list \<Rightarrow> observation \<Rightarrow> executable_observation \<Rightarrow>
    observation \<Rightarrow> evidence list" where
  "configured_executable_from cid s observations obs x source =
     (case of_family ''engine'' (ob_configuration source) of
        None \<Rightarrow> []
      | Some c \<Rightarrow>
          if ob_scope source \<noteq> s \<or> ob_id source \<noteq> x_source_id x \<or> c_runtime_path c \<noteq> x_runtime_path x then []
          else [bind_configuration_version (include_observation
                 (configuration_evidence obs cid (configured_executable_state c x)
                   ''configured helper selection and target metadata; execution and built-in default selection remain unverified'')
                 source) c observations])"

definition configured_executable_evidence :: "string \<Rightarrow> capability_id \<Rightarrow> scope \<Rightarrow> observation list \<Rightarrow> evidence list" where
  "configured_executable_evidence role cid s observations =
     concat (map (\<lambda>obs.
       case ob_executable obs of
         None \<Rightarrow> []
       | Some x \<Rightarrow>
           if ob_scope obs \<noteq> s \<or> x_source x \<noteq> ''configuration'' \<or> x_role x \<noteq> role then []
           else concat (map (configured_executable_from cid s observations obs x) observations)) observations)"

section \<open>The contract\<close>

lemma state_valid_simps [simp]:
  "state_is_valid (engine_parsed_state c) = None" "state_is_valid (cgroup_manager_state m) = None"
  "state_is_valid (unselected_state cs) = None"
  by (auto simp: engine_parsed_state_def cgroup_manager_state_def unselected_state_def split: option.splits)

lemma state_valid_simps2 [simp]:
  "state_is_valid st = None \<Longrightarrow> state_is_valid (missing_means_broken st) = None"
  "state_is_valid (configured_cgroup_manager c) = None"
  by (auto simp: missing_means_broken_def configured_cgroup_manager_def simp del: state_is_valid_iff split: option.splits)

lemma configured_executable_state_valid [simp]: "state_is_valid (configured_executable_state c x) = None"
  by (auto simp: configured_executable_state_def simp del: state_is_valid_iff split: option.splits)

interpretation engine_parsed: evidence_source engine_parsed_evidence EngineParsedID local_podman
proof
  fix ev s obs
  assume "ev \<in> set (engine_parsed_evidence s obs)"
  then show "about s obs EngineParsedID ev"
    by (auto simp: engine_parsed_evidence_def simp del: state_is_valid_iff intro!: evidence_intros split: if_splits option.splits)
qed (simp add: engine_parsed_evidence_def)

interpretation cgroup_manager: evidence_source cgroup_manager_evidence CgroupManagerSystemdID local_podman
proof
  fix ev s obs
  assume "ev \<in> set (cgroup_manager_evidence s obs)"
  then show "about s obs CgroupManagerSystemdID ev"
    by (auto simp: cgroup_manager_evidence_def simp del: state_is_valid_iff intro!: evidence_intros split: if_splits option.splits)
qed (simp add: cgroup_manager_evidence_def)

lemma about_configured_executable:
  "ev \<in> set (configured_executable_evidence role cid s obs) \<Longrightarrow> about s obs cid ev"
  by (auto simp: configured_executable_evidence_def configured_executable_from_def simp del: state_is_valid_iff intro!: evidence_intros split: if_splits option.splits)

text \<open>A configured executable counts as usable only when it is one the engine would select.\<close>

lemma configured_executable_supported:
  assumes "configured_executable_state c x = StateSupported"
  shows "\<exists>e names. c_engine c = Some e \<and> configured_names e (x_role x) = Some names \<and> x_selected_path x \<in> set names \<and>
    x_candidates x \<noteq> [] \<and> xc_path (last (x_candidates x)) = x_selected_path x \<and>
    executable_state (last (x_candidates x)) True = StateSupported"
proof -
  obtain e where e: "c_engine c = Some e" "configured_paths_match e x" "x_selected_path x \<noteq> ''''"
    "executable_state (last (x_candidates x)) True = StateSupported"
    using assms by (auto simp: configured_executable_state_def missing_means_broken_def unselected_state_def
        split: option.splits if_splits)
  then obtain names where n: "configured_names e (x_role x) = Some names" "candidate_prefix names (x_candidates x)"
    "xc_path (last (x_candidates x)) = x_selected_path x" "x_candidates x \<noteq> []"
    by (auto simp: configured_paths_match_def split: option.splits)
  have "xc_path (last (x_candidates x)) \<in> set (map xc_path (x_candidates x))" using n(4) by simp
  then have "x_selected_path x \<in> set names" using n(2,3) by (metis candidate_prefix_def in_set_takeD)
  with e n show ?thesis by blast
qed

end
