(* ===== verification/Catalog_Network.thy ===== *)
theory Catalog_Network
  imports Catalog_Engine
begin

text \<open>
  The evaluators over the network configuration and its helpers: \<open>network_configuration.go\<close>,
  \<open>network_helpers.go\<close>, \<open>podman.go\<close> and the selected executables of \<open>executable.go\<close>
  (\<open>internal/capability\<close>). Go reads a missing key of a map as the zero value: \<open>string_of_key\<close>.
\<close>

definition NetworkParsedID :: capability_id where "NetworkParsedID = ''runtime.podman.config.network.parsed''"
definition DNSParsedID :: capability_id where "DNSParsedID = ''runtime.podman.config.dns.parsed''"
definition NetworkBackendNetavarkID :: capability_id where
  "NetworkBackendNetavarkID = ''runtime.podman.network.backend.netavark''"
definition RootlessPastaID :: capability_id where "RootlessPastaID = ''runtime.podman.network.rootless.pasta''"
definition RootlessSlirpID :: capability_id where "RootlessSlirpID = ''runtime.podman.network.rootless.slirp4netns''"
definition NetavarkID :: capability_id where "NetavarkID = ''runtime.podman.netavark''"

definition networkBackendKey :: string where "networkBackendKey = ''network.network_backend''"
definition networkRootlessKey :: string where "networkRootlessKey = ''network.default_rootless_network_cmd''"

section \<open>Settings (network\_configuration.go)\<close>

definition string_of_key :: "network_configuration \<Rightarrow> string \<Rightarrow> config_string" where
  "string_of_key n key =
     (case map_of (n_strings n) key of Some v \<Rightarrow> v | None \<Rightarrow> \<lparr>cs_invalid = False, cs_value = '''', cs_source_id = ''''\<rparr>)"

definition network_source_state :: "configuration_observation \<Rightarrow> cap_state" where
  "network_source_state c =
     (if \<not> c_selection_complete c \<or> c_profile c = ''unqualified'' then StateUnknown
      else if list_ex source_broken (c_sources c) then StateMisconfigured
      else if \<not> c_parse_complete c \<or> c_network c = None then StateUnknown
      else StateSupported)"

definition rootless_command :: "network_configuration \<Rightarrow> string" where
  "rootless_command n =
     (case map_of (n_strings n) networkRootlessKey of
        None \<Rightarrow> ''''
      | Some v \<Rightarrow> if cs_invalid v then '''' else if cs_value v = '''' then ''slirp4netns'' else cs_value v)"

definition list_relevant :: "network_configuration \<Rightarrow> bool \<Rightarrow> bool \<Rightarrow> string \<Rightarrow> bool" where
  "list_relevant n rootless dns_only key \<longleftrightarrow>
     has_prefix key ''containers.dns_'' \<or>
     \<not> (dns_only \<or> key \<noteq> ''engine.network_cmd_options'' \<or> \<not> rootless \<or> rootless_command n \<noteq> ''slirp4netns'')"

text \<open>The loop over the map of lists, in some order.\<close>

fun lists_state :: "(string \<Rightarrow> bool) \<Rightarrow> (string \<times> config_list) list \<Rightarrow> cap_state \<Rightarrow> cap_state" where
  "lists_state relevant [] st = st"
| "lists_state relevant ((key, l) # rest) st =
     (if \<not> relevant key then lists_state relevant rest st
      else if cl_invalid_indices l \<noteq> [] then StateMisconfigured
      else lists_state relevant rest
        (if cl_inherited_default l \<or> cl_unmodeled_indices l \<noteq> [] then StateUnknown else st))"

definition network_parsed_state :: "configuration_observation \<Rightarrow> bool \<Rightarrow> bool \<Rightarrow> cap_state" where
  "network_parsed_state c rootless dns_only =
     (if network_source_state c \<noteq> StateSupported then network_source_state c
      else case c_network c of
        None \<Rightarrow> StateUnknown
      | Some n \<Rightarrow>
          if \<not> dns_only \<and> (cs_invalid (string_of_key n networkBackendKey) \<or>
               rootless \<and> cs_invalid (string_of_key n networkRootlessKey))
          then StateMisconfigured
          else lists_state (list_relevant n rootless dns_only) (n_lists n) StateSupported)"

definition network_choice_state :: "string \<Rightarrow> string \<Rightarrow> cap_state" where
  "network_choice_state choice wanted =
     (if choice = wanted then StateSupported
      else if choice \<in> {''netavark'', ''cni'', ''pasta'', ''slirp4netns''} then StateUnsupported
      else StateUnknown)"

definition keyed_choice :: "network_configuration \<Rightarrow> string \<Rightarrow> string \<Rightarrow> cap_state" where
  "keyed_choice n key wanted =
     (case map_of (n_strings n) key of
        None \<Rightarrow> StateUnknown
      | Some v \<Rightarrow> if cs_invalid v then StateMisconfigured
          else network_choice_state (if key = networkRootlessKey then rootless_command n else cs_value v) wanted)"

definition network_choice :: "configuration_observation \<Rightarrow> capability_id \<Rightarrow> bool \<Rightarrow> cap_state" where
  "network_choice c cid rootless =
     (if network_source_state c \<noteq> StateSupported then StateUnknown
      else case c_network c of
        None \<Rightarrow> StateUnknown
      | Some n \<Rightarrow>
          if cid = NetworkBackendNetavarkID then keyed_choice n networkBackendKey ''netavark''
          else if \<not> rootless then StateUnsupported
          else keyed_choice n networkRootlessKey (if cid = RootlessSlirpID then ''slirp4netns'' else ''pasta''))"

text \<open>The two parts of a round of \<open>networkConfigurationEvidence\<close>: the configuration, then the runtime.\<close>

definition network_configured :: "capability_id \<Rightarrow> bool \<Rightarrow> observation list \<Rightarrow> observation \<Rightarrow> evidence list" where
  "network_configured cid rootless observations obs =
     (case of_family ''network'' (ob_configuration obs) of
        None \<Rightarrow> []
      | Some c \<Rightarrow>
          let st = (if cid = NetworkParsedID \<or> cid = DNSParsedID then network_parsed_state c rootless (cid = DNSParsedID)
                    else network_choice c cid rootless);
              ev = configuration_evidence obs cid st
                ''selected network source projection; helper compatibility and workload networking remain unverified'';
              built_in = (case c_network c of None \<Rightarrow> False
                | Some n \<Rightarrow> (cid = RootlessPastaID \<or> cid = RootlessSlirpID) \<and>
                    cs_source_id (string_of_key n networkRootlessKey) = c_version_source_id c)
          in [bind_configuration_version (if built_in then ev\<lparr>ev_precedence := PrecedenceKnowledge\<rparr> else ev) c observations])"

definition network_effective :: "capability_id \<Rightarrow> bool \<Rightarrow> observation \<Rightarrow> evidence list" where
  "network_effective cid rootless obs =
     (case ob_podman obs of
        None \<Rightarrow> []
      | Some p \<Rightarrow>
          if p_available p \<noteq> Some True then []
          else (case p_network_backend p of
                  None \<Rightarrow> []
                | Some b \<Rightarrow> if cid = NetworkBackendNetavarkID
                    then [runtime_evidence obs cid (network_choice_state b ''netavark'')] else []) @
               (case p_rootless_network_cmd p of
                  None \<Rightarrow> []
                | Some cmd \<Rightarrow> if cid = RootlessPastaID \<or> cid = RootlessSlirpID
                    then [runtime_evidence obs cid
                      (if rootless then network_choice_state cmd (if cid = RootlessSlirpID then ''slirp4netns'' else ''pasta'')
                       else StateUnsupported)] else []))"

definition network_configuration_evidence :: "capability_id \<Rightarrow> bool \<Rightarrow> scope \<Rightarrow> observation list \<Rightarrow> evidence list" where
  "network_configuration_evidence cid rootless s observations =
     (if \<not> local_podman s then []
      else concat (map (\<lambda>obs. if ob_scope obs \<noteq> s then []
        else network_configured cid rootless observations obs @ network_effective cid rootless obs) observations))"

section \<open>Helper plans (network\_helpers.go)\<close>

definition engine_parent :: "observation \<Rightarrow> configuration_observation \<Rightarrow> string \<Rightarrow> observation \<Rightarrow> bool" where
  "engine_parent source c engine_id engine \<longleftrightarrow>
     ob_id engine = engine_id \<and> ob_scope engine = ob_scope source \<and>
     (case of_family ''engine'' (ob_configuration engine) of
        None \<Rightarrow> False
      | Some e \<Rightarrow> c_runtime_path e = c_runtime_path c \<and> c_profile e = c_profile c \<and>
          c_version_source_id e = c_version_source_id c \<and> engine_parsed_state e = StateSupported)"

definition engine_of :: "observation \<Rightarrow> engine_configuration option" where
  "engine_of obs = (case ob_configuration obs of None \<Rightarrow> None | Some c \<Rightarrow> c_engine c)"

definition network_engine_source :: "observation \<Rightarrow> observation list \<Rightarrow> observation option" where
  "network_engine_source source observations =
     (case ob_configuration source of
        None \<Rightarrow> None
      | Some c \<Rightarrow> (case c_network c of
          None \<Rightarrow> None
        | Some n \<Rightarrow> (case List.find (engine_parent source c (n_engine_source_id n)) observations of
            None \<Rightarrow> None
          | Some engine \<Rightarrow> (case engine_of engine of
              None \<Rightarrow> None
            | Some e \<Rightarrow> if environment_overridden e then None else Some engine))))"

definition network_paths_match :: "config_list \<Rightarrow> executable_observation \<Rightarrow> bool" where
  "network_paths_match plan x \<longleftrightarrow>
     \<not> cl_inherited_default plan \<and> candidate_prefix (cl_values plan) (x_candidates x) \<and>
     (if x_selected_path x = '''' then length (x_candidates x) = length (cl_values plan)
      else x_candidates x \<noteq> [] \<and> xc_path (last (x_candidates x)) = x_selected_path x)"

definition bits_of :: "executable_candidate \<Rightarrow> bool" where
  "bits_of c = (case xc_file c of None \<Rightarrow> False | Some f \<Rightarrow> xm_executable_bits f)"

definition selected_state :: "executable_candidate \<Rightarrow> bool \<Rightarrow> cap_state" where
  "selected_state c access =
     (let st = executable_state c access
      in if \<not> access \<and> st = StateSupported \<and> \<not> bits_of c then StateMisconfigured else st)"

definition network_helper_state :: "configuration_observation \<Rightarrow> executable_observation \<Rightarrow> bool \<Rightarrow> cap_state" where
  "network_helper_state c x access =
     (if network_source_state c \<noteq> StateSupported then StateUnknown
      else case c_network c of
        None \<Rightarrow> StateUnknown
      | Some n \<Rightarrow> (case map_of (n_helper_paths n) (x_role x) of
          None \<Rightarrow> StateUnknown
        | Some plan \<Rightarrow>
            if \<not> network_paths_match plan x then StateUnknown
            else missing_means_broken
              (if x_selected_path x \<noteq> '''' then selected_state (last (x_candidates x)) access
               else unselected_state (x_candidates x))))"

text \<open>The search plan that the parent engine's directories give for a role.\<close>

definition helper_binary :: "string \<Rightarrow> string" where
  "helper_binary role = (if role = ''aardvark_dns'' then ''aardvark-dns'' else role)"

definition contains_sub :: "string \<Rightarrow> string \<Rightarrow> bool" where
  "contains_sub s sub \<longleftrightarrow> (\<exists>i\<in>set [0..<Suc (length s)]. has_prefix (drop i s) sub)"

definition expected_helper_paths :: "engine_configuration \<Rightarrow> string \<Rightarrow> string list option" where
  "expected_helper_paths e role =
     (if role \<notin> {''netavark'', ''aardvark_dns'', ''pasta'', ''slirp4netns''} then None
      else case e_helper_binaries_dir e of
        None \<Rightarrow> None
      | Some dirs \<Rightarrow>
          if cl_inherited_default dirs \<or> list_ex (\<lambda>dir. contains_sub dir ''$BINDIR'') (cl_values dirs) then None
          else Some (map (\<lambda>dir. path_join [dir, helper_binary role]) (cl_values dirs) @
            (if role = ''pasta'' \<or> role = ''slirp4netns'' then [''/usr/bin/'' @ role, ''/bin/'' @ role] else [])))"

definition network_plan_bound :: "engine_configuration \<Rightarrow> network_configuration \<Rightarrow> string \<Rightarrow> bool" where
  "network_plan_bound e n role \<longleftrightarrow>
     (case map_of (n_helper_paths n) role of
        None \<Rightarrow> False
      | Some plan \<Rightarrow>
          if cl_inherited_default plan then False
          else let cmd = string_of_key n ''engine.network_cmd_path''
            in if role = ''slirp4netns'' \<and> cs_value cmd \<noteq> '''' \<and> \<not> cs_invalid cmd then cl_values plan = [cs_value cmd]
               else Some (cl_values plan) = expected_helper_paths e role)"

definition network_executable_state :: "observation option \<Rightarrow> configuration_observation \<Rightarrow> executable_observation \<Rightarrow> string \<Rightarrow> cap_state" where
  "network_executable_state engine c x role =
     (case (engine, c_network c) of
        (Some eng, Some n) \<Rightarrow> (case engine_of eng of
            Some e \<Rightarrow> if network_plan_bound e n role then network_helper_state c x True else StateUnknown
          | None \<Rightarrow> StateUnknown)
      | _ \<Rightarrow> StateUnknown)"

definition network_executable_from :: "capability_id \<Rightarrow> string \<Rightarrow> scope \<Rightarrow> observation list \<Rightarrow> observation \<Rightarrow>
    executable_observation \<Rightarrow> observation \<Rightarrow> evidence list" where
  "network_executable_from cid role s observations obs x source =
     (case of_family ''network'' (ob_configuration source) of
        None \<Rightarrow> []
      | Some c \<Rightarrow>
          if ob_id source \<noteq> x_source_id x \<or> ob_scope source \<noteq> s \<or> c_runtime_path c \<noteq> x_runtime_path x then []
          else
            let engine = network_engine_source source observations;
                ev = include_observation (configuration_evidence obs cid (network_executable_state engine c x role)
                  ''configured network helper search and target executable access; execution unverified'') source;
                ev' = (case engine of None \<Rightarrow> ev | Some eng \<Rightarrow> include_observation ev eng)
            in [bind_configuration_version ev' c observations])"

definition network_configured_executable_evidence :: "string \<Rightarrow> capability_id \<Rightarrow> scope \<Rightarrow> observation list \<Rightarrow> evidence list" where
  "network_configured_executable_evidence role cid s observations =
     concat (map (\<lambda>obs.
       case ob_executable obs of
         None \<Rightarrow> []
       | Some x \<Rightarrow>
           if ob_scope obs \<noteq> s \<or> x_source x \<noteq> ''configuration'' \<or> x_role x \<noteq> role then []
           else concat (map (network_executable_from cid role s observations obs x) observations)) observations)"

section \<open>Netavark (network\_helpers.go, podman.go)\<close>

definition network_netavark_helper_evidence :: "observation \<Rightarrow> observation list \<Rightarrow> evidence list" where
  "network_netavark_helper_evidence source observations =
     (case (ob_configuration source, network_engine_source source observations) of
        (Some c, Some engine) \<Rightarrow>
          (case (engine_of engine, c_network c) of
             (Some e, Some n) \<Rightarrow>
               if \<not> network_plan_bound e n ''netavark'' then []
               else concat (map (\<lambda>helper.
                 case ob_executable helper of
                   None \<Rightarrow> []
                 | Some x \<Rightarrow>
                     if ob_scope helper \<noteq> ob_scope source \<or> x_source x \<noteq> ''configuration'' \<or> x_role x \<noteq> ''netavark'' \<or>
                        x_source_id x \<noteq> ob_id source \<or> x_runtime_path x \<noteq> c_runtime_path c then []
                     else
                       let ev = configuration_evidence source NetavarkID (network_helper_state c x False)
                         ''configured Netavark backend and selected helper executable file metadata; networking unverified''
                       in [bind_configuration_version (include_observation (include_observation
                             (ev\<lparr>ev_id := ev_id ev @ ''.'' @ ob_id helper\<rparr>) engine) helper) c observations]) observations)
           | _ \<Rightarrow> [])
      | _ \<Rightarrow> [])"

definition configured_netavark_evidence :: "scope \<Rightarrow> observation list \<Rightarrow> evidence list" where
  "configured_netavark_evidence s observations =
     (if \<not> local_podman s then []
      else concat (map (\<lambda>source.
        case of_family ''network'' (ob_configuration source) of
          None \<Rightarrow> []
        | Some c \<Rightarrow>
            if ob_scope source \<noteq> s then []
            else
              let st = network_choice c NetworkBackendNetavarkID True;
                  selected = (if st = StateSupported then network_netavark_helper_evidence source observations else [])
              in if selected \<noteq> [] then selected
                 else [bind_configuration_version
                   (configuration_evidence source NetavarkID (if st = StateSupported then StateUnknown else st)
                     ''configured backend and selected helper file metadata; networking unverified'') c observations])
        observations))"

definition netavark_state :: "podman_info \<Rightarrow> bool option \<Rightarrow> cap_state" where
  "netavark_state info helper =
     (case p_available info of
        None \<Rightarrow> StateUnknown
      | Some available \<Rightarrow>
          if \<not> available then StateUnavailable
          else case p_network_backend info of
            None \<Rightarrow> StateUnknown
          | Some backend \<Rightarrow>
              if backend = ''cni'' then StateUnsupported
              else if backend = ''netavark'' then
                (case helper of None \<Rightarrow> StateUnknown | Some present \<Rightarrow> if present then StateSupported else StateMisconfigured)
              else StateUnknown)"

definition helper_evidence :: "observation \<Rightarrow> podman_info \<Rightarrow> scope \<Rightarrow> observation list \<Rightarrow> evidence list" where
  "helper_evidence obs info s observations =
     concat (map (\<lambda>helper.
       case ob_podman_helper helper of
         None \<Rightarrow> []
       | Some h \<Rightarrow>
           if ob_scope helper \<noteq> s \<or> h_info_id h \<noteq> ob_id obs \<or> h_path h \<noteq> p_path info \<or> h_helper_path h \<noteq> p_helper_path info
           then []
           else let ev = runtime_evidence obs NetavarkID (netavark_state info (h_present h))
                in [include_observation (ev\<lparr>ev_id := ev_id ev @ ''.'' @ ob_id helper\<rparr>) helper]) observations)"

definition netavark_evidence :: "scope \<Rightarrow> observation list \<Rightarrow> evidence list" where
  "netavark_evidence s observations =
     (if sc_runtime s \<noteq> ''podman'' then []
      else configured_netavark_evidence s observations @
        concat (map (\<lambda>obs.
          case ob_podman obs of
            None \<Rightarrow> []
          | Some info \<Rightarrow>
              if ob_scope obs \<noteq> s then []
              else let matched = helper_evidence obs info s observations
                   in if matched \<noteq> [] then matched
                      else [runtime_evidence obs NetavarkID (netavark_state info None)]) observations))"

section \<open>Selected executables (executable.go)\<close>

definition runtime_selected_from :: "capability_id \<Rightarrow> string \<Rightarrow> scope \<Rightarrow> observation \<Rightarrow> executable_observation \<Rightarrow>
    observation \<Rightarrow> evidence list" where
  "runtime_selected_from cid role s obs x source =
     (case ob_podman source of
        None \<Rightarrow> []
      | Some p \<Rightarrow>
          if ob_scope source \<noteq> s \<or> ob_id source \<noteq> x_source_id x \<or> p_path p \<noteq> x_runtime_path x \<or>
             p_available p \<noteq> Some True \<or> selected_helper_path p role \<noteq> x_selected_path x then []
          else [include_observation ((prerequisite_evidence obs cid
                  (missing_means_broken (executable_state (hd (x_candidates x)) True))
                  ''runtime-selected path and target executable metadata; execution unverified'')
                  \<lparr>ev_precedence := PrecedenceRuntime\<rparr>) source])"

definition runtime_selected_evidence :: "string \<Rightarrow> capability_id \<Rightarrow> scope \<Rightarrow> observation list \<Rightarrow> evidence list" where
  "runtime_selected_evidence role cid s observations =
     concat (map (\<lambda>obs.
       case ob_executable obs of
         None \<Rightarrow> []
       | Some x \<Rightarrow>
           if ob_scope obs \<noteq> s \<or> x_role x \<noteq> role \<or> x_source x \<noteq> ''runtime'' \<or> length (x_candidates x) \<noteq> 1 \<or>
              x_selected_path x = '''' \<or> x_selected_path x \<noteq> xc_path (hd (x_candidates x)) then []
           else concat (map (runtime_selected_from cid role s obs x) observations)) observations)"

definition selected_executable_evidence :: "string \<Rightarrow> capability_id \<Rightarrow> scope \<Rightarrow> observation list \<Rightarrow> evidence list" where
  "selected_executable_evidence role cid s observations =
     (if \<not> local_podman s then []
      else configured_executable_evidence role cid s observations @
           network_configured_executable_evidence role cid s observations @
           runtime_selected_evidence role cid s observations)"


section \<open>The contract\<close>

lemma lists_state_valid: "state_is_valid st = None \<Longrightarrow> state_is_valid (lists_state relevant ls st) = None"
  by (induction relevant ls st rule: lists_state.induct) (simp_all del: state_is_valid_iff)

lemma network_state_valid [simp]:
  "state_is_valid (network_source_state c) = None" "state_is_valid (network_choice_state a b) = None"
  "state_is_valid (netavark_state info h) = None"
  by (auto simp: network_source_state_def network_choice_state_def netavark_state_def split: option.splits)

lemma network_state_valid2 [simp]:
  "state_is_valid (keyed_choice n key wanted) = None" "state_is_valid (selected_state x access) = None"
  by (auto simp: keyed_choice_def selected_state_def Let_def simp del: state_is_valid_iff split: option.splits)

lemma network_state_valid3 [simp]:
  "state_is_valid (network_choice c cid rootless) = None" "state_is_valid (network_helper_state c x access) = None"
  "state_is_valid (network_parsed_state c rootless dns) = None"
  by (auto simp: network_choice_def network_helper_state_def network_parsed_state_def lists_state_valid
      simp del: state_is_valid_iff split: option.splits)

lemma network_executable_state_valid [simp]: "state_is_valid (network_executable_state engine c x role) = None"
  by (auto simp: network_executable_state_def simp del: state_is_valid_iff split: option.splits)

lemma network_engine_source_in:
  assumes "network_engine_source source obs = Some engine"
  shows "engine \<in> set obs" "ob_scope engine = ob_scope source"
proof -
  obtain c n where "List.find (engine_parent source c n) obs = Some engine"
    using assms by (auto simp: network_engine_source_def split: option.splits if_splits)
  then have "engine \<in> set obs" "engine_parent source c n engine" by (auto simp: find_Some_iff in_set_conv_nth)
  then show "engine \<in> set obs" "ob_scope engine = ob_scope source" by (simp_all add: engine_parent_def)
qed

lemma about_network_configured:
  "ob \<in> set obs \<Longrightarrow> ob_scope ob = s \<Longrightarrow> ev \<in> set (network_configured cid rootless obs ob) \<Longrightarrow> about s obs cid ev"
  by (auto simp: network_configured_def Let_def simp del: state_is_valid_iff intro!: evidence_intros split: if_splits option.splits)

lemma about_network_effective:
  "ob \<in> set obs \<Longrightarrow> ob_scope ob = s \<Longrightarrow> ev \<in> set (network_effective cid rootless ob) \<Longrightarrow> about s obs cid ev"
  by (auto simp: network_effective_def simp del: state_is_valid_iff intro!: evidence_intros split: if_splits option.splits)

interpretation network_configuration: evidence_source "network_configuration_evidence cid rootless" cid local_podman
  for cid rootless
proof
  fix ev s obs
  assume "ev \<in> set (network_configuration_evidence cid rootless s obs)"
  then show "about s obs cid ev"
    using about_network_configured about_network_effective
    by (fastforce simp: network_configuration_evidence_def split: if_splits)
qed (simp add: network_configuration_evidence_def)

lemma network_engine_source_scope:
  "network_engine_source source obs = Some engine \<Longrightarrow> ob_scope source = s \<Longrightarrow> ob_scope engine = s"
  using network_engine_source_in(2) by simp

lemma about_network_executable:
  "ev \<in> set (network_configured_executable_evidence role cid s obs) \<Longrightarrow> about s obs cid ev"
  by (auto simp: network_configured_executable_evidence_def network_executable_from_def Let_def simp del: state_is_valid_iff
      intro!: evidence_intros intro: network_engine_source_in(1) network_engine_source_scope split: if_splits option.splits)

lemma about_network_netavark:
  assumes "ev \<in> set (network_netavark_helper_evidence source obs)" and "source \<in> set obs" and "ob_scope source = s"
  shows "about s obs NetavarkID ev"
proof -
  obtain engine where engine: "network_engine_source source obs = Some engine"
    using assms(1) by (cases "network_engine_source source obs")
      (auto simp: network_netavark_helper_evidence_def split: option.splits)
  note network_engine_source_in [OF engine]
  then show ?thesis
    using assms engine
    by (auto simp: network_netavark_helper_evidence_def Let_def simp del: state_is_valid_iff
        intro!: evidence_intros split: if_splits option.splits)
qed

lemma about_configured_netavark:
  assumes "ev \<in> set (configured_netavark_evidence s obs)"
  shows "about s obs NetavarkID ev"
  using assms about_network_netavark
  by (auto simp: configured_netavark_evidence_def Let_def simp del: state_is_valid_iff
      intro!: evidence_intros split: if_splits option.splits)

lemma about_helper_evidence:
  "ob \<in> set obs \<Longrightarrow> ob_scope ob = s \<Longrightarrow> ev \<in> set (helper_evidence ob info s obs) \<Longrightarrow> about s obs NetavarkID ev"
  by (auto simp: helper_evidence_def Let_def simp del: state_is_valid_iff intro!: evidence_intros split: if_splits option.splits)

interpretation netavark: evidence_source netavark_evidence NetavarkID "\<lambda>s. sc_runtime s = ''podman''"
proof
  fix ev s obs
  assume "ev \<in> set (netavark_evidence s obs)"
  then consider "ev \<in> set (configured_netavark_evidence s obs)"
    | ob info where "ob \<in> set obs" "ob_scope ob = s" "ev \<in> set (helper_evidence ob info s obs)"
    | ob info where "ob \<in> set obs" "ob_scope ob = s" "ev = runtime_evidence ob NetavarkID (netavark_state info None)"
    by (auto simp: netavark_evidence_def Let_def split: if_splits option.splits)
  then show "about s obs NetavarkID ev"
  proof cases
    case 1
    then show ?thesis by (rule about_configured_netavark)
  next
    case (2 ob info)
    then show ?thesis by (rule about_helper_evidence)
  next
    case (3 ob info)
    then show ?thesis by (auto simp del: state_is_valid_iff intro!: evidence_intros)
  qed
qed (simp add: netavark_evidence_def)

lemma about_runtime_selected:
  "ev \<in> set (runtime_selected_evidence role cid s obs) \<Longrightarrow> about s obs cid ev"
  by (auto simp: runtime_selected_evidence_def runtime_selected_from_def simp del: state_is_valid_iff intro!: evidence_intros split: if_splits option.splits)

interpretation selected_executable: evidence_source "selected_executable_evidence role cid" cid local_podman for role cid
proof
  fix ev s obs
  assume "ev \<in> set (selected_executable_evidence role cid s obs)"
  then show "about s obs cid ev"
    using about_configured_executable about_network_executable about_runtime_selected
    by (auto simp: selected_executable_evidence_def split: if_splits)
qed (simp add: selected_executable_evidence_def)

text \<open>The order in which Go walks the map of lists does not matter.\<close>

lemma lists_state_spec:
  "lists_state relevant ls st =
     (if list_ex (\<lambda>p. relevant (fst p) \<and> cl_invalid_indices (snd p) \<noteq> []) ls then StateMisconfigured
      else if list_ex (\<lambda>p. relevant (fst p) \<and> (cl_inherited_default (snd p) \<or> cl_unmodeled_indices (snd p) \<noteq> [])) ls then StateUnknown
      else st)"
proof (induction ls arbitrary: st)
  case (Cons p ls)
  obtain key l where p: "p = (key, l)" by (cases p)
  show ?case
    by (cases "relevant key"; cases "cl_invalid_indices l = []"; cases "cl_inherited_default l \<or> cl_unmodeled_indices l \<noteq> []")
      (simp_all add: p Cons)
qed simp

lemma lists_state_permutation: "mset ls = mset ls' \<Longrightarrow> lists_state relevant ls st = lists_state relevant ls' st"
  by (simp only: lists_state_spec list_ex_iff mset_eq_setD [of ls ls'])

end
