(* ===== verification/Catalog_Storage.thy ===== *)
theory Catalog_Storage
  imports Catalog_Engine
begin

text \<open>
  The evaluators over storage: \<open>storage.go\<close>, \<open>storage_paths.go\<close> and \<open>storage_kernel.go\<close>
  (\<open>internal/capability\<close>). Of an expected path only the role and the path are set, so it is a
  pair; \<open>None\<close> from \<open>expected_storage_paths\<close> is a second result of false.
\<close>

definition StorageParsedID :: capability_id where "StorageParsedID = ''runtime.podman.config.storage.parsed''"
definition StorageOverlayID :: capability_id where "StorageOverlayID = ''runtime.podman.storage.overlay''"
definition StorageMountProgramID :: capability_id where
  "StorageMountProgramID = ''runtime.podman.storage.mount_program.executable''"
definition StorageRootsID :: capability_id where "StorageRootsID = ''runtime.podman.storage.roots.accessible''"
definition StorageImageStoreID :: capability_id where "StorageImageStoreID = ''runtime.podman.storage.image_store.accessible''"
definition StorageAdditionalID :: capability_id where
  "StorageAdditionalID = ''runtime.podman.storage.additional_stores.accessible''"
definition StorageKernelOverlayID :: capability_id where "StorageKernelOverlayID = ''runtime.podman.storage.kernel.overlay''"
definition StorageKernelFUSEID :: capability_id where "StorageKernelFUSEID = ''runtime.podman.storage.kernel.fuse''"
definition maxSelectedStoragePaths :: nat where "maxSelectedStoragePaths = 32"

section \<open>Configuration and driver (storage.go)\<close>

definition storage_parsed_state :: "configuration_observation \<Rightarrow> cap_state" where
  "storage_parsed_state c =
     (if \<not> c_selection_complete c \<or> c_profile c = ''unqualified'' then StateUnknown
      else if list_ex source_broken (c_sources c) then StateMisconfigured
      else if \<not> c_parse_complete c then StateUnknown
      else case c_storage c of
        None \<Rightarrow> StateUnknown
      | Some st \<Rightarrow> if st_problems st \<noteq> [] then StateMisconfigured else StateSupported)"

definition storage_configuration_evidence :: "scope \<Rightarrow> observation list \<Rightarrow> evidence list" where
  "storage_configuration_evidence s observations =
     (if \<not> local_podman s then []
      else concat (map (\<lambda>obs.
        case of_family ''storage'' (ob_configuration obs) of
          None \<Rightarrow> []
        | Some c \<Rightarrow>
            if ob_scope obs \<noteq> s then []
            else [bind_configuration_version (configuration_evidence obs StorageParsedID (storage_parsed_state c)
                   ''selected storage source phases and recognized fields; replacement and root defaults are version-specific'')
                   c observations]) observations))"

definition storage_overlay_state :: "string \<Rightarrow> cap_state" where
  "storage_overlay_state driver =
     (if driver = '''' then StateUnknown
      else if driver = ''overlay'' \<or> driver = ''overlay2'' then StateSupported else StateUnsupported)"

definition local_storage_report :: "podman_info option \<Rightarrow> bool" where
  "local_storage_report info =
     (case info of None \<Rightarrow> False | Some p \<Rightarrow> p_available p = Some True \<and> p_service_is_remote p \<noteq> Some True)"

definition configured_overlay_state :: "configuration_observation \<Rightarrow> cap_state" where
  "configured_overlay_state c =
     (if storage_parsed_state c \<noteq> StateSupported then StateUnknown
      else case c_storage c of
        None \<Rightarrow> StateUnknown
      | Some st \<Rightarrow> (case st_driver st of None \<Rightarrow> StateUnknown | Some d \<Rightarrow> storage_overlay_state (cs_value d)))"

definition storage_overlay_evidence :: "scope \<Rightarrow> observation list \<Rightarrow> evidence list" where
  "storage_overlay_evidence s observations =
     (if \<not> local_podman s then []
      else concat (map (\<lambda>obs.
        if ob_scope obs \<noteq> s then []
        else (case ob_podman obs of
                None \<Rightarrow> []
              | Some p \<Rightarrow> (case p_storage_driver p of
                  None \<Rightarrow> []
                | Some d \<Rightarrow> if local_storage_report (Some p)
                    then [runtime_evidence obs StorageOverlayID (storage_overlay_state d)] else [])) @
             (case of_family ''storage'' (ob_configuration obs) of
                None \<Rightarrow> []
              | Some c \<Rightarrow> [bind_configuration_version
                  (configuration_evidence obs StorageOverlayID (configured_overlay_state c)
                    ''configured storage driver; runtime-effective driver takes precedence'') c observations]))
        observations))"

definition configured_mount_program :: "configuration_observation \<Rightarrow> string option" where
  "configured_mount_program c =
     (if storage_parsed_state c \<noteq> StateSupported then None
      else case c_storage c of None \<Rightarrow> None | Some st \<Rightarrow> map_option cs_value (st_mount_program st))"

text \<open>One source confronted with one executable observation.\<close>

definition mount_program_from :: "observation \<Rightarrow> executable_observation \<Rightarrow> observation list \<Rightarrow> observation \<Rightarrow> evidence list" where
  "mount_program_from obs x observations source =
     (let st = missing_means_broken (executable_state (hd (x_candidates x)) True)
      in if x_source x = ''runtime'' then
           (case ob_podman source of
              None \<Rightarrow> []
            | Some p \<Rightarrow>
                if \<not> local_storage_report (Some p) \<or> p_path p \<noteq> x_runtime_path x \<or>
                   p_storage_mount_program p \<noteq> x_selected_path x then []
                else [include_observation (runtime_evidence obs StorageMountProgramID st) source])
         else if x_source x = ''configuration'' then
           (case of_family ''storage'' (ob_configuration source) of
              None \<Rightarrow> []
            | Some c \<Rightarrow>
                if c_runtime_path c \<noteq> x_runtime_path x then []
                else [bind_configuration_version (include_observation
                       (configuration_evidence obs StorageMountProgramID
                         (if configured_mount_program c \<noteq> Some (x_selected_path x) then StateUnknown else st)
                         ''configured mount-program path and target executable access; no storage test'') source)
                       c observations])
         else [])"

definition storage_mount_program_evidence :: "scope \<Rightarrow> observation list \<Rightarrow> evidence list" where
  "storage_mount_program_evidence s observations =
     (if \<not> local_podman s then []
      else concat (map (\<lambda>obs.
        case ob_executable obs of
          None \<Rightarrow> []
        | Some x \<Rightarrow>
            if ob_scope obs \<noteq> s \<or> x_role x \<noteq> ''storage_mount_program'' \<or> length (x_candidates x) \<noteq> 1 \<or>
               x_selected_path x = '''' \<or> xc_path (hd (x_candidates x)) \<noteq> x_selected_path x then []
            else concat (map (\<lambda>source.
              if ob_scope source \<noteq> s \<or> ob_id source \<noteq> x_source_id x then []
              else mount_program_from obs x observations source) observations)) observations))"

section \<open>Paths (storage\_paths.go)\<close>

text \<open>The loops over the additional stores: \<open>None\<close> when a further path exceeds the limit.\<close>

fun add_paths :: "string \<Rightarrow> (string \<Rightarrow> string) \<Rightarrow> string list \<Rightarrow> (string \<times> string) list \<Rightarrow> (string \<times> string) list option" where
  "add_paths role strip [] expected = Some expected"
| "add_paths role strip (name # names) expected =
     (if length expected = maxSelectedStoragePaths then None
      else add_paths role strip names (expected @ [(role, path_clean (strip name))]))"

definition list_names :: "config_list option \<Rightarrow> string list" where
  "list_names l = (case l of None \<Rightarrow> [] | Some l' \<Rightarrow> concat (map (split_on CHR '','') (cl_values l')))"

definition additional_paths :: "storage_configuration \<Rightarrow> (string \<times> string) list option" where
  "additional_paths st =
     (case add_paths ''additionalimagestore'' id (list_names (st_additional_image_stores st)) [] of
        None \<Rightarrow> None
      | Some expected \<Rightarrow>
          add_paths ''additionallayerstore'' (\<lambda>name. trim_suffix name '':ref'') (list_names (st_additional_layer_stores st)) expected)"

definition string_value :: "config_string option \<Rightarrow> string" where
  "string_value v = (case v of None \<Rightarrow> '''' | Some c \<Rightarrow> cs_value c)"

definition root_paths :: "string \<Rightarrow> string \<Rightarrow> (string \<times> string) list option" where
  "root_paths graph run = (if graph \<noteq> '''' \<and> run \<noteq> '''' then Some [(''graphroot'', graph), (''runroot'', run)] else None)"

definition expected_storage_paths :: "observation \<Rightarrow> capability_id \<Rightarrow> (string \<times> string) list option" where
  "expected_storage_paths source cid =
     (case ob_podman source of
        Some info \<Rightarrow>
          if cid \<noteq> StorageRootsID \<or> \<not> local_storage_report (Some info) then None
          else (case (p_graph_root info, p_run_root info) of
              (Some graph, Some run) \<Rightarrow> root_paths graph run
            | _ \<Rightarrow> None)
      | None \<Rightarrow>
          (case of_family ''storage'' (ob_configuration source) of
             None \<Rightarrow> None
           | Some c \<Rightarrow>
               if storage_parsed_state c \<noteq> StateSupported then None
               else case c_storage c of
                 None \<Rightarrow> None
               | Some st \<Rightarrow>
                   if cid = StorageRootsID then root_paths (string_value (st_graph_root st)) (string_value (st_run_root st))
                   else if cid = StorageImageStoreID then
                     Some (if string_value (st_image_store st) = '''' then [] else [(''imagestore'', string_value (st_image_store st))])
                   else additional_paths st))"

definition storage_directory_state :: "storage_path_metadata \<Rightarrow> capability_id \<Rightarrow> cap_state" where
  "storage_directory_state item cid =
     (case sp_present item of
        None \<Rightarrow> StateUnknown
      | Some present \<Rightarrow>
          if \<not> present then (if cid = StorageAdditionalID then StateMisconfigured else StateUnknown)
          else if sp_ancestor item \<or> sp_checked_path item \<noteq> sp_path item then StateUnknown
          else case sp_directory item of
            None \<Rightarrow> StateUnknown
          | Some directory \<Rightarrow>
              if \<not> directory then StateMisconfigured
              else case sp_accessible item of
                None \<Rightarrow> StateUnknown
              | Some accessible \<Rightarrow>
                  if \<not> accessible then StateMisconfigured
                  else if cid = StorageAdditionalID then StateSupported
                  else case sp_filesystem item of
                    None \<Rightarrow> StateUnknown
                  | Some fs \<Rightarrow> (case fs_read_only fs of
                      None \<Rightarrow> StateUnknown
                    | Some ro \<Rightarrow> if ro then StateMisconfigured else StateSupported))"

definition path_selected :: "capability_id \<Rightarrow> storage_path_metadata \<Rightarrow> bool" where
  "path_selected cid item \<longleftrightarrow>
     cid = StorageRootsID \<and> (sp_role item = ''graphroot'' \<or> sp_role item = ''runroot'') \<or>
     cid = StorageImageStoreID \<and> sp_role item = ''imagestore'' \<or> cid = StorageAdditionalID"

text \<open>The loop over the selected paths and the expected ones, which have the same length.\<close>

fun paths_state :: "capability_id \<Rightarrow> ((string \<times> string) \<times> storage_path_metadata) list \<Rightarrow> cap_state \<Rightarrow> cap_state" where
  "paths_state cid [] st = st"
| "paths_state cid (((role, path), item) # rest) st =
     (if sp_path item \<noteq> path \<or> sp_role item \<noteq> role then StateUnknown
      else let candidate = storage_directory_state item cid
        in paths_state cid rest
             (if candidate = StateMisconfigured then candidate
              else if candidate = StateUnknown \<and> st = StateSupported then candidate else st))"

definition selected_storage_paths_state :: "(string \<times> string) list \<Rightarrow> storage_path_metadata list \<Rightarrow> capability_id \<Rightarrow> cap_state" where
  "selected_storage_paths_state expected measured cid =
     (let selected = filter (path_selected cid) measured
      in if length selected \<noteq> length expected then StateUnknown
         else paths_state cid (zip expected selected) StateSupported)"

definition storage_measured :: "capability_id \<Rightarrow> observation \<Rightarrow> (string \<times> string) list \<Rightarrow> observation list \<Rightarrow> observation \<Rightarrow>
    storage_path_observation \<Rightarrow> evidence" where
  "storage_measured cid source expected observations obs m =
     (let matches = (case ob_podman source of
            Some p \<Rightarrow> so_source m = ''runtime'' \<and> so_runtime_path m = p_path p
          | None \<Rightarrow> (case ob_configuration source of
              None \<Rightarrow> False
            | Some c \<Rightarrow> so_source m = ''configuration'' \<and> so_runtime_path m = c_runtime_path c));
          st = (if matches then selected_storage_paths_state expected (so_paths m) cid else StateUnknown);
          ev = (runtime_evidence obs cid st)\<lparr>ev_source :=
            ''selected paths and target kernel access; ancestor access cannot prove target creation or storage operation''\<rparr>;
          ev' = (case ob_podman source of
            Some p \<Rightarrow> ev
          | None \<Rightarrow> (case ob_configuration source of
              None \<Rightarrow> ev
            | Some c \<Rightarrow> bind_configuration_version (ev\<lparr>ev_precedence := PrecedenceConfig\<rparr>) c observations))
      in include_observation ev' source)"

text \<open>The round for one source whose expected paths are known.\<close>

definition storage_path_from :: "capability_id \<Rightarrow> scope \<Rightarrow> observation list \<Rightarrow> observation \<Rightarrow> (string \<times> string) list \<Rightarrow> evidence list" where
  "storage_path_from cid s observations source expected =
     (if expected = [] then
        (case ob_configuration source of
           None \<Rightarrow> []
         | Some c \<Rightarrow> [bind_configuration_version
             (configuration_evidence source cid StateSupported
               ''no additional path is selected by the qualified storage configuration'') c observations])
      else concat (map (\<lambda>obs.
        case ob_storage_paths obs of
          None \<Rightarrow> []
        | Some m \<Rightarrow>
            if ob_scope obs \<noteq> s \<or> so_source_id m \<noteq> ob_id source \<or> so_writable m \<noteq> (cid \<noteq> StorageAdditionalID) then []
            else [storage_measured cid source expected observations obs m]) observations))"

definition storage_path_evidence :: "capability_id \<Rightarrow> scope \<Rightarrow> observation list \<Rightarrow> evidence list" where
  "storage_path_evidence cid s observations =
     (if \<not> local_podman s then []
      else concat (map (\<lambda>source.
        if ob_scope source \<noteq> s then []
        else case expected_storage_paths source cid of
          None \<Rightarrow> []
        | Some expected \<Rightarrow> storage_path_from cid s observations source expected) observations))"

section \<open>Kernel registration (storage\_kernel.go)\<close>

definition storage_kernel_evidence :: "capability_id \<Rightarrow> scope \<Rightarrow> observation list \<Rightarrow> evidence list" where
  "storage_kernel_evidence cid s observations =
     (if \<not> local_podman s then []
      else concat (map (\<lambda>obs.
        if ob_scope obs \<noteq> s then []
        else case ob_host obs of
          None \<Rightarrow> []
        | Some h \<Rightarrow> (case ho_filesystems h of
            None \<Rightarrow> []
          | Some f \<Rightarrow> [prerequisite_evidence obs cid
              (boolean_state (if cid = StorageKernelFUSEID then fo_fuse_registered f else fo_overlay_registered f) StateUnsupported)
              ''current kernel filesystem registration from host facts; this does not establish usable storage or device access'']))
        observations))"

section \<open>The contract\<close>

lemma storage_state_valid [simp]:
  "state_is_valid (storage_parsed_state c) = None" "state_is_valid (storage_overlay_state d) = None"
  "state_is_valid (storage_directory_state item cid) = None"
  by (auto simp: storage_parsed_state_def storage_overlay_state_def storage_directory_state_def split: option.splits)

lemma paths_state_valid: "state_is_valid st = None \<Longrightarrow> state_is_valid (paths_state cid ps st) = None"
  by (induction cid ps st rule: paths_state.induct) (simp_all add: Let_def del: state_is_valid_iff)

lemma storage_state_valid2 [simp]:
  "state_is_valid (configured_overlay_state c) = None" "state_is_valid (selected_storage_paths_state e m cid) = None"
  by (auto simp: configured_overlay_state_def selected_storage_paths_state_def Let_def paths_state_valid
      simp del: state_is_valid_iff split: option.splits)

interpretation storage_configuration: evidence_source storage_configuration_evidence StorageParsedID local_podman
proof
  fix ev s obs
  assume "ev \<in> set (storage_configuration_evidence s obs)"
  then show "about s obs StorageParsedID ev"
    by (auto simp: storage_configuration_evidence_def simp del: state_is_valid_iff intro!: evidence_intros split: if_splits option.splits)
qed (simp add: storage_configuration_evidence_def)

interpretation storage_overlay: evidence_source storage_overlay_evidence StorageOverlayID local_podman
proof
  fix ev s obs
  assume "ev \<in> set (storage_overlay_evidence s obs)"
  then show "about s obs StorageOverlayID ev"
    by (auto simp: storage_overlay_evidence_def simp del: state_is_valid_iff intro!: evidence_intros split: if_splits option.splits)
qed (simp add: storage_overlay_evidence_def)

interpretation storage_mount_program: evidence_source storage_mount_program_evidence StorageMountProgramID local_podman
proof
  fix ev s obs
  assume "ev \<in> set (storage_mount_program_evidence s obs)"
  then show "about s obs StorageMountProgramID ev"
    by (auto simp: storage_mount_program_evidence_def mount_program_from_def Let_def simp del: state_is_valid_iff
        intro!: evidence_intros split: if_splits option.splits)
qed (simp add: storage_mount_program_evidence_def)

lemma about_storage_measured:
  "ob \<in> set obs \<Longrightarrow> ob_scope ob = s \<Longrightarrow> source \<in> set obs \<Longrightarrow> ob_scope source = s \<Longrightarrow>
   about s obs cid (storage_measured cid source expected obs ob m)"
  by (auto simp: storage_measured_def Let_def simp del: state_is_valid_iff intro!: evidence_intros split: option.splits)

lemma about_storage_path_from:
  "source \<in> set obs \<Longrightarrow> ob_scope source = s \<Longrightarrow> ev \<in> set (storage_path_from cid s obs source expected) \<Longrightarrow> about s obs cid ev"
  by (auto simp: storage_path_from_def simp del: state_is_valid_iff intro!: evidence_intros about_storage_measured
      split: if_splits option.splits)

interpretation storage_paths: evidence_source "storage_path_evidence cid" cid local_podman for cid
proof
  fix ev s obs
  assume "ev \<in> set (storage_path_evidence cid s obs)"
  then show "about s obs cid ev"
    by (auto simp: storage_path_evidence_def intro!: about_storage_path_from split: if_splits option.splits)
qed (simp add: storage_path_evidence_def)

interpretation storage_kernel: evidence_source "storage_kernel_evidence cid" cid local_podman for cid
proof
  fix ev s obs
  assume "ev \<in> set (storage_kernel_evidence cid s obs)"
  then show "about s obs cid ev"
    by (auto simp: storage_kernel_evidence_def simp del: state_is_valid_iff intro!: evidence_intros
        split: if_splits option.splits) 
qed (simp add: storage_kernel_evidence_def)

end
