(* ===== verification/Catalog_Quadlet.thy ===== *)
theory Catalog_Quadlet
  imports Catalog_Runtime
begin

text \<open>
  The evaluators over Quadlet's prerequisites: \<open>internal/capability/quadlet.go\<close>.
\<close>

definition QuadletGeneratorID :: capability_id where "QuadletGeneratorID = ''runtime.podman.quadlet.generator''"
definition PodmanCgroupV2ID :: capability_id where "PodmanCgroupV2ID = ''runtime.podman.cgroup_v2''"
definition QuadletManagerID :: capability_id where "QuadletManagerID = ''runtime.podman.quadlet.manager''"
definition QuadletRuntimeDirectoryID :: capability_id where
  "QuadletRuntimeDirectoryID = ''runtime.podman.quadlet.runtime_directory''"
definition QuadletLingerID :: capability_id where "QuadletLingerID = ''runtime.podman.quadlet.linger''"

section \<open>The generator\<close>

text \<open>The loop over the candidates in systemd's order, which stops at the selected path.\<close>

fun generator_state :: "string \<Rightarrow> executable_candidate list \<Rightarrow> cap_state \<Rightarrow> cap_state" where
  "generator_state selected [] st = st"
| "generator_state selected (c # cs) st =
     (if xc_path c = selected then executable_state c True
      else generator_state selected cs (if xc_present c = None \<or> xc_present c = Some True then StateUnknown else st))"

definition quadlet_generator_evidence :: "bool \<Rightarrow> scope \<Rightarrow> observation list \<Rightarrow> evidence list" where
  "quadlet_generator_evidence rootless s observations =
     (if \<not> local_podman s then []
      else concat (map (\<lambda>obs.
        case ob_executable obs of
          None \<Rightarrow> []
        | Some x \<Rightarrow>
            if ob_scope obs \<noteq> s \<or> x_role x \<noteq> ''quadlet'' \<or>
               x_source x \<noteq> (if rootless then ''systemd_user_generators'' else ''systemd_system_generators'') then []
            else [prerequisite_evidence obs QuadletGeneratorID
                   (if x_candidates x = [] then StateUnknown
                    else generator_state (x_selected_path x) (x_candidates x) StateUnsupported)
                   ''systemd generator precedence and masking; metadata does not verify functional unit generation''])
        observations))"

section \<open>Unified cgroups\<close>

definition cgroup_v2_state :: "string \<Rightarrow> cap_state" where
  "cgroup_v2_state mode =
     (if mode = ''v2'' then StateSupported
      else if mode = ''v1'' \<or> mode = ''mixed'' then StateUnsupported
      else if mode = ''unavailable'' then StateUnavailable
      else StateUnknown)"

definition cgroup_v2_evidence :: "scope \<Rightarrow> observation list \<Rightarrow> evidence list" where
  "cgroup_v2_evidence s observations =
     (if \<not> local_podman s then []
      else concat (map (\<lambda>obs.
        if ob_scope obs \<noteq> s then []
        else (case ob_host obs of
                None \<Rightarrow> []
              | Some h \<Rightarrow> (case ho_cgroups h of
                  None \<Rightarrow> []
                | Some cg \<Rightarrow> [prerequisite_evidence obs PodmanCgroupV2ID (cgroup_v2_state (cg_mode cg))
                    ''live cgroup hierarchy; controller delegation and workload execution remain unverified''])) @
             (case ob_podman obs of
                None \<Rightarrow> []
              | Some p \<Rightarrow> (case p_cgroup_version p of
                  None \<Rightarrow> []
                | Some v \<Rightarrow> if p_available p = Some True
                    then [runtime_evidence obs PodmanCgroupV2ID (cgroup_v2_state v)] else []))) observations))"

section \<open>The session\<close>

definition user_manager_state :: "user_context_observation \<Rightarrow> cap_state" where
  "user_manager_state u =
     (if u_accessible u \<noteq> None then boolean_state (u_accessible u) StateUnavailable
      else if rd_valid (u_runtime u) = Some False then StateMisconfigured
      else if u_socket_present u = Some False then StateUnavailable
      else if u_socket_valid u = Some False then StateMisconfigured
      else StateUnknown)"

definition session_description :: "capability_id \<Rightarrow> bool \<Rightarrow> string" where
  "session_description cid rootless =
     (if \<not> rootless \<and> cid \<noteq> QuadletManagerID then ''user-session prerequisite does not apply to rootful system services''
      else if cid = QuadletRuntimeDirectoryID then ''rootless services require a target-owned mode 0700 runtime directory''
      else if cid = QuadletLingerID then
        ''linger marker supports user-manager startup without login; running services and boot persistence are unverified''
      else if rootless then
        ''target user-manager accessibility requires the explicit active query; socket presence alone is insufficient''
      else ''rootful Quadlet requires the system manager to be running; unit activation is unverified'')"

definition rootful_session_state :: "capability_id \<Rightarrow> systemd_observation \<Rightarrow> cap_state" where
  "rootful_session_state cid sd =
     (if cid = QuadletManagerID then boolean_state (sd_running sd) StateUnavailable else StateUnsupported)"

definition rootless_session_state :: "capability_id \<Rightarrow> user_context_observation \<Rightarrow> cap_state" where
  "rootless_session_state cid u =
     (if cid = QuadletManagerID then user_manager_state u
      else if cid = QuadletRuntimeDirectoryID then boolean_state (rd_valid (u_runtime u)) StateMisconfigured
      else if cid = QuadletLingerID then boolean_state (u_linger_enabled u) StateUnsupported
      else StateUnknown)"

definition session_state :: "capability_id \<Rightarrow> bool \<Rightarrow> observation \<Rightarrow> cap_state option" where
  "session_state cid rootless obs =
     (if rootless then map_option (rootless_session_state cid) (ob_user_context obs)
      else case ob_host obs of None \<Rightarrow> None | Some h \<Rightarrow> map_option (rootful_session_state cid) (ho_systemd h))"

definition session_evidence :: "capability_id \<Rightarrow> bool \<Rightarrow> scope \<Rightarrow> observation list \<Rightarrow> evidence list" where
  "session_evidence cid rootless s observations =
     (if \<not> local_podman s then []
      else concat (map (\<lambda>obs.
        if ob_scope obs \<noteq> s then []
        else case session_state cid rootless obs of
          None \<Rightarrow> []
        | Some st \<Rightarrow> [prerequisite_evidence obs cid st (session_description cid rootless)]) observations))"

section \<open>The contract\<close>

lemma generator_state_valid: "state_is_valid st = None \<Longrightarrow> state_is_valid (generator_state selected cs st) = None"
  by (induction cs arbitrary: st) (simp_all del: state_is_valid_iff)

lemma quadlet_state_valid [simp]:
  "state_is_valid (cgroup_v2_state mode) = None" "state_is_valid (user_manager_state u) = None"
  by (simp_all add: cgroup_v2_state_def user_manager_state_def del: state_is_valid_iff)

lemma session_state_valid: "session_state cid rootless obs = Some st \<Longrightarrow> state_is_valid st = None"
  by (auto simp: session_state_def rootless_session_state_def rootful_session_state_def simp del: state_is_valid_iff
      split: if_splits option.splits)

lemma session_description_nonempty [simp]: "session_description cid rootless \<noteq> ''''"
  by (simp add: session_description_def)

interpretation quadlet_generator: evidence_source "quadlet_generator_evidence rootless" QuadletGeneratorID local_podman for rootless
proof
  fix ev s obs
  assume "ev \<in> set (quadlet_generator_evidence rootless s obs)"
  then show "about s obs QuadletGeneratorID ev"
    by (auto simp: quadlet_generator_evidence_def generator_state_valid simp del: state_is_valid_iff
        intro!: evidence_intros split: if_splits option.splits)
qed (simp add: quadlet_generator_evidence_def)

interpretation cgroup_v2: evidence_source cgroup_v2_evidence PodmanCgroupV2ID local_podman
proof
  fix ev s obs
  assume "ev \<in> set (cgroup_v2_evidence s obs)"
  then show "about s obs PodmanCgroupV2ID ev"
    by (auto simp: cgroup_v2_evidence_def simp del: state_is_valid_iff intro!: evidence_intros split: if_splits option.splits)
qed (simp add: cgroup_v2_evidence_def)

interpretation session: evidence_source "session_evidence cid rootless" cid local_podman for cid rootless
proof
  fix ev s obs
  assume "ev \<in> set (session_evidence cid rootless s obs)"
  then show "about s obs cid ev"
    by (auto simp: session_evidence_def simp del: state_is_valid_iff intro!: evidence_intros session_state_valid
        split: if_splits option.splits)
qed (simp add: session_evidence_def)

end
