(* ===== verification/Catalog.thy ===== *)
theory Catalog
  imports Capability_Registry Catalog_Examples Catalog_Network Catalog_Storage Catalog_Quadlet
begin

text \<open>
  The capability catalog: the \<open>...Definition\<close> functions of \<open>internal/capability\<close> and the way
  \<open>internal/app\<close> composes them (\<open>assessment_fixture.go\<close>, \<open>prerequisites.go\<close>). It is here
  that the evaluators meet the registry: the contract \<open>evidence_source\<close>, interpreted on each
  evaluator in its own theory, gives what the registry checks of every item of evidence.
\<close>

section \<open>Definitions\<close>

definition definition_of :: "capability_id \<Rightarrow> string \<Rightarrow> evaluator \<Rightarrow> cap_definition" where
  "definition_of cid description f =
     \<lparr>def_id = cid, def_description = description, def_dependencies = [], def_evaluate = Some f\<rparr>"

definition podman_definition :: cap_definition where
  "podman_definition = definition_of PodmanID
     ''Selected Podman CLI returned a recognizable version; engine access is unverified'' podman_cli_evidence"

definition podman_info_definition :: cap_definition where
  "podman_info_definition = definition_of PodmanInfoID
     ''Selected local Podman returned complete effective runtime information'' podman_info_evidence"

definition netavark_definition :: cap_definition where
  "netavark_definition = definition_of NetavarkID
     ''Netavark is the configured backend and its helper has executable file metadata'' netavark_evidence"

definition inventory_definition :: "string \<Rightarrow> bool \<Rightarrow> cap_definition" where
  "inventory_definition role access =
     (let cid = ''runtime.podman.helper.'' @ role @ ''.'' @ (if access then ''executable'' else ''installed'')
      in definition_of cid
        ''Bounded trusted helper inventory; executable additionally requires target kernel access''
        (inventory_evidence role cid access))"

definition selected_executable_definition :: "string \<Rightarrow> cap_definition" where
  "selected_executable_definition role =
     (let cid = ''runtime.podman.'' @ role @ ''.executable''
      in definition_of cid
        ''Runtime-effective or configured helper selection has executable metadata and target access; execution unverified''
        (selected_executable_evidence role cid))"

definition inventory_roles :: "string list" where
  "inventory_roles = [''crun'', ''runc'', ''conmon'', ''netavark'', ''aardvark_dns'', ''pasta'', ''slirp4netns'', ''fuse_overlayfs'']"

definition selected_roles :: "string list" where
  "selected_roles = [''oci_runtime'', ''conmon'', ''netavark'', ''aardvark_dns'', ''pasta'', ''slirp4netns'']"

definition helper_definitions :: "cap_definition list" where
  "helper_definitions =
     concat (map (\<lambda>role. [inventory_definition role False, inventory_definition role True]) inventory_roles) @
     map selected_executable_definition selected_roles"

definition engine_definitions :: "cap_definition list" where
  "engine_definitions =
     [definition_of EngineParsedID
        ''Qualified engine sources and recognized fields parse completely; other fields unvalidated'' engine_parsed_evidence,
      definition_of CgroupManagerSystemdID
        ''Selected cgroup manager is systemd; manager access and delegation are separate prerequisites'' cgroup_manager_evidence]"

definition network_definitions :: "bool \<Rightarrow> cap_definition list" where
  "network_definitions rootless =
     map (\<lambda>(cid, description). definition_of cid description (network_configuration_evidence cid rootless))
       [(NetworkParsedID, ''Qualified selected network settings are interpreted within documented bounds; networking unverified''),
        (DNSParsedID, ''Selected container DNS projection is complete; resolution and reachability unverified''),
        (NetworkBackendNetavarkID, ''Configured or runtime-effective backend choice is Netavark; helper prerequisites are separate''),
        (RootlessPastaID, ''Rootless default command is pasta; helper execution and connectivity unverified''),
        (RootlessSlirpID, ''Rootless default command is slirp4netns; helper execution and connectivity unverified'')]"

definition storage_path_definitions :: "cap_definition list" where
  "storage_path_definitions =
     map (\<lambda>(cid, description). definition_of cid description (storage_path_evidence cid))
       [(StorageRootsID, ''Selected graph/run roots exist and permit target write/search access; storage writes remain unverified''),
        (StorageImageStoreID, ''Configured separate writable image store is absent from selection or has target directory access''),
        (StorageAdditionalID, ''Configured additional read-only stores exist and permit target read/search access'')]"

definition storage_kernel_definitions :: "cap_definition list" where
  "storage_kernel_definitions =
     map (\<lambda>cid. definition_of cid
         ''Kernel currently registers this filesystem; module loading, mounts and device access are unverified''
         (storage_kernel_evidence cid))
       [StorageKernelOverlayID, StorageKernelFUSEID]"

definition storage_definitions :: "cap_definition list" where
  "storage_definitions =
     [definition_of StorageParsedID
        ''Qualified storage sources and recognized settings are valid; unprojected options remain unvalidated''
        storage_configuration_evidence,
      definition_of StorageOverlayID
        ''Configured or runtime-reported storage driver is overlay; mounts and layer operations are unverified''
        storage_overlay_evidence,
      definition_of StorageMountProgramID
        ''Declared mount-program path has suitable executable metadata; storage execution is unverified''
        storage_mount_program_evidence] @ storage_path_definitions @ storage_kernel_definitions"

definition quadlet_definitions :: "bool \<Rightarrow> cap_definition list" where
  "quadlet_definitions rootless =
     [definition_of QuadletGeneratorID
        ''Selected user/system Quadlet generator has suitable executable metadata; generation unverified''
        (quadlet_generator_evidence rootless),
      definition_of PodmanCgroupV2ID
        ''Host exposes unified cgroup v2 required by Quadlet; controller delegation unverified'' cgroup_v2_evidence] @
     map (\<lambda>cid. definition_of cid (session_description cid rootless) (session_evidence cid rootless))
       [QuadletManagerID, QuadletRuntimeDirectoryID, QuadletLingerID]"

text \<open>The catalog of a full assessment; \<open>rootless\<close> is \<open>target.UID != 0\<close>.\<close>

definition catalog :: "bool \<Rightarrow> cap_definition list" where
  "catalog rootless =
     [podman_definition, podman_info_definition, netavark_definition] @ helper_definitions @ engine_definitions @
     network_definitions rootless @ storage_definitions @ quadlet_definitions rootless"


section \<open>The registry accepts the catalog\<close>

lemmas catalog_defs = catalog_def podman_definition_def podman_info_definition_def netavark_definition_def
  helper_definitions_def inventory_definition_def selected_executable_definition_def inventory_roles_def selected_roles_def
  engine_definitions_def network_definitions_def storage_path_definitions_def storage_kernel_definitions_def
  storage_definitions_def quadlet_definitions_def definition_of_def Let_def

lemmas capability_id_defs = PodmanID_def PodmanInfoID_def NetavarkID_def EngineParsedID_def CgroupManagerSystemdID_def
  NetworkParsedID_def DNSParsedID_def NetworkBackendNetavarkID_def RootlessPastaID_def RootlessSlirpID_def
  StorageParsedID_def StorageOverlayID_def StorageMountProgramID_def StorageRootsID_def StorageImageStoreID_def
  StorageAdditionalID_def StorageKernelOverlayID_def StorageKernelFUSEID_def QuadletGeneratorID_def PodmanCgroupV2ID_def
  QuadletManagerID_def QuadletRuntimeDirectoryID_def QuadletLingerID_def

definition catalog_ids :: "capability_id list" where
  "catalog_ids =
     [PodmanID, PodmanInfoID, NetavarkID] @
     concat (map (\<lambda>role. [''runtime.podman.helper.'' @ role @ ''.installed'', ''runtime.podman.helper.'' @ role @ ''.executable''])
       inventory_roles) @
     map (\<lambda>role. ''runtime.podman.'' @ role @ ''.executable'') selected_roles @
     [EngineParsedID, CgroupManagerSystemdID, NetworkParsedID, DNSParsedID, NetworkBackendNetavarkID, RootlessPastaID,
      RootlessSlirpID, StorageParsedID, StorageOverlayID, StorageMountProgramID, StorageRootsID, StorageImageStoreID,
      StorageAdditionalID, StorageKernelOverlayID, StorageKernelFUSEID, QuadletGeneratorID, PodmanCgroupV2ID,
      QuadletManagerID, QuadletRuntimeDirectoryID, QuadletLingerID]"

lemma map_catalog_ids: "map def_id (catalog rootless) = catalog_ids"
  by (simp add: catalog_defs catalog_ids_def)

lemma catalog_ids_distinct: "distinct catalog_ids"
  by code_simp

lemma catalog_ids_valid: "list_all (\<lambda>i. id_validate i = None) catalog_ids"
  by code_simp

lemma catalog_fields:
  "list_all (\<lambda>d. def_description d \<noteq> '''' \<and> def_dependencies d = [] \<and> def_evaluate d \<noteq> None) (catalog rootless)"
  by (simp add: catalog_defs)


lemma catalog_registry: "\<exists>reg. new_registry (catalog rootless) = Inr reg \<and> mset reg = mset (catalog rootless)"
proof -
  let ?edges = "map (\<lambda>d. (def_id d, def_dependencies d)) (catalog rootless)"
  have deps: "def_dependencies d = []" "def_description d \<noteq> ''''" "def_evaluate d \<noteq> None" if "d \<in> set (catalog rootless)" for d
    using catalog_fields [of rootless] that by (auto simp: list_all_iff)
  have keys: "map fst ?edges = catalog_ids" unfolding map_catalog_ids [of rootless, symmetric] by simp
  have ids: "id_validate (def_id d) = None" if "d \<in> set (catalog rootless)" for d
  proof -
    have "def_id d \<in> set catalog_ids" unfolding map_catalog_ids [of rootless, symmetric] using that by simp
    then show ?thesis using catalog_ids_valid by (simp add: list_all_iff)
  qed
  have none: "edges_of ?edges i = []" for i
    using deps(1) by (auto simp: edges_of_def map_of_eq_None_iff split: option.splits dest: map_of_SomeD)
  have "length catalog_ids = 45" by code_simp
  then have "length ?edges \<le> MaxGraphEntries" using arg_cong [OF keys, of length] by (simp add: MaxGraphEntries_def)
  then have "declarable ?edges"
    by (simp add: declarable_def none declared_def MaxGraphReferences_def)
  moreover have "acyclic (dep_rel (map fst ?edges) (edges_of ?edges))"
    by (simp add: dep_rel_def none acyclic_def)
  ultimately obtain order where "topological ?edges = Inr order"
    using topological_accepts [of ?edges] keys catalog_ids_distinct by auto
  then obtain reg where reg: "new_registry (catalog rootless) = Inr reg"
    using new_registry_Inr [of "catalog rootless"] deps ids catalog_ids_distinct by (auto simp: map_catalog_ids)
  with new_registry_order(1) [OF reg] show ?thesis by blast
qed

section \<open>Every evaluator keeps the contract\<close>

definition keeps_contract :: "cap_definition \<Rightarrow> bool" where
  "keeps_contract d \<longleftrightarrow> (\<forall>f. def_evaluate d = Some f \<longrightarrow> evidence_source f (def_id d) (\<lambda>s. sc_runtime s = ''podman''))"

lemma keeps_contractI:
  "evidence_source f cid local_podman \<Longrightarrow> keeps_contract (definition_of cid description f)"
  by (auto simp: keeps_contract_def definition_of_def evidence_source_def local_podman_def)

lemma keeps_contract_netavark: "keeps_contract netavark_definition"
  using netavark.evidence_source_axioms by (simp add: keeps_contract_def netavark_definition_def definition_of_def)

lemma keeps_contract_helpers: "keeps_contract (inventory_definition role access)" "keeps_contract (selected_executable_definition role)"
  by (auto simp: inventory_definition_def selected_executable_definition_def Let_def
      intro: keeps_contractI inventory.evidence_source_axioms selected_executable.evidence_source_axioms)

lemma catalog_contract: "d \<in> set (catalog rootless) \<Longrightarrow> keeps_contract d"
  unfolding catalog_def podman_definition_def podman_info_definition_def helper_definitions_def
    engine_definitions_def network_definitions_def storage_path_definitions_def storage_kernel_definitions_def
    storage_definitions_def quadlet_definitions_def
  by (auto simp: keeps_contract_netavark keeps_contract_helpers
      intro!: keeps_contractI podman_cli.evidence_source_axioms podman_info.evidence_source_axioms
        engine_parsed.evidence_source_axioms cgroup_manager.evidence_source_axioms
        network_configuration.evidence_source_axioms storage_configuration.evidence_source_axioms
        storage_overlay.evidence_source_axioms storage_mount_program.evidence_source_axioms
        storage_paths.evidence_source_axioms storage_kernel.evidence_source_axioms
        quadlet_generator.evidence_source_axioms cgroup_v2.evidence_source_axioms session.evidence_source_axioms)

text \<open>
  The registry accepts the whole catalog, rootful and rootless: all 45 identifiers are valid and
  distinct, no definition is left without an evaluator, and none is lost.
\<close>

lemma catalog_accepted:
  "\<exists>reg. new_registry (catalog rootless) = Inr reg \<and> mset reg = mset (catalog rootless) \<and> length reg = 45"
proof -
  obtain reg where reg: "new_registry (catalog rootless) = Inr reg" "mset reg = mset (catalog rootless)"
    using catalog_registry by blast
  have "length catalog_ids = 45" by code_simp
  then have "length (catalog rootless) = 45" using map_catalog_ids [of rootless] by (metis length_map)
  with reg show ?thesis using mset_eq_length by fastforce
qed

text \<open>
  C37: whatever an evaluator of the catalog returns is well-formed evidence for its own claim and
  scope: a valid state with the confidence that goes with it, at least one observation, each of them
  a given observation of that scope, none later than the evidence, and all complete when the
  evidence is complete. An evaluator says nothing about a scope of another runtime.
\<close>

theorem catalog_evidence:
  assumes "d \<in> set (catalog rootless)" and "def_evaluate d = Some f"
  shows "(\<forall>ev\<in>set (f s obs). about s obs (def_id d) ev) \<and> (sc_runtime s \<noteq> ''podman'' \<longrightarrow> f s obs = [])"
  using catalog_contract [OF assms(1)] assms(2) by (auto simp: keeps_contract_def evidence_source_def)

theorem catalog_evidence_witness:
  "list_all (about podman_scope example_observations NetavarkID) (netavark_evidence podman_scope example_observations) \<and>
   netavark_evidence podman_scope example_observations \<noteq> []"
proof
  have "netavark_definition \<in> set (catalog True)" "def_evaluate netavark_definition = Some netavark_evidence"
    "def_id netavark_definition = NetavarkID"
    by (simp_all add: catalog_def netavark_definition_def definition_of_def)
  from catalog_evidence [OF this(1,2), of podman_scope example_observations] this(3)
  show "list_all (about podman_scope example_observations NetavarkID) (netavark_evidence podman_scope example_observations)"
    by (simp add: list_all_iff)
  show "netavark_evidence podman_scope example_observations \<noteq> []"
    by (simp add: netavark_evidence_def Let_def example_observation_defs)
qed

section \<open>How an evaluation of the catalog can fail\<close>

definition from_catalog :: "bool \<Rightarrow> scope \<Rightarrow> observation list \<Rightarrow> evidence list \<Rightarrow> bool" where
  "from_catalog rootless s obs evs \<longleftrightarrow> (\<forall>ev\<in>set evs. \<exists>d\<in>set (catalog rootless). about s obs (def_id d) ev)"

lemma catalog_step_error:
  assumes d: "d \<in> set (catalog rootless)"
    and step: "evaluate_step s ec d (data, resolved, result) = Some (state', err)"
  obtains (failed) generated where "from_catalog rootless s (ds_observations data) generated"
      and "validate_dataset (data\<lparr>ds_evidence := ds_evidence data @ generated\<rparr>) = err" and "err \<noteq> None"
  | (passed) generated resolved' result' where "from_catalog rootless s (ds_observations data) generated" and "err = None"
      and "state' = (data\<lparr>ds_evidence := ds_evidence data @ generated\<rparr>, resolved', result')"
proof -
  obtain f where f: "def_evaluate d = Some f" using catalog_fields [of rootless] d by (auto simp: list_all_iff)
  have own: "about s obs (def_id d) ev" if "ev \<in> set (f s obs)" for ev obs
    using catalog_contract [OF d] f that by (auto simp: keeps_contract_def evidence_source_def)
  have from_f: "from_catalog rootless s obs (f s obs)" for obs using own d by (auto simp: from_catalog_def)
  have "\<not> (\<exists>ev\<in>set (f s (ds_observations data)). ev_claim ev \<noteq> def_id d \<or> ev_scope ev \<noteq> s)"
    using own by (auto simp: about_def)
  then show thesis
    using step f failed [OF from_f] passed [of "[]"] passed [OF from_f]
    by (cases "validate_dataset (data\<lparr>ds_evidence := ds_evidence data @ f s (ds_observations data)\<rparr>)")
      (auto simp: evaluate_step_def Let_def record_resolution_def from_catalog_def split: if_splits option.splits, metis)
qed

lemma catalog_loop_error:
  assumes "set ds \<subseteq> set (catalog rootless)" and "from_catalog rootless s (ds_observations data) gen"
    and "evaluate_loop s ec ds (data\<lparr>ds_evidence := ds_evidence data @ gen\<rparr>, resolved, result) = Some (state', Some err)"
  shows "\<exists>generated. from_catalog rootless s (ds_observations data) generated \<and>
    validate_dataset (data\<lparr>ds_evidence := ds_evidence data @ generated\<rparr>) = Some err"
  using assms
proof (induction ds arbitrary: gen resolved result)
  case Nil
  then show ?case by simp
next
  case (Cons d ds)
  let ?data = "data\<lparr>ds_evidence := ds_evidence data @ gen\<rparr>"
  have d: "d \<in> set (catalog rootless)" using Cons.prems(1) by simp
  obtain state1 err1 where step: "evaluate_step s ec d (?data, resolved, result) = Some (state1, err1)"
    using Cons.prems(3) by (auto split: option.splits)
  from d step show ?case
  proof (cases rule: catalog_step_error)
    case (failed generated)
    then have "from_catalog rootless s (ds_observations data) (gen @ generated)"
      using Cons.prems(2) by (auto simp: from_catalog_def)
    moreover have "err1 = Some err" using Cons.prems(3) step failed(3) by (auto split: option.splits)
    ultimately show ?thesis using failed(2) by (intro exI [of _ "gen @ generated"]) simp
  next
    case (passed generated resolved' result')
    then have "from_catalog rootless s (ds_observations data) (gen @ generated)"
      using Cons.prems(2) by (auto simp: from_catalog_def)
    moreover have "evaluate_loop s ec ds (data\<lparr>ds_evidence := ds_evidence data @ (gen @ generated)\<rparr>, resolved', result') =
        Some (state', Some err)"
      using Cons.prems(3) step passed by simp
    ultimately show ?thesis using Cons.IH Cons.prems(1) by simp
  qed
qed

text \<open>an evaluation of the catalog fails only on its input (the candidate's scope, the dataset, a
  missing context) or because the dataset with the generated evidence does not validate; it never
  fails with \<open>evaluator returned another claim or scope\<close>.
\<close>

lemma catalog_evaluation_errors:
  assumes "new_registry (catalog rootless) = Inr reg" and "evaluate reg scope data = Some (result, Some err)"
  shows "scope_is_valid scope \<noteq> None \<or> run_id scope \<noteq> ds_run_id data \<or> validate_dataset data = Some err \<or>
    find_context data (context_id scope) = None \<or>
    (\<exists>generated. from_catalog rootless scope (ds_observations data) generated \<and>
       validate_dataset (data\<lparr>ds_evidence := ds_evidence data @ generated\<rparr>) = Some err)"
proof -
  have "set reg = set (catalog rootless)" using new_registry_order(1) [OF assms(1)] by (metis mset_eq_setD)
  then have sub: "set reg \<subseteq> set (catalog rootless)" by simp
  have none: "from_catalog rootless scope (ds_observations data) []" by (simp add: from_catalog_def)
  have same: "data\<lparr>ds_evidence := ds_evidence data @ []\<rparr> = data" by simp
  have loop: "\<exists>generated. from_catalog rootless scope (ds_observations data) generated \<and>
      validate_dataset (data\<lparr>ds_evidence := ds_evidence data @ generated\<rparr>) = Some err"
    if "evaluate_loop scope ec reg (data, Map.empty, empty_evaluation scope) = Some (state', Some err)" for ec state'
    using catalog_loop_error [OF sub none, of ec Map.empty "empty_evaluation scope" state' err] that unfolding same by blast
  show ?thesis
    using assms(2) loop by (auto simp: evaluate_def Let_def split: if_splits option.splits prod.splits)
qed

lemma catalog_evaluation_errors_witness:
  "\<exists>reg result err. new_registry (catalog True) = Inr reg \<and>
     evaluate reg (podman_scope\<lparr>context_id := ''elsewhere''\<rparr>) example_dataset = Some (result, Some err) \<and>
     find_context example_dataset ''elsewhere'' = None"
proof -
  let ?s = "podman_scope\<lparr>context_id := ''elsewhere''\<rparr>"
  obtain reg where reg: "new_registry (catalog True) = Inr reg" using catalog_registry by blast
  have none: "find_context example_dataset ''elsewhere'' = None" by (simp add: find_context_def example_dataset_def)
  have scope: "scope_is_valid ?s = None" "context_id ?s = ''elsewhere''" by (simp_all add: scope_is_valid_def podman_scope_def)
  have run: "run_id ?s = ds_run_id example_dataset" by (simp add: podman_scope_def example_dataset_def)
  have e: "evaluate reg ?s example_dataset = Some (empty_evaluation ?s, Some (Err ''candidate context is missing''))"
    using none scope by (simp add: evaluate_def Let_def example_dataset_valid run)
  show ?thesis using catalog_evaluation_errors [OF reg e] reg e none by auto
qed

end
