(* ===== verification/Catalog_Searches.thy ===== *)
theory Catalog_Searches
  imports Catalog_Examples Catalog_Network Catalog_Storage Catalog_Quadlet
begin

text \<open>
  The loops of the catalog's evaluators against their reference definitions: the precedence search
  of systemd generators, the inventory of trusted candidates, the bounded list of additional stores,
  the pairing of expected with measured storage paths, and Go's unordered walk over the network
  lists.
\<close>

section \<open>Candidates\<close>

lemma generator_state_find:
  "generator_state selected cs st =
     (case List.find (\<lambda>c. xc_path c = selected) cs of
        Some c \<Rightarrow> executable_state c True
      | None \<Rightarrow> if list_ex (\<lambda>c. xc_present c \<noteq> Some False) cs then StateUnknown else st)"
proof (induction cs arbitrary: st)
  case (Cons c cs)
  then show ?case by (cases "xc_present c"; cases "xc_path c = selected") (auto split: option.splits)
qed simp

lemma state_among: "list_ex (\<lambda>c. executable_state c access = v) cs \<longleftrightarrow> v \<in> (\<lambda>c. executable_state c access) ` set cs"
  by (auto simp: list_ex_iff)

lemma inventory_state_ranking:
  "inventory_state access cs st =
     (let has = \<lambda>v. list_ex (\<lambda>c. executable_state c access = v) cs
      in if has StateSupported then StateSupported
         else if has StateUnknown then StateUnknown
         else if has StateMisconfigured \<and> st = StateUnsupported then StateMisconfigured else st)"
proof (induction cs arbitrary: st)
  case (Cons c cs)
  consider "executable_state c access = StateSupported" | "executable_state c access = StateUnknown"
    | "executable_state c access = StateMisconfigured" | "executable_state c access = StateUnsupported"
    using executable_state_valid [of c access]
    by (cases "xc_present c"; cases "xc_file c"; cases "xc_executable c") (auto simp: executable_state_def split: if_splits)
  then show ?case by cases (simp_all add: Cons Let_def)
qed simp

text \<open>the loops over candidates compute their reference definitions. The generator search answers
  with the state of the first candidate at the selected path; without one the answer is unsupported
  only when every location was seen to be empty. The inventory ranks its candidates, wherever they
  stand: one supported candidate decides, then an unknown one, then a misconfigured one.
\<close>

lemma candidate_searches:
  "generator_state selected cs StateUnsupported =
     (case List.find (\<lambda>c. xc_path c = selected) cs of
        Some c \<Rightarrow> executable_state c True
      | None \<Rightarrow> if list_ex (\<lambda>c. xc_present c \<noteq> Some False) cs then StateUnknown else StateUnsupported) \<and>
   inventory_state access cs StateUnsupported =
     (let states = map (\<lambda>c. executable_state c access) cs
      in if StateSupported \<in> set states then StateSupported
         else if StateUnknown \<in> set states then StateUnknown
         else if StateMisconfigured \<in> set states then StateMisconfigured else StateUnsupported)"
  by (simp add: generator_state_find inventory_state_ranking state_among Let_def cong: if_cong)

section \<open>Additional stores\<close>

lemma add_paths_spec:
  "length expected \<le> maxSelectedStoragePaths \<Longrightarrow>
   add_paths role strip names expected =
     (if length expected + length names \<le> maxSelectedStoragePaths
      then Some (expected @ map (\<lambda>name. (role, path_clean (strip name))) names) else None)"
  by (induction names arbitrary: expected) auto

text \<open>the expected additional stores are all configured names, split at the commas, image stores
  first, each cleaned and a layer store without its \<open>:ref\<close> suffix, or nothing at all when
  there are more than 32 of them. No prefix of a list that is too long is ever used.
\<close>

lemma additional_paths_spec:
  "additional_paths st =
     (let selected = map (\<lambda>name. (''additionalimagestore'', path_clean name)) (list_names (st_additional_image_stores st)) @
            map (\<lambda>name. (''additionallayerstore'', path_clean (trim_suffix name '':ref''))) (list_names (st_additional_layer_stores st))
      in if length selected \<le> 32 then Some selected else None)"
  using maxSelectedStoragePaths_def by (auto simp: additional_paths_def add_paths_spec Let_def)

section \<open>Selected storage paths\<close>

lemma storage_directory_supported:
  "storage_directory_state item cid = StateSupported \<longleftrightarrow>
     sp_present item = Some True \<and> \<not> sp_ancestor item \<and> sp_checked_path item = sp_path item \<and>
     sp_directory item = Some True \<and> sp_accessible item = Some True \<and>
     (cid = StorageAdditionalID \<or> (case sp_filesystem item of None \<Rightarrow> False | Some fs \<Rightarrow> fs_read_only fs = Some False))"
  by (cases "cid = StorageAdditionalID"; cases "sp_present item"; cases "sp_directory item"; cases "sp_accessible item";
      cases "sp_filesystem item"; cases "fs_read_only (the (sp_filesystem item))") (auto simp: storage_directory_state_def)

lemma storage_directory_cases:
  "storage_directory_state item cid \<noteq> StateSupported \<Longrightarrow>
   storage_directory_state item cid = StateMisconfigured \<or> storage_directory_state item cid = StateUnknown"
  by (auto simp: storage_directory_state_def split: option.splits if_splits)

lemma paths_state_supported:
  "length expected = length selected \<Longrightarrow>
   paths_state cid (zip expected selected) st = StateSupported \<longleftrightarrow>
     st = StateSupported \<and> map (\<lambda>item. (sp_role item, sp_path item)) selected = expected \<and>
     list_all (\<lambda>item. storage_directory_state item cid = StateSupported) selected"
proof (induction expected selected arbitrary: st rule: list_induct2)
  case (Cons x xs y ys)
  obtain role path where x: "x = (role, path)" by (cases x)
  show ?case
    by (cases "storage_directory_state y cid = StateSupported") (use storage_directory_cases [of y cid] in \<open>auto simp: x Cons split: if_splits\<close>)
qed simp

text \<open>the selected storage paths are reported as accessible exactly when the measurement holds the
  expected paths, in order and nothing else of their kind, and each of them was itself measured (not
  an ancestor of it) as a directory the target can access, on a file system that is not read-only
  unless the store is only read.
\<close>

lemma storage_paths_supported:
  "selected_storage_paths_state expected measured cid = StateSupported \<longleftrightarrow>
     (let selected = filter (path_selected cid) measured
      in map (\<lambda>item. (sp_role item, sp_path item)) selected = expected \<and>
         list_all (\<lambda>item. sp_present item = Some True \<and> \<not> sp_ancestor item \<and> sp_checked_path item = sp_path item \<and>
           sp_directory item = Some True \<and> sp_accessible item = Some True \<and>
           (cid = StorageAdditionalID \<or>
            (case sp_filesystem item of None \<Rightarrow> False | Some fs \<Rightarrow> fs_read_only fs = Some False))) selected)"
proof -
  let ?selected = "filter (path_selected cid) measured"
  have "length expected = length ?selected" if "map (\<lambda>item. (sp_role item, sp_path item)) ?selected = expected"
    using arg_cong [OF that, of length] by simp
  then show ?thesis
    using paths_state_supported [of expected ?selected cid StateSupported]
    by (auto simp: selected_storage_paths_state_def Let_def storage_directory_supported)
qed

section \<open>Network lists\<close>

text \<open>the network verdict does not depend on the order in which Go walks the map of lists, an order
  that the language leaves open.
\<close>

lemma network_parsed_order:
  assumes "mset ls = mset (n_lists n)"
  shows "network_parsed_state (c\<lparr>c_network := Some (n\<lparr>n_lists := ls\<rparr>)\<rparr>) rootless dns_only =
         network_parsed_state (c\<lparr>c_network := Some n\<rparr>) rootless dns_only"
proof -
  have "lists_state relevant ls st = lists_state relevant (n_lists n) st" for relevant st
    by (rule lists_state_permutation [OF assms])
  moreover have "list_relevant (n\<lparr>n_lists := ls\<rparr>) r d = list_relevant n r d" for r d
    by (simp add: list_relevant_def rootless_command_def fun_eq_iff)
  ultimately show ?thesis
    by (simp add: network_parsed_state_def network_source_state_def string_of_key_def)
qed

definition example_list :: config_list where
  "example_list = \<lparr>cl_invalid_indices = [], cl_unmodeled_indices = [], cl_values = [], cl_origins = [], cl_source_id = ''s'',
     cl_append = None, cl_inherited_default = False\<rparr>"

definition example_network :: network_configuration where
  "example_network = \<lparr>n_strings = [],
     n_lists = [(''containers.dns_servers'', example_list\<lparr>cl_invalid_indices := [0]\<rparr>),
                (''containers.dns_searches'', example_list\<lparr>cl_inherited_default := True\<rparr>)],
     n_dns_bind_port = None, n_pasta_options = None, n_helper_paths = [], n_engine_source_id = '''',
     n_unprojected_field_count = 0\<rparr>"

definition example_configuration :: configuration_observation where
  "example_configuration = \<lparr>c_network = Some example_network, c_storage = None, c_family = ''network'',
     c_runtime_path = ''/usr/bin/podman'', c_version_source_id = ''version'', c_profile = ''podman-5.4.2'', c_references = [],
     c_selection_complete = True, c_parse_complete = True, c_sources = [], c_engine = None\<rparr>"

lemma network_parsed_order_witness:
  "network_parsed_state (example_configuration\<lparr>c_network := Some (example_network\<lparr>n_lists := rev (n_lists example_network)\<rparr>)\<rparr>)
     True True = StateMisconfigured"
proof -
  have "network_parsed_state (example_configuration\<lparr>c_network := Some example_network\<rparr>) True True = StateMisconfigured"
    by (simp add: network_parsed_state_def network_source_state_def example_configuration_def example_network_def
        example_list_def list_relevant_def has_prefix_def)
  then show ?thesis
    using network_parsed_order [of "rev (n_lists example_network)" example_network example_configuration True True] by simp
qed

end
