(* ===== verification/Catalog_Verdicts.thy ===== *)
theory Catalog_Verdicts
  imports Catalog Catalog_Searches
begin

text \<open>
  What the verdicts of the catalog's evaluators mean: which observations a positive verdict rests
  on, that a definite verdict survives further observation, and how the searches through candidates
  and lists decide.
\<close>

section \<open>Definite verdicts are stable\<close>

text \<open>A later look at the same thing: what was observed stays, what was not may be filled in.\<close>

definition filled :: "'a option \<Rightarrow> 'a option \<Rightarrow> bool" where
  "filled a b \<longleftrightarrow> a = None \<or> a = b"

lemma filled_simps [simp]: "filled None b" "filled (Some a) b \<longleftrightarrow> b = Some a"
  by (auto simp: filled_def)

definition candidate_filled :: "executable_candidate \<Rightarrow> executable_candidate \<Rightarrow> bool" where
  "candidate_filled c c' \<longleftrightarrow> xc_masked c = xc_masked c' \<and> filled (xc_present c) (xc_present c') \<and>
     filled (xc_file c) (xc_file c') \<and> filled (xc_executable c) (xc_executable c')"

definition path_filled :: "storage_path_metadata \<Rightarrow> storage_path_metadata \<Rightarrow> bool" where
  "path_filled p p' \<longleftrightarrow> sp_path p = sp_path p' \<and> sp_checked_path p = sp_checked_path p' \<and> sp_ancestor p = sp_ancestor p' \<and>
     filled (sp_present p) (sp_present p') \<and> filled (sp_directory p) (sp_directory p') \<and>
     filled (sp_accessible p) (sp_accessible p') \<and>
     (case (sp_filesystem p, sp_filesystem p') of
        (Some fs, Some fs') \<Rightarrow> filled (fs_read_only fs) (fs_read_only fs') | (Some _, None) \<Rightarrow> False | _ \<Rightarrow> True)"

definition info_filled :: "podman_info \<Rightarrow> podman_info \<Rightarrow> bool" where
  "info_filled i i' \<longleftrightarrow> filled (p_available i) (p_available i') \<and> filled (p_network_backend i) (p_network_backend i')"

lemma executable_state_stable:
  "candidate_filled c c' \<Longrightarrow> executable_state c access \<noteq> StateUnknown \<Longrightarrow> executable_state c' access = executable_state c access"
  by (cases "xc_present c"; cases "xc_file c"; cases "xc_executable c")
    (auto simp: candidate_filled_def executable_state_def split: if_splits)

lemma storage_directory_state_stable:
  "path_filled p p' \<Longrightarrow> storage_directory_state p cid \<noteq> StateUnknown \<Longrightarrow>
   storage_directory_state p' cid = storage_directory_state p cid"
  by (cases "sp_present p"; cases "sp_directory p"; cases "sp_accessible p"; cases "sp_filesystem p";
      cases "sp_filesystem p'"; cases "fs_read_only (the (sp_filesystem p))")
    (auto simp: path_filled_def storage_directory_state_def split: if_splits)

lemma netavark_state_stable:
  "info_filled i i' \<Longrightarrow> filled h h' \<Longrightarrow> netavark_state i h \<noteq> StateUnknown \<Longrightarrow> netavark_state i' h' = netavark_state i h"
  by (cases "p_available i"; cases "p_network_backend i"; cases h)
    (auto simp: info_filled_def netavark_state_def split: if_splits)

text \<open>a definite verdict about an executable, a storage directory or Netavark does not change when
  observations that were missing are filled in; only an unknown verdict may still become definite.
\<close>

lemma definite_verdicts_stable:
  "(candidate_filled c c' \<and> executable_state c access \<noteq> StateUnknown \<longrightarrow> executable_state c' access = executable_state c access) \<and>
   (path_filled p p' \<and> storage_directory_state p cid \<noteq> StateUnknown \<longrightarrow>
      storage_directory_state p' cid = storage_directory_state p cid) \<and>
   (info_filled i i' \<and> filled h h' \<and> netavark_state i h \<noteq> StateUnknown \<longrightarrow> netavark_state i' h' = netavark_state i h)"
  using executable_state_stable storage_directory_state_stable netavark_state_stable by blast

definition example_masked :: executable_candidate where
  "example_masked = \<lparr>xc_path = ''/usr/bin/crun'', xc_present = Some True, xc_file = None, xc_device = None, xc_inode = None,
     xc_executable = None, xc_masked = True\<rparr>"

lemma definite_verdicts_stable_witness:
  "executable_state (example_masked\<lparr>xc_executable := Some True\<rparr>) True = StateMisconfigured"
proof -
  have "candidate_filled example_masked (example_masked\<lparr>xc_executable := Some True\<rparr>)"
    by (simp add: candidate_filled_def filled_def example_masked_def)
  moreover have "executable_state example_masked True = StateMisconfigured"
    by (simp add: executable_state_def example_masked_def)
  ultimately show ?thesis
    using definite_verdicts_stable [of example_masked "example_masked\<lparr>xc_executable := Some True\<rparr>" True] by simp
qed

section \<open>Positive verdicts rest on positive observations\<close>

lemma state_simps [simp]:
  "ev_state (runtime_evidence ob cid st) = st" "ev_state (prerequisite_evidence ob cid st src) = st"
  "ev_state (configuration_evidence ob cid st src) = st" "ev_state (include_observation ev ob) = ev_state ev"
  by (simp_all add: runtime_evidence_def prerequisite_evidence_def configuration_evidence_def include_observation_def)

lemma bind_supported: "ev_state (bind_configuration_version ev c obs) = StateSupported \<Longrightarrow> ev_state ev = StateSupported"
  by (auto simp: bind_configuration_version_def undecided_def split: option.splits)

lemma missing_means_broken_supported [simp]: "missing_means_broken st = StateSupported \<longleftrightarrow> st = StateSupported"
  by (auto simp: missing_means_broken_def)

lemma unselected_not_supported [simp]: "unselected_state cs \<noteq> StateSupported"
  by (simp add: unselected_state_def)

definition usable_selection :: "executable_observation \<Rightarrow> bool \<Rightarrow> bool" where
  "usable_selection x access \<longleftrightarrow> x_selected_path x \<noteq> '''' \<and>
     (\<exists>c\<in>set (x_candidates x). xc_path c = x_selected_path x \<and> executable_state c access = StateSupported)"

lemma network_helper_supported:
  assumes "network_helper_state c x access = StateSupported"
  shows "usable_selection x access"
proof -
  obtain plan where plan: "network_paths_match plan x"
    and st: "x_selected_path x \<noteq> ''''" "selected_state (last (x_candidates x)) access = StateSupported"
    using assms by (auto simp: network_helper_state_def split: option.splits if_splits)
  have "x_candidates x \<noteq> []" "xc_path (last (x_candidates x)) = x_selected_path x"
    using plan st(1) by (auto simp: network_paths_match_def)
  moreover have "executable_state (last (x_candidates x)) access = StateSupported"
    using st(2) by (auto simp: selected_state_def Let_def split: if_splits)
  ultimately show ?thesis using st(1) last_in_set unfolding usable_selection_def by blast
qed

lemma configured_executable_usable: "configured_executable_state c x = StateSupported \<Longrightarrow> usable_selection x True"
  using configured_executable_supported [of c x] last_in_set [of "x_candidates x"]
  by (auto simp: usable_selection_def configured_executable_state_def split: option.splits if_splits)

lemma network_executable_usable: "network_executable_state engine c x role = StateSupported \<Longrightarrow> usable_selection x True"
  by (auto simp: network_executable_state_def network_helper_supported split: option.splits if_splits)

lemma selected_supported:
  assumes "ev \<in> set (selected_executable_evidence role cid s obs)" and sup: "ev_state ev = StateSupported"
  shows "\<exists>ob\<in>set obs. \<exists>x. ob_scope ob = s \<and> ob_executable ob = Some x \<and> x_role x = role \<and> usable_selection x True"
proof -
  consider "ev \<in> set (configured_executable_evidence role cid s obs)"
    | "ev \<in> set (network_configured_executable_evidence role cid s obs)"
    | "ev \<in> set (runtime_selected_evidence role cid s obs)"
    using assms(1) by (auto simp: selected_executable_evidence_def split: if_splits)
  then show ?thesis
  proof cases
    case 1
    from this [unfolded configured_executable_evidence_def] obtain ob x where ob: "ob \<in> set obs" "ob_executable ob = Some x"
      and ev: "ev \<in> set (if ob_scope ob \<noteq> s \<or> x_source x \<noteq> ''configuration'' \<or> x_role x \<noteq> role then []
        else concat (map (configured_executable_from cid s obs ob x) obs))" by (rule concat_payloadE)
    obtain source where "ev \<in> set (configured_executable_from cid s obs ob x source)" "ob_scope ob = s" "x_role x = role"
      using ev by (auto split: if_splits)
    moreover from this(1) obtain c where "configured_executable_state c x = StateSupported"
      using sup by (auto simp: configured_executable_from_def dest!: bind_supported split: if_splits option.splits)
    ultimately show ?thesis using ob configured_executable_usable by blast
  next
    case 2
    from this [unfolded network_configured_executable_evidence_def] obtain ob x where ob: "ob \<in> set obs" "ob_executable ob = Some x"
      and ev: "ev \<in> set (if ob_scope ob \<noteq> s \<or> x_source x \<noteq> ''configuration'' \<or> x_role x \<noteq> role then []
        else concat (map (network_executable_from cid role s obs ob x) obs))" by (rule concat_payloadE)
    obtain source where "ev \<in> set (network_executable_from cid role s obs ob x source)" "ob_scope ob = s" "x_role x = role"
      using ev by (auto split: if_splits)
    moreover from this(1) obtain c where "network_executable_state (network_engine_source source obs) c x role = StateSupported"
      using sup by (auto simp: network_executable_from_def Let_def dest!: bind_supported split: if_splits option.splits)
    ultimately show ?thesis using ob network_executable_usable by blast
  next
    case 3
    from this [unfolded runtime_selected_evidence_def] obtain ob x where ob: "ob \<in> set obs" "ob_executable ob = Some x"
      and ev: "ev \<in> set (if ob_scope ob \<noteq> s \<or> x_role x \<noteq> role \<or> x_source x \<noteq> ''runtime'' \<or> length (x_candidates x) \<noteq> 1 \<or>
          x_selected_path x = '''' \<or> x_selected_path x \<noteq> xc_path (hd (x_candidates x)) then []
        else concat (map (runtime_selected_from cid role s ob x) obs))" by (rule concat_payloadE)
    obtain source where "ev \<in> set (runtime_selected_from cid role s ob x source)" "ob_scope ob = s" "x_role x = role"
      and x: "length (x_candidates x) = 1" "x_selected_path x \<noteq> ''''" "x_selected_path x = xc_path (hd (x_candidates x))"
      using ev by (auto split: if_splits)
    moreover from this(1) have "executable_state (hd (x_candidates x)) True = StateSupported"
      using sup by (auto simp: runtime_selected_from_def split: if_splits option.splits)
    moreover have "hd (x_candidates x) \<in> set (x_candidates x)" using x(1) by (cases "x_candidates x") auto
    ultimately show ?thesis using ob unfolding usable_selection_def by metis
  qed
qed


lemma usable_selection_iff:
  "usable_selection x True \<longleftrightarrow> x_selected_path x \<noteq> '''' \<and>
     (\<exists>c\<in>set (x_candidates x). xc_path c = x_selected_path x \<and> xc_present c = Some True \<and> \<not> xc_masked c \<and>
        xc_executable c = Some True \<and> (\<exists>f. xc_file c = Some f \<and> xm_regular f \<and> xm_executable_bits f))"
  by (auto simp: usable_selection_def executable_state_iff)

text \<open>a selected helper is reported as executable only when some observation of the scope measured
  the selected path itself: present, not masked, a regular file with an executable bit, and
  accessible for execution by the target. Neither configuration nor a runtime's word is enough.
\<close>

lemma selected_executable_supported:
  assumes "ev \<in> set (selected_executable_evidence role cid s obs)" and "ev_state ev = StateSupported"
  shows "\<exists>ob\<in>set obs. \<exists>x. ob_scope ob = s \<and> ob_executable ob = Some x \<and> x_role x = role \<and> x_selected_path x \<noteq> '''' \<and>
    (\<exists>c\<in>set (x_candidates x). xc_path c = x_selected_path x \<and> xc_present c = Some True \<and> \<not> xc_masked c \<and>
       xc_executable c = Some True \<and> (\<exists>f. xc_file c = Some f \<and> xm_regular f \<and> xm_executable_bits f))"
  using selected_supported [OF assms] unfolding usable_selection_iff by blast

lemma selected_executable_supported_witness:
  "\<exists>ob\<in>set example_observations. \<exists>x. ob_executable ob = Some x \<and> x_role x = ''netavark''"
proof -
  have "\<exists>ev\<in>set (selected_executable_evidence ''netavark'' ''runtime.podman.netavark.executable'' podman_scope example_observations).
      ev_state ev = StateSupported"
    by (simp add: selected_executable_evidence_def configured_executable_evidence_def network_configured_executable_evidence_def
        runtime_selected_evidence_def runtime_selected_from_def selected_helper_path_def executable_state_def
        local_podman_def netavark_path_def example_observation_defs)
  then show ?thesis using selected_executable_supported by fastforce
qed

lemma netavark_state_supported:
  "netavark_state info h = StateSupported \<longleftrightarrow>
     p_available info = Some True \<and> p_network_backend info = Some ''netavark'' \<and> h = Some True"
  by (auto simp: netavark_state_def split: option.splits)

definition netavark_reported :: "scope \<Rightarrow> observation list \<Rightarrow> bool" where
  "netavark_reported s obs \<longleftrightarrow>
     (\<exists>ob\<in>set obs. \<exists>info. \<exists>helper\<in>set obs. \<exists>h. ob_scope ob = s \<and> ob_podman ob = Some info \<and>
        p_available info = Some True \<and> p_network_backend info = Some ''netavark'' \<and>
        ob_scope helper = s \<and> ob_podman_helper helper = Some h \<and> h_info_id h = ob_id ob \<and>
        h_helper_path h = p_helper_path info \<and> h_present h = Some True)"

definition netavark_configured :: "scope \<Rightarrow> observation list \<Rightarrow> bool" where
  "netavark_configured s obs \<longleftrightarrow>
     (\<exists>source\<in>set obs. \<exists>c. \<exists>helper\<in>set obs. \<exists>x. ob_scope source = s \<and> ob_configuration source = Some c \<and>
        network_choice c NetworkBackendNetavarkID True = StateSupported \<and>
        ob_scope helper = s \<and> ob_executable helper = Some x \<and> x_role x = ''netavark'' \<and>
        x_source_id x = ob_id source \<and> usable_selection x False)"

lemma guarded_set: "x \<in> set (if c then [] else xs) \<Longrightarrow> x \<in> set xs"
  by (simp split: if_splits)

lemma of_family_Some: "of_family family c = Some c' \<longleftrightarrow> c = Some c' \<and> c_family c' = family"
  by (auto simp: of_family_def split: option.splits if_splits)

lemma network_netavark_helper_supported:
  assumes "ev \<in> set (network_netavark_helper_evidence source obs)" and sup: "ev_state ev = StateSupported"
  shows "\<exists>helper\<in>set obs. \<exists>x. ob_scope helper = ob_scope source \<and> ob_executable helper = Some x \<and> x_role x = ''netavark'' \<and>
    x_source_id x = ob_id source \<and> usable_selection x False"
proof -
  obtain c engine e n where c: "ob_configuration source = Some c" "network_engine_source source obs = Some engine"
    "engine_of engine = Some e" "c_network c = Some n"
    using assms(1) unfolding network_netavark_helper_evidence_def
    by (cases "ob_configuration source"; cases "network_engine_source source obs"; cases "engine_of (the (network_engine_source source obs))";
        cases "c_network (the (ob_configuration source))") simp_all
  from assms(1) have "ev \<in> set (concat (map (\<lambda>helper. case ob_executable helper of None \<Rightarrow> [] | Some x \<Rightarrow>
      if ob_scope helper \<noteq> ob_scope source \<or> x_source x \<noteq> ''configuration'' \<or> x_role x \<noteq> ''netavark'' \<or>
         x_source_id x \<noteq> ob_id source \<or> x_runtime_path x \<noteq> c_runtime_path c then []
      else let ev = configuration_evidence source NetavarkID (network_helper_state c x False)
             ''configured Netavark backend and selected helper executable file metadata; networking unverified''
           in [bind_configuration_version (include_observation (include_observation
                 (ev\<lparr>ev_id := ev_id ev @ ''.'' @ ob_id helper\<rparr>) engine) helper) c obs]) obs))"
    unfolding network_netavark_helper_evidence_def c prod.case option.case by (rule guarded_set)
  then obtain helper x where h: "helper \<in> set obs" "ob_executable helper = Some x"
    and ev: "ev \<in> set (if ob_scope helper \<noteq> ob_scope source \<or> x_source x \<noteq> ''configuration'' \<or> x_role x \<noteq> ''netavark'' \<or>
         x_source_id x \<noteq> ob_id source \<or> x_runtime_path x \<noteq> c_runtime_path c then []
      else let ev = configuration_evidence source NetavarkID (network_helper_state c x False)
             ''configured Netavark backend and selected helper executable file metadata; networking unverified''
           in [bind_configuration_version (include_observation (include_observation
                 (ev\<lparr>ev_id := ev_id ev @ ''.'' @ ob_id helper\<rparr>) engine) helper) c obs])"
    by (rule concat_payloadE)
  then have "network_helper_state c x False = StateSupported" using sup
    by (auto simp: Let_def dest!: bind_supported split: if_splits)
  then show ?thesis using h ev network_helper_supported by (auto split: if_splits)
qed

lemma configured_netavark_supported:
  assumes "ev \<in> set (configured_netavark_evidence s obs)" and sup: "ev_state ev = StateSupported"
  shows "netavark_configured s obs"
proof -
  have "ev \<in> set (concat (map (\<lambda>source. case of_family ''network'' (ob_configuration source) of None \<Rightarrow> [] | Some c \<Rightarrow>
      if ob_scope source \<noteq> s then []
      else let st = network_choice c NetworkBackendNetavarkID True;
               selected = (if st = StateSupported then network_netavark_helper_evidence source obs else [])
           in if selected \<noteq> [] then selected
              else [bind_configuration_version (configuration_evidence source NetavarkID (if st = StateSupported then StateUnknown else st)
                 ''configured backend and selected helper file metadata; networking unverified'') c obs]) obs))"
    by (rule guarded_set [OF assms(1) [unfolded configured_netavark_evidence_def]])
  then obtain source c where source: "source \<in> set obs" "of_family ''network'' (ob_configuration source) = Some c"
    and ev: "ev \<in> set (if ob_scope source \<noteq> s then []
      else let st = network_choice c NetworkBackendNetavarkID True;
               selected = (if st = StateSupported then network_netavark_helper_evidence source obs else [])
           in if selected \<noteq> [] then selected
              else [bind_configuration_version (configuration_evidence source NetavarkID (if st = StateSupported then StateUnknown else st)
                 ''configured backend and selected helper file metadata; networking unverified'') c obs])"
    by (rule concat_payloadE)
  have "network_choice c NetworkBackendNetavarkID True = StateSupported \<and> ob_scope source = s \<and>
      ev \<in> set (network_netavark_helper_evidence source obs)"
    using ev sup by (auto simp: Let_def dest!: bind_supported split: if_splits)
  then show ?thesis
    using source network_netavark_helper_supported [OF _ sup, of source obs]
    unfolding netavark_configured_def of_family_Some by blast
qed

text \<open>
  C38: Netavark is reported as supported only when either the runtime reported it as its backend and
  a helper observation tied to that report found the helper, or the qualified configuration selects
  it and a measurement found the file of the selected helper.
\<close>

theorem netavark_supported:
  assumes "ev \<in> set (netavark_evidence s obs)" and "ev_state ev = StateSupported"
  shows "netavark_reported s obs \<or> netavark_configured s obs"
proof (cases "ev \<in> set (configured_netavark_evidence s obs)")
  case True
  then show ?thesis using configured_netavark_supported assms(2) by blast
next
  case False
  then have "ev \<in> set (concat (map (\<lambda>obs'. case ob_podman obs' of None \<Rightarrow> [] | Some info \<Rightarrow>
      if ob_scope obs' \<noteq> s then []
      else let matched = helper_evidence obs' info s obs
           in if matched \<noteq> [] then matched else [runtime_evidence obs' NetavarkID (netavark_state info None)]) obs))"
    using guarded_set [OF assms(1) [unfolded netavark_evidence_def]] unfolding set_append by blast
  then obtain ob info where ob: "ob \<in> set obs" "ob_podman ob = Some info"
    and ev: "ev \<in> set (if ob_scope ob \<noteq> s then []
      else let matched = helper_evidence ob info s obs
           in if matched \<noteq> [] then matched else [runtime_evidence ob NetavarkID (netavark_state info None)])"
    by (rule concat_payloadE)
  have "ob_scope ob = s" "ev \<in> set (helper_evidence ob info s obs)"
    using ev assms(2) by (auto simp: Let_def netavark_state_supported split: if_splits)
  from this(2) [unfolded helper_evidence_def] obtain helper h where h: "helper \<in> set obs" "ob_podman_helper helper = Some h"
    and ev': "ev \<in> set (if ob_scope helper \<noteq> s \<or> h_info_id h \<noteq> ob_id ob \<or> h_path h \<noteq> p_path info \<or> h_helper_path h \<noteq> p_helper_path info
           then []
           else let ev = runtime_evidence ob NetavarkID (netavark_state info (h_present h))
                in [include_observation (ev\<lparr>ev_id := ev_id ev @ ''.'' @ ob_id helper\<rparr>) helper])" by (rule concat_payloadE)
  then have "ob_scope helper = s" "h_info_id h = ob_id ob" "h_helper_path h = p_helper_path info"
    "netavark_state info (h_present h) = StateSupported" using assms(2) by (auto simp: Let_def split: if_splits)
  then have "netavark_reported s obs"
    unfolding netavark_reported_def netavark_state_supported using ob h \<open>ob_scope ob = s\<close> by blast
  then show ?thesis by blast
qed

theorem netavark_supported_witness:
  "netavark_reported podman_scope example_observations \<or> netavark_configured podman_scope example_observations"
proof -
  have "\<exists>ev\<in>set (netavark_evidence podman_scope example_observations). ev_state ev = StateSupported"
    by (simp add: netavark_evidence_def configured_netavark_evidence_def helper_evidence_def netavark_state_def
        of_family_def Let_def example_observation_defs)
  then show ?thesis using netavark_supported by blast
qed

end
