(* ===== verification/Config_Values.thy ===== *)
theory Config_Values
  imports Model_Observation Go_Path "HOL-Library.AList"
begin

text \<open>
  What the parsers of configuration documents share (\<open>internal/config\<close>): decoded TOML values, the
  recognized spellings of names and paths, attributed lists, and the merge of one projected source
  over the configuration before it (the second half of \<open>engine.go\<close>).

  A decoded table is an association list with distinct keys, in the order in which Go happens to
  range over the map.
\<close>

section \<open>Decoded values\<close>

text \<open>What the decoder stores in \<open>any\<close>; \<open>TOther\<close> is a float or a date.\<close>

datatype toml_value = TString string | TInt int | TBool bool | TArray "toml_value list"
  | TTable "(string \<times> toml_value) list" | TOther string

type_synonym toml_table = "(string \<times> toml_value) list"

definition MaxConfigList :: nat where
  "MaxConfigList = 64"

definition ErrConfigFieldInvalid :: go_error where "ErrConfigFieldInvalid = Err ''config_field_invalid''"
definition ErrConfigFieldUnsupported :: go_error where "ErrConfigFieldUnsupported = Err ''config_field_unsupported''"
definition ErrConfigMalformed :: go_error where "ErrConfigMalformed = Err ''config_malformed''"
definition ErrConfigLimit :: go_error where "ErrConfigLimit = Err ''config_limit''"
definition ErrConfigSyntaxUnsupported :: go_error where "ErrConfigSyntaxUnsupported = Err ''config_toml_version_unsupported''"

text \<open>\<open>FieldError\<close> wraps its reason and adds the field's name.\<close>

definition field_error :: "go_error \<Rightarrow> string \<Rightarrow> go_error" where
  "field_error reason field = Wrapf ''FieldError'' [reason] [field]"

text \<open>\<open>slices.Sorted(maps.Keys(m))\<close>, with the values.\<close>

definition sorted_fields :: "('k::linorder \<times> 'v) list \<Rightarrow> ('k \<times> 'v) list" where
  "sorted_fields m = sort_key fst m"

section \<open>Names and paths\<close>

definition is_name_char :: "char \<Rightarrow> bool" where
  "is_name_char c \<longleftrightarrow> is_lower c \<or> is_upper c \<or> is_digit c \<or> c \<in> {CHR ''_'', CHR ''.'', CHR ''+'', CHR ''-''}"

definition runtime_name :: "string \<Rightarrow> bool" where
  "runtime_name s \<longleftrightarrow> s \<noteq> '''' \<and> list_all is_name_char s"

text \<open>
  \<open>strings.ContainsFunc(s, unicode.IsControl)\<close> on the bytes of \<open>s\<close>: an ASCII control
  character, or the two bytes of one of U+0080 to U+009F.
\<close>

fun contains_control :: "string \<Rightarrow> bool" where
  "contains_control [] = False"
| "contains_control (c # s) =
     (of_char c < (32::nat) \<or> of_char c = (127::nat) \<or>
      of_char c = (194::nat) \<and> (case s of [] \<Rightarrow> False | d # _ \<Rightarrow> (128::nat) \<le> of_char d \<and> of_char d < (160::nat)) \<or>
      contains_control s)"

definition config_path :: "string \<Rightarrow> bool" where
  "config_path value \<longleftrightarrow>
     path_is_abs value \<and> CHR ''$'' \<notin> set value \<and> CHR ''~'' \<notin> set value \<and> \<not> contains_control value"

definition config_list_path :: "string \<Rightarrow> string \<Rightarrow> bool" where
  "config_list_path value field =
     config_path
       (if field = ''helper_binaries_dir'' \<and> (value = ''$BINDIR'' \<or> has_prefix value ''$BINDIR/'')
        then ''/binary'' @ trim_prefix value ''$BINDIR'' else value)"

section \<open>Attributed lists\<close>

record list_layer =
  ll_invalid_indices :: "nat list"
  ll_unmodeled_indices :: "nat list"
  ll_values :: "string list"
  ll_append :: "bool option"

definition empty_list :: list_layer where
  "empty_list = \<lparr>ll_invalid_indices = [], ll_unmodeled_indices = [], ll_values = [], ll_append = None\<rparr>"

text \<open>The attribute table of a list may hold nothing but a boolean \<open>append\<close>.\<close>

definition parse_attribute :: "string \<times> toml_value \<Rightarrow> list_layer \<Rightarrow> go_error + list_layer" where
  "parse_attribute = (\<lambda>(key, value) l.
     case value of
       TBool flag \<Rightarrow> if key \<noteq> ''append'' then Inl ErrConfigFieldInvalid else Inr (l\<lparr>ll_append := Some flag\<rparr>)
     | _ \<Rightarrow> Inl ErrConfigFieldInvalid)"

definition parse_item :: "bool \<Rightarrow> string \<Rightarrow> toml_value \<Rightarrow> list_layer \<Rightarrow> go_error + list_layer" where
  "parse_item attributed field item l =
     (case item of
        TString text \<Rightarrow>
          if field = ''env'' then Inr (l\<lparr>ll_values := ll_values l @ [''redacted'']\<rparr>)
          else if \<not> config_list_path text field then Inl ErrConfigFieldUnsupported
          else Inr (l\<lparr>ll_values := ll_values l @ [text]\<rparr>)
      | TTable entries \<Rightarrow>
          if \<not> attributed then Inl ErrConfigFieldInvalid else fold_res parse_attribute entries l
      | _ \<Rightarrow> Inl ErrConfigFieldInvalid)"

definition parse_config_list :: "toml_value \<Rightarrow> bool \<Rightarrow> string \<Rightarrow> go_error + list_layer" where
  "parse_config_list value attributed field =
     (case value of
        TArray items \<Rightarrow>
          if length items > MaxConfigList then Inl ErrConfigLimit
          else fold_res (parse_item attributed field) items empty_list
      | _ \<Rightarrow> Inl ErrConfigFieldInvalid)"

section \<open>Merging one source over the configuration before it\<close>

definition merge_string :: "config_string option \<Rightarrow> string option \<Rightarrow> string \<Rightarrow> config_string option" where
  "merge_string previous value source =
     (case value of Some v \<Rightarrow> Some \<lparr>cs_invalid = False, cs_value = v, cs_source_id = source\<rparr> | None \<Rightarrow> previous)"

definition fresh_list :: config_list where
  "fresh_list = \<lparr>cl_invalid_indices = [], cl_unmodeled_indices = [], cl_values = [], cl_origins = [],
     cl_source_id = '''', cl_append = None, cl_inherited_default = True\<rparr>"

definition clear_list :: "config_list \<Rightarrow> config_list" where
  "clear_list l = l\<lparr>cl_values := [], cl_origins := [], cl_inherited_default := False, cl_invalid_indices := [],
     cl_unmodeled_indices := []\<rparr>"

definition extend_list :: "config_list \<Rightarrow> list_layer \<Rightarrow> string \<Rightarrow> config_list" where
  "extend_list l layer source =
     l\<lparr>cl_invalid_indices := cl_invalid_indices l @ map (\<lambda>i. length (cl_values l) + i) (ll_invalid_indices layer),
       cl_unmodeled_indices := cl_unmodeled_indices l @ map (\<lambda>i. length (cl_values l) + i) (ll_unmodeled_indices layer),
       cl_values := cl_values l @ ll_values layer,
       cl_origins := cl_origins l @ replicate (length (ll_values layer)) source,
       cl_source_id := source\<rparr>"

definition overlay_list :: "config_list \<Rightarrow> list_layer \<Rightarrow> string \<Rightarrow> config_list" where
  "overlay_list previous layer source =
     (let out = (if ll_append layer \<noteq> None then previous\<lparr>cl_append := ll_append layer\<rparr> else previous)
      in extend_list (if cl_append out = Some True then out else clear_list out) layer source)"

definition merge_list :: "config_list option \<Rightarrow> list_layer option \<Rightarrow> string \<Rightarrow> config_list option" where
  "merge_list previous layer source =
     (case layer of
        None \<Rightarrow> previous
      | Some l \<Rightarrow> Some (overlay_list (case previous of None \<Rightarrow> fresh_list | Some p \<Rightarrow> p) l source))"

definition merge_redacted :: "config_redacted_list option \<Rightarrow> list_layer option \<Rightarrow> string \<Rightarrow> config_redacted_list option" where
  "merge_redacted previous layer source =
     (case layer of
        None \<Rightarrow> previous
      | Some l \<Rightarrow>
          let p = (case previous of None \<Rightarrow> \<lparr>cr_count = 0, cr_source_id = '''', cr_append = None, cr_inherited_default = True\<rparr>
                   | Some p \<Rightarrow> p);
              out = (if ll_append l \<noteq> None then p\<lparr>cr_append := ll_append l\<rparr> else p);
              out' = (if cr_append out = Some True then out else out\<lparr>cr_count := 0, cr_inherited_default := False\<rparr>)
          in Some (out'\<lparr>cr_count := cr_count out' + length (ll_values l), cr_source_id := source\<rparr>))"

end
