(* ===== verification/Config_Toml.thy ===== *)
theory Config_Toml
  imports Config_Values
begin

text \<open>
  The bounded decoding of TOML (\<open>internal/config/toml.go\<close>, \<open>toml10.go\<close>): limits on the syntax tree and
  the filter of TOML 1.1 syntax, before a document is decoded. The parser and the decoder are
  third-party: the expressions it yields, whether it stopped at an error, and the decoded table are
  parameters. Of a node the code reads its kind, the bytes it spans and its children; the children of
  a table header are its keys, those of a key-value pair its value and then its keys.
\<close>

definition MaxTOMLBytes :: nat where "MaxTOMLBytes = 65536"
definition MaxTOMLDepth :: nat where "MaxTOMLDepth = 32"
definition MaxTOMLNodes :: nat where "MaxTOMLNodes = 4096"

datatype toml_kind = Table | ArrayTable | Array | InlineTable | StringNode | KeyNode | LocalTime | LocalDateTime | DateTime | OtherNode

datatype toml_node =
    Node (nd_kind: toml_kind) (nd_offset: nat) (nd_length: nat) (nd_children: "toml_node list")
  | KeyValue nat nat toml_node "toml_node list"

section \<open>Limits\<close>

fun bound_node :: "toml_node \<Rightarrow> nat \<Rightarrow> nat \<Rightarrow> go_error + nat"
  and bound_children :: "toml_node list \<Rightarrow> nat \<Rightarrow> nat \<Rightarrow> go_error + nat" where
  "bound_node (Node kind offset len children) depth nodes =
     (if nodes + 1 > MaxTOMLNodes \<or> depth > MaxTOMLDepth then Inl ErrConfigLimit
      else if kind = Table \<or> kind = ArrayTable then
        (if depth + length children > MaxTOMLDepth \<or> nodes + 1 + length children > MaxTOMLNodes then Inl ErrConfigLimit
         else Inr (nodes + 1 + length children))
      else if kind = Array \<or> kind = InlineTable then bound_children children (depth + 1) (nodes + 1)
      else Inr (nodes + 1))"
| "bound_node (KeyValue offset len value keys) depth nodes =
     (if nodes + 1 > MaxTOMLNodes \<or> depth > MaxTOMLDepth then Inl ErrConfigLimit
      else if depth + length keys > MaxTOMLDepth \<or> nodes + 1 + length keys > MaxTOMLNodes then Inl ErrConfigLimit
      else bound_node value (depth + length keys) (nodes + 1 + length keys))"
| "bound_children [] depth nodes = Inr nodes"
| "bound_children (c # cs) depth nodes =
     (case bound_node c depth nodes of Inl err \<Rightarrow> Inl err | Inr nodes' \<Rightarrow> bound_children cs depth nodes')"

section \<open>TOML 1.0\<close>

definition raw :: "string \<Rightarrow> nat \<Rightarrow> nat \<Rightarrow> string" where
  "raw data offset len = take len (drop offset data)"

text \<open>In a basic string, the escapes that TOML 1.1 added.\<close>

fun compatible_escapes :: "string \<Rightarrow> bool" where
  "compatible_escapes [] = True"
| "compatible_escapes [c] = True"
| "compatible_escapes (c # d # s) =
     (if c = CHR 0x5C then d \<noteq> CHR ''e'' \<and> d \<noteq> CHR ''x'' \<and> compatible_escapes s
      else compatible_escapes (d # s))"

definition compatible_string :: "string \<Rightarrow> bool" where
  "compatible_string s \<longleftrightarrow> s = '''' \<or> hd s \<noteq> CHR 0x22 \<or> compatible_escapes s"

fun node_span :: "toml_node \<Rightarrow> nat \<times> nat" where
  "node_span (Node kind offset len children) = (offset, len)"
| "node_span (KeyValue offset len value keys) = (offset, len)"

text \<open>Between the members of an inline table there is no line break and no comment, and no comma at the end.\<close>

fun inline_members :: "string \<Rightarrow> nat \<Rightarrow> toml_node list \<Rightarrow> nat option" where
  "inline_members data offset [] = Some offset"
| "inline_members data offset (child # rest) =
     (let (start, len) = node_span child
      in if list_ex (\<lambda>c. c = CHR 0x0D \<or> c = CHR 0x0A \<or> c = CHR ''#'') (take (start - offset) (drop offset data)) then None
         else inline_members data (start + len) rest)"

definition compatible_inline_table :: "string \<Rightarrow> nat \<Rightarrow> toml_node list \<Rightarrow> bool" where
  "compatible_inline_table data offset children =
     (case inline_members data (offset + 1) children of
        None \<Rightarrow> False
      | Some end_offset \<Rightarrow>
          (case dropWhile (\<lambda>c. c = CHR '' '' \<or> c = CHR 0x09) (drop end_offset data) of
             [] \<Rightarrow> False
           | c # _ \<Rightarrow> c = CHR ''}''))"

definition compatible_time :: "toml_kind \<Rightarrow> string \<Rightarrow> go_error option" where
  "compatible_time kind value =
     (if kind \<noteq> LocalTime \<and> length value < 11 then Some ErrConfigMalformed
      else let clock = (if kind = LocalTime then value else drop 11 value)
        in if length clock \<le> 5 \<or> clock ! 5 \<noteq> CHR '':'' then Some ErrConfigSyntaxUnsupported else None)"

definition compatible_own :: "string \<Rightarrow> toml_kind \<Rightarrow> nat \<Rightarrow> nat \<Rightarrow> toml_node list \<Rightarrow> go_error option" where
  "compatible_own data kind offset len children =
     (if kind = StringNode \<or> kind = KeyNode then
        (if compatible_string (raw data offset len) then None else Some ErrConfigSyntaxUnsupported)
      else if kind = InlineTable then
        (if compatible_inline_table data offset children then None else Some ErrConfigSyntaxUnsupported)
      else if kind \<in> {LocalTime, LocalDateTime, DateTime} then compatible_time kind (raw data offset len)
      else None)"

fun compatible_node :: "string \<Rightarrow> toml_node \<Rightarrow> go_error option"
  and compatible_nodes :: "string \<Rightarrow> toml_node list \<Rightarrow> go_error option" where
  "compatible_node data (Node kind offset len children) =
     (case compatible_own data kind offset len children of
        Some err \<Rightarrow> Some err
      | None \<Rightarrow> compatible_nodes data children)"
| "compatible_node data (KeyValue offset len value keys) =
     (case compatible_node data value of Some err \<Rightarrow> Some err | None \<Rightarrow> compatible_nodes data keys)"
| "compatible_nodes data [] = None"
| "compatible_nodes data (c # cs) =
     (case compatible_node data c of Some err \<Rightarrow> Some err | None \<Rightarrow> compatible_nodes data cs)"

section \<open>ParseTOML\<close>

text \<open>One round of the loop over the expressions, with the node count and the depth of the current table.\<close>

definition check_expression :: "string \<Rightarrow> toml_node \<Rightarrow> nat \<times> nat \<Rightarrow> go_error + nat \<times> nat" where
  "check_expression data node = (\<lambda>(nodes, table_depth).
     let header = (case node of Node kind _ _ _ \<Rightarrow> kind = Table \<or> kind = ArrayTable | _ \<Rightarrow> False);
         depth = (if header then 0 else table_depth);
         table_depth' = (if header then length (nd_children node) else table_depth)
     in case bound_node node depth nodes of
          Inl err \<Rightarrow> Inl err
        | Inr nodes' \<Rightarrow>
            (case compatible_node data node of Some err \<Rightarrow> Inl err | None \<Rightarrow> Inr (nodes', table_depth')))"

definition parse_toml :: "(string \<Rightarrow> toml_node list) \<Rightarrow> (string \<Rightarrow> bool) \<Rightarrow> (string \<Rightarrow> toml_table option) \<Rightarrow>
    string \<Rightarrow> go_error + toml_table" where
  "parse_toml expressions broken unmarshal data =
     (if length data > MaxTOMLBytes then Inl ErrConfigLimit
      else case fold_res (check_expression data) (expressions data) (0, 0) of
        Inl err \<Rightarrow> Inl err
      | Inr _ \<Rightarrow>
          if broken data then Inl ErrConfigMalformed
          else case unmarshal data of None \<Rightarrow> Inl ErrConfigMalformed | Some table \<Rightarrow> Inr table)"

section \<open>The limits as a measure of the tree\<close>

fun node_weight :: "toml_node \<Rightarrow> nat" where
  "node_weight (Node kind offset len children) =
     1 + (if kind = Table \<or> kind = ArrayTable then length children
          else if kind = Array \<or> kind = InlineTable then sum_list (map node_weight children) else 0)"
| "node_weight (KeyValue offset len value keys) = 1 + length keys + node_weight value"

fun node_depth :: "toml_node \<Rightarrow> nat" where
  "node_depth (Node kind offset len children) =
     (if kind = Table \<or> kind = ArrayTable then length children
      else if kind = Array \<or> kind = InlineTable then foldr (\<lambda>c m. max (1 + node_depth c) m) children 0 else 0)"
| "node_depth (KeyValue offset len value keys) = length keys + node_depth value"

lemma depth_of_children:
  "d + foldr (\<lambda>c m. max (1 + node_depth c) m) cs 0 \<le> k \<longleftrightarrow> d \<le> k \<and> list_all (\<lambda>c. d + 1 + node_depth c \<le> k) cs"
  by (induction cs) (auto simp: max_def)

lemma bound_spec:
  "bound_node n depth nodes =
     (if nodes + node_weight n \<le> MaxTOMLNodes \<and> depth + node_depth n \<le> MaxTOMLDepth
      then Inr (nodes + node_weight n) else Inl ErrConfigLimit)"
  "nodes \<le> MaxTOMLNodes \<Longrightarrow>
   bound_children cs depth nodes =
     (if nodes + sum_list (map node_weight cs) \<le> MaxTOMLNodes \<and> list_all (\<lambda>c. depth + node_depth c \<le> MaxTOMLDepth) cs
      then Inr (nodes + sum_list (map node_weight cs)) else Inl ErrConfigLimit)"
proof (induction n depth nodes and cs depth nodes rule: bound_node_bound_children.induct)
  case (1 kind offset len children depth nodes)
  show ?case
  proof (cases "kind = Array \<or> kind = InlineTable")
    case True
    then have "kind \<noteq> Table" "kind \<noteq> ArrayTable" by auto
    with True 1 show ?thesis by (auto simp: depth_of_children [simplified])
  qed auto
next
  case (2 offset len v keys depth nodes)
  then show ?case by auto
next
  case (4 c cs depth nodes)
  then show ?case by (cases "nodes + node_weight c \<le> MaxTOMLNodes \<and> depth + node_depth c \<le> MaxTOMLDepth") (auto simp: add.assoc)
qed auto

lemma bound_node_spec:
  "bound_node n depth nodes =
     (if nodes + node_weight n \<le> MaxTOMLNodes \<and> depth + node_depth n \<le> MaxTOMLDepth
      then Inr (nodes + node_weight n) else Inl ErrConfigLimit)"
  by (rule bound_spec(1))

text \<open>The depth of the table each expression stands in, and the depth it reaches.\<close>

definition is_header :: "toml_node \<Rightarrow> bool" where
  "is_header node = (case node of Node kind _ _ _ \<Rightarrow> kind = Table \<or> kind = ArrayTable | _ \<Rightarrow> False)"

fun document_depths :: "nat \<Rightarrow> toml_node list \<Rightarrow> nat list" where
  "document_depths table_depth [] = []"
| "document_depths table_depth (node # nodes) =
     (if is_header node then length (nd_children node) # document_depths (length (nd_children node)) nodes
      else (table_depth + node_depth node) # document_depths table_depth nodes)"

lemma header_depth: "is_header node \<Longrightarrow> node_depth node = length (nd_children node)"
  by (cases node) (auto simp: is_header_def)

lemma check_expression_Inr:
  "check_expression data node (used, table_depth) = Inr r \<longleftrightarrow>
     used + node_weight node \<le> MaxTOMLNodes \<and>
     (if is_header node then 0 else table_depth) + node_depth node \<le> MaxTOMLDepth \<and> compatible_node data node = None \<and>
     r = (used + node_weight node, if is_header node then length (nd_children node) else table_depth)"
  unfolding check_expression_def is_header_def [symmetric] Let_def bound_node_spec prod.case
  by (cases "compatible_node data node") auto

lemma check_expressions:
  "fold_res (check_expression data) nodes (used, table_depth) = Inr (used', table_depth') \<Longrightarrow> used \<le> MaxTOMLNodes \<Longrightarrow>
   used' = used + sum_list (map node_weight nodes) \<and> used' \<le> MaxTOMLNodes \<and>
   list_all (\<lambda>d. d \<le> MaxTOMLDepth) (document_depths table_depth nodes) \<and>
   list_all (\<lambda>n. compatible_node data n = None) nodes"
proof (induction nodes arbitrary: used table_depth)
  case (Cons node nodes)
  obtain r where r: "check_expression data node (used, table_depth) = Inr r"
    "fold_res (check_expression data) nodes r = Inr (used', table_depth')"
    using Cons.prems(1) by (auto split: sum.splits)
  show ?case
    using r Cons.IH header_depth [of node] by (cases "is_header node") (fastforce simp: check_expression_Inr)+
qed simp

text \<open>a document is decoded only after its whole syntax has been seen within the limits: at most
  65536 bytes, at most 4096 nodes counting keys, nesting of tables, keys, arrays and inline tables at
  most 32 deep, and none of the syntax that TOML 1.0 lacks.
\<close>

lemma parse_toml_bounds:
  assumes "parse_toml expressions broken unmarshal data = Inr table"
  shows "length data \<le> 65536 \<and> sum_list (map node_weight (expressions data)) \<le> 4096 \<and>
    list_all (\<lambda>d. d \<le> 32) (document_depths 0 (expressions data)) \<and>
    list_all (\<lambda>n. compatible_node data n = None) (expressions data) \<and>
    \<not> broken data \<and> unmarshal data = Some table"
proof -
  obtain r where "fold_res (check_expression data) (expressions data) (0, 0) = Inr r"
    and rest: "length data \<le> MaxTOMLBytes" "\<not> broken data" "unmarshal data = Some table"
    using assms by (auto simp: parse_toml_def split: if_splits sum.splits option.splits)
  then have "fold_res (check_expression data) (expressions data) (0, 0) = Inr (fst r, snd r)" by simp
  from check_expressions [OF this] rest show ?thesis
    by (simp add: MaxTOMLBytes_def MaxTOMLNodes_def MaxTOMLDepth_def)
qed

text \<open>The document \<open>[a]\<close>, \<open>b = "c"\<close>.\<close>

definition example_document :: string where
  "example_document = ''[a]'' @ [CHR 0x0A] @ ''b = '' @ [CHR 0x22] @ ''c'' @ [CHR 0x22]"

definition example_expressions :: "string \<Rightarrow> toml_node list" where
  "example_expressions data = [Node Table 0 3 [Node KeyNode 1 1 []], KeyValue 4 7 (Node StringNode 8 3 []) [Node KeyNode 4 1 []]]"

lemma parse_toml_bounds_witness:
  "sum_list (map node_weight (example_expressions example_document)) \<le> 4096 \<and>
   parse_toml example_expressions (\<lambda>_. False) (\<lambda>_. Some [(''a'', TTable [(''b'', TString ''c'')])]) example_document =
     Inr [(''a'', TTable [(''b'', TString ''c'')])]"
proof -
  have "parse_toml example_expressions (\<lambda>_. False) (\<lambda>_. Some [(''a'', TTable [(''b'', TString ''c'')])]) example_document =
      Inr [(''a'', TTable [(''b'', TString ''c'')])]"
    by (simp add: parse_toml_def example_expressions_def example_document_def check_expression_def compatible_own_def
        compatible_string_def raw_def MaxTOMLBytes_def MaxTOMLNodes_def MaxTOMLDepth_def)
  with parse_toml_bounds [OF this] show ?thesis by blast
qed

end
