(* ===== verification/Config_Engine.thy ===== *)
theory Config_Engine
  imports Config_Values
begin

text \<open>
  The engine section of a containers.conf document (\<open>internal/config/engine.go\<close>): the projection of
  one decoded document, and its merge over the configuration before it. Decoding is a parameter
  (\<open>ParseTOML\<close>), as the decoder is a third-party package.
\<close>

record engine_layer =
  el_cgroup_manager_invalid :: bool
  el_runtime :: "string option"
  el_cgroup_manager :: "string option"
  el_conmon_path :: "list_layer option"
  el_helper_binaries_dir :: "list_layer option"
  el_runtime_path :: "list_layer option"
  el_environment :: "list_layer option"
  el_runtimes :: "(string \<times> list_layer) list"
  el_selection_overrides :: bool
  el_unprojected_field_count :: nat

definition empty_engine_layer :: engine_layer where
  "empty_engine_layer = \<lparr>el_cgroup_manager_invalid = False, el_runtime = None, el_cgroup_manager = None,
     el_conmon_path = None, el_helper_binaries_dir = None, el_runtime_path = None, el_environment = None,
     el_runtimes = [], el_selection_overrides = False, el_unprojected_field_count = 0\<rparr>"

definition parse_runtime_entry :: "string \<times> toml_value \<Rightarrow> engine_layer \<Rightarrow> go_error + engine_layer" where
  "parse_runtime_entry = (\<lambda>(name, value) layer.
     if \<not> runtime_name name then Inl ErrConfigFieldUnsupported
     else case parse_config_list value False ''runtimes'' of
       Inl err \<Rightarrow> Inl err
     | Inr l \<Rightarrow> Inr (layer\<lparr>el_runtimes := AList.update name l (el_runtimes layer)\<rparr>))"

definition parse_runtimes :: "toml_value \<Rightarrow> engine_layer \<Rightarrow> go_error + engine_layer" where
  "parse_runtimes value layer =
     (case value of
        TTable runtimes \<Rightarrow>
          if length runtimes > MaxConfigList then Inl ErrConfigLimit
          else fold_res parse_runtime_entry (sorted_fields runtimes) (layer\<lparr>el_runtimes := []\<rparr>)
      | _ \<Rightarrow> Inl ErrConfigFieldInvalid)"

definition parse_engine_string :: "string \<Rightarrow> string \<Rightarrow> engine_layer \<Rightarrow> go_error + engine_layer" where
  "parse_engine_string key text layer =
     (if key = ''runtime'' then
        if text \<noteq> '''' \<and> \<not> runtime_name text \<and> \<not> config_path text then Inl ErrConfigFieldUnsupported
        else Inr (layer\<lparr>el_runtime := Some text\<rparr>)
      else if text \<noteq> '''' \<and> text \<noteq> ''systemd'' \<and> text \<noteq> ''cgroupfs''
        then Inr (layer\<lparr>el_cgroup_manager_invalid := True, el_cgroup_manager := Some ''''\<rparr>)
      else Inr (layer\<lparr>el_cgroup_manager := Some text\<rparr>))"

definition store_engine_list :: "string \<Rightarrow> list_layer \<Rightarrow> engine_layer \<Rightarrow> engine_layer" where
  "store_engine_list key l layer =
     (if key = ''conmon_path'' then layer\<lparr>el_conmon_path := Some l\<rparr>
      else if key = ''helper_binaries_dir'' then layer\<lparr>el_helper_binaries_dir := Some l\<rparr>
      else if key = ''runtime_path'' then layer\<lparr>el_runtime_path := Some l\<rparr>
      else layer\<lparr>el_environment := Some l\<rparr>)"

definition parse_engine_field :: "string \<Rightarrow> toml_value \<Rightarrow> engine_layer \<Rightarrow> go_error + engine_layer" where
  "parse_engine_field key value layer =
     (if key = ''runtime'' \<or> key = ''cgroup_manager'' then
        (case value of TString text \<Rightarrow> parse_engine_string key text layer | _ \<Rightarrow> Inl ErrConfigFieldInvalid)
      else if key = ''runtimes'' then parse_runtimes value layer
      else if key \<in> {''conmon_path'', ''helper_binaries_dir'', ''runtime_path'', ''env''} then
        (case parse_config_list value True key of Inl err \<Rightarrow> Inl err | Inr l \<Rightarrow> Inr (store_engine_list key l layer))
      else Inr (layer\<lparr>el_selection_overrides := el_selection_overrides layer \<or> key = ''platform_to_oci_runtime'',
                      el_unprojected_field_count := el_unprojected_field_count layer + 1\<rparr>))"

definition parse_engine_fields :: "toml_table \<Rightarrow> go_error + engine_layer" where
  "parse_engine_fields engine =
     fold_res (\<lambda>(key, value) layer. case parse_engine_field key value layer of
         Inl err \<Rightarrow> Inl (field_error err (''engine.'' @ key))
       | Inr layer' \<Rightarrow> Inr layer') (sorted_fields engine) empty_engine_layer"

definition parse_engine :: "(string \<Rightarrow> go_error + toml_table) \<Rightarrow> string \<Rightarrow> go_error + engine_layer" where
  "parse_engine parse_toml data =
     (case parse_toml data of
        Inl err \<Rightarrow> Inl err
      | Inr document \<Rightarrow>
          (case map_of document ''engine'' of
             None \<Rightarrow> Inr empty_engine_layer
           | Some (TTable engine) \<Rightarrow> parse_engine_fields engine
           | Some _ \<Rightarrow> Inl (field_error ErrConfigFieldInvalid ''engine'')))"

definition merge_runtimes :: "(string \<times> config_list) list \<Rightarrow> (string \<times> list_layer) list \<Rightarrow> string \<Rightarrow> (string \<times> config_list) list" where
  "merge_runtimes previous layer source =
     foldl (\<lambda>out (name, l). AList.update name (overlay_list fresh_list l source) out) previous layer"

definition merge_engine :: "engine_configuration \<Rightarrow> engine_layer \<Rightarrow> string \<Rightarrow> engine_configuration" where
  "merge_engine previous layer source =
     \<lparr>e_runtime = merge_string (e_runtime previous) (el_runtime layer) source,
      e_cgroup_manager =
        (if el_cgroup_manager layer \<noteq> None
         then map_option (\<lambda>m. m\<lparr>cs_invalid := el_cgroup_manager_invalid layer\<rparr>)
                (merge_string (e_cgroup_manager previous) (el_cgroup_manager layer) source)
         else merge_string (e_cgroup_manager previous) None source),
      e_runtimes = merge_runtimes (e_runtimes previous) (el_runtimes layer) source,
      e_conmon_path = merge_list (e_conmon_path previous) (el_conmon_path layer) source,
      e_helper_binaries_dir = merge_list (e_helper_binaries_dir previous) (el_helper_binaries_dir layer) source,
      e_runtime_path = merge_list (e_runtime_path previous) (el_runtime_path layer) source,
      e_environment = merge_redacted (e_environment previous) (el_environment layer) source,
      e_selection_overrides = (e_selection_overrides previous \<or> el_selection_overrides layer),
      e_unprojected_field_count = e_unprojected_field_count previous + el_unprojected_field_count layer\<rparr>"

end
