(* ===== verification/Go_Net.thy ===== *)
theory Go_Net
  imports Prelude
begin

text \<open>
  The functions of Go's standard library that the configuration parsers apply to settings:
  \<open>net.ParseIP\<close>, \<open>net.ParseCIDR\<close>, \<open>IP.To4\<close> and \<open>strconv\<close>'s \<open>Atoi\<close>, \<open>ParseUint\<close> with
  base 8 and \<open>ParseBool\<close>. Addresses are lists of bytes; an address with a zone, which \<open>net\<close>
  rejects, is rejected here at once.
\<close>

section \<open>Addresses\<close>

datatype ip_addr = IPv4 "nat list" | IPv6 "nat list"

definition parse_octet :: "string \<Rightarrow> nat option" where
  "parse_octet s =
     (if s \<noteq> '''' \<and> list_all is_digit s \<and> (hd s \<noteq> CHR ''0'' \<or> length s = 1) \<and> decimal_value s \<le> 255
      then Some (decimal_value s) else None)"

definition parse_ipv4 :: "string \<Rightarrow> nat list option" where
  "parse_ipv4 s =
     (let octets = map parse_octet (split_on CHR ''.'' s)
      in if length octets = 4 \<and> None \<notin> set octets then Some (map the octets) else None)"

definition is_hex :: "char \<Rightarrow> bool" where
  "is_hex c \<longleftrightarrow> is_digit c \<or> CHR ''a'' \<le> c \<and> c \<le> CHR ''f'' \<or> CHR ''A'' \<le> c \<and> c \<le> CHR ''F''"

definition hex_digit :: "char \<Rightarrow> nat" where
  "hex_digit c = (if is_digit c then of_char c - 48 else if CHR ''a'' \<le> c then of_char c - 87 else of_char c - 55)"

definition hex_value :: "string \<Rightarrow> nat" where
  "hex_value s = foldl (\<lambda>n c. 16 * n + hex_digit c) 0 s"

text \<open>
  The loop over the groups, of which at most as many as the first argument are left: the text that
  remains, the bytes so far, and where the ellipsis was.
\<close>

fun ipv6_groups :: "nat \<Rightarrow> string \<Rightarrow> nat list \<Rightarrow> nat option \<Rightarrow> (string \<times> nat list \<times> nat option) option" where
  "ipv6_groups 0 s bytes ellipsis = Some (s, bytes, ellipsis)"
| "ipv6_groups (Suc k) s bytes ellipsis =
     (let digits = takeWhile is_hex s; rest = dropWhile is_hex s;
          bytes' = bytes @ [hex_value digits div 256, hex_value digits mod 256]
      in if digits = '''' \<or> length digits > 4 then None
         else case rest of
           [] \<Rightarrow> Some ('''', bytes', ellipsis)
         | c # s' \<Rightarrow>
             if c = CHR ''.'' then
               if ellipsis = None \<and> length bytes \<noteq> 12 \<or> length bytes + 4 > 16 then None
               else (case parse_ipv4 s of None \<Rightarrow> None | Some b \<Rightarrow> Some ('''', bytes @ b, ellipsis))
             else if c \<noteq> CHR '':'' \<or> s' = '''' then None
             else if hd s' \<noteq> CHR '':'' then ipv6_groups k s' bytes' ellipsis
             else if ellipsis \<noteq> None then None
             else if tl s' = '''' then Some ('''', bytes', Some (length bytes'))
             else ipv6_groups k (tl s') bytes' (Some (length bytes')))"

definition expand_ellipsis :: "string \<times> nat list \<times> nat option \<Rightarrow> nat list option" where
  "expand_ellipsis = (\<lambda>(rest, bytes, ellipsis).
     if rest \<noteq> '''' then None
     else case ellipsis of
       None \<Rightarrow> if length bytes < 16 then None else Some bytes
     | Some e \<Rightarrow> if length bytes < 16 then Some (take e bytes @ replicate (16 - length bytes) 0 @ drop e bytes) else None)"

definition parse_ipv6 :: "string \<Rightarrow> nat list option" where
  "parse_ipv6 s =
     (if CHR ''%'' \<in> set s then None
      else if has_prefix s ''::'' then
        (if s = ''::'' then Some (replicate 16 0)
         else case ipv6_groups 8 (drop 2 s) [] (Some 0) of None \<Rightarrow> None | Some r \<Rightarrow> expand_ellipsis r)
      else case ipv6_groups 8 s [] None of None \<Rightarrow> None | Some r \<Rightarrow> expand_ellipsis r)"

text \<open>The first of the characters dot, colon and percent decides on the family.\<close>

definition parse_ip :: "string \<Rightarrow> ip_addr option" where
  "parse_ip s =
     (case dropWhile (\<lambda>c. c \<notin> {CHR ''.'', CHR '':'', CHR ''%''}) s of
        [] \<Rightarrow> None
      | c # _ \<Rightarrow> if c = CHR ''.'' then map_option IPv4 (parse_ipv4 s)
                else if c = CHR '':'' then map_option IPv6 (parse_ipv6 s) else None)"

definition is_to4 :: "ip_addr \<Rightarrow> bool" where
  "is_to4 ip = (case ip of IPv4 _ \<Rightarrow> True | IPv6 bytes \<Rightarrow> take 12 bytes = replicate 10 0 @ [255, 255])"

definition parse_cidr :: "string \<Rightarrow> ip_addr option" where
  "parse_cidr s =
     (case cut_at CHR ''/'' s of
        None \<Rightarrow> None
      | Some (addr, width) \<Rightarrow>
          (case parse_ip addr of
             None \<Rightarrow> None
           | Some ip \<Rightarrow>
               if width \<noteq> '''' \<and> list_all is_digit width \<and>
                  decimal_value width \<le> (case ip of IPv4 _ \<Rightarrow> 32 | IPv6 _ \<Rightarrow> 128)
               then Some ip else None))"

section \<open>Numbers and flags\<close>

definition atoi :: "string \<Rightarrow> int option" where
  "atoi s =
     (let signed = s \<noteq> '''' \<and> (hd s = CHR ''+'' \<or> hd s = CHR ''-'');
          digits = (if signed then tl s else s);
          n = (if signed \<and> hd s = CHR ''-'' then - int (decimal_value digits) else int (decimal_value digits))
      in if digits \<noteq> '''' \<and> list_all is_digit digits \<and> - (2 ^ 63) \<le> n \<and> n < 2 ^ 63 then Some n else None)"

definition octal_value :: "string \<Rightarrow> nat" where
  "octal_value s = foldl (\<lambda>n c. 8 * n + digit_value c) 0 s"

definition parse_octal32 :: "string \<Rightarrow> nat option" where
  "parse_octal32 s =
     (if s \<noteq> '''' \<and> list_all (\<lambda>c. CHR ''0'' \<le> c \<and> c \<le> CHR ''7'') s \<and> octal_value s < 2 ^ 32
      then Some (octal_value s) else None)"

definition parse_bool :: "string \<Rightarrow> bool option" where
  "parse_bool s =
     (if s \<in> {''1'', ''t'', ''T'', ''true'', ''TRUE'', ''True''} then Some True
      else if s \<in> {''0'', ''f'', ''F'', ''false'', ''FALSE'', ''False''} then Some False
      else None)"

text \<open>\<open>strconv.FormatInt(n, 8)\<close> on a non-negative number.\<close>

fun octal_string :: "nat \<Rightarrow> string" where
  "octal_string n = (if n < 8 then [char_of (48 + n)] else octal_string (n div 8) @ [char_of (48 + n mod 8)])"

declare octal_string.simps [simp del]

lemma octal_value_snoc: "octal_value (s @ [c]) = 8 * octal_value s + digit_value c"
  by (simp add: octal_value_def)

lemma octal_value_string: "octal_value (octal_string n) = n"
proof (induction n rule: octal_string.induct)
  case (1 n)
  show ?case
  proof (cases "n < 8")
    case True
    then show ?thesis
      by (subst octal_string.simps) (simp add: octal_value_def digit_value_char)
  next
    case False
    with 1 show ?thesis
      by (subst octal_string.simps) (simp add: octal_value_snoc digit_value_char)
  qed
qed

lemma octal_digit: "(n::nat) < 8 \<Longrightarrow> CHR ''0'' \<le> (char_of (48 + n) :: char) \<and> (char_of (48 + n) :: char) \<le> CHR ''7''"
  by (simp add: less_eq_char_def)

lemma octal_string_digits: "octal_string n \<noteq> '''' \<and> list_all (\<lambda>c. CHR ''0'' \<le> c \<and> c \<le> CHR ''7'') (octal_string n)"
proof (induction n rule: octal_string.induct)
  case (1 n)
  then show ?case
    by (subst (1 2) octal_string.simps) (auto simp: octal_digit)
qed

lemma parse_octal32_string: "n < 2 ^ 32 \<Longrightarrow> parse_octal32 (octal_string n) = Some n"
  using octal_string_digits [of n] by (simp add: parse_octal32_def octal_value_string)

section \<open>What an accepted address looks like\<close>

lemma parse_octet_bound: "parse_octet s = Some n \<Longrightarrow> n < 256"
  by (auto simp: parse_octet_def split: if_splits)

lemma parse_ipv4_bytes: "parse_ipv4 s = Some b \<Longrightarrow> length b = 4 \<and> (\<forall>n\<in>set b. n < 256)"
proof -
  assume b: "parse_ipv4 s = Some b"
  then have eq: "b = map (the \<circ> parse_octet) (split_on CHR ''.'' s)" "length (split_on CHR ''.'' s) = 4"
    and some: "None \<notin> set (map parse_octet (split_on CHR ''.'' s))"
    by (auto simp: parse_ipv4_def Let_def split: if_splits)
  have "n < 256" if n: "n \<in> set b" for n
  proof -
    obtain x where x: "x \<in> set (split_on CHR ''.'' s)" "n = the (parse_octet x)" using n unfolding eq(1) by auto
    then have "parse_octet x \<noteq> None" using some by force
    then show ?thesis using parse_octet_bound [of x] x(2) by auto
  qed
  then show ?thesis using eq by simp
qed

end
