(* ===== verification/Config_Network.thy ===== *)
theory Config_Network
  imports Config_Values Go_Net
begin

text \<open>
  The network settings of a containers.conf document (\<open>internal/config/network.go\<close>): projection of
  the sections network, containers and engine of one decoded document, and the merge over the
  configuration before it.
\<close>

record network_layer =
  nl_strings :: "(string \<times> config_string) list"
  nl_lists :: "(string \<times> list_layer) list"
  nl_dns_bind_port :: "64 word option"
  nl_pasta_options :: "list_layer option"
  nl_unprojected_field_count :: nat

definition empty_network_layer :: network_layer where
  "empty_network_layer = \<lparr>nl_strings = [], nl_lists = [], nl_dns_bind_port = None, nl_pasta_options = None,
     nl_unprojected_field_count = 0\<rparr>"

section \<open>List entries\<close>

definition dns_flags :: "string list" where
  "dns_flags = [''debug'', ''rotate'', ''no-check-names'', ''inet6'', ''ip6-bytestring'', ''ip6-dotint'', ''no-ip6-dotint'',
     ''edns0'', ''single-request'', ''single-request-reopen'', ''no-tld-query'', ''use-vc'', ''no-reload'', ''trust-ad'', ''no-aaaa'']"

text \<open>The regular expression \<open>dnsOption\<close>.\<close>

definition dns_option :: "string \<Rightarrow> bool" where
  "dns_option s \<longleftrightarrow> s \<in> set dns_flags \<or>
     (case cut_at CHR '':'' s of
        None \<Rightarrow> False
      | Some (key, value) \<Rightarrow> key \<in> {''ndots'', ''timeout'', ''attempts''} \<and> value \<noteq> '''' \<and> list_all is_digit value)"

definition is_label_char :: "char \<Rightarrow> bool" where
  "is_label_char c \<longleftrightarrow> is_lower c \<or> is_upper c \<or> is_digit c \<or> c = CHR ''_''"

text \<open>The regular expression \<open>dnsSearchDomain\<close>: a final dot is optional and does not count.\<close>

definition dns_search_domain :: "string \<Rightarrow> bool" where
  "dns_search_domain s \<longleftrightarrow>
     (let t = (if s \<noteq> '''' \<and> last s = CHR ''.'' then butlast s else s)
      in t \<noteq> '''' \<and> is_label_char (hd t) \<and> is_label_char (last t) \<and>
         list_all (\<lambda>c. is_label_char c \<or> c = CHR ''.'' \<or> c = CHR ''-'') t)"

definition network_search_domain :: "string \<Rightarrow> bool" where
  "network_search_domain value \<longleftrightarrow> value = ''.'' \<or> length value \<le> 253 \<and> dns_search_domain value"

text \<open>Whether a slirp4netns option is invalid, and whether it is beyond the model.\<close>

definition slirp_option :: "string \<Rightarrow> bool \<times> bool" where
  "slirp_option text =
     (case cut_at CHR ''='' text of
        None \<Rightarrow> (True, False)
      | Some (key, value) \<Rightarrow>
          if key = ''cidr'' then (case parse_cidr value of None \<Rightarrow> True | Some ip \<Rightarrow> \<not> is_to4 ip, False)
          else if key = ''port_handler'' then (value \<noteq> ''slirp4netns'' \<and> value \<noteq> ''rootlesskit'', False)
          else if key = ''allow_host_loopback'' \<or> key = ''enable_ipv6'' then (value \<noteq> ''true'' \<and> value \<noteq> ''false'', False)
          else if key = ''mtu'' then (case atoi value of None \<Rightarrow> True | Some mtu \<Rightarrow> mtu < 68, False)
          else if key = ''outbound_addr'' \<or> key = ''outbound_addr6'' then
            (case parse_ip value of
               None \<Rightarrow> (False, True)
             | Some ip \<Rightarrow> if (key = ''outbound_addr'') = is_to4 ip then (False, False) else (False, True))
          else (True, False))"

definition dnsServersField :: string where "dnsServersField = ''containers.dns_servers''"
definition dnsOptionsField :: string where "dnsOptionsField = ''containers.dns_options''"
definition dnsSearchesField :: string where "dnsSearchesField = ''containers.dns_searches''"
definition slirpOptionsField :: string where "slirpOptionsField = ''engine.network_cmd_options''"

definition classify_entry :: "string \<Rightarrow> string \<Rightarrow> go_error + bool \<times> bool" where
  "classify_entry field text =
     (if field = dnsServersField then Inr (parse_ip text = None, False)
      else if field = dnsSearchesField then Inr (\<not> network_search_domain text, False)
      else if field = dnsOptionsField then Inr (False, \<not> dns_option text)
      else if field = slirpOptionsField then Inr (slirp_option text)
      else if \<not> config_path text then Inl ErrConfigFieldUnsupported
      else Inr (False, False))"

text \<open>One round of the loop over the items, with the index of the next string.\<close>

definition project_entry :: "string \<Rightarrow> toml_value \<Rightarrow> nat \<times> list_layer \<Rightarrow> go_error + nat \<times> list_layer" where
  "project_entry field item = (\<lambda>(i, l).
     case item of
       TString text \<Rightarrow>
         (case classify_entry field text of
            Inl err \<Rightarrow> Inl err
          | Inr (invalid, unmodeled) \<Rightarrow>
              Inr (i + 1, l\<lparr>ll_invalid_indices := ll_invalid_indices l @ (if invalid then [i] else []),
                ll_unmodeled_indices := ll_unmodeled_indices l @ (if unmodeled then [i] else []),
                ll_values := (ll_values l)[i := if invalid \<or> unmodeled then '''' else text]\<rparr>))
     | _ \<Rightarrow> Inr (i, l))"

definition parse_network_list :: "toml_value \<Rightarrow> string \<Rightarrow> go_error + list_layer" where
  "parse_network_list value field =
     (case parse_config_list value True ''env'' of
        Inl err \<Rightarrow> Inl err
      | Inr l \<Rightarrow>
          (case value of
             TArray items \<Rightarrow>
               (case fold_res (project_entry field) items (0, l) of Inl err \<Rightarrow> Inl err | Inr (_, l') \<Rightarrow> Inr l')
           | _ \<Rightarrow> Inl ErrConfigFieldInvalid))"

section \<open>Fields and sections\<close>

definition networkBackendField :: string where "networkBackendField = ''network.network_backend''"
definition rootlessCommandField :: string where "rootlessCommandField = ''network.default_rootless_network_cmd''"

definition parse_network_string :: "network_layer \<Rightarrow> string \<Rightarrow> toml_value \<Rightarrow> bool \<Rightarrow> go_error + network_layer" where
  "parse_network_string layer field value modern =
     (if field = ''network.firewall_driver'' \<and> \<not> modern
      then Inr (layer\<lparr>nl_unprojected_field_count := nl_unprojected_field_count layer + 1\<rparr>)
      else case value of
        TString text \<Rightarrow>
          let store = (\<lambda>invalid. Inr (layer\<lparr>nl_strings := AList.update field
                \<lparr>cs_invalid = invalid, cs_value = (if invalid then '''' else text), cs_source_id = ''''\<rparr> (nl_strings layer)\<rparr>))
          in if field = networkBackendField then store (text \<noteq> '''' \<and> text \<noteq> ''netavark'' \<and> text \<noteq> ''cni'')
             else if field = rootlessCommandField then store (text \<noteq> '''' \<and> text \<noteq> ''pasta'' \<and> text \<noteq> ''slirp4netns'')
             else if text \<noteq> '''' \<and> (if field = ''network.firewall_driver'' then \<not> runtime_name text else \<not> config_path text)
             then Inl ErrConfigFieldUnsupported
             else store False
      | _ \<Rightarrow> Inl ErrConfigFieldInvalid)"

definition network_string_fields :: "string list" where
  "network_string_fields = [networkBackendField, rootlessCommandField, ''network.network_config_dir'', ''engine.network_cmd_path'',
     ''network.firewall_driver'']"

definition network_list_fields :: "string list" where
  "network_list_fields = [dnsServersField, dnsOptionsField, dnsSearchesField, slirpOptionsField, ''network.cni_plugin_dirs'',
     ''network.netavark_plugin_dirs'']"

definition parse_network_field :: "network_layer \<Rightarrow> string \<Rightarrow> toml_value \<Rightarrow> bool \<Rightarrow> go_error + network_layer" where
  "parse_network_field layer field value modern =
     (if field \<in> set network_string_fields then parse_network_string layer field value modern
      else if field = ''network.dns_bind_port'' then
        (case value of
           TInt port \<Rightarrow>
             if port < 0 \<or> port > 65535 then Inl ErrConfigFieldInvalid
             else Inr (layer\<lparr>nl_dns_bind_port := Some (word_of_int port)\<rparr>)
         | _ \<Rightarrow> Inl ErrConfigFieldInvalid)
      else if field = ''network.pasta_options'' then
        (case parse_config_list value True ''env'' of
           Inl err \<Rightarrow> Inl err
         | Inr l \<Rightarrow> Inr (layer\<lparr>nl_pasta_options := Some l\<rparr>))
      else if field \<in> set network_list_fields then
        (case parse_network_list value field of
           Inl err \<Rightarrow> Inl err
         | Inr l \<Rightarrow> Inr (layer\<lparr>nl_lists := AList.update field l (nl_lists layer)\<rparr>))
      else if has_prefix field ''network.''
      then Inr (layer\<lparr>nl_unprojected_field_count := nl_unprojected_field_count layer + 1\<rparr>)
      else Inr layer)"

definition parse_network_section :: "toml_table \<Rightarrow> bool \<Rightarrow> string \<Rightarrow> network_layer \<Rightarrow> go_error + network_layer" where
  "parse_network_section document modern sect layer =
     (case map_of document sect of
        None \<Rightarrow> Inr layer
      | Some (TTable members) \<Rightarrow>
          fold_res (\<lambda>(key, value) layer. case parse_network_field layer (sect @ ''.'' @ key) value modern of
              Inl err \<Rightarrow> Inl (field_error err (sect @ ''.'' @ key))
            | Inr layer' \<Rightarrow> Inr layer') (sorted_fields members) layer
      | Some _ \<Rightarrow> Inl (field_error ErrConfigFieldInvalid sect))"

definition parse_network :: "(string \<Rightarrow> go_error + toml_table) \<Rightarrow> string \<Rightarrow> bool \<Rightarrow> go_error + network_layer" where
  "parse_network parse_toml data modern =
     (case parse_toml data of
        Inl err \<Rightarrow> Inl err
      | Inr document \<Rightarrow>
          fold_res (parse_network_section document modern) [''network'', ''containers'', ''engine''] empty_network_layer)"

section \<open>Merge\<close>

definition merge_network_strings :: "(string \<times> config_string) list \<Rightarrow> (string \<times> config_string) list \<Rightarrow> string \<Rightarrow>
    (string \<times> config_string) list" where
  "merge_network_strings previous layer source =
     foldl (\<lambda>out (key, value). AList.update key (value\<lparr>cs_source_id := source\<rparr>) out) previous layer"

definition merge_network_lists :: "(string \<times> config_list) list \<Rightarrow> (string \<times> list_layer) list \<Rightarrow> string \<Rightarrow>
    (string \<times> config_list) list" where
  "merge_network_lists previous layer source =
     foldl (\<lambda>out (key, l). AList.update key
         (overlay_list (case map_of out key of None \<Rightarrow> fresh_list | Some p \<Rightarrow> p) l source) out) previous layer"

definition merge_network :: "network_configuration \<Rightarrow> network_layer \<Rightarrow> string \<Rightarrow> network_configuration" where
  "merge_network previous layer source =
     \<lparr>n_strings = merge_network_strings (n_strings previous) (nl_strings layer) source,
      n_lists = merge_network_lists (n_lists previous) (nl_lists layer) source,
      n_dns_bind_port = (case nl_dns_bind_port layer of
          None \<Rightarrow> n_dns_bind_port previous
        | Some v \<Rightarrow> Some \<lparr>cu_value = v, cu_source_id = source\<rparr>),
      n_pasta_options = merge_redacted (n_pasta_options previous) (nl_pasta_options layer) source,
      n_helper_paths = [], n_engine_source_id = '''',
      n_unprojected_field_count = n_unprojected_field_count previous + nl_unprojected_field_count layer\<rparr>"

end
