(* ===== verification/Config_Storage.thy ===== *)
theory Config_Storage
  imports Config_Values Go_Net
begin

text \<open>
  A storage.conf document (\<open>internal/config/storage.go\<close>, \<open>storage_paths.go\<close>): the projection of one
  decoded document, its conversion to a configuration, and the expansion of storage paths.
\<close>

record storage_layer =
  sl_invalid_options :: "string list"
  sl_driver :: "string option"
  sl_run_root :: "string option"
  sl_graph_root :: "string option"
  sl_rootless_storage_path :: "string option"
  sl_image_store :: "string option"
  sl_driver_priority :: "list_layer option"
  sl_additional_image_stores :: "list_layer option"
  sl_additional_layer_stores :: "list_layer option"
  sl_transient_store :: "bool option"
  sl_options :: "(string \<times> string) list"
  sl_unprojected_field_count :: nat

definition empty_storage_layer :: storage_layer where
  "empty_storage_layer = \<lparr>sl_invalid_options = [], sl_driver = None, sl_run_root = None, sl_graph_root = None,
     sl_rootless_storage_path = None, sl_image_store = None, sl_driver_priority = None,
     sl_additional_image_stores = None, sl_additional_layer_stores = None, sl_transient_store = None,
     sl_options = [], sl_unprojected_field_count = 0\<rparr>"

section \<open>Values\<close>

definition storage_path :: "string \<Rightarrow> bool \<Rightarrow> bool" where
  "storage_path value expansion \<longleftrightarrow>
     \<not> contains_control value \<and> CHR ''~'' \<notin> set value \<and>
     (if expansion then has_prefix value ''$'' \<or> has_prefix value ''/'' else config_path value)"

text \<open>One part of a store entry: no option but the \<open>:ref\<close> of a layer store.\<close>

definition store_part :: "string \<Rightarrow> string \<Rightarrow> bool" where
  "store_part field part \<longleftrightarrow>
     (let name = (if field = ''additionallayerstores'' then trim_suffix part '':ref'' else part)
      in config_path name \<and> CHR '':'' \<notin> set name)"

definition storage_item :: "string \<Rightarrow> toml_value \<Rightarrow> list_layer \<Rightarrow> go_error + list_layer" where
  "storage_item field item l =
     (case item of
        TString text \<Rightarrow>
          if (if field = ''driver_priority'' then runtime_name text
              else list_all (store_part field) (split_on CHR '','' text))
          then Inr (l\<lparr>ll_values := ll_values l @ [text]\<rparr>)
          else Inl ErrConfigFieldUnsupported
      | _ \<Rightarrow> Inl ErrConfigFieldInvalid)"

definition storage_list :: "toml_value \<Rightarrow> string \<Rightarrow> go_error + list_layer" where
  "storage_list value field =
     (case value of
        TArray items \<Rightarrow>
          if length items > MaxConfigList then Inl ErrConfigLimit
          else fold_res (storage_item field) items empty_list
      | _ \<Rightarrow> Inl ErrConfigFieldInvalid)"

section \<open>Options\<close>

definition recognized_storage_option :: "string \<Rightarrow> string \<Rightarrow> bool" where
  "recognized_storage_option prefix key =
     (if prefix = ''vfs.'' then key = ''ignore_chown_errors''
      else if key \<in> {''mount_program'', ''ignore_chown_errors'', ''skip_mount_home''} then True
      else if key \<in> {''force_mask'', ''use_composefs''} then prefix = ''overlay.''
      else False)"

definition invalid_option :: "string \<Rightarrow> storage_layer \<Rightarrow> storage_layer" where
  "invalid_option key layer = layer\<lparr>sl_invalid_options := List.insert key (sl_invalid_options layer)\<rparr>"

definition set_option :: "string \<Rightarrow> string \<Rightarrow> storage_layer \<Rightarrow> storage_layer" where
  "set_option key value layer = layer\<lparr>sl_options := AList.update key value (sl_options layer)\<rparr>"

definition option_value_valid :: "string \<Rightarrow> string \<Rightarrow> bool" where
  "option_value_valid key text \<longleftrightarrow>
     (if key = ''force_mask'' then text = ''shared'' \<or> text = ''private'' \<or> parse_octal32 text \<noteq> None
      else parse_bool text \<noteq> None)"

definition parse_named_option :: "string \<Rightarrow> string \<Rightarrow> toml_value \<Rightarrow> storage_layer \<Rightarrow> go_error + storage_layer" where
  "parse_named_option prefix key value layer =
     (if \<not> recognized_storage_option prefix key
      then Inr (layer\<lparr>sl_unprojected_field_count := sl_unprojected_field_count layer + 1\<rparr>)
      else case value of
        TString text \<Rightarrow>
          if text = '''' then Inr (set_option (prefix @ key) text layer)
          else if key = ''mount_program'' then
            (if config_path text then Inr (set_option (prefix @ key) text layer) else Inl ErrConfigFieldUnsupported)
          else if option_value_valid key text then Inr (set_option (prefix @ key) text layer)
          else Inr (set_option (prefix @ key) '''' (invalid_option (prefix @ key) layer))
      | _ \<Rightarrow> Inl ErrConfigFieldInvalid)"

text \<open>
  The recursion is one level deep: the tables \<open>overlay\<close> and \<open>vfs\<close> are parsed under their prefix,
  and there only named options are recognized.
\<close>

definition parse_driver_options :: "string \<Rightarrow> toml_value \<Rightarrow> storage_layer \<Rightarrow> go_error + storage_layer" where
  "parse_driver_options prefix value layer =
     (case value of
        TTable members \<Rightarrow>
          fold_res (\<lambda>(key, value). parse_named_option prefix key value) (sorted_fields members) layer
      | _ \<Rightarrow> Inl ErrConfigFieldInvalid)"

definition parse_force_mask :: "toml_value \<Rightarrow> storage_layer \<Rightarrow> go_error + storage_layer" where
  "parse_force_mask value layer =
     (case value of
        TInt mode \<Rightarrow>
          if mode < 0 then Inl ErrConfigFieldInvalid
          else if mode > 4095 then Inl ErrConfigFieldUnsupported
          else Inr (set_option ''force_mask'' (octal_string (nat mode)) layer)
      | _ \<Rightarrow> Inl ErrConfigFieldInvalid)"

definition parse_storage_option :: "string \<Rightarrow> toml_value \<Rightarrow> storage_layer \<Rightarrow> go_error + storage_layer" where
  "parse_storage_option key value layer =
     (if key = ''overlay'' \<or> key = ''vfs'' then parse_driver_options (key @ ''.'') value layer
      else if key = ''additionalimagestores'' \<or> key = ''additionallayerstores'' then
        (case storage_list value key of
           Inl err \<Rightarrow> Inl err
         | Inr l \<Rightarrow> Inr (if key = ''additionalimagestores'' then layer\<lparr>sl_additional_image_stores := Some l\<rparr>
                         else layer\<lparr>sl_additional_layer_stores := Some l\<rparr>))
      else if key = ''force_mask'' then parse_force_mask value layer
      else parse_named_option '''' key value layer)"

definition parse_storage_options :: "toml_value \<Rightarrow> storage_layer \<Rightarrow> go_error + storage_layer" where
  "parse_storage_options value layer =
     (case value of
        TTable members \<Rightarrow> fold_res (\<lambda>(key, value). parse_storage_option key value) (sorted_fields members) layer
      | _ \<Rightarrow> Inl ErrConfigFieldInvalid)"

section \<open>Fields\<close>

definition store_storage_string :: "string \<Rightarrow> string \<Rightarrow> storage_layer \<Rightarrow> storage_layer" where
  "store_storage_string key text layer =
     (if key = ''driver'' then layer\<lparr>sl_driver := Some text\<rparr>
      else if key = ''runroot'' then layer\<lparr>sl_run_root := Some text\<rparr>
      else if key = ''graphroot'' then layer\<lparr>sl_graph_root := Some text\<rparr>
      else if key = ''rootless_storage_path'' then layer\<lparr>sl_rootless_storage_path := Some text\<rparr>
      else layer\<lparr>sl_image_store := Some text\<rparr>)"

definition parse_storage_field :: "string \<Rightarrow> toml_value \<Rightarrow> storage_layer \<Rightarrow> go_error + storage_layer" where
  "parse_storage_field key value layer =
     (if key \<in> {''driver'', ''runroot'', ''graphroot'', ''rootless_storage_path'', ''imagestore''} then
        (case value of
           TString text \<Rightarrow>
             if text \<noteq> '''' \<and> \<not> (if key = ''driver'' then runtime_name text else storage_path text (key \<noteq> ''imagestore''))
             then Inl ErrConfigFieldUnsupported
             else Inr (store_storage_string key text layer)
         | _ \<Rightarrow> Inl ErrConfigFieldInvalid)
      else if key = ''driver_priority'' then
        (case storage_list value ''driver_priority'' of
           Inl err \<Rightarrow> Inl err
         | Inr l \<Rightarrow> Inr (layer\<lparr>sl_driver_priority := Some l\<rparr>))
      else if key = ''transient_store'' then
        (case value of TBool flag \<Rightarrow> Inr (layer\<lparr>sl_transient_store := Some flag\<rparr>) | _ \<Rightarrow> Inl ErrConfigFieldInvalid)
      else if key = ''options'' then parse_storage_options value layer
      else Inr (layer\<lparr>sl_unprojected_field_count := sl_unprojected_field_count layer + 1\<rparr>))"

text \<open>
  Without the composefs field, \<open>use_composefs\<close> is deleted from the decoded overlay table and counted
  as not projected.
\<close>

definition drop_composefs :: "toml_table \<Rightarrow> toml_table \<times> nat" where
  "drop_composefs members =
     (case map_of members ''options'' of
        Some (TTable options) \<Rightarrow>
          (case map_of options ''overlay'' of
             Some (TTable overlay) \<Rightarrow>
               if map_of overlay ''use_composefs'' = None then (members, 0)
               else (AList.update ''options'' (TTable (AList.update ''overlay''
                       (TTable (AList.delete ''use_composefs'' overlay)) options)) members, 1)
           | _ \<Rightarrow> (members, 0))
      | _ \<Rightarrow> (members, 0))"

definition parse_storage_members :: "toml_table \<Rightarrow> bool \<Rightarrow> go_error + storage_layer" where
  "parse_storage_members members composefs =
     (let (members', dropped) = (if composefs then (members, 0) else drop_composefs members)
      in fold_res (\<lambda>(key, value) layer. case parse_storage_field key value layer of
             Inl err \<Rightarrow> Inl (field_error err (''storage.'' @ key))
           | Inr layer' \<Rightarrow> Inr layer') (sorted_fields members')
           (empty_storage_layer\<lparr>sl_unprojected_field_count := dropped\<rparr>))"

definition parse_storage_for_fields :: "(string \<Rightarrow> go_error + toml_table) \<Rightarrow> string \<Rightarrow> bool \<Rightarrow> go_error + storage_layer" where
  "parse_storage_for_fields parse_toml data composefs =
     (case parse_toml data of
        Inl err \<Rightarrow> Inl err
      | Inr document \<Rightarrow>
          (case map_of document ''storage'' of
             None \<Rightarrow> Inr empty_storage_layer
           | Some (TTable members) \<Rightarrow> parse_storage_members members composefs
           | Some _ \<Rightarrow> Inl (field_error ErrConfigFieldInvalid ''storage'')))"

definition parse_storage :: "(string \<Rightarrow> go_error + toml_table) \<Rightarrow> string \<Rightarrow> go_error + storage_layer" where
  "parse_storage parse_toml data = parse_storage_for_fields parse_toml data True"

definition project_storage :: "storage_layer \<Rightarrow> string \<Rightarrow> storage_configuration" where
  "project_storage layer source =
     \<lparr>st_problems = [], st_mount_program = None,
      st_driver = merge_string None (sl_driver layer) source,
      st_driver_priority = merge_list None (sl_driver_priority layer) source,
      st_run_root = merge_string None (sl_run_root layer) source,
      st_graph_root = merge_string None (sl_graph_root layer) source,
      st_rootless_storage_path = merge_string None (sl_rootless_storage_path layer) source,
      st_image_store = merge_string None (sl_image_store layer) source,
      st_transient_store = map_option (\<lambda>v. \<lparr>cb_value = v, cb_source_id = source\<rparr>) (sl_transient_store layer),
      st_additional_image_stores = merge_list None (sl_additional_image_stores layer) source,
      st_additional_layer_stores = merge_list None (sl_additional_layer_stores layer) source,
      st_options = map (\<lambda>(key, value). (key, \<lparr>cs_invalid = key \<in> set (sl_invalid_options layer), cs_value = value,
        cs_source_id = source\<rparr>)) (sl_options layer),
      st_unprojected_field_count = sl_unprojected_field_count layer\<rparr>"

section \<open>Expansion of storage paths (storage\_paths.go)\<close>

text \<open>\<open>strings.ReplaceAll\<close> with a non-empty pattern.\<close>

function replace_all :: "string \<Rightarrow> string \<Rightarrow> string \<Rightarrow> string" where
  "replace_all old new [] = []"
| "replace_all old new (c # s) =
     (if old \<noteq> '''' \<and> has_prefix (c # s) old then new @ replace_all old new (drop (length old) (c # s))
      else c # replace_all old new s)"
  by pat_completeness auto
termination
  by (relation "measure (\<lambda>(old, new, s). length s)") auto

text \<open>
  \<open>os.Expand\<close>: the name after a dollar sign and the bytes it takes. An empty name that takes bytes is
  bad syntax, which is dropped; one that takes none leaves the dollar sign.
\<close>

definition is_shell_special :: "char \<Rightarrow> bool" where
  "is_shell_special c \<longleftrightarrow>
     is_digit c \<or> c \<in> {CHR ''*'', CHR ''#'', CHR ''$'', CHR ''@'', CHR ''!'', CHR ''?'', CHR ''-''}"

definition is_alpha_num :: "char \<Rightarrow> bool" where
  "is_alpha_num c \<longleftrightarrow> c = CHR ''_'' \<or> is_digit c \<or> is_lower c \<or> is_upper c"

definition shell_name :: "string \<Rightarrow> string \<times> nat" where
  "shell_name s =
     (case s of
        [] \<Rightarrow> ('''', 0)
      | c # t \<Rightarrow>
          if c = CHR ''{'' then
            if length s > 2 \<and> is_shell_special (s ! 1) \<and> s ! 2 = CHR ''}'' then ([s ! 1], 3)
            else if CHR ''}'' \<in> set t then
              (let name = takeWhile (\<lambda>d. d \<noteq> CHR ''}'') t in (name, length name + 2))
            else ('''', 1)
          else if is_shell_special c then ([c], 1)
          else (let name = takeWhile is_alpha_num s in (name, length name)))"

function os_expand :: "(string \<Rightarrow> string) \<Rightarrow> string \<Rightarrow> string" where
  "os_expand mapping [] = []"
| "os_expand mapping (c # s) =
     (if c \<noteq> CHR ''$'' \<or> s = [] then c # os_expand mapping s
      else (if fst (shell_name s) \<noteq> '''' then mapping (fst (shell_name s))
            else if snd (shell_name s) > 0 then '''' else [c]) @
           os_expand mapping (drop (snd (shell_name s)) s))"
  by pat_completeness auto
termination
  by (relation "measure (\<lambda>(mapping, s). length s)") auto

definition expand_storage_path :: "string \<Rightarrow> (string \<times> string) list \<Rightarrow> 32 word \<Rightarrow> go_error + string" where
  "expand_storage_path value environment u =
     (let expanded = os_expand (\<lambda>key. case map_of environment key of None \<Rightarrow> '''' | Some v \<Rightarrow> v)
            (replace_all ''$UID'' (decimal_string (unat u)) value)
      in if ''..'' \<in> set (split_on CHR ''/'' expanded) then Inl ErrConfigFieldUnsupported
         else if \<not> config_path expanded then Inl ErrConfigFieldUnsupported
         else Inr (path_clean expanded))"

end
