(* ===== verification/Config_Redaction.thy ===== *)
theory Config_Redaction
  imports Config_Engine Config_Network Config_Storage
begin

text \<open>
  What a configuration may retain, said character by character and not with the recognizers of the parsers
  (\<open>configPath\<close>, \<open>configListPath\<close>, \<open>storagePath\<close> of \<open>internal/config\<close>), and the text that must not matter at all: two
  documents that differ only in the environment and in the pasta options have the same projection.
\<close>

section \<open>Text that may be retained\<close>

definition printable :: "string \<Rightarrow> bool" where
  "printable s \<longleftrightarrow> (\<forall>c\<in>set s. 32 \<le> (of_char c :: nat) \<and> (of_char c :: nat) \<noteq> 127) \<and>
     (\<forall>(c, d)\<in>set (zip s (tl s)). \<not> ((of_char c :: nat) = 194 \<and> 128 \<le> (of_char d :: nat) \<and> (of_char d :: nat) < 160))"

definition literal_path :: "string \<Rightarrow> bool" where
  "literal_path p \<longleftrightarrow> p \<noteq> '''' \<and> hd p = CHR ''/'' \<and> (\<forall>c\<in>set p. c \<noteq> CHR ''$'' \<and> c \<noteq> CHR ''~'') \<and> printable p"

text \<open>Only a directory of helper programs may name the directory of the program.\<close>

definition helper_directory :: "string \<Rightarrow> bool" where
  "helper_directory v \<longleftrightarrow> literal_path v \<or> v = ''$BINDIR'' \<or> (\<exists>rest. v = ''$BINDIR'' @ rest \<and> literal_path rest)"

lemma printable_Nil: "printable []"
  by (simp add: printable_def)

lemma printable_Cons:
  "printable (c # s) \<longleftrightarrow> (32 \<le> (of_char c :: nat) \<and> (of_char c :: nat) \<noteq> 127) \<and>
     (case s of [] \<Rightarrow> True | d # _ \<Rightarrow> \<not> ((of_char c :: nat) = 194 \<and> 128 \<le> (of_char d :: nat) \<and> (of_char d :: nat) < 160)) \<and>
     printable s"
  unfolding printable_def by (cases s) (simp_all only: list.set list.case zip_Cons_Cons zip.simps(1) list.sel ball_simps prod.case simp_thms conj_ac)

lemma contains_control_iff: "\<not> contains_control s \<longleftrightarrow> printable s"
proof (induction s)
  case (Cons c s)
  then show ?case by (cases s) (simp_all only: contains_control.simps printable_Cons list.case de_Morgan_disj de_Morgan_conj not_less simp_thms conj_ac)
qed (simp add: printable_def)

lemma printable_append: "printable (s @ t) \<Longrightarrow> printable t"
  by (induction s) (simp_all only: append_Nil append_Cons printable_Cons)

lemma config_path_literal: "config_path p \<longleftrightarrow> literal_path p"
proof -
  have "path_is_abs p \<longleftrightarrow> p \<noteq> '''' \<and> hd p = CHR ''/''" by (cases p) (auto simp: path_is_abs_def has_prefix_def)
  then show ?thesis unfolding config_path_def literal_path_def contains_control_iff by blast
qed

lemma config_list_path_literal:
  assumes "config_list_path v field"
  shows "if field = ''helper_binaries_dir'' then helper_directory v else literal_path v"
proof (cases "field = ''helper_binaries_dir'' \<and> (v = ''$BINDIR'' \<or> has_prefix v ''$BINDIR/'')")
  case True
  then have path: "literal_path (''/binary'' @ trim_prefix v ''$BINDIR'')"
    using assms by (simp add: config_list_path_def config_path_literal)
  show ?thesis
  proof (cases "v = ''$BINDIR''")
    case False
    then obtain r where v: "v = ''$BINDIR/'' @ r" using True by (auto elim: has_prefixE)
    moreover have "trim_prefix (''$BINDIR'' @ CHR ''/'' # r) ''$BINDIR'' = CHR ''/'' # r" by (rule trim_prefix_append)
    ultimately have "literal_path (''/binary'' @ (CHR ''/'' # r))" using path by simp
    then have "literal_path (CHR ''/'' # r)"
      using printable_append [of "''/binary''" "CHR ''/'' # r"] by (auto simp: literal_path_def)
    then show ?thesis using True v by (auto simp: helper_directory_def intro!: exI [of _ "CHR ''/'' # r"])
  qed (use True in \<open>simp add: helper_directory_def\<close>)
next
  case False
  then have "literal_path v" using assms by (auto simp: config_list_path_def config_path_literal)
  then show ?thesis by (simp add: helper_directory_def)
qed

text \<open>An entry of a list of network settings: what its field is meant to hold.\<close>

definition name_text :: "string \<Rightarrow> bool" where
  "name_text s \<longleftrightarrow> s \<noteq> '''' \<and>
     (\<forall>c\<in>set s. is_lower c \<or> is_upper c \<or> is_digit c \<or> c = CHR ''_'' \<or> c = CHR ''.'' \<or> c = CHR ''-'')"

definition dns_setting :: "string \<Rightarrow> bool" where
  "dns_setting s \<longleftrightarrow> s \<in> set dns_flags \<or>
     (\<exists>n. n \<noteq> '''' \<and> (\<forall>c\<in>set n. is_digit c) \<and> (s = ''ndots:'' @ n \<or> s = ''timeout:'' @ n \<or> s = ''attempts:'' @ n))"

definition slirp_value :: "string \<Rightarrow> string \<Rightarrow> bool" where
  "slirp_value key v \<longleftrightarrow>
     key = ''cidr'' \<and> (\<exists>ip. parse_cidr v = Some ip \<and> is_to4 ip) \<or>
     key = ''port_handler'' \<and> v \<in> {''slirp4netns'', ''rootlesskit''} \<or>
     key \<in> {''allow_host_loopback'', ''enable_ipv6''} \<and> v \<in> {''true'', ''false''} \<or>
     key = ''mtu'' \<and> (\<exists>n. atoi v = Some n \<and> 68 \<le> n) \<or>
     key = ''outbound_addr'' \<and> (\<exists>ip. parse_ip v = Some ip \<and> is_to4 ip) \<or>
     key = ''outbound_addr6'' \<and> (\<exists>ip. parse_ip v = Some ip \<and> \<not> is_to4 ip)"

definition slirp_setting :: "string \<Rightarrow> bool" where
  "slirp_setting s \<longleftrightarrow> (\<exists>key v. s = key @ ''='' @ v \<and> slirp_value key v)"

definition network_entry :: "string \<Rightarrow> string \<Rightarrow> bool" where
  "network_entry field s \<longleftrightarrow>
     (if field = dnsServersField then parse_ip s \<noteq> None
      else if field = dnsSearchesField then name_text s \<and> length s \<le> 253
      else if field = dnsOptionsField then dns_setting s
      else if field = slirpOptionsField then slirp_setting s
      else literal_path s)"

lemma search_domain_text: "network_search_domain s \<Longrightarrow> name_text s \<and> length s \<le> 253"
proof -
  assume domain: "network_search_domain s"
  show ?thesis
  proof (cases "s = ''.''")
    case False
    define t where "t = (if s \<noteq> '''' \<and> last s = CHR ''.'' then butlast s else s)"
    have t: "t \<noteq> ''''" "list_all (\<lambda>c. is_label_char c \<or> c = CHR ''.'' \<or> c = CHR ''-'') t" "length s \<le> 253"
      using domain False by (auto simp: network_search_domain_def dns_search_domain_def t_def [symmetric] Let_def)
    have "s = t \<or> s = t @ ''.''" using append_butlast_last_id [of s, symmetric] unfolding t_def by presburger
    then have "set s \<subseteq> insert CHR ''.'' (set t)" "s \<noteq> ''''" using t(1) by auto
    then show ?thesis using t(2,3) by (fastforce simp: name_text_def list_all_iff is_label_char_def)
  qed (simp add: name_text_def)
qed

lemma dns_option_text: "dns_option s \<Longrightarrow> dns_setting s"
  by (auto simp: dns_option_def dns_setting_def cut_at_Some list_all_iff split: option.splits)

lemma slirp_option_text: "slirp_option s = (False, False) \<Longrightarrow> slirp_setting s"
proof -
  assume ok: "slirp_option s = (False, False)"
  then obtain key v where cut: "cut_at CHR ''='' s = Some (key, v)" by (cases "cut_at CHR ''='' s") (auto simp: slirp_option_def)
  then have s: "s = key @ CHR ''='' # v" by (simp add: cut_at_Some)
  note ok = ok [unfolded slirp_option_def cut option.case prod.case]
  show ?thesis
  proof (cases "key \<in> {''cidr'', ''port_handler'', ''allow_host_loopback'', ''enable_ipv6'', ''mtu'', ''outbound_addr'', ''outbound_addr6''}")
    case True
    then consider "key = ''cidr''" | "key = ''port_handler''" | "key = ''allow_host_loopback''" | "key = ''enable_ipv6''"
      | "key = ''mtu''" | "key = ''outbound_addr''" | "key = ''outbound_addr6''" unfolding insert_iff empty_iff by satx
    then have "slirp_value key v"
    proof cases
      case 1 show ?thesis using ok unfolding 1 slirp_value_def by (simp split: option.splits)
    next
      case 2 show ?thesis using ok unfolding 2 slirp_value_def by auto
    next
      case 3 show ?thesis using ok unfolding 3 slirp_value_def by auto
    next
      case 4 show ?thesis using ok unfolding 4 slirp_value_def by auto
    next
      case 5 show ?thesis using ok unfolding 5 slirp_value_def by (simp split: option.splits)
    next
      case 6 show ?thesis using ok unfolding 6 slirp_value_def by (simp split: option.splits if_splits)
    next
      case 7 show ?thesis using ok unfolding 7 slirp_value_def by (simp split: option.splits if_splits)
    qed
    then show ?thesis using s unfolding slirp_setting_def by auto
  qed (use ok in simp)
qed

lemma classified_text: "classify_entry field s = Inr (False, False) \<Longrightarrow> network_entry field s"
  by (auto simp: classify_entry_def network_entry_def search_domain_text dns_option_text slirp_option_text config_path_literal
      split: if_splits)

section \<open>Text that must not matter\<close>

text \<open>A document without the text of the environment and of the pasta options.\<close>

definition hide_item :: "toml_value \<Rightarrow> toml_value" where
  "hide_item item = (case item of TString _ \<Rightarrow> TString '''' | _ \<Rightarrow> item)"

definition hide_list :: "toml_value \<Rightarrow> toml_value" where
  "hide_list v = (case v of TArray items \<Rightarrow> TArray (map hide_item items) | _ \<Rightarrow> v)"

definition map_field :: "string \<Rightarrow> (toml_value \<Rightarrow> toml_value) \<Rightarrow> toml_table \<Rightarrow> toml_table" where
  "map_field key f = map (\<lambda>(k, v). (k, if k = key then f v else v))"

definition in_table :: "(toml_table \<Rightarrow> toml_table) \<Rightarrow> toml_value \<Rightarrow> toml_value" where
  "in_table f v = (case v of TTable members \<Rightarrow> TTable (f members) | _ \<Rightarrow> v)"

definition hidden :: "toml_table \<Rightarrow> toml_table" where
  "hidden document = map_field ''engine'' (in_table (map_field ''env'' hide_list))
     (map_field ''network'' (in_table (map_field ''pasta_options'' hide_list)) document)"

lemma map_of_map_field: "map_of (map_field key f m) k = map_option (\<lambda>v. if k = key then f v else v) (map_of m k)"
  by (induction m) (auto simp: map_field_def)

lemma sorted_map_field: "sorted_fields (map_field key f m) = map_field key f (sorted_fields m)"
proof -
  have insert: "insort_key fst ((\<lambda>(k, v). (k, if k = key then f v else v)) x) (map_field key f xs) = map_field key f (insort_key fst x xs)"
    for x xs by (induction xs) (auto simp: map_field_def split: prod.splits)
  show ?thesis
    unfolding sorted_fields_def sort_key_def
    by (induction m) (simp_all add: map_field_def insert [unfolded map_field_def])
qed

lemma fold_res_map_field:
  assumes "\<And>v s. g (key, f v) s = g (key, v) s"
  shows "fold_res g (map_field key f m) s = fold_res g m s"
proof (induction m arbitrary: s)
  case (Cons x m)
  obtain k v where x: "x = (k, v)" by (cases x)
  have "map_field key f (x # m) = (k, if k = key then f v else v) # map_field key f m" by (simp add: map_field_def x)
  moreover have "g (k, if k = key then f v else v) s = g (k, v) s" using assms by simp
  ultimately show ?case using Cons by (cases "g (k, v) s") (simp_all add: x)
qed (simp add: map_field_def)

lemma parse_hidden_items: "fold_res (parse_item attributed ''env'') (map hide_item items) l = fold_res (parse_item attributed ''env'') items l"
proof (induction items arbitrary: l)
  case (Cons i items)
  have "parse_item attributed ''env'' (hide_item i) l = parse_item attributed ''env'' i l"
    by (cases i) (simp_all add: parse_item_def hide_item_def)
  then show ?case using Cons by (cases "parse_item attributed ''env'' i l") simp_all
qed simp

lemma parse_hidden_list: "parse_config_list (hide_list v) attributed ''env'' = parse_config_list v attributed ''env''"
  by (cases v) (simp_all add: parse_config_list_def hide_list_def parse_hidden_items)

lemma parse_hidden_env: "parse_engine_field ''env'' (hide_list v) layer = parse_engine_field ''env'' v layer"
  by (simp add: parse_engine_field_def parse_hidden_list)

lemma parse_hidden_pasta:
  "parse_network_field layer ''network.pasta_options'' (hide_list v) modern = parse_network_field layer ''network.pasta_options'' v modern"
  by (simp add: parse_network_field_def network_string_fields_def networkBackendField_def rootlessCommandField_def parse_hidden_list)

lemma parse_hidden_engine_env: "parse_network_field layer ''engine.env'' v modern = Inr layer"
  by (simp add: parse_network_field_def network_string_fields_def network_list_fields_def networkBackendField_def
      rootlessCommandField_def dnsServersField_def dnsOptionsField_def dnsSearchesField_def slirpOptionsField_def has_prefix_def)

lemma hidden_sections:
  "map_of (hidden document) ''engine'' = map_option (in_table (map_field ''env'' hide_list)) (map_of document ''engine'')"
  "map_of (hidden document) ''network'' = map_option (in_table (map_field ''pasta_options'' hide_list)) (map_of document ''network'')"
  "map_of (hidden document) ''containers'' = map_of document ''containers''"
  by (simp_all add: hidden_def map_of_map_field option.map_comp comp_def option.map_id0 option.map_ident)

lemma engine_fields_hidden: "parse_engine_fields (map_field ''env'' hide_list members) = parse_engine_fields members"
  unfolding parse_engine_fields_def sorted_map_field by (rule fold_res_map_field) (simp add: parse_hidden_env)

lemma parse_engine_hidden: "parse_engine (\<lambda>text. map_sum id hidden (parse_toml text)) data = parse_engine parse_toml data"
proof (cases "parse_toml data")
  case (Inr document)
  show ?thesis
    by (cases "map_of document ''engine''"; cases "the (map_of document ''engine'')")
      (simp_all add: parse_engine_def Inr hidden_sections in_table_def engine_fields_hidden)
qed (simp add: parse_engine_def)

lemma section_hidden:
  assumes "sect \<in> {''network'', ''containers'', ''engine''}"
  shows "parse_network_section (hidden document) modern sect layer = parse_network_section document modern sect layer"
proof -
  have network: "parse_network_section (hidden document) modern ''network'' layer = parse_network_section document modern ''network'' layer"
    by (cases "map_of document ''network''"; cases "the (map_of document ''network'')")
      (simp_all add: parse_network_section_def hidden_sections in_table_def sorted_map_field fold_res_map_field parse_hidden_pasta)
  have engine: "parse_network_section (hidden document) modern ''engine'' layer = parse_network_section document modern ''engine'' layer"
    by (cases "map_of document ''engine''"; cases "the (map_of document ''engine'')")
      (simp_all add: parse_network_section_def hidden_sections in_table_def sorted_map_field fold_res_map_field parse_hidden_engine_env)
  have containers: "parse_network_section (hidden document) modern ''containers'' layer = parse_network_section document modern ''containers'' layer"
    by (simp add: parse_network_section_def hidden_sections)
  show ?thesis using assms network engine containers by (elim insertE emptyE) (simp_all only:)
qed

lemma parse_network_hidden:
  "parse_network (\<lambda>text. map_sum id hidden (parse_toml text)) data modern = parse_network parse_toml data modern"
proof (cases "parse_toml data")
  case (Inr document)
  then show ?thesis by (simp add: parse_network_def section_hidden split: sum.splits)
qed (simp add: parse_network_def)

end
