(* ===== verification/Config_Laws.thy ===== *)
theory Config_Laws
  imports Config_Redaction
begin

text \<open>
  What the projection of configuration documents guarantees: lists are bounded and carry an origin
  per value, no value that was not recognized is retained, later sources win, and the attribute
  \<open>append\<close> decides which sources a merged list consists of.
\<close>

section \<open>Lists\<close>

definition blank_at :: "string list \<Rightarrow> nat \<Rightarrow> bool" where
  "blank_at vs i \<longleftrightarrow> i < length vs \<and> vs ! i = ''''"

text \<open>A list projected from one document, whose unblanked values satisfy \<open>P\<close>.\<close>

definition layer_ok :: "(string \<Rightarrow> bool) \<Rightarrow> list_layer \<Rightarrow> bool" where
  "layer_ok P l \<longleftrightarrow>
     length (ll_values l) \<le> MaxConfigList \<and>
     list_all (blank_at (ll_values l)) (ll_invalid_indices l) \<and> list_all (blank_at (ll_values l)) (ll_unmodeled_indices l) \<and>
     list_all (\<lambda>v. v = '''' \<or> P v) (ll_values l)"

definition list_ok :: "(string \<Rightarrow> bool) \<Rightarrow> config_list \<Rightarrow> bool" where
  "list_ok P c \<longleftrightarrow>
     length (cl_origins c) = length (cl_values c) \<and>
     list_all (blank_at (cl_values c)) (cl_invalid_indices c) \<and> list_all (blank_at (cl_values c)) (cl_unmodeled_indices c) \<and>
     list_all (\<lambda>v. v = '''' \<or> P v) (cl_values c)"

definition opt_all :: "('a \<Rightarrow> bool) \<Rightarrow> 'a option \<Rightarrow> bool" where
  "opt_all P x \<longleftrightarrow> (case x of None \<Rightarrow> True | Some y \<Rightarrow> P y)"

lemma opt_all_simps [simp]: "opt_all P None" "opt_all P (Some x) \<longleftrightarrow> P x"
  by (simp_all add: opt_all_def)

lemma blank_append_left: "blank_at vs i \<Longrightarrow> blank_at (vs @ ws) i"
  by (simp add: blank_at_def nth_append)

lemma blank_append_right: "blank_at ws i \<Longrightarrow> blank_at (vs @ ws) (length vs + i)"
  by (simp add: blank_at_def nth_append)

lemma fresh_list_ok [simp]: "list_ok P fresh_list"
  by (simp add: list_ok_def fresh_list_def)

lemma overlay_list_ok:
  assumes "list_ok P c" and "layer_ok P l"
  shows "list_ok P (overlay_list c l source)"
proof -
  have extend: "list_ok P (extend_list c l source)" if "list_ok P c" for c
    using that assms(2)
    by (auto simp: list_ok_def layer_ok_def extend_list_def list_all_iff blank_append_left blank_append_right)
  have "list_ok P (c\<lparr>cl_append := a\<rparr>)" "list_ok P (clear_list (c\<lparr>cl_append := a\<rparr>))" "list_ok P (clear_list c)" for a
    using assms(1) by (simp_all add: list_ok_def clear_list_def)
  then show ?thesis using assms(1) extend by (simp add: overlay_list_def Let_def)
qed

lemma merge_list_ok: "opt_all (list_ok P) p \<Longrightarrow> opt_all (layer_ok P) l \<Longrightarrow> opt_all (list_ok P) (merge_list p l source)"
  by (auto simp: merge_list_def overlay_list_ok split: option.splits)

subsection \<open>What the parser of lists accepts\<close>

lemma parse_attributes:
  "fold_res parse_attribute entries l = Inr l' \<Longrightarrow>
   ll_values l' = ll_values l \<and> ll_invalid_indices l' = ll_invalid_indices l \<and> ll_unmodeled_indices l' = ll_unmodeled_indices l"
proof (induction entries arbitrary: l)
  case (Cons e entries)
  then show ?case
    by (cases e; cases "snd e") (auto simp: parse_attribute_def split: if_splits)
qed simp

definition item_texts :: "toml_value list \<Rightarrow> string list" where
  "item_texts items = List.map_filter (\<lambda>i. case i of TString text \<Rightarrow> Some text | _ \<Rightarrow> None) items"

lemma item_texts_simps [simp]:
  "item_texts [] = []" "item_texts (TString t # items) = t # item_texts items"
  "item_texts (TTable m # items) = item_texts items" "item_texts (TInt i # items) = item_texts items"
  "item_texts (TBool b # items) = item_texts items" "item_texts (TArray a # items) = item_texts items"
  "item_texts (TOther x # items) = item_texts items"
  by (simp_all add: item_texts_def List.map_filter_simps)

lemma length_item_texts: "length (item_texts items) \<le> length items"
proof (induction items)
  case (Cons i items)
  then show ?case by (cases i) simp_all
qed simp

lemma parse_items:
  "fold_res (parse_item attributed field) items l = Inr l' \<Longrightarrow>
   ll_values l' = ll_values l @ (if field = ''env'' then map (\<lambda>_. ''redacted'') (item_texts items) else item_texts items) \<and>
   (field \<noteq> ''env'' \<longrightarrow> list_all (\<lambda>v. config_list_path v field) (item_texts items)) \<and>
   ll_invalid_indices l' = ll_invalid_indices l \<and> ll_unmodeled_indices l' = ll_unmodeled_indices l"
proof (induction items arbitrary: l)
  case (Cons i items)
  then obtain m where m: "parse_item attributed field i l = Inr m" "fold_res (parse_item attributed field) items m = Inr l'"
    by (auto split: sum.splits)
  show ?case
    using m(1) Cons.IH [OF m(2)] parse_attributes
    by (cases i) (auto simp: parse_item_def split: if_splits)
qed simp

lemma parse_config_list_Inr:
  assumes "parse_config_list v attributed field = Inr l"
  shows "\<exists>items. v = TArray items \<and> length (ll_values l) \<le> MaxConfigList \<and>
    ll_values l = (if field = ''env'' then map (\<lambda>_. ''redacted'') (item_texts items) else item_texts items) \<and>
    (field \<noteq> ''env'' \<longrightarrow> list_all (\<lambda>v. config_list_path v field) (item_texts items)) \<and>
    ll_invalid_indices l = [] \<and> ll_unmodeled_indices l = []"
proof -
  obtain items where items: "v = TArray items" "length items \<le> MaxConfigList"
    "fold_res (parse_item attributed field) items empty_list = Inr l"
    using assms by (auto simp: parse_config_list_def split: toml_value.splits if_splits)
  have "length (item_texts items) \<le> MaxConfigList" using items(2) length_item_texts [of items] by linarith
  then show ?thesis
    using items(1) parse_items [OF items(3)] by (intro exI [of _ items]) (auto simp: empty_list_def)
qed

lemma parse_config_list_ok:
  assumes "parse_config_list v attributed field = Inr l"
  shows "layer_ok (\<lambda>v. if field = ''env'' then v = ''redacted'' else config_list_path v field) l"
  using parse_config_list_Inr [OF assms] by (auto simp: layer_ok_def list_all_iff)

subsection \<open>The lists of network settings\<close>

definition plain_entry :: "string \<Rightarrow> string \<Rightarrow> bool" where
  "plain_entry field text \<longleftrightarrow> classify_entry field text = Inr (False, False)"

text \<open>After the items whose texts number \<open>i\<close>: those are classified, and the length is what it was.\<close>

definition projected :: "string \<Rightarrow> nat \<Rightarrow> nat \<Rightarrow> list_layer \<Rightarrow> bool" where
  "projected field n i l \<longleftrightarrow>
     length (ll_values l) = n \<and>
     list_all (\<lambda>j. j < i \<and> blank_at (ll_values l) j) (ll_invalid_indices l) \<and>
     list_all (\<lambda>j. j < i \<and> blank_at (ll_values l) j) (ll_unmodeled_indices l) \<and>
     (\<forall>j<i. j < n \<longrightarrow> ll_values l ! j = '''' \<or> plain_entry field (ll_values l ! j))"

lemma blank_update: "blank_at vs j \<Longrightarrow> j \<noteq> i \<Longrightarrow> blank_at (vs[i := v]) j"
  by (simp add: blank_at_def)

lemma project_entry_text:
  assumes "projected field n i l" and "i < n" and "project_entry field (TString text) (i, l) = Inr (i', l')"
  shows "i' = Suc i \<and> projected field n (Suc i) l'"
proof -
  obtain invalid unmodeled where c: "classify_entry field text = Inr (invalid, unmodeled)" and i': "i' = Suc i"
    and l': "l' = l\<lparr>ll_invalid_indices := ll_invalid_indices l @ (if invalid then [i] else []),
        ll_unmodeled_indices := ll_unmodeled_indices l @ (if unmodeled then [i] else []),
        ll_values := (ll_values l)[i := if invalid \<or> unmodeled then '''' else text]\<rparr>"
    using assms(3) by (auto simp: project_entry_def split: sum.splits prod.splits)
  have len: "length (ll_values l) = n" using assms(1) by (simp add: projected_def)
  have old: "list_all (\<lambda>j. j < Suc i \<and> blank_at ((ll_values l)[i := v]) j) js"
    if "list_all (\<lambda>j. j < i \<and> blank_at (ll_values l) j) js" for js v
    using that by (auto simp: list_all_iff blank_update)
  have new: "blank_at ((ll_values l)[i := '''']) i" using assms(2) len by (simp add: blank_at_def)
  have vals: "\<forall>j<Suc i. j < n \<longrightarrow> ll_values l' ! j = '''' \<or> plain_entry field (ll_values l' ! j)"
    using assms(1,2) len c by (auto simp: l' projected_def less_Suc_eq nth_list_update plain_entry_def)
  show ?thesis
    unfolding projected_def using assms(1) len i' vals old new
    by (auto simp: l' projected_def)
qed

lemma project_entries:
  "fold_res (project_entry field) items (i, l) = Inr (i', l') \<Longrightarrow> projected field n i l \<Longrightarrow>
   i + length (item_texts items) \<le> n \<Longrightarrow> i' = i + length (item_texts items) \<and> projected field n i' l'"
proof (induction items arbitrary: i l)
  case (Cons item items)
  obtain r where r: "project_entry field item (i, l) = Inr r" "fold_res (project_entry field) items r = Inr (i', l')"
    using Cons.prems(1) by (auto split: sum.splits)
  show ?case
  proof (cases "\<exists>text. item = TString text")
    case True
    then obtain t where t: "item = TString t" by blast
    then have "fst r = Suc i \<and> projected field n (Suc i) (snd r)"
      using project_entry_text [OF Cons.prems(2), of t "fst r" "snd r"] r(1) Cons.prems(3) t by simp
    then show ?thesis using Cons.IH [of "Suc i" "snd r"] r(2) Cons.prems(3) t by (cases r) auto
  next
    case False
    then have "r = (i, l)" "item_texts (item # items) = item_texts items"
      using r(1) by (cases item; simp add: project_entry_def)+
    then show ?thesis using Cons.IH [of i l] r(2) Cons.prems by auto
  qed
qed simp

lemma parse_network_list_ok:
  assumes "parse_network_list v field = Inr l"
  shows "layer_ok (network_entry field) l"
proof -
  obtain m where m: "parse_config_list v True ''env'' = Inr m" using assms by (auto simp: parse_network_list_def split: sum.splits)
  from parse_config_list_Inr [OF m] obtain items where items: "v = TArray items" "length (ll_values m) \<le> MaxConfigList"
    "length (ll_values m) = length (item_texts items)" "ll_invalid_indices m = []" "ll_unmodeled_indices m = []" by auto
  obtain i where i: "fold_res (project_entry field) items (0, m) = Inr (i, l)"
    using assms m items(1) by (auto simp: parse_network_list_def split: sum.splits prod.splits)
  have "projected field (length (ll_values m)) 0 m" using items(4,5) by (simp add: projected_def)
  from project_entries [OF i this] items(3) have "projected field (length (ll_values m)) (length (ll_values m)) l" by auto
  then show ?thesis using items(2)
    by (auto simp: layer_ok_def projected_def list_all_iff in_set_conv_nth plain_entry_def intro!: classified_text)
qed

section \<open>Merged lists\<close>

text \<open>
  Which sources a merged list consists of: \<open>append\<close> persists until a source sets it again, and a
  source that does not append starts the list afresh.
\<close>

fun appends :: "bool option \<Rightarrow> (string \<times> list_layer) list \<Rightarrow> (bool \<times> string \<times> list_layer) list" where
  "appends flag [] = []"
| "appends flag ((source, l) # rest) =
     (let flag' = (if ll_append l \<noteq> None then ll_append l else flag)
      in (flag' = Some True, source, l) # appends flag' rest)"

fun kept :: "(bool \<times> string \<times> list_layer) list \<Rightarrow> (bool \<times> string \<times> list_layer) list" where
  "kept [] = []"
| "kept (x # xs) = (if list_all fst xs then x # xs else kept xs)"

definition kept_values :: "(bool \<times> string \<times> list_layer) list \<Rightarrow> string list" where
  "kept_values xs = concat (map (\<lambda>(_, _, l). ll_values l) xs)"

definition kept_origins :: "(bool \<times> string \<times> list_layer) list \<Rightarrow> string list" where
  "kept_origins xs = concat (map (\<lambda>(_, source, l). replicate (length (ll_values l)) source) xs)"

definition merge_all :: "config_list option \<Rightarrow> (string \<times> list_layer) list \<Rightarrow> config_list option" where
  "merge_all previous layers = foldl (\<lambda>p (source, l). merge_list p (Some l) source) previous layers"

lemma merge_all_Nil [simp]: "merge_all p [] = p"
  by (simp add: merge_all_def)

lemma overlay_fields:
  "cl_append (overlay_list c l source) = (if ll_append l \<noteq> None then ll_append l else cl_append c)"
  "cl_values (overlay_list c l source) =
     (if cl_append (overlay_list c l source) = Some True then cl_values c else []) @ ll_values l"
  "cl_origins (overlay_list c l source) =
     (if cl_append (overlay_list c l source) = Some True then cl_origins c else []) @ replicate (length (ll_values l)) source"
  "cl_inherited_default (overlay_list c l source) \<longleftrightarrow>
     cl_append (overlay_list c l source) = Some True \<and> cl_inherited_default c"
  "cl_source_id (overlay_list c l source) = source"
  by (simp_all add: overlay_list_def extend_list_def clear_list_def Let_def)

lemma merge_all_Some:
  "\<exists>c'. merge_all (Some c) layers = Some c' \<and>
     (let xs = appends (cl_append c) layers
      in cl_values c' = (if list_all fst xs then cl_values c @ kept_values xs else kept_values (kept xs)) \<and>
         cl_origins c' = (if list_all fst xs then cl_origins c @ kept_origins xs else kept_origins (kept xs)) \<and>
         (cl_inherited_default c' \<longleftrightarrow> list_all fst xs \<and> cl_inherited_default c) \<and>
         (layers \<noteq> [] \<longrightarrow> cl_source_id c' = fst (last layers)))"
proof (induction layers arbitrary: c)
  case Nil
  then show ?case by (simp add: merge_all_def kept_values_def kept_origins_def)
next
  case (Cons x layers)
  obtain source l where x: "x = (source, l)" by (cases x)
  let ?c = "overlay_list c l source"
  have "merge_all (Some c) (x # layers) = merge_all (Some ?c) layers" by (simp add: merge_all_def x merge_list_def)
  moreover have "appends (cl_append c) (x # layers) = (cl_append ?c = Some True, source, l) # appends (cl_append ?c) layers"
    by (simp add: x overlay_fields(1) Let_def)
  ultimately show ?case
    using Cons [of ?c] overlay_fields(2,3,4) [of c l source]
    by (cases "cl_append ?c = Some True"; cases "list_all fst (appends (cl_append ?c) layers)")
      (auto simp: Let_def kept_values_def kept_origins_def overlay_fields(5) x)
qed

text \<open>a merged list is the concatenation of the sources from the last one that does not append
  onwards, where \<open>append\<close> persists from source to source; each value has the source it came from as its
  origin, and the list is incomplete, with an inherited default in front, exactly when every source
  so far appended.
\<close>

lemma merged_list_reference:
  assumes "layers \<noteq> []"
  shows "\<exists>c. merge_all None layers = Some c \<and>
     (let xs = appends None layers
      in cl_values c = kept_values (kept xs) \<and> cl_origins c = kept_origins (kept xs) \<and>
         (cl_inherited_default c \<longleftrightarrow> list_all fst xs) \<and> cl_source_id c = fst (last layers))"
proof -
  obtain source l rest where layers: "layers = (source, l) # rest" using assms by (cases layers) auto
  have start: "merge_all None layers = merge_all (Some fresh_list) layers" by (simp add: merge_all_def layers merge_list_def)
  have all: "kept xs = xs" if "list_all fst xs" for xs using that by (cases xs) auto
  show ?thesis
    unfolding start using merge_all_Some [of fresh_list layers] assms all
    by (auto simp: fresh_list_def Let_def)
qed

lemma merged_list_reference_witness:
  "\<exists>c. merge_all None [(''a'', empty_list\<lparr>ll_values := [''/x'']\<rparr>), (''b'', empty_list\<lparr>ll_values := [''/y''], ll_append := Some True\<rparr>),
         (''c'', empty_list\<lparr>ll_values := [''/z'']\<rparr>)] = Some c \<and>
     cl_values c = [''/x'', ''/y'', ''/z''] \<and> cl_origins c = [''a'', ''b'', ''c'']"
  using merged_list_reference [of "[(''a'', empty_list\<lparr>ll_values := [''/x'']\<rparr>),
      (''b'', empty_list\<lparr>ll_values := [''/y''], ll_append := Some True\<rparr>), (''c'', empty_list\<lparr>ll_values := [''/z'']\<rparr>)]"]
  by (auto simp: empty_list_def kept_values_def kept_origins_def)

section \<open>Nothing unrecognized is retained\<close>

lemma fold_res_keeps:
  assumes "fold_res f xs s = Inr t" and "I s" and "\<And>x s s'. x \<in> set xs \<Longrightarrow> I s \<Longrightarrow> f x s = Inr s' \<Longrightarrow> I s'"
  shows "I t"
  using fold_res_inv [OF assms(1), of "\<lambda>_ s. I s"] assms(2,3) by (metis in_set_conv_decomp)

lemma list_all_update:
  "list_all (\<lambda>(k, v). Q k v) al \<Longrightarrow> Q k v \<Longrightarrow> list_all (\<lambda>(k, v). Q k v) (AList.update k v al)"
  by (induction al) auto

subsection \<open>Engine\<close>

definition runtime_setting :: "string \<Rightarrow> bool" where
  "runtime_setting v \<longleftrightarrow> v = '''' \<or> runtime_name v \<or> literal_path v"

definition manager_setting :: "string \<Rightarrow> bool" where
  "manager_setting v \<longleftrightarrow> v \<in> {'''', ''systemd'', ''cgroupfs''}"

definition listed_path :: "string \<Rightarrow> string \<Rightarrow> bool" where
  "listed_path field v \<longleftrightarrow> (if field = ''helper_binaries_dir'' then helper_directory v else literal_path v)"

definition engine_layer_ok :: "engine_layer \<Rightarrow> bool" where
  "engine_layer_ok el \<longleftrightarrow>
     opt_all runtime_setting (el_runtime el) \<and> opt_all manager_setting (el_cgroup_manager el) \<and>
     opt_all (layer_ok (listed_path ''conmon_path'')) (el_conmon_path el) \<and>
     opt_all (layer_ok (listed_path ''helper_binaries_dir'')) (el_helper_binaries_dir el) \<and>
     opt_all (layer_ok (listed_path ''runtime_path'')) (el_runtime_path el) \<and>
     opt_all (\<lambda>l. list_all (\<lambda>v. v = ''redacted'') (ll_values l)) (el_environment el) \<and>
     list_all (\<lambda>(name, l). runtime_name name \<and> layer_ok (listed_path ''runtimes'') l) (el_runtimes el)"

definition engine_ok :: "engine_configuration \<Rightarrow> bool" where
  "engine_ok e \<longleftrightarrow>
     opt_all (\<lambda>c. runtime_setting (cs_value c)) (e_runtime e) \<and>
     opt_all (\<lambda>c. manager_setting (cs_value c)) (e_cgroup_manager e) \<and>
     opt_all (list_ok (listed_path ''conmon_path'')) (e_conmon_path e) \<and>
     opt_all (list_ok (listed_path ''helper_binaries_dir'')) (e_helper_binaries_dir e) \<and>
     opt_all (list_ok (listed_path ''runtime_path'')) (e_runtime_path e) \<and>
     list_all (\<lambda>(name, l). runtime_name name \<and> list_ok (listed_path ''runtimes'') l) (e_runtimes e)"

lemma empty_engine_layer_ok: "engine_layer_ok empty_engine_layer"
  by (simp add: engine_layer_ok_def empty_engine_layer_def)

lemma listed_layer_ok:
  "parse_config_list v attributed field = Inr l \<Longrightarrow> field \<noteq> ''env'' \<Longrightarrow> layer_ok (listed_path field) l"
  using parse_config_list_ok [of v attributed field l] config_list_path_literal [of _ field]
  by (auto simp: layer_ok_def list_all_iff listed_path_def)

lemma redacted_layer:
  "parse_config_list v attributed ''env'' = Inr l \<Longrightarrow> list_all (\<lambda>v. v = ''redacted'') (ll_values l)"
  using parse_config_list_Inr [of v attributed "''env''" l] by (auto simp: list_all_iff)

lemma parse_runtimes_ok:
  assumes "parse_runtimes v layer = Inr layer'" and "engine_layer_ok layer"
  shows "engine_layer_ok layer'"
proof -
  obtain members where "fold_res parse_runtime_entry (sorted_fields members) (layer\<lparr>el_runtimes := []\<rparr>) = Inr layer'"
    using assms(1) by (auto simp: parse_runtimes_def split: toml_value.splits if_splits)
  then show ?thesis
  proof (rule fold_res_keeps)
    show "engine_layer_ok (layer\<lparr>el_runtimes := []\<rparr>)" using assms(2) by (simp add: engine_layer_ok_def)
    fix x s s' assume "engine_layer_ok s" "parse_runtime_entry x s = Inr s'"
    then show "engine_layer_ok s'"
      by (auto simp: parse_runtime_entry_def engine_layer_ok_def listed_layer_ok list_all_update
          split: prod.splits sum.splits if_splits)
  qed
qed

lemma parse_engine_string_ok:
  "parse_engine_string key s layer = Inr layer' \<Longrightarrow> engine_layer_ok layer \<Longrightarrow> engine_layer_ok layer'"
  by (auto simp: parse_engine_string_def engine_layer_ok_def runtime_setting_def manager_setting_def config_path_literal split: if_splits)

lemma store_engine_list_ok:
  assumes "parse_config_list v True key = Inr l" and "key \<in> {''conmon_path'', ''helper_binaries_dir'', ''runtime_path'', ''env''}"
    and "engine_layer_ok layer"
  shows "engine_layer_ok (store_engine_list key l layer)"
proof -
  from assms(2) consider "key = ''conmon_path''" | "key = ''helper_binaries_dir''" | "key = ''runtime_path''" | "key = ''env''" unfolding insert_iff empty_iff by satx
  then show ?thesis
    using assms(1,3) by cases (simp_all add: store_engine_list_def engine_layer_ok_def listed_layer_ok redacted_layer)
qed

lemma parse_engine_field_ok:
  assumes "parse_engine_field key v layer = Inr layer'" and ok: "engine_layer_ok layer"
  shows "engine_layer_ok layer'"
proof (cases "key = ''runtime'' \<or> key = ''cgroup_manager''")
  case True
  then obtain s where "parse_engine_string key s layer = Inr layer'"
    using assms(1) by (cases v) (simp_all add: parse_engine_field_def)
  then show ?thesis using parse_engine_string_ok ok by blast
next
  case False
  note field = assms(1) [unfolded parse_engine_field_def if_not_P [OF False]]
  show ?thesis
  proof (cases "key = ''runtimes''")
    case True
    then show ?thesis using field parse_runtimes_ok ok by simp
  next
    case False
    note field = field [unfolded if_not_P [OF False]]
    show ?thesis
    proof (cases "key \<in> {''conmon_path'', ''helper_binaries_dir'', ''runtime_path'', ''env''}")
      case True
      note field = field [unfolded if_P [OF True]]
      then obtain l where "parse_config_list v True key = Inr l" "layer' = store_engine_list key l layer"
        by (cases "parse_config_list v True key") simp_all
      then show ?thesis using store_engine_list_ok True ok by blast
    next
      case False
      note field = field [unfolded if_not_P [OF False]]
      show ?thesis using field ok by (auto simp: engine_layer_ok_def)
    qed
  qed
qed

lemma parse_engine_ok:
  assumes "parse_engine parse_toml data = Inr layer"
  shows "engine_layer_ok layer"
proof -
  consider "layer = empty_engine_layer" | members where "parse_engine_fields members = Inr layer"
    using assms unfolding parse_engine_def
    by (cases "parse_toml data"; cases "map_of (projr (parse_toml data)) ''engine''";
        cases "the (map_of (projr (parse_toml data)) ''engine'')") simp_all
  then show ?thesis
  proof cases
    case 2
    then show ?thesis unfolding parse_engine_fields_def
      by (rule fold_res_keeps) (auto simp: empty_engine_layer_ok split: sum.splits prod.splits intro: parse_engine_field_ok)
  qed (simp add: empty_engine_layer_ok)
qed

lemma merge_runtimes_ok:
  "list_all (\<lambda>(name, l). runtime_name name \<and> list_ok P l) previous \<Longrightarrow>
   list_all (\<lambda>(name, l). runtime_name name \<and> layer_ok P l) layer \<Longrightarrow>
   list_all (\<lambda>(name, l). runtime_name name \<and> list_ok P l) (merge_runtimes previous layer source)"
  unfolding merge_runtimes_def
  by (induction layer arbitrary: previous) (auto simp: list_all_update overlay_list_ok)

lemma merge_string_ok:
  "opt_all (\<lambda>c. Q (cs_value c)) p \<Longrightarrow> opt_all Q v \<Longrightarrow> opt_all (\<lambda>c. Q (cs_value c)) (merge_string p v source)"
  by (auto simp: merge_string_def split: option.splits)

lemma merge_engine_ok:
  assumes "engine_ok e" and "engine_layer_ok el"
  shows "engine_ok (merge_engine e el source)"
proof -
  have "opt_all (\<lambda>c. manager_setting (cs_value c)) (e_cgroup_manager (merge_engine e el source))"
    using assms by (cases "el_cgroup_manager el"; cases "e_cgroup_manager e")
      (simp_all add: engine_ok_def engine_layer_ok_def merge_engine_def merge_string_def)
  moreover have "opt_all (\<lambda>c. runtime_setting (cs_value c)) (e_runtime (merge_engine e el source))"
    using assms by (simp add: engine_ok_def engine_layer_ok_def merge_engine_def merge_string_ok)
  moreover have "list_all (\<lambda>(name, l). runtime_name name \<and> list_ok (listed_path ''runtimes'') l) (e_runtimes (merge_engine e el source))"
    using assms merge_runtimes_ok [of "listed_path ''runtimes''"] by (simp add: engine_ok_def engine_layer_ok_def merge_engine_def)
  ultimately show ?thesis
    using assms unfolding engine_ok_def engine_layer_ok_def by (simp add: merge_engine_def merge_list_ok)
qed

definition no_engine :: engine_configuration where
  "no_engine = \<lparr>e_runtime = None, e_cgroup_manager = None, e_runtimes = [], e_conmon_path = None,
     e_helper_binaries_dir = None, e_runtime_path = None, e_environment = None, e_selection_overrides = False,
     e_unprojected_field_count = 0\<rparr>"

definition merged_engine :: "(string \<times> engine_layer) list \<Rightarrow> engine_configuration" where
  "merged_engine layers = foldl (\<lambda>e (source, l). merge_engine e l source) no_engine layers"

lemma foldl_keeps: "I s \<Longrightarrow> (\<And>s x. x \<in> set xs \<Longrightarrow> I s \<Longrightarrow> I (f s x)) \<Longrightarrow> I (foldl f s xs)"
  by (induction xs arbitrary: s) auto

lemma no_engine_ok: "engine_ok no_engine"
  by (simp add: engine_ok_def no_engine_def)

lemma merged_engine_ok:
  assumes "list_all (\<lambda>(source, l). engine_layer_ok l) layers"
  shows "engine_ok (merged_engine layers)"
  unfolding merged_engine_def
  by (rule foldl_keeps) (use assms no_engine_ok in \<open>auto simp: list_all_iff merge_engine_ok\<close>)

subsection \<open>Network\<close>

definition network_setting :: "string \<Rightarrow> string \<Rightarrow> bool" where
  "network_setting field v \<longleftrightarrow> v = '''' \<or>
     (if field = networkBackendField then v = ''netavark'' \<or> v = ''cni''
      else if field = rootlessCommandField then v = ''pasta'' \<or> v = ''slirp4netns''
      else if field = ''network.firewall_driver'' then runtime_name v
      else literal_path v)"

definition network_string_ok :: "string \<Rightarrow> config_string \<Rightarrow> bool" where
  "network_string_ok field c \<longleftrightarrow> network_setting field (cs_value c) \<and> (cs_invalid c \<longrightarrow> cs_value c = '''')"

definition network_layer_ok :: "network_layer \<Rightarrow> bool" where
  "network_layer_ok nl \<longleftrightarrow>
     list_all (\<lambda>(field, c). network_string_ok field c) (nl_strings nl) \<and>
     list_all (\<lambda>(field, l). layer_ok (network_entry field) l) (nl_lists nl) \<and>
     opt_all (\<lambda>l. list_all (\<lambda>v. v = ''redacted'') (ll_values l)) (nl_pasta_options nl) \<and>
     opt_all (\<lambda>p. p \<le> 65535) (nl_dns_bind_port nl) \<and>
     distinct (map fst (nl_strings nl)) \<and> distinct (map fst (nl_lists nl))"

definition network_ok :: "network_configuration \<Rightarrow> bool" where
  "network_ok n \<longleftrightarrow>
     list_all (\<lambda>(field, c). network_string_ok field c) (n_strings n) \<and>
     list_all (\<lambda>(field, l). list_ok (network_entry field) l) (n_lists n) \<and>
     opt_all (\<lambda>p. cu_value p \<le> 65535) (n_dns_bind_port n)"

lemma parse_network_string_ok:
  assumes "parse_network_string layer field v modern = Inr layer'" and ok: "network_layer_ok layer"
  shows "network_layer_ok layer'"
proof (cases "field = ''network.firewall_driver'' \<and> \<not> modern")
  case True
  then show ?thesis using assms by (auto simp: parse_network_string_def network_layer_ok_def)
next
  case False
  note rest = assms(1) [unfolded parse_network_string_def if_not_P [OF False]]
  then obtain s where v: "v = TString s" by (cases v) simp_all
  have store: "network_layer_ok (layer\<lparr>nl_strings := AList.update field c (nl_strings layer)\<rparr>)"
    if "network_string_ok field c" for c
    using ok that by (simp add: network_layer_ok_def list_all_update distinct_update)
  have distinct_fields: "networkBackendField \<noteq> rootlessCommandField" "networkBackendField \<noteq> ''network.firewall_driver''"
    "rootlessCommandField \<noteq> ''network.firewall_driver''"
    by (simp_all add: networkBackendField_def rootlessCommandField_def)
  show ?thesis using rest v store distinct_fields
    by (auto simp: Let_def network_string_ok_def network_setting_def config_path_literal split: if_splits)
qed

lemma word_of_port: "0 \<le> port \<Longrightarrow> port \<le> 65535 \<Longrightarrow> (word_of_int port :: 64 word) \<le> 65535"
  by (simp add: word_le_def uint_word_of_int)

lemma parse_network_field_ok:
  assumes "parse_network_field layer field v modern = Inr layer'" and ok: "network_layer_ok layer"
  shows "network_layer_ok layer'"
proof (cases "field \<in> set network_string_fields")
  case True
  then show ?thesis using assms parse_network_string_ok by (simp add: parse_network_field_def)
next
  case False
  note field = assms(1) [unfolded parse_network_field_def if_not_P [OF False]]
  show ?thesis
  proof (cases "field = ''network.dns_bind_port''")
    case True
    then show ?thesis using field ok
      by (cases v) (auto simp: network_layer_ok_def word_of_port split: if_splits)
  next
    case False
    note field = field [unfolded if_not_P [OF False]]
    show ?thesis
    proof (cases "field = ''network.pasta_options''")
      case True
      then show ?thesis using field ok
        by (cases "parse_config_list v True ''env''") (auto simp: network_layer_ok_def redacted_layer)
    next
      case False
      note field = field [unfolded if_not_P [OF False]]
      show ?thesis
      proof (cases "field \<in> set network_list_fields")
        case True
        note field = field [unfolded if_P [OF True]]
        then show ?thesis using ok parse_network_list_ok [of v field]
          by (cases "parse_network_list v field") (auto simp: network_layer_ok_def list_all_update distinct_update)
      next
        case False
        note field = field [unfolded if_not_P [OF False]]
        then show ?thesis using ok by (auto simp: network_layer_ok_def split: if_splits)
      qed
    qed
  qed
qed

lemma parse_network_section_ok:
  assumes "parse_network_section document modern sect layer = Inr layer'" and "network_layer_ok layer"
  shows "network_layer_ok layer'"
proof (cases "map_of document sect")
  case None
  then show ?thesis using assms by (simp add: parse_network_section_def)
next
  case (Some v)
  then obtain members where "v = TTable members" using assms(1) by (cases v) (simp_all add: parse_network_section_def)
  then have "fold_res (\<lambda>(key, value) layer. case parse_network_field layer (sect @ ''.'' @ key) value modern of
              Inl err \<Rightarrow> Inl (field_error err (sect @ ''.'' @ key))
            | Inr layer' \<Rightarrow> Inr layer') (sorted_fields members) layer = Inr layer'"
    using assms(1) Some by (simp add: parse_network_section_def)
  then show ?thesis
    by (rule fold_res_keeps) (auto simp: assms(2) split: sum.splits prod.splits intro: parse_network_field_ok)
qed

lemma parse_network_ok:
  assumes "parse_network parse_toml data modern = Inr layer"
  shows "network_layer_ok layer"
proof -
  obtain document where "fold_res (parse_network_section document modern) [''network'', ''containers'', ''engine''] empty_network_layer = Inr layer"
    using assms unfolding parse_network_def by (cases "parse_toml data") simp_all
  moreover have "network_layer_ok empty_network_layer" by (simp add: network_layer_ok_def empty_network_layer_def)
  ultimately show ?thesis by (rule fold_res_keeps) (rule parse_network_section_ok)
qed

lemma list_all_map_of: "list_all (\<lambda>(k, v). Q k v) al \<Longrightarrow> map_of al k = Some v \<Longrightarrow> Q k v"
  by (auto simp: list_all_iff dest!: map_of_SomeD)

lemma merge_network_ok:
  assumes "network_ok n" and "network_layer_ok nl"
  shows "network_ok (merge_network n nl source)"
proof -
  have "list_all (\<lambda>(field, c). network_string_ok field c) (merge_network_strings (n_strings n) (nl_strings nl) source)"
    unfolding merge_network_strings_def
    by (rule foldl_keeps) (use assms in \<open>auto simp: network_ok_def network_layer_ok_def network_string_ok_def list_all_update list_all_iff [of _ "nl_strings nl"]\<close>)
  moreover have "list_all (\<lambda>(field, l). list_ok (network_entry field) l) (merge_network_lists (n_lists n) (nl_lists nl) source)"
    unfolding merge_network_lists_def
  proof (rule foldl_keeps)
    show "list_all (\<lambda>(field, l). list_ok (network_entry field) l) (n_lists n)" using assms(1) by (simp add: network_ok_def)
    fix out x assume x: "x \<in> set (nl_lists nl)" and out: "list_all (\<lambda>(field, l). list_ok (network_entry field) l) out"
    obtain key l where kl: "x = (key, l)" by (cases x)
    then have l: "layer_ok (network_entry key) l" using x assms(2) by (auto simp: network_layer_ok_def list_all_iff)
    have "list_ok (network_entry key) (case map_of out key of None \<Rightarrow> fresh_list | Some p \<Rightarrow> p)"
      using list_all_map_of [OF out] by (auto split: option.splits)
    then show "list_all (\<lambda>(field, l). list_ok (network_entry field) l)
        ((\<lambda>out (key, l). AList.update key (overlay_list (case map_of out key of None \<Rightarrow> fresh_list | Some p \<Rightarrow> p) l source) out) out x)"
      using out l overlay_list_ok by (simp add: kl list_all_update)
  qed
  moreover have "opt_all (\<lambda>p. cu_value p \<le> 65535) (n_dns_bind_port (merge_network n nl source))"
    using assms by (cases "nl_dns_bind_port nl") (auto simp: merge_network_def network_ok_def network_layer_ok_def)
  ultimately show ?thesis by (simp add: network_ok_def merge_network_def)
qed

definition no_network :: network_configuration where
  "no_network = \<lparr>n_strings = [], n_lists = [], n_dns_bind_port = None, n_pasta_options = None, n_helper_paths = [],
     n_engine_source_id = '''', n_unprojected_field_count = 0\<rparr>"

definition merged_network :: "(string \<times> network_layer) list \<Rightarrow> network_configuration" where
  "merged_network layers = foldl (\<lambda>n (source, l). merge_network n l source) no_network layers"

lemma merged_network_ok:
  assumes "list_all (\<lambda>(source, l). network_layer_ok l) layers"
  shows "network_ok (merged_network layers)"
proof -
  have "network_ok no_network" by (simp add: network_ok_def no_network_def)
  then show ?thesis
    unfolding merged_network_def by (rule foldl_keeps) (use assms in \<open>auto simp: list_all_iff merge_network_ok\<close>)
qed

text \<open>
  C31: Whatever documents are projected and merged, in any number and order, the configuration retains only
  recognized text. The runtime is a plain name or a path and the cgroup manager one of two words; every path is
  absolute, without \<open>$\<close> and \<open>~\<close> and without control characters, except that a directory of helper programs may
  start with \<open>$BINDIR\<close>; every entry of a network list is an address, a search domain, a resolver option, a
  slirp4netns option or a path, as its field demands; the entries marked as invalid or not modelled are blank, and
  each value of a list has an origin. The text of \<open>engine.env\<close> and of \<open>network.pasta_options\<close> does not matter: the
  projection of a document is the one of the document with all strings of the two lists blanked.
\<close>

theorem configuration_redacted:
  assumes "list_all (\<lambda>(source, l). \<exists>data. parse_engine parse_toml data = Inr l) engine_layers"
    and "list_all (\<lambda>(source, l). \<exists>data modern. parse_network parse_toml data modern = Inr l) network_layers"
  shows "engine_ok (merged_engine engine_layers) \<and> network_ok (merged_network network_layers) \<and>
    (\<forall>data. parse_engine (\<lambda>text. map_sum id hidden (parse_toml text)) data = parse_engine parse_toml data) \<and>
    (\<forall>data modern. parse_network (\<lambda>text. map_sum id hidden (parse_toml text)) data modern = parse_network parse_toml data modern)"
proof (intro conjI allI)
  show "engine_ok (merged_engine engine_layers)" using assms(1) parse_engine_ok by (intro merged_engine_ok) (fastforce simp: list_all_iff)
  show "network_ok (merged_network network_layers)" using assms(2) parse_network_ok by (intro merged_network_ok) (fastforce simp: list_all_iff)
qed (rule parse_engine_hidden parse_network_hidden)+

section \<open>Later sources win\<close>

lemma map_of_foldl_update:
  "distinct (map fst xs) \<Longrightarrow>
   map_of (foldl (\<lambda>out (key, v). AList.update key (f v) out) out xs) k =
     (case map_of xs k of Some v \<Rightarrow> Some (f v) | None \<Rightarrow> map_of out k)"
proof (induction xs arbitrary: out)
  case (Cons x xs)
  obtain key v where x: "x = (key, v)" by (cases x)
  have "map_of xs k = None" if "k = key" using that Cons.prems by (simp add: x map_of_eq_None_iff)
  then show ?case using Cons by (cases "k = key"; cases "map_of xs k") (simp_all add: x update_conv')
qed simp

text \<open>The settings of all sources, the last source first.\<close>

definition all_strings :: "(string \<times> network_layer) list \<Rightarrow> (string \<times> config_string) list" where
  "all_strings layers =
     concat (map (\<lambda>(source, l). map (\<lambda>(k, c). (k, c\<lparr>cs_source_id := source\<rparr>)) (nl_strings l)) (rev layers))"

definition layers_with :: "string \<Rightarrow> (string \<times> network_layer) list \<Rightarrow> (string \<times> list_layer) list" where
  "layers_with key layers = List.map_filter (\<lambda>(source, l). map_option (Pair source) (map_of (nl_lists l) key)) layers"

lemma map_of_stamped: "map_of (map (\<lambda>(k, c). (k, f c)) xs) k = map_option f (map_of xs k)"
  by (induction xs) auto

lemma map_of_network_lists:
  "distinct (map fst xs) \<Longrightarrow>
   map_of (merge_network_lists out xs source) k =
     (case map_of xs k of Some l \<Rightarrow> merge_list (map_of out k) (Some l) source | None \<Rightarrow> map_of out k)"
  unfolding merge_network_lists_def
proof (induction xs arbitrary: out)
  case (Cons x xs)
  obtain key l where x: "x = (key, l)" by (cases x)
  show ?case
  proof (cases "k = key")
    case True
    then have "map_of xs k = None" using Cons.prems by (simp add: x map_of_eq_None_iff)
    then show ?thesis using Cons True by (simp add: x update_conv' merge_list_def)
  next
    case False
    then show ?thesis using Cons by (cases "map_of xs k") (simp_all add: x update_conv')
  qed
qed simp

lemma merged_network_snoc: "merged_network (layers @ [(source, l)]) = merge_network (merged_network layers) l source"
  by (simp add: merged_network_def)

lemma merge_all_snoc: "merge_all p (layers @ [(source, l)]) = merge_list (merge_all p layers) (Some l) source"
  by (simp add: merge_all_def)

lemma merged_network_fields:
  assumes "list_all (\<lambda>(source, l). distinct (map fst (nl_strings l)) \<and> distinct (map fst (nl_lists l))) layers"
  shows "map_of (n_strings (merged_network layers)) key = map_of (all_strings layers) key \<and>
    map_of (n_lists (merged_network layers)) key = merge_all None (layers_with key layers)"
  using assms
proof (induction layers rule: rev_induct)
  case Nil
  then show ?case by (simp add: merged_network_def no_network_def all_strings_def layers_with_def List.map_filter_simps)
next
  case (snoc x layers)
  obtain source l where x: "x = (source, l)" by (cases x)
  have dist: "distinct (map fst (nl_strings l))" "distinct (map fst (nl_lists l))" using snoc.prems by (simp_all add: x)
  have IH: "map_of (n_strings (merged_network layers)) key = map_of (all_strings layers) key"
    "map_of (n_lists (merged_network layers)) key = merge_all None (layers_with key layers)"
    using snoc by simp_all
  have "map_of (n_strings (merged_network (layers @ [x]))) key = map_of (all_strings (layers @ [x])) key"
    using map_of_foldl_update [OF dist(1), of "\<lambda>c. c\<lparr>cs_source_id := source\<rparr>" "n_strings (merged_network layers)" key] IH(1)
    by (simp add: x merged_network_snoc merge_network_def merge_network_strings_def all_strings_def map_add_def map_of_stamped
        split: option.splits)
  moreover have "map_of (n_lists (merged_network (layers @ [x]))) key = merge_all None (layers_with key (layers @ [x]))"
    using map_of_network_lists [OF dist(2), of "n_lists (merged_network layers)" source key] IH(2)
    by (cases "map_of (nl_lists l) key")
      (simp_all add: x merged_network_snoc merge_network_def layers_with_def List.map_filter_def merge_all_snoc)
  ultimately show ?case by blast
qed


definition runtimes_set :: "(string \<times> engine_layer) list \<Rightarrow> config_string list" where
  "runtimes_set layers =
     List.map_filter (\<lambda>(source, l). map_option (\<lambda>v. \<lparr>cs_invalid = False, cs_value = v, cs_source_id = source\<rparr>) (el_runtime l)) layers"

definition layers_of :: "(engine_layer \<Rightarrow> list_layer option) \<Rightarrow> (string \<times> engine_layer) list \<Rightarrow> (string \<times> list_layer) list" where
  "layers_of sel layers = List.map_filter (\<lambda>(source, l). map_option (Pair source) (sel l)) layers"

lemma merged_engine_snoc: "merged_engine (layers @ [(source, l)]) = merge_engine (merged_engine layers) l source"
  by (simp add: merged_engine_def)

lemma merge_list_snoc:
  "merge_list (merge_all None (layers_of sel layers)) (sel l) source = merge_all None (layers_of sel (layers @ [(source, l)]))"
  by (cases "sel l") (simp_all add: layers_of_def List.map_filter_def merge_all_snoc merge_list_def)

lemma merged_engine_fields:
  "e_runtime (merged_engine layers) = (if runtimes_set layers = [] then None else Some (last (runtimes_set layers))) \<and>
   e_conmon_path (merged_engine layers) = merge_all None (layers_of el_conmon_path layers) \<and>
   e_helper_binaries_dir (merged_engine layers) = merge_all None (layers_of el_helper_binaries_dir layers) \<and>
   e_runtime_path (merged_engine layers) = merge_all None (layers_of el_runtime_path layers)"
proof (induction layers rule: rev_induct)
  case Nil
  then show ?case by (simp add: merged_engine_def no_engine_def runtimes_set_def layers_of_def List.map_filter_simps)
next
  case (snoc x layers)
  obtain source l where x: "x = (source, l)" by (cases x)
  have "runtimes_set (layers @ [x]) = runtimes_set layers @
      (case el_runtime l of None \<Rightarrow> [] | Some v \<Rightarrow> [\<lparr>cs_invalid = False, cs_value = v, cs_source_id = source\<rparr>])"
    by (simp add: runtimes_set_def List.map_filter_def x split: option.splits)
  then show ?case
    using snoc unfolding x merged_engine_snoc merge_list_snoc [symmetric]
    by (cases "el_runtime l") (simp_all add: merge_engine_def merge_string_def)
qed

text \<open>after the merge of any sequence of documents a setting has the value and the source of the last
  document that sets it, and a list is the merge of the documents that have it, in their order and
  nothing else: no document disturbs a field that it does not mention.
\<close>

lemma later_sources_win:
  assumes "list_all (\<lambda>(source, l). \<exists>data modern. parse_network parse_toml data modern = Inr l) network_layers"
  shows "map_of (n_strings (merged_network network_layers)) key = map_of (all_strings network_layers) key \<and>
    map_of (n_lists (merged_network network_layers)) key = merge_all None (layers_with key network_layers) \<and>
    e_runtime (merged_engine layers) = (if runtimes_set layers = [] then None else Some (last (runtimes_set layers))) \<and>
    e_conmon_path (merged_engine layers) = merge_all None (layers_of el_conmon_path layers) \<and>
    e_helper_binaries_dir (merged_engine layers) = merge_all None (layers_of el_helper_binaries_dir layers) \<and>
    e_runtime_path (merged_engine layers) = merge_all None (layers_of el_runtime_path layers)"
proof -
  have "list_all (\<lambda>(source, l). distinct (map fst (nl_strings l)) \<and> distinct (map fst (nl_lists l))) network_layers"
    using assms parse_network_ok by (fastforce simp: list_all_iff network_layer_ok_def)
  then show ?thesis using merged_network_fields merged_engine_fields by blast
qed

section \<open>Examples\<close>

definition example_table :: toml_table where
  "example_table = [(''engine'', TTable [(''runtime'', TString ''crun''), (''env'', TArray [TString ''SECRET=1'']),
       (''conmon_path'', TArray [TString ''/usr/bin/conmon''])]),
     (''network'', TTable [(''network_backend'', TString ''netavark'')]),
     (''containers'', TTable [(''dns_searches'', TArray [TString ''example.org'', TString ''-bad''])])]"

definition example_engine_layer :: engine_layer where
  "example_engine_layer = empty_engine_layer\<lparr>el_runtime := Some ''crun'',
     el_environment := Some (empty_list\<lparr>ll_values := [''redacted'']\<rparr>),
     el_conmon_path := Some (empty_list\<lparr>ll_values := [''/usr/bin/conmon'']\<rparr>)\<rparr>"

definition example_network_layer :: network_layer where
  "example_network_layer = empty_network_layer\<lparr>
     nl_strings := [(networkBackendField, \<lparr>cs_invalid = False, cs_value = ''netavark'', cs_source_id = ''''\<rparr>)],
     nl_lists := [(dnsSearchesField, empty_list\<lparr>ll_values := [''example.org'', ''''], ll_invalid_indices := [1]\<rparr>)]\<rparr>"

lemma example_engine_parsed: "parse_engine (\<lambda>_. Inr example_table) data = Inr example_engine_layer"
  by code_simp

lemma example_network_parsed: "parse_network (\<lambda>_. Inr example_table) data True = Inr example_network_layer"
  by code_simp

theorem configuration_redacted_witness:
  "engine_ok (merged_engine [(''a'', example_engine_layer)]) \<and> network_ok (merged_network [(''a'', example_network_layer)]) \<and>
   map_of (hidden example_table) ''engine'' = Some (TTable [(''runtime'', TString ''crun''), (''env'', TArray [TString [] ]),
     (''conmon_path'', TArray [TString ''/usr/bin/conmon''])]) \<and>
   parse_engine (\<lambda>_. Inr (hidden example_table)) [] = Inr example_engine_layer"
proof -
  have "list_all (\<lambda>(source, l). \<exists>data. parse_engine (\<lambda>_. Inr example_table) data = Inr l) [(''a'', example_engine_layer)]"
    "list_all (\<lambda>(source, l). \<exists>data modern. parse_network (\<lambda>_. Inr example_table) data modern = Inr l) [(''a'', example_network_layer)]"
    using example_engine_parsed example_network_parsed by auto
  note redacted = configuration_redacted [OF this]
  have "map_of (hidden example_table) ''engine'' = Some (TTable [(''runtime'', TString ''crun''), (''env'', TArray [TString [] ]),
     (''conmon_path'', TArray [TString ''/usr/bin/conmon''])])" by code_simp
  with redacted show ?thesis by (simp add: example_engine_parsed)
qed

lemma later_sources_win_witness:
  "map_of (n_strings (merged_network [(''a'', example_network_layer), (''b'', example_network_layer)])) networkBackendField =
     Some \<lparr>cs_invalid = False, cs_value = ''netavark'', cs_source_id = ''b''\<rparr>"
proof -
  have "list_all (\<lambda>(source, l). \<exists>data modern. parse_network (\<lambda>_. Inr example_table) data modern = Inr l)
      [(''a'', example_network_layer), (''b'', example_network_layer)]"
    using example_network_parsed by auto
  from later_sources_win [OF this, of networkBackendField "[]"] show ?thesis
    by (simp add: all_strings_def example_network_layer_def)
qed

end
