(* ===== verification/Config_Storage_Laws.thy ===== *)
theory Config_Storage_Laws
  imports Config_Laws
begin

text \<open>
  What the projection of storage.conf guarantees: only recognized text is retained, a numeric mask is
  kept exactly, and an expanded path is one that cannot leave the tree it names.
\<close>

section \<open>Expanded paths\<close>

lemma split_on_chars: "x \<in> set (split_on c s) \<Longrightarrow> set x \<subseteq> set s"
proof (induction s arbitrary: x)
  case (Cons d s)
  then show ?case by (cases "split_on c s") (fastforce split: if_splits)+
qed simp

lemma join_with_chars: "set (join_with sep xs) \<subseteq> set sep \<union> (\<Union>x\<in>set xs. set x)"
  by (induction sep xs rule: join_with.induct) auto

lemma clean_absolute:
  assumes "path_is_abs p"
  obtains xs where "path_clean p = ''/'' @ join_with ''/'' xs" and "set xs \<inter> {'''', ''.'', ''..''} = {}"
    and "set xs \<subseteq> set (split_on CHR ''/'' p)"
proof -
  define xs where "xs = clean_elements True (split_on CHR ''/'' p)"
  obtain n ys where "xs = replicate n ''..'' @ ys" "True \<longrightarrow> n = 0" "set ys \<inter> {'''', ''.'', ''..''} = {}"
    using clean_elements_clean [of True "split_on CHR ''/'' p"] unfolding xs_def clean_list_def by blast
  then have "set xs \<inter> {'''', ''.'', ''..''} = {}" by simp
  moreover have "path_clean p = ''/'' @ join_with ''/'' xs" using assms by (simp add: path_clean_def xs_def Let_def)
  moreover have "set xs \<subseteq> set (split_on CHR ''/'' p)" unfolding xs_def by (rule clean_elements_subset)
  ultimately show thesis using that by blast
qed

lemma clean_absolute_chars: "path_is_abs p \<Longrightarrow> set (path_clean p) \<subseteq> insert CHR ''/'' (set p)"
proof -
  assume "path_is_abs p"
  then obtain xs where xs: "path_clean p = ''/'' @ join_with ''/'' xs" "set xs \<subseteq> set (split_on CHR ''/'' p)"
    by (rule clean_absolute)
  have "(\<Union>x\<in>set xs. set x) \<subseteq> set p" using xs(2) split_on_chars [of _ "CHR ''/''" p] by blast
  then have "set (join_with ''/'' xs) \<subseteq> set ''/'' \<union> set p" using join_with_chars [of "''/''" xs] by blast
  then show ?thesis by (simp add: xs(1))
qed

lemma clean_absolute_split:
  assumes "path_is_abs p"
  shows "''..'' \<notin> set (split_on CHR ''/'' (path_clean p))"
proof -
  obtain xs where xs: "path_clean p = ''/'' @ join_with ''/'' xs" "set xs \<inter> {'''', ''.'', ''..''} = {}"
    "set xs \<subseteq> set (split_on CHR ''/'' p)" using assms by (rule clean_absolute)
  have free: "CHR ''/'' \<notin> set x" if "x \<in> set xs" for x using that xs(3) split_on_no_sep [of x "CHR ''/''" p] by blast
  have "split_on CHR ''/'' (join_with ''/'' xs) = (if xs = [] then [''''] else xs)"
    using split_join [of xs "CHR ''/''", OF _ free] by auto
  then show ?thesis using xs(2) by (auto simp: xs(1))
qed

text \<open>What is known of a path after the expansion of variables.\<close>

definition expanded_path :: "string \<Rightarrow> bool" where
  "expanded_path p \<longleftrightarrow> path_is_abs p \<and> path_clean p = p \<and> ''..'' \<notin> set (split_on CHR ''/'' p) \<and>
     CHR ''$'' \<notin> set p \<and> CHR ''~'' \<notin> set p \<and> (\<forall>c\<in>set p. 32 \<le> (of_char c :: nat) \<and> (of_char c :: nat) \<noteq> 127)"

lemma expand_storage_path_expanded:
  assumes "expand_storage_path text environment u = Inr p"
  shows "expanded_path p"
proof -
  define e where "e = os_expand (\<lambda>key. case map_of environment key of None \<Rightarrow> '''' | Some v \<Rightarrow> v)
      (replace_all ''$UID'' (decimal_string (unat u)) text)"
  have e: "config_path e" "p = path_clean e"
    using assms unfolding expand_storage_path_def Let_def e_def [symmetric] by (auto split: if_splits)
  then have abs: "path_is_abs e" by (simp add: config_path_def)
  obtain xs where "path_clean e = ''/'' @ join_with ''/'' xs" using abs by (rule clean_absolute)
  then have "path_is_abs p" by (simp add: e(2) path_is_abs_def has_prefix_def)
  have control: "\<not> contains_control s \<Longrightarrow> c \<in> set s \<Longrightarrow> 32 \<le> (of_char c :: nat) \<and> (of_char c :: nat) \<noteq> 127" for s c
    by (induction s) auto
  have chars: "c \<in> set p \<Longrightarrow> c = CHR ''/'' \<or> c \<in> set e" for c using clean_absolute_chars [OF abs] e(2) by blast
  have "\<forall>c\<in>set p. 32 \<le> (of_char c :: nat) \<and> (of_char c :: nat) \<noteq> 127"
  proof
    fix c assume "c \<in> set p"
    then consider "c = CHR ''/''" | "c \<in> set e" using chars by blast
    then show "32 \<le> (of_char c :: nat) \<and> (of_char c :: nat) \<noteq> 127"
      using control [of e c] e(1) by cases (simp_all add: config_path_def)
  qed
  moreover have "CHR ''$'' \<notin> set p" "CHR ''~'' \<notin> set p" using chars e(1) by (auto simp: config_path_def)
  ultimately show ?thesis
    using \<open>path_is_abs p\<close> clean_absolute_split [OF abs] path_clean_idem [of e] e(2) by (simp add: expanded_path_def)
qed

text \<open>a storage path that is accepted after the expansion of variables is absolute and clean, has no
  parent element and no expansion character left, and no ASCII control character.
\<close>

lemma expand_storage_path_safe:
  assumes "expand_storage_path text environment u = Inr p"
  shows "path_is_abs p \<and> path_clean p = p \<and> ''..'' \<notin> set (split_on CHR ''/'' p) \<and>
    CHR ''$'' \<notin> set p \<and> CHR ''~'' \<notin> set p \<and> (\<forall>c\<in>set p. 32 \<le> (of_char c :: nat) \<and> (of_char c :: nat) \<noteq> 127)"
  using expand_storage_path_expanded [OF assms] unfolding expanded_path_def .

lemma expand_storage_path_safe_witness:
  "expand_storage_path ''/run/user/$UID/.//x'' [] 1000 = Inr ''/run/user/1000/x'' \<and> path_is_abs ''/run/user/1000/x''"
proof -
  have "expand_storage_path ''/run/user/$UID/.//x'' [] 1000 = Inr ''/run/user/1000/x''" by code_simp
  with expand_storage_path_safe [OF this] show ?thesis by blast
qed

section \<open>Projected settings\<close>

definition driver_setting :: "string \<Rightarrow> bool" where
  "driver_setting v \<longleftrightarrow> v = '''' \<or> runtime_name v"

text \<open>A root may still hold variables, and may start with one.\<close>

definition root_setting :: "string \<Rightarrow> bool" where
  "root_setting v \<longleftrightarrow> v = [] \<or> (hd v = CHR ''/'' \<or> hd v = CHR ''$'') \<and> CHR ''~'' \<notin> set v \<and> printable v"

definition store_setting :: "string \<Rightarrow> bool" where
  "store_setting v \<longleftrightarrow> v = [] \<or> literal_path v"

text \<open>A store entry: paths, separated by commas; a layer store may be marked as a reference, and nothing else.\<close>

definition store_reference :: "string \<Rightarrow> string \<Rightarrow> bool" where
  "store_reference field part \<longleftrightarrow>
     (\<exists>path. literal_path path \<and> CHR '':'' \<notin> set path \<and> (part = path \<or> field = ''additionallayerstores'' \<and> part = path @ '':ref''))"

definition store_entry :: "string \<Rightarrow> string \<Rightarrow> bool" where
  "store_entry field v \<longleftrightarrow> (\<forall>part\<in>set (split_on CHR '','' v). store_reference field part)"

lemma trim_suffix_cases: "trim_suffix s p = s \<or> s = trim_suffix s p @ p"
proof (cases "has_suffix s p")
  case True
  then obtain r where "s = r @ p" unfolding has_suffix_def by (metis append_take_drop_id)
  then show ?thesis by (simp add: trim_suffix_def)
qed (simp add: trim_suffix_def)

lemma store_part_reference: "store_part field part \<Longrightarrow> store_reference field part"
  using trim_suffix_cases [of part "'':ref''"]
  by (cases "field = ''additionallayerstores''") (auto simp: store_part_def store_reference_def config_path_literal Let_def)

lemma store_parts_entry: "list_all (store_part field) (split_on CHR '','' v) \<Longrightarrow> store_entry field v"
  by (auto simp: store_entry_def list_all_iff store_part_reference)

lemma root_path_setting: "storage_path v True \<Longrightarrow> root_setting v"
proof -
  assume path: "storage_path v True"
  have "has_prefix v [c] \<Longrightarrow> v \<noteq> [] \<and> hd v = c" for c by (cases v) (auto simp: has_prefix_def)
  then show ?thesis using path unfolding storage_path_def root_setting_def contains_control_iff if_True by blast
qed

text \<open>
  An option by its full name: a program is a path, a mask one of two words or an octal number of 32 bits, anything
  else a flag in a spelling of \<open>strconv.ParseBool\<close>.
\<close>

definition mask_setting :: "string \<Rightarrow> bool" where
  "mask_setting v \<longleftrightarrow> v \<in> {''shared'', ''private''} \<or>
     v \<noteq> [] \<and> (\<forall>c\<in>set v. CHR ''0'' \<le> c \<and> c \<le> CHR ''7'') \<and> octal_value v < 2 ^ 32"

definition flag_setting :: "string \<Rightarrow> bool" where
  "flag_setting v \<longleftrightarrow> v \<in> set [''1'', ''t'', ''T'', ''true'', ''TRUE'', ''True'', ''0'', ''f'', ''F'', ''false'', ''FALSE'', ''False'']"

definition option_setting :: "string \<Rightarrow> string \<Rightarrow> bool" where
  "option_setting key v \<longleftrightarrow> v = [] \<or>
     (if has_suffix key ''mount_program'' then literal_path v
      else if has_suffix key ''force_mask'' then mask_setting v
      else flag_setting v)"

lemma octal_mask: "parse_octal32 v \<noteq> None \<Longrightarrow> mask_setting v"
  by (auto simp: parse_octal32_def mask_setting_def list_all_iff split: if_splits)

lemma bool_flag: "parse_bool v \<noteq> None \<Longrightarrow> flag_setting v"
  unfolding parse_bool_def flag_setting_def by (auto split: if_splits)

definition storage_layer_ok :: "storage_layer \<Rightarrow> bool" where
  "storage_layer_ok l \<longleftrightarrow>
     opt_all driver_setting (sl_driver l) \<and> opt_all root_setting (sl_run_root l) \<and> opt_all root_setting (sl_graph_root l) \<and>
     opt_all root_setting (sl_rootless_storage_path l) \<and> opt_all store_setting (sl_image_store l) \<and>
     opt_all (layer_ok runtime_name) (sl_driver_priority l) \<and>
     opt_all (layer_ok (store_entry ''additionalimagestores'')) (sl_additional_image_stores l) \<and>
     opt_all (layer_ok (store_entry ''additionallayerstores'')) (sl_additional_layer_stores l) \<and>
     list_all (\<lambda>(key, v). option_setting key v) (sl_options l)"

definition storage_ok :: "storage_configuration \<Rightarrow> bool" where
  "storage_ok c \<longleftrightarrow>
     opt_all (\<lambda>v. driver_setting (cs_value v)) (st_driver c) \<and> opt_all (\<lambda>v. root_setting (cs_value v)) (st_run_root c) \<and>
     opt_all (\<lambda>v. root_setting (cs_value v)) (st_graph_root c) \<and>
     opt_all (\<lambda>v. root_setting (cs_value v)) (st_rootless_storage_path c) \<and>
     opt_all (\<lambda>v. store_setting (cs_value v)) (st_image_store c) \<and>
     opt_all (list_ok runtime_name) (st_driver_priority c) \<and>
     opt_all (list_ok (store_entry ''additionalimagestores'')) (st_additional_image_stores c) \<and>
     opt_all (list_ok (store_entry ''additionallayerstores'')) (st_additional_layer_stores c) \<and>
     list_all (\<lambda>(key, v). option_setting key (cs_value v)) (st_options c)"

lemma storage_items:
  "fold_res (storage_item field) items l = Inr l' \<Longrightarrow>
   list_all (\<lambda>v. if field = ''driver_priority'' then runtime_name v else store_entry field v) (ll_values l) \<Longrightarrow>
   list_all (\<lambda>v. if field = ''driver_priority'' then runtime_name v else store_entry field v) (ll_values l') \<and>
   length (ll_values l') \<le> length (ll_values l) + length items \<and>
   ll_invalid_indices l' = ll_invalid_indices l \<and> ll_unmodeled_indices l' = ll_unmodeled_indices l"
proof (induction items arbitrary: l)
  case (Cons item items)
  then obtain m where m: "storage_item field item l = Inr m" "fold_res (storage_item field) items m = Inr l'"
    by (auto split: sum.splits)
  obtain v where "item = TString v" using m(1) by (cases item) (simp_all add: storage_item_def)
  then have "m = l\<lparr>ll_values := ll_values l @ [v]\<rparr>"
    "if field = ''driver_priority'' then runtime_name v else store_entry field v"
    using m(1) by (auto simp: storage_item_def store_parts_entry split: if_splits)
  then show ?case using Cons.IH [OF m(2)] Cons.prems(2) by simp
qed simp

lemma storage_list_ok:
  assumes "storage_list v field = Inr l"
  shows "layer_ok (\<lambda>v. if field = ''driver_priority'' then runtime_name v else store_entry field v) l"
proof -
  obtain items where "v = TArray items" using assms by (cases v) (simp_all add: storage_list_def)
  then have "length items \<le> MaxConfigList" "fold_res (storage_item field) items empty_list = Inr l"
    using assms by (auto simp: storage_list_def split: if_splits)
  with storage_items [OF this(2)] show ?thesis by (auto simp: layer_ok_def empty_list_def list_all_iff)
qed

lemma storage_list_simps:
  "storage_list v ''driver_priority'' = Inr l \<Longrightarrow> layer_ok runtime_name l"
  "storage_list v ''additionalimagestores'' = Inr l \<Longrightarrow> layer_ok (store_entry ''additionalimagestores'') l"
  "storage_list v ''additionallayerstores'' = Inr l \<Longrightarrow> layer_ok (store_entry ''additionallayerstores'') l"
  using storage_list_ok [of v "''driver_priority''" l] storage_list_ok [of v "''additionalimagestores''" l]
    storage_list_ok [of v "''additionallayerstores''" l] by simp_all

lemma option_kind_table:
  "list_all (\<lambda>prefix. list_all (\<lambda>key. has_suffix (prefix @ key) ''mount_program'' = (key = ''mount_program'') \<and>
       has_suffix (prefix @ key) ''force_mask'' = (key = ''force_mask''))
     [''mount_program'', ''ignore_chown_errors'', ''skip_mount_home'', ''force_mask'', ''use_composefs''])
   ['''', ''overlay.'', ''vfs.'']"
  by code_simp

lemma option_kinds:
  assumes "prefix \<in> {'''', ''overlay.'', ''vfs.''}"
    and "key \<in> {''mount_program'', ''ignore_chown_errors'', ''skip_mount_home'', ''force_mask'', ''use_composefs''}"
  shows "has_suffix (prefix @ key) ''mount_program'' \<longleftrightarrow> key = ''mount_program''"
    and "has_suffix (prefix @ key) ''force_mask'' \<longleftrightarrow> key = ''force_mask''"
proof -
  have "prefix \<in> set ['''', ''overlay.'', ''vfs.'']"
    "key \<in> set [''mount_program'', ''ignore_chown_errors'', ''skip_mount_home'', ''force_mask'', ''use_composefs'']"
    using assms by (simp_all only: list.set)
  from bspec [OF bspec [OF option_kind_table [unfolded list_all_iff] this(1)] this(2)]
  show "has_suffix (prefix @ key) ''mount_program'' \<longleftrightarrow> key = ''mount_program''"
    "has_suffix (prefix @ key) ''force_mask'' \<longleftrightarrow> key = ''force_mask''" by blast+
qed

lemma set_option_ok:
  "storage_layer_ok layer \<Longrightarrow> option_setting key v \<Longrightarrow> storage_layer_ok (set_option key v layer)"
  by (simp add: storage_layer_ok_def set_option_def list_all_update)

lemma parse_named_option_ok:
  assumes "parse_named_option prefix key v layer = Inr layer'" and ok: "storage_layer_ok layer"
    and prefix: "prefix \<in> {'''', ''overlay.'', ''vfs.''}"
  shows "storage_layer_ok layer'"
proof (cases "recognized_storage_option prefix key")
  case False
  then show ?thesis using assms(1) ok by (auto simp: parse_named_option_def storage_layer_ok_def)
next
  case True
  then have key: "key \<in> {''mount_program'', ''ignore_chown_errors'', ''skip_mount_home'', ''force_mask'', ''use_composefs''}"
    by (auto simp: recognized_storage_option_def split: if_splits)
  obtain t where t: "v = TString t" using assms(1) True by (cases v) (simp_all add: parse_named_option_def)
  have blank: "storage_layer_ok (set_option (prefix @ key) '''' (invalid_option (prefix @ key) layer))"
    using ok by (intro set_option_ok) (simp_all add: storage_layer_ok_def invalid_option_def option_setting_def)
  note set = set_option_ok [OF ok, of "prefix @ key" t]
  have kind: "option_setting (prefix @ key) t"
    if "t = '''' \<or> (if key = ''mount_program'' then config_path t else option_value_valid key t)"
    using that option_kinds [OF prefix key] octal_mask [of t] bool_flag [of t]
    by (auto simp: option_setting_def option_value_valid_def config_path_literal mask_setting_def split: if_splits)
  show ?thesis
    using assms(1) True t blank set kind by (auto simp: parse_named_option_def split: if_splits)
qed

lemma parse_driver_options_ok:
  assumes "parse_driver_options prefix v layer = Inr layer'" and "storage_layer_ok layer"
    and "prefix \<in> {'''', ''overlay.'', ''vfs.''}"
  shows "storage_layer_ok layer'"
proof -
  obtain members where "v = TTable members" using assms(1) by (cases v) (simp_all add: parse_driver_options_def)
  then have "fold_res (\<lambda>(key, v). parse_named_option prefix key v) (sorted_fields members) layer = Inr layer'"
    using assms(1) by (simp add: parse_driver_options_def)
  then show ?thesis
    by (rule fold_res_keeps) (use assms parse_named_option_ok in \<open>auto split: prod.splits\<close>)
qed

lemma octal_string_setting: "n \<le> 4095 \<Longrightarrow> option_setting ''force_mask'' (octal_string n)"
  using parse_octal32_string [of n] octal_mask [of "octal_string n"] by (simp add: option_setting_def has_suffix_def)

lemma parse_force_mask_ok:
  assumes "parse_force_mask v layer = Inr layer'" and "storage_layer_ok layer"
  shows "storage_layer_ok layer'"
proof -
  obtain n where "v = TInt n" using assms(1) by (cases v) (simp_all add: parse_force_mask_def)
  then have "layer' = set_option ''force_mask'' (octal_string (nat n)) layer" "nat n \<le> 4095"
    using assms(1) by (auto simp: parse_force_mask_def split: if_splits)
  then show ?thesis using set_option_ok [OF assms(2)] octal_string_setting by simp
qed

lemma parse_storage_option_ok:
  assumes "parse_storage_option key v layer = Inr layer'" and ok: "storage_layer_ok layer"
  shows "storage_layer_ok layer'"
proof -
  consider "key = ''overlay'' \<or> key = ''vfs''" | "key = ''additionalimagestores''" | "key = ''additionallayerstores''"
    | "key = ''force_mask''" | "key \<notin> {''overlay'', ''vfs'', ''additionalimagestores'', ''additionallayerstores'', ''force_mask''}"
    unfolding insert_iff empty_iff by satx
  then show ?thesis
  proof cases
    case 1
    then have "key @ ''.'' \<in> {'''', ''overlay.'', ''vfs.''}" by auto
    moreover have "parse_driver_options (key @ ''.'') v layer = Inr layer'" using assms(1) 1 by (auto simp: parse_storage_option_def)
    ultimately show ?thesis using parse_driver_options_ok ok by blast
  next
    case 2
    then show ?thesis using assms storage_list_simps(2) [of v]
      by (cases "storage_list v key") (auto simp: parse_storage_option_def storage_layer_ok_def)
  next
    case 3
    then show ?thesis using assms storage_list_simps(3) [of v]
      by (cases "storage_list v key") (auto simp: parse_storage_option_def storage_layer_ok_def)
  next
    case 4
    then show ?thesis using assms parse_force_mask_ok by (simp add: parse_storage_option_def)
  next
    case 5
    then show ?thesis using assms parse_named_option_ok [of "''''" key v layer layer'] by (simp add: parse_storage_option_def)
  qed
qed

lemma unset_root [simp]: "root_setting []"
  by (simp add: root_setting_def)

lemma store_storage_string_ok:
  assumes "key \<in> {''driver'', ''runroot'', ''graphroot'', ''rootless_storage_path'', ''imagestore''}"
    and "t = '''' \<or> (if key = ''driver'' then runtime_name t else storage_path t (key \<noteq> ''imagestore''))"
    and "storage_layer_ok layer"
  shows "storage_layer_ok (store_storage_string key t layer)"
proof -
  have store: "storage_path t False \<Longrightarrow> literal_path t" by (simp add: storage_path_def config_path_literal)
  from assms(1) consider "key = ''driver''" | "key = ''runroot''" | "key = ''graphroot''" | "key = ''rootless_storage_path''"
    | "key = ''imagestore''" unfolding insert_iff empty_iff by satx
  then show ?thesis using assms(2,3) store
    by cases (auto simp: store_storage_string_def storage_layer_ok_def driver_setting_def root_path_setting store_setting_def)
qed

lemma parse_storage_field_ok:
  assumes "parse_storage_field key v layer = Inr layer'" and ok: "storage_layer_ok layer"
  shows "storage_layer_ok layer'"
proof (cases "key \<in> {''driver'', ''runroot'', ''graphroot'', ''rootless_storage_path'', ''imagestore''}")
  case True
  note field = assms(1) [unfolded parse_storage_field_def if_P [OF True]]
  then obtain t where t: "v = TString t" by (cases v) simp_all
  note field = field [unfolded t toml_value.case]
  then have "t = '''' \<or> (if key = ''driver'' then runtime_name t else storage_path t (key \<noteq> ''imagestore''))"
    "layer' = store_storage_string key t layer"
    by (metis Inl_Inr_False, metis Inl_Inr_False Inr_inject)
  then show ?thesis using store_storage_string_ok [OF True] ok by blast
next
  case False
  note field = assms(1) [unfolded parse_storage_field_def if_not_P [OF False]]
  show ?thesis
  proof (cases "key = ''driver_priority''")
    case True
    then show ?thesis using field ok storage_list_simps(1) [of v]
      by (cases "storage_list v ''driver_priority''") (auto simp: storage_layer_ok_def)
  next
    case False
    note field = field [unfolded if_not_P [OF False]]
    show ?thesis
    proof (cases "key = ''transient_store''")
      case True
      then show ?thesis using field ok by (cases v) (auto simp: storage_layer_ok_def)
    next
      case False
      note field = field [unfolded if_not_P [OF False]]
      show ?thesis
      proof (cases "key = ''options''")
        case True
        note field = field [unfolded if_P [OF True]]
        then obtain members where "v = TTable members" by (cases v) (simp_all add: parse_storage_options_def)
        then have "fold_res (\<lambda>(key, v). parse_storage_option key v) (sorted_fields members) layer = Inr layer'"
          using field by (simp add: parse_storage_options_def)
        then show ?thesis
          by (rule fold_res_keeps) (use ok parse_storage_option_ok in \<open>auto split: prod.splits\<close>)
      next
        case False
        then show ?thesis using field ok by (auto simp: storage_layer_ok_def)
      qed
    qed
  qed
qed

lemma empty_storage_layer_ok: "storage_layer_ok (empty_storage_layer\<lparr>sl_unprojected_field_count := n\<rparr>)" "storage_layer_ok empty_storage_layer"
  by (simp_all add: storage_layer_ok_def empty_storage_layer_def)

lemma parse_storage_members_ok:
  assumes "parse_storage_members members composefs = Inr layer"
  shows "storage_layer_ok layer"
proof -
  obtain members' dropped where "fold_res (\<lambda>(key, value) layer. case parse_storage_field key value layer of
             Inl err \<Rightarrow> Inl (field_error err (''storage.'' @ key))
           | Inr layer' \<Rightarrow> Inr layer') (sorted_fields members') (empty_storage_layer\<lparr>sl_unprojected_field_count := dropped\<rparr>) = Inr layer"
    using assms unfolding parse_storage_members_def by (auto split: prod.splits)
  then show ?thesis
    by (rule fold_res_keeps) (use empty_storage_layer_ok in \<open>auto split: sum.splits prod.splits intro: parse_storage_field_ok\<close>)
qed

lemma parse_storage_ok:
  assumes "parse_storage_for_fields parse_toml data composefs = Inr layer"
  shows "storage_layer_ok layer"
proof (cases "parse_toml data")
  case (Inr document)
  show ?thesis
  proof (cases "map_of document ''storage''")
    case (Some v)
    then obtain members where "v = TTable members" using assms Inr by (cases v) (simp_all add: parse_storage_for_fields_def)
    then show ?thesis using assms Inr Some parse_storage_members_ok by (simp add: parse_storage_for_fields_def)
  qed (use assms Inr empty_storage_layer_ok in \<open>auto simp: parse_storage_for_fields_def\<close>)
qed (use assms in \<open>simp add: parse_storage_for_fields_def\<close>)

lemma project_storage_ok:
  assumes "storage_layer_ok layer"
  shows "storage_ok (project_storage layer source)"
proof -
  have none: "opt_all (\<lambda>c. Q (cs_value c)) None" "opt_all (list_ok P) None" for Q P by simp_all
  have "list_all (\<lambda>(key, v). option_setting key (cs_value v)) (st_options (project_storage layer source))"
    using assms by (auto simp: storage_layer_ok_def project_storage_def list_all_iff)
  then show ?thesis
    using assms none unfolding storage_ok_def storage_layer_ok_def
    by (simp add: project_storage_def merge_list_ok merge_string_ok)
qed

text \<open>
  C32: The projection of a storage document retains only recognized text, or the empty text in its place. A driver
  is a plain name; a root starts with \<open>/\<close> or \<open>$\<close> and has no \<open>~\<close> and no control character; the image store, the mount
  programs and the paths of additional stores are absolute, without \<open>$\<close>, \<open>~\<close> and control characters. An entry of
  additional stores is a list of such paths separated by commas, none with a colon, but each path of a layer store
  may be followed by \<open>:ref\<close>. A mask is \<open>shared\<close>, \<open>private\<close> or an octal number of 32 bits, and every other option a
  spelling of a truth value. Each value of a list has an origin.
\<close>

theorem storage_redacted:
  assumes "parse_storage_for_fields parse_toml data composefs = Inr layer"
  shows "storage_ok (project_storage layer source)"
  using parse_storage_ok [OF assms] by (rule project_storage_ok)

definition example_storage_layer :: storage_layer where
  "example_storage_layer = empty_storage_layer\<lparr>sl_driver := Some ''overlay'', sl_unprojected_field_count := 1,
     sl_invalid_options := [''overlay.skip_mount_home''], sl_options := [(''overlay.skip_mount_home'', [])],
     sl_additional_layer_stores := Some (empty_list\<lparr>ll_values := [''/layers:ref,/more'']\<rparr>)\<rparr>"

definition example_storage_table :: toml_table where
  "example_storage_table = [(''storage'', TTable [(''driver'', TString ''overlay''),
     (''options'', TTable [(''additionallayerstores'', TArray [TString ''/layers:ref,/more'']), (''overlay'', TTable [(''skip_mount_home'', TString ''secret''), (''use_composefs'', TString ''true'')])])])]"

lemma example_storage_parsed:
  "parse_storage_for_fields (\<lambda>_. Inr example_storage_table) '''' False = Inr example_storage_layer"
  by code_simp

theorem storage_redacted_witness:
  "storage_ok (project_storage example_storage_layer ''storage.conf'')"
  by (rule storage_redacted [OF example_storage_parsed])

end
