(* ===== verification/Platform_Errors.thy ===== *)
theory Platform_Errors
  imports Prelude
begin

text \<open>
  The sentinel errors of \<open>platform/limits.go\<close>, and those of the standard library that the probes tell apart
  with \<open>errors.Is\<close>: \<open>fs.ErrNotExist\<close>, \<open>fs.ErrPermission\<close>, \<open>syscall.EINVAL\<close>, \<open>context.Canceled\<close> and
  \<open>context.DeadlineExceeded\<close>.
\<close>

definition ErrNotExist :: go_error where "ErrNotExist = Err ''file does not exist''"
definition ErrPermission :: go_error where "ErrPermission = Err ''permission denied''"
definition EINVAL :: go_error where "EINVAL = Err ''invalid argument''"
definition Canceled :: go_error where "Canceled = Err ''context canceled''"
definition DeadlineExceeded :: go_error where "DeadlineExceeded = Err ''context deadline exceeded''"

definition ErrIncomplete :: go_error where "ErrIncomplete = Err ''platform: incomplete measurement''"
definition ErrLimitExceeded :: go_error where "ErrLimitExceeded = Err ''platform: resource limit exceeded''"
definition ErrMalformed :: go_error where "ErrMalformed = Err ''platform: malformed input''"

text \<open>\<open>LimitError\<close> unwraps to both of its sentinels.\<close>

definition limit_error :: "string \<Rightarrow> go_error" where
  "limit_error resource = Wrapf ''LimitError'' [ErrLimitExceeded, ErrIncomplete] [resource]"

definition missing_is_known :: "go_error option \<Rightarrow> go_error option" where
  "missing_is_known err = (case err of Some e \<Rightarrow> if errors_is e ErrNotExist then None else Some e | None \<Rightarrow> None)"

end
