(* ===== verification/Podman_Paths.thy ===== *)
theory Podman_Paths
  imports Config_Values Platform_Errors
begin

text \<open>
  Lexical checks on paths and the environment a command may see: \<open>platform/path.go\<close>,
  \<open>platform/command\_policy.go\<close>, \<open>runtime/podman/info\_values.go\<close>, \<open>discovery.go\<close> and
  \<open>commands.go\<close>, and the version profile of \<open>knowledge/containers.go\<close>. On Unix \<open>filepath\<close>
  coincides with \<open>path\<close>.
\<close>

section \<open>Relative paths (platform/path.go)\<close>

definition ErrEmptySubpath :: go_error where "ErrEmptySubpath = Err ''platform: empty subpath''"
definition ErrPathContainsNUL :: go_error where "ErrPathContainsNUL = Err ''platform: path contains NUL byte''"
definition ErrAbsoluteSubpath :: go_error where "ErrAbsoluteSubpath = Err ''platform: absolute subpath not permitted''"
definition ErrSubpathEscape :: go_error where "ErrSubpathEscape = Err ''platform: subpath would escape root''"

definition validate_subpath :: "string \<Rightarrow> go_error option" where
  "validate_subpath subpath =
     (if subpath = '''' then Some ErrEmptySubpath
      else if CHR 0x00 \<in> set subpath then Some ErrPathContainsNUL
      else if path_is_abs subpath then Some ErrAbsoluteSubpath
      else if path_clean subpath = ''..'' \<or> has_prefix (path_clean subpath) ''../'' then Some ErrSubpathEscape
      else None)"

section \<open>Paths that a runtime or a user reports\<close>

definition trim_root :: "string \<Rightarrow> string" where
  "trim_root p = trim_prefix p ''/''"

definition safe_info_path :: "string \<Rightarrow> bool" where
  "safe_info_path value \<longleftrightarrow>
     length value \<le> 4096 \<and> path_is_abs value \<and> path_clean value = value \<and> \<not> contains_control value \<and>
     validate_subpath (path_clean (trim_root value)) = None"

text \<open>\<open>path.Base\<close> of a clean absolute path.\<close>

definition path_base :: "string \<Rightarrow> string" where
  "path_base p = (if p = '''' then ''.'' else let xs = filter (\<lambda>x. x \<noteq> '''') (split_on CHR ''/'' p)
     in if xs = [] then ''/'' else last xs)"

definition validate_executable_path :: "string \<Rightarrow> go_error option" where
  "validate_executable_path value =
     (if value = '''' then None
      else if \<not> has_prefix value ''/'' \<or> path_clean value \<noteq> value \<or> validate_subpath (trim_root value) \<noteq> None \<or>
              contains_control value \<or> trim_prefix (path_base value) ''-'' = ''podmansh''
      then Some (Err ''invalid Podman executable path'') else None)"

section \<open>Environments (platform/command\_policy.go)\<close>

definition ErrInvalidEnvPolicy :: go_error where "ErrInvalidEnvPolicy = Err ''invalid environment policy''"
definition ErrInvalidCommandSpec :: go_error where "ErrInvalidCommandSpec = Err ''invalid command specification''"

definition policy_error :: "go_error \<Rightarrow> string \<Rightarrow> go_error" where
  "policy_error cause reason = Wrapf ''commandError'' [cause] [reason]"

definition valid_env_name :: "string \<Rightarrow> bool" where
  "valid_env_name name \<longleftrightarrow>
     (case name of
        [] \<Rightarrow> False
      | c # cs \<Rightarrow> (c = CHR ''_'' \<or> is_upper c \<or> is_lower c) \<and>
          list_all (\<lambda>d. d = CHR ''_'' \<or> is_upper d \<or> is_lower d \<or> is_digit d) cs)"

definition inherit_variable :: "(string \<Rightarrow> string option) \<Rightarrow> string \<Rightarrow> (string \<times> string) list \<Rightarrow> go_error + (string \<times> string) list" where
  "inherit_variable ambient name values =
     (if \<not> valid_env_name name then Inl (policy_error ErrInvalidEnvPolicy ''invalid inherited variable name'')
      else case ambient name of None \<Rightarrow> Inr values | Some v \<Rightarrow> Inr (AList.update name v values))"

definition override_variable :: "string \<times> string \<Rightarrow> (string \<times> string) list \<Rightarrow> go_error + (string \<times> string) list" where
  "override_variable = (\<lambda>(name, v) values.
     if \<not> valid_env_name name \<or> CHR 0x00 \<in> set v then Inl (policy_error ErrInvalidEnvPolicy ''invalid variable name or value'')
     else Inr (AList.update name v values))"

definition default_variables :: "(string \<times> string) list" where
  "default_variables = [(''PATH'', ''/usr/bin:/bin''), (''LC_ALL'', ''C'')]"

text \<open>The policy is its list of \<open>name=value\<close> entries; the ambient environment is an argument.\<close>

definition new_env_policy :: "(string \<Rightarrow> string option) \<Rightarrow> string list \<Rightarrow> (string \<times> string) list \<Rightarrow> go_error + string list" where
  "new_env_policy ambient inherit explicit =
     (case fold_res (inherit_variable ambient) inherit default_variables of
        Inl err \<Rightarrow> Inl err
      | Inr values \<Rightarrow>
          (case fold_res override_variable explicit values of
             Inl err \<Rightarrow> Inl err
           | Inr values' \<Rightarrow> Inr (sort (map (\<lambda>(name, v). name @ ''='' @ v) values'))))"

record command_spec =
  cmd_path :: string
  cmd_args :: "string list"
  cmd_env :: "string list"
  cmd_dir :: string
  cmd_timeout :: int

definition normalized :: "command_spec \<Rightarrow> go_error + command_spec" where
  "normalized s =
     (if \<not> path_is_abs (cmd_path s) \<or> CHR 0x00 \<in> set (cmd_path s)
      then Inl (policy_error ErrInvalidCommandSpec ''executable must be absolute and NUL-free'')
      else if list_ex (\<lambda>arg. CHR 0x00 \<in> set arg) (cmd_args s)
      then Inl (policy_error ErrInvalidCommandSpec ''argument contains NUL'')
      else let s' = (if cmd_dir s = '''' then s\<lparr>cmd_dir := ''/''\<rparr> else s)
        in if \<not> path_is_abs (cmd_dir s') \<or> CHR 0x00 \<in> set (cmd_dir s')
           then Inl (policy_error ErrInvalidCommandSpec ''directory must be absolute and NUL-free'')
           else if cmd_timeout s' < 0 then Inl (policy_error ErrInvalidCommandSpec ''negative timeout'')
           else Inr s')"

section \<open>The environment of an inspection (runtime/podman/commands.go)\<close>

definition inspection_env_names :: "string list" where
  "inspection_env_names = [''HOME'', ''XDG_CONFIG_HOME'', ''XDG_DATA_HOME'', ''XDG_RUNTIME_DIR'']"

definition cut_entry :: "string \<Rightarrow> string \<times> string" where
  "cut_entry entry = (case cut_at CHR ''='' entry of Some (name, v) \<Rightarrow> (name, v) | None \<Rightarrow> (entry, ''''))"

definition directory_values :: "string list \<Rightarrow> (string \<times> string) list" where
  "directory_values captured =
     foldl (\<lambda>values entry. case cut_entry entry of (name, v) \<Rightarrow>
       if name \<in> set inspection_env_names then AList.update name v values else values) [] captured"

definition target_environment :: "string \<Rightarrow> string list \<Rightarrow> go_error + string list" where
  "target_environment home captured =
     (let values = directory_values captured
      in if list_ex (\<lambda>(name, v). \<not> safe_info_path v) values then Inl (Err ''invalid inspection directory'')
         else if map_of values ''HOME'' \<noteq> None then new_env_policy (\<lambda>_. None) [] values
         else if \<not> safe_info_path home then Inl (Err ''current home directory is unavailable'')
         else new_env_policy (\<lambda>_. None) [] (AList.update ''HOME'' home values))"

section \<open>Qualified versions (knowledge/containers.go)\<close>

definition Containers493 :: string where "Containers493 = ''podman-4.9.3''"
definition Containers584 :: string where "Containers584 = ''podman-5.8.4''"
definition ContainersUnqualified :: string where "ContainersUnqualified = ''unqualified''"

definition containers_source_profile :: "podman_version \<Rightarrow> string" where
  "containers_source_profile v =
     (if pv_major v = 4 \<and> pv_minor v = 9 \<and> pv_patch v = 3 \<and> pv_canonical v = ''4.9.3'' then Containers493
      else if pv_major v = 5 \<and> pv_minor v = 8 \<and> pv_patch v = 4 \<and> pv_canonical v = ''5.8.4'' then Containers584
      else ContainersUnqualified)"

section \<open>A valid subpath stays below its root\<close>

lemma dots_stay: "''..'' \<in> set st \<Longrightarrow> ''..'' \<in> set (foldl (clean_element False) st ys)"
proof (induction ys arbitrary: st)
  case (Cons y ys)
  have "''..'' \<in> set (clean_element False st y)" using Cons.prems by (cases st) (auto simp: clean_element_def)
  then show ?case using Cons.IH by simp
qed simp

lemma fold_below:
  "''..'' \<notin> set (foldl (clean_element False) st ys) \<Longrightarrow>
   foldl (clean_element True) (st @ base) ys = foldl (clean_element False) st ys @ base"
proof (induction ys arbitrary: st)
  case (Cons y ys)
  have "''..'' \<notin> set (clean_element False st y)" using Cons.prems dots_stay by fastforce
  then have "clean_element True (st @ base) y = clean_element False st y @ base"
    by (cases st) (auto simp: clean_element_def split: if_splits)
  then show ?case using Cons by simp
qed simp

lemma clean_relative_no_dots:
  assumes "validate_subpath p = None"
  shows "''..'' \<notin> set (clean_elements False (split_on CHR ''/'' p))"
proof
  let ?xs = "clean_elements False (split_on CHR ''/'' p)"
  assume dots: "''..'' \<in> set ?xs"
  obtain n ys where xs: "?xs = replicate n ''..'' @ ys" "set ys \<inter> {'''', ''.'', ''..''} = {}"
    using clean_elements_clean [of False "split_on CHR ''/'' p"] unfolding clean_list_def by blast
  with dots obtain m where "n = Suc m" by (cases n) auto
  then have xs: "?xs = ''..'' # replicate m ''..'' @ ys" using xs(1) by simp
  have rel: "\<not> path_is_abs p" using assms by (simp add: validate_subpath_def split: if_splits)
  have "path_clean p = join_with ''/'' ?xs" using rel xs by (simp add: path_clean_def Let_def)
  then have "path_clean p = ''..'' \<or> has_prefix (path_clean p) ''../''"
    using xs by (cases "replicate m ''..'' @ ys") (auto simp: has_prefix_def)
  then show False using assms by (auto simp: validate_subpath_def split: if_splits)
qed

lemma split_append: "split_on c (xs @ c # ys) = split_on c xs @ split_on c ys"
proof (induction xs)
  case (Cons x xs)
  show ?case
  proof (cases "x = c")
    case False
    then show ?thesis using Cons by (cases "split_on c xs") auto
  qed (simp add: Cons)
qed simp

lemma join_append: "xs \<noteq> [] \<Longrightarrow> ys \<noteq> [] \<Longrightarrow> join_with sep (xs @ ys) = join_with sep xs @ sep @ join_with sep ys"
  by (induction sep xs rule: join_with.induct) (auto simp: neq_Nil_conv)

lemma validate_subpath_below:
  assumes p: "validate_subpath p = None" and root: "path_is_abs root" "path_clean root = root"
  shows "path_join [root, p] = root \<or> has_prefix (path_join [root, p]) (if root = ''/'' then ''/'' else root @ ''/'')"
proof -
  let ?r = "clean_elements True (split_on CHR ''/'' root)" and ?p = "clean_elements False (split_on CHR ''/'' p)"
  have ne: "p \<noteq> ''''" "root \<noteq> ''''" using p root(1) by (auto simp: validate_subpath_def path_is_abs_def has_prefix_def split: if_splits)
  have r: "root = ''/'' @ join_with ''/'' ?r" using root by (simp add: path_clean_def Let_def)
  have abs: "path_is_abs (root @ ''/'' @ p)" using root(1) ne(2) by (cases root) (simp_all add: path_is_abs_def has_prefix_def)
  have "''..'' \<notin> set (foldl (clean_element False) [] (split_on CHR ''/'' p))"
    using clean_relative_no_dots [OF p] by (simp add: clean_elements_def)
  from fold_below [OF this, of "rev ?r"] have fold: "foldl (clean_element True) (rev ?r) (split_on CHR ''/'' p) = rev ?p @ rev ?r"
    by (simp add: clean_elements_def)
  have "clean_elements True (split_on CHR ''/'' (root @ ''/'' @ p)) = ?r @ ?p"
    using fold by (simp add: clean_elements_def split_append)
  then have join: "path_join [root, p] = ''/'' @ join_with ''/'' (?r @ ?p)"
    using ne abs by (simp add: path_join_def path_clean_def Let_def)
  show ?thesis
  proof (cases "?p = []")
    case True
    then show ?thesis using join r by simp
  next
    case False
    show ?thesis
    proof (cases "?r = []")
      case True
      then have "root = ''/''" using r by simp
      then show ?thesis using join by (simp add: has_prefix_def)
    next
      case r': False
      then have "path_join [root, p] = root @ ''/'' @ join_with ''/'' ?p" using join r join_append [OF r' False, of "''/''"] by simp
      moreover have "root \<noteq> ''/''" using r' by (auto simp: clean_elements_def clean_element_def)
      ultimately show ?thesis by (simp add: has_prefix_def)
    qed
  qed
qed

text \<open>a subpath that passes validation cannot leave the root it is joined to: lexically, the joined
  and cleaned path is the root itself or lies below it, for every clean absolute root.
\<close>

lemma subpath_contained:
  assumes "validate_subpath p = None" and "path_is_abs root" and "path_clean root = root"
  shows "path_join [root, p] = root \<or> has_prefix (path_join [root, p]) (if root = ''/'' then ''/'' else root @ ''/'')"
  using assms by (rule validate_subpath_below)

lemma subpath_contained_witness:
  "has_prefix (path_join [''/proc'', ''self/../1/status'']) ''/proc/''"
proof -
  have "validate_subpath ''self/../1/status'' = None" "path_is_abs ''/proc''" "path_clean ''/proc'' = ''/proc''" by code_simp+
  from subpath_contained [OF this] have "path_join [''/proc'', ''self/../1/status''] = ''/proc'' \<or>
      has_prefix (path_join [''/proc'', ''self/../1/status'']) ''/proc/''" by simp
  moreover have "path_join [''/proc'', ''self/../1/status''] \<noteq> ''/proc''" by code_simp
  ultimately show ?thesis by blast
qed

end
