(* ===== verification/Podman_Config.thy ===== *)
theory Podman_Config
  imports Podman_Paths Config_Engine Config_Network
begin

text \<open>
  The probe that collects the engine and the network configuration from the sources that Podman would
  read (\<open>runtime/podman/engine.go\<close>, \<open>network\_configuration.go\<close>). File access is a parameter, as are
  the state of the context and the digest. Each access and each look at the context has its own tick
  of a clock, so files may change and the context may be cancelled between any two of them.
\<close>

section \<open>Services and state\<close>

record services =
  ctx_err :: "nat \<Rightarrow> go_error option"
  fs_stat :: "nat \<Rightarrow> string \<Rightarrow> go_error option"
  fs_read_file :: "nat \<Rightarrow> string \<Rightarrow> go_error + string"
  fs_readlink :: "nat \<Rightarrow> string \<Rightarrow> go_error option"
  fs_read_dir :: "nat \<Rightarrow> string \<Rightarrow> go_error + (string \<times> bool) list"
  sha256_hex :: "string \<Rightarrow> string"
  toml :: "string \<Rightarrow> go_error + toml_table"

definition EngineConfigID :: string where "EngineConfigID = ''podman.configuration.engine''"
definition NetworkConfigID :: string where "NetworkConfigID = ''podman.configuration.network''"
definition MaxConfigSources :: nat where "MaxConfigSources = 64"
definition MaxConfigTotalBytes :: nat where "MaxConfigTotalBytes = 1048576"

record network_collector =
  nc_config :: configuration_observation
  nc_diagnostics :: "diagnostic list"
  nc_pending :: "configuration_source option"
  nc_complete :: bool
  nc_applicable :: bool

record engine_collector =
  ec_config :: configuration_observation
  ec_diagnostics :: "diagnostic list"
  ec_network :: "network_collector option"
  ec_file_count :: nat
  ec_total_bytes :: nat
  ec_complete :: bool
  ec_applicable :: bool
  ec_limit :: bool
  ec_tick :: nat

definition empty_source :: configuration_source where
  "empty_source = \<lparr>src_network = None, src_phase = '''', src_storage = None, src_id = '''', src_path = '''', src_kind = '''',
     src_status = '''', src_order = 0, src_selected = False, src_applied = False, src_sha256 = '''', src_field = '''',
     src_problem = '''', src_engine = None\<rparr>"

text \<open>\<open>err.Error()\<close> of the parsers' errors, and the field of the innermost \<open>FieldError\<close>.\<close>

fun error_text :: "go_error \<Rightarrow> string" where
  "error_text (Err s) = s"
| "error_text (Errf f args) = f"
| "error_text (Wrapf f [] args) = f"
| "error_text (Wrapf f (e # es) args) = error_text e"

definition error_field :: "go_error \<Rightarrow> string option" where
  "error_field err = (case err of Wrapf f _ (field # _) \<Rightarrow> if f = ''FieldError'' then Some field else None | _ \<Rightarrow> None)"

definition with_problem :: "go_error \<Rightarrow> configuration_source \<Rightarrow> configuration_source" where
  "with_problem err s =
     (let s' = s\<lparr>src_problem := error_text err\<rparr>
      in case error_field err of None \<Rightarrow> s' | Some field \<Rightarrow> s'\<lparr>src_field := field\<rparr>)"

definition settled :: "string \<Rightarrow> bool" where
  "settled status \<longleftrightarrow> status \<in> {''parsed'', ''listed'', ''absent'', ''symlink_skipped''}"

section \<open>The network family (network\_configuration.go)\<close>

definition network_source :: "configuration_source \<Rightarrow> configuration_source" where
  "network_source s = s\<lparr>src_id := NetworkConfigID @ ''.source.'' @ decimal_string (src_order s), src_engine := None\<rparr>"

definition network_failure :: "go_error \<Rightarrow> string \<times> bool" where
  "network_failure err =
     (if errors_is err ErrConfigMalformed then (''malformed'', True)
      else if errors_is err ErrConfigFieldInvalid then (''invalid'', True)
      else if errors_is err ErrConfigLimit then (''limit'', False)
      else (''unsupported'', False))"

definition empty_network_configuration :: network_configuration where
  "empty_network_configuration = \<lparr>n_strings = [], n_lists = [], n_dns_bind_port = None, n_pasta_options = None,
     n_helper_paths = [], n_engine_source_id = '''', n_unprojected_field_count = 0\<rparr>"

definition network_file :: "services \<Rightarrow> configuration_source \<Rightarrow> string \<Rightarrow> network_collector \<Rightarrow> network_collector" where
  "network_file env s data n =
     (let src = network_source s; c = nc_config n
      in case parse_network (toml env) data (c_profile c \<noteq> Containers493) of
           Inl err \<Rightarrow>
             (let (status, measured) = network_failure err
              in n\<lparr>nc_config := c\<lparr>c_parse_complete := False\<rparr>, nc_applicable := False,
                   nc_complete := nc_complete n \<and> measured,
                   nc_pending := Some ((with_problem err src)\<lparr>src_status := status\<rparr>)\<rparr>)
         | Inr layer \<Rightarrow>
             (let src' = src\<lparr>src_status := ''parsed'',
                    src_network := Some (merge_network empty_network_configuration layer (src_id src))\<rparr>
              in if nc_applicable n
                 then n\<lparr>nc_config := c\<lparr>c_network := map_option (\<lambda>old. merge_network old layer (src_id src)) (c_network c)\<rparr>,
                        nc_pending := Some (src'\<lparr>src_applied := True\<rparr>)\<rparr>
                 else n\<lparr>nc_pending := Some src'\<rparr>))"

text \<open>Retaining a source that no document was read for.\<close>

definition network_unread :: "configuration_source \<Rightarrow> network_collector \<Rightarrow> network_collector" where
  "network_unread s n =
     (if src_status s \<in> {''listed'', ''absent'', ''symlink_skipped''} then n
      else if src_status s = ''stat_denied'' \<or> src_status s = ''stat_incomplete'' then n\<lparr>nc_complete := False\<rparr>
      else n\<lparr>nc_complete := False, nc_applicable := False, nc_config := (nc_config n)\<lparr>c_parse_complete := False\<rparr>\<rparr>)"

definition network_append :: "configuration_source \<Rightarrow> network_collector \<Rightarrow> network_collector" where
  "network_append src n =
     n\<lparr>nc_config := (nc_config n)\<lparr>c_sources := c_sources (nc_config n) @ [src]\<rparr>,
       nc_diagnostics := nc_diagnostics n @ (if settled (src_status src) then []
         else [\<lparr>code = ''config_source_'' @ src_status src,
                msg = Text (''network configuration source is '' @ src_status src), reference = src_id src\<rparr>])\<rparr>"

definition network_retain :: "configuration_source \<Rightarrow> network_collector \<Rightarrow> network_collector" where
  "network_retain s n =
     (case nc_pending n of
        Some src \<Rightarrow> network_append src (n\<lparr>nc_pending := None\<rparr>)
      | None \<Rightarrow> network_append ((network_source s)\<lparr>src_applied := False\<rparr>) (network_unread s n))"

definition network_defaults :: "string \<Rightarrow> string \<Rightarrow> network_configuration" where
  "network_defaults profile source =
     (let plain = \<lparr>cl_invalid_indices = [], cl_unmodeled_indices = [], cl_values = [], cl_origins = [], cl_source_id = source,
            cl_append = None, cl_inherited_default = False\<rparr>
      in \<lparr>n_strings = [(rootlessCommandField, \<lparr>cs_invalid = False,
             cs_value = (if profile = Containers493 then ''slirp4netns'' else ''pasta''), cs_source_id = source\<rparr>)],
          n_lists = map (\<lambda>key. (key, plain)) [dnsServersField, dnsOptionsField, dnsSearchesField, slirpOptionsField],
          n_dns_bind_port = Some \<lparr>cu_value = 0, cu_source_id = source\<rparr>,
          n_pasta_options = Some \<lparr>cr_count = 0, cr_source_id = source, cr_append = None, cr_inherited_default = False\<rparr>,
          n_helper_paths = [], n_engine_source_id = '''', n_unprojected_field_count = 0\<rparr>)"

section \<open>The engine family (engine.go)\<close>

definition ctx_stopped :: "services \<Rightarrow> engine_collector \<Rightarrow> bool" where
  "ctx_stopped env ec \<longleftrightarrow> ctx_err env (ec_tick ec) \<noteq> None"

definition tick :: "engine_collector \<Rightarrow> engine_collector" where
  "tick ec = ec\<lparr>ec_tick := ec_tick ec + 1\<rparr>"

definition new_source :: "string \<Rightarrow> string \<Rightarrow> engine_collector \<Rightarrow> configuration_source" where
  "new_source name kind ec =
     (let n = length (c_sources (ec_config ec))
      in empty_source\<lparr>src_id := EngineConfigID @ ''.source.'' @ decimal_string n, src_path := name, src_kind := kind,
           src_order := n, src_selected := (c_profile (ec_config ec) \<noteq> ContainersUnqualified)\<rparr>)"

definition retain :: "configuration_source \<Rightarrow> engine_collector \<Rightarrow> engine_collector" where
  "retain src ec =
     ec\<lparr>ec_network := map_option (network_retain src) (ec_network ec),
        ec_config := (ec_config ec)\<lparr>c_sources := c_sources (ec_config ec) @ [src]\<rparr>,
        ec_diagnostics := ec_diagnostics ec @ (if settled (src_status src) then []
          else [\<lparr>code = ''config_source_'' @ src_status src,
                 msg = Text (''selected configuration source is '' @ src_status src @
                   (if src_field src \<noteq> '''' then '' in '' @ src_field src else '''')), reference = src_id src\<rparr>])\<rparr>"

definition failure_status :: "go_error \<Rightarrow> string" where
  "failure_status err =
     (if errors_is err ErrPermission then ''denied''
      else if errors_is err ErrConfigFieldUnsupported \<or> errors_is err ErrConfigSyntaxUnsupported then ''unsupported''
      else if errors_is err ErrConfigLimit \<or> errors_is err ErrLimitExceeded then ''limit''
      else ''incomplete'')"

text \<open>What \<open>readFailure\<close> does to the collector.\<close>

definition read_failed :: "engine_collector \<Rightarrow> engine_collector" where
  "read_failed ec = ec\<lparr>ec_complete := False, ec_applicable := False, ec_config := (ec_config ec)\<lparr>c_parse_complete := False\<rparr>\<rparr>"

definition unselect :: "engine_collector \<Rightarrow> engine_collector" where
  "unselect ec = ec\<lparr>ec_config := (ec_config ec)\<lparr>c_selection_complete := False\<rparr>\<rparr>"

definition empty_engine_configuration :: engine_configuration where
  "empty_engine_configuration = \<lparr>e_runtime = None, e_cgroup_manager = None, e_runtimes = [], e_conmon_path = None,
     e_helper_binaries_dir = None, e_runtime_path = None, e_environment = None, e_selection_overrides = False,
     e_unprojected_field_count = 0\<rparr>"

text \<open>The end of \<open>file\<close>, for a document that was read within the limits.\<close>

definition parse_file :: "services \<Rightarrow> configuration_source \<Rightarrow> string \<Rightarrow> engine_collector \<Rightarrow> engine_collector" where
  "parse_file env src data ec =
     (case parse_engine (toml env) data of
        Inl err \<Rightarrow>
          let ec' = ec\<lparr>ec_applicable := False, ec_config := (ec_config ec)\<lparr>c_parse_complete := False\<rparr>\<rparr>;
              src' = with_problem err src
          in if errors_is err ErrConfigMalformed then retain (src'\<lparr>src_status := ''malformed''\<rparr>) ec'
             else if errors_is err ErrConfigFieldInvalid then retain (src'\<lparr>src_status := ''invalid''\<rparr>) ec'
             else retain (src'\<lparr>src_status := failure_status err\<rparr>) (read_failed ec')
      | Inr layer \<Rightarrow>
          let src' = src\<lparr>src_status := ''parsed'', src_engine := Some (merge_engine empty_engine_configuration layer (src_id src))\<rparr>
          in if ec_applicable ec
             then retain (src'\<lparr>src_applied := True\<rparr>)
                    (ec\<lparr>ec_config := (ec_config ec)\<lparr>c_engine := map_option (\<lambda>old. merge_engine old layer (src_id src)) (c_engine (ec_config ec))\<rparr>\<rparr>)
             else retain src' ec)"

definition limit_reached :: "configuration_source \<Rightarrow> engine_collector \<Rightarrow> engine_collector" where
  "limit_reached src ec =
     retain (src\<lparr>src_status := failure_status ErrConfigLimit\<rparr>) ((unselect (read_failed ec))\<lparr>ec_limit := True\<rparr>)"

definition read_file :: "services \<Rightarrow> configuration_source \<Rightarrow> string \<Rightarrow> engine_collector \<Rightarrow> engine_collector" where
  "read_file env src name ec =
     (case fs_read_file env (ec_tick ec) (trim_root name) of
        Inl err \<Rightarrow>
          if errors_is err ErrNotExist \<and> c_profile (ec_config ec) \<noteq> Containers493
          then retain (src\<lparr>src_status := ''absent''\<rparr>) (tick ec)
          else retain (src\<lparr>src_status := failure_status err\<rparr>) (read_failed (tick ec))
      | Inr data \<Rightarrow>
          let ec' = (tick ec)\<lparr>ec_total_bytes := ec_total_bytes ec + length data\<rparr>
          in if ec_total_bytes ec' > MaxConfigTotalBytes then limit_reached src ec'
             else let src' = src\<lparr>src_sha256 := sha256_hex env data\<rparr>
               in parse_file env src' data (ec'\<lparr>ec_network := map_option (network_file env src' data) (ec_network ec')\<rparr>))"

definition collect_file :: "services \<Rightarrow> string \<Rightarrow> bool \<Rightarrow> engine_collector \<Rightarrow> engine_collector" where
  "collect_file env name optional_stat ec =
     (let src = new_source name ''file'' ec; ec' = ec\<lparr>ec_file_count := ec_file_count ec + 1\<rparr>
      in if ec_file_count ec' > MaxConfigSources then limit_reached src ec'
         else if optional_stat then
           (case fs_stat env (ec_tick ec') (trim_root name) of
              Some err \<Rightarrow>
                if errors_is err ErrNotExist
                then retain (src\<lparr>src_selected := False, src_status := ''absent''\<rparr>) (tick ec')
                else retain (src\<lparr>src_selected := False,
                       src_status := (if errors_is err ErrPermission then ''stat_denied'' else ''stat_incomplete'')\<rparr>)
                       ((tick ec')\<lparr>ec_complete := False\<rparr>)
            | None \<Rightarrow> read_file env src name (tick ec'))
         else read_file env src name ec')"

text \<open>The loop over the entries of a directory; it stops at a limit or when the context is cancelled.\<close>

definition is_drop_in :: "string \<times> bool \<Rightarrow> bool" where
  "is_drop_in = (\<lambda>(name, is_dir). \<not> is_dir \<and> has_suffix name ''.conf'')"

definition reject_name :: "string \<Rightarrow> engine_collector \<Rightarrow> engine_collector" where
  "reject_name source_id ec =
     ec\<lparr>ec_config := (ec_config ec)\<lparr>c_selection_complete := False, c_parse_complete := False\<rparr>,
        ec_complete := False, ec_applicable := False,
        ec_diagnostics := ec_diagnostics ec @ [\<lparr>code = ''config_source_name_unsupported'',
          msg = Text ''drop-in directory contains an unsupported source name'', reference = source_id\<rparr>]\<rparr>"

fun collect_entries :: "services \<Rightarrow> string \<Rightarrow> string \<Rightarrow> (string \<times> bool) list \<Rightarrow> engine_collector \<Rightarrow> engine_collector" where
  "collect_entries env name source_id [] ec = ec"
| "collect_entries env name source_id (entry # entries) ec =
     (if \<not> is_drop_in entry then collect_entries env name source_id entries ec
      else if \<not> safe_info_path (path_join [name, fst entry])
      then collect_entries env name source_id entries (reject_name source_id ec)
      else let ec' = collect_file env (path_join [name, fst entry]) False ec
        in if ec_limit ec' then ec'
           else if ctx_stopped env ec' then tick ec'
           else collect_entries env name source_id entries (tick ec'))"

definition list_directory :: "services \<Rightarrow> configuration_source \<Rightarrow> string \<Rightarrow> engine_collector \<Rightarrow> engine_collector" where
  "list_directory env src name ec =
     (case fs_read_dir env (ec_tick ec) (trim_root name) of
        Inl err \<Rightarrow>
          if errors_is err ErrNotExist then retain (src\<lparr>src_status := ''absent''\<rparr>) (tick ec)
          else retain (src\<lparr>src_status := failure_status err\<rparr>) (unselect (read_failed (tick ec)))
      | Inr entries \<Rightarrow> collect_entries env name (src_id src) entries (retain (src\<lparr>src_status := ''listed''\<rparr>) (tick ec)))"

definition collect_directory :: "services \<Rightarrow> string \<Rightarrow> engine_collector \<Rightarrow> engine_collector" where
  "collect_directory env name ec =
     (let src = new_source name ''directory'' ec
      in if c_profile (ec_config ec) = Containers493 then
           (case fs_readlink env (ec_tick ec) (trim_root name) of
              None \<Rightarrow> retain (src\<lparr>src_status := ''symlink_skipped''\<rparr>) (tick ec)
            | Some err \<Rightarrow>
                if \<not> errors_is err ErrNotExist \<and> \<not> errors_is err EINVAL
                then retain (src\<lparr>src_status := failure_status err\<rparr>) (unselect (read_failed (tick ec)))
                else list_directory env src name (tick ec))
         else list_directory env src name ec)"

definition engine_source_plan :: "string \<Rightarrow> 32 word \<Rightarrow> string \<Rightarrow> (string \<times> bool) list" where
  "engine_source_plan profile u config_home =
     (let system = ''/etc/containers/containers.conf''; rootless = ''/etc/containers/containers.rootless.conf'';
          user = path_join [config_home, ''containers/containers.conf'']
      in [(''/usr/share/containers/containers.conf'', False), (system, False), (system @ ''.d'', True)] @
         (if profile \<noteq> Containers493 \<and> u \<noteq> 0
          then [(rootless, False), (rootless @ ''.d'', True), (rootless @ ''.d/'' @ decimal_string (unat u), True)] else []) @
         (if profile \<noteq> Containers493 \<or> u \<noteq> 0 then [(user, False), (user @ ''.d'', True)] else []))"

fun collect_plan :: "services \<Rightarrow> (string \<times> bool) list \<Rightarrow> engine_collector \<Rightarrow> engine_collector" where
  "collect_plan env [] ec = ec"
| "collect_plan env ((name, is_directory) # plan) ec =
     (if ctx_stopped env ec \<or> ec_limit ec
      then (tick ec)\<lparr>ec_config := (ec_config ec)\<lparr>c_selection_complete := False, c_parse_complete := False\<rparr>, ec_complete := False\<rparr>
      else collect_plan env plan
        (if is_directory then collect_directory env name (tick ec)
         else collect_file env name (c_profile (ec_config ec) = Containers493) (tick ec)))"

end
