(* ===== verification/Podman_Observation.thy ===== *)
theory Podman_Observation
  imports Podman_Paths Model_Observation
begin

text \<open>
  The observations that the Podman probes start from, and how a failure marks one as incomplete
  (\<open>runtime/podman/discovery.go\<close>, \<open>info\_probe.go\<close>). Time is an argument.
\<close>

definition blank_fact :: fact where
  "blank_fact = \<lparr>f_id = '''', f_scope = empty_scope, f_completeness = Complete, f_source = '''', f_raw_data = '''',
     f_text = '''', f_timestamp = 0\<rparr>"

definition blank_observation :: observation where
  "blank_observation = \<lparr>ob_storage_paths = None, ob_configuration = None, ob_quadlet = None, ob_executable = None,
     ob_user_context = None, ob_subids = None, ob_authority = '''', ob_identity = None, ob_host = None,
     ob_podman_helper = None, ob_id = '''', ob_probe_id = '''', ob_timestamp = 0, ob_summary = '''', ob_scope = empty_scope,
     ob_completeness = Complete, ob_facts = [], ob_diagnostics = [], ob_podman = None, ob_discovery = None, ob_version = None\<rparr>"

definition runtime_observation :: "string \<Rightarrow> scope \<Rightarrow> instant \<Rightarrow> observation" where
  "runtime_observation i s at = blank_observation\<lparr>ob_id := i, ob_probe_id := i, ob_scope := s, ob_timestamp := at,
     ob_completeness := Complete,
     ob_facts := [blank_fact\<lparr>f_id := i @ ''.measurement'', f_scope := s, f_timestamp := at, f_source := i,
       f_completeness := Complete\<rparr>]\<rparr>"

definition note_diagnostic :: "string \<Rightarrow> string \<Rightarrow> observation \<Rightarrow> observation" where
  "note_diagnostic c m obs =
     obs\<lparr>ob_diagnostics := ob_diagnostics obs @ [\<lparr>code = c, msg = Text m, reference = ''''\<rparr>]\<rparr>"

definition incomplete_observation :: "string \<Rightarrow> observation \<Rightarrow> observation" where
  "incomplete_observation c obs = note_diagnostic c ''runtime observation is incomplete'' (obs\<lparr>ob_completeness := Partial\<rparr>)"

text \<open>The first fact is the measurement itself.\<close>

definition partial_measurement :: "observation \<Rightarrow> observation" where
  "partial_measurement obs =
     (case ob_facts obs of [] \<Rightarrow> obs | f # fs \<Rightarrow> obs\<lparr>ob_facts := f\<lparr>f_completeness := Partial\<rparr> # fs\<rparr>)"

definition failed_runtime_observation :: "string \<Rightarrow> observation \<Rightarrow> observation" where
  "failed_runtime_observation c obs = incomplete_observation c (partial_measurement obs)"

named_theorems observation_simps

lemma runtime_observation_fields [observation_simps]:
  "ob_id (runtime_observation i s at) = i" "ob_scope (runtime_observation i s at) = s"
  "ob_completeness (runtime_observation i s at) = Complete" "ob_configuration (runtime_observation i s at) = None"
  "ob_diagnostics (runtime_observation i s at) = []" "ob_timestamp (runtime_observation i s at) = at"
  "ob_executable (runtime_observation i s at) = None" "ob_version (runtime_observation i s at) = None"
  "ob_discovery (runtime_observation i s at) = None" "ob_podman (runtime_observation i s at) = None"
  by (simp_all add: runtime_observation_def blank_observation_def)

lemma partial_measurement_fields [observation_simps]:
  "ob_id (partial_measurement obs) = ob_id obs" "ob_scope (partial_measurement obs) = ob_scope obs"
  "ob_configuration (partial_measurement obs) = ob_configuration obs"
  "ob_completeness (partial_measurement obs) = ob_completeness obs"
  "ob_diagnostics (partial_measurement obs) = ob_diagnostics obs"
  "ob_executable (partial_measurement obs) = ob_executable obs" "ob_version (partial_measurement obs) = ob_version obs"
  "ob_discovery (partial_measurement obs) = ob_discovery obs" "ob_podman (partial_measurement obs) = ob_podman obs"
  by (simp_all add: partial_measurement_def split: list.splits)

lemma incomplete_fields [observation_simps]:
  "ob_id (incomplete_observation c obs) = ob_id obs" "ob_scope (incomplete_observation c obs) = ob_scope obs"
  "ob_configuration (incomplete_observation c obs) = ob_configuration obs"
  "ob_completeness (incomplete_observation c obs) = Partial"
  "ob_executable (incomplete_observation c obs) = ob_executable obs" "ob_version (incomplete_observation c obs) = ob_version obs"
  "ob_discovery (incomplete_observation c obs) = ob_discovery obs" "ob_podman (incomplete_observation c obs) = ob_podman obs"
  by (simp_all add: incomplete_observation_def note_diagnostic_def)

lemma failed_fields [observation_simps]:
  "ob_id (failed_runtime_observation c obs) = ob_id obs" "ob_scope (failed_runtime_observation c obs) = ob_scope obs"
  "ob_configuration (failed_runtime_observation c obs) = ob_configuration obs"
  "ob_completeness (failed_runtime_observation c obs) = Partial"
  "ob_executable (failed_runtime_observation c obs) = ob_executable obs" "ob_version (failed_runtime_observation c obs) = ob_version obs"
  "ob_discovery (failed_runtime_observation c obs) = ob_discovery obs" "ob_podman (failed_runtime_observation c obs) = ob_podman obs"
  by (simp_all add: failed_runtime_observation_def observation_simps)

end
