(* ===== verification/Podman_Engine.thy ===== *)
theory Podman_Engine
  imports Podman_Config Podman_Observation Catalog_Network
begin

text \<open>
  The configuration probe around the collectors of Podman\_Config: the profile of the measured version,
  \<open>run\<close> and \<open>Collect\<close> (\<open>runtime/podman/engine.go\<close>), and the network family's construction, completion
  and helper search plans (\<open>network\_configuration.go\<close>).
\<close>

section \<open>The probe and its profile\<close>

text \<open>\<open>ep_now n\<close> is the \<open>n\<close>-th reading of the probe's clock.\<close>

record engine_probe =
  ep_target :: user_identity
  ep_environment :: "string list"
  ep_environment_error :: "go_error option"
  ep_version :: observation
  ep_path :: string
  ep_now :: "nat \<Rightarrow> instant"

definition engine_profile :: "engine_probe \<Rightarrow> scope \<Rightarrow> string" where
  "engine_profile p s =
     (let obs = ep_version p
      in if ob_id obs = '''' \<or> ob_scope obs \<noteq> s \<or> ob_completeness obs \<noteq> Complete then ContainersUnqualified
         else case ob_version obs of
           None \<Rightarrow> ContainersUnqualified
         | Some v \<Rightarrow>
             if v_path v \<noteq> ep_path p \<or> v_runnable v \<noteq> Some True then ContainersUnqualified
             else case v_version v of None \<Rightarrow> ContainersUnqualified | Some ver \<Rightarrow> containers_source_profile ver)"

definition Containers493Source :: string where
  "Containers493Source = ''https://github.com/containers/podman/blob/v4.9.3/vendor/github.com/containers/common/pkg/config/new.go''"
definition Containers584Source :: string where
  "Containers584Source = ''https://github.com/containers/podman/blob/v5.8.4/vendor/go.podman.io/common/pkg/config/new.go''"

definition networkLegacySourceRoot :: string where
  "networkLegacySourceRoot = ''https://github.com/containers/podman/blob/v4.9.3/''"
definition networkModernSourceRoot :: string where
  "networkModernSourceRoot = ''https://github.com/containers/podman/blob/v5.8.4/''"

definition network_references :: "string list" where
  "network_references = [Containers493Source, Containers584Source,
     networkLegacySourceRoot @ ''vendor/github.com/containers/common/pkg/config/default.go'',
     networkModernSourceRoot @ ''vendor/go.podman.io/common/pkg/config/default.go'',
     networkLegacySourceRoot @ ''vendor/github.com/containers/common/pkg/config/config.go'',
     networkModernSourceRoot @ ''vendor/go.podman.io/common/pkg/config/config.go'',
     networkLegacySourceRoot @ ''pkg/specgen/generate/container_create.go'',
     networkModernSourceRoot @ ''pkg/specgen/generate/container_create.go'',
     networkModernSourceRoot @ ''vendor/go.podman.io/common/libnetwork/slirp4netns/slirp4netns.go'',
     networkModernSourceRoot @ ''libpod/container_internal_common.go'']"

definition initial_configuration :: "string \<Rightarrow> string \<Rightarrow> string list \<Rightarrow> engine_probe \<Rightarrow> scope \<Rightarrow> configuration_observation" where
  "initial_configuration family source_id references p s =
     (let profile = engine_profile p s
      in \<lparr>c_network = None, c_storage = None, c_family = family, c_runtime_path = ep_path p,
          c_version_source_id = (if profile \<noteq> ContainersUnqualified then source_id else ''''), c_profile = profile,
          c_references = references, c_selection_complete = (profile \<noteq> ContainersUnqualified), c_parse_complete = True,
          c_sources = [], c_engine = None\<rparr>)"

section \<open>The engine family: \<open>run\<close>\<close>

definition engine_configuration_start :: "engine_probe \<Rightarrow> scope \<Rightarrow> configuration_observation" where
  "engine_configuration_start p s =
     (let c = initial_configuration ''engine'' (ob_id (ep_version p)) [Containers493Source, Containers584Source] p s
      in if c_selection_complete c then c\<lparr>c_engine := Some empty_engine_configuration\<rparr> else c)"

definition config_home :: "string list \<Rightarrow> string" where
  "config_home policy =
     (let values = directory_values policy;
          home = (case map_of values ''HOME'' of None \<Rightarrow> '''' | Some h \<Rightarrow> h)
      in case map_of values ''XDG_CONFIG_HOME'' of
           None \<Rightarrow> home @ ''/.config''
         | Some dir \<Rightarrow> if dir = '''' then home @ ''/.config'' else dir)"

text \<open>A failure before any source was looked at.\<close>

definition unavailable :: "configuration_observation \<Rightarrow> observation \<Rightarrow> observation" where
  "unavailable c obs = failed_runtime_observation ''config_environment_unavailable''
     (obs\<lparr>ob_configuration := Some (c\<lparr>c_selection_complete := False, c_parse_complete := False\<rparr>)\<rparr>)"

definition start_collector :: "configuration_observation \<Rightarrow> network_collector option \<Rightarrow> engine_collector" where
  "start_collector c network = \<lparr>ec_config = c, ec_diagnostics = [], ec_network = network, ec_file_count = 0, ec_total_bytes = 0,
     ec_complete = True, ec_applicable = c_selection_complete c, ec_limit = False, ec_tick = 0\<rparr>"

definition collect_sources :: "services \<Rightarrow> engine_probe \<Rightarrow> configuration_observation \<Rightarrow> string list \<Rightarrow> network_collector option \<Rightarrow>
    engine_collector" where
  "collect_sources env p c policy network =
     collect_plan env (engine_source_plan (c_profile c) (uid (ep_target p)) (config_home policy)) (start_collector c network)"

definition engine_observation :: "engine_collector \<Rightarrow> observation \<Rightarrow> observation" where
  "engine_observation ec obs =
     (let obs' = obs\<lparr>ob_configuration := Some (ec_config ec), ob_diagnostics := ob_diagnostics obs @ ec_diagnostics ec\<rparr>
      in if \<not> ec_complete ec \<or> c_profile (ec_config ec) = ContainersUnqualified
         then failed_runtime_observation ''config_evidence_incomplete'' obs' else obs')"

definition engine_run :: "services \<Rightarrow> bool \<Rightarrow> engine_probe \<Rightarrow> scope \<Rightarrow> instant \<Rightarrow> network_collector option \<Rightarrow>
    observation \<times> network_collector option \<times> go_error option" where
  "engine_run env files p s at network =
     (let obs = runtime_observation EngineConfigID s at; c = engine_configuration_start p s
      in if ep_environment_error p \<noteq> None \<or> \<not> files then (unavailable c obs, network, Some ErrIncomplete)
         else case target_environment (home_dir (ep_target p)) (ep_environment p) of
           Inl err \<Rightarrow> (unavailable c obs, network, Some err)
         | Inr policy \<Rightarrow>
             let ec = collect_sources env p c policy network
             in (engine_observation ec obs, ec_network ec, ctx_err env (ec_tick ec)))"

section \<open>The network family: construction and search plans\<close>

definition network_configuration_start :: "engine_probe \<Rightarrow> scope \<Rightarrow> configuration_observation" where
  "network_configuration_start p s =
     (let c = initial_configuration ''network'' (ob_id (ep_version p)) network_references p s
      in if c_selection_complete c then c\<lparr>c_network := Some (network_defaults (c_profile c) (ob_id (ep_version p)))\<rparr> else c)"

definition new_network_collector :: "engine_probe \<Rightarrow> scope \<Rightarrow> network_collector" where
  "new_network_collector p s =
     (let c = network_configuration_start p s
      in \<lparr>nc_config = c, nc_diagnostics = [], nc_pending = None, nc_complete = True, nc_applicable = c_selection_complete c\<rparr>)"

text \<open>The loop over the configured directories; a \<open>$BINDIR\<close> entry inherits the default and ends it.\<close>

definition network_roles :: "string list" where
  "network_roles = [''netavark'', ''aardvark_dns'', ''pasta'', ''slirp4netns'']"

definition list_origin :: "config_list \<Rightarrow> nat \<Rightarrow> string" where
  "list_origin dirs i = (if i < length (cl_origins dirs) then cl_origins dirs ! i else cl_source_id dirs)"

fun search_directories :: "config_list \<Rightarrow> string \<Rightarrow> nat \<Rightarrow> string list \<Rightarrow> config_list \<Rightarrow> config_list" where
  "search_directories dirs role i [] plan = plan"
| "search_directories dirs role i (directory # rest) plan =
     (if contains_sub directory ''$BINDIR'' then plan\<lparr>cl_inherited_default := True\<rparr>
      else search_directories dirs role (Suc i) rest
        (plan\<lparr>cl_values := cl_values plan @ [path_join [directory, if role = ''aardvark_dns'' then ''aardvark-dns'' else role]],
              cl_origins := cl_origins plan @ [list_origin dirs i]\<rparr>))"

definition empty_plan :: "string \<Rightarrow> config_list" where
  "empty_plan source = \<lparr>cl_invalid_indices = [], cl_unmodeled_indices = [], cl_values = [], cl_origins = [],
     cl_source_id = source, cl_append = None, cl_inherited_default = False\<rparr>"

definition search_plan :: "config_list \<Rightarrow> string \<Rightarrow> string \<Rightarrow> config_list" where
  "search_plan dirs role source =
     (let plan = search_directories dirs role 0 (cl_values dirs) (empty_plan (cl_source_id dirs))
      in if role = ''pasta'' \<or> role = ''slirp4netns''
         then plan\<lparr>cl_values := cl_values plan @ map (\<lambda>directory. path_join [directory, role]) [''/usr/bin'', ''/bin''],
                   cl_origins := cl_origins plan @ [source, source]\<rparr>
         else plan)"

definition helper_plan :: "engine_configuration \<Rightarrow> network_configuration \<Rightarrow> string \<Rightarrow> string \<Rightarrow> (string \<times> config_list) list" where
  "helper_plan e n source role =
     (case (if role = ''slirp4netns'' then map_of (n_strings n) ''engine.network_cmd_path'' else None) of
        Some selected \<Rightarrow>
          if cs_value selected \<noteq> ''''
          then [(role, (empty_plan (cs_source_id selected))\<lparr>cl_values := [cs_value selected], cl_origins := [cs_source_id selected]\<rparr>)]
          else (case e_helper_binaries_dir e of
                  None \<Rightarrow> []
                | Some dirs \<Rightarrow> if cl_inherited_default dirs then [] else [(role, search_plan dirs role source)])
      | None \<Rightarrow> (case e_helper_binaries_dir e of
                  None \<Rightarrow> []
                | Some dirs \<Rightarrow> if cl_inherited_default dirs then [] else [(role, search_plan dirs role source)]))"

definition plan_engine :: "observation \<Rightarrow> engine_configuration option" where
  "plan_engine engine =
     (case ob_configuration engine of
        None \<Rightarrow> None
      | Some c \<Rightarrow> (case c_engine c of
          None \<Rightarrow> None
        | Some e \<Rightarrow>
            if \<not> c_selection_complete c \<or> \<not> c_parse_complete c \<or> ob_completeness engine \<noteq> Complete \<or>
               (case e_cgroup_manager e of None \<Rightarrow> False | Some m \<Rightarrow> cs_invalid m) \<or> environment_overridden e
            then None else Some e))"

definition network_helper_paths :: "observation \<Rightarrow> network_configuration \<Rightarrow> string \<Rightarrow> (string \<times> config_list) list" where
  "network_helper_paths engine n source =
     (case plan_engine engine of None \<Rightarrow> [] | Some e \<Rightarrow> concat (map (helper_plan e n source) network_roles))"

section \<open>Completion and \<open>Collect\<close>\<close>

definition finish_network :: "observation \<Rightarrow> network_configuration \<Rightarrow> network_configuration" where
  "finish_network engine n =
     (let n' = n\<lparr>n_engine_source_id := ob_id engine\<rparr>
      in n'\<lparr>n_helper_paths := network_helper_paths engine n' NetworkConfigID\<rparr>)"

definition network_finish :: "observation \<Rightarrow> scope \<Rightarrow> instant \<Rightarrow> network_collector \<Rightarrow> observation" where
  "network_finish engine s at nc =
     (let c = nc_config nc;
          selected = c_selection_complete c \<and>
            (case ob_configuration engine of None \<Rightarrow> False | Some ec \<Rightarrow> c_selection_complete ec);
          complete = nc_complete nc \<and> selected;
          c' = c\<lparr>c_selection_complete := selected, c_network := map_option (finish_network engine) (c_network c),
                 c_parse_complete := c_parse_complete c \<and> (selected \<or> c_sources c \<noteq> [])\<rparr>;
          obs = (runtime_observation NetworkConfigID s at)\<lparr>ob_configuration := Some c', ob_diagnostics := nc_diagnostics nc\<rparr>;
          unvalidated = (case c_network c of
             Some n \<Rightarrow> (case n_pasta_options n of Some opts \<Rightarrow> cr_count opts \<noteq> 0 | None \<Rightarrow> False) | None \<Rightarrow> False);
          obs' = (if unvalidated then note_diagnostic ''pasta_options_unvalidated''
             ''pasta options retain redacted cardinality and merge provenance; helper option compatibility is unverified'' obs
             else obs)
      in if complete then obs' else failed_runtime_observation ''config_evidence_incomplete'' obs')"

definition engine_collect :: "services \<Rightarrow> bool \<Rightarrow> engine_probe \<Rightarrow> scope \<Rightarrow> observation \<times> observation \<times> go_error option" where
  "engine_collect env files p s =
     (let (engine, network, err) = engine_run env files p s (ep_now p 1) (Some (new_network_collector p s))
      in (engine, network_finish engine s (ep_now p 0) (the network), err))"

end
