(* ===== verification/Podman_Config_Laws.thy ===== *)
theory Podman_Config_Laws
  imports Podman_Engine Config_Laws
begin

text \<open>
  What a collection of configuration sources guarantees: how the merged value relates to the list of
  sources it reports, which sources can be applied, and how much is read. Both families follow the same
  discipline, stated once in \<open>collected\<close>.
\<close>

section \<open>The discipline of both families\<close>

text \<open>A source before which and at which merging may go on.\<close>

definition good :: "configuration_source \<Rightarrow> bool" where
  "good src \<longleftrightarrow> (if src_status src = ''parsed'' then src_applied src
     else src_status src \<in> {''listed'', ''absent'', ''symlink_skipped'', ''stat_denied'', ''stat_incomplete''} \<and> \<not> src_applied src)"

definition applied_prefix :: "configuration_source list \<Rightarrow> bool \<Rightarrow> bool" where
  "applied_prefix sources applicable \<longleftrightarrow>
     (\<exists>front rest. sources = front @ rest \<and> list_all good front \<and> list_all (\<lambda>s. \<not> src_applied s) rest \<and>
        (applicable \<longrightarrow> rest = []))"

definition merged_sources :: "('v \<Rightarrow> 'l \<Rightarrow> string \<Rightarrow> 'v) \<Rightarrow> (configuration_source \<Rightarrow> string \<times> 'l \<Rightarrow> bool) \<Rightarrow>
    configuration_source list \<Rightarrow> 'v option \<Rightarrow> 'v option \<Rightarrow> bool" where
  "merged_sources merge document sources start v \<longleftrightarrow>
     (\<exists>layers. list_all2 document (filter src_applied sources) layers \<and>
        v = map_option (\<lambda>w. foldl (\<lambda>w (source, l). merge w l source) w layers) start)"

lemma applied_prefix_skip:
  assumes "applied_prefix sources a" "\<not> src_applied src" "a' \<Longrightarrow> a \<and> good src"
  shows "applied_prefix (sources @ [src]) a'"
proof -
  obtain front rest where f: "sources = front @ rest" "list_all good front" "list_all (\<lambda>s. \<not> src_applied s) rest" "a \<longrightarrow> rest = []"
    using assms(1) unfolding applied_prefix_def by blast
  show ?thesis
  proof (cases a')
    case True
    then show ?thesis using f assms(3) unfolding applied_prefix_def
      by (intro exI [of _ "sources @ [src]"] exI [of _ "[]"]) auto
  next
    case False
    then show ?thesis using f assms(2) unfolding applied_prefix_def
      by (intro exI [of _ front] exI [of _ "rest @ [src]"]) auto
  qed
qed

lemma applied_prefix_apply:
  "applied_prefix sources True \<Longrightarrow> good src \<Longrightarrow> applied_prefix (sources @ [src]) True"
  unfolding applied_prefix_def by (intro exI [of _ "sources @ [src]"] exI [of _ "[]"]) auto

lemma applied_prefix_weaken: "applied_prefix sources a \<Longrightarrow> (a' \<Longrightarrow> a) \<Longrightarrow> applied_prefix sources a'"
  unfolding applied_prefix_def by blast

lemma merged_sources_skip:
  "merged_sources merge document sources start v \<Longrightarrow> \<not> src_applied src \<Longrightarrow> merged_sources merge document (sources @ [src]) start v"
  unfolding merged_sources_def by simp

lemma merged_sources_apply:
  assumes "merged_sources merge document sources start v" "src_applied src" "document src (source, l)"
  shows "merged_sources merge document (sources @ [src]) start (map_option (\<lambda>w. merge w l source) v)"
proof -
  obtain layers where l: "list_all2 document (filter src_applied sources) layers"
    "v = map_option (\<lambda>w. foldl (\<lambda>w (source, l). merge w l source) w layers) start"
    using assms(1) unfolding merged_sources_def by blast
  then show ?thesis using assms(2,3) unfolding merged_sources_def
    by (intro exI [of _ "layers @ [(source, l)]"])
      (auto simp: list_all2_appendI option.map_comp comp_def)
qed

section \<open>The engine family\<close>

definition source_at :: "nat \<Rightarrow> configuration_source \<Rightarrow> bool" where
  "source_at n src \<longleftrightarrow> src_id src = EngineConfigID @ ''.source.'' @ decimal_string n \<and> src_order src = n"

definition engine_document :: "services \<Rightarrow> configuration_source \<Rightarrow> string \<times> engine_layer \<Rightarrow> bool" where
  "engine_document env src = (\<lambda>(source, l).
     source = src_id src \<and> src_engine src = Some (merge_engine no_engine l source) \<and>
     (\<exists>n data. fs_read_file env n (trim_root (src_path src)) = Inr data \<and> parse_engine (toml env) data = Inr l \<and>
        src_sha256 src = sha256_hex env data))"

text \<open>The part of the collector's state that decides about merging.\<close>

definition engine_inv :: "services \<Rightarrow> engine_configuration option \<Rightarrow> engine_collector \<Rightarrow> bool" where
  "engine_inv env start ec \<longleftrightarrow>
     (let c = ec_config ec
      in (\<forall>n < length (c_sources c). source_at n (c_sources c ! n)) \<and>
         applied_prefix (c_sources c) (ec_applicable ec) \<and>
         merged_sources merge_engine (engine_document env) (c_sources c) start (c_engine c) \<and>
         (c_selection_complete c \<and> c_parse_complete c \<longrightarrow> ec_applicable ec))"

lemma new_source_at: "source_at (length (c_sources (ec_config ec))) (new_source name kind ec)"
  by (simp add: source_at_def new_source_def Let_def)

lemma new_source_fields [simp]:
  "src_path (new_source name kind ec) = name" "src_kind (new_source name kind ec) = kind"
  "src_applied (new_source name kind ec) = False" "src_status (new_source name kind ec) = ''''"
  by (simp_all add: new_source_def Let_def empty_source_def)

lemma empty_engine [simp]: "empty_engine_configuration = no_engine"
  by (simp add: empty_engine_configuration_def no_engine_def)

lemma with_problem_fields [simp]:
  "src_applied (with_problem err s) = src_applied s" "src_id (with_problem err s) = src_id s"
  "src_order (with_problem err s) = src_order s"
  by (simp_all add: with_problem_def Let_def split: option.splits)

lemma nth_snoc_all: "(\<forall>n < length xs. P n (xs ! n)) \<Longrightarrow> P (length xs) x \<Longrightarrow> \<forall>n < length (xs @ [x]). P n ((xs @ [x]) ! n)"
  by (auto simp: nth_append less_Suc_eq)

text \<open>Retaining a source that was not applied, after a step that at most gave up on merging.\<close>

lemma retain_skip:
  assumes "engine_inv env start ec" and same: "c_sources (ec_config ec') = c_sources (ec_config ec)"
      "c_engine (ec_config ec') = c_engine (ec_config ec)"
    and src: "source_at (length (c_sources (ec_config ec))) src" "\<not> src_applied src"
    and keep: "ec_applicable ec' \<Longrightarrow> ec_applicable ec \<and> good src"
      "c_selection_complete (ec_config ec') \<Longrightarrow> c_parse_complete (ec_config ec') \<Longrightarrow> ec_applicable ec'"
  shows "engine_inv env start (retain src ec')"
  using assms(1) src same keep
    applied_prefix_skip [of "c_sources (ec_config ec)" "ec_applicable ec" src "ec_applicable ec'"]
    merged_sources_skip [of merge_engine "engine_document env" "c_sources (ec_config ec)" start "c_engine (ec_config ec)" src]
    nth_snoc_all [of "c_sources (ec_config ec)" source_at src]
  by (simp add: engine_inv_def Let_def retain_def)

lemma engine_inv_selected:
  "engine_inv env start ec \<Longrightarrow> c_selection_complete (ec_config ec) \<Longrightarrow> c_parse_complete (ec_config ec) \<Longrightarrow> ec_applicable ec"
  by (simp add: engine_inv_def Let_def)

lemma engine_inv_cong:
  assumes "engine_inv env start ec" "c_sources (ec_config ec') = c_sources (ec_config ec)"
      "c_engine (ec_config ec') = c_engine (ec_config ec)" "ec_applicable ec' \<Longrightarrow> ec_applicable ec"
      "c_selection_complete (ec_config ec') \<Longrightarrow> c_parse_complete (ec_config ec') \<Longrightarrow> ec_applicable ec'"
  shows "engine_inv env start ec'"
  using assms applied_prefix_weaken [of "c_sources (ec_config ec)" "ec_applicable ec" "ec_applicable ec'"]
  by (simp add: engine_inv_def Let_def)


lemma source_at_update [simp]:
  "source_at n (src\<lparr>src_status := s\<rparr>) = source_at n src" "source_at n (src\<lparr>src_selected := b\<rparr>) = source_at n src"
  "source_at n (src\<lparr>src_sha256 := h\<rparr>) = source_at n src" "source_at n (src\<lparr>src_engine := e\<rparr>) = source_at n src"
  "source_at n (src\<lparr>src_applied := b\<rparr>) = source_at n src" "source_at n (with_problem err src) = source_at n src"
  by (simp_all add: source_at_def)

lemma tick_fields [simp]:
  "ec_config (tick ec) = ec_config ec" "ec_applicable (tick ec) = ec_applicable ec" "ec_limit (tick ec) = ec_limit ec"
  "ec_complete (tick ec) = ec_complete ec" "ec_diagnostics (tick ec) = ec_diagnostics ec" "ec_network (tick ec) = ec_network ec"
  "ec_file_count (tick ec) = ec_file_count ec" "ec_total_bytes (tick ec) = ec_total_bytes ec"
  by (simp_all add: tick_def)

lemma read_failed_fields [simp]:
  "c_sources (ec_config (read_failed ec)) = c_sources (ec_config ec)" "c_engine (ec_config (read_failed ec)) = c_engine (ec_config ec)"
  "ec_applicable (read_failed ec) = False" "c_parse_complete (ec_config (read_failed ec)) = False"
  "c_selection_complete (ec_config (read_failed ec)) = c_selection_complete (ec_config ec)"
  "c_profile (ec_config (read_failed ec)) = c_profile (ec_config ec)" "ec_network (read_failed ec) = ec_network ec"
  "ec_file_count (read_failed ec) = ec_file_count ec" "ec_total_bytes (read_failed ec) = ec_total_bytes ec"
  "ec_limit (read_failed ec) = ec_limit ec" "ec_tick (read_failed ec) = ec_tick ec"
  by (simp_all add: read_failed_def)

lemma unselect_fields [simp]:
  "c_sources (ec_config (unselect ec)) = c_sources (ec_config ec)" "c_engine (ec_config (unselect ec)) = c_engine (ec_config ec)"
  "ec_applicable (unselect ec) = ec_applicable ec" "c_parse_complete (ec_config (unselect ec)) = c_parse_complete (ec_config ec)"
  "c_selection_complete (ec_config (unselect ec)) = False" "c_profile (ec_config (unselect ec)) = c_profile (ec_config ec)"
  "ec_network (unselect ec) = ec_network ec" "ec_file_count (unselect ec) = ec_file_count ec"
  "ec_total_bytes (unselect ec) = ec_total_bytes ec" "ec_limit (unselect ec) = ec_limit ec" "ec_tick (unselect ec) = ec_tick ec"
  by (simp_all add: unselect_def)

lemma limit_reached_inv:
  assumes "engine_inv env start ec" "source_at (length (c_sources (ec_config ec))) src" "\<not> src_applied src"
    "c_sources (ec_config ec') = c_sources (ec_config ec)" "c_engine (ec_config ec') = c_engine (ec_config ec)"
  shows "engine_inv env start (limit_reached src ec')"
  unfolding limit_reached_def using assms by (intro retain_skip [OF assms(1)]) simp_all

text \<open>The end of a document that was read: applied only while merging is possible.\<close>

lemma retain_apply:
  assumes inv: "engine_inv env start ec" and src: "source_at (length (c_sources (ec_config ec))) src" "src_applied src"
      "src_status src = ''parsed''" "engine_document env src (src_id src, l)"
    and applicable: "ec_applicable ec"
  shows "engine_inv env start (retain src
    (ec\<lparr>ec_config := (ec_config ec)\<lparr>c_engine := map_option (\<lambda>old. merge_engine old l (src_id src)) (c_engine (ec_config ec))\<rparr>\<rparr>))"
  using inv src applicable
    applied_prefix_apply [of "c_sources (ec_config ec)" src]
    merged_sources_apply [of merge_engine "engine_document env" "c_sources (ec_config ec)" start "c_engine (ec_config ec)" src "src_id src" l]
    nth_snoc_all [of "c_sources (ec_config ec)" source_at src]
  by (simp add: engine_inv_def Let_def retain_def good_def)

lemma failure_status_bad [simp]: "failure_status err \<noteq> ''parsed''"
  by (simp add: failure_status_def)

lemma parse_file_inv:
  assumes inv: "engine_inv env start ec" and src: "source_at (length (c_sources (ec_config ec))) src" "\<not> src_applied src"
    and sha: "src_sha256 src = sha256_hex env data" and read: "fs_read_file env n (trim_root (src_path src)) = Inr data"
  shows "engine_inv env start (parse_file env src data ec)"
proof (cases "parse_engine (toml env) data")
  case (Inl err)
  then show ?thesis using src
    by (auto simp: parse_file_def Let_def intro!: retain_skip [OF inv])
next
  case (Inr l)
  let ?src = "src\<lparr>src_status := ''parsed'', src_engine := Some (merge_engine no_engine l (src_id src)), src_applied := True\<rparr>"
  have "engine_document env ?src (src_id ?src, l)" using Inr sha read by (auto simp: engine_document_def)
  then show ?thesis using Inr src retain_apply [OF inv, of ?src l]
    by (auto simp: parse_file_def Let_def intro!: retain_skip [OF inv] dest: engine_inv_selected [OF inv])
qed

lemma read_file_inv:
  assumes inv: "engine_inv env start ec" and src: "source_at (length (c_sources (ec_config ec))) src" "\<not> src_applied src"
    and name: "src_path src = name"
  shows "engine_inv env start (read_file env src name ec)"
proof (cases "fs_read_file env (ec_tick ec) (trim_root name)")
  case (Inl err)
  then show ?thesis using inv src
    by (auto simp: read_file_def good_def intro!: retain_skip [OF inv] dest: engine_inv_selected [OF inv])
next
  case (Inr data)
  have "engine_inv env start ((tick ec)\<lparr>ec_total_bytes := n, ec_network := net\<rparr>)" for n net
    by (rule engine_inv_cong [OF inv]) (use inv in \<open>auto simp: engine_inv_def Let_def\<close>)
  then show ?thesis using Inr src name
    by (auto simp: read_file_def Let_def intro!: limit_reached_inv [OF inv] parse_file_inv)
qed

lemma collect_file_inv:
  assumes inv: "engine_inv env start ec"
  shows "engine_inv env start (collect_file env name optional_stat ec)"
proof -
  let ?src = "new_source name ''file'' ec" and ?ec = "ec\<lparr>ec_file_count := ec_file_count ec + 1\<rparr>"
  have counted: "engine_inv env start ?ec" "engine_inv env start (tick ?ec)"
    by (rule engine_inv_cong [OF inv]; use inv in \<open>auto simp: engine_inv_def Let_def\<close>)+
  have at: "source_at (length (c_sources (ec_config ec))) ?src" by (rule new_source_at)
  have read: "engine_inv env start (read_file env ?src name ?ec)" "engine_inv env start (read_file env ?src name (tick ?ec))"
    using counted at by (auto intro!: read_file_inv)
  have skipped: "engine_inv env start (retain (?src\<lparr>src_selected := False, src_status := s\<rparr>) ec')"
    if "s \<in> {''absent'', ''stat_denied'', ''stat_incomplete''}" "ec_config ec' = ec_config ec" "ec_applicable ec' = ec_applicable ec"
    for s ec' using that at inv
    by (intro retain_skip [OF inv]) (auto simp: good_def engine_inv_def Let_def)
  show ?thesis
  proof (cases "ec_file_count ?ec > MaxConfigSources")
    case True
    then show ?thesis using at by (auto simp: collect_file_def Let_def intro!: limit_reached_inv [OF inv])
  next
    case False
    then show ?thesis using read
      by (auto simp: collect_file_def Let_def intro!: skipped split: option.splits)
  qed
qed


lemma reject_name_inv: "engine_inv env start ec \<Longrightarrow> engine_inv env start (reject_name i ec)"
  by (rule engine_inv_cong [of env start ec]) (simp_all add: reject_name_def)

lemma tick_inv: "engine_inv env start ec \<Longrightarrow> engine_inv env start (tick ec)"
  by (rule engine_inv_cong [of env start ec]) (auto dest: engine_inv_selected)

lemma collect_entries_inv: "engine_inv env start ec \<Longrightarrow> engine_inv env start (collect_entries env name i entries ec)"
proof (induction env name i entries ec rule: collect_entries.induct)
  case (2 env name i entry entries ec)
  have one: "engine_inv env start (collect_file env (path_join [name, fst entry]) False ec)"
    using "2.prems" by (rule collect_file_inv)
  show ?case using 2 reject_name_inv one tick_inv [OF one] by (auto simp: Let_def)
qed simp

lemma list_directory_inv:
  assumes inv: "engine_inv env start ec" and src: "source_at (length (c_sources (ec_config ec))) src" "\<not> src_applied src"
  shows "engine_inv env start (list_directory env src name ec)"
  using src
  by (auto simp: list_directory_def good_def intro!: collect_entries_inv retain_skip [OF inv] dest: engine_inv_selected [OF inv]
      split: sum.splits)

lemma collect_directory_inv:
  assumes inv: "engine_inv env start ec"
  shows "engine_inv env start (collect_directory env name ec)"
  using new_source_at [of ec name "''directory''"]
  by (auto simp: collect_directory_def Let_def good_def intro!: list_directory_inv inv tick_inv retain_skip [OF inv]
      dest: engine_inv_selected [OF inv] split: option.splits)

lemma collect_plan_inv: "engine_inv env start ec \<Longrightarrow> engine_inv env start (collect_plan env plan ec)"
proof (induction env plan ec rule: collect_plan.induct)
  case (2 env name is_directory plan ec)
  have ticked: "engine_inv env start (tick ec)" using "2.prems" by (rule tick_inv)
  have stop: "engine_inv env start ((tick ec)\<lparr>ec_config := (ec_config ec)\<lparr>c_selection_complete := False, c_parse_complete := False\<rparr>,
      ec_complete := False\<rparr>)"
    by (rule engine_inv_cong [OF "2.prems"]) simp_all
  show ?case
  proof (cases "ctx_stopped env ec \<or> ec_limit ec")
    case True
    then show ?thesis using stop by simp
  next
    case False
    then show ?thesis using "2.IH" [OF False] ticked collect_directory_inv [OF ticked] collect_file_inv [OF ticked]
      by (simp add: if_distrib)
  qed
qed simp

lemma start_collector_inv:
  "c_sources c = [] \<Longrightarrow> c_engine c = start \<Longrightarrow> engine_inv env start (start_collector c network)"
  by (simp add: engine_inv_def start_collector_def applied_prefix_def merged_sources_def option.map_ident)

lemma collect_sources_inv:
  "engine_inv env (c_engine (engine_configuration_start p s))
    (collect_sources env p (engine_configuration_start p s) policy network)"
  unfolding collect_sources_def
  by (intro collect_plan_inv start_collector_inv) (simp_all add: engine_configuration_start_def initial_configuration_def Let_def)

section \<open>How much is read\<close>

text \<open>Files are counted, the documents that were parsed stay within the limit on their total size.\<close>

definition is_file :: "configuration_source \<Rightarrow> bool" where "is_file src \<longleftrightarrow> src_kind src = ''file''"
definition is_parsed :: "configuration_source \<Rightarrow> bool" where "is_parsed src \<longleftrightarrow> src_status src = ''parsed''"

definition documents :: "services \<Rightarrow> configuration_source list \<Rightarrow> string list \<Rightarrow> bool" where
  "documents env sources docs \<longleftrightarrow>
     list_all2 (\<lambda>src data. src_sha256 src = sha256_hex env data \<and> (\<exists>l. parse_engine (toml env) data = Inr l \<and>
       src_engine src = Some (merge_engine no_engine l (src_id src)))) (filter is_parsed sources) docs"

definition reads :: "services \<Rightarrow> nat \<Rightarrow> engine_collector \<Rightarrow> bool" where
  "reads env k ec \<longleftrightarrow>
     length (filter is_file (c_sources (ec_config ec))) = k \<and>
     (\<exists>docs. documents env (c_sources (ec_config ec)) docs \<and> sum_list (map length docs) \<le> ec_total_bytes ec \<and>
        sum_list (map length docs) \<le> MaxConfigTotalBytes)"

definition bounded_inv :: "services \<Rightarrow> engine_collector \<Rightarrow> bool" where
  "bounded_inv env ec \<longleftrightarrow>
     reads env (ec_file_count ec) ec \<and> ec_file_count ec \<le> (if ec_limit ec then MaxConfigSources + 1 else MaxConfigSources) \<and>
     (\<not> ec_limit ec \<longrightarrow> ec_total_bytes ec \<le> MaxConfigTotalBytes)"

lemma retain_fields [simp]:
  "c_sources (ec_config (retain src ec)) = c_sources (ec_config ec) @ [src]" "ec_file_count (retain src ec) = ec_file_count ec"
  "ec_total_bytes (retain src ec) = ec_total_bytes ec" "ec_limit (retain src ec) = ec_limit ec" "ec_tick (retain src ec) = ec_tick ec"
  "c_profile (ec_config (retain src ec)) = c_profile (ec_config ec)" "ec_applicable (retain src ec) = ec_applicable ec"
  "ec_complete (retain src ec) = ec_complete ec" "c_engine (ec_config (retain src ec)) = c_engine (ec_config ec)"
  "c_selection_complete (ec_config (retain src ec)) = c_selection_complete (ec_config ec)"
  "c_parse_complete (ec_config (retain src ec)) = c_parse_complete (ec_config ec)"
  by (simp_all add: retain_def)

lemma retain_reads:
  assumes "reads env k ec" "c_sources (ec_config ec') = c_sources (ec_config ec)" "ec_total_bytes ec \<le> ec_total_bytes ec'"
    "\<not> is_parsed src"
  shows "reads env (if is_file src then k + 1 else k) (retain src ec')"
  using assms by (auto simp: reads_def documents_def intro: order_trans)

lemma retain_document:
  assumes "reads env k ec" "c_sources (ec_config ec') = c_sources (ec_config ec)" "is_file src" "is_parsed src"
    and doc: "src_sha256 src = sha256_hex env data" "parse_engine (toml env) data = Inr l"
      "src_engine src = Some (merge_engine no_engine l (src_id src))"
    and room: "ec_total_bytes ec + length data \<le> ec_total_bytes ec'" "ec_total_bytes ec' \<le> MaxConfigTotalBytes"
  shows "reads env (k + 1) (retain src ec')"
proof -
  obtain docs where d: "documents env (c_sources (ec_config ec)) docs" "sum_list (map length docs) \<le> ec_total_bytes ec"
    using assms(1) unfolding reads_def by blast
  then have "documents env (c_sources (ec_config ec) @ [src]) (docs @ [data])"
    using assms(4) doc by (simp add: documents_def list_all2_appendI)
  then show ?thesis using assms(1-3) d(2) room
    by (auto simp: reads_def intro!: exI [of _ "docs @ [data]"])
qed

text \<open>From a counted source on, exactly one source is retained, the limit is checked first.\<close>

definition counted_inv :: "services \<Rightarrow> configuration_source \<Rightarrow> engine_collector \<Rightarrow> bool" where
  "counted_inv env src ec \<longleftrightarrow> is_file src \<and> reads env (ec_file_count ec - 1) ec \<and> 0 < ec_file_count ec \<and>
     ec_file_count ec \<le> MaxConfigSources \<and> ec_total_bytes ec \<le> MaxConfigTotalBytes"

lemma counted_retain:
  assumes "counted_inv env src ec" "c_sources (ec_config ec') = c_sources (ec_config ec)" "ec_total_bytes ec \<le> ec_total_bytes ec'"
    "ec_file_count ec' = ec_file_count ec" "\<not> ec_limit ec' \<Longrightarrow> ec_total_bytes ec' \<le> MaxConfigTotalBytes"
    "is_file src'" "\<not> is_parsed src'"
  shows "bounded_inv env (retain src' ec')"
  using assms retain_reads [of env "ec_file_count ec - 1" ec ec' src']
  by (auto simp: bounded_inv_def counted_inv_def)


lemma is_file_update [simp]:
  "is_file (src\<lparr>src_status := st\<rparr>) = is_file src" "is_file (src\<lparr>src_selected := b\<rparr>) = is_file src"
  "is_file (src\<lparr>src_sha256 := h\<rparr>) = is_file src" "is_file (src\<lparr>src_engine := e\<rparr>) = is_file src"
  "is_file (src\<lparr>src_applied := b\<rparr>) = is_file src" "is_file (with_problem err src) = is_file src"
  by (auto simp: is_file_def with_problem_def Let_def split: option.splits)

lemma is_file_new [simp]: "is_file (new_source name kind ec) \<longleftrightarrow> kind = ''file''"
  by (simp add: is_file_def new_source_def Let_def)

lemma is_parsed_update [simp]: "is_parsed (src\<lparr>src_status := st\<rparr>) \<longleftrightarrow> st = ''parsed''"
  "is_parsed (src\<lparr>src_applied := b\<rparr>) = is_parsed src" "is_parsed (src\<lparr>src_engine := e\<rparr>) = is_parsed src"
  by (simp_all add: is_parsed_def)

lemma parse_file_bounded:
  assumes inv: "counted_inv env src ec0" and same: "c_sources (ec_config ec) = c_sources (ec_config ec0)"
      "ec_file_count ec = ec_file_count ec0" "ec_total_bytes ec = ec_total_bytes ec0 + length data"
    and room: "ec_total_bytes ec \<le> MaxConfigTotalBytes" and src: "is_file src" "src_sha256 src = sha256_hex env data"
  shows "bounded_inv env (parse_file env src data ec)"
proof (cases "parse_engine (toml env) data")
  case (Inl err)
  then show ?thesis using same room src by (auto simp: parse_file_def Let_def intro!: counted_retain [OF inv])
next
  case (Inr l)
  let ?src = "src\<lparr>src_status := ''parsed'', src_engine := Some (merge_engine no_engine l (src_id src))\<rparr>"
  have "reads env (ec_file_count ec0 - 1 + 1) (retain src' ec')"
    if "src' \<in> {?src, ?src\<lparr>src_applied := True\<rparr>}" "c_sources (ec_config ec') = c_sources (ec_config ec)"
      "ec_total_bytes ec' = ec_total_bytes ec" for src' ec'
    using that inv same room src Inr by (intro retain_document [of env _ ec0 ec' src' data l]) (auto simp: counted_inv_def)
  then have "bounded_inv env (retain src' ec')"
    if "src' \<in> {?src, ?src\<lparr>src_applied := True\<rparr>}" "c_sources (ec_config ec') = c_sources (ec_config ec)"
      "ec_total_bytes ec' = ec_total_bytes ec" "ec_file_count ec' = ec_file_count ec" for src' ec'
    using that inv same room by (simp add: bounded_inv_def counted_inv_def)
  then show ?thesis using Inr by (simp add: parse_file_def Let_def)
qed

lemma read_file_bounded:
  assumes inv: "counted_inv env src ec"
  shows "bounded_inv env (read_file env src name ec)"
proof (cases "fs_read_file env (ec_tick ec) (trim_root name)")
  case (Inl err)
  have "is_file src" "ec_total_bytes ec \<le> MaxConfigTotalBytes" using inv by (simp_all add: counted_inv_def)
  then show ?thesis using Inl by (auto simp: read_file_def intro!: counted_retain [OF inv])
next
  case (Inr data)
  have src: "is_file src" using inv by (simp add: counted_inv_def)
  let ?src = "src\<lparr>src_sha256 := sha256_hex env data\<rparr>"
  have inv': "counted_inv env ?src ec" using inv by (simp add: counted_inv_def)
  show ?thesis using Inr src
    by (auto simp: read_file_def Let_def limit_reached_def failure_status_def intro!: counted_retain [OF inv] parse_file_bounded [OF inv'])
qed

lemma collect_file_bounded:
  assumes inv: "bounded_inv env ec" and open_: "\<not> ec_limit ec"
  shows "bounded_inv env (collect_file env name optional_stat ec)"
proof -
  let ?src = "new_source name ''file'' ec" and ?ec = "ec\<lparr>ec_file_count := ec_file_count ec + 1\<rparr>"
  have reads: "reads env (ec_file_count ec) ec" "ec_file_count ec \<le> MaxConfigSources" "ec_total_bytes ec \<le> MaxConfigTotalBytes"
    using inv open_ by (auto simp: bounded_inv_def)
  show ?thesis
  proof (cases "ec_file_count ?ec > MaxConfigSources")
    case True
    then have "collect_file env name optional_stat ec = limit_reached ?src ?ec" by (simp add: collect_file_def Let_def)
    moreover have "bounded_inv env (limit_reached ?src ?ec)"
      using reads retain_reads [of env "ec_file_count ec" ec "(unselect (read_failed ?ec))\<lparr>ec_limit := True\<rparr>"
        "?src\<lparr>src_status := failure_status ErrConfigLimit\<rparr>"]
      by (auto simp: limit_reached_def bounded_inv_def)
    ultimately show ?thesis by simp
  next
    case False
    then have counted: "counted_inv env ?src ?ec" "counted_inv env ?src (tick ?ec)"
      using reads by (auto simp: counted_inv_def reads_def)
    show ?thesis using False reads(3) read_file_bounded [OF counted(1)] read_file_bounded [OF counted(2)]
      by (auto simp: collect_file_def Let_def intro!: counted_retain [OF counted(2)] split: option.splits)
  qed
qed

text \<open>Steps that retain no file source.\<close>

lemma bounded_directory:
  assumes "bounded_inv env ec" "c_sources (ec_config ec') = c_sources (ec_config ec)" "ec_total_bytes ec' = ec_total_bytes ec"
    "ec_file_count ec' = ec_file_count ec" "ec_limit ec' = ec_limit ec" "\<not> is_file src" "\<not> is_parsed src"
  shows "bounded_inv env (retain src ec')"
  using assms retain_reads [of env "ec_file_count ec" ec ec' src] by (auto simp: bounded_inv_def)

lemma bounded_cong:
  assumes "bounded_inv env ec" "c_sources (ec_config ec') = c_sources (ec_config ec)" "ec_total_bytes ec' = ec_total_bytes ec"
    "ec_file_count ec' = ec_file_count ec" "ec_limit ec' = ec_limit ec"
  shows "bounded_inv env ec'"
  using assms by (simp add: bounded_inv_def reads_def)

lemma collect_entries_bounded:
  "bounded_inv env ec \<Longrightarrow> \<not> ec_limit ec \<Longrightarrow> bounded_inv env (collect_entries env name i entries ec)"
proof (induction env name i entries ec rule: collect_entries.induct)
  case (2 env name i entry entries ec)
  have one: "bounded_inv env (collect_file env (path_join [name, fst entry]) False ec)"
    using "2.prems" by (rule collect_file_bounded)
  have "bounded_inv env (reject_name i ec)" "\<not> ec_limit (reject_name i ec)"
    using "2.prems" by (auto simp: reject_name_def intro: bounded_cong)
  then show ?case using 2 one bounded_cong [OF one, of "tick (collect_file env (path_join [name, fst entry]) False ec)"]
    by (auto simp: Let_def)
qed simp

lemma collect_directory_bounded:
  assumes inv: "bounded_inv env ec" and open_: "\<not> ec_limit ec"
  shows "bounded_inv env (collect_directory env name ec)"
  using open_
  by (auto simp: collect_directory_def list_directory_def Let_def
      intro!: collect_entries_bounded bounded_directory [OF inv] split: option.splits sum.splits)

lemma collect_plan_bounded: "bounded_inv env ec \<Longrightarrow> bounded_inv env (collect_plan env plan ec)"
proof (induction env plan ec rule: collect_plan.induct)
  case (2 env name is_directory plan ec)
  have ticked: "bounded_inv env (tick ec)" by (rule bounded_cong [OF "2.prems"]) simp_all
  show ?case
  proof (cases "ctx_stopped env ec \<or> ec_limit ec")
    case True
    then show ?thesis by (auto intro: bounded_cong [OF "2.prems"])
  next
    case False
    then show ?thesis using "2.IH" [OF False] collect_directory_bounded [OF ticked] collect_file_bounded [OF ticked]
      by (simp add: if_distrib)
  qed
qed simp

end
