(* ===== verification/Podman_Network_Laws.thy ===== *)
theory Podman_Network_Laws
  imports Podman_Config_Laws
begin

text \<open>
  The network family: it follows the same discipline over the same sources, it never influences the engine
  family, and the search plans it derives are the ones its evaluator accepts.
\<close>

section \<open>The engine family ignores the network family\<close>

definition erase :: "engine_collector \<Rightarrow> engine_collector" where
  "erase ec = ec\<lparr>ec_network := None\<rparr>"

lemma erase_fields [simp]:
  "ec_config (erase ec) = ec_config ec" "ec_tick (erase ec) = ec_tick ec" "ec_limit (erase ec) = ec_limit ec"
  "ec_applicable (erase ec) = ec_applicable ec" "ec_complete (erase ec) = ec_complete ec"
  "ec_file_count (erase ec) = ec_file_count ec" "ec_total_bytes (erase ec) = ec_total_bytes ec"
  "ec_network (erase ec) = None" "ec_diagnostics (erase ec) = ec_diagnostics ec"
  by (simp_all add: erase_def)

lemma erase_retain: "erase (retain src ec) = retain src (erase ec)"
  by (simp add: erase_def retain_def)

lemma erase_updates:
  "erase (tick ec) = tick (erase ec)" "erase (read_failed ec) = read_failed (erase ec)" "erase (unselect ec) = unselect (erase ec)"
  "erase (limit_reached src ec) = limit_reached src (erase ec)" "erase (reject_name i ec) = reject_name i (erase ec)"
  by (simp_all add: erase_def tick_def read_failed_def unselect_def limit_reached_def retain_def reject_name_def)

lemma erase_parse_file: "erase (parse_file env src data ec) = parse_file env src data (erase ec)"
  by (simp add: parse_file_def Let_def erase_retain erase_updates split: sum.splits)
    (simp add: erase_def read_failed_def retain_def)

lemma erase_new_source [simp]: "new_source name kind (erase ec) = new_source name kind ec"
  by (simp add: new_source_def)


lemma erase_read_file: "erase (read_file env src name ec) = read_file env src name (erase ec)"
proof -
  have bytes: "(erase (tick ec))\<lparr>ec_total_bytes := n\<rparr> = erase ((tick ec)\<lparr>ec_total_bytes := n\<rparr>)"
    "(erase ec')\<lparr>ec_network := None\<rparr> = erase ec'"
    "(erase (tick ec))\<lparr>ec_total_bytes := n, ec_network := None\<rparr> = erase ((tick ec)\<lparr>ec_total_bytes := n\<rparr>)"
    "erase (((tick ec)\<lparr>ec_total_bytes := n, ec_network := net\<rparr>)) = erase ((tick ec)\<lparr>ec_total_bytes := n\<rparr>)" for n net ec'
    by (simp_all add: erase_def)
  show ?thesis
    by (simp add: read_file_def Let_def erase_retain erase_parse_file bytes flip: erase_updates split: sum.splits)
qed

lemma erase_collect_file: "erase (collect_file env name optional_stat ec) = collect_file env name optional_stat (erase ec)"
proof -
  let ?ec = "ec\<lparr>ec_file_count := ec_file_count ec + 1\<rparr>"
  have counted: "(erase ec)\<lparr>ec_file_count := n\<rparr> = erase (ec\<lparr>ec_file_count := n\<rparr>)"
    "(erase ec')\<lparr>ec_complete := b\<rparr> = erase (ec'\<lparr>ec_complete := b\<rparr>)" for n ec' b
    by (simp_all add: erase_def)
  show ?thesis
    by (simp add: collect_file_def Let_def erase_retain erase_read_file counted flip: erase_updates split: option.splits)
qed

lemma erase_collect_entries: "erase (collect_entries env name i entries ec) = collect_entries env name i entries (erase ec)"
proof (induction env name i entries ec rule: collect_entries.induct)
  case (2 env name i entry entries ec)
  then show ?case by (simp add: Let_def ctx_stopped_def flip: erase_collect_file erase_updates)
qed simp

lemma erase_collect_directory: "erase (collect_directory env name ec) = collect_directory env name (erase ec)"
  by (simp add: collect_directory_def list_directory_def Let_def erase_retain erase_collect_entries
      flip: erase_updates split: option.splits sum.splits)

lemma erase_collect_plan: "erase (collect_plan env plan ec) = collect_plan env plan (erase ec)"
proof (induction env plan ec rule: collect_plan.induct)
  case (2 env name is_directory plan ec)
  show ?case
  proof (cases "ctx_stopped env ec \<or> ec_limit ec")
    case True
    then show ?thesis by (simp add: ctx_stopped_def) (simp add: erase_def tick_def)
  next
    case False
    then show ?thesis using "2.IH" [OF False]
      by (cases is_directory) (simp_all add: ctx_stopped_def erase_collect_directory erase_collect_file erase_updates)
  qed
qed simp

lemma engine_run_network:
  "fst (engine_run env files p s at network) = fst (engine_run env files p s at None) \<and>
   snd (snd (engine_run env files p s at network)) = snd (snd (engine_run env files p s at None))"
proof -
  have "erase (collect_sources env p c policy network) = collect_sources env p c policy None" for c policy
    by (simp add: collect_sources_def erase_collect_plan) (simp add: erase_def start_collector_def)
  then have "ec_config (collect_sources env p c policy network) = ec_config (collect_sources env p c policy None)"
    "ec_tick (collect_sources env p c policy network) = ec_tick (collect_sources env p c policy None)"
    "ec_complete (collect_sources env p c policy network) = ec_complete (collect_sources env p c policy None)"
    "ec_diagnostics (collect_sources env p c policy network) = ec_diagnostics (collect_sources env p c policy None)" for c policy
    by (metis erase_fields)+
  then show ?thesis by (simp add: engine_run_def engine_observation_def Let_def split: sum.splits)
qed

section \<open>The network family's own discipline\<close>

definition network_at :: "nat \<Rightarrow> configuration_source \<Rightarrow> bool" where
  "network_at n src \<longleftrightarrow> src_id src = NetworkConfigID @ ''.source.'' @ decimal_string n \<and> src_order src = n"

definition network_document :: "services \<Rightarrow> bool \<Rightarrow> configuration_source \<Rightarrow> string \<times> network_layer \<Rightarrow> bool" where
  "network_document env modern src = (\<lambda>(source, l).
     source = src_id src \<and> src_network src = Some (merge_network no_network l source) \<and>
     (\<exists>data. parse_network (toml env) data modern = Inr l \<and> src_sha256 src = sha256_hex env data))"

definition network_inv :: "services \<Rightarrow> network_configuration option \<Rightarrow> nat \<Rightarrow> network_collector \<Rightarrow> bool" where
  "network_inv env start m nc \<longleftrightarrow>
     (let c = nc_config nc
      in nc_pending nc = None \<and> length (c_sources c) = m \<and> (\<forall>n < m. network_at n (c_sources c ! n)) \<and>
         applied_prefix (c_sources c) (nc_applicable nc) \<and>
         merged_sources merge_network (network_document env (c_profile c \<noteq> Containers493)) (c_sources c) start (c_network c) \<and>
         (c_selection_complete c \<and> c_parse_complete c \<longrightarrow> nc_applicable nc))"

lemma nth_snoc_length: "length xs = m \<Longrightarrow> (\<forall>n < m. P n (xs ! n)) \<Longrightarrow> P m x \<Longrightarrow> \<forall>n < Suc m. P n ((xs @ [x]) ! n)"
  by (auto simp: nth_append less_Suc_eq)

lemma network_skip:
  assumes inv: "network_inv env start m nc" and order: "src_order s = m" and status: "src_status s \<noteq> ''parsed''"
  shows "network_inv env start (Suc m) (network_retain s nc)"
proof -
  let ?src = "(network_source s)\<lparr>src_applied := False\<rparr>" and ?nc = "network_unread s nc"
  have c: "c_sources (nc_config ?nc) = c_sources (nc_config nc)" "c_network (nc_config ?nc) = c_network (nc_config nc)"
    "c_profile (nc_config ?nc) = c_profile (nc_config nc)" "nc_pending ?nc = nc_pending nc"
    "c_selection_complete (nc_config ?nc) = c_selection_complete (nc_config nc)"
    "c_parse_complete (nc_config ?nc) \<Longrightarrow> c_parse_complete (nc_config nc) \<and> nc_applicable ?nc = nc_applicable nc"
    by (auto simp: network_unread_def split: if_splits)
  have keep: "nc_applicable ?nc \<Longrightarrow> nc_applicable nc \<and> good ?src"
    using status by (auto simp: network_unread_def good_def network_source_def split: if_splits)
  have at: "network_at m ?src" using order by (simp add: network_at_def network_source_def)
  have "network_retain s nc = network_append ?src ?nc" using inv by (simp add: network_retain_def network_inv_def Let_def)
  then show ?thesis
    using inv c keep at applied_prefix_skip [of "c_sources (nc_config nc)" "nc_applicable nc" ?src "nc_applicable ?nc"]
      merged_sources_skip [of merge_network "network_document env (c_profile (nc_config nc) \<noteq> Containers493)"
        "c_sources (nc_config nc)" start "c_network (nc_config nc)" ?src]
      nth_snoc_length [of "c_sources (nc_config nc)" m network_at ?src]
    by (auto simp: network_inv_def Let_def network_append_def)
qed

lemma empty_network [simp]: "empty_network_configuration = no_network"
  by (simp add: empty_network_configuration_def no_network_def)

lemma network_file_pending: "nc_pending (network_file env s data nc) \<noteq> None"
  by (simp add: network_file_def Let_def split: sum.splits prod.splits)


lemma retain_pending:
  "nc_pending n = Some src \<Longrightarrow> network_retain s n = network_append src (n\<lparr>nc_pending := None\<rparr>)"
  by (simp add: network_retain_def)

lemma network_read:
  assumes inv: "network_inv env start m nc" and src: "src_order s = m" "\<not> src_applied s" "src_sha256 s = sha256_hex env data"
  shows "network_inv env start (Suc m) (network_retain X (network_file env s data nc))"
proof -
  let ?c = "nc_config nc" and ?src = "network_source s"
  let ?modern = "c_profile ?c \<noteq> Containers493"
  have facts: "length (c_sources ?c) = m" "\<forall>n < m. network_at n (c_sources ?c ! n)"
    "applied_prefix (c_sources ?c) (nc_applicable nc)"
    "merged_sources merge_network (network_document env ?modern) (c_sources ?c) start (c_network ?c)"
    "c_selection_complete ?c \<Longrightarrow> c_parse_complete ?c \<Longrightarrow> nc_applicable nc"
    using inv by (simp_all add: network_inv_def Let_def)
  have at: "\<forall>n < Suc m. network_at n ((c_sources ?c @ [x]) ! n)"
    if "src_id x = src_id ?src" "src_order x = m" for x
    using facts(1,2) that src(1) by (intro nth_snoc_length) (simp_all add: network_at_def network_source_def)
  have skip: "applied_prefix (c_sources ?c @ [x]) False"
    "merged_sources merge_network (network_document env ?modern) (c_sources ?c @ [x]) start (c_network ?c)"
    if "\<not> src_applied x" for x
    using facts that by (auto intro: applied_prefix_skip merged_sources_skip)
  have plain: "src_order ?src = m" "\<not> src_applied ?src" "src_sha256 ?src = sha256_hex env data"
    using src by (simp_all add: network_source_def)
  show ?thesis
  proof (cases "parse_network (toml env) data ?modern")
    case (Inl err)
    then show ?thesis using facts(1) plain
      by (simp add: network_file_def Let_def retain_pending network_inv_def network_append_def at skip split: prod.splits)
  next
    case (Inr l)
    let ?x = "?src\<lparr>src_status := ''parsed'', src_network := Some (merge_network no_network l (src_id ?src)), src_applied := True\<rparr>"
    have doc: "network_document env ?modern ?x (src_id ?src, l)"
      using Inr plain by (auto simp: network_document_def)
    have prefix: "applied_prefix (c_sources ?c @ [?x]) True" if "nc_applicable nc"
      using facts(3) that by (intro applied_prefix_apply) (simp_all add: good_def)
    have merged: "merged_sources merge_network (network_document env ?modern) (c_sources ?c @ [?x]) start
        (map_option (\<lambda>old. merge_network old l (src_id ?src)) (c_network ?c))"
      by (rule merged_sources_apply [OF facts(4)]) (use doc in simp_all)
    show ?thesis using Inr facts(1,5) plain prefix merged
      by (cases "nc_applicable nc")
        (auto simp: network_file_def Let_def retain_pending network_inv_def network_append_def at skip)
  qed
qed

text \<open>Both families run over the same sources in the same order.\<close>

definition joint_inv :: "services \<Rightarrow> network_configuration option \<Rightarrow> engine_collector \<Rightarrow> bool" where
  "joint_inv env start ec \<longleftrightarrow>
     (\<exists>nc. ec_network ec = Some nc \<and> network_inv env start (length (c_sources (ec_config ec))) nc)"

lemma joint_retain:
  assumes "joint_inv env start ec" "ec_network ec' = ec_network ec" "c_sources (ec_config ec') = c_sources (ec_config ec)"
    "src_order src = length (c_sources (ec_config ec))" "src_status src \<noteq> ''parsed''"
  shows "joint_inv env start (retain src ec')"
  using assms network_skip by (fastforce simp: joint_inv_def retain_def)

lemma joint_cong:
  "joint_inv env start ec \<Longrightarrow> ec_network ec' = ec_network ec \<Longrightarrow> c_sources (ec_config ec') = c_sources (ec_config ec) \<Longrightarrow>
   joint_inv env start ec'"
  by (simp add: joint_inv_def)

lemma retain_network [simp]: "ec_network (retain src ec) = map_option (network_retain src) (ec_network ec)"
  by (simp add: retain_def)

lemma parse_file_network:
  "\<exists>X. ec_network (parse_file env src data ec) = map_option (network_retain X) (ec_network ec) \<and>
       c_sources (ec_config (parse_file env src data ec)) = c_sources (ec_config ec) @ [X]"
  by (auto simp: parse_file_def Let_def split: sum.splits)

lemma parse_file_joint:
  assumes inv: "joint_inv env start ec" and src: "src_order src = length (c_sources (ec_config ec))" "\<not> src_applied src"
      "src_sha256 src = sha256_hex env data"
    and ec': "ec_network ec' = map_option (network_file env src data) (ec_network ec)"
      "c_sources (ec_config ec') = c_sources (ec_config ec)"
  shows "joint_inv env start (parse_file env src data ec')"
proof -
  obtain nc where nc: "ec_network ec = Some nc" "network_inv env start (length (c_sources (ec_config ec))) nc"
    using inv unfolding joint_inv_def by blast
  obtain X where "ec_network (parse_file env src data ec') = map_option (network_retain X) (ec_network ec')"
    "c_sources (ec_config (parse_file env src data ec')) = c_sources (ec_config ec') @ [X]"
    using parse_file_network by blast
  then show ?thesis using nc ec' network_read [OF nc(2) src, of X] by (simp add: joint_inv_def)
qed

lemma read_file_joint:
  assumes inv: "joint_inv env start ec" and src: "src_order src = length (c_sources (ec_config ec))" "\<not> src_applied src"
  shows "joint_inv env start (read_file env src name ec)"
  using src
  by (auto simp: read_file_def Let_def limit_reached_def intro!: joint_retain [OF inv] parse_file_joint [OF inv]
      split: sum.splits)

lemma new_source_order [simp]: "src_order (new_source name kind ec) = length (c_sources (ec_config ec))"
  by (simp add: new_source_def Let_def)

lemma collect_file_joint:
  assumes inv: "joint_inv env start ec"
  shows "joint_inv env start (collect_file env name optional_stat ec)"
proof -
  let ?ec = "ec\<lparr>ec_file_count := Suc (ec_file_count ec)\<rparr>"
  have counted: "joint_inv env start ?ec" "joint_inv env start (tick ?ec)" by (rule joint_cong [OF inv]; simp)+
  show ?thesis
    by (auto simp: collect_file_def Let_def limit_reached_def
        intro!: joint_retain [OF inv] read_file_joint counted split: option.splits)
qed

lemma collect_entries_joint: "joint_inv env start ec \<Longrightarrow> joint_inv env start (collect_entries env name i entries ec)"
proof (induction env name i entries ec rule: collect_entries.induct)
  case (2 env name i entry entries ec)
  have one: "joint_inv env start (collect_file env (path_join [name, fst entry]) False ec)"
    using "2.prems" by (rule collect_file_joint)
  have "joint_inv env start (reject_name i ec)" by (rule joint_cong [OF "2.prems"]) (simp_all add: reject_name_def)
  then show ?case using 2 one joint_cong [OF one, of "tick (collect_file env (path_join [name, fst entry]) False ec)"]
    by (auto simp: Let_def)
qed simp

lemma collect_directory_joint:
  assumes inv: "joint_inv env start ec"
  shows "joint_inv env start (collect_directory env name ec)"
  by (auto simp: collect_directory_def list_directory_def Let_def
      intro!: collect_entries_joint joint_retain [OF inv] split: option.splits sum.splits)

lemma collect_plan_joint: "joint_inv env start ec \<Longrightarrow> joint_inv env start (collect_plan env plan ec)"
proof (induction env plan ec rule: collect_plan.induct)
  case (2 env name is_directory plan ec)
  have ticked: "joint_inv env start (tick ec)" by (rule joint_cong [OF "2.prems"]) simp_all
  show ?case
  proof (cases "ctx_stopped env ec \<or> ec_limit ec")
    case True
    then show ?thesis by (auto intro: joint_cong [OF "2.prems"])
  next
    case False
    then show ?thesis using "2.IH" [OF False] collect_directory_joint [OF ticked] collect_file_joint [OF ticked]
      by (simp add: if_distrib)
  qed
qed simp


section \<open>Helper search plans\<close>

lemma search_directories_values:
  "\<not> cl_inherited_default (search_directories dirs role i ds plan) \<Longrightarrow>
   \<not> list_ex (\<lambda>d. contains_sub d ''$BINDIR'') ds \<and>
   cl_values (search_directories dirs role i ds plan) = cl_values plan @ map (\<lambda>d. path_join [d, helper_binary role]) ds"
proof (induction dirs role i ds plan rule: search_directories.induct)
  case (2 dirs role i directory rest plan)
  show ?case
  proof (cases "contains_sub directory ''$BINDIR''")
    case True
    then show ?thesis using "2.prems" by simp
  next
    case False
    then show ?thesis using "2.IH" [OF False] "2.prems" by (auto simp: helper_binary_def)
  qed
qed simp

lemma search_directories_origins:
  "length (cl_origins plan) = length (cl_values plan) \<Longrightarrow>
   length (cl_origins (search_directories dirs role i ds plan)) = length (cl_values (search_directories dirs role i ds plan))"
  by (induction dirs role i ds plan rule: search_directories.induct) auto

lemma system_helpers:
  "role = ''pasta'' \<or> role = ''slirp4netns'' \<Longrightarrow>
   map (\<lambda>directory. path_join [directory, role]) [''/usr/bin'', ''/bin''] = [''/usr/bin/'' @ role, ''/bin/'' @ role]"
  by (elim disjE; simp only:; code_simp)

lemma search_plan_expected:
  assumes "\<not> cl_inherited_default (search_plan dirs role source)" "\<not> cl_inherited_default dirs"
    "e_helper_binaries_dir e = Some dirs" "role \<in> set network_roles"
  shows "expected_helper_paths e role = Some (cl_values (search_plan dirs role source))"
proof -
  let ?plan = "search_directories dirs role 0 (cl_values dirs) (empty_plan (cl_source_id dirs))"
  have "\<not> cl_inherited_default ?plan" using assms(1) by (simp add: search_plan_def Let_def split: if_splits)
  then have plan: "\<not> list_ex (\<lambda>d. contains_sub d ''$BINDIR'') (cl_values dirs)"
    "cl_values ?plan = map (\<lambda>d. path_join [d, helper_binary role]) (cl_values dirs)"
    using search_directories_values [of dirs role 0 "cl_values dirs"] by (auto simp: empty_plan_def)
  have role: "role \<in> {''netavark'', ''aardvark_dns'', ''pasta'', ''slirp4netns''}" using assms(4) by (simp add: network_roles_def)
  show ?thesis
  proof (cases "role = ''pasta'' \<or> role = ''slirp4netns''")
    case True
    then show ?thesis using plan role assms system_helpers [OF True]
      by (simp add: expected_helper_paths_def search_plan_def Let_def)
  next
    case False
    then show ?thesis using plan role assms by (auto simp: expected_helper_paths_def search_plan_def Let_def)
  qed
qed

lemma helper_plan_role: "(r, plan) \<in> set (helper_plan e n source role) \<Longrightarrow> r = role"
  by (auto simp: helper_plan_def split: option.splits if_splits)

lemma helper_plan_single: "helper_plan e n source role = [] \<or> (\<exists>plan. helper_plan e n source role = [(role, plan)])"
  by (auto simp: helper_plan_def split: option.splits if_splits)

lemma map_of_concat_singles:
  assumes "\<And>k. f k = [] \<or> (\<exists>v. f k = [(k, v)])" "k \<in> set ks"
  shows "map_of (concat (map f ks)) k = map_of (f k) k"
  using assms(2)
proof (induction ks)
  case (Cons j ks)
  show ?case
  proof (cases "j = k")
    case True
    have "x \<noteq> k" if "f k = []" "(x, v) \<in> set (f j)" for x v j
      using assms(1) [of j] that by auto
    then have "map_of (concat (map f ks)) k = None" if "f k = []"
      using that unfolding map_of_eq_None_iff by (auto; blast)
    then show ?thesis using True assms(1) [of k] by (auto simp: map_add_def split: option.splits)
  next
    case False
    then have "map_of (f j) k = None" using assms(1) [of j] by auto
    then show ?thesis using Cons False by (simp add: map_add_def split: option.splits)
  qed
qed simp


lemma helper_paths_lookup:
  "plan_engine engine = Some e \<Longrightarrow> role \<in> set network_roles \<Longrightarrow>
   map_of (network_helper_paths engine n source) role = map_of (helper_plan e n source role) role"
  unfolding network_helper_paths_def using map_of_concat_singles [of "\<lambda>r. helper_plan e n source r" role network_roles] helper_plan_single
  by simp

lemma plan_engine_of: "plan_engine engine = Some e \<Longrightarrow> engine_of engine = Some e"
  by (auto simp: plan_engine_def engine_of_def split: option.splits if_splits)

lemma helper_plan_expected:
  assumes plan: "map_of (helper_plan e n source role) role = Some plan" and role: "role \<in> set network_roles"
    and inherited: "\<not> cl_inherited_default plan"
  shows "(role = ''slirp4netns'' \<and> cs_value (string_of_key n ''engine.network_cmd_path'') \<noteq> '''' \<and>
            cl_values plan = [cs_value (string_of_key n ''engine.network_cmd_path'')]) \<or>
         ((role = ''slirp4netns'' \<longrightarrow> cs_value (string_of_key n ''engine.network_cmd_path'') = '''') \<and>
            expected_helper_paths e role = Some (cl_values plan))"
proof -
  let ?searched = "(case e_helper_binaries_dir e of None \<Rightarrow> []
      | Some dirs \<Rightarrow> if cl_inherited_default dirs then [] else [(role, search_plan dirs role source)])"
  have searched: "expected_helper_paths e role = Some (cl_values plan)" if "map_of ?searched role = Some plan"
    using that inherited role search_plan_expected [of _ role source e] by (auto split: option.splits if_splits)
  show ?thesis
  proof (cases "role = ''slirp4netns'' \<and> cs_value (string_of_key n ''engine.network_cmd_path'') \<noteq> ''''")
    case True
    then obtain selected where s: "map_of (n_strings n) ''engine.network_cmd_path'' = Some selected" "cs_value selected \<noteq> ''''"
      by (auto simp: string_of_key_def split: option.splits)
    then have "cl_values plan = [cs_value selected]" using plan True by (auto simp: helper_plan_def)
    then show ?thesis using True s by (simp add: string_of_key_def)
  next
    case False
    then have "map_of ?searched role = Some plan" using plan
      by (auto simp: helper_plan_def string_of_key_def split: option.splits if_splits)
    then show ?thesis using False searched by blast
  qed
qed

end
