(* ===== verification/Podman_Coverage.thy ===== *)
theory Podman_Coverage
  imports Podman_Config_Laws "HOL-Library.Sublist"
begin

text \<open>
  What a run of the configuration probe looked at: the sources it reports are those of the version's plan, one group
  for every entry, in order, and a directory's group holds its drop-in files as they were listed.
\<close>

section \<open>The sources of one entry of the plan\<close>

definition drop_in_paths :: "string \<Rightarrow> (string \<times> bool) list \<Rightarrow> string list" where
  "drop_in_paths name entries = map (\<lambda>e. path_join [name, fst e]) (filter is_drop_in entries)"

text \<open>A file is absent only if some access to that path said that it does not exist.\<close>

definition missing_file :: "services \<Rightarrow> string \<Rightarrow> bool" where
  "missing_file env p \<longleftrightarrow> (\<exists>n e. errors_is e ErrNotExist \<and>
     (fs_stat env n (trim_root p) = Some e \<or> fs_read_file env n (trim_root p) = Inl e))"

definition file_source :: "services \<Rightarrow> string \<Rightarrow> configuration_source \<Rightarrow> bool" where
  "file_source env p src \<longleftrightarrow> src_path src = p \<and> src_kind src = ''file'' \<and> (src_status src = ''absent'' \<longrightarrow> missing_file env p)"

text \<open>\<open>whole\<close> says that the listing was followed to its end.\<close>

definition directory_group :: "services \<Rightarrow> bool \<Rightarrow> string \<Rightarrow> configuration_source list \<Rightarrow> bool" where
  "directory_group env whole p srcs \<longleftrightarrow> (\<exists>src files. srcs = src # files \<and> src_path src = p \<and> src_kind src = ''directory'' \<and>
     (if src_status src = ''listed''
      then \<exists>n entries paths. fs_read_dir env n (trim_root p) = Inr entries \<and> list_all2 (file_source env) paths files \<and>
        prefix paths (drop_in_paths p entries) \<and> (whole \<longrightarrow> paths = drop_in_paths p entries)
      else files = [] \<and> (src_status src = ''absent'' \<longrightarrow>
        (\<exists>n e. fs_read_dir env n (trim_root p) = Inl e \<and> errors_is e ErrNotExist))))"

definition source_group :: "services \<Rightarrow> bool \<Rightarrow> string \<times> bool \<Rightarrow> configuration_source list \<Rightarrow> bool" where
  "source_group env whole = (\<lambda>(p, is_directory) srcs.
     if is_directory then directory_group env whole p srcs else \<exists>src. srcs = [src] \<and> file_source env p src)"

lemma source_group_weaken: "source_group env whole x srcs \<Longrightarrow> (whole' \<Longrightarrow> whole) \<Longrightarrow> source_group env whole' x srcs"
  by (cases x) (fastforce simp: source_group_def directory_group_def split: if_splits)

text \<open>A source whose \<open>Stat\<close> failed is skipped by Podman 4.9.3; the observation is then incomplete.\<close>

definition unmeasured :: "configuration_source \<Rightarrow> bool" where
  "unmeasured src \<longleftrightarrow> src_status src = ''stat_denied'' \<or> src_status src = ''stat_incomplete''"

section \<open>What the steps keep\<close>

definition unlimited :: "engine_collector \<Rightarrow> bool" where
  "unlimited ec \<longleftrightarrow> (ec_limit ec \<longrightarrow> \<not> c_selection_complete (ec_config ec))"

text \<open>The clock only advances, and what was given up is not regained.\<close>

definition later :: "engine_collector \<Rightarrow> engine_collector \<Rightarrow> bool" where
  "later ec ec' \<longleftrightarrow> ec_tick ec \<le> ec_tick ec' \<and> (c_selection_complete (ec_config ec') \<longrightarrow> c_selection_complete (ec_config ec)) \<and>
     (ec_complete ec' \<longrightarrow> ec_complete ec) \<and> (unlimited ec \<longrightarrow> unlimited ec')"

lemma later_refl: "later ec ec" by (simp add: later_def)
lemma later_trans: "later a b \<Longrightarrow> later b c \<Longrightarrow> later a c" by (auto simp: later_def)

lemma later_tick [simp]: "later ec (tick ec)" "ec_tick (tick ec) = Suc (ec_tick ec)"
  by (simp_all add: later_def unlimited_def tick_def)

lemma reject_fields [simp]:
  "c_sources (ec_config (reject_name i ec)) = c_sources (ec_config ec)" "\<not> c_selection_complete (ec_config (reject_name i ec))"
  "\<not> ec_complete (reject_name i ec)" "ec_tick (reject_name i ec) = ec_tick ec" "ec_limit (reject_name i ec) = ec_limit ec"
  by (simp_all add: reject_name_def)

lemma complete_fields [simp]:
  "\<not> ec_complete (read_failed ec)" "ec_complete (unselect ec) = ec_complete ec"
  by (simp_all add: read_failed_def unselect_def)

text \<open>One source is added, and it is not one that was skipped for lack of a measurement unless the run is incomplete.\<close>

definition adds_source :: "engine_collector \<Rightarrow> (configuration_source \<Rightarrow> bool) \<Rightarrow> engine_collector \<Rightarrow> bool" where
  "adds_source ec P ec' \<longleftrightarrow> later ec ec' \<and>
     (\<exists>src. c_sources (ec_config ec') = c_sources (ec_config ec) @ [src] \<and> P src \<and> (ec_complete ec' \<longrightarrow> \<not> unmeasured src))"

lemma adds_sourceI:
  assumes "later ec ec'" and "c_sources (ec_config ec') = c_sources (ec_config ec)" and "P src" and "ec_complete ec' \<longrightarrow> \<not> unmeasured src"
  shows "adds_source ec P (retain src ec')"
  using assms by (auto simp: adds_source_def later_def unlimited_def)

lemma later_steps [simp]:
  "later ec (read_failed ec)" "later ec (unselect ec)" "later ec (reject_name i ec)"
  "later ec (ec\<lparr>ec_file_count := k\<rparr>)" "later ec (ec\<lparr>ec_total_bytes := k\<rparr>)" "later ec (ec\<lparr>ec_network := n\<rparr>)"
  "later ec (ec\<lparr>ec_complete := False\<rparr>)" "later ec (ec\<lparr>ec_applicable := b\<rparr>)"
  by (simp_all add: later_def unlimited_def)

lemma limit_reached_adds:
  assumes "later ec ec'" and "c_sources (ec_config ec') = c_sources (ec_config ec)" and "P (src\<lparr>src_status := ''limit''\<rparr>)"
  shows "adds_source ec P (limit_reached src ec')"
proof -
  have "later ec ((unselect (read_failed ec'))\<lparr>ec_limit := True\<rparr>)"
    using assms(1) by (auto simp: later_def unlimited_def)
  then show ?thesis unfolding limit_reached_def
    by (rule adds_sourceI) (use assms in \<open>simp_all add: failure_status_def ErrConfigLimit_def ErrPermission_def
      ErrConfigFieldUnsupported_def ErrConfigSyntaxUnsupported_def unmeasured_def\<close>)
qed

section \<open>Files\<close>

lemma failure_not_absent: "failure_status err \<noteq> ''absent''" "failure_status err \<noteq> ''listed''"
    "failure_status err \<noteq> ''stat_denied''" "failure_status err \<noteq> ''stat_incomplete''"
  by (simp_all add: failure_status_def)

lemma with_problem_path [simp]: "src_path (with_problem err s) = src_path s" "src_kind (with_problem err s) = src_kind s"
  by (simp_all add: with_problem_def Let_def split: option.splits)

lemma parse_file_adds:
  assumes "src_path src = p" and "src_kind src = ''file''"
  shows "adds_source ec (file_source env p) (parse_file env src data ec)"
proof (cases "parse_engine (toml env) data")
  case (Inl err)
  let ?ec = "ec\<lparr>ec_applicable := False, ec_config := (ec_config ec)\<lparr>c_parse_complete := False\<rparr>\<rparr>"
  have "later ec ?ec" "later ec (read_failed ?ec)" by (simp_all add: later_def unlimited_def)
  then show ?thesis using Inl assms failure_not_absent
    by (auto simp: parse_file_def Let_def file_source_def unmeasured_def intro!: adds_sourceI)
next
  case (Inr l)
  have "later ec (ec\<lparr>ec_config := (ec_config ec)\<lparr>c_engine := e\<rparr>\<rparr>)" for e by (simp add: later_def unlimited_def)
  then show ?thesis using Inr assms later_refl
    by (auto simp: parse_file_def Let_def file_source_def unmeasured_def intro!: adds_sourceI)
qed

lemma adds_later: "later a b \<Longrightarrow> c_sources (ec_config b) = c_sources (ec_config a) \<Longrightarrow> adds_source b P c \<Longrightarrow> adds_source a P c"
  by (auto simp: adds_source_def intro: later_trans)

lemma read_file_adds:
  assumes "src_path src = p" and "src_kind src = ''file''"
  shows "adds_source ec (file_source env p) (read_file env src p ec)"
proof (cases "fs_read_file env (ec_tick ec) (trim_root p)")
  case (Inl err)
  have "later ec (read_failed (tick ec))" using later_trans [OF later_tick(1)] later_steps(1) by blast
  moreover have "missing_file env p" if "errors_is err ErrNotExist" using Inl that by (auto simp: missing_file_def)
  ultimately show ?thesis using Inl assms failure_not_absent
    by (auto simp: read_file_def file_source_def unmeasured_def intro!: adds_sourceI)
next
  case (Inr data)
  have l: "later ec ((tick ec)\<lparr>ec_total_bytes := n\<rparr>)" "later ec ((tick ec)\<lparr>ec_total_bytes := n, ec_network := net\<rparr>)" for n net
    by (simp_all add: later_def unlimited_def)
  have "adds_source ec (file_source env p) (parse_file env src' data ((tick ec)\<lparr>ec_total_bytes := n, ec_network := net\<rparr>))"
    if "src_path src' = p" "src_kind src' = ''file''" for src' n net
    by (rule adds_later [OF l(2) [where n = n and net = net]]) (simp_all add: parse_file_adds that)
  moreover have "adds_source ec (file_source env p) (limit_reached src ((tick ec)\<lparr>ec_total_bytes := n\<rparr>))" for n
    by (rule limit_reached_adds) (simp_all add: l assms file_source_def)
  ultimately show ?thesis using Inr assms by (simp add: read_file_def Let_def)
qed

lemma collect_file_adds: "adds_source ec (file_source env p) (collect_file env p optional_stat ec)"
proof -
  let ?src = "new_source p ''file'' ec" and ?ec = "ec\<lparr>ec_file_count := ec_file_count ec + 1\<rparr>"
  have l: "later ec ?ec" "later ec (tick ?ec)" "later ec ((tick ?ec)\<lparr>ec_complete := False\<rparr>)" by (simp_all add: later_def unlimited_def)
  have read: "adds_source ec (file_source env p) (read_file env ?src p ?ec)" "adds_source ec (file_source env p) (read_file env ?src p (tick ?ec))"
    by (rule adds_later [OF l(1)]; simp add: read_file_adds) (rule adds_later [OF l(2)]; simp add: read_file_adds)
  have limit: "adds_source ec (file_source env p) (limit_reached ?src ?ec)"
    by (rule limit_reached_adds) (simp_all add: l file_source_def)
  show ?thesis
  proof (cases "optional_stat \<and> \<not> MaxConfigSources < ec_file_count ?ec")
    case True
    show ?thesis
    proof (cases "fs_stat env (ec_tick ec) (trim_root p)")
      case None
      then show ?thesis using True read(2) by (simp add: collect_file_def Let_def)
    next
      case (Some err)
      then have "missing_file env p" if "errors_is err ErrNotExist" using that unfolding missing_file_def by blast
      then show ?thesis using True Some l
        by (auto simp: collect_file_def Let_def file_source_def unmeasured_def intro!: adds_sourceI)
    qed
  next
    case False
    then show ?thesis using read(1) limit by (auto simp: collect_file_def Let_def)
  qed
qed

section \<open>Directories\<close>

text \<open>
  What a loop over several files adds. \<open>calm\<close> says that the context was alive at every tick up to the end.
\<close>

definition calm :: "services \<Rightarrow> engine_collector \<Rightarrow> bool" where
  "calm env ec \<longleftrightarrow> (\<forall>n\<le>ec_tick ec. ctx_err env n = None)"

definition measured_sources :: "engine_collector \<Rightarrow> configuration_source list \<Rightarrow> bool" where
  "measured_sources ec srcs \<longleftrightarrow> (ec_complete ec \<longrightarrow> list_all (\<lambda>src. \<not> unmeasured src) srcs)"

lemma calm_later: "calm env ec' \<Longrightarrow> later ec ec' \<Longrightarrow> calm env ec"
  by (auto simp: calm_def later_def)

lemma measured_later: "measured_sources ec srcs \<Longrightarrow> later ec ec' \<Longrightarrow> measured_sources ec' srcs"
  by (auto simp: measured_sources_def later_def)

lemma measured_append: "measured_sources ec (a @ b) \<longleftrightarrow> measured_sources ec a \<and> measured_sources ec b"
  by (auto simp: measured_sources_def)

lemma later_unselected: "later ec ec' \<Longrightarrow> \<not> c_selection_complete (ec_config ec) \<Longrightarrow> \<not> c_selection_complete (ec_config ec')"
  by (auto simp: later_def)

lemma collect_entries_adds:
  "\<exists>paths files. c_sources (ec_config (collect_entries env p i entries ec)) = c_sources (ec_config ec) @ files \<and>
     later ec (collect_entries env p i entries ec) \<and> list_all2 (file_source env) paths files \<and>
     measured_sources (collect_entries env p i entries ec) files \<and>
     (unlimited ec \<and> c_selection_complete (ec_config (collect_entries env p i entries ec)) \<longrightarrow>
        prefix paths (drop_in_paths p entries) \<and> (calm env (collect_entries env p i entries ec) \<longrightarrow> paths = drop_in_paths p entries))"
  (is "\<exists>paths files. ?added entries ec paths files")
proof (induction entries arbitrary: ec)
  case Nil
  then show ?case by (intro exI [of _ "[]"]) (simp add: later_refl measured_sources_def drop_in_paths_def)
next
  case (Cons entry entries)
  let ?name = "path_join [p, fst entry]"
  show ?case
  proof (cases "is_drop_in entry")
    case False
    obtain paths files where "?added entries ec paths files" using Cons.IH by blast
    then have "?added (entry # entries) ec paths files" using False by (simp add: drop_in_paths_def)
    then show ?thesis by blast
  next
    case drop_in: True
    show ?thesis
    proof (cases "safe_info_path ?name")
      case False
      obtain paths files where rest: "?added entries (reject_name i ec) paths files" using Cons.IH by blast
      then have "?added (entry # entries) ec paths files"
        using drop_in False later_trans [OF later_steps(3)] later_unselected [of "reject_name i ec"] by auto
      then show ?thesis by blast
    next
      case safe: True
      define ec1 where "ec1 = collect_file env ?name False ec"
      obtain src where src: "later ec ec1" "c_sources (ec_config ec1) = c_sources (ec_config ec) @ [src]"
          "file_source env ?name src" "ec_complete ec1 \<longrightarrow> \<not> unmeasured src"
        using collect_file_adds [of ec env ?name False] unfolding ec1_def adds_source_def by blast
      have paths: "drop_in_paths p (entry # entries) = ?name # drop_in_paths p entries" using drop_in by (simp add: drop_in_paths_def)
      have one: "measured_sources ec1 [src]" using src(4) by (simp add: measured_sources_def)
      show ?thesis
      proof (cases "ec_limit ec1 \<or> ctx_stopped env ec1")
        case True
        define ec2 where "ec2 = (if ec_limit ec1 then ec1 else tick ec1)"
        have ec2: "collect_entries env p i (entry # entries) ec = ec2" "later ec ec2" "later ec1 ec2" "c_sources (ec_config ec2) = c_sources (ec_config ec1)"
          using True drop_in safe src(1) later_trans [OF src(1) later_tick(1)] later_refl by (auto simp: ec1_def ec2_def Let_def)
        have "\<not> (unlimited ec \<and> c_selection_complete (ec_config ec2) \<and> calm env ec2)"
          using True src(1) by (auto simp: ec2_def unlimited_def later_def calm_def ctx_stopped_def tick_def)
        then have "?added (entry # entries) ec [?name] [src]"
          unfolding ec2(1) paths using src ec2 measured_later [OF one ec2(3)] by auto
        then show ?thesis by blast
      next
        case False
        have ec2: "collect_entries env p i (entry # entries) ec = collect_entries env p i entries (tick ec1)"
          using False drop_in safe by (simp add: ec1_def Let_def)
        obtain paths files where rest: "?added entries (tick ec1) paths files" using Cons.IH by blast
        then have l: "later ec1 (collect_entries env p i entries (tick ec1))" using later_trans [OF later_tick(1)] by blast
        have "unlimited ec \<longrightarrow> unlimited (tick ec1)" using src(1) by (simp add: later_def unlimited_def)
        then have "?added (entry # entries) ec (?name # paths) (src # files)"
          unfolding ec2 using rest src later_trans [OF src(1) l] measured_later [OF one l] paths
          by (simp add: measured_sources_def)
        then show ?thesis by blast
      qed
    qed
  qed
qed

text \<open>The sources that one entry of the plan adds.\<close>

definition adds_group :: "services \<Rightarrow> string \<times> bool \<Rightarrow> engine_collector \<Rightarrow> engine_collector \<Rightarrow> bool" where
  "adds_group env x ec ec' \<longleftrightarrow> later ec ec' \<and> (\<exists>srcs. c_sources (ec_config ec') = c_sources (ec_config ec) @ srcs \<and>
     measured_sources ec' srcs \<and>
     (unlimited ec \<and> c_selection_complete (ec_config ec') \<longrightarrow> source_group env (calm env ec') x srcs))"

lemma retain_group:
  assumes "later ec ec'" and "c_sources (ec_config ec') = c_sources (ec_config ec)" and "source_group env True x [src]"
    and "\<not> unmeasured src"
  shows "adds_group env x ec (retain src ec')"
  using assms source_group_weaken [OF assms(3)]
  by (auto simp: adds_group_def later_def unlimited_def measured_sources_def intro!: exI [of _ "[src]"])

lemma group_later:
  assumes "later a b" and "c_sources (ec_config b) = c_sources (ec_config a)" and "adds_group env x b c"
  shows "adds_group env x a c"
  using assms later_trans [OF assms(1)] by (fastforce simp: adds_group_def later_def)

lemma list_directory_adds:
  assumes "src_path src = p" and "src_kind src = ''directory''"
  shows "adds_group env (p, True) ec (list_directory env src p ec)"
proof (cases "fs_read_dir env (ec_tick ec) (trim_root p)")
  case (Inl err)
  have l: "later ec (tick ec)" "later ec (unselect (read_failed (tick ec)))"
    by (simp_all add: later_def unlimited_def)
  have one: "source_group env True (p, True) [src\<lparr>src_status := s\<rparr>]" if "s \<noteq> ''listed''" "s = ''absent'' \<longrightarrow> errors_is err ErrNotExist" for s
    using assms that Inl unfolding source_group_def directory_group_def by auto
  have "adds_group env (p, True) ec (retain (src\<lparr>src_status := ''absent''\<rparr>) (tick ec))" if "errors_is err ErrNotExist"
    by (rule retain_group [OF l(1)]) (simp_all add: one that unmeasured_def)
  moreover have "adds_group env (p, True) ec (retain (src\<lparr>src_status := failure_status err\<rparr>) (unselect (read_failed (tick ec))))"
    by (rule retain_group [OF l(2)]) (simp_all add: one unmeasured_def failure_not_absent)
  ultimately show ?thesis using Inl by (simp add: list_directory_def)
next
  case (Inr entries)
  define ec1 where "ec1 = retain (src\<lparr>src_status := ''listed''\<rparr>) (tick ec)"
  define ec2 where "ec2 = collect_entries env p (src_id src) entries ec1"
  have l: "later ec ec1" by (simp add: ec1_def later_def unlimited_def)
  obtain paths files where files: "c_sources (ec_config ec2) = c_sources (ec_config ec1) @ files" "later ec1 ec2"
      "list_all2 (file_source env) paths files" "measured_sources ec2 files"
      "unlimited ec1 \<and> c_selection_complete (ec_config ec2) \<longrightarrow>
         prefix paths (drop_in_paths p entries) \<and> (calm env ec2 \<longrightarrow> paths = drop_in_paths p entries)"
    using collect_entries_adds [of env p "src_id src" entries ec1] unfolding ec2_def by blast
  have "source_group env (calm env ec2) (p, True) (src\<lparr>src_status := ''listed''\<rparr> # files)"
    if "prefix paths (drop_in_paths p entries) \<and> (calm env ec2 \<longrightarrow> paths = drop_in_paths p entries)"
    using assms that Inr files(3) unfolding source_group_def directory_group_def by auto
  then have "adds_group env (p, True) ec ec2"
    using l files later_trans [OF l] unfolding adds_group_def
    by (auto simp: ec1_def measured_sources_def unmeasured_def later_def intro!: exI [of _ "src\<lparr>src_status := ''listed''\<rparr> # files"])
  then show ?thesis using Inr by (simp add: list_directory_def ec1_def ec2_def)
qed

lemma collect_directory_adds: "adds_group env (p, True) ec (collect_directory env p ec)"
proof -
  let ?src = "new_source p ''directory'' ec"
  have l: "later ec (unselect (read_failed (tick ec)))"
    by (simp add: later_def unlimited_def)
  have listed: "adds_group env (p, True) ec (list_directory env ?src p ec)" "adds_group env (p, True) ec (list_directory env ?src p (tick ec))"
    by (simp add: list_directory_adds) (rule group_later [OF later_tick(1)]; simp add: list_directory_adds)
  have one: "source_group env True (p, True) [?src\<lparr>src_status := s\<rparr>]" if "s \<noteq> ''listed''" "s \<noteq> ''absent''" for s
    using that unfolding source_group_def directory_group_def by auto
  have "adds_group env (p, True) ec (retain (?src\<lparr>src_status := ''symlink_skipped''\<rparr>) (tick ec))"
    by (rule retain_group [OF later_tick(1)]) (simp_all add: one unmeasured_def)
  moreover have "adds_group env (p, True) ec (retain (?src\<lparr>src_status := failure_status err\<rparr>) (unselect (read_failed (tick ec))))" for err
    by (rule retain_group [OF l]) (simp_all add: one unmeasured_def failure_not_absent)
  ultimately show ?thesis using listed by (simp add: collect_directory_def Let_def split: option.split)
qed

lemma collect_file_group: "adds_group env (p, False) ec (collect_file env p optional_stat ec)"
  using collect_file_adds [of ec env p optional_stat]
  by (auto simp: adds_source_def adds_group_def measured_sources_def source_group_def)

section \<open>The plan\<close>

lemma collect_plan_adds:
  "later ec (collect_plan env plan ec) \<and> (\<exists>srcs. c_sources (ec_config (collect_plan env plan ec)) = c_sources (ec_config ec) @ srcs \<and>
     measured_sources (collect_plan env plan ec) srcs \<and>
     (unlimited ec \<and> c_selection_complete (ec_config (collect_plan env plan ec)) \<longrightarrow>
        (\<exists>groups. srcs = concat groups \<and> list_all2 (source_group env (calm env (collect_plan env plan ec))) plan groups)))"
  (is "?added plan ec")
proof (induction plan arbitrary: ec)
  case Nil
  then show ?case by (simp add: later_refl measured_sources_def)
next
  case (Cons x plan)
  obtain p d where x: "x = (p, d)" by (cases x)
  show ?case
  proof (cases "ctx_stopped env ec \<or> ec_limit ec")
    case True
    then show ?thesis by (simp add: x later_def unlimited_def measured_sources_def tick_def)
  next
    case False
    define ec1 where "ec1 = (if d then collect_directory env p (tick ec)
        else collect_file env p (c_profile (ec_config ec) = Containers493) (tick ec))"
    define ec2 where "ec2 = collect_plan env plan ec1"
    have run: "collect_plan env (x # plan) ec = ec2" using False by (simp add: x ec1_def ec2_def)
    have "adds_group env x (tick ec) ec1" by (simp add: ec1_def x collect_directory_adds collect_file_group)
    then have first: "adds_group env x ec ec1" by (rule group_later [OF later_tick(1), rotated]) simp
    then obtain srcs where srcs: "later ec ec1" "c_sources (ec_config ec1) = c_sources (ec_config ec) @ srcs" "measured_sources ec1 srcs"
        "unlimited ec \<and> c_selection_complete (ec_config ec1) \<longrightarrow> source_group env (calm env ec1) x srcs"
      unfolding adds_group_def by blast
    obtain rest where rest: "later ec1 ec2" "c_sources (ec_config ec2) = c_sources (ec_config ec1) @ rest" "measured_sources ec2 rest"
        "unlimited ec1 \<and> c_selection_complete (ec_config ec2) \<longrightarrow>
           (\<exists>groups. rest = concat groups \<and> list_all2 (source_group env (calm env ec2)) plan groups)"
      using Cons.IH [of ec1] unfolding ec2_def by blast
    have "\<exists>groups. srcs @ rest = concat groups \<and> list_all2 (source_group env (calm env ec2)) (x # plan) groups"
      if sel: "unlimited ec" "c_selection_complete (ec_config ec2)"
    proof -
      have "unlimited ec1" "c_selection_complete (ec_config ec1)" using sel srcs(1) rest(1) by (auto simp: later_def)
      then obtain groups where "rest = concat groups" "list_all2 (source_group env (calm env ec2)) plan groups"
        and "source_group env (calm env ec1) x srcs" using srcs(4) rest(4) sel by blast
      then show ?thesis using source_group_weaken [of env "calm env ec1" x srcs "calm env ec2"] calm_later [OF _ rest(1)]
        by (intro exI [of _ "srcs # groups"]) auto
    qed
    then show ?thesis unfolding run
      using later_trans [OF srcs(1) rest(1)] srcs(2) rest(2,3) measured_later [OF srcs(3) rest(1)]
      by (auto simp: measured_append intro!: exI [of _ "srcs @ rest"])
  qed
qed

text \<open>A context that was cancelled stays cancelled.\<close>

definition ctx_sticky :: "services \<Rightarrow> bool" where
  "ctx_sticky env \<longleftrightarrow> (\<forall>m n. m \<le> n \<and> ctx_err env m \<noteq> None \<longrightarrow> ctx_err env n \<noteq> None)"

lemma sticky_calm: "ctx_sticky env \<Longrightarrow> ctx_err env (ec_tick ec) = None \<Longrightarrow> calm env ec"
  unfolding ctx_sticky_def calm_def by blast

lemma collect_sources_groups:
  assumes "ec = collect_sources env p c policy network" and "c_sources c = []" and "c_selection_complete (ec_config ec)" and "ctx_sticky env"
  shows "\<exists>groups. c_sources (ec_config ec) = concat groups \<and>
    list_all2 (source_group env (ctx_err env (ec_tick ec) = None)) (engine_source_plan (c_profile c) (uid (ep_target p)) (config_home policy)) groups \<and>
    (ec_complete ec \<longrightarrow> list_all (\<lambda>src. \<not> unmeasured src) (c_sources (ec_config ec)))"
proof -
  have start: "unlimited (start_collector c network)" "c_sources (ec_config (start_collector c network)) = []"
    using assms(2) by (simp_all add: unlimited_def start_collector_def)
  let ?plan = "engine_source_plan (c_profile c) (uid (ep_target p)) (config_home policy)"
  obtain srcs where srcs: "c_sources (ec_config ec) = srcs" "measured_sources ec srcs"
      "\<exists>groups. srcs = concat groups \<and> list_all2 (source_group env (calm env ec)) ?plan groups"
    using collect_plan_adds [of "start_collector c network" env ?plan] start assms(1,3) unfolding collect_sources_def by auto
  then obtain groups where "srcs = concat groups" "list_all2 (source_group env (calm env ec)) ?plan groups" by blast
  moreover from this(2) have "list_all2 (source_group env (ctx_err env (ec_tick ec) = None)) ?plan groups"
    by (rule list_all2_mono) (use source_group_weaken sticky_calm [OF assms(4)] in blast)
  ultimately show ?thesis using srcs by (auto simp: measured_sources_def)
qed

section \<open>A cancellation inside the last directory\<close>

text \<open>
  Without the premise that the context was not cancelled the coverage is lost: a cancellation between two files of a
  directory drops the rest of the listing, and no flag records it. Only the plan's next entry would clear the flags; in
  the last directory only the error that the run returns tells a complete observation from a cut one.
\<close>

lemma cancelled_listing_unmarked:
  assumes "is_drop_in entry" and "safe_info_path (path_join [name, fst entry])"
    and "ec' = collect_file env (path_join [name, fst entry]) False ec" and "\<not> ec_limit ec'" and "ctx_stopped env ec'"
  shows "collect_entries env name i (entry # entries) ec = tick ec' \<and>
    c_selection_complete (ec_config (tick ec')) = c_selection_complete (ec_config ec') \<and>
    c_parse_complete (ec_config (tick ec')) = c_parse_complete (ec_config ec') \<and> ec_complete (tick ec') = ec_complete ec'"
  using assms by (simp add: Let_def tick_def)

end
