(* ===== verification/Podman_Collection.thy ===== *)
theory Podman_Collection
  imports Podman_Network_Laws Podman_Coverage
begin

text \<open>
  The guarantees of a whole run of the configuration probe, alone and together with the network family,
  as an evaluator sees them.
\<close>

section \<open>What a run keeps of its start\<close>

definition frame :: "configuration_observation \<Rightarrow> string \<times> string \<times> string \<times> string" where
  "frame c = (c_family c, c_runtime_path c, c_version_source_id c, c_profile c)"

definition frames :: "engine_collector \<Rightarrow> (string \<times> string \<times> string \<times> string) \<times> (string \<times> string \<times> string \<times> string) option" where
  "frames ec = (frame (ec_config ec), map_option (\<lambda>nc. frame (nc_config nc)) (ec_network ec))"

lemma frame_network [simp]:
  "frame (nc_config (network_retain src nc)) = frame (nc_config nc)"
  "frame (nc_config (network_file env src data nc)) = frame (nc_config nc)"
  by (simp_all add: frame_def network_retain_def network_append_def network_unread_def network_file_def Let_def
      split: option.splits sum.splits prod.splits)

lemma frame_simps [simp]:
  "frames (tick ec) = frames ec" "frames (read_failed ec) = frames ec" "frames (unselect ec) = frames ec"
  "frames (retain src ec) = frames ec" "frames (reject_name i ec) = frames ec" "frames (limit_reached src ec) = frames ec"
  "frames (ec\<lparr>ec_file_count := k\<rparr>) = frames ec" "frames (ec\<lparr>ec_total_bytes := k\<rparr>) = frames ec"
  "frames (ec\<lparr>ec_complete := b\<rparr>) = frames ec"
  by (simp_all add: frames_def retain_def limit_reached_def read_failed_def unselect_def reject_name_def option.map_comp comp_def)
    (simp_all add: frame_def)

lemma frames_cong: "frame (ec_config ec') = frame (ec_config ec) \<Longrightarrow> ec_network ec' = ec_network ec \<Longrightarrow> frames ec' = frames ec"
  by (simp add: frames_def)

lemma frames_parse_file [simp]: "frames (parse_file env src data ec) = frames ec"
  by (simp add: parse_file_def Let_def split: sum.splits) (simp add: frames_def frame_def)

lemma frames_read_file [simp]: "frames (read_file env src name ec) = frames ec"
proof -
  have "frames (ec'\<lparr>ec_network := map_option (network_file env src' data) (ec_network ec')\<rparr>) = frames ec'" for ec' src' data
    by (simp add: frames_def option.map_comp comp_def)
  from this [of _ _ "(tick ec)\<lparr>ec_total_bytes := k\<rparr>" for k] show ?thesis
    by (simp add: read_file_def Let_def split: sum.splits)
qed

lemma frames_collect_file [simp]: "frames (collect_file env name optional_stat ec) = frames ec"
  by (simp add: collect_file_def Let_def split: option.splits)

lemma frames_entries [simp]: "frames (collect_entries env name i entries ec) = frames ec"
  by (induction env name i entries ec rule: collect_entries.induct) (simp_all add: Let_def)

lemma frames_directory [simp]: "frames (collect_directory env name ec) = frames ec"
  by (simp add: collect_directory_def list_directory_def Let_def split: option.splits sum.splits)

lemma frames_plan: "frames (collect_plan env plan ec) = frames ec"
proof (induction env plan ec rule: collect_plan.induct)
  case (2 env name is_directory plan ec)
  show ?case
  proof (cases "ctx_stopped env ec \<or> ec_limit ec")
    case True
    then show ?thesis by simp (simp add: frames_def frame_def)
  next
    case False
    then show ?thesis using "2.IH" [OF False] by (cases is_directory) simp_all
  qed
qed simp


section \<open>The engine family\<close>

text \<open>The states a run can end in: before any source, or after the source plan.\<close>

lemma engine_run_cases:
  assumes "engine_run env files p s at network = (obs, nw, err)"
  obtains (unavailable) "obs = unavailable (engine_configuration_start p s) (runtime_observation EngineConfigID s at)" "nw = network"
      "err \<noteq> None"
    | (collected) policy ec where "ec = collect_sources env p (engine_configuration_start p s) policy network"
      "obs = engine_observation ec (runtime_observation EngineConfigID s at)" "nw = ec_network ec" "err = ctx_err env (ec_tick ec)"
proof (cases "ep_environment_error p \<noteq> None \<or> \<not> files")
  case True
  then show ?thesis using assms that(1) by (auto simp add: engine_run_def Let_def)
next
  case False
  note run = assms [unfolded engine_run_def Let_def if_not_P [OF False]]
  show ?thesis
  proof (cases "target_environment (home_dir (ep_target p)) (ep_environment p)")
    case (Inl e)
    then show ?thesis using run that(1) by auto
  next
    case (Inr policy)
    show ?thesis by (rule that(2) [of _ policy, OF refl]) (use run Inr in simp_all)
  qed
qed

lemma engine_observation_fields [simp]:
  "ob_configuration (engine_observation ec obs) = Some (ec_config ec)" "ob_id (engine_observation ec obs) = ob_id obs"
  "ob_scope (engine_observation ec obs) = ob_scope obs"
  by (simp_all add: engine_observation_def Let_def observation_simps)

lemma unavailable_fields [simp]:
  "ob_configuration (unavailable c obs) = Some (c\<lparr>c_selection_complete := False, c_parse_complete := False\<rparr>)"
  "ob_id (unavailable c obs) = ob_id obs" "ob_scope (unavailable c obs) = ob_scope obs"
  by (simp_all add: unavailable_def observation_simps)

lemma start_fields [simp]:
  "c_sources (engine_configuration_start p s) = []" "c_profile (engine_configuration_start p s) = engine_profile p s"
  "c_engine (engine_configuration_start p s) = (if engine_profile p s = ContainersUnqualified then None else Some no_engine)"
  "c_family (engine_configuration_start p s) = ''engine''" "c_runtime_path (engine_configuration_start p s) = ep_path p"
  "c_version_source_id (engine_configuration_start p s) =
     (if engine_profile p s = ContainersUnqualified then '''' else ob_id (ep_version p))"
  by (simp_all add: engine_configuration_start_def initial_configuration_def Let_def)

lemma collected_frame:
  "frame (ec_config (collect_sources env p (engine_configuration_start p s) policy network)) =
   (''engine'', ep_path p, if engine_profile p s = ContainersUnqualified then '''' else ob_id (ep_version p), engine_profile p s)"
proof -
  have "frames (collect_sources env p (engine_configuration_start p s) policy network) =
      frames (start_collector (engine_configuration_start p s) network)"
    by (simp add: collect_sources_def frames_plan)
  then show ?thesis by (simp add: frames_def start_collector_def) (simp add: frame_def)
qed

definition file_sources :: "configuration_observation \<Rightarrow> configuration_source list" where
  "file_sources c = filter (\<lambda>src. src_kind src = ''file'') (c_sources c)"

definition parsed_sources :: "configuration_observation \<Rightarrow> configuration_source list" where
  "parsed_sources c = filter (\<lambda>src. src_status src = ''parsed'') (c_sources c)"

definition applied_sources :: "configuration_observation \<Rightarrow> configuration_source list" where
  "applied_sources c = filter src_applied (c_sources c)"

text \<open>The shape of every collected configuration, whatever the files, the context and the digest do.\<close>

definition merged_prefix :: "services \<Rightarrow> string \<Rightarrow> configuration_observation \<Rightarrow> bool" where
  "merged_prefix env profile c \<longleftrightarrow>
     (\<exists>layers. list_all2 (engine_document env) (applied_sources c) layers \<and>
        c_engine c = (if profile = ContainersUnqualified then None else Some (merged_engine layers))) \<and>
     (\<exists>k. list_all good (take k (c_sources c)) \<and> list_all (\<lambda>src. \<not> src_applied src) (drop k (c_sources c)))"

lemma merged_prefixI:
  assumes "engine_inv env (if profile = ContainersUnqualified then None else Some no_engine) ec"
  shows "merged_prefix env profile (ec_config ec)"
proof -
  obtain front rest where f: "c_sources (ec_config ec) = front @ rest" "list_all good front" "list_all (\<lambda>s. \<not> src_applied s) rest"
    using assms unfolding engine_inv_def Let_def applied_prefix_def by blast
  then have "\<exists>k. list_all good (take k (c_sources (ec_config ec))) \<and> list_all (\<lambda>src. \<not> src_applied src) (drop k (c_sources (ec_config ec)))"
    by (intro exI [of _ "length front"]) simp
  moreover obtain layers where "list_all2 (engine_document env) (applied_sources (ec_config ec)) layers"
    "c_engine (ec_config ec) = map_option (\<lambda>w. foldl (\<lambda>w (source, l). merge_engine w l source) w layers)
       (if profile = ContainersUnqualified then None else Some no_engine)"
    using assms unfolding engine_inv_def Let_def merged_sources_def applied_sources_def by blast
  ultimately show ?thesis unfolding merged_prefix_def merged_engine_def by auto
qed

lemma run_collected:
  assumes "engine_run env files p s at network = (obs, nw, err)" "ob_configuration obs = Some c"
  shows "merged_prefix env (engine_profile p s) c \<and> (\<forall>n < length (c_sources c). source_at n (c_sources c ! n)) \<and>
     frame c = (''engine'', ep_path p, if engine_profile p s = ContainersUnqualified then '''' else ob_id (ep_version p), engine_profile p s)"
  using assms(1)
proof (cases rule: engine_run_cases)
  case unavailable
  then have "c = (engine_configuration_start p s)\<lparr>c_selection_complete := False, c_parse_complete := False\<rparr>" using assms(2) by simp
  then show ?thesis by (auto simp: merged_prefix_def applied_sources_def merged_engine_def frame_def)
next
  case (collected policy ec)
  then have c: "c = ec_config ec" using assms(2) by simp
  have "engine_inv env (c_engine (engine_configuration_start p s)) ec" unfolding collected(1) by (rule collect_sources_inv)
  then show ?thesis using merged_prefixI [of env "engine_profile p s" ec] collected_frame [of env p s policy network]
    by (auto simp: c engine_inv_def Let_def simp flip: collected(1))
qed



lemma parsed_state_supported:
  assumes "engine_parsed_state c = StateSupported"
  shows "c_selection_complete c" "c_parse_complete c" "\<exists>e. c_engine c = Some e"
  using assms by (auto simp: engine_parsed_state_def split: if_splits option.splits)

lemma selected_run_good:
  assumes run: "engine_run env files p s at network = (obs, nw, err)" and c: "ob_configuration obs = Some c"
    and complete: "c_selection_complete c" "c_parse_complete c"
  shows "list_all good (c_sources c)"
  using run
proof (cases rule: engine_run_cases)
  case unavailable
  then show ?thesis using c complete by auto
next
  case (collected policy ec)
  then have "c = ec_config ec" using c by simp
  moreover have "engine_inv env (c_engine (engine_configuration_start p s)) ec" unfolding collected(1) by (rule collect_sources_inv)
  ultimately show ?thesis using complete by (auto simp: engine_inv_def Let_def applied_prefix_def)
qed

lemma good_parsed: "list_all good sources \<Longrightarrow> filter src_applied sources = filter (\<lambda>src. src_status src = ''parsed'') sources"
  by (induction sources) (auto simp: good_def)

lemma layers_zip:
  assumes "list_all2 document sources layers" and "\<And>src source l. document src (source, l) \<Longrightarrow> source = src_id src"
  shows "map (\<lambda>(src, l). (src_id src, l)) (zip sources (map snd layers)) = layers"
  using assms(1) by (induction rule: list_all2_induct) (auto dest: assms(2))

lemma run_sources_planned:
  assumes "engine_run env files p s at network = (obs, nw, err)" and "ob_configuration obs = Some c"
    and "c_selection_complete c" and "ctx_sticky env"
  shows "\<exists>policy groups. target_environment (home_dir (ep_target p)) (ep_environment p) = Inr policy \<and> c_sources c = concat groups \<and>
    list_all2 (source_group env (err = None)) (engine_source_plan (engine_profile p s) (uid (ep_target p)) (config_home policy)) groups \<and>
    (ob_completeness obs = Complete \<longrightarrow> list_all (\<lambda>src. \<not> unmeasured src) (c_sources c))"
proof (cases "ep_environment_error p \<noteq> None \<or> \<not> files")
  case True
  then show ?thesis using assms(1-3) by (auto simp: engine_run_def Let_def)
next
  case False
  note run = assms(1) [unfolded engine_run_def Let_def if_not_P [OF False]]
  show ?thesis
  proof (cases "target_environment (home_dir (ep_target p)) (ep_environment p)")
    case (Inl e)
    then show ?thesis using run assms(2,3) by auto
  next
    case (Inr policy)
    define ec where "ec = collect_sources env p (engine_configuration_start p s) policy network"
    have ec: "obs = engine_observation ec (runtime_observation EngineConfigID s at)" "err = ctx_err env (ec_tick ec)"
      using run Inr by (simp_all add: ec_def)
    then have c: "c = ec_config ec" using assms(2) by simp
    have "ob_completeness obs = Complete \<Longrightarrow> ec_complete ec"
      by (auto simp: ec engine_observation_def Let_def observation_simps split: if_splits)
    then show ?thesis using collect_sources_groups [OF ec_def] assms(3,4) Inr by (auto simp: c ec)
  qed
qed


text \<open>One run reads a bounded amount: at most 65 file sources are recorded, whatever the directories hold, and the
  documents that were parsed hold at most 1 MiB together.\<close>

lemma collection_bounds:
  assumes "engine_run env files p s at network = (obs, nw, err)" and "ob_configuration obs = Some c"
  shows "length (file_sources c) \<le> MaxConfigSources + 1 \<and>
    (\<exists>docs. list_all2 (\<lambda>src data. src_sha256 src = sha256_hex env data) (parsed_sources c) docs \<and>
       sum_list (map length docs) \<le> MaxConfigTotalBytes)"
  using assms(1)
proof (cases rule: engine_run_cases)
  case unavailable
  then show ?thesis using assms(2) by (auto simp: file_sources_def parsed_sources_def)
next
  case (collected policy ec)
  then have c: "c = ec_config ec" using assms(2) by simp
  have "bounded_inv env (start_collector (engine_configuration_start p s) network)"
    by (simp add: bounded_inv_def reads_def start_collector_def documents_def)
  then have inv: "bounded_inv env ec" unfolding collected(1) collect_sources_def by (rule collect_plan_bounded)
  then obtain docs where "documents env (c_sources c) docs" "sum_list (map length docs) \<le> MaxConfigTotalBytes"
    unfolding bounded_inv_def reads_def c by blast
  moreover have "filter is_parsed (c_sources c) = parsed_sources c" by (simp add: parsed_sources_def is_parsed_def [abs_def])
  ultimately have "\<exists>docs. list_all2 (\<lambda>src data. src_sha256 src = sha256_hex env data) (parsed_sources c) docs \<and>
       sum_list (map length docs) \<le> MaxConfigTotalBytes"
    unfolding documents_def by (metis (mono_tags, lifting) list_all2_mono)
  moreover have "file_sources c = filter is_file (c_sources c)" by (simp add: file_sources_def is_file_def [abs_def])
  moreover have "length (filter is_file (c_sources c)) \<le> MaxConfigSources + 1"
    using inv unfolding bounded_inv_def reads_def c by (auto split: if_splits)
  ultimately show ?thesis by simp
qed

text \<open>Collecting the network family from the same reads changes nothing about the engine family: \<open>Collect\<close> returns the
  engine observation and the error of \<open>Run\<close> at the same time.\<close>

lemma collect_agrees_with_run:
  "fst (engine_collect env files p s) = fst (engine_run env files p s (ep_now p 1) None) \<and>
   snd (snd (engine_collect env files p s)) = snd (snd (engine_run env files p s (ep_now p 1) None))"
  using engine_run_network [of env files p s "ep_now p 1" "Some (new_network_collector p s)"]
  by (cases "engine_run env files p s (ep_now p 1) (Some (new_network_collector p s))") (simp add: engine_collect_def)


section \<open>The network family\<close>

lemma network_start_fields [simp]:
  "c_sources (network_configuration_start p s) = []" "c_profile (network_configuration_start p s) = engine_profile p s"
  "c_network (network_configuration_start p s) =
     (if engine_profile p s = ContainersUnqualified then None else Some (network_defaults (engine_profile p s) (ob_id (ep_version p))))"
  "frame (network_configuration_start p s) =
     (''network'', ep_path p, if engine_profile p s = ContainersUnqualified then '''' else ob_id (ep_version p), engine_profile p s)"
  by (simp_all add: network_configuration_start_def initial_configuration_def Let_def frame_def)

lemma new_network_collector_inv:
  "network_inv env (c_network (network_configuration_start p s)) 0 (new_network_collector p s)"
  by (simp add: network_inv_def new_network_collector_def Let_def applied_prefix_def merged_sources_def option.map_ident)

lemma collect_network:
  assumes "engine_collect env files p s = (engine, network, err)"
  obtains nc where "network = network_finish engine s (ep_now p 0) nc"
    "network_inv env (c_network (network_configuration_start p s)) (length (c_sources (nc_config nc))) nc"
    "frame (nc_config nc) = frame (network_configuration_start p s)"
proof -
  let ?nc = "new_network_collector p s"
  have initial: "frame (nc_config ?nc) = frame (network_configuration_start p s)" by (simp add: new_network_collector_def Let_def)
  obtain nw where run: "engine_run env files p s (ep_now p 1) (Some ?nc) = (engine, nw, err)"
    and network: "network = network_finish engine s (ep_now p 0) (the nw)"
    using assms unfolding engine_collect_def by (auto simp: Let_def split: prod.splits)
  from run show ?thesis
  proof (cases rule: engine_run_cases)
    case unavailable
    then have "nw = Some ?nc" by simp
    then have "network = network_finish engine s (ep_now p 0) ?nc" using network by simp
    moreover have "length (c_sources (nc_config ?nc)) = 0" by (simp add: new_network_collector_def Let_def)
    ultimately show ?thesis using that [of ?nc] new_network_collector_inv [of env p s] initial by (simp only:)
  next
    case (collected policy ec)
    let ?start = "start_collector (engine_configuration_start p s) (Some ?nc)"
    have "joint_inv env (c_network (network_configuration_start p s)) ?start"
      using new_network_collector_inv by (simp add: joint_inv_def start_collector_def del: network_start_fields)
    then have "joint_inv env (c_network (network_configuration_start p s)) ec"
      unfolding collected(1) collect_sources_def by (rule collect_plan_joint)
    then obtain nc where nc: "ec_network ec = Some nc"
      "network_inv env (c_network (network_configuration_start p s)) (length (c_sources (ec_config ec))) nc"
      unfolding joint_inv_def by blast
    have "frames ec = frames ?start" unfolding collected(1) collect_sources_def by (rule frames_plan)
    then have "frame (nc_config nc) = frame (network_configuration_start p s)"
      using nc(1) initial by (simp add: frames_def start_collector_def)
    moreover have "length (c_sources (nc_config nc)) = length (c_sources (ec_config ec))"
      using nc(2) by (simp add: network_inv_def Let_def)
    ultimately show ?thesis using that [of nc] network collected(3) nc by (simp del: network_start_fields)
  qed
qed

lemma network_finish_fields:
  "ob_configuration (network_finish engine s at nc) = Some ((nc_config nc)\<lparr>
     c_selection_complete := c_selection_complete (nc_config nc) \<and>
       (case ob_configuration engine of None \<Rightarrow> False | Some ec \<Rightarrow> c_selection_complete ec),
     c_network := map_option (finish_network engine) (c_network (nc_config nc)),
     c_parse_complete := c_parse_complete (nc_config nc) \<and> (c_selection_complete (nc_config nc) \<and>
       (case ob_configuration engine of None \<Rightarrow> False | Some ec \<Rightarrow> c_selection_complete ec) \<or> c_sources (nc_config nc) \<noteq> [])\<rparr>)"
  "ob_id (network_finish engine s at nc) = NetworkConfigID" "ob_scope (network_finish engine s at nc) = s"
  by (simp_all add: network_finish_def Let_def observation_simps note_diagnostic_def)

definition merged_defaults :: "network_configuration \<Rightarrow> (string \<times> network_layer) list \<Rightarrow> network_configuration" where
  "merged_defaults defaults layers = foldl (\<lambda>n (source, l). merge_network n l source) defaults layers"

lemma network_defaults_ok: "network_ok (network_defaults profile source)"
  by (simp add: network_ok_def network_defaults_def Let_def network_string_ok_def network_setting_def list_ok_def
      networkBackendField_def rootlessCommandField_def)

lemma merged_defaults_ok:
  "network_ok d \<Longrightarrow> list_all (\<lambda>(source, l). network_layer_ok l) layers \<Longrightarrow> network_ok (merged_defaults d layers)"
  unfolding merged_defaults_def by (rule foldl_keeps) (auto simp: list_all_iff merge_network_ok)

text \<open>The network configuration that a collection reports, in terms of the sources.\<close>

lemma collected_network:
  assumes collect: "engine_collect env files p s = (engine, network, err)" and c: "ob_configuration network = Some c"
    and n: "c_network c = Some n"
  obtains layers where "list_all2 (network_document env (engine_profile p s \<noteq> Containers493)) (applied_sources c) layers"
    "n = finish_network engine (merged_defaults (network_defaults (engine_profile p s) (ob_id (ep_version p))) layers)"
    "list_all (\<lambda>(source, l). network_layer_ok l) layers"
proof -
  obtain nc where nc: "network = network_finish engine s (ep_now p 0) nc"
    "network_inv env (c_network (network_configuration_start p s)) (length (c_sources (nc_config nc))) nc"
    "frame (nc_config nc) = frame (network_configuration_start p s)"
    using collect_network [OF collect] by blast
  have fields: "c_sources c = c_sources (nc_config nc)" "c_network c = map_option (finish_network engine) (c_network (nc_config nc))"
    using c unfolding nc(1) network_finish_fields by auto
  have profile: "c_profile (nc_config nc) = engine_profile p s" using nc(3) by (simp add: frame_def)
  obtain layers where l: "list_all2 (network_document env (engine_profile p s \<noteq> Containers493)) (applied_sources c) layers"
    "c_network (nc_config nc) = map_option (\<lambda>w. merged_defaults w layers) (c_network (network_configuration_start p s))"
    using nc(2) unfolding network_inv_def Let_def merged_sources_def applied_sources_def fields profile merged_defaults_def by blast
  have "list_all (\<lambda>(source, l). network_layer_ok l) layers"
    using l(1) by (induction rule: list_all2_induct) (auto simp: network_document_def dest: parse_network_ok)
  then show ?thesis using that [of layers] l n fields(2) by (auto split: if_splits)
qed


lemma source_state_supported:
  assumes "network_source_state c = StateSupported"
  shows "c_selection_complete c" "c_parse_complete c" "\<exists>n. c_network c = Some n"
  using assms by (auto simp: network_source_state_def split: if_splits)

text \<open>When the evaluator reads a collected network configuration as supported, it is the built-in defaults of the
  version's profile, overlaid in order by what the parser makes of the document of every parsed source, and no
  selected source was lost; the engine's plans are then attached to it.\<close>

lemma supported_network_complete:
  assumes collect: "engine_collect env files p s = (engine, network, err)" and c: "ob_configuration network = Some c"
    and supported: "network_source_state c = StateSupported"
  shows "list_all (\<lambda>src. src_status src \<in> {''parsed'', ''listed'', ''absent'', ''symlink_skipped'', ''stat_denied'', ''stat_incomplete''})
      (c_sources c) \<and>
    (\<exists>layers. list_all2 (network_document env (engine_profile p s \<noteq> Containers493)) (parsed_sources c) layers \<and>
      c_network c = Some (finish_network engine
        (merged_defaults (network_defaults (engine_profile p s) (ob_id (ep_version p))) layers)))"
proof -
  obtain nc where nc: "network = network_finish engine s (ep_now p 0) nc"
    "network_inv env (c_network (network_configuration_start p s)) (length (c_sources (nc_config nc))) nc"
    using collect_network [OF collect] by blast
  have "c_sources c = c_sources (nc_config nc)" "c_selection_complete c \<longrightarrow> c_selection_complete (nc_config nc)"
    "c_parse_complete c \<longrightarrow> c_parse_complete (nc_config nc)"
    using c unfolding nc(1) network_finish_fields by auto
  then have good: "list_all good (c_sources c)"
    using nc(2) source_state_supported [OF supported] by (auto simp: network_inv_def Let_def applied_prefix_def)
  have parsed: "applied_sources c = parsed_sources c"
    using good_parsed [OF good] by (simp add: applied_sources_def parsed_sources_def)
  obtain n where n: "c_network c = Some n" using source_state_supported(3) [OF supported] by blast
  have "list_all (\<lambda>src. src_status src \<in> {''parsed'', ''listed'', ''absent'', ''symlink_skipped'', ''stat_denied'', ''stat_incomplete''})
      (c_sources c)"
    using good by (auto simp: good_def list_all_iff split: if_splits)
  then show ?thesis using collected_network [OF collect c n] n unfolding parsed by blast
qed

lemma finish_network_fields [simp]:
  "n_engine_source_id (finish_network engine n) = ob_id engine" "n_strings (finish_network engine n) = n_strings n"
  "n_helper_paths (finish_network engine n) = network_helper_paths engine (n\<lparr>n_engine_source_id := ob_id engine\<rparr>) NetworkConfigID"
  by (simp_all add: finish_network_def Let_def)

lemma valid_strings: "network_ok n \<Longrightarrow> cs_invalid (string_of_key n key) \<Longrightarrow> cs_value (string_of_key n key) = ''''"
  using list_all_map_of [of network_string_ok "n_strings n" key]
  by (auto simp: network_ok_def string_of_key_def network_string_ok_def split: option.splits)

lemma finished_plan_bound:
  assumes ok: "network_ok n" and engine: "plan_engine engine = Some e"
    and plan: "map_of (n_helper_paths (finish_network engine n)) role = Some plan" and inherited: "\<not> cl_inherited_default plan"
  shows "network_plan_bound e (finish_network engine n) role"
proof -
  have key: "string_of_key (finish_network engine n) k = string_of_key n k" "string_of_key (n\<lparr>n_engine_source_id := i\<rparr>) k = string_of_key n k" for k i
    by (simp_all add: string_of_key_def)
  have "role \<in> set network_roles"
  proof -
    obtain r where "r \<in> set network_roles" "(role, plan) \<in> set (helper_plan e (n\<lparr>n_engine_source_id := ob_id engine\<rparr>) NetworkConfigID r)"
      using map_of_SomeD [OF plan] engine by (auto simp: network_helper_paths_def)
    then show ?thesis using helper_plan_role by blast
  qed
  then have "map_of (helper_plan e (n\<lparr>n_engine_source_id := ob_id engine\<rparr>) NetworkConfigID role) role = Some plan"
    "role \<in> set network_roles"
    using plan helper_paths_lookup [OF engine] by simp_all
  from helper_plan_expected [OF this inherited] show ?thesis
    using plan inherited valid_strings [OF ok] unfolding network_plan_bound_def Let_def
    by (auto simp: key simp del: finish_network_fields(3))
qed

lemma supported_plan_engine:
  assumes "ob_configuration engine = Some ec" "engine_parsed_state ec = StateSupported" "ob_completeness engine = Complete"
    "c_engine ec = Some e" "\<not> environment_overridden e"
  shows "plan_engine engine = Some e"
  using assms parsed_state_supported [OF assms(2)]
  by (auto simp: plan_engine_def engine_parsed_state_def split: if_splits option.splits)

text \<open>
  C13: The two observations of one collection fit together the way the evaluator checks them: a supported engine
  configuration that does not override the helpers' environment is found as the parent of the network
  configuration, and every search plan that the network family derived without inheriting a default is the plan
  that the evaluator computes from that parent.\<close>

theorem collected_pair_accepted:
  assumes collect: "engine_collect env files p s = (engine, network, err)"
    and ec: "ob_configuration engine = Some ec" "engine_parsed_state ec = StateSupported" "ob_completeness engine = Complete"
    and e: "c_engine ec = Some e" "\<not> environment_overridden e"
    and c: "ob_configuration network = Some c" "c_network c = Some n"
  shows "network_engine_source network (engine # observations) = Some engine \<and>
    (\<forall>role plan. map_of (n_helper_paths n) role = Some plan \<and> \<not> cl_inherited_default plan \<longrightarrow> network_plan_bound e n role)"
proof -
  obtain nc where nc: "network = network_finish engine s (ep_now p 0) nc"
    "frame (nc_config nc) = frame (network_configuration_start p s)"
    using collect_network [OF collect] by blast
  obtain nw where run: "engine_run env files p s (ep_now p 1) (Some (new_network_collector p s)) = (engine, nw, err)"
    using collect unfolding engine_collect_def by (auto simp: Let_def split: prod.splits)
  have "frame ec = (''engine'', ep_path p, if engine_profile p s = ContainersUnqualified then '''' else ob_id (ep_version p),
      engine_profile p s)" using run_collected [OF run ec(1)] by blast
  moreover have "frame c = (''network'', ep_path p, if engine_profile p s = ContainersUnqualified then '''' else ob_id (ep_version p),
      engine_profile p s)" "ob_scope network = s"
    using c(1) nc(2) unfolding nc(1) network_start_fields network_finish_fields by (auto simp: frame_def)
  moreover have "ob_scope engine = s" using run by (cases rule: engine_run_cases) (simp_all add: observation_simps)
  moreover obtain layers where n: "n = finish_network engine (merged_defaults (network_defaults (engine_profile p s) (ob_id (ep_version p))) layers)"
      "list_all (\<lambda>(source, l). network_layer_ok l) layers"
    using collected_network [OF collect c] by blast
  ultimately have "engine_parent network c (n_engine_source_id n) engine"
    using ec by (simp add: engine_parent_def of_family_def frame_def)
  then have "network_engine_source network (engine # observations) = Some engine"
    using c ec(1) e by (simp add: network_engine_source_def engine_of_def)
  moreover have "network_plan_bound e n role" if "map_of (n_helper_paths n) role = Some plan" "\<not> cl_inherited_default plan" for role plan
    using that supported_plan_engine [OF ec(1,2,3) e] finished_plan_bound merged_defaults_ok [OF network_defaults_ok n(2)]
    unfolding n(1) by blast
  ultimately show ?thesis by blast
qed


section \<open>A concrete collection\<close>

text \<open>One system file on an otherwise empty file system, read by a qualified Podman 4.9.3 for root.\<close>

definition collection_document :: toml_table where
  "collection_document = [(''engine'', TTable [(''runtime'', TString ''crun''), (''helper_binaries_dir'', TArray [TString ''/opt/podman''])]),
     (''network'', TTable [(''network_backend'', TString ''netavark'')])]"

definition collection_document_layer :: engine_layer where
  "collection_document_layer = empty_engine_layer\<lparr>el_runtime := Some ''crun'',
     el_helper_binaries_dir := Some (empty_list\<lparr>ll_values := [''/opt/podman'']\<rparr>)\<rparr>"

definition collection_document_network_layer :: network_layer where
  "collection_document_network_layer = empty_network_layer\<lparr>
     nl_strings := [(networkBackendField, \<lparr>cs_invalid = False, cs_value = ''netavark'', cs_source_id = ''''\<rparr>)]\<rparr>"

lemma collection_document_engine: "parse_engine (\<lambda>_. Inr collection_document) data = Inr collection_document_layer"
  by code_simp

lemma collection_document_network: "parse_network (\<lambda>_. Inr collection_document) data False = Inr collection_document_network_layer"
  by code_simp

definition collection_services :: services where
  "collection_services = \<lparr>ctx_err = (\<lambda>_. None), fs_stat = (\<lambda>_ name. if name = ''etc/containers/containers.conf'' then None else Some ErrNotExist),
     fs_read_file = (\<lambda>_ name. if name = ''etc/containers/containers.conf'' then Inr ''document'' else Inl ErrNotExist),
     fs_readlink = (\<lambda>_ _. None), fs_read_dir = (\<lambda>_ _. Inl ErrNotExist), sha256_hex = (\<lambda>data. data),
     toml = (\<lambda>_. Inr collection_document)\<rparr>"

definition collection_scope :: scope where
  "collection_scope = \<lparr>run_id = ''run'', context_id = ''user'', sc_runtime = ''podman'', sc_endpoint = ''local''\<rparr>"

definition example_probe :: engine_probe where
  "example_probe = \<lparr>ep_target = \<lparr>uid = 0, gid = 0, username = ''root'', home_dir = ''/root'', supplementary_groups = [],
       groups_known = True\<rparr>,
     ep_environment = [], ep_environment_error = None,
     ep_version = (runtime_observation ''podman.version'' collection_scope 1)\<lparr>ob_version := Some \<lparr>v_path = ''/usr/bin/podman'',
       v_runnable = Some True, v_version = Some \<lparr>pv_major = 4, pv_minor = 9, pv_patch = 3, pv_canonical = ''4.9.3'',
         pv_suffix = '''', pv_build = '''', pv_trailing = '''', pv_raw = ''podman version 4.9.3''\<rparr>\<rparr>\<rparr>,
     ep_path = ''/usr/bin/podman'', ep_now = (\<lambda>_. 1)\<rparr>"

lemma example_profile: "engine_profile example_probe collection_scope = Containers493"
  by (simp add: engine_profile_def example_probe_def observation_simps Let_def containers_source_profile_def runtime_observation_def)

lemma example_policy: "target_environment ''/root'' [] = Inr [''HOME=/root'', ''LC_ALL=C'', ''PATH=/usr/bin:/bin'']"
  by code_simp

lemma source_plan_example: "engine_source_plan Containers493 0 h =
  [(''/usr/share/containers/containers.conf'', False), (''/etc/containers/containers.conf'', False), (''/etc/containers/containers.conf.d'', True)]"
  by (simp add: engine_source_plan_def)

lemma example_absent:
  "ec_file_count ec < MaxConfigSources \<Longrightarrow> collect_file collection_services ''/usr/share/containers/containers.conf'' True ec =
   retain ((new_source ''/usr/share/containers/containers.conf'' ''file'' ec)\<lparr>src_selected := False, src_status := ''absent''\<rparr>)
     (tick (ec\<lparr>ec_file_count := ec_file_count ec + 1\<rparr>))"
  by (simp add: collect_file_def Let_def collection_services_def trim_root_def trim_prefix_def has_prefix_def ErrNotExist_def)

definition example_layer_source :: configuration_source where
  "example_layer_source = empty_source\<lparr>src_id := EngineConfigID @ ''.source.1'', src_path := ''/etc/containers/containers.conf'',
     src_kind := ''file'', src_order := 1, src_selected := True, src_sha256 := ''document''\<rparr>"

lemma decimal_one: "decimal_string (Suc 0) = ''1''" by code_simp

lemma example_read:
  assumes "length (c_sources (ec_config ec)) = 1" "ec_file_count ec = 1" "ec_total_bytes ec = 0" "ec_applicable ec"
     "c_profile (ec_config ec) = Containers493"
  shows "\<exists>ec'. collect_file collection_services ''/etc/containers/containers.conf'' True ec =
   retain (example_layer_source\<lparr>src_status := ''parsed'', src_engine := Some (merge_engine no_engine collection_document_layer (EngineConfigID @ ''.source.1'')), src_applied := True\<rparr>)
     ec' \<and> ec_network ec' = map_option (network_file collection_services example_layer_source ''document'') (ec_network ec) \<and>
      ec_config ec' = (ec_config ec)\<lparr>c_engine := map_option (\<lambda>old. merge_engine old collection_document_layer (EngineConfigID @ ''.source.1'')) (c_engine (ec_config ec))\<rparr> \<and>
      ec_complete ec' = ec_complete ec \<and> ec_limit ec' = ec_limit ec"
proof -
  have src: "(new_source ''/etc/containers/containers.conf'' ''file'' ec)\<lparr>src_sha256 := ''document''\<rparr> = example_layer_source"
    using assms by (simp add: new_source_def example_layer_source_def Let_def empty_source_def Containers493_def ContainersUnqualified_def decimal_one)
  have toml: "toml collection_services = (\<lambda>_. Inr collection_document)" by (simp add: collection_services_def)
  have "collect_file collection_services ''/etc/containers/containers.conf'' True ec =
     read_file collection_services (new_source ''/etc/containers/containers.conf'' ''file'' ec) ''/etc/containers/containers.conf'' (tick (ec\<lparr>ec_file_count := 2\<rparr>))"
    using assms by (simp add: collect_file_def Let_def MaxConfigSources_def) (simp add: collection_services_def trim_root_def trim_prefix_def has_prefix_def numeral_2_eq_2)
  moreover have "fs_read_file collection_services t (trim_root ''/etc/containers/containers.conf'') = Inr ''document''" for t
    by (simp add: collection_services_def trim_root_def trim_prefix_def has_prefix_def)
  moreover have "sha256_hex collection_services d = d" for d by (simp add: collection_services_def)
  moreover have "src_id example_layer_source = EngineConfigID @ ''.source.1''" by (simp add: example_layer_source_def)
  ultimately show ?thesis using assms src
    by (simp add: read_file_def Let_def MaxConfigTotalBytes_def parse_file_def toml collection_document_engine)
      (rule exI, rule conjI, rule refl, simp)
qed


definition example_skipped :: configuration_source where
  "example_skipped = empty_source\<lparr>src_id := EngineConfigID @ ''.source.0'', src_path := ''/usr/share/containers/containers.conf'',
     src_kind := ''file'', src_order := 0, src_selected := False, src_status := ''absent''\<rparr>"

definition example_link :: configuration_source where
  "example_link = empty_source\<lparr>src_id := EngineConfigID @ ''.source.2'', src_path := ''/etc/containers/containers.conf.d'',
     src_kind := ''directory'', src_order := 2, src_selected := True, src_status := ''symlink_skipped''\<rparr>"

definition example_applied :: configuration_source where
  "example_applied = example_layer_source\<lparr>src_status := ''parsed'',
     src_engine := Some (merge_engine no_engine collection_document_layer (EngineConfigID @ ''.source.1'')), src_applied := True\<rparr>"

lemma decimal_digits: "decimal_string 0 = ''0''" "decimal_string (Suc (Suc 0)) = ''2''" by code_simp+

lemma example_collected:
  fixes network :: "network_collector option" and h :: string
  assumes c: "c_profile c = Containers493" "c_sources c = []" "c_selection_complete c" "c_parse_complete c" "c_engine c = Some no_engine"
  defines "ec \<equiv> collect_plan collection_services (engine_source_plan Containers493 0 h) (start_collector c network)"
  shows "ec_config ec = c\<lparr>c_engine := Some (merge_engine no_engine collection_document_layer (EngineConfigID @ ''.source.1'')),
      c_sources := [example_skipped, example_applied, example_link]\<rparr>" "ec_complete ec"
    "ec_network ec = map_option (\<lambda>nc. network_retain example_link (network_retain example_applied
      (network_file collection_services example_layer_source ''document'' (network_retain example_skipped nc)))) network"
proof -
  let ?ec0 = "tick (start_collector c network)"
  let ?ec1 = "tick (retain example_skipped (tick (?ec0\<lparr>ec_file_count := 1\<rparr>)))"
  have go: "\<not> ctx_stopped collection_services e" for e by (simp add: ctx_stopped_def collection_services_def)
  have one: "collect_file collection_services ''/usr/share/containers/containers.conf'' True ?ec0 = retain example_skipped (tick (?ec0\<lparr>ec_file_count := 1\<rparr>))"
    by (subst example_absent) (simp_all add: start_collector_def tick_def MaxConfigSources_def c new_source_def example_skipped_def Let_def empty_source_def decimal_digits)
  obtain ec2 where two: "collect_file collection_services ''/etc/containers/containers.conf'' True ?ec1 = retain example_applied ec2"
    "ec_network ec2 = map_option (network_file collection_services example_layer_source ''document'') (ec_network ?ec1)"
    "ec_config ec2 = (ec_config ?ec1)\<lparr>c_engine := map_option (\<lambda>old. merge_engine old collection_document_layer (EngineConfigID @ ''.source.1'')) (c_engine (ec_config ?ec1))\<rparr>"
    "ec_complete ec2 = ec_complete ?ec1" "ec_limit ec2 = ec_limit ?ec1"
    using example_read [of ?ec1] by (auto simp: start_collector_def c example_applied_def)
  have fields: "ec_config ?ec1 = c\<lparr>c_sources := [example_skipped]\<rparr>" "ec_network ?ec1 = map_option (network_retain example_skipped) network"
    "ec_complete ?ec1" "\<not> ec_limit ?ec1"
    by (simp_all add: start_collector_def c retain_def)
  let ?ec2 = "tick (retain example_applied ec2)"
  have three: "collect_directory collection_services ''/etc/containers/containers.conf.d'' ?ec2 = retain example_link (tick ?ec2)"
    using two(3) fields c
    by (simp add: collect_directory_def Let_def collection_services_def new_source_def example_link_def empty_source_def decimal_digits numeral_2_eq_2)
      (simp add: Containers493_def ContainersUnqualified_def)
  have "ec = retain example_link (tick ?ec2)"
    unfolding ec_def source_plan_example
    using go one two fields three c by (simp add: start_collector_def)
  then show "ec_config ec = c\<lparr>c_engine := Some (merge_engine no_engine collection_document_layer (EngineConfigID @ ''.source.1'')),
      c_sources := [example_skipped, example_applied, example_link]\<rparr>" "ec_complete ec"
    "ec_network ec = map_option (\<lambda>nc. network_retain example_link (network_retain example_applied
      (network_file collection_services example_layer_source ''document'' (network_retain example_skipped nc)))) network"
    using two fields c by (simp_all add: retain_def option.map_comp comp_def start_collector_def)
qed

definition example_collect :: "observation \<times> observation \<times> go_error option" where
  "example_collect = engine_collect collection_services True example_probe collection_scope"

lemma example_run_network:
  fixes network :: "network_collector option"
  obtains ec where "engine_run collection_services True example_probe collection_scope at network =
      (engine_observation ec (runtime_observation EngineConfigID collection_scope at), ec_network ec, None)"
    "ec_config ec = (engine_configuration_start example_probe collection_scope)\<lparr>
      c_engine := Some (merge_engine no_engine collection_document_layer (EngineConfigID @ ''.source.1'')),
      c_sources := [example_skipped, example_applied, example_link]\<rparr>" "ec_complete ec"
    "ec_network ec = map_option (\<lambda>nc. network_retain example_link (network_retain example_applied
      (network_file collection_services example_layer_source ''document'' (network_retain example_skipped nc)))) network"
proof -
  let ?c = "engine_configuration_start example_probe collection_scope"
  let ?ec = "collect_sources collection_services example_probe ?c [''HOME=/root'', ''LC_ALL=C'', ''PATH=/usr/bin:/bin''] network"
  have known: "Containers493 \<noteq> ContainersUnqualified" by (simp add: Containers493_def ContainersUnqualified_def)
  have c: "c_profile ?c = Containers493" "c_sources ?c = []" "c_selection_complete ?c" "c_parse_complete ?c" "c_engine ?c = Some no_engine"
    using known by (simp_all add: example_profile) (simp_all add: engine_configuration_start_def initial_configuration_def Let_def example_profile)
  have root: "uid (ep_target example_probe) = 0" "ep_environment_error example_probe = None" "home_dir (ep_target example_probe) = ''/root''"
    "ep_environment example_probe = []" by (simp_all add: example_probe_def)
  have ec: "?ec = collect_plan collection_services (engine_source_plan Containers493 0 (config_home [''HOME=/root'', ''LC_ALL=C'', ''PATH=/usr/bin:/bin'']))
      (start_collector ?c network)"
    by (simp add: collect_sources_def c root example_profile)
  have "engine_run collection_services True example_probe collection_scope at network =
      (engine_observation ?ec (runtime_observation EngineConfigID collection_scope at), ec_network ?ec, None)"
    by (simp add: engine_run_def root example_policy Let_def) (simp add: collection_services_def)
  then show ?thesis using that [of ?ec] example_collected [OF c] unfolding ec by blast
qed

definition example_engine :: engine_configuration where
  "example_engine = merge_engine no_engine collection_document_layer (EngineConfigID @ ''.source.1'')"

lemma example_not_broken: "\<not> source_broken example_skipped" "\<not> source_broken example_link"
  "src_status example_applied = ''parsed''" "src_status example_skipped = ''absent''" "src_status example_link = ''symlink_skipped''"
  by (simp_all add: source_broken_def example_skipped_def example_link_def example_applied_def)

lemma example_engine_manager: "e_cgroup_manager example_engine = None"
  by (simp add: example_engine_def merge_engine_def no_engine_def collection_document_layer_def empty_engine_layer_def merge_string_def)

lemma example_start:
  "c_profile (engine_configuration_start example_probe collection_scope) = Containers493"
  "c_selection_complete (engine_configuration_start example_probe collection_scope)"
  "c_parse_complete (engine_configuration_start example_probe collection_scope)"
  by (simp_all add: example_profile)
    (simp_all add: engine_configuration_start_def initial_configuration_def Let_def example_profile Containers493_def ContainersUnqualified_def)

lemma example_parsed:
  "engine_parsed_state ((engine_configuration_start example_probe collection_scope)\<lparr>c_engine := Some example_engine,
      c_sources := [example_skipped, example_applied, example_link]\<rparr>) = StateSupported"
proof -
  have "Containers493 \<noteq> ''unqualified''" "\<not> source_broken example_applied"
    using example_not_broken by (simp_all add: Containers493_def source_broken_def)
  then show ?thesis using example_start example_not_broken example_engine_manager by (simp add: engine_parsed_state_def)
qed

lemma example_engine_run:
  obtains obs nw c where "engine_run collection_services True example_probe collection_scope 1 network = (obs, nw, None)"
    "ob_configuration obs = Some c" "engine_parsed_state c = StateSupported" "ob_completeness obs = Complete"
    "c_sources c = [example_skipped, example_applied, example_link]" "c_engine c = Some example_engine"
proof -
  obtain ec where ec: "engine_run collection_services True example_probe collection_scope 1 network =
      (engine_observation ec (runtime_observation EngineConfigID collection_scope 1), ec_network ec, None)"
    "ec_config ec = (engine_configuration_start example_probe collection_scope)\<lparr>c_engine := Some example_engine,
      c_sources := [example_skipped, example_applied, example_link]\<rparr>" "ec_complete ec"
    using example_run_network [of 1 network] unfolding example_engine_def by metis
  have "ob_completeness (engine_observation ec (runtime_observation EngineConfigID collection_scope 1)) = Complete"
    using ec(2,3) example_start by (simp add: engine_observation_def Let_def observation_simps Containers493_def ContainersUnqualified_def)
  then show ?thesis using that [OF ec(1)] ec(2) example_parsed by simp
qed

lemma example_fresh:
  "nc_pending (new_network_collector example_probe collection_scope) = None"
  "c_profile (nc_config (new_network_collector example_probe collection_scope)) = Containers493"
  "c_sources (nc_config (new_network_collector example_probe collection_scope)) = []"
  "c_selection_complete (nc_config (new_network_collector example_probe collection_scope))"
  "c_parse_complete (nc_config (new_network_collector example_probe collection_scope))"
  "nc_applicable (new_network_collector example_probe collection_scope)"
  "\<exists>n. c_network (nc_config (new_network_collector example_probe collection_scope)) = Some n"
  by (simp_all add: new_network_collector_def Let_def network_configuration_start_def initial_configuration_def example_profile
      Containers493_def ContainersUnqualified_def)

lemma example_network_final:
  assumes nc: "nc_pending nc = None" "c_profile (nc_config nc) = Containers493" "c_sources (nc_config nc) = []"
    "c_selection_complete (nc_config nc)" "c_parse_complete (nc_config nc)" "nc_applicable nc" "\<exists>n. c_network (nc_config nc) = Some n"
  defines "nc' \<equiv> network_retain example_link (network_retain example_applied
      (network_file collection_services example_layer_source ''document'' (network_retain example_skipped nc)))"
  shows "map src_status (c_sources (nc_config nc')) = [''absent'', ''parsed'', ''symlink_skipped'']"
    "c_selection_complete (nc_config nc')" "c_parse_complete (nc_config nc')" "\<exists>n. c_network (nc_config nc') = Some n"
    "c_profile (nc_config nc') = Containers493"
proof -
  have s: "src_status (network_source x) = src_status x" for x by (simp add: network_source_def)
  have toml: "toml collection_services = (\<lambda>_. Inr collection_document)" by (simp add: collection_services_def)
  let ?n1 = "network_retain example_skipped nc"
  have n1: "nc_pending ?n1 = None" "nc_applicable ?n1" "c_profile (nc_config ?n1) = Containers493"
    "map src_status (c_sources (nc_config ?n1)) = [''absent'']" "c_selection_complete (nc_config ?n1)" "c_parse_complete (nc_config ?n1)"
    "c_network (nc_config ?n1) = c_network (nc_config nc)"
    using nc by (simp_all add: network_retain_def network_append_def network_unread_def s example_not_broken)
  let ?n2 = "network_retain example_applied (network_file collection_services example_layer_source ''document'' ?n1)"
  have n2: "nc_pending ?n2 = None" "nc_applicable ?n2" "c_profile (nc_config ?n2) = Containers493"
    "map src_status (c_sources (nc_config ?n2)) = [''absent'', ''parsed'']" "c_selection_complete (nc_config ?n2)"
    "c_parse_complete (nc_config ?n2)" "\<exists>n. c_network (nc_config ?n2) = Some n"
    using nc n1 by (simp_all add: network_file_def Let_def toml collection_document_network retain_pending network_append_def)
  show "map src_status (c_sources (nc_config nc')) = [''absent'', ''parsed'', ''symlink_skipped'']"
    "c_selection_complete (nc_config nc')" "c_parse_complete (nc_config nc')" "\<exists>n. c_network (nc_config nc') = Some n"
    "c_profile (nc_config nc') = Containers493"
    unfolding nc'_def using n2 by (simp_all add: network_retain_def [of example_link] network_append_def network_unread_def s example_not_broken)
qed

lemma example_collection:
  obtains engine network ec c where "engine_collect collection_services True example_probe collection_scope = (engine, network, None)"
    "ob_configuration engine = Some ec" "engine_parsed_state ec = StateSupported" "ob_completeness engine = Complete"
    "c_engine ec = Some example_engine" "ob_configuration network = Some c" "network_source_state c = StateSupported"
proof -
  let ?nc = "new_network_collector example_probe collection_scope"
  obtain ec where run: "engine_run collection_services True example_probe collection_scope 1 (Some ?nc) =
      (engine_observation ec (runtime_observation EngineConfigID collection_scope 1), ec_network ec, None)"
    "ec_config ec = (engine_configuration_start example_probe collection_scope)\<lparr>
      c_engine := Some (merge_engine no_engine collection_document_layer (EngineConfigID @ ''.source.1'')),
      c_sources := [example_skipped, example_applied, example_link]\<rparr>" "ec_complete ec"
    "ec_network ec = map_option (\<lambda>nc. network_retain example_link (network_retain example_applied
      (network_file collection_services example_layer_source ''document'' (network_retain example_skipped nc)))) (Some ?nc)"
    by (rule example_run_network)
  note ec = run this(2) this(3) this(4) [unfolded option.map]
  let ?engine = "engine_observation ec (runtime_observation EngineConfigID collection_scope 1)"
  let ?network = "network_finish ?engine collection_scope 1 (the (ec_network ec))"
  have complete: "ob_completeness ?engine = Complete"
    using ec(2,3) example_start by (simp add: engine_observation_def Let_def observation_simps Containers493_def ContainersUnqualified_def)
  have now: "ep_now example_probe n = 1" for n by (simp add: example_probe_def)
  have collect: "engine_collect collection_services True example_probe collection_scope = (?engine, ?network, None)"
    using ec(1) now by (simp add: engine_collect_def Let_def)
  obtain c where c: "ob_configuration ?network = Some c" by (simp add: network_finish_fields)
  note final = example_network_final [OF example_fresh]
  have "c_selection_complete c" "c_parse_complete c" "map src_status (c_sources c) = [''absent'', ''parsed'', ''symlink_skipped'']"
    "c_network c \<noteq> None" "c_profile c = Containers493"
    using c final example_start unfolding network_finish_fields ec(4) by (auto simp: ec(2))
  then have "network_source_state c = StateSupported"
    by (auto simp: network_source_state_def source_broken_def Containers493_def map_eq_Cons_conv)
  then show ?thesis using that [OF collect _ _ complete _ c] ec(2) example_parsed by (simp add: example_engine_def)
qed


lemma example_sources: "applied_sources (c\<lparr>c_sources := [example_skipped, example_applied, example_link]\<rparr>) = [example_applied]"
  by (simp add: applied_sources_def example_skipped_def example_applied_def example_link_def empty_source_def)



lemma collection_bounds_witness:
  "\<exists>c. ob_configuration (fst (engine_run collection_services True example_probe collection_scope 1 None)) = Some c \<and>
     length (file_sources c) \<le> 65"
proof -
  obtain obs nw c where run: "engine_run collection_services True example_probe collection_scope 1 None = (obs, nw, None)"
    "ob_configuration obs = Some c" by (rule example_engine_run)
  then show ?thesis using collection_bounds [OF run] by (auto simp: MaxConfigSources_def)
qed

lemma supported_network_complete_witness:
  "\<exists>c layers. ob_configuration (fst (snd (engine_collect collection_services True example_probe collection_scope))) = Some c \<and>
     network_source_state c = StateSupported \<and> list_all2 (network_document collection_services False) (parsed_sources c) layers \<and>
     c_network c = Some (finish_network (fst (engine_collect collection_services True example_probe collection_scope))
       (merged_defaults (network_defaults Containers493 ''podman.version'') layers))"
proof -
  obtain engine network ec c where collect: "engine_collect collection_services True example_probe collection_scope = (engine, network, None)"
    and c: "ob_configuration network = Some c" "network_source_state c = StateSupported" by (rule example_collection)
  have "ob_id (ep_version example_probe) = ''podman.version''" by (simp add: example_probe_def observation_simps)
  then show ?thesis using supported_network_complete [OF collect c] c collect by (auto simp: example_profile)
qed

theorem collected_pair_accepted_witness:
  "\<exists>engine network. engine_collect collection_services True example_probe collection_scope = (engine, network, None) \<and>
     network_engine_source network [engine] = Some engine"
proof -
  obtain engine network ec c where collect: "engine_collect collection_services True example_probe collection_scope = (engine, network, None)"
    and ec: "ob_configuration engine = Some ec" "engine_parsed_state ec = StateSupported" "ob_completeness engine = Complete"
      "c_engine ec = Some example_engine"
    and c: "ob_configuration network = Some c" "network_source_state c = StateSupported" by (rule example_collection)
  obtain n where n: "c_network c = Some n" using source_state_supported(3) [OF c(2)] by blast
  have env: "\<not> environment_overridden example_engine"
    by (simp add: environment_overridden_def example_engine_def merge_engine_def no_engine_def collection_document_layer_def
        empty_engine_layer_def merge_redacted_def)
  show ?thesis using collected_pair_accepted [OF collect ec env c(1) n, of "[]"] collect by blast
qed

end
