(* ===== verification/Go_Text.thy ===== *)
theory Go_Text
  imports Prelude
begin

text \<open>
  Functions of Go's \<open>strings\<close> and \<open>utf8\<close> packages on strings of bytes. White space is that of
  \<open>unicode.IsSpace\<close>, in its UTF-8 encodings; a lead byte never continues another character, so an encoding
  can be looked for at any position.
\<close>

section \<open>Splitting and validity\<close>

text \<open>\<open>strings.SplitN\<close> for a one-character separator.\<close>

fun split_n :: "char \<Rightarrow> nat \<Rightarrow> string \<Rightarrow> string list" where
  "split_n c 0 s = []"
| "split_n c (Suc 0) s = [s]"
| "split_n c (Suc (Suc n)) s = (case cut_at c s of None \<Rightarrow> [s] | Some (a, b) \<Rightarrow> a # split_n c (Suc n) b)"

definition newline :: char where "newline = CHR 0x0A"

definition text_lines :: "string \<Rightarrow> string list" where "text_lines data = split_on newline data"

text \<open>\<open>utf8.ValidString\<close>, by the table of well-formed byte sequences.\<close>

definition byte_in :: "nat \<Rightarrow> nat \<Rightarrow> char \<Rightarrow> bool" where
  "byte_in lo hi c \<longleftrightarrow> lo \<le> of_char c \<and> of_char c \<le> hi"

fun valid_utf8 :: "string \<Rightarrow> bool" where
  "valid_utf8 [] = True"
| "valid_utf8 (c # s) =
     (if byte_in 0 127 c then valid_utf8 s
      else case s of
        [] \<Rightarrow> False
      | d # s1 \<Rightarrow>
          if byte_in 194 223 c then byte_in 128 191 d \<and> valid_utf8 s1
          else case s1 of
            [] \<Rightarrow> False
          | e # s2 \<Rightarrow>
              if byte_in 224 239 c
              then byte_in (if of_char c = (224::nat) then 160 else 128) (if of_char c = (237::nat) then 159 else 191) d \<and>
                byte_in 128 191 e \<and> valid_utf8 s2
              else case s2 of
                [] \<Rightarrow> False
              | f # s3 \<Rightarrow> byte_in 240 244 c \<and>
                  byte_in (if of_char c = (240::nat) then 144 else 128) (if of_char c = (244::nat) then 143 else 191) d \<and>
                  byte_in 128 191 e \<and> byte_in 128 191 f \<and> valid_utf8 s3)"

section \<open>White space\<close>

text \<open>The number of bytes of a white space character at the start of a string, or 0.\<close>

definition bytes_of :: "string \<Rightarrow> nat list" where "bytes_of s = map of_char s"

definition wide_space :: "nat list \<Rightarrow> bool" where
  "wide_space b \<longleftrightarrow> b \<in> {[225, 154, 128], [226, 128, 168], [226, 128, 169], [226, 128, 175], [226, 129, 159], [227, 128, 128]} \<or>
     (length b = 3 \<and> b ! 0 = 226 \<and> b ! 1 = 128 \<and> 128 \<le> b ! 2 \<and> b ! 2 \<le> 138)"

definition is_space :: "char \<Rightarrow> bool" where
  "is_space c \<longleftrightarrow> of_char c = (32 :: nat) \<or> ((9 :: nat) \<le> of_char c \<and> of_char c \<le> (13 :: nat))"

definition space_prefix :: "string \<Rightarrow> nat" where
  "space_prefix s =
     (if s \<noteq> [] \<and> is_space (hd s) then 1
      else if bytes_of (take 2 s) \<in> {[194, 133], [194, 160]} then 2
      else if wide_space (bytes_of (take 3 s)) then 3 else 0)"

definition space_suffix :: "string \<Rightarrow> nat" where
  "space_suffix s =
     (if s \<noteq> [] \<and> is_space (last s) then 1
      else if bytes_of (drop (length s - 2) s) \<in> {[194, 133], [194, 160]} then 2
      else if wide_space (bytes_of (drop (length s - 3) s)) then 3 else 0)"

function trim_left_space :: "string \<Rightarrow> string" where
  "trim_left_space s = (if s = [] \<or> space_prefix s = 0 then s else trim_left_space (drop (space_prefix s) s))"
  by pat_completeness auto
termination by (relation "measure length") auto

function trim_right_space :: "string \<Rightarrow> string" where
  "trim_right_space s = (if s = [] \<or> space_suffix s = 0 then s else trim_right_space (take (length s - space_suffix s) s))"
  by pat_completeness auto
termination by (relation "measure length") auto

declare trim_left_space.simps [simp del] trim_right_space.simps [simp del]

definition trim_space :: "string \<Rightarrow> string" where "trim_space s = trim_right_space (trim_left_space s)"

text \<open>\<open>strings.Fields\<close>; \<open>word\<close> is the field being read, reversed.\<close>

function text_fields_from :: "string \<Rightarrow> string \<Rightarrow> string list" where
  "text_fields_from w s =
     (if s = [] then (if w = [] then [] else [rev w])
      else if space_prefix s = 0 then text_fields_from (hd s # w) (tl s)
      else (if w = [] then [] else [rev w]) @ text_fields_from [] (drop (space_prefix s) s))"
  by pat_completeness auto
termination by (relation "measure (length \<circ> snd)") (auto simp: neq_Nil_conv)

declare text_fields_from.simps [simp del]

definition text_fields :: "string \<Rightarrow> string list" where "text_fields s = text_fields_from [] s"

end
