(* ===== verification/Host_Accounts.thy ===== *)
theory Host_Accounts
  imports Model_Observation Config_Values Go_Text Podman_Paths
begin

text \<open>
  Local account files: selecting a target from \<open>passwd\<close> and \<open>group\<close> (\<open>host/target.go\<close>, \<open>identity.go\<close>) and
  the subordinate ID pools of \<open>subuid\<close> and \<open>subgid\<close> (\<open>host/subids.go\<close>). Documents are strings of bytes.
\<close>

section \<open>Text of a host file\<close>

definition valid_host_text :: "string \<Rightarrow> bool" where
  "valid_host_text v \<longleftrightarrow> length v \<le> 4096 \<and> valid_utf8 v \<and> \<not> contains_control v"

section \<open>Account files (host/target.go)\<close>

definition account_name :: "string \<Rightarrow> bool" where
  "account_name s \<longleftrightarrow> 0 < length s \<and> length s \<le> 256 \<and>
     list_all (\<lambda>c. is_lower c \<or> is_upper c \<or> is_digit c \<or> c \<in> set ''_.-'') s"

definition account_id :: "string \<Rightarrow> go_error + 32 word" where
  "account_id raw =
     (if list_ex (\<lambda>c. \<not> is_digit c) raw then Inl (Err ''invalid account ID'')
      else case parse_uint 32 raw of
        None \<Rightarrow> Inl (Err ''invalid account ID'')
      | Some n \<Rightarrow> if n = unat max_uint32 then Inl (Err ''invalid account ID'') else Inr (word_of_nat n))"

definition canonical_uid :: "string \<Rightarrow> string" where
  "canonical_uid value = (let v = dropWhile (\<lambda>c. c = CHR ''0'') value in if v = '''' then ''0'' else v)"

definition valid_account_input :: "string \<Rightarrow> go_error option" where
  "valid_account_input data =
     (if length data > 8388608 then Some (Err ''account input exceeds byte budget'')
      else if length (text_lines data) > 65536 \<or> list_ex (\<lambda>line. length line > 65536 \<or> CHR 0x00 \<in> set line) (text_lines data)
      then Some (Err ''account input exceeds record budget or contains NUL'') else None)"

definition skipped_line :: "string \<Rightarrow> bool" where
  "skipped_line line \<longleftrightarrow> line = '''' \<or> has_prefix line ''#''"

text \<open>One record of \<open>passwd\<close>: its fields, or why it is refused.\<close>

definition account_record :: "string \<Rightarrow> go_error + (string \<times> 32 word \<times> 32 word \<times> string)" where
  "account_record line =
     (let fields = split_n CHR '':'' 8 line
      in if length fields \<noteq> 7 then Inl (Err ''malformed local account file'')
         else case (account_id (fields ! 2), account_id (fields ! 3)) of
           (Inr u, Inr g) \<Rightarrow>
             if account_name (fields ! 0) then Inr (fields ! 0, u, g, fields ! 5) else Inl (Err ''invalid account record'')
         | _ \<Rightarrow> Inl (Err ''invalid account record''))"

definition selects :: "string \<Rightarrow> string \<Rightarrow> string \<Rightarrow> 32 word \<Rightarrow> bool" where
  "selects kind value name u \<longleftrightarrow>
     kind = ''user'' \<and> name = value \<or> kind = ''uid'' \<and> decimal_string (unat u) = canonical_uid value"

definition account_user :: "string \<times> 32 word \<times> 32 word \<times> string \<Rightarrow> user_identity" where
  "account_user = (\<lambda>(name, u, g, home). \<lparr>uid = u, gid = g, username = name,
     home_dir = (if has_prefix home ''/'' \<and> valid_host_text home then home else ''''), supplementary_groups = [], groups_known = False\<rparr>)"

text \<open>The loop over \<open>passwd\<close> with its two \<open>seen\<close> maps.\<close>

fun find_account :: "string \<Rightarrow> string \<Rightarrow> string list \<Rightarrow> 32 word list \<Rightarrow> string list \<Rightarrow> user_identity option \<Rightarrow>
    go_error + user_identity option" where
  "find_account kind value [] uids names result = Inr result"
| "find_account kind value (line # lines) uids names result =
     (if skipped_line line then find_account kind value lines uids names result
      else case account_record line of
        Inl err \<Rightarrow> Inl err
      | Inr (name, u, g, home) \<Rightarrow>
          if u \<in> set uids \<or> name \<in> set names then Inl (Err ''ambiguous local account identity'')
          else find_account kind value lines (u # uids) (name # names)
            (if selects kind value name u then Some (account_user (name, u, g, home)) else result))"

text \<open>The loop over \<open>group\<close>; the set of seen groups is a list without duplicates, sorted at the end.\<close>

fun collect_groups :: "string \<Rightarrow> string list \<Rightarrow> 32 word list \<Rightarrow> go_error + 32 word list" where
  "collect_groups name [] seen = Inr seen"
| "collect_groups name (line # lines) seen =
     (if skipped_line line then collect_groups name lines seen
      else let f = split_n CHR '':'' 5 line
        in if length f \<noteq> 4 then Inl (Err ''malformed local group file'')
           else case account_id (f ! 2) of
             Inl err \<Rightarrow> Inl err
           | Inr g \<Rightarrow>
               let seen' = (if name \<in> set (split_on CHR '','' (f ! 3)) then List.insert g seen else seen)
               in if length seen' > MaxIdentityGroups then Inl (Err ''too many target groups'')
                  else collect_groups name lines seen')"

definition local_groups :: "user_identity \<Rightarrow> string \<Rightarrow> go_error + 32 word list" where
  "local_groups user data =
     (case collect_groups (username user) (text_lines data) [gid user] of
        Inl err \<Rightarrow> Inl err
      | Inr seen \<Rightarrow> Inr (sort seen))"

text \<open>The second component is the error that is returned beside the identity.\<close>

definition resolve_target :: "string \<Rightarrow> string \<Rightarrow> string \<Rightarrow> go_error + (user_identity \<times> go_error option)" where
  "resolve_target selector passwd groups =
     (case target_selector_is_valid selector of
        Some err \<Rightarrow> Inl err
      | None \<Rightarrow>
          let (kind, value) = (case cut_at CHR '':'' selector of None \<Rightarrow> (selector, '''') | Some kv \<Rightarrow> kv)
          in if kind = '''' then Inl (Err ''target resolution requires an explicit selector'')
             else case valid_account_input passwd of
               Some err \<Rightarrow> Inl err
             | None \<Rightarrow> (case valid_account_input groups of
                 Some err \<Rightarrow> Inl err
               | None \<Rightarrow> (case find_account kind value (text_lines passwd) [] [] None of
                   Inl err \<Rightarrow> Inl err
                 | Inr None \<Rightarrow> Inl (Err ''target account unavailable'')
                 | Inr (Some user) \<Rightarrow> (case local_groups user groups of
                     Inl err \<Rightarrow> Inl err
                   | Inr selected \<Rightarrow>
                       let user' = user\<lparr>supplementary_groups := selected, groups_known := True\<rparr>
                       in Inr (user', user_identity_is_valid user')))))"

section \<open>The account of the current user (host/identity.go)\<close>

text \<open>The loop of \<open>accountMetadata\<close>; a second match or an odd name gives up.\<close>

fun account_metadata_loop :: "string list \<Rightarrow> 32 word \<Rightarrow> string \<Rightarrow> string \<Rightarrow> string \<times> string" where
  "account_metadata_loop [] u name home = (name, home)"
| "account_metadata_loop (line # lines) u name home =
     (let fields = split_on CHR '':'' line
      in if length fields \<noteq> 7 then account_metadata_loop lines u name home
         else case parse_uint 32 (fields ! 2) of
           None \<Rightarrow> account_metadata_loop lines u name home
         | Some n \<Rightarrow>
             if word_of_nat n \<noteq> u then account_metadata_loop lines u name home
             else if name \<noteq> '''' \<or> \<not> account_name (fields ! 0) then ('''', '''')
             else account_metadata_loop lines u (fields ! 0)
               (if has_prefix (fields ! 5) ''/'' then fields ! 5 else home))"

definition account_metadata :: "string \<Rightarrow> 32 word \<Rightarrow> string \<times> string" where
  "account_metadata data u = account_metadata_loop (text_lines data) u '''' ''''"

end
