(* ===== verification/Platform_Records.thy ===== *)
theory Platform_Records
  imports Go_Text Platform_Errors
begin

text \<open>
  Parsing bounded text records and the kernel's own formats: \<open>platform/parsing.go\<close>, \<open>procfs.go\<close>,
  \<open>host\_procfs.go\<close> and the controller list of \<open>sysfs.go\<close>. The state of the context is asked for by a function
  of the record number; its answers are arbitrary.
\<close>

section \<open>Limits and diagnostics\<close>

record parser_limits =
  lim_input :: nat
  lim_line :: nat
  lim_mount_line :: nat
  lim_records :: nat
  lim_diagnostics :: nat

definition default_parser_limits :: parser_limits where
  "default_parser_limits = \<lparr>lim_input = 8388608, lim_line = 65536, lim_mount_line = 1048576, lim_records = 8192,
     lim_diagnostics = 32\<rparr>"

record parse_problems =
  pp_diagnostics :: "(nat \<times> go_error) list"
  pp_omitted :: nat
  pp_malformed :: bool
  pp_limited :: bool

definition no_problems :: parse_problems where
  "no_problems = \<lparr>pp_diagnostics = [], pp_omitted = 0, pp_malformed = False, pp_limited = False\<rparr>"

definition add_problem :: "nat \<Rightarrow> go_error \<Rightarrow> nat \<Rightarrow> parse_problems \<Rightarrow> parse_problems" where
  "add_problem line err limit p =
     (let p' = p\<lparr>pp_malformed := pp_malformed p \<or> errors_is err ErrMalformed, pp_limited := pp_limited p \<or> errors_is err ErrLimitExceeded\<rparr>
      in if length (pp_diagnostics p) < limit then p'\<lparr>pp_diagnostics := pp_diagnostics p @ [(line, err)]\<rparr>
         else p'\<lparr>pp_omitted := pp_omitted p + 1\<rparr>)"

text \<open>The error value: \<open>Is\<close> answers from the flags, \<open>Unwrap\<close> gives the retained causes.\<close>

definition problems_error :: "string \<Rightarrow> parse_problems \<Rightarrow> go_error option" where
  "problems_error source p =
     (if pp_diagnostics p = [] then None
      else Some (Wrapf ''ParseError'' (ErrIncomplete # (if pp_malformed p then [ErrMalformed] else []) @
        (if pp_limited p then [ErrLimitExceeded] else []) @ map snd (pp_diagnostics p)) [source]))"

definition incomplete :: "go_error option \<Rightarrow> go_error option" where
  "incomplete err = (case err of None \<Rightarrow> None | Some e \<Rightarrow> errors_join [Some ErrIncomplete, Some e])"

section \<open>Records\<close>

definition upto_last_newline :: "string \<Rightarrow> string" where
  "upto_last_newline data = rev (dropWhile (\<lambda>c. c \<noteq> newline) (rev data))"

definition record_lines :: "string \<Rightarrow> string list" where
  "record_lines data = (let lines = text_lines data in if last lines = '''' then butlast lines else lines)"

definition is_blank :: "char \<Rightarrow> bool" where "is_blank c \<longleftrightarrow> c = CHR '' '' \<or> c = CHR 0x09"

record 'a parsed =
  pr_out :: "'a list"
  pr_problems :: parse_problems
  pr_read_error :: "go_error option"

fun record_loop :: "(nat \<Rightarrow> go_error option) \<Rightarrow> parser_limits \<Rightarrow> (string \<Rightarrow> go_error + 'a) \<Rightarrow> nat \<Rightarrow> string list \<Rightarrow> 'a parsed \<Rightarrow> 'a parsed" where
  "record_loop cx limits parse n [] s = s"
| "record_loop cx limits parse n (line # lines) s =
     (case cx n of
        Some err \<Rightarrow> s\<lparr>pr_read_error := errors_join [pr_read_error s, Some err]\<rparr>
      | None \<Rightarrow>
          let problem = (\<lambda>err. s\<lparr>pr_problems := add_problem (Suc n) err (lim_diagnostics limits) (pr_problems s)\<rparr>)
          in if length line > lim_line limits then record_loop cx limits parse (Suc n) lines (problem (limit_error ''line bytes''))
             else if trim_space line = '''' then record_loop cx limits parse (Suc n) lines s
             else case parse (dropWhile is_blank line) of
               Inl err \<Rightarrow> record_loop cx limits parse (Suc n) lines (problem err)
             | Inr entry \<Rightarrow>
                 if length (pr_out s) = lim_records limits then problem (limit_error ''records'')
                 else record_loop cx limits parse (Suc n) lines (s\<lparr>pr_out := pr_out s @ [entry]\<rparr>))"

definition bounded_input :: "nat \<Rightarrow> string \<Rightarrow> go_error option \<Rightarrow> string \<times> go_error option" where
  "bounded_input limit data read_error =
     (if length data > limit then (take limit data, errors_join [read_error, Some (limit_error ''parser input bytes'')])
      else (data, read_error))"

definition parse_records :: "(nat \<Rightarrow> go_error option) \<Rightarrow> string \<Rightarrow> go_error option \<Rightarrow> string \<Rightarrow> parser_limits \<Rightarrow>
    (string \<Rightarrow> go_error + 'a) \<Rightarrow> 'a list \<times> go_error option" where
  "parse_records cx data read_error source limits parse =
     (let (data', read_error') = bounded_input (lim_input limits) data read_error;
          lines = record_lines (if read_error' \<noteq> None then upto_last_newline data' else data');
          s = record_loop cx limits parse 0 lines \<lparr>pr_out = [], pr_problems = no_problems, pr_read_error = read_error'\<rparr>
      in (pr_out s, errors_join [problems_error source (pr_problems s), incomplete (pr_read_error s), incomplete (cx (length lines))]))"

definition decimal_text :: "string \<Rightarrow> bool" where
  "decimal_text s \<longleftrightarrow> s \<noteq> '''' \<and> list_all is_digit s"

definition simple_identifier :: "string \<Rightarrow> bool" where
  "simple_identifier s \<longleftrightarrow> (case s of [] \<Rightarrow> False | c # _ \<Rightarrow> is_lower c \<and> list_all (\<lambda>d. is_lower d \<or> is_digit d \<or> d = CHR ''_'') s)"

section \<open>Lines of procfs\<close>

record mount_entry =
  mt_id :: string
  mt_parent :: string
  mt_major_minor :: string
  mt_root :: string
  mt_point :: string
  mt_options :: string
  mt_optional :: "string list"
  mt_fs_type :: string
  mt_source :: string
  mt_super :: string

record cgroup_entry =
  ce_hierarchy :: string
  ce_controllers :: string
  ce_path :: string

definition is_unified :: "cgroup_entry \<Rightarrow> bool" where
  "is_unified e \<longleftrightarrow> ce_hierarchy e = ''0'' \<and> ce_controllers e = ''''"

definition parse_filesystem_line :: "string \<Rightarrow> go_error + string \<times> bool" where
  "parse_filesystem_line line =
     (if CHR 0x00 \<in> set line then Inl ErrMalformed
      else case text_fields line of
        [name] \<Rightarrow> Inr (name, False)
      | [flag, name] \<Rightarrow> if flag = ''nodev'' then Inr (name, True) else Inl ErrMalformed
      | _ \<Rightarrow> Inl ErrMalformed)"

definition word_char :: "char \<Rightarrow> bool" where "word_char c \<longleftrightarrow> is_lower c \<or> is_upper c \<or> is_digit c"

definition valid_cgroup_controller :: "string \<Rightarrow> bool" where
  "valid_cgroup_controller controller \<longleftrightarrow>
     (if has_prefix controller ''name='' then
        trim_prefix controller ''name='' \<noteq> '''' \<and> list_all (\<lambda>c. word_char c \<or> c \<in> set ''_.-'') (trim_prefix controller ''name='')
      else simple_identifier controller)"

definition parse_cgroup_line :: "string \<Rightarrow> go_error + cgroup_entry" where
  "parse_cgroup_line line =
     (case split_n CHR '':'' 3 line of
        [h, cs, p] \<Rightarrow>
          if \<not> decimal_text h \<or> \<not> has_prefix p ''/'' \<or> CHR 0x00 \<in> set line \<or>
             (cs \<noteq> '''' \<and> list_ex (\<lambda>c. \<not> valid_cgroup_controller c) (split_on CHR '','' cs))
          then Inl ErrMalformed else Inr \<lparr>ce_hierarchy = h, ce_controllers = cs, ce_path = p\<rparr>
      | _ \<Rightarrow> Inl ErrMalformed)"

definition parse_mount_line :: "string \<Rightarrow> go_error + mount_entry" where
  "parse_mount_line line =
     (let f = text_fields line
      in if length f < 10 \<or> \<not> decimal_text (f ! 0) \<or> \<not> decimal_text (f ! 1) then Inl ErrMalformed
         else case cut_at CHR '':'' (f ! 2) of
           None \<Rightarrow> Inl ErrMalformed
         | Some (major, minor) \<Rightarrow>
             if \<not> decimal_text major \<or> \<not> decimal_text minor \<or> \<not> has_prefix (f ! 3) ''/'' \<or> \<not> has_prefix (f ! 4) ''/'' then Inl ErrMalformed
             else case index_of ''-'' (drop 6 f) of
               None \<Rightarrow> Inl ErrMalformed
             | Some i \<Rightarrow>
                 if length f - (6 + i) - 1 \<noteq> 3 \<or> CHR 0x00 \<in> set line then Inl ErrMalformed
                 else Inr \<lparr>mt_id = f ! 0, mt_parent = f ! 1, mt_major_minor = f ! 2, mt_root = f ! 3, mt_point = f ! 4,
                   mt_options = f ! 5, mt_optional = take i (drop 6 f), mt_fs_type = f ! (6 + i + 1), mt_source = f ! (6 + i + 2),
                   mt_super = f ! (6 + i + 3)\<rparr>)"

definition parse_protocol_line :: "string \<Rightarrow> go_error + string" where
  "parse_protocol_line line =
     (let f = text_fields line
      in if length f < 8 then Inl ErrMalformed
         else if hd f = ''protocol'' then
           (if join_with '' '' (take 8 f) \<noteq> ''protocol size sockets memory press maxhdr slab module'' then Inl ErrMalformed
            else Inr ''protocol'')
         else if list_ex (\<lambda>c. \<not> word_char c \<and> c \<noteq> CHR ''_'' \<and> c \<noteq> CHR ''-'') (hd f) then Inl ErrMalformed
         else if \<not> decimal_text (f ! 1) \<or> \<not> decimal_text (f ! 2) then Inl ErrMalformed
         else Inr (hd f))"

text \<open>The header line is required once, entries may be incomplete without it.\<close>

definition protocol_entries :: "string list \<times> go_error option \<Rightarrow> string list \<times> go_error option" where
  "protocol_entries = (\<lambda>(entries, err). (filter (\<lambda>e. e \<noteq> ''protocol'') entries,
     if ''protocol'' \<in> set entries then err else errors_join [err, Some ErrIncomplete]))"

section \<open>Escapes of mountinfo\<close>

definition mount_escapes :: "(string \<times> char) list" where
  "mount_escapes = [(''040'', CHR '' ''), (''011'', CHR 0x09), (''012'', CHR 0x0A), (''134'', CHR 0x5C)]"

fun decode_mount_path :: "string \<Rightarrow> go_error + string" where
  "decode_mount_path [] = Inr []"
| "decode_mount_path (c # s) =
     (if c \<noteq> CHR 0x5C then (case decode_mount_path s of Inl err \<Rightarrow> Inl err | Inr t \<Rightarrow> Inr (c # t))
      else case s of
        a # b # d # rest \<Rightarrow> (case map_of mount_escapes [a, b, d] of
            None \<Rightarrow> Inl ErrMalformed
          | Some x \<Rightarrow> (case decode_mount_path rest of Inl err \<Rightarrow> Inl err | Inr t \<Rightarrow> Inr (x # t)))
      | _ \<Rightarrow> Inl ErrMalformed)"

section \<open>Controller lists (sysfs.go)\<close>

definition upto_last_space :: "string \<Rightarrow> string" where
  "upto_last_space data = rev (dropWhile (\<lambda>c. \<not> is_space c) (rev data))"

fun controller_loop :: "(nat \<Rightarrow> go_error option) \<Rightarrow> nat \<Rightarrow> string list \<Rightarrow> string parsed \<Rightarrow> string parsed" where
  "controller_loop cx n [] s = s"
| "controller_loop cx n (field # rest) s =
     (case cx n of
        Some err \<Rightarrow> s\<lparr>pr_read_error := errors_join [pr_read_error s, Some err]\<rparr>
      | None \<Rightarrow>
          let problem = (\<lambda>err. s\<lparr>pr_problems := add_problem (Suc n) err 32 (pr_problems s)\<rparr>)
          in if length field > 65536 then controller_loop cx (Suc n) rest (problem (limit_error ''controller bytes''))
             else if \<not> simple_identifier field then controller_loop cx (Suc n) rest (problem ErrMalformed)
             else if field \<in> set (pr_out s) then controller_loop cx (Suc n) rest s
             else if length (pr_out s) = 8192 then problem (limit_error ''records'')
             else controller_loop cx (Suc n) rest (s\<lparr>pr_out := pr_out s @ [field]\<rparr>))"

definition parse_controllers :: "(nat \<Rightarrow> go_error option) \<Rightarrow> string \<Rightarrow> go_error option \<Rightarrow> string list \<times> go_error option" where
  "parse_controllers cx data read_error =
     (let (data', read_error') = bounded_input 8388608 data read_error;
          tokens = text_fields (if read_error' \<noteq> None then upto_last_space data' else data');
          s = controller_loop cx 0 tokens \<lparr>pr_out = [], pr_problems = no_problems, pr_read_error = read_error'\<rparr>
      in (pr_out s, errors_join [problems_error ''fs/cgroup/cgroup.controllers'' (pr_problems s), incomplete (pr_read_error s),
           incomplete (cx (length tokens))]))"

end
