(* ===== verification/Host_Observation.thy ===== *)
theory Host_Observation
  imports Host_Accounts Podman_Observation Platform_Records
begin

text \<open>
  What all host probes share (\<open>host/baseline.go\<close>): the services they ask, the observation they start from, how a
  source is recorded and how a failure marks it, the lines of a text file and the values of \<open>os-release\<close>.
\<close>

section \<open>The services of the platform\<close>

text \<open>
  The answers come from the kernel, the file system and the commands that are run, so they are arbitrary functions.
  Where a probe may ask the same question again, the number of facts recorded so far tells the calls apart.
  \<open>hs_ctx\<close> is the state of the context at the place with that name and number.
\<close>

record file_stat =
  fst_dir :: bool
  fst_regular :: bool
  fst_socket :: bool
  fst_perm :: "32 word"
  fst_setuid :: bool
  fst_setgid :: bool
  fst_sticky :: bool
  fst_owner :: "(32 word \<times> 32 word) option"

record filesystem_info =
  fi_type :: int
  fi_nosuid :: bool
  fi_noexec :: bool
  fi_flags_known :: bool

record uname_info =
  un_release :: string
  un_version :: string
  un_machine :: string

record capability_attribute =
  ca_present :: bool
  ca_bytes :: "8 word list"

text \<open>\<open>exited\<close> is the exit code of an \<open>exec.ExitError\<close> of a process that exited.\<close>

record exec_result =
  er_exit :: int
  er_stdout :: string
  er_stdout_truncated :: bool
  er_stderr_truncated :: bool
  er_timed_out :: bool
  er_output_incomplete :: bool
  er_error :: "go_error option"
  er_exited :: "int option"

record host_services =
  hs_scope :: scope
  hs_now :: instant
  hs_ctx :: "string \<Rightarrow> nat \<Rightarrow> go_error option"
  hs_read :: "nat \<Rightarrow> string \<Rightarrow> string \<times> go_error option"
  hs_readlink :: "string \<Rightarrow> go_error + string"
  hs_stat :: "nat \<Rightarrow> string \<Rightarrow> go_error + file_stat"
  hs_statfs :: "nat \<Rightarrow> string \<Rightarrow> go_error + filesystem_info"
  hs_access :: "string \<Rightarrow> go_error + bool"
  hs_capabilities :: "string \<Rightarrow> go_error + capability_attribute"
  hs_uname :: "(uname_info \<times> go_error option) option"
  hs_no_new_privileges :: "(nat \<Rightarrow> go_error + bool) option"
  hs_systemd_version :: "string \<Rightarrow> exec_result"
  hs_user_manager :: "string \<Rightarrow> string \<Rightarrow> exec_result"

definition error_of :: "go_error + 'a \<Rightarrow> go_error option" where
  "error_of r = (case r of Inl e \<Rightarrow> Some e | Inr _ \<Rightarrow> None)"

definition is_error :: "go_error option \<Rightarrow> go_error \<Rightarrow> bool" where
  "is_error err target = (case err of None \<Rightarrow> False | Some e \<Rightarrow> errors_is e target)"

section \<open>Observations\<close>

definition maxHostDiagnostics :: nat where "maxHostDiagnostics = 32"

definition empty_host :: host_observation where
  "empty_host = \<lparr>ho_filesystems = None, ho_network = None, ho_resolver = None, ho_cgroups = None, ho_namespaces = None,
     ho_security = None, ho_os = None, ho_kernel = None, ho_systemd = None\<rparr>"

definition new_host_observation :: "string \<Rightarrow> host_services \<Rightarrow> observation" where
  "new_host_observation i env = blank_observation\<lparr>ob_id := i, ob_probe_id := i, ob_timestamp := hs_now env,
     ob_summary := ''Passive current-context host measurement'', ob_scope := hs_scope env, ob_completeness := Complete,
     ob_host := Some empty_host\<rparr>"

definition host_warning :: "string \<Rightarrow> observation \<Rightarrow> observation" where
  "host_warning c obs =
     (if length (ob_diagnostics obs) < maxHostDiagnostics
      then obs\<lparr>ob_diagnostics := ob_diagnostics obs @ [\<lparr>code = c, msg = Text ''host measurement diagnostic'', reference = ob_id obs\<rparr>]\<rparr>
      else obs)"

definition error_code :: "go_error \<Rightarrow> string" where
  "error_code e =
     (if errors_is e Canceled \<or> errors_is e DeadlineExceeded then ''host_cancelled''
      else if errors_is e ErrPermission then ''host_permission_denied''
      else if errors_is e ErrNotExist then ''host_source_missing''
      else if errors_is e ErrLimitExceeded then ''host_limit_exceeded''
      else if errors_is e ErrMalformed then ''host_malformed''
      else if errors_is e ErrIncomplete then ''host_incomplete''
      else ''host_read_failed'')"

definition last_partial :: "fact list \<Rightarrow> fact list" where
  "last_partial fs = (if fs = [] then [] else butlast fs @ [(last fs)\<lparr>f_completeness := Partial\<rparr>])"

definition finish_source :: "go_error option \<Rightarrow> observation \<Rightarrow> observation" where
  "finish_source err obs =
     (case err of
        None \<Rightarrow> obs
      | Some e \<Rightarrow> host_warning (error_code e) (obs\<lparr>ob_completeness := Partial, ob_facts := last_partial (ob_facts obs)\<rparr>))"

definition fact_number :: "string \<Rightarrow> nat \<Rightarrow> string" where
  "fact_number i n = i @ ''.'' @ decimal_string n"

definition record_source :: "string \<Rightarrow> go_error option \<Rightarrow> observation \<Rightarrow> observation" where
  "record_source source err obs =
     finish_source err (obs\<lparr>ob_facts := ob_facts obs @ [blank_fact\<lparr>f_id := fact_number (ob_id obs) (length (ob_facts obs)),
       f_source := source, f_scope := ob_scope obs, f_timestamp := ob_timestamp obs,
       f_completeness := (if err = None then Complete else Partial)\<rparr>]\<rparr>)"

definition facts_so_far :: "observation \<Rightarrow> nat" where "facts_so_far obs = length (ob_facts obs)"

section \<open>Text files\<close>

definition limit_lines :: "nat \<Rightarrow> string list \<Rightarrow> go_error option \<Rightarrow> string list \<times> go_error option" where
  "limit_lines n lines err =
     (if length lines > n then (take n lines, errors_join [err, Some ErrLimitExceeded]) else (lines, err))"

definition host_lines :: "string \<Rightarrow> go_error option \<Rightarrow> string list \<times> go_error option" where
  "host_lines data read_error =
     (let limits = default_parser_limits;
          (data', e1) = (if length data > lim_input limits
            then (take (lim_input limits) data, errors_join [read_error, Some ErrLimitExceeded]) else (data, read_error));
          (lines, e2) = limit_lines (lim_records limits) (text_lines (if e1 \<noteq> None then upto_last_newline data' else data')) e1
      in (map (\<lambda>l. if length l > lim_line limits then '''' else l) lines,
          foldl (\<lambda>e l. if length l > lim_line limits then errors_join [e, Some ErrLimitExceeded] else e) e2 lines))"

definition valid_key :: "string \<Rightarrow> bool" where
  "valid_key key \<longleftrightarrow> key \<noteq> '''' \<and> list_all (\<lambda>c. c = CHR ''_'' \<or> is_upper c \<or> is_digit c) key"

definition ends_cleanly :: "string \<Rightarrow> bool" where
  "ends_cleanly tail \<longleftrightarrow> trim_space tail = '''' \<or> has_prefix (trim_space tail) ''#''"

text \<open>The loop over the bytes of a value; \<open>None\<close> is the early return. The flag tells whether the value is closed.\<close>

fun assignment_loop :: "char option \<Rightarrow> string \<Rightarrow> string \<Rightarrow> (string \<times> bool) option" where
  "assignment_loop quote acc [] = Some (acc, quote = None)"
| "assignment_loop quote acc (c # s) =
     (if quote = Some c then Some (acc, ends_cleanly s)
      else if quote = None \<and> (c = CHR '' '' \<or> c = CHR 0x09) then Some (acc, ends_cleanly (c # s))
      else if c = CHR 0x5C \<and> quote \<noteq> Some CHR 0x27
      then (case s of [] \<Rightarrow> None | d # s' \<Rightarrow> assignment_loop quote (acc @ [d]) s')
      else if quote \<noteq> Some CHR 0x27 \<and> (c = CHR ''$'' \<or> c = CHR 0x60) then None
      else if quote = None \<and> (c = CHR 0x27 \<or> c = CHR 0x22 \<or> c = CHR '';'') then None
      else assignment_loop quote (acc @ [c]) s)"

definition assignment_value :: "string \<Rightarrow> string \<times> bool" where
  "assignment_value raw =
     (case trim_space raw of
        [] \<Rightarrow> ('''', True)
      | c # s \<Rightarrow>
          (case (if c = CHR 0x27 \<or> c = CHR 0x22 then assignment_loop (Some c) [] s else assignment_loop None [] (c # s)) of
             None \<Rightarrow> ('''', False)
           | Some (v, closed) \<Rightarrow> (v, closed \<and> valid_host_text v)))"

definition os_id_text :: "string \<Rightarrow> bool" where
  "os_id_text s \<longleftrightarrow> s \<noteq> '''' \<and> list_all (\<lambda>c. is_lower c \<or> is_digit c \<or> c \<in> set ''._-'') s"

end
