(* ===== verification/Host_Measurement.thy ===== *)
theory Host_Measurement
  imports Host_Observation Evidence_Graph
begin

text \<open>
  What a host probe can do to its observation, as a step relation: record a source, mark its failure, warn, set a payload.
  The invariants of the relation hold for every probe; the locale \<open>host\_probe\<close> is the interface that a probe meets.
\<close>

section \<open>Steps\<close>

text \<open>The payloads that no host probe fills.\<close>

definition foreign_payloads :: "observation \<Rightarrow> bool" where
  "foreign_payloads obs \<longleftrightarrow> ob_podman obs \<noteq> None \<or> ob_configuration obs \<noteq> None \<or> ob_executable obs \<noteq> None \<or>
     ob_version obs \<noteq> None \<or> ob_discovery obs \<noteq> None \<or> ob_quadlet obs \<noteq> None \<or> ob_storage_paths obs \<noteq> None \<or>
     ob_podman_helper obs \<noteq> None \<or> ob_identity obs \<noteq> None"

text \<open>The fields an observation shares with one whose payloads differ.\<close>

definition same_measurement :: "observation \<Rightarrow> observation \<Rightarrow> bool" where
  "same_measurement a b \<longleftrightarrow> ob_id a = ob_id b \<and> ob_probe_id a = ob_probe_id b \<and> ob_timestamp a = ob_timestamp b \<and>
     ob_scope a = ob_scope b \<and> ob_completeness a = ob_completeness b \<and> ob_facts a = ob_facts b \<and>
     ob_diagnostics a = ob_diagnostics b \<and> foreign_payloads a = foreign_payloads b"

inductive measured :: "observation \<Rightarrow> observation \<Rightarrow> bool" where
  start: "measured a a"
| sourced: "measured a b \<Longrightarrow> s \<noteq> '''' \<Longrightarrow> measured a (record_source s e b)"
| finished: "measured a b \<Longrightarrow> measured a (finish_source e b)"
| warned: "measured a b \<Longrightarrow> measured a (host_warning c b)"
| degraded: "measured a b \<Longrightarrow> measured a (b\<lparr>ob_completeness := Partial\<rparr>)"
| noted: "measured a b \<Longrightarrow> length (ob_diagnostics b) < maxHostDiagnostics \<Longrightarrow>
    measured a (b\<lparr>ob_diagnostics := ob_diagnostics b @ [d]\<rparr>)"
| payload: "measured a b \<Longrightarrow> same_measurement b c \<Longrightarrow> measured a c"

lemma measured_trans: "measured a b \<Longrightarrow> measured b c \<Longrightarrow> measured a c"
  by (rotate_tac, induction rule: measured.induct) (auto intro: measured.intros)

lemmas measured_steps = measured.sourced measured.finished measured.warned measured.degraded

text \<open>Payload updates.\<close>

lemma same_payload [simp]:
  "same_measurement b (b\<lparr>ob_host := h\<rparr>)" "same_measurement b (b\<lparr>ob_subids := i\<rparr>)" "same_measurement b (b\<lparr>ob_user_context := u\<rparr>)"
  by (simp_all add: same_measurement_def foreign_payloads_def)

lemma measured_payload [intro]:
  "measured a b \<Longrightarrow> measured a (b\<lparr>ob_host := h\<rparr>)" "measured a b \<Longrightarrow> measured a (b\<lparr>ob_subids := i\<rparr>)"
  "measured a b \<Longrightarrow> measured a (b\<lparr>ob_user_context := u\<rparr>)"
  by (auto intro: measured.payload)

section \<open>Invariants\<close>

definition numbered :: "observation \<Rightarrow> bool" where
  "numbered obs \<longleftrightarrow> map f_id (ob_facts obs) = map (fact_number (ob_id obs)) [0..<length (ob_facts obs)]"

definition fact_measured :: "observation \<Rightarrow> fact \<Rightarrow> bool" where
  "fact_measured obs f \<longleftrightarrow> f_source f \<noteq> '''' \<and> f_scope f = ob_scope obs \<and> f_timestamp f = ob_timestamp obs \<and>
     (f_completeness f = Complete \<or> f_completeness f = Partial \<and> ob_completeness obs = Partial)"

definition wf_measurement :: "observation \<Rightarrow> bool" where
  "wf_measurement obs \<longleftrightarrow> numbered obs \<and> (\<forall>f\<in>set (ob_facts obs). fact_measured obs f) \<and>
     (ob_completeness obs = Complete \<or> ob_completeness obs = Partial) \<and> length (ob_diagnostics obs) \<le> maxHostDiagnostics"

text \<open>What a step keeps: the identity of the observation.\<close>

definition same_origin :: "observation \<Rightarrow> observation \<Rightarrow> bool" where
  "same_origin a b \<longleftrightarrow> ob_id a = ob_id b \<and> ob_probe_id a = ob_probe_id b \<and> ob_timestamp a = ob_timestamp b \<and> ob_scope a = ob_scope b \<and>
     foreign_payloads a = foreign_payloads b"

lemma foreign_kept [simp]:
  "foreign_payloads (host_warning c obs) = foreign_payloads obs" "foreign_payloads (finish_source e obs) = foreign_payloads obs"
  "foreign_payloads (record_source s e obs) = foreign_payloads obs"
  "foreign_payloads (obs\<lparr>ob_completeness := k\<rparr>) = foreign_payloads obs" "foreign_payloads (obs\<lparr>ob_diagnostics := ds\<rparr>) = foreign_payloads obs"
  by (simp_all add: foreign_payloads_def host_warning_def finish_source_def record_source_def split: option.split)

lemma host_warning_fields [simp]:
  "ob_id (host_warning c obs) = ob_id obs" "ob_probe_id (host_warning c obs) = ob_probe_id obs"
  "ob_timestamp (host_warning c obs) = ob_timestamp obs" "ob_scope (host_warning c obs) = ob_scope obs"
  "ob_completeness (host_warning c obs) = ob_completeness obs" "ob_facts (host_warning c obs) = ob_facts obs"
  "ob_host (host_warning c obs) = ob_host obs" "ob_subids (host_warning c obs) = ob_subids obs"
  by (simp_all add: host_warning_def)

lemma host_warning_bound: "length (ob_diagnostics obs) \<le> maxHostDiagnostics \<Longrightarrow> length (ob_diagnostics (host_warning c obs)) \<le> maxHostDiagnostics"
  by (simp add: host_warning_def)

lemma finish_source_fields [simp]:
  "ob_id (finish_source e obs) = ob_id obs" "ob_probe_id (finish_source e obs) = ob_probe_id obs"
  "ob_timestamp (finish_source e obs) = ob_timestamp obs" "ob_scope (finish_source e obs) = ob_scope obs"
  "ob_host (finish_source e obs) = ob_host obs" "ob_subids (finish_source e obs) = ob_subids obs"
  "ob_completeness (finish_source e obs) = (if e = None then ob_completeness obs else Partial)"
  "ob_facts (finish_source e obs) = (if e = None then ob_facts obs else last_partial (ob_facts obs))"
  by (simp_all add: finish_source_def split: option.splits)

lemma record_source_fields [simp]:
  "ob_id (record_source s e obs) = ob_id obs" "ob_probe_id (record_source s e obs) = ob_probe_id obs"
  "ob_timestamp (record_source s e obs) = ob_timestamp obs" "ob_scope (record_source s e obs) = ob_scope obs"
  "ob_host (record_source s e obs) = ob_host obs" "ob_subids (record_source s e obs) = ob_subids obs"
  "ob_completeness (record_source s e obs) = (if e = None then ob_completeness obs else Partial)"
  by (simp_all add: record_source_def)

lemma record_source_facts [simp]:
  "ob_facts (record_source s e obs) = ob_facts obs @ [blank_fact\<lparr>f_id := fact_number (ob_id obs) (length (ob_facts obs)),
     f_source := s, f_scope := ob_scope obs, f_timestamp := ob_timestamp obs,
     f_completeness := (if e = None then Complete else Partial)\<rparr>]"
  by (simp add: record_source_def last_partial_def)

lemma last_partial_ids: "map f_id (last_partial fs) = map f_id fs" "length (last_partial fs) = length fs"
  by (cases fs rule: rev_cases; simp add: last_partial_def)+

lemma last_partial_facts:
  "f \<in> set (last_partial fs) \<Longrightarrow> \<exists>g\<in>set fs. f = g \<or> f = g\<lparr>f_completeness := Partial\<rparr>"
  by (cases fs rule: rev_cases) (auto simp: last_partial_def)

lemma measured_same_origin: "measured a b \<Longrightarrow> same_origin a b"
  by (induction rule: measured.induct) (auto simp: same_origin_def same_measurement_def)

lemma measured_facts_grow: "measured a b \<Longrightarrow> length (ob_facts a) \<le> length (ob_facts b)"
  by (induction rule: measured.induct) (auto simp: same_measurement_def last_partial_ids)

lemma wf_finished: "wf_measurement b \<Longrightarrow> wf_measurement (finish_source e b)"
proof (cases e)
  case (Some err)
  assume b: "wf_measurement b"
  have "fact_measured (finish_source e b) f" if f: "f \<in> set (ob_facts (finish_source e b))" for f
  proof -
    have "f \<in> set (last_partial (ob_facts b))" using f Some by simp
    then obtain g where "g \<in> set (ob_facts b)" "f = g \<or> f = g\<lparr>f_completeness := Partial\<rparr>" using last_partial_facts by blast
    then show ?thesis using b Some by (auto simp: wf_measurement_def fact_measured_def)
  qed
  moreover have "length (ob_diagnostics (finish_source e b)) \<le> maxHostDiagnostics"
    using b Some by (simp add: finish_source_def wf_measurement_def host_warning_bound)
  ultimately show ?thesis using b Some by (simp add: wf_measurement_def numbered_def last_partial_ids)
qed (simp add: finish_source_def)

lemma wf_degraded: "wf_measurement b \<Longrightarrow> wf_measurement (b\<lparr>ob_completeness := Partial\<rparr>)"
  by (auto simp: wf_measurement_def numbered_def fact_measured_def)

lemma finish_degraded: "finish_source (Some e) b = finish_source (Some e) (b\<lparr>ob_completeness := Partial\<rparr>)"
  by (simp add: finish_source_def)

lemma wf_sourced: "wf_measurement b \<Longrightarrow> s \<noteq> '''' \<Longrightarrow> wf_measurement (record_source s e b)"
proof (cases e)
  case None
  assume "wf_measurement b" "s \<noteq> ''''"
  then show ?thesis using None
    by (simp add: record_source_def finish_source_def wf_measurement_def numbered_def fact_measured_def blank_fact_def)
next
  case (Some err)
  assume "wf_measurement b" "s \<noteq> ''''"
  then have "wf_measurement (b\<lparr>ob_completeness := Partial, ob_facts := ob_facts b @ [blank_fact\<lparr>f_id := fact_number (ob_id b)
      (length (ob_facts b)), f_source := s, f_scope := ob_scope b, f_timestamp := ob_timestamp b, f_completeness := Partial\<rparr>]\<rparr>)"
    using wf_degraded [of b] by (simp add: wf_measurement_def numbered_def fact_measured_def blank_fact_def)
  from wf_finished [OF this, of e] show ?thesis using Some by (simp add: record_source_def finish_source_def)
qed

text \<open>All steps keep the measurement well-formed.\<close>

lemma same_measurement_wf: "same_measurement b c \<Longrightarrow> wf_measurement b \<Longrightarrow> wf_measurement c"
  unfolding wf_measurement_def numbered_def fact_measured_def same_measurement_def by (elim conjE) (simp only: simp_thms)

lemma wf_warned: "wf_measurement b \<Longrightarrow> wf_measurement (host_warning c b)"
  unfolding wf_measurement_def numbered_def fact_measured_def host_warning_fields using host_warning_bound by blast

lemma wf_noted:
  "wf_measurement b \<Longrightarrow> length (ob_diagnostics b) < maxHostDiagnostics \<Longrightarrow> wf_measurement (b\<lparr>ob_diagnostics := ob_diagnostics b @ [d]\<rparr>)"
  unfolding wf_measurement_def numbered_def fact_measured_def by simp

lemma measured_wf: "measured a b \<Longrightarrow> wf_measurement a \<Longrightarrow> wf_measurement b"
proof (induction rule: measured.induct)
  case (payload a b c)
  then show ?case using same_measurement_wf by blast
next
  case (noted a b d)
  then show ?case using wf_noted by blast
qed (simp_all add: wf_finished wf_sourced wf_degraded wf_warned)

lemma wf_new: "wf_measurement (new_host_observation i env)"
  by (simp add: new_host_observation_def blank_observation_def wf_measurement_def numbered_def)

lemma new_fields [simp]:
  "ob_id (new_host_observation i env) = i" "ob_probe_id (new_host_observation i env) = i"
  "ob_timestamp (new_host_observation i env) = hs_now env" "ob_scope (new_host_observation i env) = hs_scope env"
  "ob_facts (new_host_observation i env) = []" "ob_completeness (new_host_observation i env) = Complete"
  "ob_diagnostics (new_host_observation i env) = []" "ob_host (new_host_observation i env) = Some empty_host"
  by (simp_all add: new_host_observation_def blank_observation_def)

section \<open>What the evidence graph asks of an observation\<close>

lemma decimal_string_inj: "decimal_string m = decimal_string n \<Longrightarrow> m = n"
  using decimal_value_string by metis

lemma decimal_string_digits: "c \<in> set (decimal_string n) \<Longrightarrow> is_digit c"
proof (induction n rule: decimal_string.induct)
  case (1 n)
  have "(48::nat) \<le> of_char (char_of (48 + n mod 10) :: char) \<and> of_char (char_of (48 + n mod 10) :: char) \<le> (57::nat)" by simp
  with 1 show ?case by (subst (asm) (2) decimal_string.simps) (auto simp: is_digit_def less_eq_char_def split: if_splits)
qed

lemma fact_number_inj:
  assumes "fact_number i m = fact_number j n"
  shows "i = j \<and> m = n"
proof -
  have dot: "CHR ''.'' \<notin> set (decimal_string k)" for k using decimal_string_digits [of "CHR ''.''" k] by (auto simp: is_digit_def)
  have "rev (decimal_string m) @ CHR ''.'' # rev i = rev (decimal_string n) @ CHR ''.'' # rev j"
    using arg_cong [OF assms, of rev] by (simp add: fact_number_def)
  then have "rev (decimal_string m) = rev (decimal_string n) \<and> rev i = rev j"
    using dot cut_at_Some [of "CHR ''.''" "rev (decimal_string m) @ CHR ''.'' # rev i"] by (metis set_rev option.inject prod.inject)
  then show ?thesis using decimal_string_inj by auto
qed

lemma wf_fact_ids: "wf_measurement obs \<Longrightarrow> distinct (map f_id (ob_facts obs))"
  unfolding wf_measurement_def numbered_def using fact_number_inj by (auto simp: distinct_map inj_on_def)

lemma wf_fact_name: "wf_measurement obs \<Longrightarrow> f \<in> set (ob_facts obs) \<Longrightarrow> \<exists>n. f_id f = fact_number (ob_id obs) n"
  unfolding wf_measurement_def numbered_def
  by (metis (no_types, lifting) imageE in_set_conv_nth length_map nth_map)

lemma wf_observation_ok:
  assumes "wf_measurement obs" "ob_id obs \<noteq> ''''" "ob_probe_id obs \<noteq> ''''" "ob_facts obs \<noteq> []" "ob_timestamp obs \<noteq> 0"
    and "scope_is_valid (ob_scope obs) = None" "context_id (ob_scope obs) \<in> contexts"
  shows "observation_ok contexts obs"
proof -
  have "f_id f \<noteq> ''''" if "f \<in> set (ob_facts obs)" for f
  proof -
    have "f_id f \<in> fact_number (ob_id obs) ` {0..<length (ob_facts obs)}"
      using that assms(1) unfolding wf_measurement_def numbered_def by (metis imageI list.set_map set_upt)
    then show ?thesis by (auto simp: fact_number_def)
  qed
  then show ?thesis using assms
    by (auto simp: observation_ok_def fact_ok_def wf_measurement_def fact_measured_def )
qed

section \<open>The interface of a host probe\<close>

locale host_probe =
  fixes name :: string
    and run :: "host_services \<Rightarrow> observation \<times> go_error option"
  assumes named: "name \<noteq> ''''"
    and steps: "measured (new_host_observation name env) (fst (run env))"
    and sources: "ob_facts (fst (run env)) \<noteq> []"
begin

lemma well_formed: "wf_measurement (fst (run env))"
  using measured_wf [OF steps wf_new] .

lemma origin: "ob_id (fst (run env)) = name" "ob_probe_id (fst (run env)) = name"
    "ob_timestamp (fst (run env)) = hs_now env" "ob_scope (fst (run env)) = hs_scope env"
  using measured_same_origin [OF steps [of env]] by (auto simp: same_origin_def)

lemma no_foreign_payloads: "\<not> foreign_payloads (fst (run env))"
  using measured_same_origin [OF steps [of env]]
  by (simp add: same_origin_def foreign_payloads_def new_host_observation_def blank_observation_def)

lemma diagnostics_bounded: "length (ob_diagnostics (fst (run env))) \<le> maxHostDiagnostics"
  using well_formed by (simp add: wf_measurement_def)

lemma accepted:
  "hs_now env \<noteq> 0 \<Longrightarrow> scope_is_valid (hs_scope env) = None \<Longrightarrow> context_id (hs_scope env) \<in> contexts \<Longrightarrow>
   observation_ok contexts (fst (run env))"
  using named by (intro wf_observation_ok well_formed sources) (simp_all add: origin)

lemma fact_names: "f \<in> set (ob_facts (fst (run env))) \<Longrightarrow> \<exists>n. f_id f = fact_number name n"
  using wf_fact_name [OF well_formed] by (simp add: origin)

end

end
