(* ===== verification/Host_Baseline.thy ===== *)
theory Host_Baseline
  imports Host_Measurement
begin

text \<open>
  The probes of \<open>host/baseline.go\<close>: the operating system, the kernel and systemd.
\<close>

section \<open>Operating system\<close>

definition empty_os :: os_observation where
  "empty_os = \<lparr>os_id = '''', os_version_id = '''', os_name = '''', os_pretty_name = '''', os_variant = '''', os_id_like = []\<rparr>"

record os_scan =
  oc_obs :: observation
  oc_os :: os_observation
  oc_seen :: "string list"
  oc_err :: "go_error option"

definition os_assign :: "string \<Rightarrow> string \<Rightarrow> os_scan \<Rightarrow> os_scan" where
  "os_assign key v s =
     (let os = oc_os s
      in if key = ''ID'' then (if os_id_text v then s\<lparr>oc_os := os\<lparr>os_id := v\<rparr>\<rparr> else s\<lparr>oc_err := Some ErrMalformed\<rparr>)
         else if key = ''VERSION_ID'' then s\<lparr>oc_os := os\<lparr>os_version_id := v\<rparr>\<rparr>
         else if key = ''NAME'' then s\<lparr>oc_os := os\<lparr>os_name := v\<rparr>\<rparr>
         else if key = ''PRETTY_NAME'' then s\<lparr>oc_os := os\<lparr>os_pretty_name := v\<rparr>\<rparr>
         else if key = ''VARIANT'' then s\<lparr>oc_os := os\<lparr>os_variant := v\<rparr>\<rparr>
         else if key = ''ID_LIKE'' then s\<lparr>oc_os := os\<lparr>os_id_like := text_fields v\<rparr>\<rparr>
         else s)"

definition os_line :: "string \<Rightarrow> os_scan \<Rightarrow> os_scan" where
  "os_line line s =
     (case cut_at CHR ''='' line of
        None \<Rightarrow> s\<lparr>oc_err := Some ErrMalformed\<rparr>
      | Some (key, raw) \<Rightarrow>
          (case assignment_value raw of (v, valid) \<Rightarrow>
             if \<not> valid \<or> \<not> valid_key key then s\<lparr>oc_err := Some ErrMalformed\<rparr>
             else os_assign key v (s\<lparr>oc_obs := (if key \<in> set (oc_seen s) then host_warning ''duplicate_os_key'' (oc_obs s) else oc_obs s),
               oc_seen := key # oc_seen s\<rparr>)))"

fun os_loop :: "host_services \<Rightarrow> nat \<Rightarrow> string list \<Rightarrow> os_scan \<Rightarrow> os_scan" where
  "os_loop env n [] s = s"
| "os_loop env n (line # lines) s =
     (case hs_ctx env ''os'' n of
        Some err \<Rightarrow> s\<lparr>oc_err := errors_join [oc_err s, Some err]\<rparr>
      | None \<Rightarrow>
          let text = trim_space line
          in os_loop env (Suc n) lines (if text = '''' \<or> has_prefix text ''#'' then s else os_line text s))"

definition os_source :: "host_services \<Rightarrow> string \<times> string \<times> go_error option" where
  "os_source env =
     (case hs_read env 0 ''etc/os-release'' of (data, err) \<Rightarrow>
        if is_error err ErrNotExist then (''usr/lib/os-release'', hs_read env 0 ''usr/lib/os-release'')
        else (''etc/os-release'', data, err))"

definition os_probe :: "host_services \<Rightarrow> observation \<times> go_error option" where
  "os_probe env =
     (let (source, data, err) = os_source env;
          (lines, parse_err) = host_lines data err;
          s = os_loop env 0 lines \<lparr>oc_obs = record_source source err (new_host_observation ''host.os'' env), oc_os = empty_os,
            oc_seen = [], oc_err = parse_err\<rparr>;
          err' = (if os_id (oc_os s) = '''' then errors_join [oc_err s, Some ErrIncomplete] else oc_err s);
          obs = finish_source err' (oc_obs s)
      in (obs\<lparr>ob_host := Some (empty_host\<lparr>ho_os := Some (oc_os s)\<rparr>)\<rparr>, errors_join [err, err', hs_ctx env ''end'' 0]))"

section \<open>Kernel\<close>

text \<open>The regular expressions: digits, and a tail of one line that does not go on with a digit.\<close>

definition one_line_tail :: "(char \<Rightarrow> bool) \<Rightarrow> string \<Rightarrow> bool" where
  "one_line_tail first s \<longleftrightarrow> (case s of [] \<Rightarrow> True | c # rest \<Rightarrow> first c \<and> newline \<notin> set rest)"

definition kernel_fields :: "string \<Rightarrow> (string \<times> string \<times> string) option" where
  "kernel_fields release =
     (let a = takeWhile is_digit release
      in case dropWhile is_digit release of [] \<Rightarrow> None | d1 # r1 \<Rightarrow>
           let b = takeWhile is_digit r1
           in case dropWhile is_digit r1 of [] \<Rightarrow> None | d2 # r2 \<Rightarrow>
                let c = takeWhile is_digit r2
                in if a \<noteq> '''' \<and> d1 = CHR ''.'' \<and> b \<noteq> '''' \<and> d2 = CHR ''.'' \<and> c \<noteq> '''' \<and>
                      one_line_tail (\<lambda>x. \<not> is_digit x) (dropWhile is_digit r2)
                   then Some (a, b, c) else None)"

definition parse_kernel_version :: "string \<Rightarrow> kernel_version option" where
  "parse_kernel_version release =
     (case kernel_fields release of
        None \<Rightarrow> None
      | Some (a, b, c) \<Rightarrow>
          (case (parse_uint 32 a, parse_uint 32 b, parse_uint 32 c) of
             (Some x, Some y, Some z) \<Rightarrow> Some \<lparr>k_major = word_of_nat x, k_minor = word_of_nat y, k_patch = word_of_nat z\<rparr>
           | _ \<Rightarrow> None))"

definition go_architecture :: "string \<Rightarrow> string" where
  "go_architecture machine = (if machine = ''x86_64'' then ''amd64'' else if machine = ''aarch64'' then ''arm64'' else machine)"

definition empty_uname :: uname_info where "empty_uname = \<lparr>un_release = '''', un_version = '''', un_machine = ''''\<rparr>"

definition kernel_query :: "host_services \<Rightarrow> uname_info \<times> go_error option" where
  "kernel_query env =
     (case hs_ctx env ''kernel'' 0 of
        Some err \<Rightarrow> (empty_uname, Some err)
      | None \<Rightarrow> (case hs_uname env of None \<Rightarrow> (empty_uname, Some ErrIncomplete) | Some answer \<Rightarrow> answer))"

definition kernel_probe :: "host_services \<Rightarrow> observation \<times> go_error option" where
  "kernel_probe env =
     (let (answer, err0) = kernel_query env;
          sound = valid_host_text (un_release answer) \<and> valid_host_text (un_version answer) \<and> valid_host_text (un_machine answer);
          info = (if sound then answer else empty_uname);
          err = (if sound then err0 else errors_join [err0, Some ErrMalformed]);
          kernel = \<lparr>ko_release = un_release info, ko_version = un_version info, ko_machine = un_machine info,
            ko_architecture = go_architecture (un_machine info), ko_parts = parse_kernel_version (un_release info)\<rparr>;
          obs1 = record_source ''syscall.uname'' err (new_host_observation ''host.kernel'' env);
          obs2 = (if un_release info = '''' \<or> un_machine info = '''' then finish_source (Some ErrIncomplete) obs1 else obs1);
          obs3 = (if ko_parts kernel = None then host_warning ''kernel_version_unparsed'' obs2 else obs2)
      in (obs3\<lparr>ob_host := Some (empty_host\<lparr>ho_kernel := Some kernel\<rparr>)\<rparr>, err))"

section \<open>Systemd\<close>

definition empty_systemd :: systemd_observation where
  "empty_systemd = \<lparr>sd_installed = None, sd_utility_installed = None, sd_running = None, sd_runtime_directory = None,
     sd_accessible = None, sd_version = '''', sd_utility_path = ''''\<rparr>"

definition systemd_fields :: "string \<Rightarrow> string option" where
  "systemd_fields line =
     (let r = trim_prefix line ''systemd ''
      in if has_prefix line ''systemd '' \<and> takeWhile is_digit r \<noteq> '''' \<and>
            one_line_tail (\<lambda>c. c \<in> set '' .(-'') (dropWhile is_digit r)
         then Some (takeWhile is_digit r) else None)"

type_synonym systemd_state = "systemd_observation \<times> observation"

definition systemd_running :: "host_services \<Rightarrow> systemd_state \<Rightarrow> systemd_state" where
  "systemd_running env = (\<lambda>(state, obs).
     let (comm, err) = hs_read env 0 ''proc/1/comm'';
         obs1 = record_source ''proc/1/comm'' err obs
     in if err = None \<and> valid_host_text (trim_space comm) \<and> trim_space comm \<noteq> ''''
        then (state\<lparr>sd_running := Some (trim_space comm = ''systemd'')\<rparr>, obs1)
        else (state, finish_source (Some ErrIncomplete) obs1))"

definition systemd_directory :: "host_services \<Rightarrow> systemd_state \<Rightarrow> systemd_state" where
  "systemd_directory env = (\<lambda>(state, obs).
     let r = hs_stat env 0 ''run/systemd/system'';
         obs1 = record_source ''run/systemd/system'' (missing_is_known (error_of r)) obs
     in case r of
          Inr info \<Rightarrow> (state\<lparr>sd_runtime_directory := Some (fst_dir info)\<rparr>, obs1)
        | Inl e \<Rightarrow> (if errors_is e ErrNotExist then state\<lparr>sd_runtime_directory := Some False\<rparr> else state, obs1))"

fun systemd_installed :: "host_services \<Rightarrow> string list \<Rightarrow> systemd_state \<Rightarrow> systemd_state" where
  "systemd_installed env [] s = s"
| "systemd_installed env (candidate # rest) (state, obs) =
     (let r = hs_stat env 0 candidate;
          obs1 = record_source candidate (missing_is_known (error_of r)) obs
      in case r of
           Inr info \<Rightarrow>
             if fst_regular info then (state\<lparr>sd_installed := Some True\<rparr>, obs1)
             else systemd_installed env rest (state\<lparr>sd_installed := Some False\<rparr>, obs1)
         | Inl e \<Rightarrow>
             if errors_is e ErrNotExist then systemd_installed env rest (state\<lparr>sd_installed := Some False\<rparr>, obs1)
             else (state\<lparr>sd_installed := None\<rparr>, obs1))"

definition first_line :: "string \<Rightarrow> string" where
  "first_line s = (case cut_at newline s of None \<Rightarrow> s | Some (a, b) \<Rightarrow> a)"

definition systemd_version :: "host_services \<Rightarrow> string \<Rightarrow> systemd_state \<Rightarrow> systemd_state" where
  "systemd_version env path = (\<lambda>(state, obs).
     let result = hs_systemd_version env path;
         run_err = (if er_exit result \<noteq> 0 \<or> er_stdout_truncated result \<or> er_stderr_truncated result
           then errors_join [er_error result, Some ErrIncomplete] else er_error result);
         obs1 = record_source ''command.systemctl_version'' run_err obs
     in case (run_err, systemd_fields (first_line (er_stdout result))) of
          (None, Some v) \<Rightarrow> (state\<lparr>sd_version := v\<rparr>, obs1)
        | _ \<Rightarrow> (state, finish_source (Some ErrMalformed) obs1))"

fun systemd_utility :: "host_services \<Rightarrow> string list \<Rightarrow> systemd_state \<Rightarrow> systemd_state" where
  "systemd_utility env [] s = s"
| "systemd_utility env (candidate # rest) (state, obs) =
     (let r = hs_stat env 0 candidate;
          obs1 = record_source candidate (missing_is_known (error_of r)) obs
      in case r of
           Inl e \<Rightarrow>
             if errors_is e ErrNotExist then systemd_utility env rest (state\<lparr>sd_utility_installed := Some False\<rparr>, obs1)
             else (state\<lparr>sd_utility_installed := None\<rparr>, obs1)
         | Inr info \<Rightarrow>
             if fst_regular info
             then systemd_version env (CHR ''/'' # candidate)
               (state\<lparr>sd_utility_installed := Some True, sd_utility_path := CHR ''/'' # candidate\<rparr>, obs1)
             else systemd_utility env rest (state\<lparr>sd_utility_installed := Some False\<rparr>, obs1))"

definition systemd_probe :: "host_services \<Rightarrow> observation \<times> go_error option" where
  "systemd_probe env =
     (let (state, obs) = systemd_installed env [''usr/lib/systemd/systemd'', ''lib/systemd/systemd'']
            (systemd_directory env (systemd_running env (empty_systemd, new_host_observation ''host.systemd'' env)));
          state' = (if sd_running state = Some True then state\<lparr>sd_installed := Some True\<rparr> else state);
          (state'', obs') = systemd_utility env [''usr/bin/systemctl'', ''bin/systemctl''] (state', obs)
      in (obs'\<lparr>ob_host := Some (empty_host\<lparr>ho_systemd := Some state''\<rparr>)\<rparr>, hs_ctx env ''end'' 0))"

end
