(* ===== verification/Host_Cgroups.thy ===== *)
theory Host_Cgroups
  imports Host_Measurement
begin

text \<open>
  The cgroup probe (\<open>host/cgroups.go\<close>): the hierarchy mode from the mount table and the file systems it names, the
  memberships of the process, and the controllers that are usable at its own cgroup.
\<close>

definition cgroup_magic :: "string \<Rightarrow> int" where
  "cgroup_magic fs_name = (if fs_name = ''cgroup2'' then 0x63677270 else 0x27e0eb)"

definition relative_host_path :: "string \<Rightarrow> string" where
  "relative_host_path p = (if p = ''/'' then ''.'' else trim_prefix p ''/'')"

definition split_nonempty :: "string \<Rightarrow> char \<Rightarrow> string list" where
  "split_nonempty s c = (if s = '''' then [] else split_on c s)"

definition safe_mount_path :: "string \<Rightarrow> go_error + string" where
  "safe_mount_path raw =
     (case decode_mount_path raw of
        Inl e \<Rightarrow> Inl ErrMalformed
      | Inr decoded \<Rightarrow>
          if \<not> has_prefix decoded ''/'' \<or> \<not> valid_host_text decoded \<or> validate_subpath (relative_host_path decoded) \<noteq> None
          then Inl ErrMalformed else Inr decoded)"

section \<open>The tables of the process\<close>

text \<open>\<open>Mounts\<close> and \<open>Cgroups\<close> of a procfs reader below \<open>proc/\<close>.\<close>

definition read_mounts :: "host_services \<Rightarrow> mount_entry list \<times> go_error option" where
  "read_mounts env =
     (let (data, err) = hs_read env 0 ''proc/self/mountinfo''; limits = default_parser_limits
      in parse_records (hs_ctx env ''mountinfo'') data err ''mountinfo'' (limits\<lparr>lim_line := lim_mount_line limits\<rparr>) parse_mount_line)"

definition read_cgroups :: "host_services \<Rightarrow> cgroup_entry list \<times> go_error option" where
  "read_cgroups env =
     (let (data, err) = hs_read env 1 ''proc/self/cgroup''
      in parse_records (hs_ctx env ''cgroup'') data err ''cgroup'' default_parser_limits parse_cgroup_line)"

fun memberships_loop :: "cgroup_entry list \<Rightarrow> cgroup_membership list \<Rightarrow> observation \<Rightarrow> cgroup_membership list \<times> observation" where
  "memberships_loop [] ms obs = (ms, obs)"
| "memberships_loop (g # gs) ms obs =
     (if \<not> valid_host_text (ce_path g) then memberships_loop gs ms (finish_source (Some ErrMalformed) obs)
      else memberships_loop gs (ms @ [\<lparr>cm_hierarchy = ce_hierarchy g, cm_controllers = split_nonempty (ce_controllers g) CHR '','',
        cm_path = ce_path g\<rparr>]) obs)"

section \<open>Controllers of the current cgroup\<close>

definition controller_file :: "host_services \<Rightarrow> string \<Rightarrow> observation \<Rightarrow> string list \<times> observation" where
  "controller_file env source obs =
     (let (data, err) = hs_read env (facts_so_far obs) source;
          (values, parse_err) = parse_controllers (hs_ctx env source) data err
      in (values, finish_source parse_err (record_source source err obs)))"

definition cgroup_suffix :: "string \<Rightarrow> string \<Rightarrow> string option" where
  "cgroup_suffix root p =
     (if root = ''/'' then Some p
      else if p = root \<or> has_prefix p (root @ ''/'') then Some (trim_prefix p root) else None)"

fun current_controllers :: "host_services \<Rightarrow> cgroup_entry list \<Rightarrow> cgroup_mount \<Rightarrow> observation \<Rightarrow> cgroup_mount \<times> observation" where
  "current_controllers env [] m obs = (m, finish_source (Some ErrIncomplete) obs)"
| "current_controllers env (g # gs) m obs =
     (if \<not> is_unified g then current_controllers env gs m obs
      else if validate_subpath (relative_host_path (ce_path g)) \<noteq> None then (m, finish_source (Some ErrMalformed) obs)
      else case cgroup_suffix (cg_root m) (ce_path g) of
        None \<Rightarrow> current_controllers env gs m obs
      | Some suffix \<Rightarrow>
          let p = trim_suffix (cg_path m) ''/'' @ ''/'' @ trim_prefix suffix ''/'';
              source = (\<lambda>f. relative_host_path (trim_suffix p ''/'' @ ''/'' @ f));
              (cs, obs1) = controller_file env (source ''cgroup.controllers'') obs;
              (sub, obs2) = controller_file env (source ''cgroup.subtree_control'') obs1
          in (m\<lparr>cg_controller_path := p, cg_controllers := cs, cg_subtree_control := sub\<rparr>, obs2))"

section \<open>The mount table\<close>

record cgroup_scan =
  cn_obs :: observation
  cn_mounts :: "cgroup_mount list"
  cn_v1 :: bool
  cn_v2 :: bool
  cn_err :: "go_error option"

definition is_cgroup :: "mount_entry \<Rightarrow> bool" where
  "is_cgroup m \<longleftrightarrow> mt_fs_type m = ''cgroup'' \<or> mt_fs_type m = ''cgroup2''"

definition cgroup_problem :: "go_error option \<Rightarrow> cgroup_scan \<Rightarrow> cgroup_scan" where
  "cgroup_problem err s = s\<lparr>cn_err := err, cn_obs := finish_source err (cn_obs s)\<rparr>"

definition cgroup_mount_step :: "host_services \<Rightarrow> cgroup_entry list \<Rightarrow> mount_entry \<Rightarrow> cgroup_scan \<Rightarrow> cgroup_scan" where
  "cgroup_mount_step env groups m s =
     (if \<not> is_cgroup m then s
      else case (safe_mount_path (mt_point m), safe_mount_path (mt_root m)) of
        (Inr p, Inr root) \<Rightarrow>
          (let r = hs_statfs env (facts_so_far (cn_obs s)) (relative_host_path p);
               s1 = s\<lparr>cn_obs := record_source ''statfs.cgroup_mount'' (error_of r) (cn_obs s)\<rparr>;
               observed = \<lparr>cg_path = p, cg_root = root, cg_type = mt_fs_type m, cg_controller_path = '''', cg_controllers = [],
                 cg_subtree_control = []\<rparr>
           in case r of
                Inl e \<Rightarrow> cgroup_problem (errors_join [Some e, Some ErrIncomplete]) s1
              | Inr info \<Rightarrow>
                  if fi_type info \<noteq> cgroup_magic (mt_fs_type m) then cgroup_problem (errors_join [None, Some ErrIncomplete]) s1
                  else if mt_fs_type m = ''cgroup'' then s1\<lparr>cn_v1 := True, cn_mounts := cn_mounts s1 @ [observed]\<rparr>
                  else let (observed', obs') = current_controllers env groups observed (cn_obs s1)
                    in s1\<lparr>cn_v2 := True, cn_mounts := cn_mounts s1 @ [observed'], cn_obs := obs'\<rparr>)
      | _ \<Rightarrow> cgroup_problem (Some ErrMalformed) s)"

definition cgroup_topology :: "cgroup_scan \<Rightarrow> string" where
  "cgroup_topology s =
     (if cn_err s \<noteq> None then ''unknown''
      else if cn_v1 s \<and> cn_v2 s then ''mixed''
      else if cn_v1 s then ''v1''
      else if cn_v2 s then ''v2'' else ''unavailable'')"

text \<open>Memberships that contradict the visible topology make the mode unknown.\<close>

fun reconcile_memberships :: "cgroup_scan \<Rightarrow> cgroup_entry list \<Rightarrow> string \<times> observation \<Rightarrow> string \<times> observation" where
  "reconcile_memberships s [] st = st"
| "reconcile_memberships s (g # gs) (mode, obs) =
     (if is_unified g \<and> \<not> cn_v2 s \<or> \<not> is_unified g \<and> \<not> cn_v1 s
      then reconcile_memberships s gs (''unknown'', finish_source (Some ErrIncomplete) obs)
      else reconcile_memberships s gs (mode, obs))"

definition cgroup_probe :: "host_services \<Rightarrow> observation \<times> go_error option" where
  "cgroup_probe env =
     (let (mounts, mount_err) = read_mounts env;
          obs1 = record_source ''proc/self/mountinfo'' mount_err (new_host_observation ''host.cgroups'' env);
          (groups, group_err) = read_cgroups env;
          obs2 = record_source ''proc/self/cgroup'' group_err obs1;
          (members, obs3) = memberships_loop groups [] obs2;
          s = fold (cgroup_mount_step env groups) mounts
            \<lparr>cn_obs = obs3, cn_mounts = [], cn_v1 = False, cn_v2 = False, cn_err = mount_err\<rparr>;
          (mode, obs4) = reconcile_memberships s groups (cgroup_topology s, cn_obs s)
      in (obs4\<lparr>ob_host := Some (empty_host\<lparr>ho_cgroups := Some \<lparr>cg_mode = mode, cg_memberships = members,
            cg_mounts = cn_mounts s\<rparr>\<rparr>)\<rparr>, hs_ctx env ''end'' 0))"

end
