(* ===== verification/Host_Security.thy ===== *)
theory Host_Security
  imports Host_Measurement
begin

text \<open>
  The namespace and security probes (\<open>host/security.go\<close>).
\<close>

section \<open>Namespaces\<close>

definition namespace_kinds :: "string list" where
  "namespace_kinds = [''user'', ''pid'', ''net'', ''mnt'', ''ipc'', ''uts'', ''cgroup'']"

text \<open>A link of a kind is the kind, a colon and an inode number in brackets.\<close>

definition namespace_link :: "string \<Rightarrow> string \<Rightarrow> bool" where
  "namespace_link kind link \<longleftrightarrow>
     (let r = trim_prefix link (kind @ '':['')
      in kind \<in> set namespace_kinds \<and> has_prefix link (kind @ '':['') \<and> r \<noteq> '''' \<and> last r = CHR '']'' \<and>
         decimal_text (butlast r))"

definition measure_namespace :: "host_services \<Rightarrow> string \<Rightarrow> go_error + string" where
  "measure_namespace env kind =
     (case hs_readlink env (''proc/self/ns/'' @ kind) of
        Inl e \<Rightarrow> Inl e
      | Inr link \<Rightarrow> if namespace_link kind link then Inr link else Inl ErrMalformed)"

fun namespace_loop :: "host_services \<Rightarrow> nat \<Rightarrow> string list \<Rightarrow> namespace list \<Rightarrow> observation \<Rightarrow> namespace list \<times> observation" where
  "namespace_loop env n [] found obs = (found, obs)"
| "namespace_loop env n (kind # kinds) found obs =
     (let source = ''proc/self/ns/'' @ kind
      in case hs_ctx env ''namespaces'' n of
           Some e \<Rightarrow> (found, record_source source (Some e) obs)
         | None \<Rightarrow>
             (case measure_namespace env kind of
                Inl e \<Rightarrow> namespace_loop env (Suc n) kinds found (record_source source (Some e) obs)
              | Inr link \<Rightarrow> namespace_loop env (Suc n) kinds (found @ [\<lparr>ns_kind = kind, ns_id = link\<rparr>]) (record_source source None obs)))"

definition namespace_probe :: "host_services \<Rightarrow> observation \<times> go_error option" where
  "namespace_probe env =
     (let (found, obs) = namespace_loop env 0 namespace_kinds [] (new_host_observation ''host.namespaces'' env);
          obs' = finish_source (hs_ctx env ''end'' 0) obs
      in (obs'\<lparr>ob_host := Some (empty_host\<lparr>ho_namespaces := Some found\<rparr>)\<rparr>, hs_ctx env ''end'' 0))"

section \<open>Security\<close>

definition empty_security :: security_observation where
  "empty_security = \<lparr>se_selinux = ''unknown'', se_lsms = [], se_apparmor_enabled = None, se_apparmor_profiles = [],
     se_seccomp_mode = None, se_seccomp_actions = [], se_no_new_privileges = None, se_process_scope = ''process-leader'',
     se_unprivileged_userns_clone = None, se_max_user_namespaces = None\<rparr>"

type_synonym security_state = "security_observation \<times> observation"

definition read_lsms :: "host_services \<Rightarrow> security_state \<Rightarrow> security_state" where
  "read_lsms env = (\<lambda>(state, obs).
     let (lsm, err) = hs_read env 0 ''sys/kernel/security/lsm'';
         obs1 = record_source ''sys/kernel/security/lsm'' err obs;
         names = split_on CHR '','' (trim_space lsm)
     in if err \<noteq> None then (state, obs1)
        else if list_all os_id_text names then (state\<lparr>se_lsms := names\<rparr>, obs1)
        else (state, finish_source (Some ErrMalformed) obs1))"

definition read_selinux :: "host_services \<Rightarrow> security_state \<Rightarrow> security_state" where
  "read_selinux env = (\<lambda>(state, obs).
     let (enforce, err) = hs_read env 0 ''sys/fs/selinux/enforce''; source = ''sys/fs/selinux/enforce''
     in if err = None then
          (if trim_space enforce = ''0'' then (state\<lparr>se_selinux := ''permissive''\<rparr>, record_source source None obs)
           else if trim_space enforce = ''1'' then (state\<lparr>se_selinux := ''enforcing''\<rparr>, record_source source None obs)
           else (state, record_source source (Some ErrMalformed) obs))
        else if is_error err ErrNotExist \<and> se_lsms state \<noteq> [] \<and> ''selinux'' \<notin> set (se_lsms state)
        then (state\<lparr>se_selinux := ''disabled''\<rparr>, record_source source None obs)
        else (state, record_source source err obs))"

text \<open>\<open>strings.Cut\<close> at a separator of two characters.\<close>

fun cut_pair :: "char \<Rightarrow> char \<Rightarrow> string \<Rightarrow> (string \<times> string) option" where
  "cut_pair a b (c # d # s) =
     (if c = a \<and> d = b then Some ([], s) else map_option (\<lambda>(x, y). (c # x, y)) (cut_pair a b (d # s)))"
| "cut_pair a b _ = None"

definition profile_modes :: "string list" where
  "profile_modes = [''enforce'', ''complain'', ''kill'', ''unconfined'']"

definition parse_profile :: "string \<Rightarrow> apparmor_profile option" where
  "parse_profile line =
     (case cut_pair CHR '' '' CHR ''('' line of
        None \<Rightarrow> None
      | Some (name, rest) \<Rightarrow>
          if \<not> has_suffix line '')'' \<or> \<not> valid_host_text name \<or> trim_suffix rest '')'' \<notin> set profile_modes then None
          else Some \<lparr>aa_name = name, aa_mode = trim_suffix rest '')''\<rparr>)"

fun profiles_loop :: "string list \<Rightarrow> security_state \<Rightarrow> security_state" where
  "profiles_loop [] s = s"
| "profiles_loop (line # lines) (state, obs) =
     (if trim_space line = '''' then profiles_loop lines (state, obs)
      else case parse_profile line of
        None \<Rightarrow> profiles_loop lines (state, finish_source (Some ErrMalformed) obs)
      | Some p \<Rightarrow> profiles_loop lines (state\<lparr>se_apparmor_profiles := se_apparmor_profiles state @ [p]\<rparr>, obs))"

definition apparmor_enabled :: "host_services \<Rightarrow> string list \<Rightarrow> bool option \<times> go_error option" where
  "apparmor_enabled env lsms =
     (let (data, err) = hs_read env 0 ''sys/module/apparmor/parameters/enabled''
      in if err = None then
           (if trim_space data = ''Y'' then (Some True, None)
            else if trim_space data = ''N'' then (Some False, None) else (None, Some ErrMalformed))
         else if is_error err ErrNotExist \<and> lsms \<noteq> [] then (Some (''apparmor'' \<in> set lsms), None)
         else (None, err))"

definition read_apparmor :: "host_services \<Rightarrow> security_state \<Rightarrow> security_state" where
  "read_apparmor env = (\<lambda>(state, obs).
     let (enabled, err) = apparmor_enabled env (se_lsms state);
         s = state\<lparr>se_apparmor_enabled := enabled\<rparr>;
         obs1 = record_source ''sys/module/apparmor/parameters/enabled'' err obs
     in if enabled = Some False then (s, obs1)
        else let (data, err2) = hs_read env 0 ''sys/kernel/security/apparmor/profiles'';
                 (lines, parse_err) = host_lines data err2
             in profiles_loop lines (s, finish_source parse_err (record_source ''sys/kernel/security/apparmor/profiles'' err2 obs1)))"

definition status_line :: "string \<Rightarrow> security_state \<Rightarrow> security_state" where
  "status_line line = (\<lambda>(state, obs).
     case cut_at CHR '':'' line of
       None \<Rightarrow> (state, obs)
     | Some (key, v) \<Rightarrow>
         if key = ''Seccomp'' then
           (case parse_uint 32 (trim_space v) of
              None \<Rightarrow> (state, finish_source (Some ErrMalformed) obs)
            | Some n \<Rightarrow> if n \<le> 2 then (state\<lparr>se_seccomp_mode := Some (word_of_nat n)\<rparr>, obs)
                else (state, finish_source (Some ErrMalformed) obs))
         else if key = ''NoNewPrivs'' then
           (case parse_uint 32 (trim_space v) of
              None \<Rightarrow> (state, finish_source (Some ErrMalformed) obs)
            | Some n \<Rightarrow> if n \<le> 1 then (state\<lparr>se_no_new_privileges := Some (n = 1)\<rparr>, obs)
                else (state, finish_source (Some ErrMalformed) obs))
         else (state, obs))"

definition read_status :: "host_services \<Rightarrow> security_state \<Rightarrow> security_state" where
  "read_status env = (\<lambda>(state, obs).
     let (status, err) = hs_read env 0 ''proc/self/status'';
         (lines, parse_err) = host_lines status err;
         (state', obs') = fold status_line lines (state, finish_source parse_err (record_source ''proc/self/status'' err obs))
     in (state', if se_seccomp_mode state' = None \<or> se_no_new_privileges state' = None
           then finish_source (Some ErrIncomplete) obs' else obs'))"

definition read_actions :: "host_services \<Rightarrow> security_state \<Rightarrow> security_state" where
  "read_actions env = (\<lambda>(state, obs).
     let source = ''proc/sys/kernel/seccomp/actions_avail'';
         (actions, err) = hs_read env 0 source;
         (values, parse_err) = parse_controllers (hs_ctx env source) actions err
     in (state\<lparr>se_seccomp_actions := values\<rparr>, finish_source parse_err (record_source source err obs)))"

definition read_bool_sysctl :: "host_services \<Rightarrow> string \<Rightarrow> bool \<Rightarrow> observation \<Rightarrow> bool option \<times> observation" where
  "read_bool_sysctl env source opt obs =
     (let (data, err) = hs_read env 0 source
      in if opt \<and> is_error err ErrNotExist then (None, record_source source None obs)
         else let obs1 = record_source source err obs
           in if err \<noteq> None then (None, obs1)
              else if trim_space data = ''0'' then (Some False, obs1)
              else if trim_space data = ''1'' then (Some True, obs1)
              else (None, finish_source (Some ErrMalformed) obs1))"

definition read_userns :: "host_services \<Rightarrow> security_state \<Rightarrow> security_state" where
  "read_userns env = (\<lambda>(state, obs).
     let (clone, obs1) = read_bool_sysctl env ''proc/sys/kernel/unprivileged_userns_clone'' True obs;
         s = state\<lparr>se_unprivileged_userns_clone := clone\<rparr>;
         (maximum, err) = hs_read env 0 ''proc/sys/user/max_user_namespaces'';
         obs2 = record_source ''proc/sys/user/max_user_namespaces'' err obs1
     in if err \<noteq> None then (s, obs2)
        else case parse_uint 64 (trim_space maximum) of
          None \<Rightarrow> (s, finish_source (Some ErrMalformed) obs2)
        | Some n \<Rightarrow> (s\<lparr>se_max_user_namespaces := Some (word_of_nat n)\<rparr>, obs2))"

definition security_probe :: "host_services \<Rightarrow> observation \<times> go_error option" where
  "security_probe env =
     (let (state, obs) = read_userns env (read_actions env (read_status env (read_apparmor env (read_selinux env (read_lsms env
            (empty_security, new_host_observation ''host.security'' env))))))
      in (obs\<lparr>ob_host := Some (empty_host\<lparr>ho_security := Some state\<rparr>)\<rparr>, hs_ctx env ''end'' 0))"

end
