(* ===== verification/Host_Prerequisites.thy ===== *)
theory Host_Prerequisites
  imports Host_Security Go_Net
begin

text \<open>
  The file system, network and resolver probes (\<open>host/prerequisites.go\<close>), with \<open>netip.ParseAddr\<close> and
  \<open>Addr.String\<close> of the standard library.
\<close>

section \<open>Registered file systems\<close>

definition read_filesystems :: "host_services \<Rightarrow> (string \<times> bool) list \<times> go_error option" where
  "read_filesystems env =
     (let (data, err) = hs_read env 0 ''proc/filesystems''
      in parse_records (hs_ctx env ''filesystems'') data err ''filesystems'' default_parser_limits parse_filesystem_line)"

record filesystem_scan =
  fc_obs :: observation
  fc_names :: "string list"
  fc_registered :: "filesystem_registration list"
  fc_err :: "go_error option"

definition filesystem_step :: "string \<times> bool \<Rightarrow> filesystem_scan \<Rightarrow> filesystem_scan" where
  "filesystem_step = (\<lambda>(name, nodev) s.
     if \<not> valid_host_text name then s\<lparr>fc_err := Some ErrMalformed, fc_obs := finish_source (Some ErrMalformed) (fc_obs s)\<rparr>
     else s\<lparr>fc_names := fc_names s @ [name], fc_registered := fc_registered s @ [\<lparr>fr_name = name, fr_nodev = nodev\<rparr>]\<rparr>)"

definition registered :: "string list \<Rightarrow> string \<Rightarrow> go_error option \<Rightarrow> bool option" where
  "registered names name err = (if name \<in> set names then Some True else if err = None then Some False else None)"

definition filesystem_probe :: "host_services \<Rightarrow> observation \<times> go_error option" where
  "filesystem_probe env =
     (let (entries, err) = read_filesystems env;
          s = fold filesystem_step entries \<lparr>fc_obs = record_source ''proc/filesystems'' err
            (new_host_observation ''host.filesystems'' env), fc_names = [], fc_registered = [], fc_err = err\<rparr>;
          state = \<lparr>fo_registered = fc_registered s, fo_overlay_registered = registered (fc_names s) ''overlay'' (fc_err s),
            fo_fuse_registered = registered (fc_names s) ''fuse'' (fc_err s)\<rparr>
      in ((fc_obs s)\<lparr>ob_host := Some (empty_host\<lparr>ho_filesystems := Some state\<rparr>)\<rparr>, hs_ctx env ''end'' 0))"

section \<open>Network protocols\<close>

definition read_protocols :: "host_services \<Rightarrow> string list \<times> go_error option" where
  "read_protocols env =
     (let (data, err) = hs_read env 0 ''proc/self/net/protocols''
      in protocol_entries (parse_records (hs_ctx env ''protocols'') data err ''protocols'' default_parser_limits parse_protocol_line))"

definition network_probe :: "host_services \<Rightarrow> observation \<times> go_error option" where
  "network_probe env =
     (let (names, err) = read_protocols env;
          obs = record_source ''proc/self/net/protocols'' err (new_host_observation ''host.network'' env);
          tcp6 = registered names ''TCPv6'' err;
          udp6 = registered names ''UDPv6'' err;
          absent = (tcp6 = Some False \<and> udp6 = Some False);
          (all_disabled, obs1) = read_bool_sysctl env ''proc/sys/net/ipv6/conf/all/disable_ipv6'' absent obs;
          (default_disabled, obs2) = read_bool_sysctl env ''proc/sys/net/ipv6/conf/default/disable_ipv6'' absent obs1;
          state = \<lparr>no_protocols = names, no_ipv4_tcp = registered names ''TCP'' err, no_ipv4_udp = registered names ''UDP'' err,
            no_ipv6_tcp = tcp6, no_ipv6_udp = udp6, no_ipv6_all_disabled = all_disabled, no_ipv6_default_disabled = default_disabled\<rparr>
      in (obs2\<lparr>ob_host := Some (empty_host\<lparr>ho_network := Some state\<rparr>)\<rparr>, hs_ctx env ''end'' 0))"

section \<open>Addresses with zones (package netip)\<close>

definition parse_addr :: "string \<Rightarrow> (ip_addr \<times> string) option" where
  "parse_addr s =
     (case dropWhile (\<lambda>c. c \<notin> {CHR ''.'', CHR '':'', CHR ''%''}) s of
        [] \<Rightarrow> None
      | c # _ \<Rightarrow>
          if c = CHR ''.'' then map_option (\<lambda>b. (IPv4 b, '''')) (parse_ipv4 s)
          else if c = CHR ''%'' then None
          else case cut_at CHR ''%'' s of
            None \<Rightarrow> map_option (\<lambda>b. (IPv6 b, '''')) (parse_ipv6 s)
          | Some (addr, zone) \<Rightarrow> if zone = '''' then None else map_option (\<lambda>b. (IPv6 b, zone)) (parse_ipv6 addr))"

fun hex_string :: "nat \<Rightarrow> string" where
  "hex_string n = (let d = (\<lambda>k. char_of (if k < 10 then 48 + k else 87 + k)) in
     if n < 16 then [d n] else hex_string (n div 16) @ [d (n mod 16)])"

declare hex_string.simps [simp del]

definition addr_groups :: "nat list \<Rightarrow> nat list" where
  "addr_groups bytes = map (\<lambda>i. 256 * bytes ! (2 * i) + bytes ! (2 * i + 1)) [0..<8]"

definition zero_run :: "nat list \<Rightarrow> nat \<Rightarrow> nat" where
  "zero_run gs i = length (takeWhile (\<lambda>g. g = 0) (drop i gs))"

definition longest_run :: "nat list \<Rightarrow> nat \<times> nat" where
  "longest_run gs = foldl (\<lambda>(s, l) i. let r = zero_run gs i in if r \<ge> 2 \<and> r > l then (i, r) else (s, l)) (255, 0) [0..<8]"

definition ipv4_string :: "nat list \<Rightarrow> string" where
  "ipv4_string bytes = join_with ''.'' (map decimal_string bytes)"

definition ipv6_string :: "nat list \<Rightarrow> string" where
  "ipv6_string bytes =
     (let gs = addr_groups bytes; (s, l) = longest_run gs; hex = (\<lambda>xs. join_with '':'' (map hex_string xs))
      in if l = 0 then hex gs else hex (take s gs) @ ''::'' @ hex (drop (s + l) gs))"

definition addr_string :: "ip_addr \<times> string \<Rightarrow> string" where
  "addr_string = (\<lambda>(ip, zone).
     case ip of
       IPv4 bytes \<Rightarrow> ipv4_string bytes
     | IPv6 bytes \<Rightarrow>
         (if is_to4 ip then ''::ffff:'' @ ipv4_string (drop 12 bytes) else ipv6_string bytes) @
         (if zone = '''' then '''' else CHR ''%'' # zone))"

section \<open>The resolver\<close>

definition resolver_domain :: "string \<Rightarrow> bool" where
  "resolver_domain name \<longleftrightarrow> length name \<le> 253 \<and>
     list_all (\<lambda>label. label \<noteq> '''' \<and> length label \<le> 63 \<and> list_all (\<lambda>c. word_char c \<or> c = CHR ''_'' \<or> c = CHR ''-'') label)
       (split_on CHR ''.'' (trim_suffix name ''.''))"

definition resolver_flags :: "string list" where
  "resolver_flags = [''rotate'', ''single-request'', ''single-request-reopen'', ''no-tld-query'', ''use-vc'', ''trust-ad'',
     ''edns0'', ''no-reload'', ''no-aaaa'']"

definition resolver_option :: "string \<Rightarrow> bool" where
  "resolver_option opt \<longleftrightarrow>
     (case cut_at CHR '':'' opt of
        Some (name, v) \<Rightarrow> name \<in> {''ndots'', ''timeout'', ''attempts''} \<and> parse_uint 32 v \<noteq> None
      | None \<Rightarrow> opt \<in> set resolver_flags)"

text \<open>A directive changes the state and may fail; options before a refused one stay.\<close>

fun add_options :: "string list \<Rightarrow> resolver_observation \<Rightarrow> resolver_observation \<times> bool" where
  "add_options [] state = (state, True)"
| "add_options (opt # opts) state =
     (if resolver_option opt then add_options opts (state\<lparr>ro_options := ro_options state @ [opt]\<rparr>) else (state, False))"

definition resolver_directive :: "string list \<Rightarrow> resolver_observation \<Rightarrow> resolver_observation \<times> bool" where
  "resolver_directive parts state =
     (let key = hd parts; args = tl parts
      in if key = ''nameserver'' then
           (if length parts \<noteq> 2 then (state, False)
            else case parse_addr (hd args) of
              None \<Rightarrow> (state, False)
            | Some addr \<Rightarrow>
                if \<not> valid_host_text (hd args) then (state, False)
                else (state\<lparr>ro_nameservers := ro_nameservers state @ [addr_string addr]\<rparr>, True))
         else if key = ''domain'' \<or> key = ''search'' then
           (if length parts < 2 \<or> key = ''domain'' \<and> length parts \<noteq> 2 \<or> \<not> list_all resolver_domain args then (state, False)
            else (state\<lparr>ro_domain := (if key = ''domain'' then hd args else ''''),
              ro_search := (if key = ''domain'' then [] else args)\<rparr>, True))
         else if key = ''options'' then add_options args state
         else (state, False))"

definition strip_comment :: "string \<Rightarrow> string" where
  "strip_comment line = takeWhile (\<lambda>c. c \<noteq> CHR ''#'' \<and> c \<noteq> CHR '';'') line"

fun resolver_loop :: "host_services \<Rightarrow> nat \<Rightarrow> string list \<Rightarrow> resolver_observation \<times> observation \<Rightarrow> resolver_observation \<times> observation" where
  "resolver_loop env n [] s = s"
| "resolver_loop env n (line # lines) (state, obs) =
     (case hs_ctx env ''resolver'' n of
        Some e \<Rightarrow> (state, finish_source (Some e) obs)
      | None \<Rightarrow>
          (case text_fields (strip_comment line) of
             [] \<Rightarrow> resolver_loop env (Suc n) lines (state, obs)
           | f # fs \<Rightarrow>
               (case resolver_directive (f # fs) state of (state', good) \<Rightarrow>
                  resolver_loop env (Suc n) lines (state', if good then obs else finish_source (Some ErrMalformed) obs))))"

definition empty_resolver :: resolver_observation where
  "empty_resolver = \<lparr>ro_present = None, ro_nameservers = [], ro_domain = '''', ro_search = [], ro_options = []\<rparr>"

definition resolver_probe :: "host_services \<Rightarrow> observation \<times> go_error option" where
  "resolver_probe env =
     (let (data, err) = hs_read env 0 ''etc/resolv.conf'';
          obs = record_source ''etc/resolv.conf'' (missing_is_known err) (new_host_observation ''host.resolver'' env);
          (state, obs') =
            (if is_error err ErrNotExist then (empty_resolver\<lparr>ro_present := Some False\<rparr>, obs)
             else let (lines, parse_err) = host_lines data err
               in resolver_loop env 0 lines
                 (if err = None then empty_resolver\<lparr>ro_present := Some True\<rparr> else empty_resolver, finish_source parse_err obs))
      in (obs'\<lparr>ob_host := Some (empty_host\<lparr>ho_resolver := Some state\<rparr>)\<rparr>, hs_ctx env ''end'' 0))"

end
