(* ===== verification/Host_Subids.thy ===== *)
theory Host_Subids
  imports Host_Accounts
begin

text \<open>
  The subordinate ID pools of \<open>subuid\<close> and \<open>subgid\<close> (\<open>host/subids.go\<close>): one scan over the lines, then a
  sweep over the intervals in the order of their starts.
\<close>

definition maxSubIDRecords :: nat where "maxSubIDRecords = 2048"

text \<open>An interval: its start, its end and the index of its record if the target owns it.\<close>

type_synonym interval = "64 word \<times> 64 word \<times> nat option"

record sub_id_scan =
  sn_line :: nat
  sn_count :: nat
  sn_intervals :: "interval list"
  sn_ranges :: "sub_id_range list"
  sn_records :: "sub_id_record list"
  sn_problems :: "go_error option"

definition sub_id_owned :: "user_identity \<Rightarrow> string \<Rightarrow> bool" where
  "sub_id_owned target owner \<longleftrightarrow> owner = username target \<and> username target \<noteq> '''' \<or> account_id owner = Inr (uid target)"

text \<open>The range of a record as far as it could be read, and why it is refused.\<close>

definition sub_id_fields :: "string list \<Rightarrow> sub_id_range option \<times> go_error option" where
  "sub_id_fields parts =
     (if length parts \<noteq> 3 \<or> \<not> account_name (parts ! 0) then (None, Some ErrMalformed)
      else case account_id (parts ! 1) of
        Inl err \<Rightarrow> (None, Some err)
      | Inr start \<Rightarrow> (case account_id (parts ! 2) of
          Inl err \<Rightarrow> (None, Some err)
        | Inr len \<Rightarrow> let r = \<lparr>range_start = start, range_length = len\<rparr> in (Some r, sub_id_range_is_valid r)))"

definition scan_record :: "user_identity \<Rightarrow> string \<Rightarrow> sub_id_scan \<Rightarrow> sub_id_scan" where
  "scan_record target line s =
     (let parts = split_n CHR '':'' 4 line;
          selected = sub_id_owned target (parts ! 0);
          (range, err) = sub_id_fields parts;
          record = \<lparr>sr_line = word_of_nat (sn_line s), sr_owner = (if selected then parts ! 0 else ''''), sr_range = range,
            sr_problem = (if err = None then '''' else ''invalid_record'')\<rparr>;
          index = (if selected then Some (length (sn_records s)) else None)
      in s\<lparr>sn_ranges := (case range of Some r \<Rightarrow> if selected then sn_ranges s @ [r] else sn_ranges s | None \<Rightarrow> sn_ranges s),
           sn_problems := (if err = None then sn_problems s else Some ErrMalformed),
           sn_intervals := (case (err, range) of
              (None, Some r) \<Rightarrow> sn_intervals s @ [(ucast (range_start r), range_end r, index)]
            | _ \<Rightarrow> sn_intervals s),
           sn_records := (if selected then sn_records s @ [record] else sn_records s)\<rparr>)"

fun scan_lines :: "user_identity \<Rightarrow> string list \<Rightarrow> sub_id_scan \<Rightarrow> sub_id_scan" where
  "scan_lines target [] s = s"
| "scan_lines target (line # lines) s =
     (let s' = s\<lparr>sn_line := sn_line s + 1\<rparr>
      in if skipped_line line then scan_lines target lines s'
         else let s'' = s'\<lparr>sn_count := sn_count s' + 1\<rparr>
           in if sn_count s'' > maxSubIDRecords
              then s''\<lparr>sn_problems := errors_join [sn_problems s'', Some ErrLimitExceeded]\<rparr>
              else scan_lines target lines (scan_record target line s''))"

text \<open>The sweep; \<open>prev\<close> is the largest end seen so far.\<close>

definition flag_record :: "nat \<Rightarrow> sub_id_record list \<Rightarrow> sub_id_record list" where
  "flag_record i records = records[i := (records ! i)\<lparr>sr_problem := ''allocation_overlap''\<rparr>]"

fun mark_overlaps :: "64 word \<Rightarrow> interval list \<Rightarrow> sub_id_record list \<times> go_error option \<Rightarrow> sub_id_record list \<times> go_error option" where
  "mark_overlaps prev [] st = st"
| "mark_overlaps prev ((start, stop, index) # rest) st =
     (let conflict = start < prev \<or> (case rest of [] \<Rightarrow> False | (next_start, _) # _ \<Rightarrow> next_start < stop)
      in mark_overlaps (max prev stop) rest
        (case index of
           Some i \<Rightarrow> if conflict then (flag_record i (fst st), Some ErrMalformed) else st
         | None \<Rightarrow> st))"

definition empty_scan :: sub_id_scan where
  "empty_scan = \<lparr>sn_line = 0, sn_count = 0, sn_intervals = [], sn_ranges = [], sn_records = [], sn_problems = None\<rparr>"

definition empty_allocation :: sub_id_allocation where
  "empty_allocation = \<lparr>sa_present = None, sa_ranges = [], sa_records = [], sa_total = None, sa_valid = None\<rparr>"

definition total_length :: "sub_id_range list \<Rightarrow> 64 word" where
  "total_length rs = foldl (\<lambda>total r. total + ucast (range_length r)) 0 rs"

definition parse_sub_ids :: "string \<Rightarrow> user_identity \<Rightarrow> sub_id_allocation \<times> go_error option" where
  "parse_sub_ids data target =
     (if user_identity_is_valid target \<noteq> None \<or> valid_account_input data \<noteq> None then (empty_allocation, Some ErrMalformed)
      else let s = scan_lines target (text_lines data) empty_scan;
               (records, problems) = mark_overlaps 0 (sort_key fst (sn_intervals s)) (sn_records s, sn_problems s)
           in (empty_allocation\<lparr>sa_ranges := sn_ranges s, sa_records := records, sa_valid := Some (problems = None),
                 sa_total := (if problems = None then Some (total_length (sn_ranges s)) else None)\<rparr>, problems))"

section \<open>The provider (\<open>subIDProvider\<close>)\<close>

definition before_comment :: "string \<Rightarrow> string" where
  "before_comment line = (case cut_at CHR ''#'' line of None \<Rightarrow> line | Some (a, b) \<Rightarrow> a)"

fun provider_loop :: "string list \<Rightarrow> string \<Rightarrow> bool \<Rightarrow> string" where
  "provider_loop [] provider found = provider"
| "provider_loop (line # lines) provider found =
     (let line' = before_comment line
      in case cut_at CHR '':'' line' of
           None \<Rightarrow> provider_loop lines provider found
         | Some (key, v) \<Rightarrow>
             if trim_space key \<noteq> ''subid'' then provider_loop lines provider found
             else if found \<or> length (text_fields v) \<noteq> 1 then ''unknown''
             else provider_loop lines (if hd (text_fields v) \<noteq> ''files'' then ''external'' else provider) True)"

text \<open>The result of reading \<open>nsswitch.conf\<close> is the first argument.\<close>

definition sub_id_provider :: "go_error + string \<Rightarrow> string" where
  "sub_id_provider read =
     (case read of
        Inl err \<Rightarrow> if errors_is err ErrNotExist then ''files'' else ''unknown''
      | Inr data \<Rightarrow> if valid_account_input data \<noteq> None then ''unknown'' else provider_loop (text_lines data) ''files'' False)"

end
