(* ===== verification/Host_Context.thy ===== *)
theory Host_Context
  imports Host_Subids Host_Baseline
begin

text \<open>
  The probes of the execution context: subordinate IDs with their mapping helpers (\<open>host/subids.go\<close>,
  \<open>mapping\_helpers.go\<close>), the runtime directory (\<open>platform/runtime\_directory.go\<close>) and the user context
  (\<open>host/user\_context.go\<close>).
\<close>

section \<open>File capabilities\<close>

definition little_endian32 :: "8 word list \<Rightarrow> 32 word" where
  "little_endian32 bs = word_of_nat (unat (bs ! 0) + 256 * unat (bs ! 1) + 65536 * unat (bs ! 2) + 16777216 * unat (bs ! 3))"

definition cap_setuid :: "32 word" where "cap_setuid = 128"
definition cap_setgid :: "32 word" where "cap_setgid = 64"

definition revision_bytes :: "32 word \<Rightarrow> nat" where
  "revision_bytes revision = (if revision = 1 then 12 else if revision = 2 then 20 else if revision = 3 then 24 else 0)"

definition no_capabilities :: mapping_capabilities where
  "no_capabilities = \<lparr>mc_inheritable_setuid = False, mc_inheritable_setgid = False, mc_present = False, mc_revision = 0,
     mc_effective = False, mc_setuid = False, mc_setgid = False, mc_root_id = None\<rparr>"

definition parse_mapping_capabilities :: "capability_attribute \<Rightarrow> go_error + mapping_capabilities" where
  "parse_mapping_capabilities attr =
     (if \<not> ca_present attr then Inr no_capabilities
      else let data = ca_bytes attr
        in if length data < 12 then Inl ErrMalformed
           else let magic = little_endian32 data; revision = drop_bit 24 magic;
                    permitted = little_endian32 (drop 4 data); inheritable = little_endian32 (drop 8 data)
             in if length data \<noteq> revision_bytes revision \<or> and magic 0xffffff > 1 then Inl ErrMalformed
                else if revision = 3 \<and> little_endian32 (drop 20 data) = max_uint32 then Inl ErrMalformed
                else Inr \<lparr>mc_inheritable_setuid = (and inheritable cap_setuid \<noteq> 0), mc_inheritable_setgid = (and inheritable cap_setgid \<noteq> 0),
                  mc_present = True, mc_revision = revision, mc_effective = (and magic 1 \<noteq> 0),
                  mc_setuid = (and permitted cap_setuid \<noteq> 0), mc_setgid = (and permitted cap_setgid \<noteq> 0),
                  mc_root_id = (if revision = 3 then Some (little_endian32 (drop 20 data)) else None)\<rparr>)"

section \<open>Mapping helpers\<close>

definition new_helper :: "string \<Rightarrow> mapping_helper" where
  "new_helper name = \<lparr>mh_privilege_blocked = None, mh_name = name, mh_path = '''', mh_present = None, mh_regular = None, mh_uid = None,
     mh_gid = None, mh_mode = None, mh_setuid = None, mh_setgid = None, mh_executable = None, mh_capabilities = None,
     mh_nosuid = None, mh_noexec = None, mh_no_new_privileges = None, mh_usable = None\<rparr>"

definition classify_privilege :: "mapping_helper \<Rightarrow> mapping_helper" where
  "classify_privilege h =
     (let h1 = (if mh_noexec h = Some True then h\<lparr>mh_usable := Some False\<rparr> else h)
      in if mh_nosuid h1 = Some True \<or> mh_no_new_privileges h1 = Some True then h1\<lparr>mh_privilege_blocked := Some True\<rparr> else h1)"

type_synonym helper_state = "mapping_helper \<times> observation"

definition helper_capabilities :: "host_services \<Rightarrow> helper_state \<Rightarrow> helper_state" where
  "helper_capabilities env = (\<lambda>(h, obs).
     let r = (case hs_capabilities env (tl (mh_path h)) of Inl e \<Rightarrow> Inl e | Inr attr \<Rightarrow> parse_mapping_capabilities attr);
         h1 = (case r of Inl e \<Rightarrow> h | Inr caps \<Rightarrow> h\<lparr>mh_capabilities := Some caps\<rparr>)
     in (h1, record_source (mh_path h @ '' file-capabilities'') (error_of r) obs))"

definition helper_mount :: "host_services \<Rightarrow> helper_state \<Rightarrow> helper_state" where
  "helper_mount env = (\<lambda>(h, obs).
     let r = hs_statfs env (facts_so_far obs) (tl (mh_path h));
         h1 = (case r of
                 Inr info \<Rightarrow> if fi_flags_known info then h\<lparr>mh_nosuid := Some (fi_nosuid info), mh_noexec := Some (fi_noexec info)\<rparr> else h
               | Inl e \<Rightarrow> h)
     in (h1, record_source (mh_path h @ '' mount-policy'') (error_of r) obs))"

definition helper_process :: "host_services \<Rightarrow> helper_state \<Rightarrow> helper_state" where
  "helper_process env = (\<lambda>(h, obs).
     case hs_no_new_privileges env of
       None \<Rightarrow> (h, obs)
     | Some query \<Rightarrow>
         let r = query (facts_so_far obs);
             h1 = (case r of Inr nnp \<Rightarrow> h\<lparr>mh_no_new_privileges := Some nnp\<rparr> | Inl e \<Rightarrow> h)
         in (h1, record_source ''process no-new-privileges'' (error_of r) obs))"

definition inspect_privilege :: "host_services \<Rightarrow> helper_state \<Rightarrow> helper_state" where
  "inspect_privilege env s =
     (let (h, obs) = helper_process env (helper_mount env (helper_capabilities env s));
          h1 = classify_privilege h
      in (h1, if mh_usable h1 = None then host_warning ''mapping_execution_unverified'' obs else obs))"

definition helper_file :: "file_stat \<Rightarrow> mapping_helper \<Rightarrow> mapping_helper" where
  "helper_file info h = h\<lparr>mh_present := Some True, mh_regular := Some (fst_regular info), mh_setuid := Some (fst_setuid info),
     mh_setgid := Some (fst_setgid info), mh_mode := Some (fst_perm info),
     mh_uid := map_option fst (fst_owner info), mh_gid := map_option snd (fst_owner info)\<rparr>"

definition helper_access :: "host_services \<Rightarrow> helper_state \<Rightarrow> helper_state" where
  "helper_access env = (\<lambda>(h, obs).
     let r = hs_access env (tl (mh_path h));
         h1 = (case r of
                 Inr access \<Rightarrow> h\<lparr>mh_executable := Some access, mh_usable := (if access then mh_usable h else Some False)\<rparr>
               | Inl e \<Rightarrow> h)
     in (h1, record_source (mh_path h @ '' execute-access'') (error_of r) obs))"

fun observe_helper :: "host_services \<Rightarrow> string list \<Rightarrow> mapping_helper \<Rightarrow> observation \<Rightarrow> helper_state" where
  "observe_helper env [] h obs = (h\<lparr>mh_path := '''', mh_present := Some False, mh_usable := Some False\<rparr>, obs)"
| "observe_helper env (prefix # prefixes) h obs =
     (let p = prefix @ mh_name h;
          h1 = h\<lparr>mh_path := p\<rparr>;
          r = hs_stat env (facts_so_far obs) (tl p);
          obs1 = record_source p (missing_is_known (error_of r)) obs
      in case r of
           Inl e \<Rightarrow> if errors_is e ErrNotExist then observe_helper env prefixes h1 obs1 else (h1, obs1)
         | Inr info \<Rightarrow>
             let h2 = helper_file info h1
             in if \<not> fst_regular info \<or> and (fst_perm info) 0x49 = 0 then (h2\<lparr>mh_usable := Some False\<rparr>, obs1)
                else inspect_privilege env (helper_access env (h2, obs1)))"

definition helper_prefixes :: "string list" where
  "helper_prefixes = [''/usr/bin/'', ''/usr/local/bin/'', ''/bin/'']"

section \<open>Subordinate IDs\<close>

definition absent_allocation :: sub_id_allocation where
  "absent_allocation = empty_allocation\<lparr>sa_present := Some False, sa_total := Some 0, sa_valid := Some True\<rparr>"

definition read_sub_ids :: "host_services \<Rightarrow> user_identity \<Rightarrow> string \<Rightarrow> observation \<Rightarrow> sub_id_allocation \<times> observation" where
  "read_sub_ids env target name obs =
     (let (data, err) = hs_read env 0 name;
          obs1 = record_source name (missing_is_known err) obs
      in if is_error err ErrNotExist then (absent_allocation, obs1)
         else let (out, parse_err) = parse_sub_ids data target;
                  out1 = (if err = None then out\<lparr>sa_present := Some True\<rparr> else out\<lparr>sa_total := None, sa_valid := None\<rparr>);
                  obs2 = finish_source parse_err obs1
           in if username target = ''''
              then (out1\<lparr>sa_total := None, sa_valid := None\<rparr>,
                (host_warning ''subid_account_unresolved'' obs2)\<lparr>ob_completeness := Partial\<rparr>)
              else (out1, obs2))"

definition sub_id_probe :: "user_identity \<Rightarrow> host_services \<Rightarrow> observation \<times> go_error option" where
  "sub_id_probe target env =
     (let (uids, obs1) = read_sub_ids env target ''etc/subuid'' ((new_host_observation ''context.subids'' env)\<lparr>ob_host := None\<rparr>);
          (gids, obs2) = read_sub_ids env target ''etc/subgid'' obs1;
          (data, err) = hs_read env 0 ''etc/nsswitch.conf'';
          obs3 = record_source ''etc/nsswitch.conf'' (missing_is_known err) obs2;
          provider = sub_id_provider (case err of Some e \<Rightarrow> Inl e | None \<Rightarrow> Inr data);
          obs4 = (if provider \<noteq> ''files'' then (host_warning ''subid_provider_unresolved'' obs3)\<lparr>ob_completeness := Partial\<rparr> else obs3);
          (h1, obs5) = observe_helper env helper_prefixes (new_helper ''newuidmap'') obs4;
          (h2, obs6) = observe_helper env helper_prefixes (new_helper ''newgidmap'') obs5
      in (obs6\<lparr>ob_subids := Some \<lparr>si_uid = uids, si_gid = gids, si_provider = provider, si_helpers = [h1, h2]\<rparr>\<rparr>,
          hs_ctx env ''end'' 0))"

section \<open>The runtime directory (platform/runtime\_directory.go)\<close>

definition valid_runtime_path :: "string \<Rightarrow> bool" where
  "valid_runtime_path name \<longleftrightarrow> valid_utf8 name \<and> 1 < length name \<and> length name \<le> 4096 \<and> path_is_abs name \<and> path_clean name = name \<and>
     \<not> contains_control name \<and> validate_subpath (tl name) = None"

definition ErrRuntimeDirectory :: go_error where
  "ErrRuntimeDirectory = Err ''target runtime directory must be owned by target UID with mode 0700''"

definition new_runtime_directory :: "string \<Rightarrow> runtime_directory_observation" where
  "new_runtime_directory p = \<lparr>rd_path = p, rd_source = '''', rd_present = None, rd_directory = None, rd_uid = None, rd_mode = None,
     rd_private = None, rd_valid = None\<rparr>"

definition private_directory :: "file_stat \<Rightarrow> bool" where
  "private_directory info \<longleftrightarrow> fst_perm info = 0x1c0 \<and> \<not> fst_setuid info \<and> \<not> fst_setgid info \<and> \<not> fst_sticky info"

text \<open>The files may be absent (a nil view): the second argument is then \<open>None\<close>.\<close>

definition inspect_runtime_directory :: "go_error option \<Rightarrow> (string \<Rightarrow> go_error + file_stat) option \<Rightarrow> string \<Rightarrow> 32 word \<Rightarrow>
    runtime_directory_observation \<times> go_error option" where
  "inspect_runtime_directory ctx files name target =
     (let out = new_runtime_directory name
      in if \<not> valid_runtime_path name then (out\<lparr>rd_path := '''', rd_valid := Some False\<rparr>, Some ErrRuntimeDirectory)
         else case ctx of Some e \<Rightarrow> (out, Some e)
         | None \<Rightarrow> (case files of None \<Rightarrow> (out, Some ErrIncomplete)
         | Some stat \<Rightarrow> (case stat (tl name) of
             Inl e \<Rightarrow> if errors_is e ErrNotExist then (out\<lparr>rd_present := Some False, rd_valid := Some False\<rparr>, None) else (out, Some e)
           | Inr info \<Rightarrow>
               let out1 = out\<lparr>rd_present := Some True, rd_directory := Some (fst_dir info), rd_mode := Some (fst_perm info),
                     rd_private := Some (private_directory info)\<rparr>
               in case fst_owner info of
                    None \<Rightarrow> (out1, Some ErrIncomplete)
                  | Some (u, g) \<Rightarrow> (out1\<lparr>rd_uid := Some u,
                      rd_valid := Some (fst_dir info \<and> private_directory info \<and> u = target)\<rparr>, None))))"

definition validate_runtime_directory :: "go_error option \<Rightarrow> (string \<Rightarrow> go_error + file_stat) option \<Rightarrow> string \<Rightarrow> 32 word \<Rightarrow> go_error option" where
  "validate_runtime_directory ctx files name target =
     (case inspect_runtime_directory ctx files name target of (metadata, err) \<Rightarrow>
        if err \<noteq> None then err else if rd_valid metadata \<noteq> Some True then Some ErrRuntimeDirectory else None)"

section \<open>The user context\<close>

definition empty_user_context :: user_context_observation where
  "empty_user_context = \<lparr>u_runtime = new_runtime_directory '''', u_socket_present = None, u_socket_valid = None, u_accessible = None,
     u_linger_enabled = None, u_query_attempted = False, u_manager_version = ''''\<rparr>"

record user_probe =
  up_target :: user_identity
  up_runtime_directory :: "string option"
  up_environment_error :: "go_error option"
  up_active :: bool

type_synonym user_state = "user_context_observation \<times> observation"

definition command_completed :: "exec_result \<Rightarrow> bool" where
  "command_completed r \<longleftrightarrow>
     \<not> er_timed_out r \<and> \<not> er_stdout_truncated r \<and> \<not> er_stderr_truncated r \<and> \<not> er_output_incomplete r \<and> 0 \<le> er_exit r \<and>
     (er_error r = None \<or> 0 < er_exit r \<and> er_exited r = Some (er_exit r))"

definition read_linger :: "host_services \<Rightarrow> string \<Rightarrow> user_state \<Rightarrow> user_state" where
  "read_linger env name = (\<lambda>(state, obs).
     if name = '''' \<or> target_selector_is_valid (''user:'' @ name) \<noteq> None
     then (state, host_warning ''linger_account_unresolved'' (finish_source (Some ErrIncomplete) obs))
     else case hs_ctx env ''linger'' 0 of
       Some e \<Rightarrow> (state, finish_source (Some e) obs)
     | None \<Rightarrow>
         let r = hs_stat env 0 (''var/lib/systemd/linger/'' @ name);
             obs1 = record_source ''linger marker'' (missing_is_known (error_of r)) obs
         in case r of
              Inl e \<Rightarrow> (if errors_is e ErrNotExist then state\<lparr>u_linger_enabled := Some False\<rparr> else state, obs1)
            | Inr info \<Rightarrow> (state\<lparr>u_linger_enabled := Some (fst_regular info)\<rparr>,
                if fst_regular info then obs1 else host_warning ''linger_marker_invalid'' obs1))"

text \<open>The utility that is run: \<open>None\<close> when the search gives up, the empty path when there is none.\<close>

fun find_systemctl :: "host_services \<Rightarrow> string list \<Rightarrow> observation \<Rightarrow> string option \<times> observation" where
  "find_systemctl env [] obs = (Some '''', obs)"
| "find_systemctl env (name # names) obs =
     (let r = hs_stat env 1 (tl name);
          obs1 = record_source name (missing_is_known (error_of r)) obs
      in case r of
           Inl e \<Rightarrow> if errors_is e ErrNotExist then find_systemctl env names obs1 else (None, obs1)
         | Inr info \<Rightarrow> if \<not> fst_regular info \<or> and (fst_perm info) 0x49 = 0 then (None, obs1) else (Some name, obs1))"

definition query_user_manager :: "host_services \<Rightarrow> string \<Rightarrow> user_state \<Rightarrow> user_state" where
  "query_user_manager env directory = (\<lambda>(state, obs).
     case find_systemctl env [''/usr/bin/systemctl'', ''/bin/systemctl''] obs of
       (None, obs1) \<Rightarrow> (state, obs1)
     | (Some executable, obs1) \<Rightarrow>
         if executable = '''' then (state, host_warning ''user_manager_utility_missing'' obs1)
         else let s1 = state\<lparr>u_query_attempted := True\<rparr>;
                  result = hs_user_manager env executable directory;
                  version = trim_space (er_stdout result)
           in if \<not> command_completed result then (s1, record_source ''user manager query'' (Some ErrIncomplete) obs1)
              else let obs2 = record_source ''user manager query'' None obs1
                in if er_exit result \<noteq> 0 then (s1\<lparr>u_accessible := Some False\<rparr>, host_warning ''user_manager_unavailable'' obs2)
                   else if \<not> valid_host_text version \<or> systemd_fields (''systemd '' @ version) = None
                   then (s1, finish_source (Some ErrMalformed) obs2)
                   else (s1\<lparr>u_accessible := Some True, u_manager_version := version\<rparr>, obs2))"

definition user_socket :: "user_probe \<Rightarrow> host_services \<Rightarrow> string \<Rightarrow> user_state \<Rightarrow> user_state" where
  "user_socket p env name = (\<lambda>(state, obs).
     let r = hs_stat env 0 (tl name @ ''/systemd/private'');
         obs1 = record_source ''user manager private socket'' (missing_is_known (error_of r)) obs
     in case r of
          Inl e \<Rightarrow> (if errors_is e ErrNotExist then state\<lparr>u_socket_present := Some False\<rparr> else state, obs1)
        | Inr info \<Rightarrow>
            let s1 = state\<lparr>u_socket_present := Some True\<rparr>
            in case fst_owner info of
                 None \<Rightarrow> (s1, finish_source (Some ErrIncomplete) obs1)
               | Some (u, g) \<Rightarrow>
                   let sound = (fst_socket info \<and> u = uid (up_target p));
                       s2 = s1\<lparr>u_socket_valid := Some sound\<rparr>
                   in if \<not> sound then (s2, host_warning ''user_socket_invalid'' obs1)
                      else if \<not> up_active p then (s2, host_warning ''user_manager_query_deferred'' obs1)
                      else query_user_manager env name (s2, obs1))"

definition user_runtime :: "user_probe \<Rightarrow> host_services \<Rightarrow> user_state \<Rightarrow> user_state" where
  "user_runtime p env = (\<lambda>(state, obs).
     let name = (case up_runtime_directory p of None \<Rightarrow> ''/run/user/'' @ decimal_string (unat (uid (up_target p))) | Some d \<Rightarrow> d);
         source = (if up_runtime_directory p = None then ''default'' else ''environment'')
     in case up_environment_error p of
          Some e \<Rightarrow> (state\<lparr>u_runtime := (u_runtime state)\<lparr>rd_source := source\<rparr>\<rparr>, record_source ''XDG_RUNTIME_DIR'' (Some e) obs)
        | None \<Rightarrow>
            let (runtime, err) = inspect_runtime_directory (hs_ctx env ''runtime'' 0) (Some (hs_stat env 0)) name (uid (up_target p));
                s1 = state\<lparr>u_runtime := runtime\<lparr>rd_source := source\<rparr>\<rparr>;
                obs1 = record_source ''runtime directory'' err obs
            in if rd_valid runtime \<noteq> Some True
               then (s1, obs1\<lparr>ob_diagnostics := ob_diagnostics obs1 @ [\<lparr>code = ''user_runtime_invalid'',
                 msg = Text ''rootless user services require an existing runtime directory owned by target UID with mode 0700'',
                 reference = ''context.user''\<rparr>]\<rparr>)
               else user_socket p env name (s1, obs1))"

definition user_context_probe :: "user_probe \<Rightarrow> host_services \<Rightarrow> observation \<times> go_error option" where
  "user_context_probe p env =
     (let (state, obs) = user_runtime p env (read_linger env (username (up_target p))
            (empty_user_context, (new_host_observation ''context.user'' env)\<lparr>ob_host := None\<rparr>))
      in (obs\<lparr>ob_user_context := Some state\<rparr>, hs_ctx env ''end'' 0))"

end
