(* ===== verification/Host_Probes.thy ===== *)
theory Host_Probes
  imports Host_Baseline Host_Cgroups Host_Prerequisites Host_Context
begin

text \<open>
  Every probe of the host and of the execution context is a sequence of measurement steps, so that its observation is
  well-formed and bounded whatever the platform answers: \<open>host_probe\<close> is interpreted for each of them.
\<close>

section \<open>Each probe is a sequence of steps\<close>

named_theorems measured_intros

lemma measured_step [measured_intros]:
  "measured a b \<Longrightarrow> s \<noteq> '''' \<Longrightarrow> measured a (record_source s e b)" "measured a b \<Longrightarrow> measured a (finish_source e b)"
  "measured a b \<Longrightarrow> measured a (host_warning c b)" "measured a b \<Longrightarrow> measured a (b\<lparr>ob_completeness := Partial\<rparr>)"
  by (auto intro: measured.intros)

lemma measured_if [measured_intros]:
  "measured a x \<Longrightarrow> measured a y \<Longrightarrow> measured a (if c then x else y)"
  by simp

lemma measured_if_snd [measured_intros]:
  "measured a (snd x) \<Longrightarrow> measured a (snd y) \<Longrightarrow> measured a (snd (if c then x else y))"
  by simp

lemma os_assign_obs [simp]: "oc_obs (os_assign key v s) = oc_obs s"
  by (simp add: os_assign_def Let_def)

lemma os_line_measured: "measured a (oc_obs s) \<Longrightarrow> measured a (oc_obs (os_line line s))"
  by (simp add: os_line_def case_prod_unfold measured_intros split: option.split)

lemma os_loop_measured: "measured a (oc_obs s) \<Longrightarrow> measured a (oc_obs (os_loop env n lines s))"
  by (induction lines arbitrary: n s) (auto simp: Let_def os_line_measured split: option.splits)

lemma os_source_name: "fst (os_source env) \<noteq> ''''"
  by (simp add: os_source_def split: prod.splits)

lemma os_probe_measured: "measured (new_host_observation ''host.os'' env) (fst (os_probe env))"
  using os_source_name [of env]
  by (auto simp: os_probe_def Let_def case_prod_unfold intro!: measured_payload measured_intros os_loop_measured measured.start)

lemma kernel_probe_measured: "measured (new_host_observation ''host.kernel'' env) (fst (kernel_probe env))"
  unfolding kernel_probe_def Let_def case_prod_unfold fst_conv
  by (intro measured_payload(1) measured_intros measured.start) simp_all

lemma systemd_running_measured: "measured a (snd s) \<Longrightarrow> measured a (snd (systemd_running env s))"
  by (cases s) (auto simp: systemd_running_def Let_def case_prod_unfold intro: measured_intros)

lemma systemd_directory_measured: "measured a (snd s) \<Longrightarrow> measured a (snd (systemd_directory env s))"
  by (cases s) (auto simp: systemd_directory_def Let_def intro: measured_intros split: sum.splits)

lemma systemd_installed_measured: "'''' \<notin> set cs \<Longrightarrow> measured a (snd s) \<Longrightarrow> measured a (snd (systemd_installed env cs s))"
  by (induction cs arbitrary: s) (auto simp: Let_def measured_intros split: sum.split)

lemma systemd_version_measured: "measured a (snd s) \<Longrightarrow> measured a (snd (systemd_version env p s))"
  by (cases s) (auto simp: systemd_version_def Let_def intro: measured_intros split: option.splits)

lemma systemd_utility_measured: "'''' \<notin> set cs \<Longrightarrow> measured a (snd s) \<Longrightarrow> measured a (snd (systemd_utility env cs s))"
  by (induction cs arbitrary: s) (auto simp: Let_def measured_intros systemd_version_measured split: sum.split)

lemma systemd_probe_measured: "measured (new_host_observation ''host.systemd'' env) (fst (systemd_probe env))"
  unfolding systemd_probe_def Let_def case_prod_unfold fst_conv
  by (intro measured_payload(1) systemd_utility_measured)
    (simp_all add: systemd_installed_measured systemd_directory_measured systemd_running_measured measured.start)

section \<open>Cgroups\<close>

lemma memberships_measured: "measured a obs \<Longrightarrow> measured a (snd (memberships_loop gs ms obs))"
  by (induction gs arbitrary: ms obs) (auto intro: measured_intros)

lemma controller_file_measured: "source \<noteq> '''' \<Longrightarrow> measured a obs \<Longrightarrow> measured a (snd (controller_file env source obs))"
  by (simp add: controller_file_def Let_def case_prod_unfold measured_intros)

lemma relative_ends: "f \<noteq> '''' \<Longrightarrow> relative_host_path (p @ CHR ''/'' # f) \<noteq> ''''"
  by (auto simp: relative_host_path_def trim_prefix_def has_prefix_def)

lemma current_controllers_measured: "measured a obs \<Longrightarrow> measured a (snd (current_controllers env gs m obs))"
  by (induction env gs m obs rule: current_controllers.induct)
    (auto simp: Let_def case_prod_unfold intro!: measured_intros controller_file_measured relative_ends split: option.splits)

lemma cgroup_step_measured: "measured a (cn_obs s) \<Longrightarrow> measured a (cn_obs (cgroup_mount_step env gs m s))"
  by (auto simp: cgroup_mount_step_def cgroup_problem_def Let_def case_prod_unfold
      intro!: measured_intros current_controllers_measured split: sum.splits)

lemma cgroup_fold_measured: "measured a (cn_obs s) \<Longrightarrow> measured a (cn_obs (fold (cgroup_mount_step env gs) ms s))"
  by (induction ms arbitrary: s) (simp_all add: cgroup_step_measured)

lemma reconcile_measured: "measured a (snd st) \<Longrightarrow> measured a (snd (reconcile_memberships s gs st))"
  by (induction s gs st rule: reconcile_memberships.induct) (auto intro: measured_intros)

lemma cgroup_probe_measured: "measured (new_host_observation ''host.cgroups'' env) (fst (cgroup_probe env))"
  unfolding cgroup_probe_def Let_def case_prod_unfold fst_conv
  by (intro measured_payload(1) reconcile_measured)
    (simp add: cgroup_fold_measured memberships_measured measured_intros measured.start)

section \<open>Namespaces and security\<close>

lemma namespace_loop_measured: "measured a obs \<Longrightarrow> measured a (snd (namespace_loop env n ks found obs))"
  by (induction ks arbitrary: n found obs) (auto simp: Let_def measured_intros split: option.split sum.split)

lemma namespace_probe_measured: "measured (new_host_observation ''host.namespaces'' env) (fst (namespace_probe env))"
  unfolding namespace_probe_def Let_def case_prod_unfold fst_conv
  by (intro measured_payload(1) measured_intros namespace_loop_measured measured.start)

lemma security_parts_measured:
  assumes "measured a (snd s)"
  shows "measured a (snd (read_lsms env s))" "measured a (snd (read_selinux env s))" "measured a (snd (read_actions env s))"
  using assms by (cases s; simp add: read_lsms_def read_selinux_def read_actions_def Let_def case_prod_unfold measured_intros)+

lemma profiles_measured: "measured a (snd s) \<Longrightarrow> measured a (snd (profiles_loop lines s))"
  by (induction lines arbitrary: s) (auto simp: measured_intros split: option.split)

lemma apparmor_measured: "measured a (snd s) \<Longrightarrow> measured a (snd (read_apparmor env s))"
  by (cases s) (simp add: read_apparmor_def Let_def case_prod_unfold measured_intros profiles_measured)

lemma status_line_measured: "measured a (snd s) \<Longrightarrow> measured a (snd (status_line line s))"
  by (cases s) (simp add: status_line_def case_prod_unfold measured_intros split: option.split)

lemma status_fold_measured: "measured a (snd s) \<Longrightarrow> measured a (snd (fold status_line lines s))"
  by (induction lines arbitrary: s) (simp_all add: status_line_measured)

lemma status_measured: "measured a (snd s) \<Longrightarrow> measured a (snd (read_status env s))"
  by (cases s) (simp add: read_status_def Let_def case_prod_unfold measured_intros status_fold_measured)

lemma sysctl_measured: "measured a obs \<Longrightarrow> source \<noteq> '''' \<Longrightarrow> measured a (snd (read_bool_sysctl env source opt obs))"
  by (simp add: read_bool_sysctl_def Let_def case_prod_unfold measured_intros)

lemma userns_measured: "measured a (snd s) \<Longrightarrow> measured a (snd (read_userns env s))"
  by (cases s) (simp add: read_userns_def Let_def case_prod_unfold measured_intros sysctl_measured split: option.split)

lemma security_probe_measured: "measured (new_host_observation ''host.security'' env) (fst (security_probe env))"
  unfolding security_probe_def Let_def case_prod_unfold fst_conv
  by (intro measured_payload(1) userns_measured security_parts_measured status_measured apparmor_measured)
    (simp add: measured.start)

section \<open>File systems, network and resolver\<close>

lemma filesystem_fold_measured: "measured a (fc_obs s) \<Longrightarrow> measured a (fc_obs (fold filesystem_step es s))"
  by (induction es arbitrary: s) (simp_all add: filesystem_step_def case_prod_unfold measured_intros)

lemma filesystem_probe_measured: "measured (new_host_observation ''host.filesystems'' env) (fst (filesystem_probe env))"
  unfolding filesystem_probe_def Let_def case_prod_unfold fst_conv
  by (intro measured_payload(1) filesystem_fold_measured) (simp add: measured_intros measured.start)

lemma network_probe_measured: "measured (new_host_observation ''host.network'' env) (fst (network_probe env))"
  unfolding network_probe_def Let_def case_prod_unfold fst_conv
  by (intro measured_payload(1) sysctl_measured measured_intros measured.start) simp_all

lemma resolver_loop_measured: "measured a (snd s) \<Longrightarrow> measured a (snd (resolver_loop env n lines s))"
  by (induction lines arbitrary: n s) (auto simp: case_prod_unfold measured_intros split: option.split list.split)

lemma resolver_probe_measured: "measured (new_host_observation ''host.resolver'' env) (fst (resolver_probe env))"
  unfolding resolver_probe_def Let_def case_prod_unfold fst_conv
  by (intro measured_payload(1)) (simp add: measured_intros resolver_loop_measured measured.start)

section \<open>The context of execution\<close>

lemma inspect_privilege_measured:
  assumes "measured a (snd s)"
  shows "measured a (snd (inspect_privilege env s))"
proof -
  have parts: "measured a (snd (helper_capabilities env t))" "measured a (snd (helper_mount env t))" "measured a (snd (helper_process env t))"
    if "measured a (snd t)" for t
    using that by (cases t; simp add: helper_capabilities_def helper_mount_def helper_process_def Let_def measured_intros split: option.split)+
  show ?thesis using assms by (simp add: inspect_privilege_def Let_def case_prod_unfold measured_intros parts)
qed

lemma helper_access_measured: "measured a (snd s) \<Longrightarrow> measured a (snd (helper_access env s))"
  by (cases s) (simp add: helper_access_def Let_def measured_intros)

lemma observe_helper_measured: "measured a obs \<Longrightarrow> '''' \<notin> set ps \<Longrightarrow> measured a (snd (observe_helper env ps h obs))"
  by (induction ps arbitrary: h obs)
    (auto simp: Let_def measured_intros inspect_privilege_measured helper_access_measured split: sum.split)

lemma read_sub_ids_measured: "measured a obs \<Longrightarrow> name \<noteq> '''' \<Longrightarrow> measured a (snd (read_sub_ids env target name obs))"
  by (simp add: read_sub_ids_def Let_def case_prod_unfold measured_intros)

lemma sub_id_probe_measured: "measured (new_host_observation ''context.subids'' env) (fst (sub_id_probe target env))"
  unfolding sub_id_probe_def Let_def case_prod_unfold fst_conv
  by (intro measured_payload(2) observe_helper_measured measured_intros read_sub_ids_measured measured_payload(1) measured.start)
    (simp_all add: helper_prefixes_def)

lemma linger_measured: "measured a (snd s) \<Longrightarrow> measured a (snd (read_linger env name s))"
  by (cases s) (simp add: read_linger_def Let_def measured_intros split: option.split sum.split)

lemma find_systemctl_measured: "measured a obs \<Longrightarrow> '''' \<notin> set names \<Longrightarrow> measured a (snd (find_systemctl env names obs))"
proof (induction names arbitrary: obs)
  case (Cons name names)
  then have "measured a (record_source name e obs)" for e by (intro measured_intros) auto
  then show ?case using Cons by (cases "hs_stat env 1 (tl name)") (simp_all add: Let_def)
qed simp

lemma user_manager_measured: "measured a (snd s) \<Longrightarrow> measured a (snd (query_user_manager env d s))"
proof (cases s)
  case (Pair state obs)
  assume "measured a (snd s)"
  obtain r obs1 where f: "find_systemctl env [''/usr/bin/systemctl'', ''/bin/systemctl''] obs = (r, obs1)" by fastforce
  then have "measured a obs1"
    using find_systemctl_measured [of a obs "[''/usr/bin/systemctl'', ''/bin/systemctl'']" env] \<open>measured a (snd s)\<close> Pair by simp
  then show ?thesis unfolding Pair query_user_manager_def prod.case f
    by (cases r) (simp_all add: Let_def measured_intros)
qed

lemma user_socket_measured: "measured a (snd s) \<Longrightarrow> measured a (snd (user_socket p env name s))"
  by (cases s) (auto simp: user_socket_def Let_def measured_intros user_manager_measured split: option.split sum.split)


text \<open>The one diagnostic that is appended without a check comes early, so it respects the bound as well.\<close>

lemma diagnostics_step:
  "length (ob_diagnostics (host_warning c obs)) \<le> Suc (length (ob_diagnostics obs))"
  "length (ob_diagnostics (finish_source e obs)) \<le> Suc (length (ob_diagnostics obs))"
  "length (ob_diagnostics (record_source s e obs)) \<le> Suc (length (ob_diagnostics obs))"
  by (simp_all add: host_warning_def finish_source_def record_source_def split: option.split)

lemma linger_diagnostics: "length (ob_diagnostics (snd (read_linger env name s))) \<le> length (ob_diagnostics (snd s)) + 2"
  using diagnostics_step(1) [of _ "snd (read_linger env name s)"] diagnostics_step
  by (cases s) (auto simp: read_linger_def Let_def intro: le_trans [OF diagnostics_step(1)] le_trans [OF diagnostics_step(2)]
      le_trans [OF diagnostics_step(3)] split: option.split sum.split)

lemma user_runtime_measured:
  assumes "measured a (snd s)" "length (ob_diagnostics (snd s)) \<le> 2"
  shows "measured a (snd (user_runtime p env s))"
proof -
  have room: "length (ob_diagnostics (record_source n e (snd s))) < maxHostDiagnostics" for n e
    using diagnostics_step(3) [of n e "snd s"] assms(2) by (simp add: maxHostDiagnostics_def)
  show ?thesis using assms(1) room
    by (cases s) (auto simp: user_runtime_def Let_def case_prod_unfold measured_intros user_socket_measured
        intro!: measured.noted split: option.split)
qed

lemma user_context_probe_measured: "measured (new_host_observation ''context.user'' env) (fst (user_context_probe p env))"
  unfolding user_context_probe_def Let_def case_prod_unfold fst_conv
proof (intro measured_payload(3) user_runtime_measured linger_measured)
  show "length (ob_diagnostics (snd (read_linger env (username (up_target p))
      (empty_user_context, new_host_observation ''context.user'' env\<lparr>ob_host := None\<rparr>)))) \<le> 2"
    using linger_diagnostics [of env "username (up_target p)" "(empty_user_context, new_host_observation ''context.user'' env\<lparr>ob_host := None\<rparr>)"]
    by simp
qed (simp add: measured_payload measured.start)

section \<open>Each probe records a source\<close>

lemma measured_nonempty: "measured b c \<Longrightarrow> ob_facts b \<noteq> [] \<Longrightarrow> ob_facts c \<noteq> []"
  using measured_facts_grow by fastforce

lemma recorded [simp]: "ob_facts (record_source s e b) \<noteq> []"
  by (simp del: record_source_fields)

lemma last_partial_empty [simp]: "last_partial fs = [] \<longleftrightarrow> fs = []"
  by (simp add: last_partial_def)

lemmas facts_kept = measured_nonempty [OF os_loop_measured [OF measured.start]] measured_nonempty [OF systemd_utility_measured [OF _ measured.start]]
  measured_nonempty [OF systemd_installed_measured [OF _ measured.start]] measured_nonempty [OF reconcile_measured [OF measured.start]]
  measured_nonempty [OF cgroup_fold_measured [OF measured.start]] measured_nonempty [OF memberships_measured [OF measured.start]]
  measured_nonempty [OF userns_measured [OF measured.start]] measured_nonempty [OF filesystem_fold_measured [OF measured.start]]
  measured_nonempty [OF sysctl_measured [OF measured.start]] measured_nonempty [OF resolver_loop_measured [OF measured.start]]
  measured_nonempty [OF observe_helper_measured [OF measured.start]] measured_nonempty [OF user_socket_measured [OF measured.start]]
  measured_nonempty [OF namespace_loop_measured [OF measured.start]] measured_nonempty [OF read_sub_ids_measured [OF measured.start]]

lemma systemd_directory_facts: "ob_facts (snd (systemd_directory env s)) \<noteq> []"
  by (cases s) (simp add: systemd_directory_def Let_def split: sum.split)

lemma security_facts: "ob_facts (snd (read_userns env s)) \<noteq> []"
  by (cases s) (simp add: read_userns_def Let_def case_prod_unfold split: option.split)

lemma namespace_facts: "ks \<noteq> [] \<Longrightarrow> ob_facts (snd (namespace_loop env n ks found obs)) \<noteq> []"
  by (cases ks) (auto simp: Let_def intro!: facts_kept split: option.split sum.split)

lemma user_runtime_facts: "ob_facts (snd (user_runtime p env s)) \<noteq> []"
  by (cases s) (simp add: user_runtime_def Let_def case_prod_unfold facts_kept split: option.split)

lemma helper_prefixes_text: "'''' \<notin> set helper_prefixes"
  by (simp add: helper_prefixes_def)

lemma probe_sources:
  "ob_facts (fst (os_probe env)) \<noteq> []" "ob_facts (fst (kernel_probe env)) \<noteq> []" "ob_facts (fst (systemd_probe env)) \<noteq> []"
  "ob_facts (fst (cgroup_probe env)) \<noteq> []" "ob_facts (fst (namespace_probe env)) \<noteq> []" "ob_facts (fst (security_probe env)) \<noteq> []"
  "ob_facts (fst (filesystem_probe env)) \<noteq> []" "ob_facts (fst (network_probe env)) \<noteq> []" "ob_facts (fst (resolver_probe env)) \<noteq> []"
  "ob_facts (fst (sub_id_probe target env)) \<noteq> []" "ob_facts (fst (user_context_probe p env)) \<noteq> []"
  unfolding os_probe_def kernel_probe_def systemd_probe_def cgroup_probe_def namespace_probe_def security_probe_def
    filesystem_probe_def network_probe_def resolver_probe_def sub_id_probe_def user_context_probe_def Let_def case_prod_unfold fst_conv
  by (simp_all add: facts_kept systemd_directory_facts security_facts namespace_facts namespace_kinds_def user_runtime_facts helper_prefixes_text
    del: observe_helper.simps systemd_utility.simps systemd_installed.simps namespace_loop.simps)

section \<open>Interpretations\<close>

interpretation os: host_probe "''host.os''" os_probe
  by unfold_locales (simp_all add: os_probe_measured probe_sources)

interpretation kernel: host_probe "''host.kernel''" kernel_probe
  by unfold_locales (simp_all add: kernel_probe_measured probe_sources)

interpretation systemd: host_probe "''host.systemd''" systemd_probe
  by unfold_locales (simp_all add: systemd_probe_measured probe_sources)

interpretation cgroups: host_probe "''host.cgroups''" cgroup_probe
  by unfold_locales (simp_all add: cgroup_probe_measured probe_sources)

interpretation namespaces: host_probe "''host.namespaces''" namespace_probe
  by unfold_locales (simp_all add: namespace_probe_measured probe_sources)

interpretation security: host_probe "''host.security''" security_probe
  by unfold_locales (simp_all add: security_probe_measured probe_sources)

interpretation filesystems: host_probe "''host.filesystems''" filesystem_probe
  by unfold_locales (simp_all add: filesystem_probe_measured probe_sources)

interpretation network: host_probe "''host.network''" network_probe
  by unfold_locales (simp_all add: network_probe_measured probe_sources)

interpretation resolver: host_probe "''host.resolver''" resolver_probe
  by unfold_locales (simp_all add: resolver_probe_measured probe_sources)

interpretation subids: host_probe "''context.subids''" "sub_id_probe target" for target
  by unfold_locales (simp_all add: sub_id_probe_measured probe_sources)

interpretation user_context: host_probe "''context.user''" "user_context_probe p" for p
  by unfold_locales (simp_all add: user_context_probe_measured probe_sources)

end
