(* ===== verification/Platform_Records_Laws.thy ===== *)
theory Platform_Records_Laws
  imports Platform_Records
begin

text \<open>
  Facts about \<open>Platform\_Records\<close>. A parse without an error is complete: it has read every record of the
  document. The escapes of mountinfo and the lines of \<open>/proc/self/cgroup\<close> are each described by their printer.
\<close>

section \<open>A parse without an error is complete\<close>

text \<open>The records a document has, without blank lines, as the parser of a record gets them.\<close>

definition document_records :: "string \<Rightarrow> string list" where
  "document_records data = map (dropWhile is_blank) (filter (\<lambda>l. trim_space l \<noteq> '''') (record_lines data))"

lemma incomplete_None [simp]: "incomplete e = None \<longleftrightarrow> e = None"
  by (auto simp: incomplete_def split: option.splits)

lemma problems_error_None [simp]: "problems_error source p = None \<longleftrightarrow> pp_diagnostics p = []"
  by (simp add: problems_error_def)

lemma add_problem_nonempty [simp]: "0 < limit \<Longrightarrow> pp_diagnostics (add_problem n e limit p) \<noteq> []"
  by (auto simp: add_problem_def Let_def)

lemma add_problem_bound: "length (pp_diagnostics p) \<le> limit \<Longrightarrow> length (pp_diagnostics (add_problem n e limit p)) \<le> limit"
  by (auto simp: add_problem_def Let_def)

text \<open>Once there is a problem or an error of the transport, it stays.\<close>

definition flawed :: "'a parsed \<Rightarrow> bool" where
  "flawed s \<longleftrightarrow> pp_diagnostics (pr_problems s) \<noteq> [] \<or> pr_read_error s \<noteq> None"

lemma flawed_problem [simp]:
  "0 < limit \<Longrightarrow> flawed (s\<lparr>pr_problems := add_problem n e limit p\<rparr>)"
  "flawed (s\<lparr>pr_read_error := errors_join [x, Some e']\<rparr>)" "flawed (s\<lparr>pr_out := xs\<rparr>) = flawed s"
  by (auto simp: flawed_def)

lemma record_loop_flawed:
  "0 < lim_diagnostics limits \<Longrightarrow> flawed s \<Longrightarrow> flawed (record_loop cx limits parse n lines s)"
  by (induction cx limits parse n lines s rule: record_loop.induct) (auto simp: Let_def split: option.splits sum.splits)

text \<open>The outcome of the loop when nothing is wrong with the rest of the document.\<close>

definition sound_lines :: "parser_limits \<Rightarrow> (string \<Rightarrow> go_error + 'a) \<Rightarrow> nat \<Rightarrow> string list \<Rightarrow> 'a list \<Rightarrow> bool" where
  "sound_lines limits parse k lines entries \<longleftrightarrow>
     (\<forall>l\<in>set lines. length l \<le> lim_line limits) \<and> k + length entries \<le> lim_records limits \<and>
     map parse (map (dropWhile is_blank) (filter (\<lambda>l. trim_space l \<noteq> '''') lines)) = map Inr entries"

lemma sound_lines_Nil [simp]: "sound_lines limits parse k [] entries \<longleftrightarrow> entries = [] \<and> k \<le> lim_records limits"
  by (auto simp: sound_lines_def)

lemma sound_lines_blank:
  "trim_space l = '''' \<Longrightarrow> sound_lines limits parse k (l # ls) entries \<longleftrightarrow> length l \<le> lim_line limits \<and> sound_lines limits parse k ls entries"
  by (auto simp: sound_lines_def)

lemma sound_lines_entry:
  "trim_space l \<noteq> '''' \<Longrightarrow> sound_lines limits parse k (l # ls) entries \<longleftrightarrow> length l \<le> lim_line limits \<and>
     (\<exists>e es. parse (dropWhile is_blank l) = Inr e \<and> entries = e # es \<and> sound_lines limits parse (Suc k) ls es)"
  by (auto simp: sound_lines_def Cons_eq_map_conv)

lemma record_loop_spec:
  assumes "0 < lim_diagnostics limits" "\<not> flawed s" "length (pr_out s) \<le> lim_records limits"
  shows "\<not> flawed (record_loop cx limits parse n lines s) \<and> pr_out (record_loop cx limits parse n lines s) = out \<longleftrightarrow>
    (\<exists>es. out = pr_out s @ es \<and> sound_lines limits parse (length (pr_out s)) lines es) \<and> (\<forall>i<length lines. cx (n + i) = None)"
  using assms
proof (induction lines arbitrary: n s)
  case (Cons l ls)
  let ?p = "\<lambda>e. s\<lparr>pr_problems := add_problem (Suc n) e (lim_diagnostics limits) (pr_problems s)\<rparr>"
  have flaw: "flawed (record_loop cx limits parse k ls (?p e))" for k e
    using Cons.prems by (intro record_loop_flawed) auto
  have shift: "(\<forall>i<length (l # ls). cx (n + i) = None) \<longleftrightarrow> cx n = None \<and> (\<forall>i<length ls. cx (Suc n + i) = None)"
    by (auto simp: less_Suc_eq_0_disj)
  show ?case
  proof (cases "cx n")
    case (Some e)
    then show ?thesis unfolding shift by (simp add: flawed_def)
  next
    case cx: None
    show ?thesis
    proof (cases "length l > lim_line limits")
      case True
      then have "\<not> sound_lines limits parse k (l # ls) es" for k es by (auto simp: sound_lines_def)
      then show ?thesis using True flaw by (simp add: cx Let_def)
    next
      case short: False
      show ?thesis
      proof (cases "trim_space l = ''''")
        case True
        then show ?thesis unfolding shift using short Cons.IH [OF Cons.prems, of "Suc n"] by (simp add: cx Let_def sound_lines_blank)
      next
        case filled: False
        show ?thesis
        proof (cases "parse (dropWhile is_blank l)")
          case (Inl e)
          then show ?thesis using short filled flaw by (simp add: cx Let_def sound_lines_entry)
        next
          case (Inr e)
          show ?thesis
          proof (cases "length (pr_out s) = lim_records limits")
            case True
            then have "\<not> sound_lines limits parse (Suc (length (pr_out s))) ls es" for es by (auto simp: sound_lines_def)
            then show ?thesis using short filled Inr True Cons.prems by (simp add: cx Let_def sound_lines_entry)
          next
            case False
            then have "length (pr_out (s\<lparr>pr_out := pr_out s @ [e]\<rparr>)) \<le> lim_records limits" using Cons.prems by simp
            from Cons.IH [OF Cons.prems(1) _ this, of "Suc n"] Cons.prems(2) show ?thesis
              unfolding shift using short filled Inr False by (auto simp: cx Let_def sound_lines_entry)
          qed
        qed
      qed
    qed
  qed
qed (auto simp: flawed_def)

definition within_limits :: "parser_limits \<Rightarrow> 'a parsed \<Rightarrow> bool" where
  "within_limits limits s \<longleftrightarrow>
     length (pr_out s) \<le> lim_records limits \<and> length (pp_diagnostics (pr_problems s)) \<le> lim_diagnostics limits"

lemma within_limits_steps [simp]:
  "within_limits limits s \<Longrightarrow> within_limits limits (s\<lparr>pr_problems := add_problem n e (lim_diagnostics limits) (pr_problems s)\<rparr>)"
  "within_limits limits s \<Longrightarrow> within_limits limits (s\<lparr>pr_read_error := x\<rparr>)"
  "within_limits limits s \<Longrightarrow> length (pr_out s) \<noteq> lim_records limits \<Longrightarrow> within_limits limits (s\<lparr>pr_out := pr_out s @ [y]\<rparr>)"
  by (simp_all add: within_limits_def add_problem_bound)

lemma record_loop_bounds: "within_limits limits s \<Longrightarrow> within_limits limits (record_loop cx limits parse n lines s)"
  by (induction lines arbitrary: n s) (simp_all add: Let_def split: option.split sum.split)

lemma parse_records_complete_iff:
  assumes "0 < lim_diagnostics limits"
  shows "parse_records cx data read_error source limits parse = (out, None) \<longleftrightarrow>
    read_error = None \<and> length data \<le> lim_input limits \<and> (\<forall>l\<in>set (record_lines data). length l \<le> lim_line limits) \<and>
    length out \<le> lim_records limits \<and> (\<forall>i\<le>length (record_lines data). cx i = None) \<and>
    map parse (document_records data) = map Inr out"
proof (cases "read_error = None \<and> length data \<le> lim_input limits")
  case False
  define s where "s = \<lparr>pr_out = [] :: 'a list, pr_problems = no_problems, pr_read_error = snd (bounded_input (lim_input limits) data read_error)\<rparr>"
  have bad: "snd (bounded_input (lim_input limits) data read_error) \<noteq> None" using False by (auto simp: bounded_input_def simp del: not_None_eq)
  then have "flawed s" by (simp add: s_def flawed_def)
  then have "flawed (record_loop cx limits parse 0 lines s)" for lines using assms by (rule record_loop_flawed [rotated])
  then have "snd (parse_records cx data read_error source limits parse) \<noteq> None"
    unfolding parse_records_def Let_def case_prod_unfold s_def [symmetric] snd_conv errors_join_None by (simp add: flawed_def)
  then show ?thesis using False by auto
next
  case True
  define s where "s = \<lparr>pr_out = [] :: 'a list, pr_problems = no_problems, pr_read_error = None\<rparr>"
  have input: "bounded_input (lim_input limits) data read_error = (data, None)" using True by (simp add: bounded_input_def)
  have upto: "(\<forall>i\<le>n. cx i = None) \<longleftrightarrow> (\<forall>i<n. cx (0 + i) = None) \<and> cx n = None" for n by (auto simp: le_less)
  have "\<not> flawed s" "length (pr_out s) \<le> lim_records limits" by (auto simp: s_def flawed_def no_problems_def)
  from record_loop_spec [OF assms this, of cx parse 0 "record_lines data" out]
  show ?thesis
    unfolding parse_records_def Let_def case_prod_unfold input fst_conv snd_conv s_def [symmetric] upto
    using True by (auto simp: flawed_def sound_lines_def document_records_def s_def)
qed

text \<open>
  C30: A parse of text records (mountinfo, filesystems, cgroup, protocols) returns no error exactly when the
  transport was clean, the document, its lines and its records are within the limits, the context was never
  cancelled, and the entries returned are the parses of all the records of the document, in order; so a
  partial result always carries an error.
\<close>
theorem parse_records_complete:
  assumes "0 < lim_diagnostics limits"
  shows "parse_records cx data read_error source limits parse = (out, None) \<longleftrightarrow>
    read_error = None \<and> length data \<le> lim_input limits \<and> (\<forall>l\<in>set (record_lines data). length l \<le> lim_line limits) \<and>
    length out \<le> lim_records limits \<and> (\<forall>i\<le>length (record_lines data). cx i = None) \<and>
    map parse (document_records data) = map Inr out"
  using assms by (rule parse_records_complete_iff)

definition digits_record :: "string \<Rightarrow> go_error + string" where
  "digits_record s = (if decimal_text s then Inr s else Inl ErrMalformed)"

definition small_limits :: parser_limits where
  "small_limits = \<lparr>lim_input = 9, lim_line = 3, lim_mount_line = 3, lim_records = 2, lim_diagnostics = 2\<rparr>"

lemma parse_records_complete_witness:
  "parse_records (\<lambda>_. None) (''12'' @ [newline, newline] @ ''34'') None ''source'' small_limits digits_record = ([''12'', ''34''], None)"
proof -
  let ?data = "''12'' @ [newline, newline] @ ''34''"
  have "record_lines ?data = [''12'', '''', ''34'']" "document_records ?data = [''12'', ''34'']" "map digits_record [''12'', ''34''] = map Inr [''12'', ''34'']"
    by code_simp+
  then show ?thesis by (subst parse_records_complete) (simp_all add: small_limits_def)
qed

text \<open>A parse never returns more records, and its error never keeps more diagnostics, than its limits allow,
  whatever the document and the transport are.
\<close>
lemma parse_records_bounds:
  "length (fst (parse_records cx data read_error source limits parse)) \<le> lim_records limits"
  unfolding parse_records_def Let_def case_prod_unfold fst_conv
  by (rule record_loop_bounds [unfolded within_limits_def, THEN conjunct1]) (simp add: no_problems_def)

section \<open>Escapes\<close>

text \<open>The printer of the kernel: blanks and the backslash become octal escapes.\<close>

definition escape_char :: "char \<Rightarrow> string" where
  "escape_char c = (case map_of (map (\<lambda>(e, x). (x, e)) mount_escapes) c of None \<Rightarrow> [c] | Some e \<Rightarrow> CHR 0x5C # e)"

definition encode_mount_path :: "string \<Rightarrow> string" where "encode_mount_path = concat \<circ> map escape_char"

lemma encode_simps [simp]: "encode_mount_path [] = []" "encode_mount_path (c # s) = escape_char c @ encode_mount_path s"
  by (simp_all add: encode_mount_path_def)

lemma escape_char_cases:
  "escape_char c = (if c = CHR '' '' then CHR 0x5C # ''040'' else if c = CHR 0x09 then CHR 0x5C # ''011''
    else if c = CHR 0x0A then CHR 0x5C # ''012'' else if c = CHR 0x5C then CHR 0x5C # ''134'' else [c])"
  by (simp add: escape_char_def mount_escapes_def)

lemma decode_escape [simp]:
  "decode_mount_path (escape_char c @ s) = (case decode_mount_path s of Inl e \<Rightarrow> Inl e | Inr t \<Rightarrow> Inr (c # t))"
  by (simp add: escape_char_cases mount_escapes_def split: sum.splits)

lemma decode_encode: "decode_mount_path (encode_mount_path t) = Inr t"
  by (induction t) simp_all

definition blank_chars :: "char set" where "blank_chars = {CHR '' '', CHR 0x09, CHR 0x0A}"

lemma map_of_escapes: "map_of mount_escapes e = Some x \<Longrightarrow> escape_char x = CHR 0x5C # e"
  by (auto simp: mount_escapes_def escape_char_cases split: if_splits)

lemma escape_plain: "c \<notin> blank_chars \<Longrightarrow> c \<noteq> CHR 0x5C \<Longrightarrow> escape_char c = [c]"
  by (simp add: escape_char_cases blank_chars_def)

lemma encode_decode: "set s \<inter> blank_chars = {} \<Longrightarrow> decode_mount_path s = Inr t \<Longrightarrow> s = encode_mount_path t"
proof (induction s arbitrary: t rule: decode_mount_path.induct)
  case (2 c s)
  show ?case
  proof (cases "c = CHR 0x5C")
    case False
    then show ?thesis using 2 by (auto simp: escape_plain split: sum.splits)
  next
    case True
    then obtain a b d rest x t' where "s = a # b # d # rest" "map_of mount_escapes [a, b, d] = Some x"
        "decode_mount_path rest = Inr t'" "t = x # t'"
      using "2.prems"(2) by (auto split: list.splits option.splits sum.splits)
    then show ?thesis using True "2.IH"(2) [of a "b # d # rest" b "d # rest" d rest x] "2.prems"(1) by (auto dest: map_of_escapes)
  qed
qed simp

text \<open>The fields of a line have no white space.\<close>

lemma is_space_prefix: "s \<noteq> [] \<Longrightarrow> space_prefix s = 0 \<Longrightarrow> \<not> is_space (hd s)"
  by (auto simp: space_prefix_def split: if_splits)

lemma text_fields_from_no_space:
  "x \<in> set (text_fields_from w s) \<Longrightarrow> (\<forall>c\<in>set w. \<not> is_space c) \<Longrightarrow> c \<in> set x \<Longrightarrow> \<not> is_space c"
proof (induction w s rule: text_fields_from.induct)
  case (1 w s)
  show ?case
  proof (cases "s = []")
    case True
    then show ?thesis using "1.prems" by (auto simp: text_fields_from.simps [of w "[]"] split: if_splits)
  next
    case ne: False
    show ?thesis
    proof (cases "space_prefix s = 0")
      case True
      then show ?thesis using 1 ne is_space_prefix [OF ne] by (auto simp: text_fields_from.simps [of w s])
    next
      case False
      then show ?thesis using 1 ne by (auto simp: text_fields_from.simps [of w s] split: if_splits)
    qed
  qed
qed

lemma blank_is_space: "c \<in> blank_chars \<Longrightarrow> is_space c"
  by (auto simp: blank_chars_def is_space_def)

lemma text_fields_no_blank: "x \<in> set (text_fields s) \<Longrightarrow> set x \<inter> blank_chars = {}"
  using text_fields_from_no_space [of x "[]" s] blank_is_space unfolding text_fields_def by fastforce

lemma parse_mount_line_fields:
  "parse_mount_line line = Inr m \<Longrightarrow> mt_point m \<in> set (text_fields line) \<and> mt_root m \<in> set (text_fields line)"
  by (cases "length (text_fields line) < 10") (auto simp: parse_mount_line_def Let_def split: if_splits option.splits)

text \<open>The mount point of an accepted line of mountinfo decodes to a path exactly when it is the kernel's
  escaped printing of that path: decoding is the inverse of the escaping, and every other raw field is refused.
\<close>
lemma mount_point_roundtrip:
  assumes "parse_mount_line line = Inr m"
  shows "decode_mount_path (mt_point m) = Inr p \<longleftrightarrow> mt_point m = encode_mount_path p"
  using encode_decode [OF text_fields_no_blank [OF parse_mount_line_fields [OF assms, THEN conjunct1]]] by (auto simp: decode_encode)


section \<open>Lines of the cgroup file\<close>

definition cgroup_line :: "cgroup_entry \<Rightarrow> string" where
  "cgroup_line e = ce_hierarchy e @ CHR '':'' # ce_controllers e @ CHR '':'' # ce_path e"

text \<open>The entries the format can express.\<close>

definition cgroup_entry_ok :: "cgroup_entry \<Rightarrow> bool" where
  "cgroup_entry_ok e \<longleftrightarrow> decimal_text (ce_hierarchy e) \<and> has_prefix (ce_path e) ''/'' \<and> CHR 0x00 \<notin> set (ce_path e) \<and>
     (ce_controllers e \<noteq> '''' \<longrightarrow> list_all valid_cgroup_controller (split_on CHR '','' (ce_controllers e)))"

lemma char_classes:
  "c \<in> {CHR '':'', CHR 0x00} \<Longrightarrow> \<not> is_digit c \<and> \<not> word_char c \<and> \<not> is_lower c"
  by (auto simp: is_digit_def is_lower_def is_upper_def word_char_def)

lemma decimal_text_plain: "decimal_text s \<Longrightarrow> CHR '':'' \<notin> set s \<and> CHR 0x00 \<notin> set s"
  using char_classes by (auto simp: decimal_text_def list_all_iff)

lemma controller_plain: "valid_cgroup_controller s \<Longrightarrow> CHR '':'' \<notin> set s \<and> CHR 0x00 \<notin> set s"
proof -
  assume s: "valid_cgroup_controller s"
  have chars: "\<forall>c\<in>set s. word_char c \<or> c \<in> set ''_.-=''"
  proof (cases "has_prefix s ''name=''")
    case True
    then obtain r where "s = ''name='' @ r" by (rule has_prefixE)
    moreover have "list_all (\<lambda>c. word_char c \<or> c \<in> set ''_.-'') (trim_prefix s ''name='')"
      using s unfolding valid_cgroup_controller_def if_P [OF True] by (rule conjunct2)
    ultimately have "\<forall>c\<in>set r. word_char c \<or> c \<in> set ''_.-=''" by (simp only: trim_prefix_append list_all_iff) auto
    moreover have "\<forall>c\<in>set ''name=''. word_char c \<or> c \<in> set ''_.-=''" by code_simp
    ultimately show ?thesis unfolding \<open>s = ''name='' @ r\<close> by (simp only: set_append ball_Un)
  next
    case False
    then have "list_all (\<lambda>d. is_lower d \<or> is_digit d \<or> d = CHR ''_'') s"
      using s by (auto simp: valid_cgroup_controller_def simple_identifier_def split: list.splits)
    then show ?thesis by (auto simp: list_all_iff word_char_def)
  qed
  show ?thesis using chars char_classes by fastforce
qed

lemma joined_chars: "x \<in> set (join_with [c] xs) \<Longrightarrow> x = c \<or> (\<exists>s\<in>set xs. x \<in> set s)"
  by (induction "[c]" xs rule: join_with.induct) auto

lemma controllers_plain:
  assumes "list_all valid_cgroup_controller (split_on CHR '','' cs)"
  shows "CHR '':'' \<notin> set cs \<and> CHR 0x00 \<notin> set cs"
proof -
  have "x \<in> set cs \<Longrightarrow> x = CHR '','' \<or> (\<exists>s\<in>set (split_on CHR '','' cs). x \<in> set s)" for x
    using joined_chars [of x "CHR '',''" "split_on CHR '','' cs"] by simp
  then show ?thesis using assms controller_plain unfolding list_all_iff by fastforce
qed

lemma split_three: "split_n c 3 s = [x, y, z] \<longleftrightarrow> s = x @ c # y @ c # z \<and> c \<notin> set x \<and> c \<notin> set y"
proof (cases "cut_at c s")
  case (Some r)
  obtain a b where s: "cut_at c s = Some (a, b)" using Some by (cases r) simp
  then have "s = x @ c # y @ c # z \<and> c \<notin> set x \<longleftrightarrow> a = x \<and> b = y @ c # z"
    using cut_at_Some [of c s x "y @ c # z"] by simp
  then have "s = x @ c # y @ c # z \<and> c \<notin> set x \<and> c \<notin> set y \<longleftrightarrow> a = x \<and> cut_at c b = Some (y, z)"
    by (simp add: cut_at_Some) blast
  then show ?thesis using s by (auto simp: numeral_3_eq_3 split: option.splits)
next
  case None
  then have "c \<notin> set s" by (simp add: cut_at_None)
  then show ?thesis using None by (auto simp: numeral_3_eq_3)
qed

lemma split_three_match:
  "(case split_n c 3 s of [x, y, z] \<Rightarrow> f x y z | _ \<Rightarrow> Inl err) = Inr e \<longleftrightarrow> (\<exists>x y z. split_n c 3 s = [x, y, z] \<and> f x y z = Inr e)"
  by (auto split: list.splits)

text \<open>
  C39: A line of the cgroup file is accepted with an entry exactly when it is the printing of that entry and
  the entry is one the format can express: a decimal hierarchy, valid controllers and an absolute path.
\<close>
theorem cgroup_line_roundtrip: "parse_cgroup_line line = Inr e \<longleftrightarrow> line = cgroup_line e \<and> cgroup_entry_ok e"
proof
  assume "parse_cgroup_line line = Inr e"
  then obtain h cs p where "split_n CHR '':'' 3 line = [h, cs, p]" "e = \<lparr>ce_hierarchy = h, ce_controllers = cs, ce_path = p\<rparr>"
      "decimal_text h" "has_prefix p ''/''" "CHR 0x00 \<notin> set line"
      "cs \<noteq> '''' \<longrightarrow> list_all valid_cgroup_controller (split_on CHR '','' cs)"
    unfolding parse_cgroup_line_def split_three_match by (auto simp: list_ex_iff list_all_iff split: if_splits)
  then show "line = cgroup_line e \<and> cgroup_entry_ok e" by (simp add: split_three cgroup_line_def cgroup_entry_ok_def)
next
  assume e: "line = cgroup_line e \<and> cgroup_entry_ok e"
  then have cs: "CHR '':'' \<notin> set (ce_controllers e) \<and> CHR 0x00 \<notin> set (ce_controllers e)"
    using controllers_plain by (cases "ce_controllers e = ''''") (auto simp: cgroup_entry_ok_def)
  have h: "CHR '':'' \<notin> set (ce_hierarchy e) \<and> CHR 0x00 \<notin> set (ce_hierarchy e)"
    using e decimal_text_plain by (simp add: cgroup_entry_ok_def)
  have "split_n CHR '':'' 3 line = [ce_hierarchy e, ce_controllers e, ce_path e]"
    using e h cs unfolding split_three by (simp add: cgroup_line_def)
  moreover have "CHR 0x00 \<notin> set line" using e h cs by (simp add: cgroup_line_def cgroup_entry_ok_def)
  ultimately show "parse_cgroup_line line = Inr e"
    using e by (auto simp: parse_cgroup_line_def cgroup_entry_ok_def list_ex_iff list_all_iff)
qed

section \<open>Controller lists\<close>

lemma controller_loop_inv:
  "distinct (pr_out s) \<and> list_all simple_identifier (pr_out s) \<and> length (pr_out s) \<le> 8192 \<Longrightarrow>
   s' = controller_loop cx n toks s \<Longrightarrow>
   distinct (pr_out s') \<and> list_all simple_identifier (pr_out s') \<and> length (pr_out s') \<le> 8192"
  by (induction toks arbitrary: n s) (simp_all add: Let_def split: option.splits if_splits)

lemma parse_controllers_spec:
  "distinct (fst (parse_controllers cx data err)) \<and> list_all simple_identifier (fst (parse_controllers cx data err)) \<and>
   length (fst (parse_controllers cx data err)) \<le> 8192"
  unfolding parse_controllers_def Let_def case_prod_unfold fst_conv by (rule controller_loop_inv [OF _ refl]) simp

end
