(* ===== verification/Host_Laws.thy ===== *)
theory Host_Laws
  imports Host_Probes Platform_Records_Laws
begin

text \<open>
  What the observations of the host probes mean: they form a dataset that the evidence graph accepts, and each verdict they
  hold is backed by what the platform answered.
\<close>

section \<open>The dataset of a host inspection\<close>

text \<open>The probes in the order of \<open>Probes\<close> (\<open>host/probes.go\<close>), followed by those of the execution context.\<close>

type_synonym probe_run = "host_services \<Rightarrow> observation \<times> go_error option"

definition host_probes :: "probe_run list" where
  "host_probes = [os_probe, kernel_probe, systemd_probe, cgroup_probe, namespace_probe, security_probe, filesystem_probe,
     network_probe, resolver_probe]"

definition inspection_probes :: "user_identity \<Rightarrow> user_probe \<Rightarrow> probe_run list" where
  "inspection_probes target p = host_probes @ [sub_id_probe target, user_context_probe p]"

definition inspection_names :: "string list" where
  "inspection_names = [''host.os'', ''host.kernel'', ''host.systemd'', ''host.cgroups'', ''host.namespaces'', ''host.security'',
     ''host.filesystems'', ''host.network'', ''host.resolver'', ''context.subids'', ''context.user'']"

text \<open>Each probe asks its own services at its own time.\<close>

definition inspect :: "user_identity \<Rightarrow> user_probe \<Rightarrow> host_services list \<Rightarrow> observation list" where
  "inspect target p envs = map2 (\<lambda>run env. fst (run env)) (inspection_probes target p) envs"

lemma inspection_probe:
  "run \<in> set (inspection_probes target p) \<Longrightarrow> \<exists>name. host_probe name run"
  by (auto simp: inspection_probes_def host_probes_def intro: os.host_probe_axioms kernel.host_probe_axioms
      systemd.host_probe_axioms cgroups.host_probe_axioms namespaces.host_probe_axioms security.host_probe_axioms
      filesystems.host_probe_axioms network.host_probe_axioms resolver.host_probe_axioms subids.host_probe_axioms
      user_context.host_probe_axioms)

lemma inspect_ids: "length envs = 11 \<Longrightarrow> map ob_id (inspect target p envs) = inspection_names"
  by (auto simp: inspect_def inspection_probes_def host_probes_def inspection_names_def length_Suc_conv eval_nat_numeral os.origin
      kernel.origin systemd.origin cgroups.origin namespaces.origin security.origin filesystems.origin network.origin
      resolver.origin subids.origin user_context.origin)

lemma inspect_member:
  assumes "obs \<in> set (inspect target p envs)"
  obtains name run env where "host_probe name run" "env \<in> set envs" "obs = fst (run env)"
proof -
  obtain run env where "(run, env) \<in> set (zip (inspection_probes target p) envs)" "obs = fst (run env)"
    using assms by (auto simp: inspect_def)
  then show thesis using inspection_probe that by (metis in_set_zipE)
qed

lemma measured_fact_ids:
  "\<forall>obs\<in>set os. wf_measurement obs \<Longrightarrow> distinct (map ob_id os) \<Longrightarrow> distinct (fact_ids os)"
proof (induction os)
  case (Cons ob os)
  have "f_id f \<noteq> f_id g" if h: "f \<in> set (ob_facts ob)" "x \<in> set os" "g \<in> set (ob_facts x)" for f g x
  proof -
    have "wf_measurement ob" "wf_measurement x" using Cons.prems(1) h(2) by simp_all
    then obtain m n where "f_id f = fact_number (ob_id ob) m" "f_id g = fact_number (ob_id x) n"
      using wf_fact_name h(1,3) by blast
    moreover have "ob_id ob \<noteq> ob_id x" using Cons.prems(2) h(2) by auto
    ultimately show ?thesis using fact_number_inj by metis
  qed
  then have "f_id ` set (ob_facts ob) \<inter> (\<Union>x\<in>set os. f_id ` set (ob_facts x)) = {}" by blast
  then show ?case using Cons wf_fact_ids by (simp add: fact_ids_def)
qed (simp add: fact_ids_def)

text \<open>
  C17: The observations of the eleven host and context probes, whatever the platform answers and at whatever times, form
  a dataset that the validation of the evidence graph accepts: facts carry distinct identities, the scope of the run and
  a time, and a complete observation rests on complete facts only. The one condition left is the number of facts.
\<close>
theorem inspection_accepted:
  assumes "length envs = 11" and "\<forall>env\<in>set envs. hs_scope env = sc \<and> hs_now env \<noteq> 0"
    and "scope_is_valid sc = None" and "context_ok c" and "ctx_id c = context_id sc"
    and "length (fact_ids (inspect target p envs)) \<le> MaxGraphEntries" and "run \<noteq> ''''" and "time \<noteq> 0"
  shows "validate_dataset \<lparr>ds_run_id = run, ds_at = time, ds_contexts = [c], ds_observations = inspect target p envs, ds_evidence = []\<rparr> = None"
proof -
  let ?obs = "inspect target p envs"
  have each: "observation_ok {ctx_id c} obs \<and> wf_measurement obs" if m: "obs \<in> set ?obs" for obs
  proof -
    obtain name run' env where r: "host_probe name run'" "env \<in> set envs" "obs = fst (run' env)" using m by (rule inspect_member)
    then show ?thesis using assms(2,3,5) host_probe.accepted [OF r(1), of env] host_probe.well_formed [OF r(1)] by simp
  qed
  have ids: "distinct (map ob_id ?obs)" unfolding inspect_ids [OF assms(1)] by (simp add: inspection_names_def)
  have "length ?obs \<le> 11" by (simp add: inspect_def inspection_probes_def host_probes_def)
  then show ?thesis unfolding validate_dataset_wf dataset_wf_def using assms each ids measured_fact_ids [of ?obs]
    by (auto simp: MaxGraphEntries_def evidence_rel_def reference_count_def MaxGraphReferences_def acyclic_def)
qed

text \<open>A platform on which every source is missing.\<close>

definition absent_stat :: "go_error + 'a" where "absent_stat = Inl ErrNotExist"

definition inspection_scope :: scope where
  "inspection_scope = \<lparr>run_id = ''r'', context_id = ''c'', sc_runtime = '''', sc_endpoint = ''''\<rparr>"

definition absent_services :: host_services where
  "absent_services = \<lparr>hs_scope = inspection_scope, hs_now = 7, hs_ctx = (\<lambda>_ _. None), hs_read = (\<lambda>_ _. ('''', Some ErrNotExist)),
     hs_readlink = (\<lambda>_. absent_stat), hs_stat = (\<lambda>_ _. absent_stat), hs_statfs = (\<lambda>_ _. absent_stat), hs_access = (\<lambda>_. absent_stat),
     hs_capabilities = (\<lambda>_. absent_stat), hs_uname = None, hs_no_new_privileges = None,
     hs_systemd_version = (\<lambda>_. \<lparr>er_exit = 1, er_stdout = '''', er_stdout_truncated = False, er_stderr_truncated = False,
       er_timed_out = False, er_output_incomplete = False, er_error = None, er_exited = None\<rparr>),
     hs_user_manager = (\<lambda>_ _. \<lparr>er_exit = 1, er_stdout = '''', er_stdout_truncated = False, er_stderr_truncated = False,
       er_timed_out = False, er_output_incomplete = False, er_error = None, er_exited = None\<rparr>)\<rparr>"

definition example_account :: user_identity where
  "example_account = \<lparr>uid = 7, gid = 7, username = ''u'', home_dir = '''', supplementary_groups = [], groups_known = False\<rparr>"

definition example_user_probe :: user_probe where
  "example_user_probe = \<lparr>up_target = example_account, up_runtime_directory = None, up_environment_error = None, up_active = False\<rparr>"

definition example_context :: evaluation_context where
  "example_context = \<lparr>ctx_id = ''c'', ctx_namespaces = [], ctx_host = \<lparr>hc_os = '''', hc_os_version = '''', hc_kernel = '''',
     hc_architecture = '''', hc_cgroup_version = '''', hc_systemd_active = None\<rparr>,
     ctx_identity = \<lparr>id_execution = None, id_selection = '''', id_current = Some example_account, id_target = None, id_is_rootless = None,
       id_sub_uid_ranges = [], id_sub_gid_ranges = [], id_xdg_runtime_dir = '''', id_has_user_systemd = None, id_in_container = None\<rparr>,
     ctx_runtime = \<lparr>rc_active_runtimes = [], rc_default_runtime = ''''\<rparr>, ctx_search_paths = []\<rparr>"

lemma empty_text [simp]: "text_lines [] = [[]]" "record_lines [] = []" "trim_space [] = []" "text_fields [] = []"
  by (simp_all add: text_lines_def record_lines_def text_fields_def text_fields_from.simps, code_simp)

lemmas absent_simps = absent_services_def absent_stat_def error_of_def missing_is_known_def is_error_def Let_def ErrNotExist_def
  last_partial_ids default_parser_limits_def host_lines_def limit_lines_def upto_last_newline_def parse_records_def bounded_input_def
  parse_controllers_def upto_last_space_def read_bool_sysctl_def no_problems_def problems_error_def

lemma absent_facts:
  "length (ob_facts (fst (os_probe absent_services))) = 1" "length (ob_facts (fst (kernel_probe absent_services))) = 1"
  "length (ob_facts (fst (systemd_probe absent_services))) = 6" "length (ob_facts (fst (cgroup_probe absent_services))) = 2"
  "length (ob_facts (fst (namespace_probe absent_services))) = 7" "length (ob_facts (fst (security_probe absent_services))) = 8"
  by (simp add: os_probe_def os_source_def absent_simps)
    (simp add: kernel_probe_def kernel_query_def absent_simps,
     simp add: systemd_probe_def systemd_running_def systemd_directory_def absent_simps,
     simp add: cgroup_probe_def read_mounts_def read_cgroups_def absent_simps,
     simp add: namespace_probe_def namespace_kinds_def measure_namespace_def absent_simps,
     simp add: security_probe_def read_lsms_def read_selinux_def read_apparmor_def apparmor_enabled_def read_status_def
       read_actions_def read_userns_def status_line_def empty_security_def absent_simps)

lemma absent_facts2:
  "length (ob_facts (fst (filesystem_probe absent_services))) = 1" "length (ob_facts (fst (network_probe absent_services))) = 3"
  "length (ob_facts (fst (resolver_probe absent_services))) = 1"
  "length (ob_facts (fst (sub_id_probe example_account absent_services))) = 9"
  by (simp add: filesystem_probe_def read_filesystems_def absent_simps)
    (simp add: network_probe_def read_protocols_def protocol_entries_def registered_def absent_simps,
     simp add: resolver_probe_def absent_simps,
     simp add: sub_id_probe_def read_sub_ids_def sub_id_provider_def new_helper_def helper_prefixes_def absent_simps)

lemma absent_user_facts: "length (ob_facts (fst (user_context_probe example_user_probe absent_services))) = 2"
proof -
  have "valid_runtime_path ''/run/user/7''" by code_simp
  moreover have "decimal_string 7 = ''7''" by code_simp
  moreover have "target_selector_is_valid ''user:u'' = None" by code_simp
  ultimately show ?thesis
    by (simp add: user_context_probe_def user_runtime_def read_linger_def example_user_probe_def example_account_def
      inspect_runtime_directory_def new_runtime_directory_def absent_simps)
qed

theorem inspection_accepted_witness:
  "validate_dataset \<lparr>ds_run_id = ''r'', ds_at = 9, ds_contexts = [example_context],
     ds_observations = inspect example_account example_user_probe (replicate 11 absent_services), ds_evidence = []\<rparr> = None"
proof (rule inspection_accepted)
  show "\<forall>env\<in>set (replicate 11 absent_services). hs_scope env = inspection_scope \<and> hs_now env \<noteq> 0" by (simp add: absent_services_def)
  show "scope_is_valid inspection_scope = None" by (simp add: scope_is_valid_def inspection_scope_def)
  show "context_ok example_context" 
    by (simp add: context_ok_def example_context_def identity_context_is_valid_def target_selector_is_valid_def
        user_identity_is_valid_def example_account_def sub_id_ranges_is_valid_def max_uint32_def MaxIdentityGroups_def)
  show "ctx_id example_context = context_id inspection_scope" by (simp add: example_context_def inspection_scope_def)
  have "length (fact_ids (inspect example_account example_user_probe (replicate 11 absent_services))) = 41"
    unfolding inspect_def fact_ids_def zip_replicate2 inspection_probes_def host_probes_def
    by (simp add: absent_facts absent_facts2 absent_user_facts)
  then show "length (fact_ids (inspect example_account example_user_probe (replicate 11 absent_services))) \<le> MaxGraphEntries"
    by (simp add: MaxGraphEntries_def)
qed simp_all

section \<open>The cgroup mode\<close>

text \<open>A mount whose file system the kernel reports to be of the type in the mount table.\<close>

definition cgroup_verified :: "host_services \<Rightarrow> mount_entry \<Rightarrow> bool" where
  "cgroup_verified env m \<longleftrightarrow> (\<exists>p n info. decode_mount_path (mt_point m) = Inr p \<and>
     hs_statfs env n (relative_host_path p) = Inr info \<and> fi_type info = cgroup_magic (mt_fs_type m))"

lemma cgroup_problem_err [simp]: "cn_err (cgroup_problem (Some e) s) = Some e" "cn_err (cgroup_problem err s) = err"
  by (simp_all add: cgroup_problem_def)

lemma safe_path_decoded: "safe_mount_path raw = Inr p \<Longrightarrow> decode_mount_path raw = Inr p"
  by (simp add: safe_mount_path_def split: sum.splits if_splits)

lemma cgroup_step_clean:
  assumes "cn_err (cgroup_mount_step env gs m s) = None" "is_cgroup m"
  shows "cgroup_verified env m \<and> cn_err s = None"
proof (cases "safe_mount_path (mt_point m)"; cases "safe_mount_path (mt_root m)")
  fix p root assume paths: "safe_mount_path (mt_point m) = Inr p" "safe_mount_path (mt_root m) = Inr root"
  let ?r = "hs_statfs env (facts_so_far (cn_obs s)) (relative_host_path p)"
  show ?thesis
  proof (cases ?r)
    case (Inl e)
    then show ?thesis using assms paths by (simp add: cgroup_mount_step_def Let_def errors_join_def)
  next
    case (Inr info)
    then have magic: "fi_type info = cgroup_magic (mt_fs_type m)"
      using assms paths by (simp add: cgroup_mount_step_def Let_def errors_join_def split: if_splits)
    moreover have "cn_err s = None" using assms paths Inr magic
      by (simp add: cgroup_mount_step_def Let_def case_prod_unfold split: if_splits)
    ultimately show ?thesis unfolding cgroup_verified_def using safe_path_decoded [OF paths(1)] Inr by blast
  qed
qed (use assms in \<open>simp_all add: cgroup_mount_step_def\<close>)

lemma cgroup_step_versions:
  assumes "cn_err (cgroup_mount_step env gs m s) = None"
  shows "cn_v1 (cgroup_mount_step env gs m s) = (cn_v1 s \<or> mt_fs_type m = ''cgroup'') \<and>
    cn_v2 (cgroup_mount_step env gs m s) = (cn_v2 s \<or> mt_fs_type m = ''cgroup2'')"
  using assms
  by (auto simp: cgroup_mount_step_def is_cgroup_def Let_def case_prod_unfold errors_join_def split: sum.splits if_splits)

lemma cgroup_step_skips: "\<not> is_cgroup m \<Longrightarrow> cgroup_mount_step env gs m s = s"
  by (simp add: cgroup_mount_step_def)

lemma cgroup_fold_clean:
  assumes "cn_err (fold (cgroup_mount_step env gs) ms s) = None"
  shows "cn_err s = None \<and> (\<forall>m\<in>set ms. is_cgroup m \<longrightarrow> cgroup_verified env m) \<and>
    cn_v1 (fold (cgroup_mount_step env gs) ms s) = (cn_v1 s \<or> (\<exists>m\<in>set ms. mt_fs_type m = ''cgroup'')) \<and>
    cn_v2 (fold (cgroup_mount_step env gs) ms s) = (cn_v2 s \<or> (\<exists>m\<in>set ms. mt_fs_type m = ''cgroup2''))"
  using assms
proof (induction ms arbitrary: s)
  case (Cons m ms)
  let ?s = "cgroup_mount_step env gs m s"
  have IH: "cn_err ?s = None" "\<forall>m\<in>set ms. is_cgroup m \<longrightarrow> cgroup_verified env m"
      "cn_v1 (fold (cgroup_mount_step env gs) ms ?s) = (cn_v1 ?s \<or> (\<exists>m\<in>set ms. mt_fs_type m = ''cgroup''))"
      "cn_v2 (fold (cgroup_mount_step env gs) ms ?s) = (cn_v2 ?s \<or> (\<exists>m\<in>set ms. mt_fs_type m = ''cgroup2''))"
    using Cons.IH [of ?s] Cons.prems by simp_all
  have "cn_err s = None \<and> (is_cgroup m \<longrightarrow> cgroup_verified env m)"
    using cgroup_step_clean [OF IH(1)] cgroup_step_skips [of m env gs s] IH(1) by (cases "is_cgroup m") simp_all
  then show ?case using IH cgroup_step_versions [OF IH(1)] by (simp add: disj_assoc)
qed simp

lemma reconcile_known:
  "fst (reconcile_memberships s gs st) \<noteq> ''unknown'' \<Longrightarrow> fst (reconcile_memberships s gs st) = fst st \<and>
   (\<forall>g\<in>set gs. (is_unified g \<longrightarrow> cn_v2 s) \<and> (\<not> is_unified g \<longrightarrow> cn_v1 s))"
proof (induction gs arbitrary: st)
  case (Cons g gs)
  obtain mode obs where st: "st = (mode, obs)" by (cases st)
  show ?case
  proof (cases "is_unified g \<and> \<not> cn_v2 s \<or> \<not> is_unified g \<and> \<not> cn_v1 s")
    case True
    then have "reconcile_memberships s (g # gs) st = reconcile_memberships s gs (''unknown'', finish_source (Some ErrIncomplete) obs)"
      by (simp add: st)
    with Cons show ?thesis by (metis fst_conv)
  next
    case False
    then show ?thesis using Cons.IH [of st] Cons.prems by (auto simp: st)
  qed
qed simp

definition mount_types :: "host_services \<Rightarrow> string set" where
  "mount_types env = mt_fs_type ` set (fst (read_mounts env))"

lemma mount_types_iff: "t \<in> mount_types env \<longleftrightarrow> (\<exists>m\<in>set (fst (read_mounts env)). mt_fs_type m = t)"
  by (auto simp: mount_types_def)

lemma cgroup_mode_known:
  assumes "ob_host (fst (cgroup_probe env)) = Some h" "ho_cgroups h = Some cg" "cg_mode cg \<noteq> ''unknown''"
  shows "snd (read_mounts env) = None \<and> (\<forall>m\<in>set (fst (read_mounts env)). is_cgroup m \<longrightarrow> cgroup_verified env m) \<and>
    (\<forall>g\<in>set (fst (read_cgroups env)). (if is_unified g then ''cgroup2'' else ''cgroup'') \<in> mount_types env) \<and>
    cg_mode cg = (if ''cgroup'' \<in> mount_types env then (if ''cgroup2'' \<in> mount_types env then ''mixed'' else ''v1'')
      else if ''cgroup2'' \<in> mount_types env then ''v2'' else ''unavailable'')"
proof -
  obtain s obs where s: "s = fold (cgroup_mount_step env (fst (read_cgroups env))) (fst (read_mounts env))
      \<lparr>cn_obs = obs, cn_mounts = [], cn_v1 = False, cn_v2 = False, cn_err = snd (read_mounts env)\<rparr>"
    and mode: "cg_mode cg = fst (reconcile_memberships s (fst (read_cgroups env)) (cgroup_topology s, cn_obs s))"
    using assms(1,2) by (auto simp: cgroup_probe_def Let_def case_prod_unfold)
  from reconcile_known [of s "fst (read_cgroups env)" "(cgroup_topology s, cn_obs s)"] assms(3) mode
  have top: "cg_mode cg = cgroup_topology s"
      "\<forall>g\<in>set (fst (read_cgroups env)). (is_unified g \<longrightarrow> cn_v2 s) \<and> (\<not> is_unified g \<longrightarrow> cn_v1 s)"
    by simp_all
  then have "cn_err s = None" using assms(3) unfolding cgroup_topology_def by presburger
  from cgroup_fold_clean [OF this [unfolded s]] have clean: "snd (read_mounts env) = None"
      "\<forall>m\<in>set (fst (read_mounts env)). is_cgroup m \<longrightarrow> cgroup_verified env m"
      "cn_v1 s \<longleftrightarrow> ''cgroup'' \<in> mount_types env" "cn_v2 s \<longleftrightarrow> ''cgroup2'' \<in> mount_types env"
    unfolding s [symmetric] mount_types_iff by simp_all
  then show ?thesis using top \<open>cn_err s = None\<close> by (auto simp: cgroup_topology_def split: if_splits)
qed

section \<open>Registered file systems\<close>

lemma filesystem_fold:
  "fc_err (fold filesystem_step es s) = None \<Longrightarrow> fc_err s = None \<and> fc_names (fold filesystem_step es s) = fc_names s @ map fst es"
proof (induction es arbitrary: s)
  case (Cons e es)
  have "fc_err (filesystem_step e s) = None \<Longrightarrow> fc_err s = None \<and> fc_names (filesystem_step e s) = fc_names s @ [fst e]"
    by (auto simp: filesystem_step_def case_prod_unfold split: if_splits)
  then show ?case using Cons.IH [of "filesystem_step e s"] Cons.prems by simp
qed simp

text \<open>
  C19: The file system probe says that overlay (or FUSE) is not registered only after a complete and clean reading of
  \<open>/proc/filesystems\<close>: the file was read without error within its limits, every record of it was parsed, and none of
  them names that file system. An incomplete reading leaves the verdict open.
\<close>
theorem unregistered_is_measured:
  assumes "ob_host (fst (filesystem_probe env)) = Some h" and "ho_filesystems h = Some state"
    and "name = ''overlay'' \<and> fo_overlay_registered state = Some False \<or> name = ''fuse'' \<and> fo_fuse_registered state = Some False"
  shows "\<exists>data entries. hs_read env 0 ''proc/filesystems'' = (data, None) \<and>
    map parse_filesystem_line (document_records data) = map Inr entries \<and> name \<notin> fst ` set entries"
proof -
  obtain s obs where s: "s = fold filesystem_step (fst (read_filesystems env))
      \<lparr>fc_obs = obs, fc_names = [], fc_registered = [], fc_err = snd (read_filesystems env)\<rparr>"
    and "fo_overlay_registered state = registered (fc_names s) ''overlay'' (fc_err s)"
      "fo_fuse_registered state = registered (fc_names s) ''fuse'' (fc_err s)"
    using assms(1,2) by (auto simp: filesystem_probe_def Let_def case_prod_unfold)
  then have s': "fc_err s = None" "name \<notin> set (fc_names s)" using assms(3) by (auto simp: registered_def split: if_splits)
  from filesystem_fold [OF s'(1) [unfolded s]] have names: "fc_names s = map fst (fst (read_filesystems env))"
    and err: "snd (read_filesystems env) = None" unfolding s [symmetric] by simp_all
  obtain data e where read: "hs_read env 0 ''proc/filesystems'' = (data, e)" by fastforce
  have "parse_records (hs_ctx env ''filesystems'') data e ''filesystems'' default_parser_limits parse_filesystem_line =
      (fst (read_filesystems env), None)"
    using err by (simp add: read_filesystems_def read prod_eq_iff)
  moreover have "0 < lim_diagnostics default_parser_limits" by (simp add: default_parser_limits_def)
  ultimately have "e = None" "map parse_filesystem_line (document_records data) = map Inr (fst (read_filesystems env))"
    by (simp_all add: parse_records_complete_iff)
  then show ?thesis using read s'(2) names by auto
qed

definition filesystems_text :: string where "filesystems_text = ''nodev sysfs'' @ [newline]"

definition filesystem_services :: host_services where
  "filesystem_services = absent_services\<lparr>hs_read := (\<lambda>_ p. if p = ''proc/filesystems'' then (filesystems_text, None) else ('''', Some ErrNotExist))\<rparr>"

theorem unregistered_is_measured_witness:
  "\<exists>data entries. hs_read filesystem_services 0 ''proc/filesystems'' = (data, None) \<and>
    map parse_filesystem_line (document_records data) = map Inr entries \<and> ''fuse'' \<notin> fst ` set entries"
proof -
  have txts: "record_lines filesystems_text = [''nodev sysfs'']" "document_records filesystems_text = [''nodev sysfs'']"
      "parse_filesystem_line ''nodev sysfs'' = Inr (''sysfs'', True)" "valid_host_text ''sysfs''"
    by code_simp+
  have len: "length filesystems_text = 12" by (simp add: filesystems_text_def)
  have ctx: "hs_ctx filesystem_services s n = None" for s n by (simp add: filesystem_services_def absent_services_def)
  have "parse_records (hs_ctx filesystem_services ''filesystems'') filesystems_text None ''filesystems'' default_parser_limits
      parse_filesystem_line = ([(''sysfs'', True)], None)"
    by (subst parse_records_complete_iff) (simp_all add: txts ctx len default_parser_limits_def)
  then have "read_filesystems filesystem_services = ([(''sysfs'', True)], None)"
    by (simp add: read_filesystems_def filesystem_services_def)
  then have host: "ob_host (fst (filesystem_probe filesystem_services)) = Some (empty_host\<lparr>ho_filesystems := Some
      \<lparr>fo_registered = [\<lparr>fr_name = ''sysfs'', fr_nodev = True\<rparr>], fo_overlay_registered = Some False, fo_fuse_registered = Some False\<rparr>\<rparr>)"
    by (simp add: filesystem_probe_def filesystem_step_def registered_def txts(4))
  show ?thesis by (rule unregistered_is_measured [OF host], simp, simp)
qed

end
