(* ===== verification/Host_Verdicts.thy ===== *)
theory Host_Verdicts
  imports Host_Laws Catalog
begin

text \<open>
  From the platform to the catalog: the evidence that the catalog derives from the observations of the host probes
  rests on what the kernel answered.
\<close>

lemma cgroup_v2_supported_mode: "cgroup_v2_state mode = StateSupported \<longleftrightarrow> mode = ''v2''"
  by (simp add: cgroup_v2_state_def)

section \<open>A complete observation\<close>

lemma controller_file_complete: "ob_completeness (snd (controller_file env source obs)) = Complete \<Longrightarrow> ob_completeness obs = Complete"
  by (auto simp: controller_file_def case_prod_unfold Let_def split: if_splits)

text \<open>The probe is complete only with the controllers of a group of the process below the mount.\<close>

lemma current_controllers_complete:
  "ob_completeness (snd (current_controllers env gs m obs)) = Complete \<Longrightarrow> ob_completeness obs = Complete \<and> (\<exists>g\<in>set gs. is_unified g)"
proof (induction gs)
  case (Cons g gs)
  show ?case
  proof (cases "is_unified g")
    case True
    then have "ob_completeness obs = Complete"
      using Cons.prems Cons.IH
      by (auto simp: Let_def case_prod_unfold split: if_splits option.splits dest!: controller_file_complete)
    then show ?thesis using True by auto
  qed (use Cons in auto)
qed simp

lemma cgroup_step_complete:
  assumes "ob_completeness (cn_obs (cgroup_mount_step env gs m s)) = Complete"
  shows "ob_completeness (cn_obs s) = Complete \<and> (mt_fs_type m = ''cgroup2'' \<longrightarrow> (\<exists>g\<in>set gs. is_unified g))"
  using assms
  by (auto simp: cgroup_mount_step_def cgroup_problem_def is_cgroup_def errors_join_def Let_def case_prod_unfold
      split: if_splits sum.splits dest!: current_controllers_complete)

lemma cgroup_fold_complete:
  "ob_completeness (cn_obs (fold (cgroup_mount_step env gs) ms s)) = Complete \<Longrightarrow>
   ob_completeness (cn_obs s) = Complete \<and> (\<forall>m\<in>set ms. mt_fs_type m = ''cgroup2'' \<longrightarrow> (\<exists>g\<in>set gs. is_unified g))"
proof (induction ms arbitrary: s)
  case (Cons m ms)
  then have "ob_completeness (cn_obs (cgroup_mount_step env gs m s)) = Complete"
    and "\<forall>m\<in>set ms. mt_fs_type m = ''cgroup2'' \<longrightarrow> (\<exists>g\<in>set gs. is_unified g)" by auto
  then show ?case using cgroup_step_complete by (metis set_ConsD)
qed simp

lemma reconcile_complete: "ob_completeness (snd (reconcile_memberships s gs st)) = Complete \<Longrightarrow> ob_completeness (snd st) = Complete"
proof (induction gs arbitrary: st)
  case (Cons g gs)
  obtain mode obs where st: "st = (mode, obs)" by (cases st)
  show ?case using Cons.prems Cons.IH [of "(''unknown'', finish_source (Some ErrIncomplete) obs)"] Cons.IH [of "(mode, obs)"]
    by (auto simp: st split: if_splits)
qed simp

lemma memberships_complete: "ob_completeness (snd (memberships_loop gs ms obs)) = Complete \<Longrightarrow> ob_completeness obs = Complete"
proof (induction gs ms obs rule: memberships_loop.induct)
  case (2 g gs ms obs)
  then show ?case by (cases "valid_host_text (ce_path g)") auto
qed simp

lemma cgroup_probe_complete:
  assumes "ob_completeness (fst (cgroup_probe env)) = Complete"
  shows "snd (read_cgroups env) = None \<and> (''cgroup2'' \<in> mount_types env \<longrightarrow> (\<exists>g\<in>set (fst (read_cgroups env)). is_unified g))"
proof -
  define obs2 where "obs2 = record_source ''proc/self/cgroup'' (snd (read_cgroups env))
      (record_source ''proc/self/mountinfo'' (snd (read_mounts env)) (new_host_observation ''host.cgroups'' env))"
  define s where "s = fold (cgroup_mount_step env (fst (read_cgroups env))) (fst (read_mounts env))
      \<lparr>cn_obs = snd (memberships_loop (fst (read_cgroups env)) [] obs2), cn_mounts = [], cn_v1 = False, cn_v2 = False,
       cn_err = snd (read_mounts env)\<rparr>"
  have "ob_completeness (snd (reconcile_memberships s (fst (read_cgroups env)) (cgroup_topology s, cn_obs s))) = Complete"
    using assms by (simp add: cgroup_probe_def Let_def case_prod_unfold s_def obs2_def)
  then have "ob_completeness (cn_obs s) = Complete" using reconcile_complete by fastforce
  then have "ob_completeness obs2 = Complete"
    and unified: "\<forall>m\<in>set (fst (read_mounts env)). mt_fs_type m = ''cgroup2'' \<longrightarrow> (\<exists>g\<in>set (fst (read_cgroups env)). is_unified g)"
    unfolding s_def using cgroup_fold_complete memberships_complete by fastforce+
  then have "snd (read_cgroups env) = None" by (auto simp: obs2_def split: if_splits)
  then show ?thesis using unified by (auto simp: mount_types_iff)
qed

text \<open>
  C18: When the catalog derives from the cgroup probe that the unified hierarchy is supported, the mount table was read
  completely, it has a mount of type cgroup2 and none of type cgroup, the kernel confirmed by \<open>statfs\<close> the file system
  of every such mount, and every membership of the process that was read is one of the unified hierarchy. If the
  evidence is complete, as the resolver requires it to be, then the memberships were read without error and there is
  one; evidence from an unreadable or empty table of memberships is never complete.
\<close>
theorem cgroup_v2_supported:
  assumes "ev \<in> set (cgroup_v2_evidence s [fst (cgroup_probe env)])" and "ev_state ev = StateSupported"
  shows "snd (read_mounts env) = None \<and> ''cgroup2'' \<in> mount_types env \<and> ''cgroup'' \<notin> mount_types env \<and>
    (\<forall>m\<in>set (fst (read_mounts env)). mt_fs_type m = ''cgroup2'' \<longrightarrow> cgroup_verified env m) \<and>
    (\<forall>g\<in>set (fst (read_cgroups env)). is_unified g) \<and>
    (ev_completeness ev = Complete \<longrightarrow> snd (read_cgroups env) = None \<and> fst (read_cgroups env) \<noteq> [])"
proof -
  have "ob_podman (fst (cgroup_probe env)) = None" using cgroups.no_foreign_payloads [of env] by (simp add: foreign_payloads_def)
  moreover obtain h cg where h: "ob_host (fst (cgroup_probe env)) = Some h" "ho_cgroups h = Some cg"
    by (auto simp: cgroup_probe_def Let_def case_prod_unfold)
  ultimately have ev: "ev = prerequisite_evidence (fst (cgroup_probe env)) PodmanCgroupV2ID (cgroup_v2_state (cg_mode cg))
      ''live cgroup hierarchy; controller delegation and workload execution remain unverified''"
    using assms(1) by (simp add: cgroup_v2_evidence_def split: if_splits)
  then have "cgroup_v2_state (cg_mode cg) = StateSupported"
    using assms(2) by (simp add: prerequisite_evidence_def runtime_evidence_def)
  then have mode: "cg_mode cg = ''v2''" by (simp add: cgroup_v2_supported_mode)
  then have "cg_mode cg \<noteq> ''unknown''" by simp
  note known = cgroup_mode_known [OF h this]
  have "''cgroup2'' \<in> mount_types env" "''cgroup'' \<notin> mount_types env" using known mode by (auto split: if_splits)
  moreover have "ev_completeness ev = Complete \<longrightarrow> ob_completeness (fst (cgroup_probe env)) = Complete"
    by (simp add: ev prerequisite_evidence_def runtime_evidence_def)
  ultimately show ?thesis using known cgroup_probe_complete [of env] by (auto simp: is_cgroup_def split: if_splits)
qed

section \<open>A host with the unified hierarchy\<close>

definition unified_mounts :: string where "unified_mounts = ''30 23 0:26 / /sys/fs/cgroup rw - cgroup2 cgroup2 rw'' @ [newline]"
definition unified_groups :: string where "unified_groups = ''0::/'' @ [newline]"

definition unified_services :: host_services where
  "unified_services = absent_services\<lparr>hs_scope := \<lparr>run_id = ''r'', context_id = ''c'', sc_runtime = ''podman'', sc_endpoint = ''local''\<rparr>,
     hs_read := (\<lambda>_ p. if p = ''proc/self/mountinfo'' then (unified_mounts, None)
       else if p = ''proc/self/cgroup'' then (unified_groups, None) else (''cpu'', None)),
     hs_statfs := (\<lambda>_ p. Inr \<lparr>fi_type = 0x63677270, fi_nosuid = False, fi_noexec = False, fi_flags_known = True\<rparr>)\<rparr>"

definition unified_mount :: mount_entry where
  "unified_mount = \<lparr>mt_id = ''30'', mt_parent = ''23'', mt_major_minor = ''0:26'', mt_root = ''/'', mt_point = ''/sys/fs/cgroup'',
     mt_options = ''rw'', mt_optional = [], mt_fs_type = ''cgroup2'', mt_source = ''cgroup2'', mt_super = ''rw''\<rparr>"

lemma unified_context [simp]: "hs_ctx unified_services s n = None"
  by (simp add: unified_services_def absent_services_def)

lemma unified_read_mounts: "read_mounts unified_services = ([unified_mount], None)"
proof -
  have lines: "record_lines unified_mounts = [''30 23 0:26 / /sys/fs/cgroup rw - cgroup2 cgroup2 rw'']"
      "document_records unified_mounts = [''30 23 0:26 / /sys/fs/cgroup rw - cgroup2 cgroup2 rw'']"
      "parse_mount_line ''30 23 0:26 / /sys/fs/cgroup rw - cgroup2 cgroup2 rw'' = Inr unified_mount" "length unified_mounts = 52"
    by code_simp+
  have "parse_records (hs_ctx unified_services ''mountinfo'') unified_mounts None ''mountinfo''
      (default_parser_limits\<lparr>lim_line := lim_mount_line default_parser_limits\<rparr>) parse_mount_line = ([unified_mount], None)"
    by (subst parse_records_complete_iff) (simp_all add: lines default_parser_limits_def)
  then show ?thesis by (simp add: read_mounts_def unified_services_def Let_def)
qed

lemma unified_read_cgroups:
  "read_cgroups unified_services = ([\<lparr>ce_hierarchy = ''0'', ce_controllers = '''', ce_path = ''/''\<rparr>], None)"
proof -
  have lines: "record_lines unified_groups = [''0::/'']" "document_records unified_groups = [''0::/'']"
      "parse_cgroup_line ''0::/'' = Inr \<lparr>ce_hierarchy = ''0'', ce_controllers = '''', ce_path = ''/''\<rparr>" "length unified_groups = 5"
    by code_simp+
  have "parse_records (hs_ctx unified_services ''cgroup'') unified_groups None ''cgroup'' default_parser_limits parse_cgroup_line =
      ([\<lparr>ce_hierarchy = ''0'', ce_controllers = '''', ce_path = ''/''\<rparr>], None)"
    by (subst parse_records_complete_iff) (simp_all add: lines default_parser_limits_def)
  then show ?thesis by (simp add: read_cgroups_def unified_services_def)
qed

lemma unified_mode:
  "\<exists>h cg. ob_host (fst (cgroup_probe unified_services)) = Some h \<and> ho_cgroups h = Some cg \<and> cg_mode cg = ''v2''"
proof -
  have paths: "safe_mount_path ''/sys/fs/cgroup'' = Inr ''/sys/fs/cgroup''" "safe_mount_path ''/'' = Inr ''/''" "valid_host_text ''/''"
    by code_simp+
  have statfs: "hs_statfs unified_services n p = Inr \<lparr>fi_type = 0x63677270, fi_nosuid = False, fi_noexec = False, fi_flags_known = True\<rparr>" for n p
    by (simp add: unified_services_def)
  show ?thesis
    by (simp add: cgroup_probe_def unified_read_mounts unified_read_cgroups cgroup_mount_step_def is_cgroup_def unified_mount_def paths
        statfs cgroup_magic_def Let_def case_prod_unfold cgroup_topology_def is_unified_def)
qed

theorem cgroup_v2_supported_witness: "''cgroup'' \<notin> mount_types unified_services \<and> ''cgroup2'' \<in> mount_types unified_services \<and>
   list_all is_unified (fst (read_cgroups unified_services)) \<and> snd (read_mounts unified_services) = None"
proof -
  let ?s = "\<lparr>run_id = ''r'', context_id = ''c'', sc_runtime = ''podman'', sc_endpoint = ''local''\<rparr>" and ?obs = "fst (cgroup_probe unified_services)"
  obtain h cg where h: "ob_host ?obs = Some h" "ho_cgroups h = Some cg" "cg_mode cg = ''v2''" using unified_mode by blast
  have "ob_scope ?obs = ?s" by (simp add: cgroups.origin unified_services_def)
  then have "prerequisite_evidence ?obs PodmanCgroupV2ID StateSupported ''live cgroup hierarchy; controller delegation and workload execution remain unverified''
      \<in> set (cgroup_v2_evidence ?s [?obs])"
    using h by (simp add: cgroup_v2_evidence_def local_podman_def cgroup_v2_state_def)
  from cgroup_v2_supported [OF this] show ?thesis by (simp add: prerequisite_evidence_def runtime_evidence_def list_all_iff)
qed

end
