(* ===== verification/Host_Formats.thy ===== *)
theory Host_Formats
  imports Host_Context
begin

text \<open>
  The formats that the host probes read, each described by its printer: values of \<open>os-release\<close>, kernel releases and the
  extended attribute of file capabilities.
\<close>

section \<open>Values of os-release\<close>

text \<open>A value in double quotes, as a shell prints it.\<close>

definition shell_escape :: "char \<Rightarrow> string" where
  "shell_escape c = (if c \<in> {CHR 0x5C, CHR 0x22, CHR ''$'', CHR 0x60} then [CHR 0x5C, c] else [c])"

definition shell_quote :: "string \<Rightarrow> string" where
  "shell_quote v = CHR 0x22 # concat (map shell_escape v) @ [CHR 0x22]"

lemma assignment_loop_quoted:
  "assignment_loop (Some CHR 0x22) acc (concat (map shell_escape v) @ CHR 0x22 # t) = Some (acc @ v, ends_cleanly t)"
  by (induction v arbitrary: acc) (auto simp: shell_escape_def)

lemma space_prefix_quote: "space_prefix (CHR 0x22 # s) = 0"
  by (auto simp: space_prefix_def is_space_def bytes_of_def wide_space_def)

lemma wide_space_last: "wide_space b \<Longrightarrow> 128 \<le> last b"
  by (auto simp: wide_space_def numeral_3_eq_3 length_Suc_conv)

lemma space_suffix_quote: "space_suffix (s @ [CHR 0x22]) = 0"
proof -
  have "last (bytes_of (drop (length (s @ [CHR 0x22]) - n) (s @ [CHR 0x22]))) = 34" if "0 < n" for n
    using that by (simp add: bytes_of_def)
  from this [of 2] this [of 3] have "bytes_of (drop (length (s @ [CHR 0x22]) - 2) (s @ [CHR 0x22])) \<notin> {[194, 133], [194, 160]}"
      "\<not> wide_space (bytes_of (drop (length (s @ [CHR 0x22]) - 3) (s @ [CHR 0x22])))"
    by (fastforce, fastforce dest: wide_space_last)
  then show ?thesis by (simp add: space_suffix_def is_space_def)
qed

lemma trim_space_quoted: "trim_space (CHR 0x22 # s @ [CHR 0x22]) = CHR 0x22 # s @ [CHR 0x22]"
  using space_suffix_quote [of "CHR 0x22 # s"]
  by (simp add: trim_space_def trim_left_space.simps [of "CHR 0x22 # s @ [CHR 0x22]"] space_prefix_quote
      trim_right_space.simps [of "CHR 0x22 # s @ [CHR 0x22]"])

lemma ends_cleanly_Nil: "ends_cleanly ''''"
  by code_simp

text \<open>Reading a value of \<open>os-release\<close> undoes the shell's quoting: any text that is printed in double quotes with its
  special characters escaped is read back as it was, and accepted exactly when it is valid host text.
\<close>
lemma assignment_roundtrip: "assignment_value (shell_quote v) = (v, valid_host_text v)"
  using assignment_loop_quoted [of "[]" v "[]"] trim_space_quoted [of "concat (map shell_escape v)"]
  by (simp add: assignment_value_def shell_quote_def ends_cleanly_Nil)

section \<open>Kernel releases\<close>

definition release_text :: "kernel_version \<Rightarrow> string \<Rightarrow> string" where
  "release_text k tail = decimal_string (unat (k_major k)) @ ''.'' @ decimal_string (unat (k_minor k)) @ ''.'' @
     decimal_string (unat (k_patch k)) @ tail"

lemma decimal_string_ok: "decimal_string n \<noteq> '''' \<and> list_all is_digit (decimal_string n)"
  using decimal_string_digits [of _ n] by (auto simp: list_all_iff decimal_string.simps [of n])

lemma digits_then:
  assumes "t = '''' \<or> \<not> is_digit (hd t)"
  shows "takeWhile is_digit (decimal_string n @ t) = decimal_string n" "dropWhile is_digit (decimal_string n @ t) = t"
  using assms decimal_string_digits [of _ n] by (cases t; auto simp: takeWhile_append dropWhile_append)+

lemma parse_uint_decimal: "parse_uint 32 (decimal_string (unat w)) = Some (unat w)" for w :: "32 word"
  using decimal_string_ok [of "unat w"] unsigned_less [of w] by (simp add: parse_uint_def decimal_value_string)

text \<open>The kernel version is read back from every release string that prints it: the three decimal numbers, whatever
  their size in 32 bits, followed by any one-line suffix that does not begin with a digit.
\<close>
lemma kernel_version_roundtrip:
  assumes "one_line_tail (\<lambda>c. \<not> is_digit c) tail"
  shows "parse_kernel_version (release_text k tail) = Some k"
proof -
  have t: "tail = '''' \<or> \<not> is_digit (hd tail)" using assms by (auto simp: one_line_tail_def split: list.splits)
  have dot: "\<not> is_digit CHR ''.''" by code_simp
  have "kernel_fields (release_text k tail) = Some (decimal_string (unat (k_major k)), decimal_string (unat (k_minor k)),
      decimal_string (unat (k_patch k)))"
    using decimal_string_ok assms by (simp add: kernel_fields_def release_text_def digits_then t dot Let_def)
  then show ?thesis by (simp add: parse_kernel_version_def parse_uint_decimal)
qed

lemma kernel_version_roundtrip_witness: "parse_kernel_version ''6.8.12-arch1'' = Some \<lparr>k_major = 6, k_minor = 8, k_patch = 12\<rparr>"
proof -
  have "one_line_tail (\<lambda>c. \<not> is_digit c) ''-arch1''" by code_simp
  note kernel_version_roundtrip [OF this, of "\<lparr>k_major = 6, k_minor = 8, k_patch = 12\<rparr>"]
  moreover have "release_text \<lparr>k_major = 6, k_minor = 8, k_patch = 12\<rparr> ''-arch1'' = ''6.8.12-arch1''" by code_simp
  ultimately show ?thesis by simp
qed

section \<open>File capabilities\<close>

text \<open>
  The kernel's attribute: a magic word with the revision and the effective flag, the low permitted and inheritable
  sets, for revisions from 2 on the high sets, and for revision 3 the root ID of the namespace, all little-endian.
\<close>

definition bytes32 :: "32 word \<Rightarrow> 8 word list" where
  "bytes32 w = [ucast w, ucast (drop_bit 8 w), ucast (drop_bit 16 w), ucast (drop_bit 24 w)]"

record capability_sets =
  cp_revision :: nat
  cp_effective :: bool
  cp_permitted :: "32 word"
  cp_inheritable :: "32 word"
  cp_high :: "32 word \<times> 32 word"
  cp_root :: "32 word"

definition encode_capabilities :: "capability_sets \<Rightarrow> 8 word list" where
  "encode_capabilities c =
     bytes32 (push_bit 24 (word_of_nat (cp_revision c)) + (if cp_effective c then 1 else 0)) @ bytes32 (cp_permitted c) @
     bytes32 (cp_inheritable c) @ (if cp_revision c = 1 then [] else bytes32 (fst (cp_high c)) @ bytes32 (snd (cp_high c))) @
     (if cp_revision c = 3 then bytes32 (cp_root c) else [])"

lemma bytes32_length [simp]: "length (bytes32 w) = 4"
  by (simp add: bytes32_def)

lemma byte_of: "unat (ucast (drop_bit n (w :: 32 word)) :: 8 word) = unat w div 2 ^ n mod 256"
  unfolding unsigned_ucast_eq unat_drop_bit_eq by (simp add: drop_bit_eq_div take_bit_eq_mod)

lemma base256:
  "a * 256 + r0 = n \<Longrightarrow> b * 256 + r1 = a \<Longrightarrow> c * 256 + r2 = b \<Longrightarrow> r0 + 256 * r1 + 65536 * r2 + 16777216 * c = (n :: nat)"
  by simp

lemma nat_bytes:
  assumes "n < 4294967296"
  shows "n mod 256 + 256 * (n div 256 mod 256) + 65536 * (n div 65536 mod 256) + 16777216 * (n div 16777216 mod 256) = (n :: nat)"
proof -
  have "n div 65536 = n div 256 div 256" "n div 16777216 = n div 256 div 256 div 256" by (simp_all flip: div_mult2_eq)
  moreover have "n div 16777216 mod 256 = n div 16777216" using assms by (intro mod_less) (simp add: less_mult_imp_div_less)
  ultimately show ?thesis
    using base256 [OF div_mult_mod_eq [of n 256] div_mult_mod_eq [of "n div 256" 256] div_mult_mod_eq [of "n div 256 div 256" 256]]
    by (simp only: simp_thms)
qed

lemma little_endian_bytes [simp]: "little_endian32 (bytes32 w @ rest) = w"
proof -
  have "unat w < 4294967296" using unsigned_less [of w] by simp
  from nat_bytes [OF this] show ?thesis
    using byte_of [of 0 w] byte_of [of 8 w] byte_of [of 16 w] byte_of [of 24 w]
    by (simp add: little_endian32_def bytes32_def)
qed

lemma bit_masks: "and w cap_setuid \<noteq> 0 \<longleftrightarrow> bit w 7" "and w cap_setgid \<noteq> 0 \<longleftrightarrow> bit w 6"
  using and_exp_eq_0_iff_not_bit [of w 7] and_exp_eq_0_iff_not_bit [of w 6] by (simp_all add: cap_setuid_def cap_setgid_def)

text \<open>
  C40: Every well-formed capability attribute, of any of the three revisions, is decoded to exactly what was encoded:
  its revision and effective flag, CAP\_SETUID and CAP\_SETGID of the permitted and of the inheritable set, and the root
  ID of a namespaced attribute.
\<close>
theorem capabilities_roundtrip:
  assumes "cp_revision c \<in> {1, 2, 3}" and "cp_root c \<noteq> max_uint32"
  shows "parse_mapping_capabilities \<lparr>ca_present = True, ca_bytes = encode_capabilities c\<rparr> =
    Inr \<lparr>mc_inheritable_setuid = bit (cp_inheritable c) 7, mc_inheritable_setgid = bit (cp_inheritable c) 6, mc_present = True,
      mc_revision = word_of_nat (cp_revision c), mc_effective = cp_effective c, mc_setuid = bit (cp_permitted c) 7,
      mc_setgid = bit (cp_permitted c) 6, mc_root_id = (if cp_revision c = 3 then Some (cp_root c) else None)\<rparr>"
proof -
  let ?m = "push_bit 24 (word_of_nat (cp_revision c)) + (if cp_effective c then 1 else 0) :: 32 word"
  have magic: "drop_bit 24 ?m = word_of_nat (cp_revision c)" "and ?m 0xffffff \<le> 1" "(and ?m 1 \<noteq> 0) = cp_effective c"
    using assms(1) by (auto simp: push_bit_eq_mult)
  have len: "length (encode_capabilities c) = revision_bytes (word_of_nat (cp_revision c))"
    using assms(1) by (auto simp: encode_capabilities_def revision_bytes_def)
  have "12 \<le> length (encode_capabilities c)" by (simp add: encode_capabilities_def)
  moreover have "little_endian32 (encode_capabilities c) = ?m" "little_endian32 (drop 4 (encode_capabilities c)) = cp_permitted c"
    "little_endian32 (drop 8 (encode_capabilities c)) = cp_inheritable c"
    by (simp_all add: encode_capabilities_def)
  moreover have "cp_revision c = 3 \<Longrightarrow> little_endian32 (drop 20 (encode_capabilities c)) = cp_root c"
    using little_endian_bytes [of "cp_root c" "[]"] by (simp add: encode_capabilities_def)
  moreover have "(word_of_nat (cp_revision c) :: 32 word) = 3 \<longleftrightarrow> cp_revision c = 3" using assms(1) by auto
  ultimately show ?thesis using magic len assms(2)
    by (simp add: parse_mapping_capabilities_def Let_def bit_masks not_less)
qed

definition example_capabilities :: capability_sets where
  "example_capabilities = \<lparr>cp_revision = 2, cp_effective = True, cp_permitted = 128, cp_inheritable = 0, cp_high = (0, 0), cp_root = 0\<rparr>"

theorem capabilities_roundtrip_witness:
  "\<exists>caps. parse_mapping_capabilities \<lparr>ca_present = True, ca_bytes = encode_capabilities example_capabilities\<rparr> = Inr caps \<and>
     mc_setuid caps \<and> \<not> mc_setgid caps"
proof -
  have "cp_revision example_capabilities \<in> {1, 2, 3}" "cp_root example_capabilities \<noteq> max_uint32"
    by (simp_all add: example_capabilities_def max_uint32_def)
  from capabilities_roundtrip [OF this] show ?thesis
    by (simp add: example_capabilities_def bit_iff_odd)
qed

end
