(* ===== verification/Host_Identity.thy ===== *)
theory Host_Identity
  imports Host_Laws
begin

text \<open>
  The snapshot of the executing process that starts a run (\<open>ObserveCurrent\<close> of \<open>host/identity.go\<close>).
\<close>

section \<open>The observation\<close>

definition identity_diagnostic :: "string \<Rightarrow> observation \<Rightarrow> observation" where
  "identity_diagnostic c obs = obs\<lparr>ob_completeness := Partial, ob_diagnostics := ob_diagnostics obs @
     [\<lparr>code = c, msg = Text ''current identity metadata is incomplete'', reference = ''''\<rparr>]\<rparr>"

definition add_identity_fact :: "string \<Rightarrow> completeness \<Rightarrow> string \<Rightarrow> observation \<Rightarrow> observation" where
  "add_identity_fact name c text obs = obs\<lparr>ob_facts := ob_facts obs @ [blank_fact\<lparr>f_id := ob_id obs @ ''.'' @ name,
     f_source := ''current-process.'' @ name, f_scope := ob_scope obs, f_timestamp := ob_timestamp obs,
     f_completeness := c, f_text := text\<rparr>]\<rparr>"

definition bool_text :: "bool \<Rightarrow> string" where "bool_text b = (if b then ''true'' else ''false'')"

definition word_text :: "32 word \<Rightarrow> string" where "word_text w = decimal_string (unat w)"

definition credentials_text :: "current_credentials \<Rightarrow> string" where
  "credentials_text c = ''uid='' @ word_text (cc_uid c) @ '' euid='' @ word_text (cc_euid c) @ '' gid='' @ word_text (cc_gid c) @
     '' egid='' @ word_text (cc_egid c) @ '' groups=['' @ join_with '' '' (map word_text (cc_groups c)) @ ''] groups_known='' @
     bool_text (cc_groups_known c)"

text \<open>The namespaces are read one after the other; a link that cannot be read or is not of its kind is left out.\<close>

fun identity_namespaces :: "host_services \<Rightarrow> string list \<Rightarrow> namespace list \<Rightarrow> observation \<Rightarrow> namespace list \<times> observation" where
  "identity_namespaces env [] found obs = (found, obs)"
| "identity_namespaces env (kind # kinds) found obs =
     (case measure_namespace env kind of
        Inl e \<Rightarrow> identity_namespaces env kinds found
          (add_identity_fact kind Partial '''' (identity_diagnostic ''namespace_unavailable'' obs))
      | Inr link \<Rightarrow> identity_namespaces env kinds (found @ [\<lparr>ns_kind = kind, ns_id = link\<rparr>]) (add_identity_fact kind Complete link obs))"

definition apply_when :: "bool \<Rightarrow> ('a \<Rightarrow> 'a) \<Rightarrow> 'a \<Rightarrow> 'a" where "apply_when c f x = (if c then f x else x)"

definition empty_context :: "string \<Rightarrow> evaluation_context" where
  "empty_context i = \<lparr>ctx_id = i, ctx_namespaces = [], ctx_host = \<lparr>hc_os = '''', hc_os_version = '''', hc_kernel = '''',
     hc_architecture = '''', hc_cgroup_version = '''', hc_systemd_active = None\<rparr>,
     ctx_identity = \<lparr>id_execution = None, id_selection = '''', id_current = None, id_target = None, id_is_rootless = None,
       id_sub_uid_ranges = [], id_sub_gid_ranges = [], id_xdg_runtime_dir = '''', id_has_user_systemd = None, id_in_container = None\<rparr>,
     ctx_runtime = \<lparr>rc_active_runtimes = [], rc_default_runtime = ''''\<rparr>, ctx_search_paths = []\<rparr>"

definition current_user :: "host_services \<Rightarrow> current_credentials \<Rightarrow> user_identity" where
  "current_user env c =
     (let (name, home) = (case hs_read env 0 ''etc/passwd'' of (data, err) \<Rightarrow>
            if err = None then account_metadata data (cc_euid c) else ('''', ''''))
      in \<lparr>uid = cc_euid c, gid = cc_egid c, username = name, home_dir = home, supplementary_groups = cc_groups c,
          groups_known = cc_groups_known c\<rparr>)"

definition observe_current :: "host_services \<Rightarrow> current_credentials \<Rightarrow> go_error option \<Rightarrow> evaluation_context \<times> observation" where
  "observe_current env c group_err =
     (let user = current_user env c;
          valid = (current_credentials_is_valid c = None);
          obs0 = blank_observation\<lparr>ob_id := ''host.identity'', ob_probe_id := ''host.identity'', ob_scope := hs_scope env,
            ob_timestamp := hs_now env, ob_completeness := Complete, ob_summary := ''Current execution identity and namespace snapshot''\<rparr>;
          obs1 = add_identity_fact ''credentials'' Complete (credentials_text c) obs0;
          obs2 = apply_when (\<not> valid) (identity_diagnostic ''credential_mismatch'') obs1;
          obs3 = apply_when (group_err \<noteq> None \<or> \<not> cc_groups_known c) (identity_diagnostic ''groups_unavailable'') obs2;
          obs4 = apply_when (username user = '''') (identity_diagnostic ''account_metadata_unavailable'') obs3;
          obs5 = add_identity_fact ''account'' (ob_completeness obs4) (username user @ '':'' @ home_dir user) obs4;
          (found, obs6) = identity_namespaces env namespace_kinds [] obs5;
          ctx = empty_context (context_id (hs_scope env));
          identity = (ctx_identity ctx)\<lparr>id_current := Some user, id_target := Some user,
            id_execution := (if valid \<and> cc_groups_known c \<and> group_err = None then Some user else None)\<rparr>
      in (ctx\<lparr>ctx_namespaces := found, ctx_identity := identity\<rparr>,
          obs6\<lparr>ob_authority := ''execution'', ob_identity := Some \<lparr>io_selection = ''current'', io_account_source = ''local-files'',
            io_groups_source = ''kernel'', io_resolved = True\<rparr>\<rparr>))"

section \<open>The namespaces found\<close>

definition found_namespaces :: "host_services \<Rightarrow> string list \<Rightarrow> namespace list" where
  "found_namespaces env kinds = concat (map (\<lambda>kind. case measure_namespace env kind of Inl e \<Rightarrow> [] | Inr link \<Rightarrow> [\<lparr>ns_kind = kind, ns_id = link\<rparr>]) kinds)"

lemma identity_namespaces_found: "fst (identity_namespaces env kinds found obs) = found @ found_namespaces env kinds"
  by (induction kinds arbitrary: found obs) (auto simp: found_namespaces_def split: sum.split)

lemma found_kinds: "map ns_kind (found_namespaces env kinds) = filter (\<lambda>k. \<exists>link. measure_namespace env k = Inr link) kinds"
  by (induction kinds) (auto simp: found_namespaces_def split: sum.split)

lemma found_link: "ns \<in> set (found_namespaces env kinds) \<Longrightarrow> measure_namespace env (ns_kind ns) = Inr (ns_id ns) \<and> ns_kind ns \<in> set kinds"
  by (auto simp: found_namespaces_def split: sum.splits)

lemma measured_link: "measure_namespace env kind = Inr link \<Longrightarrow> hs_readlink env (''proc/self/ns/'' @ kind) = Inr link \<and> namespace_link kind link"
  by (simp add: measure_namespace_def split: sum.splits if_splits)

lemma namespace_link_text: "namespace_link kind link \<Longrightarrow> kind \<noteq> '''' \<and> link \<noteq> ''''"
  by (auto simp: namespace_link_def namespace_kinds_def Let_def has_prefix_def)

section \<open>The context and the observation are acceptable\<close>

definition identity_wf :: "string list \<Rightarrow> observation \<Rightarrow> bool" where
  "identity_wf names obs \<longleftrightarrow> ob_id obs = ''host.identity'' \<and> ob_probe_id obs = ''host.identity'' \<and>
     map f_id (ob_facts obs) = map (\<lambda>n. ''host.identity.'' @ n) names \<and>
     (ob_completeness obs = Complete \<or> ob_completeness obs = Partial) \<and>
     (\<forall>f\<in>set (ob_facts obs). f_source f \<noteq> '''' \<and> f_scope f = ob_scope obs \<and> f_timestamp f = ob_timestamp obs \<and>
        (f_completeness f = Complete \<or> f_completeness f = Partial \<and> ob_completeness obs = Partial))"

lemma identity_wf_diagnostic: "identity_wf names obs \<Longrightarrow> identity_wf names (identity_diagnostic c obs)"
  by (auto simp: identity_wf_def identity_diagnostic_def)

lemma identity_wf_when: "identity_wf names obs \<Longrightarrow> identity_wf names (apply_when b (identity_diagnostic c) obs)"
  by (simp add: apply_when_def identity_wf_diagnostic)

lemma identity_wf_fact:
  "identity_wf names obs \<Longrightarrow> c = Complete \<or> c = Partial \<and> ob_completeness obs = Partial \<Longrightarrow>
   identity_wf (names @ [name]) (add_identity_fact name c t obs)"
  by (auto simp: identity_wf_def add_identity_fact_def blank_fact_def)

lemma identity_wf_namespaces: "identity_wf names obs \<Longrightarrow> identity_wf (names @ kinds) (snd (identity_namespaces env kinds found obs))"
proof (induction kinds arbitrary: names found obs)
  case (Cons kind kinds)
  show ?case
  proof (cases "measure_namespace env kind")
    case (Inl e)
    have "identity_wf (names @ [kind]) (add_identity_fact kind Partial '''' (identity_diagnostic ''namespace_unavailable'' obs))"
      using Cons.prems by (intro identity_wf_fact identity_wf_diagnostic) (simp_all add: identity_diagnostic_def)
    from Cons.IH [OF this] show ?thesis using Inl by simp
  next
    case (Inr link)
    have "identity_wf (names @ [kind]) (add_identity_fact kind Complete link obs)"
      using Cons.prems by (intro identity_wf_fact) simp_all
    from Cons.IH [OF this] show ?thesis using Inr by simp
  qed
qed simp

lemma identity_fields:
  "ob_scope (identity_diagnostic c obs) = ob_scope obs" "ob_timestamp (identity_diagnostic c obs) = ob_timestamp obs"
  "ob_scope (add_identity_fact n k t obs) = ob_scope obs" "ob_timestamp (add_identity_fact n k t obs) = ob_timestamp obs"
  "ob_scope (apply_when b (identity_diagnostic c) obs) = ob_scope obs" "ob_timestamp (apply_when b (identity_diagnostic c) obs) = ob_timestamp obs"
  by (simp_all add: identity_diagnostic_def add_identity_fact_def apply_when_def)

lemma identity_namespaces_fields:
  "ob_scope (snd (identity_namespaces env kinds found obs)) = ob_scope obs \<and>
   ob_timestamp (snd (identity_namespaces env kinds found obs)) = ob_timestamp obs"
  by (induction kinds arbitrary: found obs) (auto simp: identity_fields split: sum.split)

lemma current_user_fields [simp]:
  "uid (current_user env c) = cc_euid c" "gid (current_user env c) = cc_egid c"
  "supplementary_groups (current_user env c) = cc_groups c" "groups_known (current_user env c) = cc_groups_known c"
  by (simp_all add: current_user_def Let_def case_prod_unfold)

text \<open>Credentials as the kernel can hand them out: the reserved ID \<open>-1\<close> belongs to nobody.\<close>

definition real_credentials :: "current_credentials \<Rightarrow> bool" where
  "real_credentials c \<longleftrightarrow> max_uint32 \<notin> {cc_euid c, cc_egid c} \<union> set (cc_groups c) \<and> length (cc_groups c) \<le> MaxIdentityGroups"

lemma current_user_valid:
  "current_credentials_is_valid c = None \<Longrightarrow> real_credentials c \<Longrightarrow> user_identity_is_valid (current_user env c) = None"
  by (auto simp: user_identity_is_valid_None current_credentials_is_valid_def real_credentials_def credential_groups_check_None
      split: if_splits)

lemma observed_context:
  assumes "current_credentials_is_valid c = None" "real_credentials c" "context_id (hs_scope env) \<noteq> ''''"
  shows "context_ok (fst (observe_current env c group_err))"
proof -
  let ?u = "current_user env c" and ?ns = "found_namespaces env namespace_kinds"
  have "execution_matches ?u (Some ?u) = None" if "cc_groups_known c"
    using that assms(1) by (auto simp: execution_matches_def current_credentials_is_valid_def credential_groups_check_None group_subset_check_None split: if_splits)
  then have "identity_context_is_valid (ctx_identity (fst (observe_current env c group_err))) = None"
    using current_user_valid [OF assms(1,2), of env]
    by (simp add: observe_current_def Let_def case_prod_unfold empty_context_def identity_context_is_valid_def
        target_selector_is_valid_def sub_id_ranges_is_valid_def)
  moreover have "distinct (map ns_kind ?ns)" unfolding found_kinds by (rule distinct_filter) (simp add: namespace_kinds_def)
  moreover have "\<forall>ns\<in>set ?ns. ns_kind ns \<noteq> '''' \<and> ns_id ns \<noteq> ''''"
    using found_link measured_link namespace_link_text by blast
  ultimately show ?thesis using assms(3)
    by (simp add: context_ok_def observe_current_def Let_def case_prod_unfold identity_namespaces_found empty_context_def)
qed

lemma observed_identity_wf:
  "identity_wf ([''credentials'', ''account''] @ namespace_kinds) (snd (observe_current env c group_err))"
proof -
  define obs0 where "obs0 = blank_observation\<lparr>ob_id := ''host.identity'', ob_probe_id := ''host.identity'', ob_scope := hs_scope env,
    ob_timestamp := hs_now env, ob_completeness := Complete, ob_summary := ''Current execution identity and namespace snapshot''\<rparr>"
  have "identity_wf [] obs0" by (simp add: identity_wf_def obs0_def blank_observation_def)
  from identity_wf_fact [OF this, of Complete "''credentials''" "credentials_text c"]
  have 1: "identity_wf [''credentials''] (add_identity_fact ''credentials'' Complete (credentials_text c) obs0)" by simp
  define obs4 where "obs4 = apply_when (username (current_user env c) = '''') (identity_diagnostic ''account_metadata_unavailable'')
    (apply_when (group_err \<noteq> None \<or> \<not> cc_groups_known c) (identity_diagnostic ''groups_unavailable'')
      (apply_when (current_credentials_is_valid c \<noteq> None) (identity_diagnostic ''credential_mismatch'')
        (add_identity_fact ''credentials'' Complete (credentials_text c) obs0)))"
  have 4: "identity_wf [''credentials''] obs4" unfolding obs4_def by (intro identity_wf_when 1)
  then have "ob_completeness obs4 = Complete \<or> ob_completeness obs4 = Partial" by (simp add: identity_wf_def)
  then have "ob_completeness obs4 = Complete \<or> ob_completeness obs4 = Partial \<and> ob_completeness obs4 = Partial" by blast
  from identity_wf_namespaces [OF identity_wf_fact [OF 4 this, of "''account''"], of namespace_kinds env "[]"]
  show ?thesis
    by (simp add: observe_current_def Let_def case_prod_unfold identity_wf_def obs4_def obs0_def)
qed

lemma observed_facts: "snd (observe_current env c group_err) = obs \<Longrightarrow> ob_scope obs = hs_scope env \<and> ob_timestamp obs = hs_now env"
  by (auto simp: observe_current_def Let_def case_prod_unfold identity_namespaces_fields identity_fields blank_observation_def)

text \<open>
  C28: The snapshot of the executing process is acceptable to the rest of the program whatever the account file and the
  namespace links hold: for credentials that are in order, its context (identities, execution identity, namespaces)
  and its observation (distinct facts in the scope of the run) form a dataset that the evidence graph accepts.
\<close>
theorem observed_identity_accepted:
  assumes "current_credentials_is_valid c = None" and "real_credentials c" and "scope_is_valid (hs_scope env) = None"
    and "hs_now env \<noteq> 0" and "observe_current env c group_err = (ctx, obs)"
  shows "validate_dataset \<lparr>ds_run_id = run_id (hs_scope env), ds_at = hs_now env, ds_contexts = [ctx], ds_observations = [obs], ds_evidence = []\<rparr> = None"
proof -
  have scope: "run_id (hs_scope env) \<noteq> ''''" "context_id (hs_scope env) \<noteq> ''''" using assms(3) by (auto simp: scope_is_valid_def split: if_splits)
  have ctx: "context_ok ctx" using observed_context [OF assms(1,2) scope(2), of group_err] assms(5) by simp
  have id: "ctx_id ctx = context_id (hs_scope env)"
    using assms(5) by (auto simp: observe_current_def Let_def case_prod_unfold empty_context_def)
  have wf: "identity_wf ([''credentials'', ''account''] @ namespace_kinds) obs" using observed_identity_wf [of env c group_err] assms(5) by simp
  have ids: "map f_id (ob_facts obs) = map (\<lambda>n. ''host.identity.'' @ n) ([''credentials'', ''account''] @ namespace_kinds)"
    using wf by (simp add: identity_wf_def)
  have len: "length (ob_facts obs) = 9" using arg_cong [OF ids, of length] by (simp add: namespace_kinds_def)
  have "distinct (map f_id (ob_facts obs))" unfolding ids by (simp add: namespace_kinds_def)
  moreover have "\<forall>f\<in>set (ob_facts obs). f_id f \<noteq> ''''"
  proof
    fix f assume "f \<in> set (ob_facts obs)"
    then have "f_id f \<in> set (map f_id (ob_facts obs))" by simp
    then show "f_id f \<noteq> ''''" unfolding ids by auto
  qed
  ultimately have "observation_ok {ctx_id ctx} obs \<and> distinct (map f_id (ob_facts obs))"
    using wf assms(3,4) len observed_facts [of env c group_err obs] assms(5) id
    by (auto simp: observation_ok_def fact_ok_def identity_wf_def)
  then show ?thesis unfolding validate_dataset_wf dataset_wf_def using ctx scope(1) assms(4) len
    by (simp add: MaxGraphEntries_def evidence_rel_def reference_count_def MaxGraphReferences_def acyclic_def fact_ids_def)
qed

definition example_credentials :: current_credentials where
  "example_credentials = \<lparr>cc_uid = 7, cc_euid = 7, cc_gid = 7, cc_egid = 7, cc_groups = [7, 9], cc_groups_known = True\<rparr>"

theorem observed_identity_accepted_witness:
  "validate_dataset \<lparr>ds_run_id = ''r'', ds_at = 7, ds_contexts = [fst (observe_current absent_services example_credentials None)],
     ds_observations = [snd (observe_current absent_services example_credentials None)], ds_evidence = []\<rparr> = None"
proof -
  have "current_credentials_is_valid example_credentials = None" "real_credentials example_credentials"
    by (simp_all add: current_credentials_is_valid_def real_credentials_def example_credentials_def max_uint32_def MaxIdentityGroups_def)
  moreover have "scope_is_valid (hs_scope absent_services) = None" "hs_now absent_services \<noteq> 0"
    by (simp_all add: absent_services_def inspection_scope_def scope_is_valid_def)
  ultimately have "validate_dataset \<lparr>ds_run_id = run_id (hs_scope absent_services), ds_at = hs_now absent_services,
      ds_contexts = [fst (observe_current absent_services example_credentials None)],
      ds_observations = [snd (observe_current absent_services example_credentials None)], ds_evidence = []\<rparr> = None"
    by (rule observed_identity_accepted) simp
  then show ?thesis by (simp add: absent_services_def inspection_scope_def)
qed

end
