(* ===== verification/Host_Subids_Laws.thy ===== *)
theory Host_Subids_Laws
  imports Host_Subids
begin

text \<open>
  The pools: the sweep finds exactly the overlapping records, an accepted pool satisfies the model's own
  range validator, and its total does not wrap around.
\<close>

section \<open>The sweep against all pairs\<close>

definition overlaps :: "interval \<Rightarrow> interval \<Rightarrow> bool" where
  "overlaps a b \<longleftrightarrow> fst a < fst (snd b) \<and> fst b < fst (snd a)"

definition proper :: "interval \<Rightarrow> bool" where "proper row \<longleftrightarrow> fst row < fst (snd row)"

text \<open>A row of the record \<open>k\<close> that overlaps a row before it (in \<open>front\<close> or \<open>rows\<close>) or after it.\<close>

fun flagged :: "interval list \<Rightarrow> interval list \<Rightarrow> nat \<Rightarrow> bool" where
  "flagged front [] k = False"
| "flagged front (row # rows) k \<longleftrightarrow>
     (snd (snd row) = Some k \<and> (\<exists>other\<in>set front \<union> set rows. overlaps row other)) \<or> flagged (row # front) rows k"

definition with_overlap :: "bool \<Rightarrow> sub_id_record \<Rightarrow> sub_id_record" where
  "with_overlap b r = (if b then r\<lparr>sr_problem := ''allocation_overlap''\<rparr> else r)"

lemma with_overlap_or: "with_overlap (a \<or> b) r = with_overlap b (with_overlap a r)"
  by (simp add: with_overlap_def)

lemma row_conflict:
  assumes sorted: "sorted_wrt (\<lambda>a b. fst a \<le> fst b) (rev front @ row # rows)" and proper: "list_all proper (row # rows)"
    and prev: "\<And>x. x < prev \<longleftrightarrow> (\<exists>r\<in>set front. x < fst (snd r))"
  shows "(fst row < prev \<or> (case rows of [] \<Rightarrow> False | (start, _) # _ \<Rightarrow> start < fst (snd row))) \<longleftrightarrow>
    (\<exists>other\<in>set front \<union> set rows. overlaps row other)"
proof -
  have before: "fst r \<le> fst row" if "r \<in> set front" for r using sorted that by (auto simp: sorted_wrt_append)
  have after: "fst row \<le> fst r" if "r \<in> set rows" for r using sorted that by (auto simp: sorted_wrt_append)
  have row: "fst row < fst (snd row)" using proper by (simp add: proper_def)
  have "fst row < prev \<longleftrightarrow> (\<exists>other\<in>set front. overlaps row other)"
    unfolding prev overlaps_def using before row by (meson le_less_trans)
  moreover have "(case rows of [] \<Rightarrow> False | (start, _) # _ \<Rightarrow> start < fst (snd row)) \<longleftrightarrow> (\<exists>other\<in>set rows. overlaps row other)"
  proof (cases rows)
    case (Cons n rest)
    have first: "fst n \<le> fst r" if "r \<in> set rows" for r using sorted that Cons by (auto simp: sorted_wrt_append)
    have "fst row < fst (snd r)" if "r \<in> set rows" for r
      using after [OF that] proper that by (auto simp: list_all_iff proper_def intro: le_less_trans)
    moreover have "n \<in> set rows" using Cons by simp
    then have "fst n < fst (snd row) \<longleftrightarrow> (\<exists>r\<in>set rows. fst r < fst (snd row))" using first by (meson le_less_trans)
    ultimately show ?thesis unfolding overlaps_def using Cons by (auto split: prod.splits)
  qed simp
  ultimately show ?thesis by blast
qed

lemma mark_overlaps_flagged:
  assumes "sorted_wrt (\<lambda>a b. fst a \<le> fst b) (rev front @ rows)" "list_all proper rows"
    and "\<And>x. x < prev \<longleftrightarrow> (\<exists>r\<in>set front. x < fst (snd r))"
    and "\<And>row i. row \<in> set rows \<Longrightarrow> snd (snd row) = Some i \<Longrightarrow> i < length records"
  shows "mark_overlaps prev rows (records, problems) =
    (map (\<lambda>k. with_overlap (flagged front rows k) (records ! k)) [0..<length records],
     if \<exists>k. flagged front rows k then Some ErrMalformed else problems)"
  using assms
proof (induction rows arbitrary: front prev records problems)
  case Nil
  then show ?case by (simp add: with_overlap_def map_nth)
next
  case (Cons row rows)
  obtain start stop index where row: "row = (start, stop, index)" by (cases row)
  let ?conflict = "\<exists>other\<in>set front \<union> set rows. overlaps row other"
  have conflict: "(start < prev \<or> (case rows of [] \<Rightarrow> False | (next_start, _) # _ \<Rightarrow> next_start < stop)) \<longleftrightarrow> ?conflict"
    using row_conflict [OF Cons.prems(1-3)] unfolding row fst_conv snd_conv by blast
  let ?st = "case index of Some i \<Rightarrow> if ?conflict then (flag_record i records, Some ErrMalformed) else (records, problems)
      | None \<Rightarrow> (records, problems)"
  have len: "length (fst ?st) = length records" by (simp add: flag_record_def split: option.splits)
  have index: "i < length (fst ?st)" if "r \<in> set rows" "snd (snd r) = Some i" for r i
    unfolding len using Cons.prems(4) [of r i] that by simp
  have prev: "x < max prev stop \<longleftrightarrow> (\<exists>r\<in>set (row # front). x < fst (snd r))" for x
    using Cons.prems(3) [of x] row by (auto simp: less_max_iff_disj)
  have "mark_overlaps (max prev stop) rows (fst ?st, snd ?st) =
    (map (\<lambda>k. with_overlap (flagged (row # front) rows k) (fst ?st ! k)) [0..<length (fst ?st)],
     if \<exists>k. flagged (row # front) rows k then Some ErrMalformed else snd ?st)"
    using Cons.prems(1,2) by (intro Cons.IH prev index) simp_all
  moreover have "mark_overlaps prev (row # rows) (records, problems) = mark_overlaps (max prev stop) rows (fst ?st, snd ?st)"
    unfolding row mark_overlaps.simps Let_def conflict [unfolded row] fst_conv prod.collapse by (rule refl)
  moreover have "fst ?st ! k = with_overlap (index = Some k \<and> ?conflict) (records ! k)" if "k < length records" for k
    using Cons.prems(4) [of row] that row
    by (auto simp: flag_record_def with_overlap_def nth_list_update split: option.splits)
  moreover have "flagged front (row # rows) k \<longleftrightarrow> (index = Some k \<and> ?conflict) \<or> flagged (row # front) rows k" for k
    by (simp add: row)
  moreover have "snd ?st = (if \<exists>k. index = Some k \<and> ?conflict then Some ErrMalformed else problems)"
    by (simp split: option.splits)
  ultimately show ?case by (auto simp: len with_overlap_or simp del: flagged.simps)
qed

text \<open>Independent of the order: a row of record \<open>k\<close> overlaps another row of the collection.\<close>

lemma flagged_mset:
  "flagged front rows k \<longleftrightarrow>
   (\<exists>row\<in>set rows. snd (snd row) = Some k \<and> (\<exists>other\<in>#mset (front @ rows) - {#row#}. overlaps row other))"
proof (induction rows arbitrary: front)
  case (Cons r rows)
  have step: "flagged (r # front) rows k \<longleftrightarrow>
      (\<exists>row\<in>set rows. snd (snd row) = Some k \<and> (\<exists>other\<in>#mset (front @ r # rows) - {#row#}. overlaps row other))"
    unfolding Cons.IH by (simp add: ac_simps)
  have "mset (front @ r # rows) - {#r#} = mset (front @ rows)" by simp
  then have here: "(\<exists>other\<in>set front \<union> set rows. overlaps r other) \<longleftrightarrow> (\<exists>other\<in>#mset (front @ r # rows) - {#r#}. overlaps r other)"
    by (metis set_append set_mset_mset)
  show ?case unfolding flagged.simps step here by (simp only: list.set(2) bex_simps)
qed simp

definition overlapping_record :: "interval multiset \<Rightarrow> nat \<Rightarrow> bool" where
  "overlapping_record rows k \<longleftrightarrow> (\<exists>row\<in>#rows. snd (snd row) = Some k \<and> (\<exists>other\<in>#rows - {#row#}. overlaps row other))"

lemma sweep_correct:
  assumes "list_all proper rows" and "\<And>row i. row \<in> set rows \<Longrightarrow> snd (snd row) = Some i \<Longrightarrow> i < length records"
  shows "mark_overlaps 0 (sort_key fst rows) (records, problems) =
    (map (\<lambda>k. with_overlap (overlapping_record (mset rows) k) (records ! k)) [0..<length records],
     if \<exists>k. overlapping_record (mset rows) k then Some ErrMalformed else problems)"
proof -
  have "flagged [] (sort_key fst rows) k \<longleftrightarrow> overlapping_record (mset rows) k" for k
    by (simp add: flagged_mset overlapping_record_def)
  moreover have "sorted_wrt (\<lambda>a b. fst a \<le> fst b) (sort_key fst rows)"
    using sorted_sort_key [of fst rows] unfolding sorted_map by simp
  ultimately show ?thesis using assms
    by (subst mark_overlaps_flagged [where front = "[]"]) (auto simp: list_all_iff)
qed


section \<open>The scan\<close>

definition entries :: "string list \<Rightarrow> string list" where
  "entries lines = filter (\<lambda>line. \<not> skipped_line line) lines"

definition entry_range :: "string \<Rightarrow> sub_id_range option \<times> go_error option" where
  "entry_range line = sub_id_fields (split_n CHR '':'' 4 line)"

definition entry_owned :: "user_identity \<Rightarrow> string \<Rightarrow> bool" where
  "entry_owned target line = sub_id_owned target (split_n CHR '':'' 4 line ! 0)"

definition to_interval :: "sub_id_range \<times> nat option \<Rightarrow> interval" where
  "to_interval = (\<lambda>(r, i). (ucast (range_start r), range_end r, i))"

text \<open>The valid ranges of the entries, with the indices of the target's records.\<close>

fun entry_rows :: "user_identity \<Rightarrow> string list \<Rightarrow> nat \<Rightarrow> (sub_id_range \<times> nat option) list" where
  "entry_rows target [] k = []"
| "entry_rows target (line # lines) k =
     (case entry_range line of (Some r, None) \<Rightarrow> [(r, if entry_owned target line then Some k else None)] | _ \<Rightarrow> []) @
     entry_rows target lines (if entry_owned target line then Suc k else k)"

lemma sub_id_fields_valid: "sub_id_fields parts = (Some r, None) \<Longrightarrow> sub_id_range_is_valid r = None"
  by (auto simp: sub_id_fields_def Let_def split: if_splits sum.splits)

lemma sub_id_fields_None: "sub_id_fields parts = (x, None) \<Longrightarrow> \<exists>r. x = Some r"
  by (auto simp: sub_id_fields_def Let_def split: if_splits sum.splits)

lemma scan_record_fields:
  "sn_intervals (scan_record t line s) = sn_intervals s @ map to_interval
     (case entry_range line of (Some r, None) \<Rightarrow> [(r, if entry_owned t line then Some (length (sn_records s)) else None)] | _ \<Rightarrow> [])"
  "length (sn_records (scan_record t line s)) = (if entry_owned t line then Suc (length (sn_records s)) else length (sn_records s))"
  "sn_count (scan_record t line s) = sn_count s" "sn_line (scan_record t line s) = sn_line s"
  "sn_problems (scan_record t line s) = (if snd (entry_range line) = None then sn_problems s else Some ErrMalformed)"
  "sn_ranges (scan_record t line s) = sn_ranges s @
     (case fst (entry_range line) of Some r \<Rightarrow> if entry_owned t line then [r] else [] | None \<Rightarrow> [])"
  by (simp_all add: scan_record_def entry_range_def entry_owned_def Let_def to_interval_def split: prod.splits option.splits)

lemma entry_rows_valid: "(r, i) \<in> set (entry_rows t lines k) \<Longrightarrow> sub_id_range_is_valid r = None"
  by (induction t lines k rule: entry_rows.induct)
    (auto simp: entry_range_def dest: sub_id_fields_valid sub_id_fields_valid [OF sym] split: prod.splits option.splits if_splits)

lemma entry_rows_index:
  "(r, Some i) \<in> set (entry_rows t lines k) \<Longrightarrow> i < k + length (filter (entry_owned t) lines)"
  by (induction t lines k rule: entry_rows.induct) (fastforce split: prod.splits option.splits if_splits)+

text \<open>The ranges the target owns, in file order.\<close>

definition owned_ranges :: "user_identity \<Rightarrow> string list \<Rightarrow> sub_id_range list" where
  "owned_ranges t lines = concat (map (\<lambda>line. case fst (entry_range line) of
     Some r \<Rightarrow> if entry_owned t line then [r] else [] | None \<Rightarrow> []) lines)"

text \<open>The scan in terms of its entries, as far as the limit on records lets it go.\<close>

lemma scan_lines_entries:
  fixes lines :: "string list"
  assumes "sn_count s \<le> maxSubIDRecords"
  defines "es \<equiv> take (maxSubIDRecords - sn_count s) (entries lines)"
  shows "sn_intervals (scan_lines t lines s) = sn_intervals s @ map to_interval (entry_rows t es (length (sn_records s))) \<and>
    length (sn_records (scan_lines t lines s)) = length (sn_records s) + length (filter (entry_owned t) es) \<and>
    sn_ranges (scan_lines t lines s) = sn_ranges s @ owned_ranges t es \<and>
    (sn_problems (scan_lines t lines s) = None \<longleftrightarrow> sn_problems s = None \<and>
       length (entries lines) \<le> maxSubIDRecords - sn_count s \<and> list_all (\<lambda>line. snd (entry_range line) = None) (entries lines))"
  using assms(1) unfolding es_def
proof (induction t lines s rule: scan_lines.induct)
  case (2 t line lines s)
  show ?case
  proof (cases "skipped_line line")
    case True
    then show ?thesis using "2.IH"(1) [OF refl True] "2.prems" by (simp add: entries_def)
  next
    case False
    let ?s = "s\<lparr>sn_line := sn_line s + 1, sn_count := sn_count s + 1\<rparr>"
    show ?thesis
    proof (cases "sn_count s = maxSubIDRecords")
      case True
      then show ?thesis using False by (simp add: entries_def owned_ranges_def)
    next
      case open_: False
      then have n: "maxSubIDRecords - sn_count s = Suc (maxSubIDRecords - sn_count ?s)" "\<not> maxSubIDRecords < Suc (sn_count s)"
        using "2.prems" by auto
      note IH = "2.IH"(2) [OF refl False refl]
      have "scan_lines t (line # lines) s = scan_lines t lines (scan_record t line ?s)" "entries (line # lines) = line # entries lines"
        using False n(2) by (simp_all add: entries_def)
      then show ?thesis using IH n "2.prems"
        by (auto simp: scan_record_fields owned_ranges_def split: prod.splits option.splits)
    qed
  qed
qed (simp add: entries_def owned_ranges_def)

section \<open>Parsing a pool\<close>

definition entries_of :: "string \<Rightarrow> string list" where
  "entries_of data = take maxSubIDRecords (entries (text_lines data))"

definition pool_rows :: "user_identity \<Rightarrow> string \<Rightarrow> interval multiset" where
  "pool_rows t data = mset (map to_interval (entry_rows t (entries_of data) 0))"

lemma empty_scan_fields [simp]:
  "sn_count empty_scan = 0" "sn_intervals empty_scan = []" "sn_records empty_scan = []" "sn_ranges empty_scan = []"
  "sn_problems empty_scan = None"
  by (simp_all add: empty_scan_def)

lemma parse_sub_ids_sweep:
  assumes "user_identity_is_valid t = None" "valid_account_input data = None"
  defines "s \<equiv> scan_lines t (text_lines data) empty_scan"
  shows "parse_sub_ids data t =
    (let problems = (if \<exists>k. overlapping_record (pool_rows t data) k then Some ErrMalformed else sn_problems s)
     in (\<lparr>sa_present = None, sa_ranges = owned_ranges t (entries_of data),
          sa_records = map (\<lambda>k. with_overlap (overlapping_record (pool_rows t data) k) (sn_records s ! k)) [0..<length (sn_records s)],
          sa_total = (if problems = None then Some (total_length (owned_ranges t (entries_of data))) else None),
          sa_valid = Some (problems = None)\<rparr>, problems))"
proof -
  let ?rows = "map to_interval (entry_rows t (entries_of data) 0)"
  have rows: "sn_intervals s = ?rows" "length (sn_records s) = length (filter (entry_owned t) (entries_of data))"
    "sn_ranges s = owned_ranges t (entries_of data)"
    unfolding s_def entries_of_def
    using scan_lines_entries [where s = empty_scan and lines = "text_lines data" and t = t] by simp_all
  have proper: "list_all proper ?rows"
  proof (clarsimp simp: list_all_iff)
    fix r i assume "(r, i) \<in> set (entry_rows t (entries_of data) 0)"
    then have "sub_id_range_is_valid r = None" by (rule entry_rows_valid)
    then show "proper (to_interval (r, i))"
      by (simp add: proper_def to_interval_def word_less_nat_alt unat_range_end sub_id_range_is_valid_None)
  qed
  have index: "i < length (sn_records s)" if "row \<in> set ?rows" "snd (snd row) = Some i" for row i
    using that entry_rows_index [of _ i t "entries_of data" 0] unfolding rows(2) by (auto simp: to_interval_def)
  have "mark_overlaps 0 (sort_key fst ?rows) (sn_records s, sn_problems s) =
    (map (\<lambda>k. with_overlap (overlapping_record (mset ?rows) k) (sn_records s ! k)) [0..<length (sn_records s)],
     if \<exists>k. overlapping_record (mset ?rows) k then Some ErrMalformed else sn_problems s)"
    by (rule sweep_correct [OF proper index])
  then show ?thesis
    unfolding parse_sub_ids_def s_def [symmetric] using assms(1,2) rows
    by (simp add: Let_def pool_rows_def empty_allocation_def)
qed


lemma mset_without_nth:
  assumes "i < length xs"
  shows "y \<in># mset xs - {#xs ! i#} \<longleftrightarrow> (\<exists>j < length xs. j \<noteq> i \<and> y = xs ! j)"
proof -
  have "xs = take i xs @ xs ! i # drop (Suc i) xs" using assms by (rule id_take_nth_drop)
  then have "mset xs - {#xs ! i#} = mset (take i xs @ drop (Suc i) xs)" by (metis add_mset_remove_trivial mset_append mset.simps(2) union_mset_add_mset_right)
  then have "y \<in># mset xs - {#xs ! i#} \<longleftrightarrow> y \<in> set (take i xs) \<or> y \<in> set (drop (Suc i) xs)" by simp
  also have "\<dots> \<longleftrightarrow> (\<exists>j < length xs. j \<noteq> i \<and> y = xs ! j)"
  proof
    assume "y \<in> set (take i xs) \<or> y \<in> set (drop (Suc i) xs)"
    then show "\<exists>j < length xs. j \<noteq> i \<and> y = xs ! j"
    proof
      assume "y \<in> set (take i xs)"
      then obtain j where "j < i" "y = xs ! j" using assms by (auto simp: in_set_conv_nth)
      then show ?thesis using assms by (intro exI [of _ j]) simp
    next
      assume "y \<in> set (drop (Suc i) xs)"
      then obtain j where "j < length (drop (Suc i) xs)" "drop (Suc i) xs ! j = y" unfolding in_set_conv_nth by blast
      then have "Suc i + j < length xs" "y = xs ! (Suc i + j)" using assms by auto
      then show ?thesis by (intro exI [of _ "Suc i + j"]) simp
    qed
  next
    assume "\<exists>j < length xs. j \<noteq> i \<and> y = xs ! j"
    then obtain j where j: "j < length xs" "j \<noteq> i" "y = xs ! j" by blast
    show "y \<in> set (take i xs) \<or> y \<in> set (drop (Suc i) xs)"
    proof (cases "j < i")
      case True
      then show ?thesis using j by (auto simp: in_set_conv_nth intro!: exI [of _ j])
    next
      case False
      then show ?thesis using j by (auto simp: in_set_conv_nth intro!: exI [of _ "j - Suc i"])
    qed
  qed
  finally show ?thesis .
qed

lemma bex_without_nth:
  "i < length xs \<Longrightarrow> (\<exists>y\<in>#mset xs - {#xs ! i#}. P y) \<longleftrightarrow> (\<exists>j < length xs. j \<noteq> i \<and> P (xs ! j))"
  by (auto simp: Bex_def mset_without_nth)

lemma no_overlap_nth:
  "(\<forall>k. \<not> overlapping_record (mset xs) k) \<longleftrightarrow>
   (\<forall>i < length xs. \<forall>j < length xs. i \<noteq> j \<and> snd (snd (xs ! i)) \<noteq> None \<longrightarrow> \<not> overlaps (xs ! i) (xs ! j))"
proof -
  have "overlapping_record (mset xs) k \<longleftrightarrow>
      (\<exists>i < length xs. snd (snd (xs ! i)) = Some k \<and> (\<exists>j < length xs. j \<noteq> i \<and> overlaps (xs ! i) (xs ! j)))" for k
  proof -
    have "overlapping_record (mset xs) k \<longleftrightarrow>
        (\<exists>i < length xs. snd (snd (xs ! i)) = Some k \<and> (\<exists>other\<in>#mset xs - {#xs ! i#}. overlaps (xs ! i) other))"
      unfolding overlapping_record_def set_mset_mset Bex_def in_set_conv_nth by blast
    moreover have "(\<exists>other\<in>#mset xs - {#xs ! i#}. overlaps (xs ! i) other) \<longleftrightarrow>
        (\<exists>j < length xs. j \<noteq> i \<and> overlaps (xs ! i) (xs ! j))" if "i < length xs" for i
      using that by (rule bex_without_nth)
    ultimately show ?thesis by blast
  qed
  then have "(\<forall>k. \<not> overlapping_record (mset xs) k) \<longleftrightarrow>
      \<not> (\<exists>i < length xs. (\<exists>k. snd (snd (xs ! i)) = Some k) \<and> (\<exists>j < length xs. j \<noteq> i \<and> overlaps (xs ! i) (xs ! j)))"
    by blast
  then show ?thesis unfolding not_None_eq by blast
qed

lemma overlaps_disjoint:
  assumes "sub_id_range_is_valid a = None" "sub_id_range_is_valid b = None"
  shows "overlaps (to_interval (a, x)) (to_interval (b, y)) \<longleftrightarrow> \<not> disjoint_ranges a b"
proof -
  have "0 < unat (range_length a)" "0 < unat (range_length b)" using assms by (simp_all add: sub_id_range_is_valid_None)
  then show ?thesis
    by (auto simp: overlaps_def to_interval_def word_less_nat_alt unat_range_end disjoint_ranges_def range_ids_def)
qed

definition range_of :: "string \<Rightarrow> sub_id_range" where "range_of line = the (fst (entry_range line))"

lemma entry_range_valid:
  assumes "snd (entry_range line) = None"
  shows "entry_range line = (Some (range_of line), None)" "sub_id_range_is_valid (range_of line) = None"
proof -
  obtain r where r: "entry_range line = (Some r, None)"
    using assms sub_id_fields_None [of "split_n CHR '':'' 4 line"] unfolding entry_range_def
    by (cases "sub_id_fields (split_n CHR '':'' 4 line)") auto
  then show "entry_range line = (Some (range_of line), None)" by (simp add: range_of_def)
  show "sub_id_range_is_valid (range_of line) = None" using r sub_id_fields_valid by (simp add: range_of_def entry_range_def)
qed

lemma entry_rows_all:
  assumes "list_all (\<lambda>line. snd (entry_range line) = None) es"
  shows "map fst (entry_rows t es k) = map range_of es \<and> map (\<lambda>row. snd row \<noteq> None) (entry_rows t es k) = map (entry_owned t) es \<and>
    owned_ranges t es = map range_of (filter (entry_owned t) es)"
  using assms by (induction t es k rule: entry_rows.induct) (auto simp: owned_ranges_def entry_range_valid)

text \<open>What acceptance means, without the scan and the sweep.\<close>

definition pool_ok :: "user_identity \<Rightarrow> string list \<Rightarrow> bool" where
  "pool_ok t es \<longleftrightarrow> length es \<le> maxSubIDRecords \<and> list_all (\<lambda>line. snd (entry_range line) = None) es \<and>
     (\<forall>i < length es. \<forall>j < length es. i \<noteq> j \<and> entry_owned t (es ! i) \<longrightarrow> disjoint_ranges (range_of (es ! i)) (range_of (es ! j)))"

lemma pool_rows_disjoint:
  assumes valid: "list_all (\<lambda>line. snd (entry_range line) = None) es"
  shows "(\<forall>k. \<not> overlapping_record (mset (map to_interval (entry_rows t es 0))) k) \<longleftrightarrow>
    (\<forall>i < length es. \<forall>j < length es. i \<noteq> j \<and> entry_owned t (es ! i) \<longrightarrow> disjoint_ranges (range_of (es ! i)) (range_of (es ! j)))"
proof -
  let ?rows = "entry_rows t es 0"
  have maps: "map fst ?rows = map range_of es" "map (\<lambda>row. snd row \<noteq> None) ?rows = map (entry_owned t) es"
    using entry_rows_all [OF valid] by blast+
  have len: "length ?rows = length es" using maps(1) by (metis length_map)
  have nth: "fst (?rows ! i) = range_of (es ! i)" "snd (?rows ! i) \<noteq> None \<longleftrightarrow> entry_owned t (es ! i)" if "i < length es" for i
    using that len arg_cong [OF maps(1), of "\<lambda>xs. xs ! i"] arg_cong [OF maps(2), of "\<lambda>xs. xs ! i"] by simp_all
  have ok: "sub_id_range_is_valid (range_of (es ! i)) = None" if "i < length es" for i
    using that valid by (intro entry_range_valid) (simp add: list_all_length)
  have "overlaps (to_interval (?rows ! i)) (to_interval (?rows ! j)) \<longleftrightarrow> \<not> disjoint_ranges (range_of (es ! i)) (range_of (es ! j))"
    if "i < length es" "j < length es" for i j
    using that nth(1) overlaps_disjoint [OF ok ok, of i j "snd (?rows ! i)" "snd (?rows ! j)"] by (metis prod.collapse)
  moreover have "snd (snd (to_interval row)) = snd row" for row by (simp add: to_interval_def split: prod.splits)
  ultimately show ?thesis unfolding no_overlap_nth using nth(2) by (auto simp: len)
qed


section \<open>Accepted pools\<close>

lemma parse_sub_ids_valid:
  assumes "user_identity_is_valid t = None" "valid_account_input data = None"
  shows "sa_valid (fst (parse_sub_ids data t)) = Some True \<longleftrightarrow> pool_ok t (entries (text_lines data))"
proof -
  let ?es = "entries (text_lines data)" and ?s = "scan_lines t (text_lines data) empty_scan"
  have problems: "sn_problems ?s = None \<longleftrightarrow> length ?es \<le> maxSubIDRecords \<and> list_all (\<lambda>line. snd (entry_range line) = None) ?es"
    using scan_lines_entries [where s = empty_scan and lines = "text_lines data" and t = t] by simp
  have "sa_valid (fst (parse_sub_ids data t)) = Some True \<longleftrightarrow>
      (\<forall>k. \<not> overlapping_record (pool_rows t data) k) \<and> sn_problems ?s = None"
    using parse_sub_ids_sweep [OF assms] by (simp add: Let_def)
  also have "\<dots> \<longleftrightarrow> pool_ok t ?es"
  proof (cases "sn_problems ?s = None")
    case True
    then have "entries_of data = ?es" using problems by (simp add: entries_of_def)
    then show ?thesis using True problems pool_rows_disjoint [of ?es t] by (simp add: pool_rows_def pool_ok_def)
  next
    case False
    then show ?thesis using problems by (auto simp: pool_ok_def)
  qed
  finally show ?thesis .
qed

text \<open>
  C25: A pool of subordinate IDs is accepted exactly when it has at most 2048 records, every record (of any owner) is a
  well-formed valid range, and no range of the target intersects any other record of the file: one sort and one
  sweep over the ends decide the same as comparing all pairs.\<close>

theorem parse_sub_ids_accepts:
  assumes "user_identity_is_valid t = None" and "valid_account_input data = None"
  shows "sa_valid (fst (parse_sub_ids data t)) = Some True \<longleftrightarrow>
    length (entries (text_lines data)) \<le> 2048 \<and>
    list_all (\<lambda>line. snd (entry_range line) = None) (entries (text_lines data)) \<and>
    (\<forall>i < length (entries (text_lines data)). \<forall>j < length (entries (text_lines data)).
       i \<noteq> j \<and> entry_owned t (entries (text_lines data) ! i) \<longrightarrow>
       range_ids (range_of (entries (text_lines data) ! i)) \<inter> range_ids (range_of (entries (text_lines data) ! j)) = {})"
  using parse_sub_ids_valid [OF assms] by (simp add: pool_ok_def maxSubIDRecords_def disjoint_ranges_def)

lemma foldl_total:
  "unat n + sum_list (map (\<lambda>r. unat (range_length r)) rs) < 2 ^ 64 \<Longrightarrow>
   unat (foldl (\<lambda>total r. total + ucast (range_length r)) (n :: 64 word) rs) = unat n + sum_list (map (\<lambda>r. unat (range_length r)) rs)"
proof (induction rs arbitrary: n)
  case (Cons r rs)
  have "unat (n + ucast (range_length r)) = unat n + unat (range_length r)"
    using Cons.prems by (simp add: unat_word_ariths)
  then show ?case using Cons by simp
qed simp

lemma length_owned_ranges: "length (owned_ranges t lines) \<le> length lines"
  by (induction lines) (auto simp: owned_ranges_def split: option.splits)

lemma unat_total_length:
  assumes "length rs \<le> 2048"
  shows "unat (total_length rs) = sum_list (map (\<lambda>r. unat (range_length r)) rs)"
proof -
  have "sum_list (map (\<lambda>r. unat (range_length r)) rs) \<le> length rs * 2 ^ 32"
  proof (induction rs)
    case (Cons r rs)
    moreover have "unat (range_length r) < 2 ^ 32" using unsigned_less [of "range_length r"] by simp
    ultimately show ?case by simp
  qed simp
  also have "\<dots> \<le> 2048 * 2 ^ 32" using assms by (rule mult_right_mono) simp
  finally have "sum_list (map (\<lambda>r. unat (range_length r)) rs) < 2 ^ 64" by simp
  then show ?thesis unfolding total_length_def by (subst foldl_total) simp_all
qed

lemma valid_inputs:
  assumes "sa_valid (fst (parse_sub_ids data t)) \<noteq> None"
  shows "user_identity_is_valid t = None" "valid_account_input data = None"
  using assms by (auto simp: parse_sub_ids_def empty_allocation_def split: if_splits)

lemma pool_ok_owned:
  assumes "pool_ok t es"
  shows "sub_id_ranges_is_valid (owned_ranges t es) = None" "length (owned_ranges t es) \<le> 2048"
proof -
  have valid: "list_all (\<lambda>line. snd (entry_range line) = None) es" using assms by (simp add: pool_ok_def)
  have owned: "owned_ranges t es = map range_of (filter (entry_owned t) es)" using entry_rows_all [OF valid] by blast
  have "sorted_wrt (\<lambda>a b. entry_owned t a \<longrightarrow> disjoint_ranges (range_of a) (range_of b)) es"
    using assms by (auto simp: pool_ok_def sorted_wrt_iff_nth_less)
  then have "sorted_wrt (\<lambda>a b. entry_owned t a \<longrightarrow> disjoint_ranges (range_of a) (range_of b)) (filter (entry_owned t) es)"
    by (rule sorted_wrt_filter)
  then have "sorted_wrt (\<lambda>a b. disjoint_ranges (range_of a) (range_of b)) (filter (entry_owned t) es)"
    by (rule sorted_wrt_mono_rel [rotated]) auto
  moreover have "sub_id_range_is_valid (range_of line) = None" if "line \<in> set es" for line
    using valid that by (intro entry_range_valid) (simp add: list_all_iff)
  ultimately show "sub_id_ranges_is_valid (owned_ranges t es) = None"
    unfolding owned by (simp add: sub_id_ranges_disjoint sorted_wrt_map)
  show "length (owned_ranges t es) \<le> 2048"
    using length_owned_ranges [of t es] assms by (simp add: pool_ok_def maxSubIDRecords_def)
qed

lemma accepted_pool_ranges:
  assumes "parse_sub_ids data t = (alloc, err)" and "sa_valid alloc = Some True"
  shows "err = None \<and> sub_id_ranges_is_valid (sa_ranges alloc) = None \<and>
    (\<exists>total. sa_total alloc = Some total \<and> unat total = sum_list (map (\<lambda>r. unat (range_length r)) (sa_ranges alloc)))"
proof -
  have ok: "user_identity_is_valid t = None" "valid_account_input data = None"
    using valid_inputs [of data t] assms by simp_all
  have pool: "pool_ok t (entries (text_lines data))" using parse_sub_ids_valid [OF ok] assms by simp
  then have "entries_of data = entries (text_lines data)" by (simp add: entries_of_def pool_ok_def)
  then have "sa_ranges alloc = owned_ranges t (entries (text_lines data))"
    "err = None" "sa_total alloc = Some (total_length (owned_ranges t (entries (text_lines data))))"
    using parse_sub_ids_sweep [OF ok] assms by (auto simp: Let_def split: if_splits)
  then show ?thesis using pool_ok_owned [OF pool] unat_total_length by simp
qed

text \<open>
  C26: The ranges of an accepted pool pass the model's own validator of subordinate ranges, no error is reported with
  them, and the reported total is the exact number of IDs: the 64-bit sum never wraps around.\<close>

theorem accepted_pool:
  assumes "parse_sub_ids data t = (alloc, err)" and "sa_valid alloc = Some True"
  shows "err = None \<and> sub_id_ranges_is_valid (sa_ranges alloc) = None \<and>
    (\<exists>total. sa_total alloc = Some total \<and> unat total = sum_list (map (\<lambda>r. unat (range_length r)) (sa_ranges alloc)))"
  using assms by (rule accepted_pool_ranges)


section \<open>A concrete pool\<close>

definition example_owner :: user_identity where
  "example_owner = \<lparr>uid = 1000, gid = 1000, username = ''user'', home_dir = ''/home/user'', supplementary_groups = [], groups_known = False\<rparr>"

definition example_pool :: string where
  "example_pool = ''user:100:50'' @ newline # ''#'' @ newline # ''other:150:20''"

lemma example_owner_valid: "user_identity_is_valid example_owner = None"
  by (simp add: user_identity_is_valid_None example_owner_def max_uint32_def MaxIdentityGroups_def)

lemma example_pool_lines: "text_lines example_pool = [''user:100:50'', ''#'', ''other:150:20'']"
  by (simp add: text_lines_def example_pool_def newline_def)

lemma example_pool_input: "valid_account_input example_pool = None"
  unfolding valid_account_input_def example_pool_lines by (simp add: example_pool_def)

lemma example_pool_entries: "entries (text_lines example_pool) = [''user:100:50'', ''other:150:20'']"
  unfolding example_pool_lines by (simp add: entries_def skipped_line_def has_prefix_def)

lemma example_pool_fields:
  "split_n CHR '':'' 4 ''user:100:50'' = [''user'', ''100'', ''50'']" "split_n CHR '':'' 4 ''other:150:20'' = [''other'', ''150'', ''20'']"
  by code_simp+

lemma example_ids: "account_id ''100'' = Inr 100" "account_id ''50'' = Inr 50" "account_id ''150'' = Inr 150" "account_id ''20'' = Inr 20"
  by (simp_all add: account_id_def parse_uint_def decimal_value_def digit_value_def is_digit_def max_uint32_def)

lemma example_pool_ranges:
  "entry_range ''user:100:50'' = (Some \<lparr>range_start = 100, range_length = 50\<rparr>, None)"
  "entry_range ''other:150:20'' = (Some \<lparr>range_start = 150, range_length = 20\<rparr>, None)"
  unfolding entry_range_def example_pool_fields
  by (simp_all add: sub_id_fields_def example_ids account_name_def is_lower_def sub_id_range_is_valid_def range_end_def max_uint32_def)


lemma example_pool_owned: "entry_owned example_owner ''user:100:50''" "\<not> entry_owned example_owner ''other:150:20''"
  unfolding entry_owned_def example_pool_fields
  by (simp_all add: sub_id_owned_def example_owner_def account_id_def is_digit_def)

lemma example_pool_ok: "pool_ok example_owner (entries (text_lines example_pool))"
  unfolding example_pool_entries pool_ok_def
  by (auto simp: example_pool_ranges range_of_def disjoint_ranges_def range_ids_def maxSubIDRecords_def less_Suc_eq nth_Cons split: nat.splits)

theorem parse_sub_ids_accepts_witness:
  "sa_valid (fst (parse_sub_ids example_pool example_owner)) = Some True"
  unfolding parse_sub_ids_accepts [OF example_owner_valid example_pool_input]
  using example_pool_ok by (simp add: pool_ok_def maxSubIDRecords_def disjoint_ranges_def)

theorem accepted_pool_witness:
  "\<exists>alloc. parse_sub_ids example_pool example_owner = (alloc, None) \<and> sub_id_ranges_is_valid (sa_ranges alloc) = None"
proof -
  obtain alloc err where parsed: "parse_sub_ids example_pool example_owner = (alloc, err)" by (cases "parse_sub_ids example_pool example_owner")
  have "sa_valid alloc = Some True"
    using parse_sub_ids_valid [OF example_owner_valid example_pool_input] example_pool_ok parsed by simp
  then show ?thesis using accepted_pool [OF parsed] parsed by auto
qed

end
