(* ===== verification/App_Context.thy ===== *)
theory App_Context
  imports Host_Identity Host_Subids_Laws
begin

text \<open>
  The measurements of the host and of the execution context are projected onto the evaluation context that the
  capability registry sees: \<open>app/host.go\<close> and \<open>app/context.go\<close>.
\<close>

section \<open>Projections\<close>

definition project_host_step :: "observation \<Rightarrow> host_context \<times> completeness \<Rightarrow> host_context \<times> completeness" where
  "project_host_step obs = (\<lambda>(ctx, c).
     case ob_host obs of
       None \<Rightarrow> (ctx, c)
     | Some h \<Rightarrow>
         let c1 = (if c = Unobserved then Complete else c);
             c2 = (if ob_completeness obs \<noteq> Complete then Partial else c1);
             ctx1 = (case ho_cgroups h of None \<Rightarrow> ctx | Some g \<Rightarrow> ctx\<lparr>hc_cgroup_version := cg_mode g\<rparr>);
             ctx2 = (case ho_os h of None \<Rightarrow> ctx1 | Some os \<Rightarrow> ctx1\<lparr>hc_os := os_id os, hc_os_version := os_version_id os\<rparr>);
             ctx3 = (case ho_kernel h of None \<Rightarrow> ctx2 | Some k \<Rightarrow> ctx2\<lparr>hc_kernel := ko_release k, hc_architecture := ko_architecture k\<rparr>);
             ctx4 = (case ho_systemd h of None \<Rightarrow> ctx3 | Some s \<Rightarrow> ctx3\<lparr>hc_systemd_active := sd_running s\<rparr>)
         in (ctx4, c2))"

definition project_host :: "host_context \<Rightarrow> observation list \<Rightarrow> host_context \<times> completeness" where
  "project_host ctx observations = fold project_host_step observations (ctx, Unobserved)"

definition usable_pool :: "sub_id_allocation \<Rightarrow> bool" where
  "usable_pool a \<longleftrightarrow> sa_valid a = Some True \<and> sa_total a \<noteq> None"

definition project_context_step :: "observation \<Rightarrow> identity_context \<Rightarrow> identity_context" where
  "project_context_step obs c =
     (let c1 = (case ob_user_context obs of
            None \<Rightarrow> c
          | Some u \<Rightarrow> (if rd_valid (u_runtime u) = Some True then c\<lparr>id_xdg_runtime_dir := rd_path (u_runtime u)\<rparr> else c)
              \<lparr>id_has_user_systemd := u_accessible u\<rparr>)
      in case ob_subids obs of
           None \<Rightarrow> c1
         | Some s \<Rightarrow>
             if si_provider s \<noteq> ''files'' then c1
             else let c2 = (if usable_pool (si_uid s) then c1\<lparr>id_sub_uid_ranges := sa_ranges (si_uid s)\<rparr> else c1)
               in if usable_pool (si_gid s) then c2\<lparr>id_sub_gid_ranges := sa_ranges (si_gid s)\<rparr> else c2)"

definition project_context_measurements :: "evaluation_context \<Rightarrow> observation list \<Rightarrow> evaluation_context" where
  "project_context_measurements ctx observations = ctx\<lparr>ctx_identity := fold project_context_step observations (ctx_identity ctx)\<rparr>"

section \<open>The projected context stays valid\<close>

lemma read_sub_ids_usable:
  "usable_pool (fst (read_sub_ids env target name obs)) \<Longrightarrow> sub_id_ranges_is_valid (sa_ranges (fst (read_sub_ids env target name obs))) = None"
proof -
  obtain data err where r: "hs_read env 0 name = (data, err)" by fastforce
  obtain out perr where p: "parse_sub_ids data target = (out, perr)" by fastforce
  assume "usable_pool (fst (read_sub_ids env target name obs))"
  then show ?thesis using accepted_pool_ranges [OF p]
    by (auto simp: read_sub_ids_def r p usable_pool_def absent_allocation_def empty_allocation_def sub_id_ranges_is_valid_def Let_def
        split: if_splits)
qed

definition pools_valid :: "observation \<Rightarrow> bool" where
  "pools_valid obs \<longleftrightarrow> (\<forall>s a. ob_subids obs = Some s \<and> a \<in> {si_uid s, si_gid s} \<and> usable_pool a \<longrightarrow> sub_id_ranges_is_valid (sa_ranges a) = None)"

lemma sub_id_probe_pools: "pools_valid (fst (sub_id_probe target env))"
  by (auto simp: pools_valid_def sub_id_probe_def Let_def case_prod_unfold intro: read_sub_ids_usable)

lemma identity_context_cong:
  assumes "identity_context_is_valid c = None" "id_execution d = id_execution c" "id_selection d = id_selection c"
    and "id_current d = id_current c" "id_target d = id_target c" "sub_id_ranges_is_valid (id_sub_uid_ranges d) = None"
    and "sub_id_ranges_is_valid (id_sub_gid_ranges d) = None"
  shows "identity_context_is_valid d = None"
  using assms by (auto simp: identity_context_is_valid_def split: option.splits)

lemma project_step_valid:
  assumes "identity_context_is_valid c = None" "pools_valid obs"
  shows "identity_context_is_valid (project_context_step obs c) = None"
proof (rule identity_context_cong [OF assms(1)])
  show "sub_id_ranges_is_valid (id_sub_uid_ranges (project_context_step obs c)) = None"
    "sub_id_ranges_is_valid (id_sub_gid_ranges (project_context_step obs c)) = None"
    using assms(2) identity_context_is_validD(4,5) [OF assms(1)]
    by (auto simp: project_context_step_def pools_valid_def Let_def split: option.splits)
qed (auto simp: project_context_step_def Let_def split: option.splits)

subsection \<open>Which measurement reaches which field\<close>

text \<open>
  The user contexts and the subordinate ID measurements of the local files, in the order of the observations: the last
  usable one decides, and without one the field keeps its value.
\<close>

definition user_contexts :: "observation list \<Rightarrow> user_context_observation list" where
  "user_contexts observations = List.map_filter ob_user_context observations"

definition file_pools :: "observation list \<Rightarrow> sub_id_observation list" where
  "file_pools observations = filter (\<lambda>s. si_provider s = ''files'') (List.map_filter ob_subids observations)"

definition valid_directories :: "observation list \<Rightarrow> string list" where
  "valid_directories observations =
     map (\<lambda>u. rd_path (u_runtime u)) (filter (\<lambda>u. rd_valid (u_runtime u) = Some True) (user_contexts observations))"

definition usable_ranges :: "(sub_id_observation \<Rightarrow> sub_id_allocation) \<Rightarrow> observation list \<Rightarrow> sub_id_range list list" where
  "usable_ranges which observations = map (\<lambda>s. sa_ranges (which s)) (filter (\<lambda>s. usable_pool (which s)) (file_pools observations))"

definition measured_identity :: "identity_context \<Rightarrow> observation list \<Rightarrow> identity_context" where
  "measured_identity c observations =
     c\<lparr>id_xdg_runtime_dir := last (id_xdg_runtime_dir c # valid_directories observations),
       id_has_user_systemd := last (id_has_user_systemd c # map u_accessible (user_contexts observations)),
       id_sub_uid_ranges := last (id_sub_uid_ranges c # usable_ranges si_uid observations),
       id_sub_gid_ranges := last (id_sub_gid_ranges c # usable_ranges si_gid observations)\<rparr>"

lemmas measured_defs = user_contexts_def file_pools_def valid_directories_def usable_ranges_def

lemma measurements_append:
  "user_contexts (xs @ ys) = user_contexts xs @ user_contexts ys" "file_pools (xs @ ys) = file_pools xs @ file_pools ys"
  "valid_directories (xs @ ys) = valid_directories xs @ valid_directories ys"
  "usable_ranges which (xs @ ys) = usable_ranges which xs @ usable_ranges which ys"
  by (simp_all add: measured_defs List.map_filter_def)

lemma measured_single:
  "user_contexts [obs] = (case ob_user_context obs of None \<Rightarrow> [] | Some u \<Rightarrow> [u])"
  "file_pools [obs] = (case ob_subids obs of None \<Rightarrow> [] | Some s \<Rightarrow> if si_provider s = ''files'' then [s] else [])"
  by (simp_all add: measured_defs List.map_filter_simps split: option.splits)

lemma projection_measured: "project_context_step obs c = measured_identity c [obs]"
  unfolding measured_identity_def valid_directories_def usable_ranges_def measured_single project_context_step_def Let_def
  by (cases "ob_user_context obs"; cases "ob_subids obs") simp_all

lemma measured_identity_append: "measured_identity c (xs @ ys) = measured_identity (measured_identity c xs) ys"
  by (simp add: measured_identity_def measurements_append last_append)

lemma projected_identity: "fold project_context_step observations c = measured_identity c observations"
proof (induction observations rule: rev_induct)
  case Nil
  show ?case by (simp add: measured_identity_def measured_defs List.map_filter_simps)
next
  case (snoc obs observations)
  then show ?case by (simp add: projection_measured measured_identity_append)
qed

text \<open>
  C29: Projecting measurements onto a valid identity context keeps it valid: the subordinate ranges that reach the
  context come from the probe of \<open>/etc/subuid\<close> and \<open>/etc/subgid\<close>, whatever these files hold, so they are in bounds and
  disjoint. Nothing but the runtime directory, the state of the user manager and the two lists of ranges changes: the
  identities, the selector, the host and the runtime of the context are untouched. Each of the four fields has the
  value of the last measurement that may decide it (a valid directory, a user context, a usable allocation of the
  local files), and the value it had where there is none.
\<close>
theorem projected_context_valid:
  assumes "identity_context_is_valid (ctx_identity ctx) = None"
    and "\<forall>obs\<in>set observations. ob_subids obs = None \<or> (\<exists>target env. obs = fst (sub_id_probe target env))"
  shows "identity_context_is_valid (ctx_identity (project_context_measurements ctx observations)) = None \<and>
    project_context_measurements ctx observations = ctx\<lparr>ctx_identity := measured_identity (ctx_identity ctx) observations\<rparr>"
proof
  have "pools_valid obs" if member: "obs \<in> set observations" for obs
  proof (cases "ob_subids obs = None")
    case False
    then have "\<exists>target env. obs = fst (sub_id_probe target env)" using assms(2) member by auto
    then show ?thesis using sub_id_probe_pools by auto
  qed (simp add: pools_valid_def)
  then have "identity_context_is_valid c = None \<Longrightarrow> identity_context_is_valid (fold project_context_step observations c) = None" for c
    by (induction observations arbitrary: c) (simp_all add: project_step_valid)
  then show "identity_context_is_valid (ctx_identity (project_context_measurements ctx observations)) = None"
    using assms(1) by (simp add: project_context_measurements_def)
qed (simp add: project_context_measurements_def projected_identity)

definition subordinate_services :: host_services where
  "subordinate_services = absent_services\<lparr>hs_read := (\<lambda>_ name.
     if name = ''etc/subuid'' \<or> name = ''etc/subgid'' then (example_pool, None) else ([], Some ErrNotExist))\<rparr>"

definition owned_allocation :: sub_id_allocation where
  "owned_allocation = fst (parse_sub_ids example_pool example_owner)"

lemma owned_allocation_ranges: "sa_ranges owned_allocation = [\<lparr>range_start = 100, range_length = 50\<rparr>]"
proof -
  have lines: "skipped_line ''user:100:50'' = False" "skipped_line ''#'' = True" "skipped_line ''other:150:20'' = False"
    by (simp_all add: skipped_line_def has_prefix_def)
  have fields: "sub_id_fields [''user'', ''100'', ''50''] = (Some \<lparr>range_start = 100, range_length = 50\<rparr>, None)"
    "sub_id_fields [''other'', ''150'', ''20''] = (Some \<lparr>range_start = 150, range_length = 20\<rparr>, None)"
    using example_pool_ranges unfolding entry_range_def example_pool_fields by simp_all
  have owned: "sub_id_owned example_owner ''user''" "\<not> sub_id_owned example_owner ''other''"
    using example_pool_owned unfolding entry_owned_def example_pool_fields by simp_all
  show ?thesis
    by (simp add: owned_allocation_def parse_sub_ids_def example_owner_valid example_pool_input example_pool_lines empty_scan_def
        scan_record_def example_pool_fields fields owned lines maxSubIDRecords_def Let_def empty_allocation_def case_prod_unfold)
qed

lemma owned_allocation_usable: "usable_pool owned_allocation"
proof -
  obtain err where parsed: "parse_sub_ids example_pool example_owner = (owned_allocation, err)"
    unfolding owned_allocation_def by (metis prod.collapse)
  have "sa_valid owned_allocation = Some True"
    using parse_sub_ids_valid [OF example_owner_valid example_pool_input] example_pool_ok by (simp add: owned_allocation_def)
  with accepted_pool_ranges [OF parsed this] show ?thesis by (auto simp: usable_pool_def)
qed

lemma subordinate_read:
  "name = ''etc/subuid'' \<or> name = ''etc/subgid'' \<Longrightarrow>
   fst (read_sub_ids subordinate_services example_owner name obs) = owned_allocation\<lparr>sa_present := Some True\<rparr>"
  by (auto simp: read_sub_ids_def subordinate_services_def is_error_def owned_allocation_def Let_def case_prod_unfold example_owner_def)

lemma subordinate_probe:
  "ob_subids (fst (sub_id_probe example_owner subordinate_services)) = Some s \<Longrightarrow>
   si_uid s = owned_allocation\<lparr>sa_present := Some True\<rparr> \<and> si_gid s = owned_allocation\<lparr>sa_present := Some True\<rparr> \<and> si_provider s = ''files''"
  by (auto simp: sub_id_probe_def Let_def case_prod_unfold subordinate_read)
    (simp add: subordinate_services_def sub_id_provider_def ErrNotExist_def)

lemma subordinate_measured: "ob_subids (fst (sub_id_probe example_owner subordinate_services)) \<noteq> None"
  by (simp add: sub_id_probe_def Let_def case_prod_unfold)

lemma subordinate_ranges:
  "usable_ranges si_uid [fst (sub_id_probe example_owner subordinate_services)] = [[\<lparr>range_start = 100, range_length = 50\<rparr>]]"
  using subordinate_measured subordinate_probe owned_allocation_usable
  by (auto simp: usable_ranges_def measured_single usable_pool_def owned_allocation_ranges)

theorem projected_context_valid_witness:
  "identity_context_is_valid (ctx_identity (project_context_measurements example_context
     [fst (sub_id_probe example_owner subordinate_services)])) = None \<and>
   id_sub_uid_ranges (ctx_identity (project_context_measurements example_context
     [fst (sub_id_probe example_owner subordinate_services)])) = [\<lparr>range_start = 100, range_length = 50\<rparr>] \<and>
   id_current (ctx_identity (project_context_measurements example_context
     [fst (sub_id_probe example_owner subordinate_services)])) = Some example_account"
proof -
  have valid: "identity_context_is_valid (ctx_identity example_context) = None"
    by (simp add: example_context_def identity_context_is_valid_def target_selector_is_valid_def
        user_identity_is_valid_def example_account_def sub_id_ranges_is_valid_def max_uint32_def MaxIdentityGroups_def)
  have current: "id_current (ctx_identity example_context) = Some example_account" by (simp add: example_context_def)
  have "\<forall>obs\<in>set [fst (sub_id_probe example_owner subordinate_services)].
      ob_subids obs = None \<or> (\<exists>target env. obs = fst (sub_id_probe target env))" by auto
  note projected = projected_context_valid [OF valid this]
  show ?thesis
    by (intro conjI, rule projected [THEN conjunct1], unfold projected [THEN conjunct2])
      (simp_all add: measured_identity_def subordinate_ranges current)
qed

end
