(* ===== verification/Podman_Services.thy ===== *)
theory Podman_Services
  imports Host_Context
begin

text \<open>
  The services that the Podman probes ask: the scoped files, the command runner, the clock and the context
  (\<open>platform.Environment\<close>). The answers come from the kernel and from commands, so they are arbitrary functions;
  a number tells the calls of one place apart.
\<close>

section \<open>Files and commands\<close>

text \<open>What \<open>Stat\<close> reports in addition to the fields the host probes read (\<open>platform/metadata.go\<close>).\<close>

record file_info = file_stat +
  fi_size :: int
  fi_identity :: "(64 word \<times> 64 word) option"
  fi_null_device :: bool

text \<open>\<open>fault_start\<close> is an \<open>fs.PathError\<close> of the operations \<open>fork/exec\<close> or \<open>chdir\<close>.\<close>

record command_result = exec_result +
  fault_start :: bool

record mounted_filesystem = filesystem_info +
  fi_read_only :: bool

record runtime_services =
  pe_scope :: scope
  pe_now :: "nat \<Rightarrow> instant"
  pe_ctx :: "string \<Rightarrow> nat \<Rightarrow> go_error option"
  pe_files :: bool
  pe_stat :: "nat \<Rightarrow> string \<Rightarrow> go_error + file_info"
  pe_read :: "nat \<Rightarrow> string \<Rightarrow> go_error + string"
  pe_readlink :: "nat \<Rightarrow> string \<Rightarrow> go_error + string"
  pe_executable :: "nat \<Rightarrow> string \<Rightarrow> go_error + bool"
  pe_directory :: "nat \<Rightarrow> string \<Rightarrow> bool \<Rightarrow> go_error + bool"
  pe_statfs :: "nat \<Rightarrow> string \<Rightarrow> go_error + mounted_filesystem"
  pe_runner :: "(command_spec \<Rightarrow> command_result) option"

definition command_failed_to_start :: "command_result \<Rightarrow> bool" where
  "command_failed_to_start r \<longleftrightarrow> er_error r \<noteq> None \<and> fault_start r"

text \<open>\<open>Mode().Perm() & 0o111\<close>.\<close>

definition executable_bits :: "'a file_stat_scheme \<Rightarrow> bool" where
  "executable_bits info \<longleftrightarrow> and (fst_perm info) 0x49 \<noteq> 0"

definition executable_metadata_of :: "'a file_stat_scheme \<Rightarrow> executable_metadata" where
  "executable_metadata_of info = \<lparr>xm_regular = fst_regular info, xm_executable_bits = executable_bits info,
     xm_mode = fst_perm info, xm_uid = map_option fst (fst_owner info), xm_gid = map_option snd (fst_owner info)\<rparr>"

text \<open>\<open>path.Dir\<close>: the path up to its last slash, cleaned.\<close>

definition path_dir :: "string \<Rightarrow> string" where
  "path_dir p = path_clean (rev (dropWhile (\<lambda>c. c \<noteq> CHR ''/'') (rev p)))"

section \<open>Well-formed observations\<close>

text \<open>
  What every Podman probe keeps of the observation it started: its names and scope, a fact for the measurement
  whose completeness is that of the observation or better, and facts with distinct names of that observation.
\<close>

definition runtime_fact :: "observation \<Rightarrow> fact \<Rightarrow> bool" where
  "runtime_fact obs f \<longleftrightarrow> f_id f \<noteq> '''' \<and> f_source f \<noteq> '''' \<and> f_scope f = ob_scope obs \<and> f_timestamp f = ob_timestamp obs \<and>
     (f_completeness f = Complete \<or> f_completeness f = Partial \<and> ob_completeness obs = Partial)"

definition runtime_wf :: "string \<Rightarrow> scope \<Rightarrow> observation \<Rightarrow> bool" where
  "runtime_wf i s obs \<longleftrightarrow> ob_id obs = i \<and> ob_probe_id obs = i \<and> ob_scope obs = s \<and> ob_timestamp obs \<noteq> 0 \<and>
     (ob_completeness obs = Complete \<or> ob_completeness obs = Partial) \<and>
     ob_facts obs \<noteq> [] \<and> f_id (hd (ob_facts obs)) = i @ ''.measurement'' \<and>
     distinct (map f_id (ob_facts obs)) \<and> (\<forall>f\<in>set (ob_facts obs). runtime_fact obs f)"

text \<open>Changes that concern the payload or the diagnostics only.\<close>

definition same_runtime :: "observation \<Rightarrow> observation \<Rightarrow> bool" where
  "same_runtime a b \<longleftrightarrow> ob_id a = ob_id b \<and> ob_probe_id a = ob_probe_id b \<and> ob_timestamp a = ob_timestamp b \<and>
     ob_scope a = ob_scope b \<and> ob_completeness a = ob_completeness b \<and> ob_facts a = ob_facts b"

lemma same_runtime_simps [simp]:
  "same_runtime a a" "same_runtime a (b\<lparr>ob_executable := x\<rparr>) = same_runtime a b"
  "same_runtime a (b\<lparr>ob_quadlet := q\<rparr>) = same_runtime a b" "same_runtime a (b\<lparr>ob_podman := p\<rparr>) = same_runtime a b"
  "same_runtime a (b\<lparr>ob_version := v\<rparr>) = same_runtime a b" "same_runtime a (b\<lparr>ob_discovery := d\<rparr>) = same_runtime a b"
  "same_runtime a (b\<lparr>ob_storage_paths := sp\<rparr>) = same_runtime a b" "same_runtime a (b\<lparr>ob_configuration := c\<rparr>) = same_runtime a b"
  "same_runtime a (b\<lparr>ob_podman_helper := h\<rparr>) = same_runtime a b" "same_runtime a (b\<lparr>ob_diagnostics := ds\<rparr>) = same_runtime a b"
  "same_runtime a (b\<lparr>ob_summary := t\<rparr>) = same_runtime a b" "same_runtime a (note_diagnostic k m b) = same_runtime a b"
  by (auto simp: same_runtime_def note_diagnostic_def)

lemma same_runtime_wf: "same_runtime a b \<Longrightarrow> runtime_wf i s b = runtime_wf i s a"
  unfolding runtime_wf_def runtime_fact_def same_runtime_def by auto

lemma runtime_wf_payload [simp]:
  "runtime_wf i s (b\<lparr>ob_executable := x\<rparr>) = runtime_wf i s b" "runtime_wf i s (b\<lparr>ob_quadlet := q\<rparr>) = runtime_wf i s b"
  "runtime_wf i s (b\<lparr>ob_podman := p\<rparr>) = runtime_wf i s b" "runtime_wf i s (b\<lparr>ob_version := v\<rparr>) = runtime_wf i s b"
  "runtime_wf i s (b\<lparr>ob_discovery := d\<rparr>) = runtime_wf i s b" "runtime_wf i s (b\<lparr>ob_storage_paths := sp\<rparr>) = runtime_wf i s b"
  "runtime_wf i s (b\<lparr>ob_configuration := c\<rparr>) = runtime_wf i s b" "runtime_wf i s (b\<lparr>ob_podman_helper := h\<rparr>) = runtime_wf i s b"
  "runtime_wf i s (b\<lparr>ob_diagnostics := ds\<rparr>) = runtime_wf i s b" "runtime_wf i s (b\<lparr>ob_summary := t\<rparr>) = runtime_wf i s b"
  "runtime_wf i s (note_diagnostic k m b) = runtime_wf i s b"
  by (rule same_runtime_wf; simp)+

lemma runtime_wf_start [simp]: "i \<noteq> '''' \<Longrightarrow> runtime_wf i s (runtime_observation i s at) \<longleftrightarrow> at \<noteq> 0"
  by (auto simp: runtime_observation_def blank_observation_def blank_fact_def runtime_wf_def runtime_fact_def)

lemma runtime_wf_partial: "runtime_wf i s obs \<Longrightarrow> runtime_wf i s (obs\<lparr>ob_completeness := Partial\<rparr>)"
  by (auto simp: runtime_wf_def runtime_fact_def)

lemma runtime_wf_incomplete [simp, intro]: "runtime_wf i s obs \<Longrightarrow> runtime_wf i s (incomplete_observation c obs)"
  by (simp add: incomplete_observation_def runtime_wf_partial)

lemma runtime_wf_failed [simp, intro]:
  assumes "runtime_wf i s obs"
  shows "runtime_wf i s (failed_runtime_observation c obs)"
proof -
  obtain f fs where f: "ob_facts obs = f # fs" using assms by (cases "ob_facts obs") (auto simp: runtime_wf_def)
  have "runtime_wf i s (obs\<lparr>ob_completeness := Partial, ob_facts := f\<lparr>f_completeness := Partial\<rparr> # fs\<rparr>)"
    using assms f by (auto simp: runtime_wf_def runtime_fact_def)
  moreover have "(partial_measurement obs)\<lparr>ob_completeness := Partial\<rparr> =
      obs\<lparr>ob_completeness := Partial, ob_facts := f\<lparr>f_completeness := Partial\<rparr> # fs\<rparr>"
    by (simp add: partial_measurement_def f)
  ultimately show ?thesis by (simp add: failed_runtime_observation_def incomplete_observation_def)
qed

text \<open>The first fact alone is degraded, after the observation.\<close>

lemma runtime_wf_measurement_partial:
  assumes "runtime_wf i s obs" and "ob_completeness obs = Partial"
  shows "runtime_wf i s (partial_measurement obs)"
proof -
  obtain f fs where f: "ob_facts obs = f # fs" using assms by (cases "ob_facts obs") (auto simp: runtime_wf_def)
  show ?thesis using assms f by (auto simp: runtime_wf_def runtime_fact_def partial_measurement_def)
qed

section \<open>The interface of a probe\<close>

locale runtime_probe =
  fixes name :: string and run :: "runtime_services \<Rightarrow> observation \<times> go_error option"
  assumes named: "name \<noteq> ''''"
    and measures: "(\<And>n. pe_now env n \<noteq> 0) \<Longrightarrow> runtime_wf name (pe_scope env) (fst (run env))"
begin

text \<open>Whatever the services answer, the observation is accepted in a dataset of its context.\<close>

lemma accepted:
  assumes "\<And>n. pe_now env n \<noteq> 0" and "scope_is_valid (pe_scope env) = None" and "context_id (pe_scope env) \<in> contexts"
  shows "observation_ok contexts (fst (run env))"
  using measures [of env, OF assms(1)] assms(2,3) named
  by (auto simp: runtime_wf_def observation_ok_def runtime_fact_def fact_ok_def)

lemma fact_names:
  "(\<And>n. pe_now env n \<noteq> 0) \<Longrightarrow> distinct (map f_id (ob_facts (fst (run env))))"
  using measures [of env] by (simp add: runtime_wf_def)

end

end
