(* ===== verification/Podman_Executables.thy ===== *)
theory Podman_Executables
  imports Podman_Services
begin

text \<open>
  The probes for executables (\<open>runtime/podman/executables.go\<close>, \<open>helper.go\<close>, \<open>storage\_helpers.go\<close> and the
  generator search of \<open>quadlet.go\<close>): candidate paths are looked at, never run.
\<close>

section \<open>One candidate\<close>

definition blank_candidate :: "string \<Rightarrow> executable_candidate" where
  "blank_candidate name = \<lparr>xc_path = name, xc_present = None, xc_file = None, xc_device = None, xc_inode = None,
     xc_executable = None, xc_masked = False\<rparr>"

definition executable_from_info :: "runtime_services \<Rightarrow> nat \<Rightarrow> string \<Rightarrow> file_info \<Rightarrow> bool \<Rightarrow>
    executable_candidate \<times> go_error option" where
  "executable_from_info env n name info generator =
     (let c = (blank_candidate name)\<lparr>xc_present := Some True, xc_file := Some (executable_metadata_of info),
            xc_device := map_option fst (fi_identity info), xc_inode := map_option snd (fi_identity info)\<rparr>
      in if generator \<and> (fst_regular info \<and> fi_size info = 0 \<or> fi_null_device info) then (c\<lparr>xc_masked := True\<rparr>, None)
         else if \<not> fst_regular info then (c\<lparr>xc_executable := Some False\<rparr>, None)
         else case pe_executable env n (trim_root name) of
           Inr allowed \<Rightarrow> (c\<lparr>xc_executable := Some allowed\<rparr>, None)
         | Inl err \<Rightarrow> (c, Some err))"

text \<open>A link to the null device masks a generator.\<close>

definition null_mask :: "runtime_services \<Rightarrow> nat \<Rightarrow> string \<Rightarrow> go_error + bool" where
  "null_mask env n name =
     (case pe_readlink env n (trim_root name) of
        Inl err \<Rightarrow> if errors_is err ErrNotExist \<or> errors_is err EINVAL then Inr False else Inl err
      | Inr target \<Rightarrow>
          Inr (path_clean (if path_is_abs target then target else path_join [path_dir name, target]) = ''/dev/null''))"

definition observe_executable :: "runtime_services \<Rightarrow> nat \<Rightarrow> string \<Rightarrow> bool \<Rightarrow> executable_candidate \<times> go_error option" where
  "observe_executable env n name generator =
     (let c = blank_candidate name
      in if \<not> safe_info_path name then (blank_candidate '''', Some ErrMalformed)
         else case pe_ctx env ''candidate'' n of
           Some err \<Rightarrow> (c, Some err)
         | None \<Rightarrow>
             (case (if generator then null_mask env n name else Inr False) of
                Inl err \<Rightarrow> (c, Some err)
              | Inr masked \<Rightarrow>
                  if masked then (c\<lparr>xc_present := Some True, xc_masked := True\<rparr>, None)
                  else case pe_stat env n (trim_root name) of
                    Inl err \<Rightarrow> if errors_is err ErrNotExist then (c\<lparr>xc_present := Some False\<rparr>, None) else (c, Some err)
                  | Inr info \<Rightarrow> executable_from_info env n name info generator))"

section \<open>The probe\<close>

definition maxExecutableCandidates :: nat where "maxExecutableCandidates = 16"
definition sourceConfiguration :: string where "sourceConfiguration = ''configuration''"
definition sourceRuntime :: string where "sourceRuntime = ''runtime''"

record executable_probe =
  xp_role :: string
  xp_source :: string
  xp_source_id :: string
  xp_runtime_path :: string
  xp_paths :: "string list"
  xp_generator :: bool

definition executable_probe_id :: "executable_probe \<Rightarrow> string" where
  "executable_probe_id p = ''podman.executable.'' @ xp_source p @ ''.'' @ xp_role p"

definition update_executable :: "(executable_observation \<Rightarrow> executable_observation) \<Rightarrow> observation \<Rightarrow> observation" where
  "update_executable f obs = obs\<lparr>ob_executable := map_option f (ob_executable obs)\<rparr>"

definition append_candidate :: "executable_candidate \<Rightarrow> observation \<Rightarrow> observation" where
  "append_candidate c = update_executable (\<lambda>x. x\<lparr>x_candidates := x_candidates x @ [c]\<rparr>)"

definition select_path :: "string \<Rightarrow> observation \<Rightarrow> observation" where
  "select_path name = update_executable (\<lambda>x. x\<lparr>x_selected_path := name\<rparr>)"

text \<open>The loop over the paths; an error is that of an early return.\<close>

fun executable_loop :: "runtime_services \<Rightarrow> bool \<Rightarrow> nat \<Rightarrow> string list \<Rightarrow> observation \<Rightarrow> observation \<times> go_error option" where
  "executable_loop env generator n [] obs = (obs, None)"
| "executable_loop env generator n (name # names) obs =
     (let (c, err) = observe_executable env n name generator;
          obs1 = append_candidate c obs;
          obs2 = (if err = None then obs1 else partial_measurement (incomplete_observation ''executable_metadata_unavailable'' obs1))
      in if err \<noteq> None \<and> (generator \<or> pe_ctx env ''failed'' n \<noteq> None) then (obs2, err)
         else if generator \<and> xc_present c = Some True then (select_path name obs2, None)
         else executable_loop env generator (Suc n) names obs2)"

definition executable_start :: "executable_probe \<Rightarrow> runtime_services \<Rightarrow> observation" where
  "executable_start p env = (runtime_observation (executable_probe_id p) (pe_scope env) (pe_now env 0))\<lparr>ob_executable :=
     Some \<lparr>x_role = xp_role p, x_source = xp_source p, x_source_id = xp_source_id p, x_runtime_path = xp_runtime_path p,
       x_selected_path = '''', x_candidates = []\<rparr>\<rparr>"

definition executable_probe_run :: "executable_probe \<Rightarrow> runtime_services \<Rightarrow> observation \<times> go_error option" where
  "executable_probe_run p env =
     (if xp_paths p = [] \<or> maxExecutableCandidates < length (xp_paths p) \<or> \<not> pe_files env
      then (failed_runtime_observation ''executable_candidates_unavailable'' (executable_start p env), Some ErrIncomplete)
      else case executable_loop env (xp_generator p) 0 (xp_paths p) (executable_start p env) of
        (obs, Some err) \<Rightarrow> (obs, Some err)
      | (obs, None) \<Rightarrow>
          ((if (xp_source p = sourceRuntime \<or> xp_source p = sourceConfiguration) \<and> length (xp_paths p) = 1
            then select_path (hd (xp_paths p)) obs else obs), pe_ctx env ''end'' 0))"

section \<open>The probes that are run\<close>

definition helper_directories :: "string list" where
  "helper_directories = [''/usr/local/bin'', ''/usr/bin'', ''/bin'', ''/usr/local/libexec/podman'', ''/usr/libexec/podman'',
     ''/usr/local/lib/podman'', ''/usr/lib/podman'']"

definition helper_probes :: "executable_probe list" where
  "helper_probes = map (\<lambda>role. \<lparr>xp_role = map (\<lambda>c. if c = CHR ''-'' then CHR ''_'' else c) role, xp_source = ''trusted_candidates'',
       xp_source_id = '''', xp_runtime_path = '''', xp_paths = map (\<lambda>dir. dir @ ''/'' @ role) helper_directories, xp_generator = False\<rparr>)
     [''crun'', ''runc'', ''conmon'', ''netavark'', ''aardvark-dns'', ''pasta'', ''slirp4netns'', ''fuse-overlayfs'']"

definition reported_helpers :: "podman_info \<Rightarrow> (string \<times> string) list" where
  "reported_helpers p =
     [(''oci_runtime'', case p_oci_runtime p of None \<Rightarrow> '''' | Some oci \<Rightarrow> oci_path oci), (''conmon'', p_conmon_path p),
      (''netavark'', p_helper_path p), (''aardvark_dns'', p_aardvark_path p), (''pasta'', p_pasta_path p),
      (''slirp4netns'', p_slirp_path p)]"

definition selected_helper_probes :: "observation \<Rightarrow> executable_probe list" where
  "selected_helper_probes info =
     (case ob_podman info of
        None \<Rightarrow> []
      | Some p \<Rightarrow>
          if p_available p \<noteq> Some True \<or> ob_completeness info \<noteq> Complete then []
          else map (\<lambda>(role, name). \<lparr>xp_role = role, xp_source = sourceRuntime, xp_source_id = ob_id info, xp_runtime_path = p_path p,
                   xp_paths = [name], xp_generator = False\<rparr>)
                 (filter (\<lambda>(role, name). name \<noteq> '''') (reported_helpers p)))"

definition quadlet_generator_probe :: "bool \<Rightarrow> executable_probe" where
  "quadlet_generator_probe rootless =
     (let kind = (if rootless then ''user'' else ''system'')
      in \<lparr>xp_role = ''quadlet'', xp_source = ''systemd_'' @ kind @ ''_generators'', xp_source_id = '''', xp_runtime_path = '''',
          xp_paths = map (\<lambda>prefix. prefix @ ''/'' @ kind @ ''-generators/podman-'' @ kind @ ''-generator'')
            [''/run/systemd'', ''/etc/systemd'', ''/usr/local/lib/systemd'', ''/usr/lib/systemd''],
          xp_generator = True\<rparr>)"

text \<open>The declared mount program of a storage configuration or of a runtime; never a substitute for it.\<close>

definition storage_helper_probes :: "observation \<Rightarrow> executable_probe list" where
  "storage_helper_probes source =
     (let probe = (\<lambda>kind runtime selected.
            if \<not> safe_info_path selected then []
            else [\<lparr>xp_role = ''storage_mount_program'', xp_source = kind, xp_source_id = ob_id source, xp_runtime_path = runtime,
                   xp_paths = [selected], xp_generator = False\<rparr>])
      in if ob_completeness source \<noteq> Complete then []
         else case ob_podman source of
           Some info \<Rightarrow>
             if p_available info \<noteq> Some True \<or> p_service_is_remote info = Some True then []
             else probe sourceRuntime (p_path info) (p_storage_mount_program info)
         | None \<Rightarrow>
             (case ob_configuration source of
                None \<Rightarrow> []
              | Some c \<Rightarrow>
                  if c_family c \<noteq> ''storage'' \<or> \<not> c_selection_complete c \<or> \<not> c_parse_complete c then []
                  else case c_storage c of
                    None \<Rightarrow> []
                  | Some storage \<Rightarrow>
                      (case st_mount_program storage of
                         None \<Rightarrow> []
                       | Some program \<Rightarrow> probe sourceConfiguration (c_runtime_path c) (cs_value program))))"

section \<open>The helper of the network backend (helper.go)\<close>

definition helper_start :: "runtime_services \<Rightarrow> instant \<Rightarrow> observation" where
  "helper_start env at = runtime_observation ''podman.network-helper'' (pe_scope env) at"

definition measured_text :: "string \<Rightarrow> string \<Rightarrow> observation \<Rightarrow> observation" where
  "measured_text source t obs =
     (case ob_facts obs of [] \<Rightarrow> obs | f # fs \<Rightarrow> obs\<lparr>ob_facts := f\<lparr>f_source := source, f_text := t\<rparr> # fs\<rparr>)"

definition observe_network_helper :: "runtime_services \<Rightarrow> observation \<Rightarrow> instant \<Rightarrow> observation \<times> go_error option" where
  "observe_network_helper env info at =
     (let obs = helper_start env at;
          refused = (failed_runtime_observation ''invalid_helper_source'' obs, Some (Err ''helper requires matching successful info''))
      in if ob_scope info \<noteq> pe_scope env then refused
         else case ob_podman info of
           None \<Rightarrow> refused
         | Some p \<Rightarrow>
             if p_available p \<noteq> Some True then refused
             else let h = \<lparr>h_path = p_path p, h_info_id = ob_id info, h_helper_path = p_helper_path p, h_present = None\<rparr>;
                      obs1 = obs\<lparr>ob_podman_helper := Some h\<rparr>
               in if \<not> safe_info_path (p_helper_path p) \<or> validate_executable_path (p_helper_path p) \<noteq> None \<or> \<not> pe_files env
                  then (failed_runtime_observation ''missing_helper_path'' obs1, Some (Err ''missing valid helper path or file service''))
                  else case pe_ctx env ''helper'' 0 of
                    Some err \<Rightarrow> (failed_runtime_observation ''helper_cancelled'' obs1, Some err)
                  | None \<Rightarrow>
                      (let r = pe_stat env 0 (trim_root (p_helper_path p));
                           present = (case r of Inl _ \<Rightarrow> False | Inr st \<Rightarrow> fst_regular st \<and> executable_bits st)
                       in if is_error (error_of r) ErrNotExist \<or> error_of r = None
                          then (measured_text ''podman.network-helper''
                                 (if present then ''regular executable metadata observed'' else ''absent or not executable'')
                                 (obs1\<lparr>ob_podman_helper := Some (h\<lparr>h_present := Some present\<rparr>)\<rparr>), None)
                          else (failed_runtime_observation ''helper_unreadable'' obs1, error_of r)))"

end
