(* ===== verification/Podman_Helpers.thy ===== *)
theory Podman_Helpers
  imports Podman_Executables
begin

text \<open>
  The search for the helpers that a configuration selects (\<open>runtime/podman/configured\_helpers.go\<close> and
  \<open>network\_helpers.go\<close>): the configured candidates in their order, then the lookup in the system directories.
\<close>

section \<open>One candidate of the search\<close>

definition candidates_so_far :: "observation \<Rightarrow> executable_candidate list" where
  "candidates_so_far obs = (case ob_executable obs of None \<Rightarrow> [] | Some x \<Rightarrow> x_candidates x)"

text \<open>A file that a lookup might run although it is neither a directory nor regular.\<close>

definition special_file :: "file_info \<Rightarrow> bool" where
  "special_file info \<longleftrightarrow> \<not> fst_dir info \<and> \<not> fst_regular info"

text \<open>The tests by which Podman selects: from its lists without an access check, in a lookup with one.\<close>

definition selects_candidate :: "string \<Rightarrow> bool \<Rightarrow> file_info \<Rightarrow> executable_candidate \<Rightarrow> bool" where
  "selects_candidate role fallback info c \<longleftrightarrow>
     (if fallback then fst_regular info \<and> xc_executable c = Some True
      else \<not> fst_dir info \<and> (role = ''conmon'' \<or> fst_regular info))"

definition configured_candidate :: "runtime_services \<Rightarrow> string \<Rightarrow> string \<Rightarrow> bool \<Rightarrow> observation \<Rightarrow> bool \<times> observation" where
  "configured_candidate env role name fallback obs =
     (let n = length (candidates_so_far obs)
      in if n = maxExecutableCandidates \<or> pe_ctx env ''candidate'' n \<noteq> None \<or> \<not> safe_info_path name
         then (True, failed_runtime_observation ''configured_candidates_incomplete'' obs)
         else case pe_stat env n (trim_root name) of
           Inl err \<Rightarrow>
             let absent = errors_is err ErrNotExist;
                 c = (blank_candidate name)\<lparr>xc_present := (if absent then Some False else None)\<rparr>
             in (\<not> fallback \<and> role = ''oci_runtime'' \<and> \<not> absent,
                 append_candidate c (if absent then obs else failed_runtime_observation ''configured_candidate_unreadable'' obs))
         | Inr info \<Rightarrow>
             let (c, access_err) = executable_from_info env n name info False;
                 obs1 = append_candidate c obs;
                 obs2 = (if access_err = None then obs1 else failed_runtime_observation ''configured_candidate_access_unknown'' obs1);
                 chosen = selects_candidate role fallback info c
             in if fallback \<and> special_file info
                then (True, failed_runtime_observation ''configured_special_file_selection_unknown'' obs2)
                else (chosen, if chosen then select_path name obs2 else obs2))"

fun configured_search :: "runtime_services \<Rightarrow> string \<Rightarrow> (string \<times> bool) list \<Rightarrow> observation \<Rightarrow> bool \<times> observation" where
  "configured_search env role [] obs = (False, obs)"
| "configured_search env role ((name, fallback) # rest) obs =
     (let (stop, obs1) = configured_candidate env role name fallback obs
      in if stop then (True, obs1) else configured_search env role rest obs1)"

section \<open>Helpers of the engine\<close>

text \<open>The configured paths and the name that the lookup falls back to, if the configuration determines them.\<close>

definition engine_helper_paths :: "string \<Rightarrow> engine_configuration \<Rightarrow> (string list \<times> string) option" where
  "engine_helper_paths role engine =
     (if role = ''conmon''
      then (case e_conmon_path engine of
              None \<Rightarrow> None
            | Some paths \<Rightarrow> if cl_inherited_default paths then None else Some (cl_values paths, ''conmon''))
      else case e_runtime engine of
             None \<Rightarrow> None
           | Some runtime \<Rightarrow>
               let name = cs_value runtime
               in if role \<noteq> ''oci_runtime'' \<or> name = '''' then None
                  else if path_is_abs name then Some ([name], name)
                  else case map_of (e_runtimes engine) name of
                    None \<Rightarrow> None
                  | Some paths \<Rightarrow> if cl_inherited_default paths then None else Some (cl_values paths, name))"

definition fallback_paths :: "string \<Rightarrow> string list" where
  "fallback_paths name =
     (if path_is_abs name then [name] else [path_join [''/usr/bin'', name], path_join [''/bin'', name]])"

definition configured_helper_id :: "string \<Rightarrow> string" where
  "configured_helper_id role = ''podman.executable.configuration.'' @ role"

definition configured_start :: "runtime_services \<Rightarrow> string \<Rightarrow> observation \<Rightarrow> observation" where
  "configured_start env role source = (runtime_observation (configured_helper_id role) (pe_scope env) (pe_now env 0))\<lparr>ob_executable :=
     Some \<lparr>x_role = role, x_source = sourceConfiguration, x_source_id = ob_id source,
       x_runtime_path = (case ob_configuration source of None \<Rightarrow> '''' | Some c \<Rightarrow> c_runtime_path c),
       x_selected_path = '''', x_candidates = []\<rparr>\<rparr>"

text \<open>The source has selected and parsed its configuration completely, in this scope.\<close>

definition bound_configuration :: "runtime_services \<Rightarrow> observation \<Rightarrow> configuration_observation \<Rightarrow> bool" where
  "bound_configuration env source c \<longleftrightarrow> c_selection_complete c \<and> c_parse_complete c \<and> ob_scope source = pe_scope env \<and>
     ob_completeness source = Complete \<and> pe_files env"

definition environment_modelled :: "engine_configuration \<Rightarrow> bool" where
  "environment_modelled engine \<longleftrightarrow>
     (case e_environment engine of None \<Rightarrow> True | Some e \<Rightarrow> cr_count e = 0 \<and> \<not> cr_inherited_default e)"

definition configured_helper_run :: "string \<Rightarrow> observation \<Rightarrow> runtime_services \<Rightarrow> observation \<times> go_error option" where
  "configured_helper_run role source env =
     (let obs = configured_start env role source;
          failed = (\<lambda>code. (failed_runtime_observation code obs, Some ErrIncomplete))
      in case ob_configuration source of
           None \<Rightarrow> failed ''configured_selection_incomplete''
         | Some c \<Rightarrow>
             (case c_engine c of
                None \<Rightarrow> failed ''configured_selection_incomplete''
              | Some engine \<Rightarrow>
                  if \<not> bound_configuration env source c then failed ''configured_selection_incomplete''
                  else if e_selection_overrides engine then failed ''configured_runtime_override_unmodeled''
                  else if \<not> environment_modelled engine then failed ''configured_environment_unmodeled''
                  else case engine_helper_paths role engine of
                    None \<Rightarrow> failed ''configured_default_unobserved''
                  | Some (paths, name) \<Rightarrow>
                      (snd (configured_search env role
                        (map (\<lambda>p. (p, False)) paths @ map (\<lambda>p. (p, True)) (fallback_paths name)) obs),
                       pe_ctx env ''end'' 0)))"

definition configured_helper_roles :: "observation \<Rightarrow> string list" where
  "configured_helper_roles source =
     (case ob_configuration source of
        None \<Rightarrow> [] | Some c \<Rightarrow> if c_family c \<noteq> ''engine'' then [] else [''oci_runtime'', ''conmon''])"

section \<open>Helpers of the network\<close>

definition network_helper_run :: "string \<Rightarrow> observation \<Rightarrow> runtime_services \<Rightarrow> observation \<times> go_error option" where
  "network_helper_run role source env =
     (let obs = configured_start env role source;
          failed = (\<lambda>code. (failed_runtime_observation code obs, Some ErrIncomplete))
      in case pe_ctx env ''start'' 0 of
           Some err \<Rightarrow> (failed_runtime_observation ''configured_selection_incomplete'' (obs\<lparr>ob_executable :=
             map_option (\<lambda>x. x\<lparr>x_runtime_path := ''''\<rparr>) (ob_executable obs)\<rparr>), Some err)
         | None \<Rightarrow>
             (case ob_configuration source of
                None \<Rightarrow> failed ''configured_selection_incomplete''
              | Some c \<Rightarrow>
                  (case c_network c of
                     None \<Rightarrow> failed ''configured_selection_incomplete''
                   | Some network \<Rightarrow>
                       if \<not> bound_configuration env source c then failed ''configured_selection_incomplete''
                       else case map_of (n_helper_paths network) role of
                         None \<Rightarrow> failed ''configured_default_unobserved''
                       | Some plan \<Rightarrow>
                           if cl_inherited_default plan then failed ''configured_default_unobserved''
                           else (snd (configured_search env role (map (\<lambda>p. (p, True)) (cl_values plan)) obs),
                                 pe_ctx env ''end'' 0))))"

definition network_helper_roles :: "observation \<Rightarrow> string list" where
  "network_helper_roles source =
     (case ob_configuration source of
        None \<Rightarrow> [] | Some c \<Rightarrow> if c_family c \<noteq> ''network'' then [] else [''netavark'', ''aardvark_dns'', ''pasta'', ''slirp4netns''])"

end
