(* ===== verification/Podman_Helper_Laws.thy ===== *)
theory Podman_Helper_Laws
  imports Podman_Helpers Catalog_Verdicts
begin

text \<open>
  What the search for configured helpers decides: a complete observation selects the first path that Podman's own
  search would take, and every path before it is known to be refused.
\<close>

section \<open>The search as Podman performs it\<close>

text \<open>\<open>n\<close> is the position of the path; the services answer about that position.\<close>

definition search_takes :: "runtime_services \<Rightarrow> string \<Rightarrow> nat \<Rightarrow> string \<times> bool \<Rightarrow> bool" where
  "search_takes env role n = (\<lambda>(name, fallback). safe_info_path name \<and>
     (\<exists>info. pe_stat env n (trim_root name) = Inr info \<and>
        (if fallback then fst_regular info \<and> pe_executable env n (trim_root name) = Inr True
         else \<not> fst_dir info \<and> (role = ''conmon'' \<or> fst_regular info))))"

definition search_refuses :: "runtime_services \<Rightarrow> string \<Rightarrow> nat \<Rightarrow> string \<times> bool \<Rightarrow> bool" where
  "search_refuses env role n = (\<lambda>(name, fallback). safe_info_path name \<and>
     (case pe_stat env n (trim_root name) of
        Inl err \<Rightarrow> errors_is err ErrNotExist
      | Inr info \<Rightarrow>
          if fallback then \<not> special_file info \<and> (fst_regular info \<longrightarrow> pe_executable env n (trim_root name) = Inr False)
          else fst_dir info \<or> role \<noteq> ''conmon'' \<and> \<not> fst_regular info))"

lemma executable_from_info_candidate:
  "executable_from_info env n name info False = (c, err) \<Longrightarrow>
   xc_path c = name \<and> xc_present c = Some True \<and> (xc_executable c = Some True \<longrightarrow> fst_regular info \<and> pe_executable env n (trim_root name) = Inr True) \<and>
   (err = None \<and> fst_regular info \<longrightarrow> (\<exists>b. pe_executable env n (trim_root name) = Inr b \<and> xc_executable c = Some b)) \<and>
   (\<not> fst_regular info \<longrightarrow> err = None \<and> xc_executable c = Some False)"
  by (auto simp: executable_from_info_def blank_candidate_def Let_def split: if_splits sum.splits)

text \<open>What a step of the search adds.\<close>

lemma append_candidate_fields [simp]:
  "ob_completeness (append_candidate c obs) = ob_completeness obs"
  "ob_executable (append_candidate c obs) = map_option (\<lambda>x. x\<lparr>x_candidates := x_candidates x @ [c]\<rparr>) (ob_executable obs)"
  "ob_completeness (select_path p obs) = ob_completeness obs"
  "ob_executable (select_path p obs) = map_option (\<lambda>x. x\<lparr>x_selected_path := p\<rparr>) (ob_executable obs)"
  by (simp_all add: append_candidate_def select_path_def update_executable_def)

lemma configured_candidate_complete:
  assumes "configured_candidate env role name fallback obs = (stop, obs')" and "ob_completeness obs' = Complete"
    and "ob_executable obs = Some x" and "length (x_candidates x) = n"
  shows "ob_completeness obs = Complete \<and>
    (\<exists>c. ob_executable obs' = Some (x\<lparr>x_candidates := x_candidates x @ [c],
         x_selected_path := if stop then name else x_selected_path x\<rparr>) \<and> xc_path c = name) \<and>
    (if stop then search_takes env role n (name, fallback) else search_refuses env role n (name, fallback))"
proof -
  have n: "length (candidates_so_far obs) = n" using assms(3,4) by (simp add: candidates_so_far_def)
  have safe: "safe_info_path name"
    using assms(1,2) by (auto simp: configured_candidate_def Let_def observation_simps split: if_splits)
  show ?thesis
  proof (cases "pe_stat env n (trim_root name)")
    case (Inl err)
    then have "errors_is err ErrNotExist" "\<not> stop"
        "obs' = append_candidate ((blank_candidate name)\<lparr>xc_present := Some False\<rparr>) obs"
      using assms(1,2) by (auto simp: configured_candidate_def Let_def n observation_simps split: if_splits)
    then show ?thesis using assms(2,3) Inl safe by (auto simp: search_refuses_def blank_candidate_def)
  next
    case (Inr info)
    obtain c err where c: "executable_from_info env n name info False = (c, err)" by fastforce
    note facts = executable_from_info_candidate [OF c]
    have ok: "err = None" "\<not> (fallback \<and> special_file info)" "stop = selects_candidate role fallback info c"
        "obs' = (if stop then select_path name (append_candidate c obs) else append_candidate c obs)"
      using assms(1,2) Inr c by (auto simp: configured_candidate_def Let_def n observation_simps split: if_splits)
    have "if stop then search_takes env role n (name, fallback) else search_refuses env role n (name, fallback)"
    proof (cases fallback)
      case True
      then show ?thesis using facts ok(1-3) safe Inr
        by (cases "fst_regular info") (auto simp: search_takes_def search_refuses_def selects_candidate_def)
    next
      case False
      then show ?thesis using ok(3) safe Inr by (auto simp: search_takes_def search_refuses_def selects_candidate_def)
    qed
    moreover have "ob_completeness obs = Complete" using assms(2) ok(4) by (cases stop) simp_all
    moreover have "\<exists>c. ob_executable obs' = Some (x\<lparr>x_candidates := x_candidates x @ [c],
         x_selected_path := if stop then name else x_selected_path x\<rparr>) \<and> xc_path c = name"
      using assms(3) ok(4) facts by (intro exI [of _ c]) simp
    ultimately show ?thesis by blast
  qed
qed

lemma configured_search_complete:
  assumes "configured_search env role paths obs = (stop, obs')" and "ob_completeness obs' = Complete"
    and "ob_executable obs = Some x" and "length (x_candidates x) = n"
  shows "\<exists>k cs. k \<le> length paths \<and> (\<forall>i<k. search_refuses env role (n + i) (paths ! i)) \<and>
    stop = (k < length paths) \<and> (stop \<longrightarrow> search_takes env role (n + k) (paths ! k)) \<and>
    map xc_path cs = map fst (take (if stop then Suc k else k) paths) \<and>
    ob_executable obs' = Some (x\<lparr>x_candidates := x_candidates x @ cs,
      x_selected_path := if stop then fst (paths ! k) else x_selected_path x\<rparr>)"
  using assms
proof (induction paths arbitrary: obs x n)
  case Nil
  then show ?case by (intro exI [of _ 0] exI [of _ "[]"]) auto
next
  case (Cons p rest)
  obtain name fallback where p: "p = (name, fallback)" by (cases p)
  obtain stop1 obs1 where step: "configured_candidate env role name fallback obs = (stop1, obs1)" by fastforce
  show ?case
  proof (cases stop1)
    case True
    then have "stop" "obs' = obs1" using Cons.prems(1) step p by simp_all
    moreover obtain c where "ob_executable obs1 = Some (x\<lparr>x_candidates := x_candidates x @ [c], x_selected_path := name\<rparr>)"
        "xc_path c = name" "search_takes env role n (name, fallback)"
      using configured_candidate_complete [OF step _ Cons.prems(3,4)] Cons.prems(2) True \<open>obs' = obs1\<close> by auto
    ultimately show ?thesis using p by (intro exI [of _ 0] exI [of _ "[c]"]) simp
  next
    case False
    then have rest: "configured_search env role rest obs1 = (stop, obs')" using Cons.prems(1) step p by simp
    have c1: "ob_completeness obs1 = Complete"
      using rest Cons.prems(2)
    proof (induction rest arbitrary: obs1)
      case (Cons q qs)
      obtain nm fb where q: "q = (nm, fb)" by (cases q)
      obtain s o2 where s: "configured_candidate env role nm fb obs1 = (s, o2)" by fastforce
      have "ob_completeness o2 = Complete" using Cons s q by (cases s) auto
      then show ?case using s
        by (auto simp: configured_candidate_def Let_def observation_simps split: if_splits sum.splits prod.splits)
    qed simp
    from configured_candidate_complete [OF step c1 Cons.prems(3,4)] False obtain c
      where c: "ob_executable obs1 = Some (x\<lparr>x_candidates := x_candidates x @ [c], x_selected_path := x_selected_path x\<rparr>)"
        "xc_path c = name" and refused: "search_refuses env role n (name, fallback)" by auto
    have len: "length (x_candidates (x\<lparr>x_candidates := x_candidates x @ [c], x_selected_path := x_selected_path x\<rparr>)) = Suc n"
      using Cons.prems(4) by simp
    obtain k cs where k: "k \<le> length rest" "\<forall>i<k. search_refuses env role (Suc n + i) (rest ! i)" "stop = (k < length rest)"
        "stop \<longrightarrow> search_takes env role (Suc n + k) (rest ! k)" "map xc_path cs = map fst (take (if stop then Suc k else k) rest)"
        "ob_executable obs' = Some (x\<lparr>x_candidates := (x_candidates x @ [c]) @ cs,
           x_selected_path := if stop then fst (rest ! k) else x_selected_path x\<rparr>)"
      using Cons.IH [OF rest Cons.prems(2) c(1) len] by auto
    have "\<forall>i<Suc k. search_refuses env role (n + i) ((p # rest) ! i)"
      using k(2) refused p by (auto simp: less_Suc_eq_0_disj)
    then show ?thesis using k c p by (intro exI [of _ "Suc k"] exI [of _ "c # cs"]) auto
  qed
qed

section \<open>Every candidate is measured\<close>

text \<open>
  A candidate that is reported as executable names a path the services reported as a regular file to which the
  target has execute access; its metadata is what \<open>Stat\<close> returned.
\<close>

definition candidate_measured :: "runtime_services \<Rightarrow> executable_candidate \<Rightarrow> bool" where
  "candidate_measured env c \<longleftrightarrow> (xc_executable c = Some True \<longrightarrow>
     (\<exists>n info. safe_info_path (xc_path c) \<and> pe_stat env n (trim_root (xc_path c)) = Inr info \<and> fst_regular info \<and>
        pe_executable env n (trim_root (xc_path c)) = Inr True \<and> xc_file c = Some (executable_metadata_of info)))"

definition candidates_measured :: "runtime_services \<Rightarrow> observation \<Rightarrow> bool" where
  "candidates_measured env obs \<longleftrightarrow> (\<forall>c\<in>set (candidates_so_far obs). candidate_measured env c)"

lemma candidates_so_far_simps [simp]:
  "candidates_so_far (select_path p obs) = candidates_so_far obs"
  "candidates_so_far (failed_runtime_observation k obs) = candidates_so_far obs"
  "candidates_so_far (incomplete_observation k obs) = candidates_so_far obs"
  "candidates_so_far (partial_measurement obs) = candidates_so_far obs"
  by (simp_all add: candidates_so_far_def observation_simps split: option.split)

lemma candidates_measured_simps [simp]:
  "candidates_measured env (select_path p obs) = candidates_measured env obs"
  "candidates_measured env (failed_runtime_observation k obs) = candidates_measured env obs"
  "candidates_measured env (incomplete_observation k obs) = candidates_measured env obs"
  "candidates_measured env (partial_measurement obs) = candidates_measured env obs"
  by (simp_all add: candidates_measured_def)

lemma candidates_measured_add: "candidates_measured env obs \<Longrightarrow> candidate_measured env c \<Longrightarrow> candidates_measured env (append_candidate c obs)"
  by (auto simp: candidates_measured_def candidates_so_far_def split: option.splits)

lemma candidate_measured_info:
  assumes "executable_from_info env n name info g = (c, err)" and "pe_stat env n (trim_root name) = Inr info" and "safe_info_path name"
  shows "candidate_measured env c"
proof (cases "xc_executable c = Some True")
  case True
  then have "fst_regular info" "pe_executable env n (trim_root name) = Inr True" "xc_path c = name"
      "xc_file c = Some (executable_metadata_of info)"
    using assms(1) by (auto simp: executable_from_info_def blank_candidate_def Let_def split: if_splits sum.splits)
  then show ?thesis using assms(2,3) unfolding candidate_measured_def by blast
qed (simp add: candidate_measured_def)

lemma candidate_unmeasured [simp]: "xc_executable c = None \<Longrightarrow> candidate_measured env c"
  by (simp add: candidate_measured_def)

lemma blank_candidate_fields [simp]: "xc_executable (blank_candidate p) = None" "xc_path (blank_candidate p) = p" "xc_present (blank_candidate p) = None"
  by (simp_all add: blank_candidate_def)

lemma observe_executable_measured: "observe_executable env n name g = (c, err) \<Longrightarrow> candidate_measured env c"
  by (auto simp: observe_executable_def Let_def intro: candidate_measured_info split: if_splits option.splits sum.splits)

lemma executable_loop_measured:
  "executable_loop env g n names obs = (obs', err) \<Longrightarrow> candidates_measured env obs \<Longrightarrow> candidates_measured env obs'"
proof (induction env g n names obs rule: executable_loop.induct)
  case (2 env g n name names obs)
  obtain c e where c: "observe_executable env n name g = (c, e)" by fastforce
  have m: "candidates_measured env (append_candidate c obs)"
    using 2(3) observe_executable_measured [OF c] by (rule candidates_measured_add)
  show ?case using 2(1) [OF c [symmetric] refl refl] 2(2) c m by (auto simp: Let_def split: if_splits)
qed simp

lemma configured_candidate_measured:
  assumes "candidates_measured env obs"
  shows "candidates_measured env (snd (configured_candidate env role name fallback obs))"
proof -
  let ?n = "length (candidates_so_far obs)"
  consider (early) "?n = maxExecutableCandidates \<or> pe_ctx env ''candidate'' ?n \<noteq> None \<or> \<not> safe_info_path name"
    | (unread) err where "safe_info_path name" "pe_stat env ?n (trim_root name) = Inl err"
    | (read) info where "safe_info_path name" "pe_stat env ?n (trim_root name) = Inr info"
    by (cases "pe_stat env ?n (trim_root name)") blast+
  then show ?thesis
  proof cases
    case (read info)
    obtain c err where c: "executable_from_info env ?n name info False = (c, err)" by fastforce
    have "candidates_measured env (append_candidate c obs)"
      using assms candidate_measured_info [OF c read(2,1)] by (rule candidates_measured_add)
    then show ?thesis using read c assms by (simp add: configured_candidate_def Let_def)
  qed (use assms in \<open>simp_all add: configured_candidate_def Let_def candidates_measured_add\<close>)
qed

lemma configured_search_measured:
  "candidates_measured env obs \<Longrightarrow> candidates_measured env (snd (configured_search env role paths obs))"
proof (induction paths arbitrary: obs)
  case (Cons p rest)
  then show ?case using configured_candidate_measured [of env obs role "fst p" "snd p"]
    by (cases p) (auto simp: Let_def case_prod_unfold)
qed simp

lemma start_measured [simp]:
  "candidates_measured env (configured_start env' role source)" "candidates_measured env (executable_start p env')"
  by (simp_all add: candidates_measured_def candidates_so_far_def configured_start_def executable_start_def)

text \<open>The observations that the three probes make of an executable, given the answers of the services.\<close>

definition executable_probe_result :: "runtime_services \<Rightarrow> observation \<Rightarrow> bool" where
  "executable_probe_result env obs \<longleftrightarrow>
     (\<exists>p. obs = fst (executable_probe_run p env)) \<or> (\<exists>role source. obs = fst (configured_helper_run role source env)) \<or>
     (\<exists>role source. obs = fst (network_helper_run role source env))"

lemma no_runtime_path [simp]:
  "candidates_measured env (obs\<lparr>ob_executable := map_option (\<lambda>x. x\<lparr>x_runtime_path := p\<rparr>) (ob_executable obs)\<rparr>) = candidates_measured env obs"
  by (simp add: candidates_measured_def candidates_so_far_def split: option.split)

lemma executable_probe_measured:
  assumes "executable_probe_result env obs"
  shows "candidates_measured env obs"
proof -
  have "candidates_measured env (fst (executable_probe_run p env))" for p
    using executable_loop_measured [of env "xp_generator p" 0 "xp_paths p" "executable_start p env"]
    by (auto simp: executable_probe_run_def split: prod.split option.split)
  moreover have "candidates_measured env (fst (configured_helper_run role source env))" for role source
    by (simp add: configured_helper_run_def Let_def configured_search_measured split: option.split prod.split)
  moreover have "candidates_measured env (fst (network_helper_run role source env))" for role source
    by (simp add: network_helper_run_def Let_def configured_search_measured split: option.split prod.split)
  ultimately show ?thesis using assms unfolding executable_probe_result_def by metis
qed

section \<open>Configured helpers\<close>

text \<open>The paths that a configuration of the engine gives for a role, in the order of the search.\<close>

definition engine_search_plan :: "string \<Rightarrow> observation \<Rightarrow> (string \<times> bool) list option" where
  "engine_search_plan role source =
     (case ob_configuration source of
        None \<Rightarrow> None
      | Some c \<Rightarrow> (case c_engine c of
          None \<Rightarrow> None
        | Some engine \<Rightarrow> map_option (\<lambda>(paths, name). map (\<lambda>p. (p, False)) paths @ map (\<lambda>p. (p, True)) (fallback_paths name))
            (engine_helper_paths role engine)))"

lemma configured_start_executable:
  "\<exists>x. ob_executable (configured_start env role source) = Some x \<and> x_candidates x = [] \<and> x_selected_path x = '''' \<and> x_role x = role"
  by (simp add: configured_start_def)

lemma search_from_start:
  assumes "ob_completeness (snd (configured_search env role plan (configured_start env role source))) = Complete"
  shows "\<exists>k x. k \<le> length plan \<and> (\<forall>i<k. search_refuses env role i (plan ! i)) \<and>
    ob_executable (snd (configured_search env role plan (configured_start env role source))) = Some x \<and> x_role x = role \<and>
    map xc_path (x_candidates x) = map fst (take (Suc k) plan) \<and>
    (if k < length plan then search_takes env role k (plan ! k) \<and> x_selected_path x = fst (plan ! k) else x_selected_path x = '''')"
proof -
  obtain stop obs' where r: "configured_search env role plan (configured_start env role source) = (stop, obs')" by fastforce
  obtain x where x: "ob_executable (configured_start env role source) = Some x" "x_candidates x = []" "x_selected_path x = ''''"
      "x_role x = role" using configured_start_executable by blast
  have "length (x_candidates x) = 0" "ob_completeness obs' = Complete" using x assms r by simp_all
  from configured_search_complete [OF r this(2) x(1) this(1)] obtain k cs where k: "k \<le> length plan"
      "\<forall>i<k. search_refuses env role i (plan ! i)" "stop = (k < length plan)" "stop \<longrightarrow> search_takes env role k (plan ! k)"
      "map xc_path cs = map fst (take (if stop then Suc k else k) plan)"
      "ob_executable obs' = Some (x\<lparr>x_candidates := cs, x_selected_path := if stop then fst (plan ! k) else ''''\<rparr>)"
    using x(2,3) by auto
  then show ?thesis using r x by (intro exI [of _ k]) (cases stop; auto)
qed

text \<open>
  C21: a complete observation of a configured helper of the engine (the OCI runtime or conmon) reproduces Podman's own
  search over the measured files: it selects the first path, of the configured list and then of the system
  directories, that the search takes; every earlier path is known to be refused; and it selects nothing only if every
  path of the plan is refused. The candidates it reports are exactly the paths looked at, in order.
\<close>

theorem configured_helper_selection:
  assumes "configured_helper_run role source env = (obs, err)" and "ob_completeness obs = Complete"
  shows "\<exists>plan k x. engine_search_plan role source = Some plan \<and> k \<le> length plan \<and>
    (\<forall>i<k. search_refuses env role i (plan ! i)) \<and> ob_executable obs = Some x \<and>
    map xc_path (x_candidates x) = map fst (take (Suc k) plan) \<and>
    (if k < length plan then search_takes env role k (plan ! k) \<and> x_selected_path x = fst (plan ! k) else x_selected_path x = '''')"
proof -
  obtain c engine paths name where plan: "ob_configuration source = Some c" "c_engine c = Some engine"
      "engine_helper_paths role engine = Some (paths, name)"
    and run: "obs = snd (configured_search env role (map (\<lambda>p. (p, False)) paths @ map (\<lambda>p. (p, True)) (fallback_paths name))
        (configured_start env role source))"
    using assms by (auto simp: configured_helper_run_def Let_def observation_simps split: option.splits if_splits)
  obtain xs where xs: "xs = map (\<lambda>p. (p, False)) paths @ map (\<lambda>p. (p, True)) (fallback_paths name)" by blast
  have obs: "obs = snd (configured_search env role xs (configured_start env role source))" unfolding run xs ..
  have "engine_search_plan role source = Some xs" using plan by (simp add: engine_search_plan_def xs)
  then show ?thesis using search_from_start [OF assms(2) [unfolded obs]] unfolding obs by blast
qed

text \<open>The same for the lookup of the network's helpers.\<close>

lemma network_helper_selection:
  assumes "network_helper_run role source env = (obs, err)" and "ob_completeness obs = Complete"
  shows "\<exists>c network paths k x. ob_configuration source = Some c \<and> c_network c = Some network \<and>
    map_of (n_helper_paths network) role = Some paths \<and> k \<le> length (cl_values paths) \<and>
    (\<forall>i<k. search_refuses env role i (cl_values paths ! i, True)) \<and> ob_executable obs = Some x \<and>
    (if k < length (cl_values paths) then search_takes env role k (cl_values paths ! k, True) \<and> x_selected_path x = cl_values paths ! k
     else x_selected_path x = '''')"
proof -
  obtain c network paths where plan: "ob_configuration source = Some c" "c_network c = Some network"
      "map_of (n_helper_paths network) role = Some paths"
    and obs: "obs = snd (configured_search env role (map (\<lambda>p. (p, True)) (cl_values paths)) (configured_start env role source))"
    using assms by (auto simp: network_helper_run_def Let_def observation_simps split: option.splits if_splits)
  obtain k x where k: "k \<le> length (cl_values paths)" "\<forall>i<k. search_refuses env role i (map (\<lambda>p. (p, True)) (cl_values paths) ! i)"
      "ob_executable obs = Some x"
      "if k < length (cl_values paths) then search_takes env role k (map (\<lambda>p. (p, True)) (cl_values paths) ! k) \<and>
         x_selected_path x = fst (map (\<lambda>p. (p, True)) (cl_values paths) ! k) else x_selected_path x = ''''"
    using search_from_start [OF assms(2) [unfolded obs]] unfolding obs by auto
  show ?thesis
    by (rule exI [of _ c], rule exI [of _ network], rule exI [of _ paths], rule exI [of _ k], rule exI [of _ x])
      (use plan k in \<open>auto split: if_splits\<close>)
qed

section \<open>The verdict on a selected executable\<close>

lemma selected_candidate_measured:
  assumes "executable_probe_result env ob" and "ob_executable ob = Some x" and "c \<in> set (x_candidates x)" and "xc_executable c = Some True"
  shows "\<exists>n info. safe_info_path (xc_path c) \<and> pe_stat env n (trim_root (xc_path c)) = Inr info \<and> fst_regular info \<and>
    pe_executable env n (trim_root (xc_path c)) = Inr True \<and> xc_file c = Some (executable_metadata_of info)"
proof -
  have "candidate_measured env c"
    using executable_probe_measured [OF assms(1)] assms(2,3) by (simp add: candidates_measured_def candidates_so_far_def)
  then show ?thesis using assms(4) by (simp add: candidate_measured_def)
qed

text \<open>
  C14: the verdict that a selected executable (a container runtime, conmon or a network helper) can be run rests on the
  kernel's answers about the selected path, whichever of the three probes observed it. Whatever services each
  observation of an executable was made with (\<open>services\<close>), some observation of this scope and role was made with
  services whose \<open>Stat\<close> of the selected path, a safe path, reported a regular file with an executable bit and whose
  access check of that path allowed the target's execution. Neither a configuration nor what a runtime reports about
  itself is enough.
\<close>

theorem executable_verdict_measured:
  fixes services :: "observation \<Rightarrow> runtime_services"
  assumes "ev \<in> set (selected_executable_evidence role cid s observations)" and "ev_state ev = StateSupported"
    and "\<forall>ob\<in>set observations. ob_executable ob = None \<or> executable_probe_result (services ob) ob"
  shows "\<exists>ob\<in>set observations. \<exists>x. ob_scope ob = s \<and> ob_executable ob = Some x \<and> x_role x = role \<and> safe_info_path (x_selected_path x) \<and>
    (\<exists>n info. pe_stat (services ob) n (trim_root (x_selected_path x)) = Inr info \<and> fst_regular info \<and> executable_bits info \<and>
       pe_executable (services ob) n (trim_root (x_selected_path x)) = Inr True)"
proof -
  obtain ob x c where ob: "ob \<in> set observations" "ob_scope ob = s" "ob_executable ob = Some x" "x_role x = role"
    and c: "c \<in> set (x_candidates x)" "xc_path c = x_selected_path x" "xc_executable c = Some True"
      "\<exists>f. xc_file c = Some f \<and> xm_executable_bits f"
    using selected_supported [OF assms(1,2)] unfolding usable_selection_iff by blast
  have "executable_probe_result (services ob) ob" using assms(3) ob(1,3) by auto
  from selected_candidate_measured [OF this ob(3) c(1,3)] obtain n info where
      m: "safe_info_path (xc_path c)" "pe_stat (services ob) n (trim_root (xc_path c)) = Inr info" "fst_regular info"
        "pe_executable (services ob) n (trim_root (xc_path c)) = Inr True" "xc_file c = Some (executable_metadata_of info)" by blast
  moreover from m(5) c(4) have "executable_bits info" by (auto simp: executable_metadata_of_def)
  ultimately show ?thesis using ob unfolding c(2)
    by (intro bexI [of _ ob] exI [of _ x]) blast+
qed

section \<open>Concrete files\<close>

definition program_file :: file_info where
  "program_file = \<lparr>fst_dir = False, fst_regular = True, fst_socket = False, fst_perm = 0x1ed, fst_setuid = False,
     fst_setgid = False, fst_sticky = False, fst_owner = Some (0, 0), fi_size = 4096, fi_identity = Some (1, 2),
     fi_null_device = False\<rparr>"

definition program_services :: runtime_services where
  "program_services = \<lparr>pe_scope = podman_scope, pe_now = (\<lambda>_. 7), pe_ctx = (\<lambda>_ _. None), pe_files = True,
     pe_stat = (\<lambda>_ p. if p = ''opt/conmon'' then Inl ErrNotExist else Inr program_file), pe_read = (\<lambda>_ _. Inl ErrNotExist),
     pe_readlink = (\<lambda>_ _. Inl EINVAL), pe_executable = (\<lambda>_ _. Inr True), pe_directory = (\<lambda>_ _ _. Inr True),
     pe_statfs = (\<lambda>_ _. Inl EINVAL), pe_runner = None\<rparr>"

definition netavark_probe :: executable_probe where
  "netavark_probe = \<lparr>xp_role = ''netavark'', xp_source = sourceRuntime, xp_source_id = ''info'', xp_runtime_path = ''/usr/bin/podman'',
     xp_paths = [netavark_path], xp_generator = False\<rparr>"

lemma netavark_probe_selected: "netavark_probe \<in> set (selected_helper_probes info_observation)"
  by (simp add: selected_helper_probes_def example_observation_defs reported_helpers_def netavark_probe_def netavark_path_def)

lemma example_path_safe:
  "safe_info_path netavark_path" "safe_info_path ''/opt/conmon''" "safe_info_path ''/usr/bin/conmon''" "trim_root netavark_path \<noteq> ''opt/conmon''"
  "trim_root ''/opt/conmon'' = ''opt/conmon''" "trim_root ''/usr/bin/conmon'' \<noteq> ''opt/conmon''"
  unfolding netavark_path_def by code_simp+

lemma netavark_measured:
  "ob_executable (fst (executable_probe_run netavark_probe program_services)) = Some \<lparr>x_role = ''netavark'', x_source = ''runtime'',
     x_source_id = ''info'', x_runtime_path = ''/usr/bin/podman'', x_selected_path = netavark_path,
     x_candidates = [\<lparr>xc_path = netavark_path, xc_present = Some True, xc_file = Some (executable_metadata_of program_file),
       xc_device = Some 1, xc_inode = Some 2, xc_executable = Some True, xc_masked = False\<rparr>]\<rparr>"
  using example_path_safe
  by (simp add: executable_probe_run_def netavark_probe_def maxExecutableCandidates_def program_services_def executable_start_def
      observe_executable_def executable_from_info_def blank_candidate_def program_file_def sourceRuntime_def sourceConfiguration_def)

lemma netavark_measured_scope: "ob_scope (fst (executable_probe_run netavark_probe program_services)) = podman_scope"
  using example_path_safe
  by (simp add: executable_probe_run_def netavark_probe_def maxExecutableCandidates_def program_services_def executable_start_def
      observe_executable_def executable_from_info_def program_file_def sourceRuntime_def append_candidate_def select_path_def
      update_executable_def observation_simps)

theorem executable_verdict_measured_witness:
  "\<exists>n info. pe_stat program_services n (trim_root netavark_path) = Inr info \<and> fst_regular info \<and> executable_bits info \<and>
    pe_executable program_services n (trim_root netavark_path) = Inr True"
proof -
  let ?obs = "fst (executable_probe_run netavark_probe program_services)"
  have state: "executable_state \<lparr>xc_path = netavark_path, xc_present = Some True, xc_file = Some (executable_metadata_of program_file),
       xc_device = Some 1, xc_inode = Some 2, xc_executable = Some True, xc_masked = False\<rparr> True = StateSupported"
    by (simp add: executable_state_def executable_metadata_of_def program_file_def executable_bits_def)
  have "\<exists>ev\<in>set (selected_executable_evidence ''netavark'' ''runtime.podman.netavark.executable'' podman_scope [info_observation, ?obs]).
      ev_state ev = StateSupported"
    by (simp add: selected_executable_evidence_def configured_executable_evidence_def network_configured_executable_evidence_def
        runtime_selected_evidence_def runtime_selected_from_def selected_helper_path_def netavark_measured netavark_measured_scope
        local_podman_def example_observation_defs state)
      (simp add: netavark_path_def)
  then obtain ev where ev: "ev \<in> set (selected_executable_evidence ''netavark'' ''runtime.podman.netavark.executable'' podman_scope [info_observation, ?obs])"
      "ev_state ev = StateSupported" by blast
  have none: "ob_executable info_observation = None" by (simp add: example_observation_defs)
  then have "\<forall>ob\<in>set [info_observation, ?obs]. ob_executable ob = None \<or> executable_probe_result program_services ob"
    unfolding executable_probe_result_def by auto
  from executable_verdict_measured [OF ev, of "\<lambda>_. program_services", OF this] show ?thesis
    using none netavark_measured by auto
qed

definition conmon_engine :: engine_configuration where
  "conmon_engine = \<lparr>e_runtime = None, e_cgroup_manager = None, e_runtimes = [],
     e_conmon_path = Some \<lparr>cl_invalid_indices = [], cl_unmodeled_indices = [], cl_values = [''/opt/conmon''], cl_origins = [],
       cl_source_id = '''', cl_append = None, cl_inherited_default = False\<rparr>,
     e_helper_binaries_dir = None, e_runtime_path = None, e_environment = None, e_selection_overrides = False,
     e_unprojected_field_count = 0\<rparr>"

definition conmon_configuration :: configuration_observation where
  "conmon_configuration = \<lparr>c_network = None, c_storage = None,
     c_family = ''engine'', c_runtime_path = ''/usr/bin/podman'', c_version_source_id = '''', c_profile = ''podman-5.8.4'',
     c_references = [], c_selection_complete = True, c_parse_complete = True, c_sources = [], c_engine = Some conmon_engine\<rparr>"

definition conmon_source :: observation where
  "conmon_source = info_observation\<lparr>ob_podman := None, ob_configuration := Some conmon_configuration\<rparr>"

lemma conmon_configured:
  "ob_configuration conmon_source = Some conmon_configuration" "c_engine conmon_configuration = Some conmon_engine"
  "bound_configuration program_services conmon_source conmon_configuration" "\<not> e_selection_overrides conmon_engine"
  "environment_modelled conmon_engine" "engine_helper_paths ''conmon'' conmon_engine = Some ([''/opt/conmon''], ''conmon'')"
  by (simp_all add: conmon_source_def conmon_configuration_def conmon_engine_def bound_configuration_def program_services_def
      environment_modelled_def info_observation_def Catalog_Examples.blank_observation_def engine_helper_paths_def)

lemma conmon_steps:
  "candidates_so_far obs = [] \<Longrightarrow> configured_candidate program_services ''conmon'' ''/opt/conmon'' False obs =
     (False, append_candidate ((blank_candidate ''/opt/conmon'')\<lparr>xc_present := Some False\<rparr>) obs)"
  "length (candidates_so_far obs) = 1 \<Longrightarrow> \<exists>c. configured_candidate program_services ''conmon'' ''/usr/bin/conmon'' True obs =
     (True, select_path ''/usr/bin/conmon'' (append_candidate c obs))"
  using example_path_safe
  by (simp_all add: configured_candidate_def maxExecutableCandidates_def program_services_def ErrNotExist_def
      executable_from_info_def selects_candidate_def special_file_def program_file_def exI)

lemma conmon_paths: "fallback_paths ''conmon'' = [''/usr/bin/conmon'', ''/bin/conmon'']"
  by code_simp

lemma conmon_run:
  "ob_completeness (fst (configured_helper_run ''conmon'' conmon_source program_services)) = Complete"
  "map_option x_selected_path (ob_executable (fst (configured_helper_run ''conmon'' conmon_source program_services))) = Some ''/usr/bin/conmon''"
proof -
  let ?start = "configured_start program_services ''conmon'' conmon_source"
  let ?c = "(blank_candidate ''/opt/conmon'')\<lparr>xc_present := Some False\<rparr>"
  have start: "candidates_so_far ?start = []" "ob_completeness ?start = Complete" "length (candidates_so_far (append_candidate ?c ?start)) = 1"
    by (simp_all add: candidates_so_far_def configured_start_def observation_simps)
  obtain c where c: "configured_candidate program_services ''conmon'' ''/usr/bin/conmon'' True (append_candidate ?c ?start) =
      (True, select_path ''/usr/bin/conmon'' (append_candidate c (append_candidate ?c ?start)))" using conmon_steps(2) [OF start(3)] by blast
  have "fst (configured_helper_run ''conmon'' conmon_source program_services) =
      select_path ''/usr/bin/conmon'' (append_candidate c (append_candidate ?c ?start))"
    using c conmon_steps(1) [OF start(1)] conmon_configured by (simp add: configured_helper_run_def conmon_paths)
  then show "ob_completeness (fst (configured_helper_run ''conmon'' conmon_source program_services)) = Complete"
    "map_option x_selected_path (ob_executable (fst (configured_helper_run ''conmon'' conmon_source program_services))) = Some ''/usr/bin/conmon''"
    using start(2) by (simp_all add: configured_start_def)
qed

theorem configured_helper_selection_witness:
  "\<exists>plan k. engine_search_plan ''conmon'' conmon_source = Some plan \<and> k < length plan \<and>
     search_refuses program_services ''conmon'' 0 (plan ! 0) \<and> search_takes program_services ''conmon'' k (plan ! k) \<and> fst (plan ! k) = ''/usr/bin/conmon''"
proof -
  obtain obs err where run: "configured_helper_run ''conmon'' conmon_source program_services = (obs, err)" by fastforce
  then have obs: "ob_completeness obs = Complete" "map_option x_selected_path (ob_executable obs) = Some ''/usr/bin/conmon''"
    using conmon_run by simp_all
  obtain plan k x where plan: "engine_search_plan ''conmon'' conmon_source = Some plan" "k \<le> length plan"
      "\<forall>i<k. search_refuses program_services ''conmon'' i (plan ! i)" "ob_executable obs = Some x"
      "if k < length plan then search_takes program_services ''conmon'' k (plan ! k) \<and> x_selected_path x = fst (plan ! k)
       else x_selected_path x = ''''"
    using configured_helper_selection [OF run obs(1)] by blast
  then have k: "k < length plan" "search_takes program_services ''conmon'' k (plan ! k)" "fst (plan ! k) = ''/usr/bin/conmon''"
    using obs(2) by (auto split: if_splits)
  moreover have "fst (plan ! 0) = ''/opt/conmon''"
    using plan(1) conmon_configured by (auto simp: engine_search_plan_def)
  ultimately have "k \<noteq> 0" by (intro notI) simp
  then show ?thesis using plan k by blast
qed

end
