(* ===== verification/Podman_Version.thy ===== *)
theory Podman_Version
  imports Podman_Services Go_Net Host_Formats
begin

text \<open>
  The line that \<open>podman --version\<close> prints (\<open>runtime/podman/version.go\<close>). The pattern is anchored and its groups
  are separated by characters that the earlier groups exclude, so matching is a sequence of cuts.
\<close>

section \<open>The pattern\<close>

text \<open>\<open>(0|[1-9][0-9]*)\<close>, and \<open>[a-zA-Z0-9][a-zA-Z0-9.\_-]{0,127}\<close>.\<close>

definition version_number :: "string \<Rightarrow> bool" where
  "version_number s \<longleftrightarrow> s = ''0'' \<or> s \<noteq> '''' \<and> hd s \<noteq> CHR ''0'' \<and> list_all is_digit s"

definition alphanumeric :: "char \<Rightarrow> bool" where
  "alphanumeric c \<longleftrightarrow> is_lower c \<or> is_upper c \<or> is_digit c"

definition version_label :: "string \<Rightarrow> bool" where
  "version_label s \<longleftrightarrow> s \<noteq> '''' \<and> length s \<le> 128 \<and> alphanumeric (hd s) \<and> list_all (\<lambda>c. alphanumeric c \<or> c \<in> set ''._-'') s"

definition version_architecture :: "string \<Rightarrow> bool" where
  "version_architecture s \<longleftrightarrow> trim_prefix s ''linux/'' \<in> {''amd64'', ''arm64'', ''x86_64'', ''aarch64'', ''arm'', ''386'', ''ppc64le'',
     ''s390x'', ''riscv64''}"

definition hex_text :: "nat \<Rightarrow> nat \<Rightarrow> string \<Rightarrow> bool" where
  "hex_text least most s \<longleftrightarrow> least \<le> length s \<and> length s \<le> most \<and> list_all is_hex s"

definition git_hash :: "string \<Rightarrow> string \<Rightarrow> bool" where
  "git_hash a b \<longleftrightarrow> a = ''(git'' \<and> b \<noteq> '''' \<and> last b = CHR '')'' \<and> hex_text 6 40 (butlast b)"

text \<open>A hash, an architecture, or both; the hash of the form \<open>(git ...)\<close> contains a blank.\<close>

definition version_trailing :: "string \<Rightarrow> bool" where
  "version_trailing t \<longleftrightarrow>
     (case split_on CHR '' '' t of
        [a] \<Rightarrow> version_architecture a \<or> hex_text 7 40 a
      | [a, b] \<Rightarrow> hex_text 7 40 a \<and> version_architecture b \<or> git_hash a b
      | [a, b, c] \<Rightarrow> git_hash a b \<and> version_architecture c
      | _ \<Rightarrow> False)"

text \<open>An optional group after its separator.\<close>

definition cut_group :: "char \<Rightarrow> string \<Rightarrow> string \<times> string option" where
  "cut_group c s = (case cut_at c s of None \<Rightarrow> (s, None) | Some (a, b) \<Rightarrow> (a, Some b))"

definition optional_group :: "(string \<Rightarrow> bool) \<Rightarrow> string option \<Rightarrow> bool" where
  "optional_group p g \<longleftrightarrow> (case g of None \<Rightarrow> True | Some s \<Rightarrow> p s)"

definition group_text :: "string option \<Rightarrow> string" where
  "group_text g = (case g of None \<Rightarrow> '''' | Some s \<Rightarrow> s)"

record version_match =
  vm_major :: string
  vm_minor :: string
  vm_patch :: string
  vm_suffix :: string
  vm_build :: string
  vm_trailing :: string

definition version_pattern :: "string \<Rightarrow> version_match option" where
  "version_pattern line =
     (if \<not> has_prefix line ''podman version '' then None
      else let (core, trailing) = cut_group CHR '' '' (trim_prefix line ''podman version '');
               (main, build) = cut_group CHR ''+'' core;
               (numbers, suffix) = cut_group CHR ''-'' main
        in case split_on CHR ''.'' numbers of
             [a, b, c] \<Rightarrow>
               if version_number a \<and> version_number b \<and> version_number c \<and> optional_group version_label suffix \<and>
                  optional_group version_label build \<and> optional_group version_trailing trailing
               then Some \<lparr>vm_major = a, vm_minor = b, vm_patch = c, vm_suffix = group_text suffix, vm_build = group_text build,
                 vm_trailing = group_text trailing\<rparr>
               else None
           | _ \<Rightarrow> None)"

section \<open>Parsing\<close>

definition maxVersionBytes :: nat where "maxVersionBytes = 4096"

definition parse_version :: "string \<Rightarrow> go_error + podman_version" where
  "parse_version data =
     (if maxVersionBytes < length data then Inl (Err ''podman version exceeds size limit'')
      else let line = trim_space data
        in case version_pattern line of
             None \<Rightarrow> Inl (Err ''invalid Podman version line'')
           | Some m \<Rightarrow>
               (case (parse_uint 32 (vm_major m), parse_uint 32 (vm_minor m), parse_uint 32 (vm_patch m)) of
                  (Some a, Some b, Some c) \<Rightarrow>
                    Inr \<lparr>pv_major = word_of_nat a, pv_minor = word_of_nat b, pv_patch = word_of_nat c,
                      pv_canonical = join_with ''.'' [vm_major m, vm_minor m, vm_patch m], pv_suffix = vm_suffix m,
                      pv_build = vm_build m, pv_trailing = vm_trailing m, pv_raw = line\<rparr>
                | _ \<Rightarrow> Inl (Err ''invalid Podman version component'')))"

section \<open>The printing of a version\<close>

definition tagged :: "char \<Rightarrow> string \<Rightarrow> string" where
  "tagged c s = (if s = '''' then '''' else c # s)"

definition version_numbers :: "podman_version \<Rightarrow> string" where
  "version_numbers v = decimal_string (unat (pv_major v)) @ ''.'' @ decimal_string (unat (pv_minor v)) @ ''.'' @
     decimal_string (unat (pv_patch v))"

definition version_line :: "podman_version \<Rightarrow> string" where
  "version_line v = ''podman version '' @ version_numbers v @ tagged CHR ''-'' (pv_suffix v) @ tagged CHR ''+'' (pv_build v) @
     tagged CHR '' '' (pv_trailing v)"

text \<open>A version that the line can express.\<close>

definition version_ok :: "podman_version \<Rightarrow> bool" where
  "version_ok v \<longleftrightarrow> pv_canonical v = version_numbers v \<and> pv_raw v = version_line v \<and>
     (pv_suffix v = '''' \<or> version_label (pv_suffix v)) \<and> (pv_build v = '''' \<or> version_label (pv_build v)) \<and>
     (pv_trailing v = '''' \<or> version_trailing (pv_trailing v))"

lemma cut_group_iff: "cut_group c s = (a, g) \<longleftrightarrow> c \<notin> set a \<and> s = a @ (case g of None \<Rightarrow> '''' | Some b \<Rightarrow> c # b)"
proof (cases g)
  case None
  have "cut_group c s = (a, None) \<longleftrightarrow> cut_at c s = None \<and> s = a" by (auto simp: cut_group_def split: option.splits)
  then show ?thesis using None by (auto simp: cut_at_None)
next
  case (Some b)
  have "cut_group c s = (a, Some b) \<longleftrightarrow> cut_at c s = Some (a, b)" by (auto simp: cut_group_def split: option.splits)
  then show ?thesis using Some by (auto simp: cut_at_Some)
qed

lemma cut_group_tagged: "c \<notin> set a \<Longrightarrow> cut_group c (a @ tagged c t) = (a, if t = '''' then None else Some t)"
  by (simp add: cut_group_iff tagged_def)

lemma group_tagged: "optional_group p g \<Longrightarrow> \<not> p '''' \<Longrightarrow> (case g of None \<Rightarrow> '''' | Some b \<Rightarrow> c # b) = tagged c (group_text g)"
  by (auto simp: optional_group_def tagged_def group_text_def split: option.splits)

lemma groups_nonempty: "\<not> version_label ''''" "\<not> version_trailing ''''"
  by (simp_all add: version_label_def version_trailing_def version_architecture_def hex_text_def trim_prefix_def has_prefix_def)

lemma optional_if: "optional_group p (if t = '''' then None else Some t) \<longleftrightarrow> t = '''' \<or> p t"
  "group_text (if t = '''' then None else Some t) = t"
  by (auto simp: optional_group_def group_text_def)

lemma optional_text: "optional_group p g \<Longrightarrow> group_text g = '''' \<or> p (group_text g)"
  by (auto simp: optional_group_def group_text_def split: option.splits)

subsection \<open>Numbers\<close>

lemma digit_bounds: "is_digit c \<longleftrightarrow> 48 \<le> (of_char c :: nat) \<and> (of_char c :: nat) \<le> 57"
  by (simp add: is_digit_def less_eq_char_def)

lemma char_of_digit: "is_digit c \<Longrightarrow> char_of (48 + digit_value c) = c"
  by (simp add: digit_bounds digit_value_def)

lemma digit_value_bound: "is_digit c \<Longrightarrow> digit_value c < 10"
  unfolding digit_bounds digit_value_def by linarith

lemma decimal_string_snoc:
  assumes "0 < n" and "is_digit c"
  shows "decimal_string (10 * n + digit_value c) = decimal_string n @ [c]"
proof -
  have d: "digit_value c < 10" using assms(2) by (rule digit_value_bound)
  then have "(10 * n + digit_value c) div 10 = n" "(10 * n + digit_value c) mod 10 = digit_value c" by simp_all
  then show ?thesis using assms d char_of_digit by (subst decimal_string.simps) simp
qed

lemma decimal_value_pos: "s \<noteq> '''' \<Longrightarrow> hd s \<noteq> CHR ''0'' \<Longrightarrow> list_all is_digit s \<Longrightarrow> 0 < decimal_value s"
proof (induction s rule: rev_induct)
  case (snoc c s)
  show ?case
  proof (cases "s = ''''")
    case True
    have "of_char c \<noteq> (48 :: nat)"
    proof
      assume "of_char c = (48 :: nat)"
      then have "char_of (of_char c :: nat) = (char_of (48 :: nat) :: char)" by simp
      moreover have "char_of (48 :: nat) = CHR ''0''" by code_simp
      ultimately show False using snoc.prems True by simp
    qed
    then show ?thesis using snoc.prems True by (simp add: decimal_value_def digit_value_def digit_bounds)
  next
    case False
    then show ?thesis using snoc by (simp add: decimal_value_snoc)
  qed
qed simp

lemma version_number_decimal: "version_number s \<Longrightarrow> decimal_string (decimal_value s) = s"
proof -
  have rec: "s \<noteq> '''' \<Longrightarrow> hd s \<noteq> CHR ''0'' \<Longrightarrow> list_all is_digit s \<Longrightarrow> decimal_string (decimal_value s) = s" for s
  proof (induction s rule: rev_induct)
    case (snoc c s)
    show ?case
    proof (cases "s = ''''")
      case True
      have "digit_value c < 10" using snoc.prems by (simp add: digit_value_bound)
      then show ?thesis using True snoc.prems char_of_digit by (subst decimal_string.simps) (simp add: decimal_value_def)
    next
      case False
      then show ?thesis using snoc decimal_string_snoc [OF decimal_value_pos] by (simp add: decimal_value_snoc)
    qed
  qed simp
  assume "version_number s"
  moreover have "decimal_string (decimal_value ''0'') = ''0''" by code_simp
  ultimately show ?thesis using rec by (auto simp: version_number_def)
qed

lemma decimal_string_version: "version_number (decimal_string n)"
proof -
  have "hd (decimal_string n) \<noteq> CHR ''0'' \<or> n = 0"
  proof (induction n rule: decimal_string.induct)
    case (1 n)
    show ?case
    proof (cases "n < 10")
      case True
      have "char_of (48 + n) = CHR ''0'' \<Longrightarrow> n = 0"
        using True digit_value_char [of n] by (simp add: digit_value_def)
      then show ?thesis using True by (subst decimal_string.simps) auto
    next
      case False
      then show ?thesis using 1 decimal_string_ok [of "n div 10"] by (subst decimal_string.simps) (auto simp: hd_append)
    qed
  qed
  moreover have "decimal_string 0 = ''0''" by code_simp
  ultimately show ?thesis using decimal_string_ok [of n] by (auto simp: version_number_def)
qed

subsection \<open>The pattern accepts the printings\<close>

lemma char_class_separators:
  "c \<in> {CHR ''.'', CHR ''-'', CHR ''+'', CHR '' ''} \<Longrightarrow> \<not> is_digit c \<and> \<not> alphanumeric c"
  by (auto simp: is_digit_def is_lower_def is_upper_def alphanumeric_def)

lemma version_number_plain: "version_number s \<Longrightarrow> c \<in> {CHR ''.'', CHR ''-'', CHR ''+'', CHR '' ''} \<Longrightarrow> c \<notin> set s"
  using char_class_separators [of c] by (auto simp: version_number_def list_all_iff)

lemma version_label_plain: "version_label s \<Longrightarrow> c \<in> {CHR ''+'', CHR '' ''} \<Longrightarrow> c \<notin> set s"
  using char_class_separators [of c] by (auto simp: version_label_def list_all_iff)

definition match_text :: "version_match \<Rightarrow> string" where
  "match_text m = ''podman version '' @ ((((vm_major m @ ''.'' @ vm_minor m @ ''.'' @ vm_patch m) @ tagged CHR ''-'' (vm_suffix m)) @
     tagged CHR ''+'' (vm_build m)) @ tagged CHR '' '' (vm_trailing m))"

definition match_ok :: "version_match \<Rightarrow> bool" where
  "match_ok m \<longleftrightarrow> version_number (vm_major m) \<and> version_number (vm_minor m) \<and> version_number (vm_patch m) \<and>
     (vm_suffix m = '''' \<or> version_label (vm_suffix m)) \<and> (vm_build m = '''' \<or> version_label (vm_build m)) \<and>
     (vm_trailing m = '''' \<or> version_trailing (vm_trailing m))"

lemma tagged_chars: "x \<in> set (tagged c s) \<Longrightarrow> x = c \<or> x \<in> set s"
  by (auto simp: tagged_def split: if_splits)

lemma split_numbers:
  "split_on CHR ''.'' s = [a, b, c] \<longleftrightarrow> s = a @ ''.'' @ b @ ''.'' @ c \<and> CHR ''.'' \<notin> set a \<and> CHR ''.'' \<notin> set b \<and> CHR ''.'' \<notin> set c"
proof
  assume s: "split_on CHR ''.'' s = [a, b, c]"
  have "s = join_with ''.'' [a, b, c]" using join_split [of "CHR ''.''" s] unfolding s by simp
  moreover have "CHR ''.'' \<notin> set x" if "x \<in> {a, b, c}" for x using that split_on_no_sep [of x "CHR ''.''" s] unfolding s by auto
  ultimately show "s = a @ ''.'' @ b @ ''.'' @ c \<and> CHR ''.'' \<notin> set a \<and> CHR ''.'' \<notin> set b \<and> CHR ''.'' \<notin> set c" by simp
next
  assume "s = a @ ''.'' @ b @ ''.'' @ c \<and> CHR ''.'' \<notin> set a \<and> CHR ''.'' \<notin> set b \<and> CHR ''.'' \<notin> set c"
  then show "split_on CHR ''.'' s = [a, b, c]" by (simp add: split_on_sep split_on_free)
qed

lemma match_text_pattern:
  assumes "match_ok m"
  shows "version_pattern (match_text m) = Some m"
proof -
  let ?n = "vm_major m @ ''.'' @ vm_minor m @ ''.'' @ vm_patch m"
  have n: "c \<notin> set ?n" if "c \<in> {CHR ''-'', CHR ''+'', CHR '' ''}" for c
    using that assms version_number_plain [of _ c] by (auto simp: match_ok_def)
  have label: "c \<notin> set (tagged d s)" if "c \<in> {CHR ''+'', CHR '' ''}" "c \<noteq> d" "s = '''' \<or> version_label s" for c d s
    using that version_label_plain [of s c] tagged_chars [of c d s] by (auto simp: tagged_def)
  have "CHR '' '' \<notin> set ((?n @ tagged CHR ''-'' (vm_suffix m)) @ tagged CHR ''+'' (vm_build m))"
    using n [of "CHR '' ''"] label [of "CHR '' ''"] assms by (simp add: match_ok_def)
  moreover have "CHR ''+'' \<notin> set (?n @ tagged CHR ''-'' (vm_suffix m))"
    using n [of "CHR ''+''"] label [of "CHR ''+''"] assms by (simp add: match_ok_def)
  moreover have "split_on CHR ''.'' ?n = [vm_major m, vm_minor m, vm_patch m]"
    unfolding split_numbers using assms version_number_plain by (auto simp: match_ok_def)
  moreover have "trim_prefix (match_text m) ''podman version '' = ((?n @ tagged CHR ''-'' (vm_suffix m)) @ tagged CHR ''+'' (vm_build m)) @
      tagged CHR '' '' (vm_trailing m)" "has_prefix (match_text m) ''podman version ''"
    unfolding match_text_def by (rule trim_prefix_append, rule has_prefix_append)
  ultimately show ?thesis using n [of "CHR ''-''"] assms
    by (simp add: version_pattern_def Let_def cut_group_tagged optional_if match_ok_def del: append_assoc split: prod.splits if_splits)
qed

lemma version_pattern_match:
  assumes "version_pattern line = Some m"
  shows "line = match_text m \<and> match_ok m"
proof -
  obtain rest where rest: "line = ''podman version '' @ rest"
    using assms by (auto simp: version_pattern_def Let_def split: if_splits elim: has_prefixE)
  have trim: "trim_prefix line ''podman version '' = rest" unfolding rest by (rule trim_prefix_append)
  obtain core trailing where c: "cut_group CHR '' '' rest = (core, trailing)" by fastforce
  obtain main build where b: "cut_group CHR ''+'' core = (main, build)" by fastforce
  obtain numbers suffix where n: "cut_group CHR ''-'' main = (numbers, suffix)" by fastforce
  from assms have "\<exists>x y z. split_on CHR ''.'' numbers = [x, y, z] \<and> version_number x \<and> version_number y \<and> version_number z \<and>
      optional_group version_label suffix \<and> optional_group version_label build \<and> optional_group version_trailing trailing \<and>
      m = \<lparr>vm_major = x, vm_minor = y, vm_patch = z, vm_suffix = group_text suffix, vm_build = group_text build,
        vm_trailing = group_text trailing\<rparr>"
    by (auto simp: version_pattern_def trim Let_def c b n split: if_splits list.splits)
  then obtain x y z where parts: "split_on CHR ''.'' numbers = [x, y, z]" "version_number x" "version_number y" "version_number z"
      "optional_group version_label suffix" "optional_group version_label build" "optional_group version_trailing trailing"
      "m = \<lparr>vm_major = x, vm_minor = y, vm_patch = z, vm_suffix = group_text suffix, vm_build = group_text build,
        vm_trailing = group_text trailing\<rparr>" by blast
  have "rest = ((numbers @ tagged CHR ''-'' (group_text suffix)) @ tagged CHR ''+'' (group_text build)) @ tagged CHR '' '' (group_text trailing)"
    using c b n parts(5-7) groups_nonempty by (simp add: cut_group_iff group_tagged)
  moreover have "numbers = x @ ''.'' @ y @ ''.'' @ z" using parts(1) unfolding split_numbers by simp
  ultimately show ?thesis using parts rest optional_text by (simp add: match_text_def match_ok_def)
qed

lemma version_pattern_iff: "version_pattern line = Some m \<longleftrightarrow> line = match_text m \<and> match_ok m"
  using version_pattern_match match_text_pattern by blast

section \<open>What is accepted\<close>

lemma parse_version_number:
  "version_number s \<and> parse_uint 32 s = Some n \<longleftrightarrow> n < 2 ^ 32 \<and> s = decimal_string n"
  using decimal_string_version decimal_string_ok [of n] version_number_decimal [of s]
  by (auto simp: parse_uint_def decimal_value_string split: if_splits)

definition version_of_match :: "version_match \<Rightarrow> podman_version" where
  "version_of_match m = \<lparr>pv_major = word_of_nat (decimal_value (vm_major m)), pv_minor = word_of_nat (decimal_value (vm_minor m)),
     pv_patch = word_of_nat (decimal_value (vm_patch m)), pv_canonical = vm_major m @ ''.'' @ vm_minor m @ ''.'' @ vm_patch m,
     pv_suffix = vm_suffix m, pv_build = vm_build m, pv_trailing = vm_trailing m, pv_raw = match_text m\<rparr>"

definition match_of_version :: "podman_version \<Rightarrow> version_match" where
  "match_of_version v = \<lparr>vm_major = decimal_string (unat (pv_major v)), vm_minor = decimal_string (unat (pv_minor v)),
     vm_patch = decimal_string (unat (pv_patch v)), vm_suffix = pv_suffix v, vm_build = pv_build v, vm_trailing = pv_trailing v\<rparr>"

lemma match_of_version_text: "match_text (match_of_version v) = version_line v" "match_ok (match_of_version v) \<longleftrightarrow>
    (pv_suffix v = '''' \<or> version_label (pv_suffix v)) \<and> (pv_build v = '''' \<or> version_label (pv_build v)) \<and>
    (pv_trailing v = '''' \<or> version_trailing (pv_trailing v))"
  by (simp_all add: match_text_def match_of_version_def version_line_def version_numbers_def match_ok_def decimal_string_version)

lemma parse_version_printed:
  assumes "length data \<le> 4096" and "trim_space data = version_line v" and "version_ok v"
  shows "parse_version data = Inr v"
proof -
  have "version_pattern (version_line v) = Some (match_of_version v)"
    unfolding version_pattern_iff match_of_version_text using assms(3) by (simp add: version_ok_def)
  moreover have "parse_uint 32 (decimal_string (unat w)) = Some (unat w)" for w :: "32 word" by (rule parse_uint_decimal)
  ultimately show ?thesis using assms
    by (simp add: parse_version_def maxVersionBytes_def match_of_version_def version_ok_def version_numbers_def)
qed

lemma parse_version_parsed:
  assumes "parse_version data = Inr v"
  shows "length data \<le> 4096 \<and> trim_space data = version_line v \<and> version_ok v"
proof -
  obtain m a b c where m: "version_pattern (trim_space data) = Some m" and n: "parse_uint 32 (vm_major m) = Some a"
      "parse_uint 32 (vm_minor m) = Some b" "parse_uint 32 (vm_patch m) = Some c"
    and v: "v = \<lparr>pv_major = word_of_nat a, pv_minor = word_of_nat b, pv_patch = word_of_nat c,
      pv_canonical = join_with ''.'' [vm_major m, vm_minor m, vm_patch m], pv_suffix = vm_suffix m,
      pv_build = vm_build m, pv_trailing = vm_trailing m, pv_raw = trim_space data\<rparr>"
    using assms by (auto simp: parse_version_def Let_def split: if_splits option.splits)
  have ok: "trim_space data = match_text m" "match_ok m" using m unfolding version_pattern_iff by simp_all
  have "vm_major m = decimal_string a \<and> a < 2 ^ 32" "vm_minor m = decimal_string b \<and> b < 2 ^ 32" "vm_patch m = decimal_string c \<and> c < 2 ^ 32"
    using ok(2) n parse_version_number by (auto simp: match_ok_def)
  moreover have "unat (word_of_nat k :: 32 word) = k" if "k < 2 ^ 32" for k using that by (simp add: unsigned_of_nat take_bit_nat_eq_self)
  ultimately have "match_of_version v = m" unfolding v by (simp add: match_of_version_def)
  moreover have "version_numbers v = vm_major (match_of_version v) @ ''.'' @ vm_minor (match_of_version v) @ ''.'' @ vm_patch (match_of_version v)"
    by (simp add: version_numbers_def match_of_version_def)
  moreover have "pv_canonical v = vm_major m @ ''.'' @ vm_minor m @ ''.'' @ vm_patch m" by (simp add: v)
  ultimately have "match_of_version v = m" "version_line v = match_text m" "version_numbers v = pv_canonical v"
    using match_of_version_text(1) [of v] by simp_all
  then show ?thesis using assms ok match_of_version_text(2) [of v] \<open>match_of_version v = m\<close>
    by (auto simp: version_ok_def parse_version_def maxVersionBytes_def v split: if_splits)
qed

text \<open>
  C27: A line is accepted as the version of Podman exactly when it is, up to surrounding blanks, the printing of that
  version: three numbers of 32 bits without leading zeros, and a suffix, a build and a trailing hash or architecture
  of the fixed form. Nothing is extracted from a longer text, and the canonical form and the raw line are determined.
\<close>

theorem parse_version_exact:
  "parse_version data = Inr v \<longleftrightarrow> length data \<le> 4096 \<and> trim_space data = version_line v \<and> version_ok v"
  using parse_version_printed parse_version_parsed by blast

end
