(* ===== verification/Podman_Info.thy ===== *)
theory Podman_Info
  imports Podman_Version Requirement_Eval
begin

text \<open>
  Podman's own answers (\<open>runtime/podman/version\_probe.go\<close>, \<open>info.go\<close>, \<open>info\_values.go\<close>, \<open>info\_probe.go\<close>), the
  search for its executable (\<open>discovery.go\<close>) and the commands of an inspection (\<open>commands.go\<close>). The JSON decoder is
  a parameter; the bounds around it (\<open>config/requirement.go\<close>) are here.
\<close>

section \<open>JSON\<close>

text \<open>
  \<open>jd_tokens\<close> is what reading the tokens of a text in turn yields until its end: the depth after each token, or
  \<open>None\<close> for an error. The other fields are the decodings into Go values, with \<open>None\<close> for an error.
\<close>

record info_document =
  id_version :: string
  id_rootless_network_cmd :: "string option"
  id_oci_runtime :: "selected_oci_runtime option"
  id_conmon_path :: string
  id_pasta_executable :: string
  id_slirp_executable :: string
  id_network_backend :: "string option"
  id_network_path :: string
  id_dns_path :: string
  id_service_is_remote :: "bool option"
  id_cgroup_version :: "string option"
  id_cgroup_manager :: "string option"
  id_rootless :: "bool option"
  id_graph_options :: "(string \<times> string) list"
  id_graph_driver :: "string option"
  id_graph_root :: "string option"
  id_run_root :: "string option"

record json_decoder =
  jd_tokens :: "string \<Rightarrow> nat option list"
  jd_info :: "string \<Rightarrow> info_document option"
  jd_executable :: "string \<Rightarrow> string option"
  jd_requirement :: "string \<Rightarrow> (node_heap \<times> addr option) option"

fun token_loop :: "nat \<Rightarrow> nat option list \<Rightarrow> go_error option" where
  "token_loop max_depth [] = None"
| "token_loop max_depth (None # rest) = Some (Err ''invalid JSON document'')"
| "token_loop max_depth (Some depth # rest) =
     (if max_depth < depth then Some (Err ''JSON depth limit exceeded'') else token_loop max_depth rest)"

definition check_json :: "json_decoder \<Rightarrow> string \<Rightarrow> nat \<Rightarrow> nat \<Rightarrow> go_error option" where
  "check_json json data max_bytes max_depth =
     (if max_bytes < length data then Some (Err ''JSON byte limit exceeded'') else token_loop max_depth (jd_tokens json data))"

definition MaxRequirementBytes :: nat where "MaxRequirementBytes = 65536"
definition MaxRequirementDepth :: nat where "MaxRequirementDepth = 2 * MaxDepth"

definition parse_requirement :: "json_decoder \<Rightarrow> string \<Rightarrow> go_error + (node_heap \<times> addr option)" where
  "parse_requirement json data =
     (case check_json json data MaxRequirementBytes MaxRequirementDepth of
        Some err \<Rightarrow> Inl err
      | None \<Rightarrow> (case jd_requirement json data of
          None \<Rightarrow> Inl (Err ''invalid requirement JSON'')
        | Some (heap, root) \<Rightarrow> (case validate heap root of Some err \<Rightarrow> Inl err | None \<Rightarrow> Inr (heap, root))))"

section \<open>Documents of podman info\<close>

definition maxInfoBytes :: nat where "maxInfoBytes = 1048576"
definition maxInfoDepth :: nat where "maxInfoDepth = 32"

definition info_of_document :: "info_document \<Rightarrow> string \<Rightarrow> podman_info" where
  "info_of_document d mount_program =
     \<lparr>p_rootless_network_cmd = id_rootless_network_cmd d, p_storage_mount_program = mount_program,
      p_oci_runtime = id_oci_runtime d, p_conmon_path = id_conmon_path d, p_aardvark_path = id_dns_path d,
      p_pasta_path = id_pasta_executable d, p_slirp_path = id_slirp_executable d, p_version_parts = None, p_path = '''',
      p_graph_root = id_graph_root d, p_run_root = id_run_root d, p_service_is_remote = id_service_is_remote d,
      p_version = id_version d, p_network_backend = id_network_backend d, p_storage_driver = id_graph_driver d,
      p_cgroup_version = id_cgroup_version d, p_cgroup_manager = id_cgroup_manager d, p_rootless = id_rootless d,
      p_helper_path = id_network_path d, p_available = None\<rparr>"

definition parse_info :: "json_decoder \<Rightarrow> string \<Rightarrow> go_error + podman_info" where
  "parse_info json data =
     (case check_json json data maxInfoBytes maxInfoDepth of
        Some err \<Rightarrow> Inl err
      | None \<Rightarrow> (case jd_info json data of
          None \<Rightarrow> Inl (Err ''invalid Podman info document'')
        | Some d \<Rightarrow> (case map_of (id_graph_options d) ''overlay.mount_program'' of
            None \<Rightarrow> Inr (info_of_document d '''')
          | Some raw \<Rightarrow> (case jd_executable json raw of
              None \<Rightarrow> Inl (Err ''invalid Podman storage helper metadata'')
            | Some executable \<Rightarrow> Inr (info_of_document d executable)))))"

section \<open>Values (info\_values.go)\<close>

text \<open>\<open>^[a-zA-Z0-9\_.+-]{1,128}$\<close>.\<close>

definition info_token :: "string \<Rightarrow> bool" where
  "info_token s \<longleftrightarrow> s \<noteq> '''' \<and> length s \<le> 128 \<and> list_all (\<lambda>c. alphanumeric c \<or> c \<in> set ''_.+-'') s"

definition optional_value :: "(string \<Rightarrow> bool) \<Rightarrow> string option \<Rightarrow> bool" where
  "optional_value ok v \<longleftrightarrow> (case v of None \<Rightarrow> True | Some s \<Rightarrow> s = '''' \<or> ok s)"

definition keep_path :: "string \<Rightarrow> string" where
  "keep_path s = (if s \<noteq> '''' \<and> \<not> safe_info_path s then '''' else s)"

definition keep_value :: "(string \<Rightarrow> bool) \<Rightarrow> string option \<Rightarrow> string option" where
  "keep_value ok v = (if optional_value ok v then v else None)"

definition runtime_ok :: "selected_oci_runtime option \<Rightarrow> bool" where
  "runtime_ok r \<longleftrightarrow> (case r of None \<Rightarrow> True
     | Some oci \<Rightarrow> (oci_name oci = '''' \<or> info_token (oci_name oci)) \<and> (oci_path oci = '''' \<or> safe_info_path (oci_path oci)))"

definition info_values_ok :: "podman_info \<Rightarrow> bool" where
  "info_values_ok p \<longleftrightarrow>
     list_all (\<lambda>s. s = '''' \<or> safe_info_path s)
       [p_conmon_path p, p_aardvark_path p, p_pasta_path p, p_slirp_path p, p_storage_mount_program p] \<and>
     runtime_ok (p_oci_runtime p) \<and>
     list_all (optional_value info_token)
       [p_rootless_network_cmd p, p_network_backend p, p_storage_driver p, p_cgroup_version p, p_cgroup_manager p] \<and>
     list_all (optional_value safe_info_path) [p_graph_root p, p_run_root p]"

definition clear_unsafe :: "podman_info \<Rightarrow> podman_info" where
  "clear_unsafe p = p\<lparr>p_conmon_path := keep_path (p_conmon_path p), p_aardvark_path := keep_path (p_aardvark_path p),
     p_pasta_path := keep_path (p_pasta_path p), p_slirp_path := keep_path (p_slirp_path p),
     p_storage_mount_program := keep_path (p_storage_mount_program p),
     p_oci_runtime := (if runtime_ok (p_oci_runtime p) then p_oci_runtime p else None),
     p_rootless_network_cmd := keep_value info_token (p_rootless_network_cmd p),
     p_network_backend := keep_value info_token (p_network_backend p), p_storage_driver := keep_value info_token (p_storage_driver p),
     p_cgroup_version := keep_value info_token (p_cgroup_version p), p_cgroup_manager := keep_value info_token (p_cgroup_manager p),
     p_graph_root := keep_value safe_info_path (p_graph_root p), p_run_root := keep_value safe_info_path (p_run_root p)\<rparr>"

definition normalize_info :: "podman_info \<Rightarrow> podman_info \<times> bool" where
  "normalize_info p =
     (if p_version p = '''' then (clear_unsafe p, info_values_ok p)
      else case parse_version (''podman version '' @ p_version p) of
        Inl _ \<Rightarrow> ((clear_unsafe p)\<lparr>p_version := ''''\<rparr>, False)
      | Inr v \<Rightarrow> ((clear_unsafe p)\<lparr>p_version := trim_prefix (pv_raw v) ''podman version '', p_version_parts := Some v\<rparr>, info_values_ok p))"

section \<open>Running a command\<close>

definition version_failure :: "command_result \<Rightarrow> string" where
  "version_failure r =
     (let completed = command_completed (exec_result.truncate r)
      in if is_error (er_error r) Canceled then ''version_cancelled''
         else if er_timed_out r \<or> is_error (er_error r) DeadlineExceeded then ''version_timeout''
         else if er_stdout_truncated r \<or> er_stderr_truncated r then ''version_output_truncated''
         else if er_output_incomplete r then ''version_output_incomplete''
         else if completed \<and> er_exit r \<noteq> 0 then ''version_exit_failed''
         else if command_failed_to_start r then ''version_start_failed''
         else if \<not> completed then ''version_output_incomplete''
         else '''')"

text \<open>The measurement is the command's output, at the time it ended.\<close>

definition measured_output :: "instant \<Rightarrow> string \<Rightarrow> observation \<Rightarrow> observation" where
  "measured_output at raw obs =
     (case ob_facts obs of
        [] \<Rightarrow> obs | f # fs \<Rightarrow> obs\<lparr>ob_timestamp := at, ob_facts := f\<lparr>f_timestamp := at, f_raw_data := raw\<rparr> # fs\<rparr>)"

definition command_error :: "string \<Rightarrow> command_result \<Rightarrow> go_error" where
  "command_error t r = (case er_error r of None \<Rightarrow> Err t | Some err \<Rightarrow> err)"

section \<open>The version probe\<close>

definition version_start :: "runtime_services \<Rightarrow> observation" where
  "version_start env = (runtime_observation ''podman.version'' (pe_scope env) (pe_now env 0))
     \<lparr>ob_version := Some \<lparr>v_path = '''', v_runnable = None, v_version = None\<rparr>\<rparr>"

definition with_version :: "string \<Rightarrow> bool option \<Rightarrow> podman_version option \<Rightarrow> observation \<Rightarrow> observation" where
  "with_version p runnable v obs = obs\<lparr>ob_version := Some \<lparr>v_path = p, v_runnable = runnable, v_version = v\<rparr>\<rparr>"

definition version_probe_run :: "command_spec \<Rightarrow> runtime_services \<Rightarrow> observation \<times> go_error option" where
  "version_probe_run cmd env =
     (let obs = version_start env; p = cmd_path cmd
      in if cmd_args cmd \<noteq> [''--version''] \<or> validate_executable_path p \<noteq> None \<or> p = ''''
         then (failed_runtime_observation ''invalid_version_command'' obs, Some (Err ''expected explicit Podman --version command''))
         else case pe_runner env of
           None \<Rightarrow> (failed_runtime_observation ''missing_command_service'' (with_version p None None obs), Some (Err ''missing command service''))
         | Some run \<Rightarrow>
             let result = run cmd;
                 obs1 = measured_output (pe_now env 1) (er_stdout result) (with_version p None None obs);
                 failure = version_failure result;
                 err = command_error ''version command did not complete successfully'' result
             in if failure \<noteq> ''''
                then (if failure = ''version_start_failed'' \<or> failure = ''version_exit_failed''
                      then (note_diagnostic failure ''Podman version command did not succeed'' (with_version p (Some False) None obs1), Some err)
                      else (failed_runtime_observation failure obs1, Some err))
                else case parse_version (er_stdout result) of
                  Inl e \<Rightarrow> (failed_runtime_observation ''invalid_version_output'' obs1, Some e)
                | Inr v \<Rightarrow> (with_version p (Some True) (Some v) obs1, None))"

section \<open>The info probe\<close>

definition local_info_args :: "string list" where
  "local_info_args = [''--remote=false'', ''--trace=false'', ''info'', ''--format'', ''json'']"

record info_probe =
  ip_command :: command_spec
  ip_legacy :: bool

definition expected_info_args :: "info_probe \<Rightarrow> string list" where
  "expected_info_args p = (if ip_legacy p then [''--remote=false'', ''info'', ''--format'', ''json''] else local_info_args)"

definition recognizable_info :: "podman_info \<Rightarrow> bool" where
  "recognizable_info p \<longleftrightarrow> p_version p \<noteq> '''' \<or> p_network_backend p \<noteq> None \<or> p_storage_driver p \<noteq> None \<or> p_cgroup_version p \<noteq> None \<or>
     p_cgroup_manager p \<noteq> None \<or> p_rootless p \<noteq> None \<or> p_graph_root p \<noteq> None \<or> p_run_root p \<noteq> None"

definition missing_info_fields :: "podman_info \<Rightarrow> (string \<times> bool) list" where
  "missing_info_fields p =
     [(''version'', p_version_parts p = None), (''rootless'', p_rootless p = None)] @
     map (\<lambda>(name, v). (name, v = None \<or> v = Some ''''))
       [(''network_backend'', p_network_backend p), (''storage_driver'', p_storage_driver p), (''cgroup_version'', p_cgroup_version p),
        (''cgroup_manager'', p_cgroup_manager p), (''graph_root'', p_graph_root p), (''run_root'', p_run_root p)]"

definition missing_info_diagnostics :: "podman_info \<Rightarrow> diagnostic list" where
  "missing_info_diagnostics p =
     map (\<lambda>(name, _). \<lparr>code = ''info_missing_'' @ name, msg = Text ''requested runtime field is absent or empty'', reference = ''''\<rparr>)
       (filter snd (missing_info_fields p))"

definition blank_info :: "string \<Rightarrow> podman_info" where
  "blank_info p = \<lparr>p_rootless_network_cmd = None, p_storage_mount_program = '''', p_oci_runtime = None, p_conmon_path = '''',
     p_aardvark_path = '''', p_pasta_path = '''', p_slirp_path = '''', p_version_parts = None, p_path = p, p_graph_root = None,
     p_run_root = None, p_service_is_remote = None, p_version = '''', p_network_backend = None, p_storage_driver = None,
     p_cgroup_version = None, p_cgroup_manager = None, p_rootless = None, p_helper_path = '''', p_available = None\<rparr>"

definition info_start :: "info_probe \<Rightarrow> runtime_services \<Rightarrow> observation" where
  "info_start p env = (runtime_observation ''podman.info'' (pe_scope env) (pe_now env 0))
     \<lparr>ob_summary := ''Podman effective runtime information'', ob_podman := Some (blank_info (cmd_path (ip_command p)))\<rparr>"

text \<open>What the probe makes of the output of a command that succeeded.\<close>

definition info_payload :: "json_decoder \<Rightarrow> string \<Rightarrow> string \<Rightarrow> observation \<Rightarrow> observation \<times> go_error option" where
  "info_payload json path out obs =
     (case parse_info json out of
        Inl _ \<Rightarrow> (failed_runtime_observation ''invalid_runtime_json'' obs, Some (Err ''unrecognized Podman info document''))
      | Inr parsed \<Rightarrow>
          if \<not> recognizable_info parsed
          then (failed_runtime_observation ''invalid_runtime_json'' obs, Some (Err ''unrecognized Podman info document''))
          else case normalize_info (parsed\<lparr>p_path := path\<rparr>) of
            (info, False) \<Rightarrow> (failed_runtime_observation ''invalid_runtime_value'' (obs\<lparr>ob_podman := Some info\<rparr>),
              Some (Err ''runtime information contains unsafe values''))
          | (info, True) \<Rightarrow>
              if p_service_is_remote info = Some True
              then (failed_runtime_observation ''unexpected_remote_info'' (obs\<lparr>ob_podman := Some info\<rparr>),
                Some (Err ''local inspection returned remote information''))
              else (obs\<lparr>ob_podman := Some (info\<lparr>p_available := Some True\<rparr>), ob_diagnostics := missing_info_diagnostics info\<rparr>, None))"

definition info_probe_run :: "json_decoder \<Rightarrow> info_probe \<Rightarrow> runtime_services \<Rightarrow> observation \<times> go_error option" where
  "info_probe_run json p env =
     (let obs = info_start p env; cmd = ip_command p; path = cmd_path cmd
      in if path = '''' \<or> validate_executable_path path \<noteq> None \<or> cmd_args cmd \<noteq> expected_info_args p
         then (failed_runtime_observation ''invalid_info_command'' obs, Some (Err ''expected reviewed Podman info command''))
         else case pe_runner env of
           None \<Rightarrow> (failed_runtime_observation ''missing_command_service'' obs, Some (Err ''missing Podman command service''))
         | Some run \<Rightarrow>
             let result = run cmd;
                 obs1 = measured_output (pe_now env 1) (er_stdout result) obs;
                 failure = version_failure result;
                 code = ''info_'' @ trim_prefix failure ''version_'';
                 err = command_error ''runtime inspection did not complete successfully'' result
             in if failure \<noteq> ''''
                then (if code = ''info_start_failed'' \<or> code = ''info_exit_failed''
                      then (note_diagnostic code ''runtime inspection did not succeed''
                             (obs1\<lparr>ob_podman := Some ((blank_info path)\<lparr>p_available := Some False\<rparr>)\<rparr>), Some err)
                      else (failed_runtime_observation code obs1, Some err))
                else info_payload json path (er_stdout result) obs1)"

section \<open>Discovery\<close>

definition discovery_paths :: "string list" where
  "discovery_paths = [''/usr/bin/podman'', ''/usr/local/bin/podman'', ''/bin/podman'']"

definition path_fact :: "nat \<Rightarrow> string \<Rightarrow> completeness \<Rightarrow> observation \<Rightarrow> observation" where
  "path_fact n candidate k obs = obs\<lparr>ob_facts := ob_facts obs @ [blank_fact\<lparr>f_id := ob_id obs @ ''.path'' @ decimal_string n,
     f_scope := ob_scope obs, f_timestamp := ob_timestamp obs, f_source := ''filesystem.stat'', f_text := candidate,
     f_completeness := k\<rparr>]\<rparr>"

definition with_discovery :: "string \<Rightarrow> bool option \<Rightarrow> executable_metadata option \<Rightarrow> observation \<Rightarrow> observation" where
  "with_discovery p installed f obs = obs\<lparr>ob_discovery := Some \<lparr>d_path = p, d_installed = installed, d_file = f\<rparr>\<rparr>"

text \<open>The loop; \<open>fixed\<close> is the explicit path, if one was given.\<close>

fun discovery_loop :: "runtime_services \<Rightarrow> string \<Rightarrow> nat \<Rightarrow> string list \<Rightarrow> bool \<Rightarrow> observation \<Rightarrow> observation \<times> go_error option" where
  "discovery_loop env fixed n [] unsure obs =
     (if unsure then (obs, None)
      else (note_diagnostic ''podman_not_found'' ''no selected Podman executable found'' (with_discovery fixed (Some False) None obs), None))"
| "discovery_loop env fixed n (candidate # rest) unsure obs =
     (case pe_ctx env ''discovery'' n of
        Some err \<Rightarrow> (failed_runtime_observation ''discovery_cancelled'' obs, Some err)
      | None \<Rightarrow>
          (case pe_stat env n (trim_root candidate) of
             Inl err \<Rightarrow>
               if errors_is err ErrNotExist then discovery_loop env fixed (Suc n) rest unsure (path_fact n candidate Complete obs)
               else discovery_loop env fixed (Suc n) rest True
                 (incomplete_observation ''executable_lookup_unavailable'' (path_fact n candidate Partial obs))
           | Inr info \<Rightarrow>
               let obs1 = path_fact n candidate Complete obs; meta = executable_metadata_of info
               in if \<not> fst_regular info
                  then (incomplete_observation ''executable_not_regular'' (with_discovery candidate None (Some meta) obs1), None)
                  else let obs2 = with_discovery candidate (Some True) (Some meta) obs1
                    in (if xm_executable_bits meta then obs2
                        else note_diagnostic ''executable_bits_missing'' ''selected file has no executable permission bits'' obs2, None)))"

definition discovery_run :: "string \<Rightarrow> runtime_services \<Rightarrow> observation \<times> go_error option" where
  "discovery_run fixed env =
     (let obs = with_discovery '''' None None (runtime_observation ''podman.discovery'' (pe_scope env) (pe_now env 0))
      in case validate_executable_path fixed of
           Some err \<Rightarrow> (failed_runtime_observation ''invalid_executable_path'' obs, Some err)
         | None \<Rightarrow>
             if \<not> pe_files env then (failed_runtime_observation ''missing_file_service'' obs, Some (Err ''missing scoped file service''))
             else discovery_loop env fixed 0 (if fixed = '''' then discovery_paths else [fixed]) False
               (with_discovery fixed None None obs))"

section \<open>The commands of an inspection\<close>

definition VersionTimeout :: int where "VersionTimeout = 5000000000"
definition InfoTimeout :: int where "InfoTimeout = 30000000000"

definition inspection_commands :: "string \<Rightarrow> string list \<Rightarrow> command_spec \<times> command_spec" where
  "inspection_commands executable policy =
     (\<lparr>cmd_path = executable, cmd_args = [''--version''], cmd_env = policy, cmd_dir = ''/'', cmd_timeout = VersionTimeout\<rparr>,
      \<lparr>cmd_path = executable, cmd_args = local_info_args, cmd_env = policy, cmd_dir = ''/'', cmd_timeout = InfoTimeout\<rparr>)"

definition prepare_inspection :: "runtime_services \<Rightarrow> user_identity \<Rightarrow> string \<Rightarrow> string list \<Rightarrow> go_error + (command_spec \<times> command_spec)" where
  "prepare_inspection env user executable captured =
     (case pe_ctx env ''prepare'' 0 of
        Some err \<Rightarrow> Inl err
      | None \<Rightarrow>
          if \<not> pe_files env \<or> executable = '''' \<or> validate_executable_path executable \<noteq> None
          then Inl (Err ''invalid inspection services or executable'')
          else case target_environment (home_dir user) captured of
            Inl err \<Rightarrow> Inl err
          | Inr policy \<Rightarrow>
              let values = directory_values policy;
                  home = (case map_of values ''HOME'' of None \<Rightarrow> '''' | Some h \<Rightarrow> h);
                  inaccessible = Inl (Err ''current home directory is inaccessible'')
              in (case pe_stat env 0 (path_clean (trim_root home)) of
                    Inl _ \<Rightarrow> inaccessible
                  | Inr info \<Rightarrow>
                      if \<not> fst_dir info then inaccessible
                      else case map_of values ''XDG_RUNTIME_DIR'' of
                        None \<Rightarrow> if uid user \<noteq> 0 then Inl (Err ''rootless inspection requires an explicit runtime directory'')
                          else Inr (inspection_commands executable policy)
                      | Some dir \<Rightarrow>
                          (case validate_runtime_directory (pe_ctx env ''runtime'' 0)
                                  (Some (\<lambda>p. map_sum id file_stat.truncate (pe_stat env 1 p))) dir (uid user) of
                             Some err \<Rightarrow> Inl err
                           | None \<Rightarrow> Inr (inspection_commands executable policy))))"

end
