(* ===== verification/Podman_Probes.thy ===== *)
theory Podman_Probes
  imports Podman_Helpers Podman_Info
begin

text \<open>
  Every Podman probe keeps the interface of \<open>Podman\_Services\<close>: its observation carries its name and scope, facts with
  distinct names, and no fact is less complete than the observation says.
\<close>

section \<open>Executables\<close>

lemma update_executable_wf [simp]: "runtime_wf i s (update_executable f obs) = runtime_wf i s obs"
  by (simp add: update_executable_def)

lemma candidate_wf [simp]:
  "runtime_wf i s (append_candidate c obs) = runtime_wf i s obs" "runtime_wf i s (select_path p obs) = runtime_wf i s obs"
  by (simp_all add: append_candidate_def select_path_def)

lemma executable_loop_wf: "runtime_wf i s obs \<Longrightarrow> runtime_wf i s (fst (executable_loop env g n names obs))"
proof (induction names arbitrary: n obs)
  case (Cons name names)
  obtain c err where c: "observe_executable env n name g = (c, err)" by fastforce
  have "runtime_wf i s (if err = None then append_candidate c obs
      else partial_measurement (incomplete_observation ''executable_metadata_unavailable'' (append_candidate c obs)))"
    using Cons.prems by (simp add: runtime_wf_measurement_partial observation_simps)
  then show ?case using Cons.IH c by (cases err; cases g) (simp_all add: Let_def)
qed simp

lemma executable_probe_wf:
  assumes "pe_now env 0 \<noteq> 0"
  shows "runtime_wf (executable_probe_id p) (pe_scope env) (fst (executable_probe_run p env))"
proof -
  have "executable_probe_id p \<noteq> ''''" by (simp add: executable_probe_id_def)
  then have start: "runtime_wf (executable_probe_id p) (pe_scope env) (executable_start p env)" using assms by (simp add: executable_start_def)
  from executable_loop_wf [OF this, of env "xp_generator p" 0 "xp_paths p"] start show ?thesis
    by (auto simp: executable_probe_run_def split: prod.split option.split)
qed

section \<open>Configured helpers\<close>

lemma configured_candidate_wf: "runtime_wf i s obs \<Longrightarrow> runtime_wf i s (snd (configured_candidate env role name fallback obs))"
  by (auto simp: configured_candidate_def Let_def split: sum.split prod.split)

lemma configured_search_wf: "runtime_wf i s obs \<Longrightarrow> runtime_wf i s (snd (configured_search env role paths obs))"
proof (induction paths arbitrary: obs)
  case (Cons p rest)
  then show ?case using configured_candidate_wf [of i s obs env role "fst p" "snd p"]
    by (cases p) (auto simp: Let_def case_prod_unfold)
qed simp

lemma configured_start_wf [simp]: "runtime_wf (configured_helper_id role) (pe_scope env) (configured_start env role source) \<longleftrightarrow> pe_now env 0 \<noteq> 0"
  by (simp add: configured_start_def configured_helper_id_def)

lemma configured_helper_wf:
  "pe_now env 0 \<noteq> 0 \<Longrightarrow> runtime_wf (configured_helper_id role) (pe_scope env) (fst (configured_helper_run role source env))"
  by (simp add: configured_helper_run_def Let_def configured_search_wf split: option.split prod.split)

lemma network_helper_wf:
  "pe_now env 0 \<noteq> 0 \<Longrightarrow> runtime_wf (configured_helper_id role) (pe_scope env) (fst (network_helper_run role source env))"
  by (simp add: network_helper_run_def Let_def configured_search_wf runtime_wf_failed split: option.split prod.split)

section \<open>Podman's answers\<close>

lemma measured_output_wf [intro]:
  assumes "runtime_wf i s obs" and "at \<noteq> 0" and "length (ob_facts obs) = 1"
  shows "runtime_wf i s (measured_output at raw obs)"
proof -
  obtain f where "ob_facts obs = [f]" using assms(3) by (cases "ob_facts obs") auto
  then show ?thesis using assms(1,2) by (auto simp: measured_output_def runtime_wf_def runtime_fact_def)
qed

lemma with_payload_wf [simp]:
  "runtime_wf i s (with_version p r v obs) = runtime_wf i s obs" "runtime_wf i s (with_discovery d k m obs) = runtime_wf i s obs"
  by (simp_all add: with_version_def with_discovery_def)

lemma start_facts:
  "length (ob_facts (with_version p r v (version_start env))) = 1" "length (ob_facts (info_start q env)) = 1"
  by (simp_all add: with_version_def version_start_def info_start_def runtime_observation_def)

lemma version_start_wf: "runtime_wf ''podman.version'' (pe_scope env) (version_start env) \<longleftrightarrow> pe_now env 0 \<noteq> 0"
  by (simp add: version_start_def)

lemma info_start_wf: "runtime_wf ''podman.info'' (pe_scope env) (info_start p env) \<longleftrightarrow> pe_now env 0 \<noteq> 0"
  by (simp add: info_start_def)

lemma version_probe_wf:
  assumes "\<And>n. pe_now env n \<noteq> 0"
  shows "runtime_wf ''podman.version'' (pe_scope env) (fst (version_probe_run cmd env))"
proof -
  have start: "runtime_wf ''podman.version'' (pe_scope env) (version_start env)" using assms version_start_wf by simp
  have out: "runtime_wf ''podman.version'' (pe_scope env) (measured_output (pe_now env 1) raw (with_version p r v (version_start env)))" for raw p r v
    using start assms start_facts(1) by (intro measured_output_wf) simp_all
  show ?thesis using start out by (simp add: version_probe_run_def Let_def split: option.split sum.split)
qed

lemma info_payload_wf: "runtime_wf i s obs \<Longrightarrow> runtime_wf i s (fst (info_payload json p out obs))"
  by (auto simp: info_payload_def split: sum.split prod.split bool.split)

lemma info_probe_wf:
  assumes "\<And>n. pe_now env n \<noteq> 0"
  shows "runtime_wf ''podman.info'' (pe_scope env) (fst (info_probe_run json p env))"
proof -
  have start: "runtime_wf ''podman.info'' (pe_scope env) (info_start p env)" using assms info_start_wf by simp
  have out: "runtime_wf ''podman.info'' (pe_scope env) (measured_output (pe_now env 1) raw (info_start p env))" for raw
    using start assms start_facts(2) by (intro measured_output_wf) simp_all
  show ?thesis using start out info_payload_wf [OF out] by (simp add: info_probe_run_def Let_def split: option.split)
qed

section \<open>Discovery\<close>

text \<open>The facts of the loop are numbered; the numbers so far are below the next.\<close>

definition path_facts_below :: "nat \<Rightarrow> observation \<Rightarrow> bool" where
  "path_facts_below n obs \<longleftrightarrow> (\<forall>f\<in>set (tl (ob_facts obs)). \<exists>k<n. f_id f = ob_id obs @ ''.path'' @ decimal_string k)"

lemma path_fact_wf:
  assumes "runtime_wf i s obs" and "path_facts_below n obs" and "k = Complete \<or> k = Partial \<and> ob_completeness obs = Partial"
  shows "runtime_wf i s (path_fact n c k obs)" and "path_facts_below (Suc n) (path_fact n c k obs)"
proof -
  obtain f fs where f: "ob_facts obs = f # fs" "f_id f = i @ ''.measurement''" "ob_id obs = i"
    using assms(1) by (cases "ob_facts obs") (auto simp: runtime_wf_def)
  have "i @ ''.path'' @ decimal_string n \<noteq> f_id f" using f(2) by simp
  moreover have "i @ ''.path'' @ decimal_string n \<notin> f_id ` set fs"
    using assms(2) f decimal_string_inj by (fastforce simp: path_facts_below_def)
  ultimately have "i @ ''.path'' @ decimal_string n \<notin> f_id ` set (ob_facts obs)" using f(1) by auto
  then show "runtime_wf i s (path_fact n c k obs)"
    using assms(1,3) by (auto simp: path_fact_def runtime_wf_def runtime_fact_def blank_fact_def)
  show "path_facts_below (Suc n) (path_fact n c k obs)"
    using assms(2) f by (fastforce simp: path_fact_def path_facts_below_def blank_fact_def less_Suc_eq)
qed

lemma path_fact_partial:
  "incomplete_observation c (path_fact n p Partial obs) = incomplete_observation c (path_fact n p Partial (obs\<lparr>ob_completeness := Partial\<rparr>))"
  by (simp add: incomplete_observation_def path_fact_def note_diagnostic_def)

lemma path_facts_simps [simp]:
  "path_facts_below n (incomplete_observation c obs) = path_facts_below n obs"
  "path_facts_below n (obs\<lparr>ob_completeness := k\<rparr>) = path_facts_below n obs"
  "path_facts_below n (with_discovery d j m obs) = path_facts_below n obs"
  by (simp_all add: path_facts_below_def incomplete_observation_def note_diagnostic_def with_discovery_def)

lemma discovery_loop_wf:
  "runtime_wf i s obs \<Longrightarrow> path_facts_below n obs \<Longrightarrow> runtime_wf i s (fst (discovery_loop env fixed n paths u obs))"
proof (induction paths arbitrary: n u obs)
  case (Cons p paths)
  note complete = path_fact_wf [OF Cons.prems, of Complete p]
  have "runtime_wf i s (obs\<lparr>ob_completeness := Partial\<rparr>)" "path_facts_below n (obs\<lparr>ob_completeness := Partial\<rparr>)"
    using Cons.prems by (simp_all add: runtime_wf_partial)
  note partial = path_fact_wf [OF this, of Partial p]
  show ?case using Cons.prems complete partial Cons.IH
    by (auto simp: Let_def path_fact_partial [of _ n p obs] split: option.split sum.split)
qed simp

lemma discovery_wf:
  assumes "pe_now env 0 \<noteq> 0"
  shows "runtime_wf ''podman.discovery'' (pe_scope env) (fst (discovery_run fixed env))"
proof -
  let ?start = "runtime_observation ''podman.discovery'' (pe_scope env) (pe_now env 0)"
  have "runtime_wf ''podman.discovery'' (pe_scope env) ?start" using assms by simp
  moreover have "path_facts_below 0 ?start" by (simp add: path_facts_below_def runtime_observation_def)
  ultimately show ?thesis by (simp add: discovery_run_def Let_def discovery_loop_wf del: discovery_loop.simps split: option.split)
qed

section \<open>The network helper\<close>

lemma measured_text_wf: "runtime_wf i s obs \<Longrightarrow> source \<noteq> '''' \<Longrightarrow> runtime_wf i s (measured_text source t obs)"
  by (cases "ob_facts obs") (auto simp: measured_text_def runtime_wf_def runtime_fact_def)

lemma network_helper_observation_wf:
  assumes "at \<noteq> 0"
  shows "runtime_wf ''podman.network-helper'' (pe_scope env) (fst (observe_network_helper env info at))"
proof -
  have "runtime_wf ''podman.network-helper'' (pe_scope env) (helper_start env at)" using assms by (simp add: helper_start_def)
  then show ?thesis by (auto simp: observe_network_helper_def Let_def intro!: measured_text_wf split: option.split)
qed

section \<open>Interpretations\<close>

interpretation executable: runtime_probe "executable_probe_id p" "executable_probe_run p" for p
  by (unfold_locales, simp add: executable_probe_id_def, simp add: executable_probe_wf)

interpretation configured_helper: runtime_probe "configured_helper_id role" "configured_helper_run role source" for role source
  by (unfold_locales, simp add: configured_helper_id_def, simp add: configured_helper_wf)

interpretation network_helper: runtime_probe "configured_helper_id role" "network_helper_run role source" for role source
  by (unfold_locales, simp add: configured_helper_id_def, simp add: network_helper_wf)

interpretation runtime_version: runtime_probe "''podman.version''" "version_probe_run cmd" for cmd
  by unfold_locales (simp_all add: version_probe_wf)

interpretation runtime_info: runtime_probe "''podman.info''" "info_probe_run json p" for json p
  by unfold_locales (simp_all add: info_probe_wf)

interpretation discovery: runtime_probe "''podman.discovery''" "discovery_run fixed" for fixed
  by unfold_locales (simp_all add: discovery_wf)

interpretation reported_helper: runtime_probe "''podman.network-helper''" "\<lambda>env. observe_network_helper env info (pe_now env 0)" for info
  by unfold_locales (simp_all add: network_helper_observation_wf)

end
