(* ===== verification/Podman_Info_Laws.thy ===== *)
theory Podman_Info_Laws
  imports Podman_Probes Catalog_Runtime
begin

text \<open>
  What an available runtime, a discovered executable and a prepared inspection rest on.
\<close>

section \<open>Normalised values\<close>

lemma keep_values [simp]: "keep_path s = '''' \<or> safe_info_path (keep_path s)" "optional_value ok (keep_value ok v)"
  by (auto simp: keep_path_def keep_value_def optional_value_def split: option.split)

lemma keep_id: "s = '''' \<or> safe_info_path s \<Longrightarrow> keep_path s = s" "optional_value ok v \<Longrightarrow> keep_value ok v = v"
  by (auto simp: keep_path_def keep_value_def)

lemma clear_unsafe_ok: "info_values_ok (clear_unsafe p)"
  by (simp add: info_values_ok_def clear_unsafe_def) (simp add: runtime_ok_def)

lemma clear_unsafe_id: "info_values_ok p \<Longrightarrow> clear_unsafe p = p"
  by (simp add: info_values_ok_def clear_unsafe_def keep_id)

text \<open>The version text and its parts agree.\<close>

definition version_parts_agree :: "podman_info \<Rightarrow> bool" where
  "version_parts_agree p \<longleftrightarrow>
     (case p_version_parts p of
        None \<Rightarrow> p_version p = ''''
      | Some v \<Rightarrow> version_ok v \<and> version_line v = ''podman version '' @ p_version p)"

lemma version_parts_agree_available [simp]: "version_parts_agree (p\<lparr>p_available := a\<rparr>) = version_parts_agree p"
  by (simp add: version_parts_agree_def split: option.split)

lemma clear_unsafe_fields [simp]:
  "p_version (clear_unsafe p) = p_version p" "p_version_parts (clear_unsafe p) = p_version_parts p"
  "p_path (clear_unsafe p) = p_path p" "p_service_is_remote (clear_unsafe p) = p_service_is_remote p"
  "p_helper_path (clear_unsafe p) = p_helper_path p" "p_available (clear_unsafe p) = p_available p"
  by (simp_all add: clear_unsafe_def)

lemma info_values_ok_version [simp]:
  "info_values_ok (p\<lparr>p_version := t\<rparr>) = info_values_ok p" "info_values_ok (p\<lparr>p_version_parts := v\<rparr>) = info_values_ok p"
  "info_values_ok (p\<lparr>p_available := a\<rparr>) = info_values_ok p" "info_values_ok (p\<lparr>p_path := t\<rparr>) = info_values_ok p"
  by (simp_all add: info_values_ok_def)

lemma normalize_info_ok:
  assumes "normalize_info p = (q, valid)" and "p_version_parts p = None"
  shows "info_values_ok q \<and> version_parts_agree q \<and> p_path q = p_path p \<and> p_service_is_remote q = p_service_is_remote p"
proof (cases "p_version p = ''''")
  case True
  then show ?thesis using assms clear_unsafe_ok by (auto simp: normalize_info_def version_parts_agree_def)
next
  case False
  show ?thesis
  proof (cases "parse_version (''podman version '' @ p_version p)")
    case (Inl e)
    then show ?thesis using False assms clear_unsafe_ok [of p] by (auto simp: normalize_info_def version_parts_agree_def)
  next
    case (Inr v)
    then have v: "version_ok v" "pv_raw v = version_line v" using parse_version_parsed by (auto simp: version_ok_def)
    have q: "q = (clear_unsafe p)\<lparr>p_version := trim_prefix (pv_raw v) ''podman version '', p_version_parts := Some v\<rparr>"
      using False Inr assms(1) by (simp add: normalize_info_def)
    have "version_line v = ''podman version '' @ trim_prefix (pv_raw v) ''podman version ''"
      unfolding v(2) version_line_def by (simp only: trim_prefix_append)
    then show ?thesis using v(1) clear_unsafe_ok [of p] unfolding q by (simp add: version_parts_agree_def)
  qed
qed

text \<open>Values that are all acceptable are kept as they are, but for the version's text.\<close>

lemma normalize_info_valid: "normalize_info p = (q, True) \<Longrightarrow> info_values_ok p \<and> q = p\<lparr>p_version := p_version q, p_version_parts := p_version_parts q\<rparr>"
  by (auto simp: normalize_info_def clear_unsafe_id split: if_splits sum.splits)

section \<open>An available runtime\<close>

lemma parsed_version_parts: "parse_info json out = Inr p \<Longrightarrow> p_version_parts p = None \<and> p_available p = None"
  by (auto simp: parse_info_def info_of_document_def split: option.splits)

lemma info_payload_available:
  assumes "info_payload json path out obs = (obs', err)" and "ob_podman obs' = Some info" and "p_available info = Some True"
    and "\<And>q. ob_podman obs = Some q \<Longrightarrow> p_available q = None"
  shows "err = None \<and> ob_completeness obs' = ob_completeness obs \<and> info_values_ok info \<and> version_parts_agree info \<and>
    p_path info = path \<and> p_service_is_remote info \<noteq> Some True \<and> (\<exists>parsed. parse_info json out = Inr parsed)"
proof -
  obtain parsed where parsed: "parse_info json out = Inr parsed"
    using assms by (cases "parse_info json out") (auto simp: info_payload_def observation_simps)
  obtain q valid where q: "normalize_info (parsed\<lparr>p_path := path\<rparr>) = (q, valid)" by fastforce
  have avail: "p_available q = None"
    using q parsed_version_parts [OF parsed] by (auto simp: normalize_info_def split: if_splits sum.splits)
  have "recognizable_info parsed" "valid" "p_service_is_remote q \<noteq> Some True"
      "obs' = obs\<lparr>ob_podman := Some (q\<lparr>p_available := Some True\<rparr>), ob_diagnostics := missing_info_diagnostics q\<rparr>" "err = None"
    using assms parsed q avail
    by (auto simp: info_payload_def observation_simps split: if_splits bool.splits)
  then show ?thesis using normalize_info_ok [OF q] parsed_version_parts [OF parsed] assms(2) parsed
    by auto
qed

lemma version_failure_none:
  "version_failure r = '''' \<Longrightarrow> command_completed (exec_result.truncate r) \<and> er_exit r = 0"
  by (auto simp: version_failure_def Let_def split: if_splits)

lemma measured_output_fields [simp]:
  "ob_podman (measured_output at raw obs) = ob_podman obs" "ob_completeness (measured_output at raw obs) = ob_completeness obs"
  "ob_version (measured_output at raw obs) = ob_version obs"
  by (simp_all add: measured_output_def split: list.split)

lemma info_start_payload: "ob_podman (info_start p env) = Some (blank_info (cmd_path (ip_command p)))" "ob_completeness (info_start p env) = Complete"
  by (simp_all add: info_start_def observation_simps)

lemma unsafe_helper_refused:
  "ob_podman obs = Some info \<Longrightarrow> \<not> safe_info_path (p_helper_path info) \<Longrightarrow> snd (observe_network_helper services obs at) \<noteq> None"
  by (simp add: observe_network_helper_def Let_def)

text \<open>
  C22: An observation reports the runtime as available only if the reviewed command, with its guard against a remote
  service, ran to its end with exit status zero and complete output that parsed; the observation is then complete and
  without error, and the answer is local. The paths of conmon, the OCI runtime, Aardvark, pasta, slirp4netns, the mount
  program and the two roots are empty or absolute, clean and free of control characters, the names are empty or tokens of
  bounded length, and the parts of the version are those of the version's text. The path of the network helper is not
  among these values, but the probe for that helper refuses every observation whose helper path is not such a path.
\<close>

theorem available_info:
  assumes "info_probe_run json p env = (obs, err)" and "ob_podman obs = Some info" and "p_available info = Some True"
  shows "err = None \<and> ob_completeness obs = Complete \<and> info_values_ok info \<and> version_parts_agree info \<and>
    p_service_is_remote info \<noteq> Some True \<and> p_path info = cmd_path (ip_command p) \<and> cmd_args (ip_command p) = expected_info_args p \<and>
    (\<exists>run. pe_runner env = Some run \<and> command_completed (exec_result.truncate (run (ip_command p))) \<and> er_exit (run (ip_command p)) = 0 \<and>
       (\<exists>parsed. parse_info json (er_stdout (run (ip_command p))) = Inr parsed)) \<and>
    (\<not> safe_info_path (p_helper_path info) \<longrightarrow> (\<forall>services at. snd (observe_network_helper services obs at) \<noteq> None))"
proof -
  let ?cmd = "ip_command p"
  have blank: "p_available (blank_info q) = None" for q by (simp add: blank_info_def)
  have args: "cmd_args ?cmd = expected_info_args p"
    using assms blank by (auto simp: info_probe_run_def Let_def info_start_payload observation_simps split: if_splits)
  obtain run where run: "pe_runner env = Some run"
    using assms blank by (cases "pe_runner env") (auto simp: info_probe_run_def Let_def info_start_payload observation_simps split: if_splits)
  have ok: "version_failure (run ?cmd) = ''''" 
    using assms blank run
    by (auto simp: info_probe_run_def Let_def info_start_payload observation_simps note_diagnostic_def split: if_splits)
  have payload: "info_payload json (cmd_path ?cmd) (er_stdout (run ?cmd)) (measured_output (pe_now env 1) (er_stdout (run ?cmd)) (info_start p env)) = (obs, err)"
    using assms blank run ok by (auto simp: info_probe_run_def Let_def info_start_payload observation_simps split: if_splits)
  have "p_available q = None" if "ob_podman (measured_output (pe_now env 1) (er_stdout (run ?cmd)) (info_start p env)) = Some q" for q
    using that blank by (auto simp: info_start_payload)
  from info_payload_available [OF payload assms(2,3) this] show ?thesis
    using args run version_failure_none [OF ok] unsafe_helper_refused [OF assms(2)] by (simp add: info_start_payload)
qed

section \<open>The executable\<close>

definition searched_paths :: "string \<Rightarrow> string list" where
  "searched_paths fixed = (if fixed = '''' then discovery_paths else [fixed])"

definition path_absent :: "runtime_services \<Rightarrow> nat \<Rightarrow> string \<Rightarrow> bool" where
  "path_absent env n p \<longleftrightarrow> (\<exists>err. pe_stat env n (trim_root p) = Inl err \<and> errors_is err ErrNotExist)"

lemma path_fact_fields [simp]: "ob_discovery (path_fact n p k obs) = ob_discovery obs" "ob_completeness (path_fact n p k obs) = ob_completeness obs"
  by (simp_all add: path_fact_def)

lemma with_discovery_fields [simp]:
  "ob_discovery (with_discovery p i m obs) = Some \<lparr>d_path = p, d_installed = i, d_file = m\<rparr>"
  "ob_completeness (with_discovery p i m obs) = ob_completeness obs"
  by (simp_all add: with_discovery_def)

lemma note_fields [simp]: "ob_discovery (note_diagnostic c m obs) = ob_discovery obs" "ob_completeness (note_diagnostic c m obs) = ob_completeness obs"
  by (simp_all add: note_diagnostic_def)

lemma discovery_loop_result:
  assumes "discovery_loop env fixed n paths unsure obs = (obs', err)" and "ob_discovery obs = Some \<lparr>d_path = fixed, d_installed = None, d_file = None\<rparr>"
    and "ob_discovery obs' = Some d"
  shows "(d_installed d = Some False \<longrightarrow> \<not> unsure \<and> (\<forall>k<length paths. path_absent env (n + k) (paths ! k))) \<and>
    (d_installed d = Some True \<longrightarrow> (\<exists>k<length paths. \<exists>info. d_path d = paths ! k \<and> pe_stat env (n + k) (trim_root (paths ! k)) = Inr info \<and>
       fst_regular info \<and> d_file d = Some (executable_metadata_of info) \<and>
       (ob_completeness obs' = Complete \<longrightarrow> ob_completeness obs = Complete \<and> (\<forall>j<k. path_absent env (n + j) (paths ! j)))))"
  using assms
proof (induction paths arbitrary: n unsure obs)
  case Nil
  then show ?case by (auto split: if_splits)
next
  case (Cons p paths)
  show ?case
  proof (cases "pe_ctx env ''discovery'' n")
    case (Some e)
    then show ?thesis using Cons.prems by (auto simp: observation_simps)
  next
    case ctx: None
    show ?thesis
    proof (cases "pe_stat env n (trim_root p)")
      case (Inr info)
      then show ?thesis using Cons.prems ctx
        by (auto simp: Let_def observation_simps split: if_splits intro!: exI [of _ 0])
    next
      case (Inl e)
      show ?thesis
      proof (cases "errors_is e ErrNotExist")
        case True
        then have "discovery_loop env fixed (Suc n) paths unsure (path_fact n p Complete obs) = (obs', err)"
          using Cons.prems(1) ctx Inl by simp
        from Cons.IH [OF this] Cons.prems(2,3)
        have IH: "d_installed d = Some False \<longrightarrow> \<not> unsure \<and> (\<forall>k<length paths. path_absent env (Suc n + k) (paths ! k))"
          "d_installed d = Some True \<longrightarrow> (\<exists>k<length paths. \<exists>info. d_path d = paths ! k \<and> pe_stat env (Suc n + k) (trim_root (paths ! k)) = Inr info \<and>
            fst_regular info \<and> d_file d = Some (executable_metadata_of info) \<and>
            (ob_completeness obs' = Complete \<longrightarrow> ob_completeness obs = Complete \<and> (\<forall>j<k. path_absent env (Suc n + j) (paths ! j))))"
          by simp_all
        have here: "path_absent env n p" using Inl True by (simp add: path_absent_def)
        have shift: "(\<forall>j<Suc k. path_absent env (n + j) ((p # paths) ! j)) \<longleftrightarrow> (\<forall>j<k. path_absent env (Suc n + j) (paths ! j))" for k
          using here by (auto simp: less_Suc_eq_0_disj)
        show ?thesis
        proof (intro conjI impI)
          assume "d_installed d = Some False"
          then show "\<not> unsure" "\<forall>k<length (p # paths). path_absent env (n + k) ((p # paths) ! k)"
            using IH(1) shift [of "length paths"] by simp_all
        next
          assume "d_installed d = Some True"
          then obtain k info where "k < length paths" "d_path d = paths ! k" "pe_stat env (Suc n + k) (trim_root (paths ! k)) = Inr info"
              "fst_regular info" "d_file d = Some (executable_metadata_of info)"
              "ob_completeness obs' = Complete \<longrightarrow> ob_completeness obs = Complete \<and> (\<forall>j<k. path_absent env (Suc n + j) (paths ! j))"
            using IH(2) by blast
          then show "\<exists>k<length (p # paths). \<exists>info. d_path d = (p # paths) ! k \<and> pe_stat env (n + k) (trim_root ((p # paths) ! k)) = Inr info \<and>
              fst_regular info \<and> d_file d = Some (executable_metadata_of info) \<and>
              (ob_completeness obs' = Complete \<longrightarrow> ob_completeness obs = Complete \<and> (\<forall>j<k. path_absent env (n + j) ((p # paths) ! j)))"
            using shift [of k] by (intro exI [of _ "Suc k"] conjI exI [of _ info]) simp_all
        qed
      next
        case False
        let ?obs = "incomplete_observation ''executable_lookup_unavailable'' (path_fact n p Partial obs)"
        have "discovery_loop env fixed (Suc n) paths True ?obs = (obs', err)" using Cons.prems(1) ctx Inl False by simp
        from Cons.IH [OF this] Cons.prems(2,3) show ?thesis by (fastforce simp: observation_simps)
      qed
    qed
  qed
qed

lemma discovery_result:
  assumes "discovery_run fixed env = (obs, err)" and "ob_discovery obs = Some d"
  shows "(d_installed d = Some False \<longrightarrow> (\<forall>k<length (searched_paths fixed). path_absent env k (searched_paths fixed ! k))) \<and>
    (d_installed d = Some True \<longrightarrow> (\<exists>k<length (searched_paths fixed). \<exists>info. d_path d = searched_paths fixed ! k \<and>
       pe_stat env k (trim_root (searched_paths fixed ! k)) = Inr info \<and> fst_regular info \<and> d_file d = Some (executable_metadata_of info) \<and>
       (ob_completeness obs = Complete \<longrightarrow> (\<forall>j<k. path_absent env j (searched_paths fixed ! j)))))"
proof -
  let ?start = "with_discovery fixed None None (with_discovery '''' None None
      (runtime_observation ''podman.discovery'' (pe_scope env) (pe_now env 0)))"
  consider "d_installed d = None" | "discovery_loop env fixed 0 (searched_paths fixed) False ?start = (obs, err)"
    using assms by (auto simp: discovery_run_def Let_def searched_paths_def observation_simps simp del: discovery_loop.simps split: option.splits if_splits)
  then show ?thesis
  proof cases
    case 2
    from discovery_loop_result [OF this _ assms(2)] show ?thesis by simp blast
  qed simp
qed

section \<open>The verdict on the command line\<close>

lemma version_fields [simp]:
  "ob_version (with_version p r v obs) = Some \<lparr>v_path = p, v_runnable = r, v_version = v\<rparr>"
  by (simp add: with_version_def)

lemma version_probe_result:
  assumes "ob_version (fst (version_probe_run cmd env)) = Some v" and "v_runnable v = Some True" and "v_version v = Some ver"
  shows "cmd_args cmd = [''--version''] \<and> v_path v = cmd_path cmd \<and>
    (\<exists>run. pe_runner env = Some run \<and> command_completed (exec_result.truncate (run cmd)) \<and> er_exit (run cmd) = 0 \<and>
       trim_space (er_stdout (run cmd)) = version_line ver \<and> version_ok ver)"
proof -
  have args: "cmd_args cmd = [''--version'']"
    using assms by (auto simp: version_probe_run_def Let_def version_start_def observation_simps split: if_splits)
  obtain run where run: "pe_runner env = Some run"
    using assms by (cases "pe_runner env") (auto simp: version_probe_run_def Let_def version_start_def observation_simps split: if_splits)
  have noted: "ob_version (note_diagnostic c m obs) = ob_version obs" for c m obs by (simp add: note_diagnostic_def)
  have ok: "version_failure (run cmd) = ''''"
    using assms run by (auto simp: version_probe_run_def Let_def version_start_def observation_simps noted split: if_splits)
  have "parse_version (er_stdout (run cmd)) = Inr ver" "v_path v = cmd_path cmd"
    using assms run ok by (auto simp: version_probe_run_def Let_def version_start_def observation_simps split: if_splits sum.splits)
  then show ?thesis using args run version_failure_none [OF ok] parse_version_parsed by blast
qed

lemma failed_version: "ob_version (fst (discovery_run fixed env)) = None"
proof -
  have loop: "ob_version obs = None \<Longrightarrow> ob_version (fst (discovery_loop env p n paths u obs)) = None" for p n paths u obs
    by (induction paths arbitrary: n u obs)
      (auto simp: Let_def path_fact_def with_discovery_def note_diagnostic_def observation_simps split: option.split sum.split)
  show ?thesis
    by (simp add: discovery_run_def Let_def observation_simps with_discovery_def loop del: discovery_loop.simps split: option.split)
qed

lemma version_discovery: "ob_discovery (fst (version_probe_run cmd env)) = None"
  by (auto simp: version_probe_run_def Let_def version_start_def with_version_def measured_output_def note_diagnostic_def observation_simps
      split: option.split sum.split list.split)

lemma cli_evidence_state:
  assumes "ev \<in> set (podman_cli_evidence s observations)"
  shows "\<exists>ob\<in>set observations. \<exists>p. podman_cli_state ob = (ev_state ev, p, True)"
  using assms by (auto simp: podman_cli_evidence_def split: if_splits) (rule bexI, rule exI, erule sym, assumption)+

text \<open>
  C16: The verdict on the Podman command line rests on measurements. It is unsupported only if every path of the
  search was reported as not existing, and supported only if the command with the single argument \<open>--version\<close> ran to
  its end with status zero and printed exactly the line of a version.
\<close>

theorem podman_cli_verdict:
  assumes "ev \<in> set (podman_cli_evidence s [fst (discovery_run fixed env), fst (version_probe_run cmd env')])"
  shows "(ev_state ev = StateUnsupported \<longrightarrow> (\<forall>k<length (searched_paths fixed). path_absent env k (searched_paths fixed ! k))) \<and>
    (ev_state ev = StateSupported \<longrightarrow> cmd_args cmd = [''--version''] \<and> (\<exists>run v. pe_runner env' = Some run \<and>
       command_completed (exec_result.truncate (run cmd)) \<and> er_exit (run cmd) = 0 \<and>
       trim_space (er_stdout (run cmd)) = version_line v \<and> version_ok v))"
proof -
  let ?obs = "[fst (discovery_run fixed env), fst (version_probe_run cmd env')]"
  obtain obs p where obs: "obs \<in> set ?obs" "podman_cli_state obs = (ev_state ev, p, True)"
    using cli_evidence_state [OF assms] by blast
  have "podman_cli_state (fst (discovery_run fixed env)) = (ev_state ev, p, True) \<Longrightarrow>
      ev_state ev \<noteq> StateSupported \<and> (ev_state ev = StateUnsupported \<longrightarrow>
        (\<exists>d. ob_discovery (fst (discovery_run fixed env)) = Some d \<and> d_installed d = Some False))"
    by (auto simp: podman_cli_state_def podman_version_state_def failed_version split: option.splits if_splits)
  moreover have "podman_cli_state (fst (version_probe_run cmd env')) = (ev_state ev, p, True) \<Longrightarrow>
      ev_state ev \<noteq> StateUnsupported \<and> (ev_state ev = StateSupported \<longrightarrow>
        (\<exists>v ver. ob_version (fst (version_probe_run cmd env')) = Some v \<and> v_runnable v = Some True \<and> v_version v = Some ver))"
    by (auto simp: podman_cli_state_def podman_version_state_def version_discovery split: option.splits if_splits)
  ultimately consider (absent) d where "ob_discovery (fst (discovery_run fixed env)) = Some d" "d_installed d = Some False" "ev_state ev \<noteq> StateSupported"
    | (runs) v ver where "ob_version (fst (version_probe_run cmd env')) = Some v" "v_runnable v = Some True" "v_version v = Some ver" "ev_state ev \<noteq> StateUnsupported"
    | (other) "ev_state ev \<noteq> StateSupported" "ev_state ev \<noteq> StateUnsupported"
    using obs by (auto split: if_splits)
  then show ?thesis
  proof cases
    case absent
    then show ?thesis using discovery_result [of fixed env "fst (discovery_run fixed env)" "snd (discovery_run fixed env)" d] by simp
  next
    case runs
    then show ?thesis using version_probe_result [OF runs(1-3)] by blast
  qed simp
qed

section \<open>Prepared commands\<close>

lemma executable_path_plain: "validate_executable_path p = None \<Longrightarrow> p \<noteq> '''' \<Longrightarrow> path_is_abs p \<and> CHR 0x00 \<notin> set p"
proof -
  assume "validate_executable_path p = None" "p \<noteq> ''''"
  then have p: "has_prefix p ''/''" "validate_subpath (trim_root p) = None"
    by (auto simp: validate_executable_path_def split: if_splits)
  then obtain r where r: "p = ''/'' @ r" by (auto elim: has_prefixE)
  have "trim_root p = r" unfolding r trim_root_def by (rule trim_prefix_append)
  then have "CHR 0x00 \<notin> set r" using p(2) by (auto simp: validate_subpath_def split: if_splits)
  then show ?thesis using p(1) r by (simp add: path_is_abs_def)
qed

lemma prepared:
  assumes "prepare_inspection env user executable captured = Inr (version, info)"
  shows "executable \<noteq> '''' \<and> validate_executable_path executable = None \<and>
    (\<exists>policy. target_environment (home_dir user) captured = Inr policy \<and> (version, info) = inspection_commands executable policy)"
  using assms by (auto simp: prepare_inspection_def Let_def split: option.splits if_splits sum.splits)

text \<open>
  C23: The commands that an inspection prepares are those that its probes and the command runner take: both name the
  validated executable, carry the reviewed arguments and exactly the environment of the target, run in the root
  directory under a limit of 5 and 30 seconds, and pass the runner's checks unchanged. When the version command then succeeds with the line of a
  version, the version probe reports that version of that executable, complete and without error.
\<close>

theorem prepared_commands_accepted:
  assumes "prepare_inspection env user executable captured = Inr (version, info)" and "pe_runner env' = Some run"
    and "version_failure (run version) = ''''" and "trim_space (er_stdout (run version)) = version_line v" and "version_ok v"
    and "length (er_stdout (run version)) \<le> 4096"
  shows "normalized version = Inr version \<and> normalized info = Inr info \<and> cmd_path info = executable \<and> cmd_args info = local_info_args \<and>
    cmd_path version = executable \<and> cmd_args version = [''--version''] \<and> cmd_dir version = ''/'' \<and> cmd_dir info = ''/'' \<and>
    cmd_timeout version = 5000000000 \<and> cmd_timeout info = 30000000000 \<and>
    target_environment (home_dir user) captured = Inr (cmd_env version) \<and> cmd_env info = cmd_env version \<and>
    (\<exists>obs. version_probe_run version env' = (obs, None) \<and> ob_completeness obs = Complete \<and>
       ob_version obs = Some \<lparr>v_path = executable, v_runnable = Some True, v_version = Some v\<rparr>)"
proof -
  obtain policy where p: "executable \<noteq> ''''" "validate_executable_path executable = None"
      "target_environment (home_dir user) captured = Inr policy" "(version, info) = inspection_commands executable policy"
    using prepared [OF assms(1)] by blast
  have "parse_version (er_stdout (run version)) = Inr v" using assms(4-6) by (intro parse_version_printed)
  then have "\<exists>obs. version_probe_run version env' = (obs, None) \<and> ob_completeness obs = Complete \<and>
       ob_version obs = Some \<lparr>v_path = executable, v_runnable = Some True, v_version = Some v\<rparr>"
    using p assms(2,3)
    by (auto simp: inspection_commands_def version_probe_run_def Let_def version_start_def with_version_def observation_simps)
  moreover have "normalized version = Inr version" "normalized info = Inr info"
    using p executable_path_plain [OF p(2,1)]
    by (auto simp: inspection_commands_def normalized_def local_info_args_def path_is_abs_def VersionTimeout_def
        InfoTimeout_def Let_def has_prefix_def)
  ultimately show ?thesis using p by (simp add: inspection_commands_def VersionTimeout_def InfoTimeout_def)
qed

section \<open>A concrete runtime\<close>

definition example_version :: podman_version where
  "example_version = \<lparr>pv_major = 5, pv_minor = 8, pv_patch = 4, pv_canonical = ''5.8.4'', pv_suffix = '''', pv_build = '''',
     pv_trailing = '''', pv_raw = ''podman version 5.8.4''\<rparr>"

definition example_output :: string where
  "example_output = ''podman version 5.8.4'' @ [CHR 0x0A]"

lemma example_version_ok: "version_ok example_version" "trim_space example_output = version_line example_version" "length example_output \<le> 4096"
  by code_simp+

definition command_output :: "string \<Rightarrow> command_result" where
  "command_output out = \<lparr>er_exit = 0, er_stdout = out, er_stdout_truncated = False, er_stderr_truncated = False, er_timed_out = False,
     er_output_incomplete = False, er_error = None, er_exited = None, fault_start = False\<rparr>"

lemma command_output_ok [simp]: "version_failure (command_output out) = ''''" "er_stdout (command_output out) = out"
  by (simp_all add: version_failure_def command_output_def command_completed_def command_failed_to_start_def is_error_def exec_result.defs)

definition home_directory :: file_info where
  "home_directory = \<lparr>fst_dir = True, fst_regular = False, fst_socket = False, fst_perm = 0x1c0, fst_setuid = False,
     fst_setgid = False, fst_sticky = False, fst_owner = Some (0, 0), fi_size = 0, fi_identity = None, fi_null_device = False\<rparr>"

definition runtime_scope :: scope where
  "runtime_scope = \<lparr>run_id = ''r'', context_id = ''c'', sc_runtime = ''podman'', sc_endpoint = ''local''\<rparr>"

definition inspected_services :: "(command_spec \<Rightarrow> command_result) \<Rightarrow> runtime_services" where
  "inspected_services run = \<lparr>pe_scope = runtime_scope, pe_now = (\<lambda>_. 7), pe_ctx = (\<lambda>_ _. None), pe_files = True,
     pe_stat = (\<lambda>_ p. if p = ''root'' then Inr home_directory else Inl ErrNotExist), pe_read = (\<lambda>_ _. Inl ErrNotExist),
     pe_readlink = (\<lambda>_ _. Inl ErrNotExist), pe_executable = (\<lambda>_ _. Inl ErrNotExist), pe_directory = (\<lambda>_ _ _. Inl ErrNotExist),
     pe_statfs = (\<lambda>_ _. Inl ErrNotExist), pe_runner = Some run\<rparr>"

definition root_identity :: user_identity where
  "root_identity = \<lparr>uid = 0, gid = 0, username = ''root'', home_dir = ''/root'', supplementary_groups = [], groups_known = True\<rparr>"

definition root_environment :: "string list" where
  "root_environment = [''HOME=/root'', ''LC_ALL=C'', ''PATH=/usr/bin:/bin'']"

lemma root_prepared:
  "prepare_inspection (inspected_services run) root_identity ''/usr/bin/podman'' [] = Inr (inspection_commands ''/usr/bin/podman'' root_environment)"
proof -
  have env: "target_environment ''/root'' [] = Inr root_environment" unfolding root_environment_def by code_simp
  have vals: "directory_values root_environment = [(''HOME'', ''/root'')]" unfolding root_environment_def by code_simp
  have paths: "validate_executable_path ''/usr/bin/podman'' = None" "path_clean (trim_root ''/root'') = ''root''" by code_simp+
  show ?thesis
    by (simp add: prepare_inspection_def inspected_services_def root_identity_def env vals paths home_directory_def)
qed

theorem prepared_commands_accepted_witness:
  "\<exists>obs. version_probe_run (fst (inspection_commands ''/usr/bin/podman'' root_environment)) (inspected_services (\<lambda>_. command_output example_output)) =
     (obs, None) \<and> ob_version obs = Some \<lparr>v_path = ''/usr/bin/podman'', v_runnable = Some True, v_version = Some example_version\<rparr>"
proof -
  let ?env = "inspected_services (\<lambda>_. command_output example_output)"
  have prep: "prepare_inspection ?env root_identity ''/usr/bin/podman'' [] =
      Inr (fst (inspection_commands ''/usr/bin/podman'' root_environment), snd (inspection_commands ''/usr/bin/podman'' root_environment))"
    by (simp add: root_prepared)
  have "pe_runner ?env = Some (\<lambda>_. command_output example_output)" by (simp add: inspected_services_def)
  from prepared_commands_accepted [OF prep this _ _ example_version_ok(1)] show ?thesis
    using example_version_ok(2,3) by simp blast
qed

theorem podman_cli_verdict_witness:
  "\<exists>ev\<in>set (podman_cli_evidence runtime_scope [fst (discovery_run '''' (inspected_services (\<lambda>_. command_output example_output))),
       fst (version_probe_run (fst (inspection_commands ''/usr/bin/podman'' root_environment)) (inspected_services (\<lambda>_. command_output example_output)))]).
     ev_state ev = StateUnsupported \<and> path_absent (inspected_services (\<lambda>_. command_output example_output)) 0 ''/usr/bin/podman''"
proof -
  let ?env = "inspected_services (\<lambda>_. command_output example_output)"
  let ?cmd = "fst (inspection_commands ''/usr/bin/podman'' root_environment)"
  have paths: "trim_root ''/usr/bin/podman'' \<noteq> ''root''" "trim_root ''/usr/local/bin/podman'' \<noteq> ''root''" "trim_root ''/bin/podman'' \<noteq> ''root''"
      "validate_executable_path '''' = None"
    by code_simp+
  have missing: "errors_is ErrNotExist ErrNotExist" by (simp add: ErrNotExist_def)
  then have "ob_discovery (fst (discovery_run '''' ?env)) = Some \<lparr>d_path = '''', d_installed = Some False, d_file = None\<rparr>"
    using paths missing by (simp add: discovery_run_def inspected_services_def discovery_paths_def Let_def)
  moreover have "ob_scope (fst (discovery_run '''' ?env)) = runtime_scope"
    using discovery_wf [of ?env "''''"] by (simp add: runtime_wf_def inspected_services_def)
  ultimately have "\<exists>ev\<in>set (podman_cli_evidence runtime_scope [fst (discovery_run '''' ?env), fst (version_probe_run ?cmd ?env)]).
      ev_state ev = StateUnsupported"
    by (simp add: podman_cli_evidence_def local_podman_def runtime_scope_def podman_cli_state_def bex_Un)
  then obtain ev where ev: "ev \<in> set (podman_cli_evidence runtime_scope [fst (discovery_run '''' ?env), fst (version_probe_run ?cmd ?env)])"
      "ev_state ev = StateUnsupported" by blast
  then have "\<forall>k<length (searched_paths ''''). path_absent ?env k (searched_paths '''' ! k)"
    using podman_cli_verdict [OF ev(1)] by blast
  then have "path_absent ?env 0 ''/usr/bin/podman''" by (force simp: searched_paths_def discovery_paths_def)
  then show ?thesis using ev by blast
qed

definition info_example :: info_document where
  "info_example = \<lparr>id_version = '''', id_rootless_network_cmd = None, id_oci_runtime = None, id_conmon_path = '''',
     id_pasta_executable = '''', id_slirp_executable = '''', id_network_backend = Some ''netavark'', id_network_path = ''netavark'',
     id_dns_path = '''', id_service_is_remote = Some False, id_cgroup_version = None, id_cgroup_manager = None, id_rootless = None,
     id_graph_options = [], id_graph_driver = None, id_graph_root = None, id_run_root = None\<rparr>"

definition example_decoder :: json_decoder where
  "example_decoder = \<lparr>jd_tokens = (\<lambda>_. [Some 1, Some 0]), jd_info = (\<lambda>_. Some info_example), jd_executable = (\<lambda>_. None),
     jd_requirement = (\<lambda>_. None)\<rparr>"

definition example_info_probe :: info_probe where
  "example_info_probe = \<lparr>ip_command = snd (inspection_commands ''/usr/bin/podman'' root_environment), ip_legacy = False\<rparr>"

lemma info_example_parsed: "parse_info example_decoder ''{}'' = Inr (info_of_document info_example '''')"
  by (simp add: parse_info_def check_json_def example_decoder_def info_example_def maxInfoBytes_def maxInfoDepth_def)

lemma example_normalized:
  "normalize_info ((info_of_document info_example '''')\<lparr>p_path := p\<rparr>) = ((info_of_document info_example '''')\<lparr>p_path := p\<rparr>, True)"
proof -
  have token: "info_token ''netavark''" by code_simp
  have ok: "info_values_ok ((info_of_document info_example '''')\<lparr>p_path := p\<rparr>)"
    by (simp add: info_values_ok_def info_of_document_def info_example_def token optional_value_def runtime_ok_def)
  show ?thesis using clear_unsafe_id [OF ok] ok by (simp add: normalize_info_def) (simp add: info_of_document_def info_example_def)
qed

theorem available_info_witness:
  "\<exists>obs info. info_probe_run example_decoder example_info_probe (inspected_services (\<lambda>_. command_output ''{}'')) = (obs, None) \<and>
     ob_podman obs = Some info \<and> info_values_ok info \<and> p_path info = ''/usr/bin/podman'' \<and> ob_completeness obs = Complete"
proof -
  let ?env = "inspected_services (\<lambda>_. command_output ''{}'')"
  obtain obs err where run: "info_probe_run example_decoder example_info_probe ?env = (obs, err)" by fastforce
  have path: "validate_executable_path ''/usr/bin/podman'' = None" by code_simp
  have parsed: "recognizable_info (info_of_document info_example '''')"
      "p_service_is_remote (info_of_document info_example '''') = Some False"
    by (simp_all add: recognizable_info_def info_of_document_def info_example_def)
  have "\<exists>info. ob_podman obs = Some info \<and> p_available info = Some True \<and> p_path info = ''/usr/bin/podman''"
    using run by (auto simp: info_probe_run_def example_info_probe_def inspection_commands_def inspected_services_def path Let_def
        expected_info_args_def info_payload_def info_example_parsed example_normalized parsed)
  then obtain info where info: "ob_podman obs = Some info" "p_available info = Some True" "p_path info = ''/usr/bin/podman''" by blast
  from available_info [OF run info(1,2)] show ?thesis using run info by simp
qed

text \<open>
  The path of the network helper is not among the values that are checked: an answer with a relative helper path is
  accepted as normal.
\<close>

lemma helper_path_unchecked:
  "\<exists>p q. normalize_info p = (q, True) \<and> p_helper_path q \<noteq> '''' \<and> \<not> safe_info_path (p_helper_path q)"
proof -
  have "p_helper_path ((info_of_document info_example '''')\<lparr>p_path := ''''\<rparr>) = ''netavark''"
    by (simp add: info_of_document_def info_example_def)
  moreover have "\<not> safe_info_path ''netavark''" by code_simp
  ultimately show ?thesis using example_normalized [of "''''"] by (metis list.distinct(1))
qed

end
