(* ===== verification/Podman_Storage.thy ===== *)
theory Podman_Storage
  imports Podman_Services Podman_Engine Config_Storage
begin

text \<open>
  The storage configuration (\<open>runtime/podman/storage.go\<close>, \<open>storage\_paths.go\<close>): which of the three files is read, as
  Podman chooses it, what a rootless user inherits from the system's, and the roots after expansion.
\<close>

section \<open>The collector\<close>

text \<open>The decoder of TOML and the digest; both are outside the program.\<close>

record storage_decoder =
  sd_toml :: "string \<Rightarrow> go_error + toml_table"
  sd_sha256 :: "string \<Rightarrow> string"

record storage_collector =
  gs_config :: configuration_observation
  gs_diagnostics :: "diagnostic list"
  gs_complete :: bool

definition StorageConfigID :: string where "StorageConfigID = ''podman.configuration.storage''"
definition storageVendorPath :: string where "storageVendorPath = ''/usr/share/containers/storage.conf''"
definition storageSystemPath :: string where "storageSystemPath = ''/etc/containers/storage.conf''"

definition source_count :: "storage_collector \<Rightarrow> nat" where "source_count st = length (c_sources (gs_config st))"

definition storage_source :: "string \<Rightarrow> string \<Rightarrow> bool \<Rightarrow> storage_collector \<Rightarrow> configuration_source" where
  "storage_source name phase selected st = empty_source\<lparr>src_id := StorageConfigID @ ''.source.'' @ decimal_string (source_count st),
     src_path := name, src_kind := ''file'', src_phase := phase, src_order := source_count st, src_selected := selected\<rparr>"

definition keep_source :: "configuration_source \<Rightarrow> storage_collector \<Rightarrow> storage_collector" where
  "keep_source src st = st\<lparr>gs_config := (gs_config st)\<lparr>c_sources := c_sources (gs_config st) @ [src]\<rparr>\<rparr>"

definition storage_status :: "go_error \<Rightarrow> string" where
  "storage_status err =
     (if errors_is err ErrPermission then ''denied''
      else if errors_is err ErrConfigLimit then ''limit''
      else if errors_is err ErrConfigFieldUnsupported \<or> errors_is err ErrConfigSyntaxUnsupported then ''unsupported''
      else ''incomplete'')"

definition storage_failed :: "storage_collector \<Rightarrow> storage_collector" where
  "storage_failed st = st\<lparr>gs_complete := False, gs_config := (gs_config st)\<lparr>c_parse_complete := False\<rparr>\<rparr>"

definition storage_unselected :: "storage_collector \<Rightarrow> storage_collector" where
  "storage_unselected st = st\<lparr>gs_config := (gs_config st)\<lparr>c_selection_complete := False\<rparr>\<rparr>"

definition storage_settled :: "storage_collector \<Rightarrow> bool" where
  "storage_settled st \<longleftrightarrow> c_parse_complete (gs_config st) \<and> c_selection_complete (gs_config st)"

definition storage_exists :: "runtime_services \<Rightarrow> string \<Rightarrow> storage_collector \<Rightarrow> bool \<times> storage_collector" where
  "storage_exists env name st =
     (let src = storage_source name ''selection'' False st; n = source_count st
      in case pe_ctx env ''exists'' n of
           Some err \<Rightarrow> (False, keep_source (src\<lparr>src_status := storage_status err\<rparr>) (storage_failed st))
         | None \<Rightarrow>
             (case pe_stat env n (trim_root name) of
                Inr _ \<Rightarrow> (True, keep_source (src\<lparr>src_status := ''available''\<rparr>) st)
              | Inl err \<Rightarrow>
                  if errors_is err ErrNotExist then (False, keep_source (src\<lparr>src_status := ''absent''\<rparr>) st)
                  else (False, keep_source (src\<lparr>src_status := storage_status err\<rparr>) (storage_unselected (storage_failed st)))))"

definition empty_storage_configuration :: storage_configuration where
  "empty_storage_configuration = \<lparr>st_problems = [], st_mount_program = None, st_driver = None, st_driver_priority = None,
     st_run_root = None, st_graph_root = None, st_rootless_storage_path = None, st_image_store = None, st_transient_store = None,
     st_additional_image_stores = None, st_additional_layer_stores = None, st_options = [], st_unprojected_field_count = 0\<rparr>"

definition announce_source :: "configuration_source \<Rightarrow> storage_collector \<Rightarrow> storage_collector" where
  "announce_source src st =
     (if src_status src = ''parsed'' \<or> src_status src = ''absent'' then keep_source src st
      else (keep_source src st)\<lparr>gs_diagnostics := gs_diagnostics st @ [\<lparr>code = ''config_source_'' @ src_status src,
        msg = Text (''storage configuration source is '' @ src_status src), reference = src_id src\<rparr>]\<rparr>)"

text \<open>A document that was read: its digest, and the projection of its settings.\<close>

definition storage_document :: "storage_decoder \<Rightarrow> string \<Rightarrow> bool \<Rightarrow> configuration_source \<Rightarrow> storage_collector \<Rightarrow>
    storage_configuration option \<times> storage_collector" where
  "storage_document dec data selected src0 st =
     (let src = src0\<lparr>src_sha256 := sd_sha256 dec data\<rparr>
      in case parse_storage_for_fields (sd_toml dec) data (c_profile (gs_config st) \<noteq> Containers493) of
           Inl err \<Rightarrow>
             let src1 = with_problem err src; st1 = st\<lparr>gs_config := (gs_config st)\<lparr>c_parse_complete := False\<rparr>\<rparr>
             in if errors_is err ErrConfigMalformed then (None, announce_source (src1\<lparr>src_status := ''malformed''\<rparr>) st1)
                else if errors_is err ErrConfigFieldInvalid then (None, announce_source (src1\<lparr>src_status := ''invalid''\<rparr>) st1)
                else (None, announce_source (src1\<lparr>src_status := storage_status err\<rparr>) (storage_failed st1))
         | Inr layer \<Rightarrow>
             let projection = project_storage layer (src_id src)
             in (Some projection, announce_source (src\<lparr>src_status := ''parsed'', src_storage := Some projection,
                  src_applied := selected \<and> storage_settled st\<rparr>) st))"

definition storage_read :: "runtime_services \<Rightarrow> storage_decoder \<Rightarrow> string \<Rightarrow> string \<Rightarrow> bool \<Rightarrow> storage_collector \<Rightarrow>
    storage_configuration option \<times> storage_collector" where
  "storage_read env dec name phase selected st =
     (let src = storage_source name phase selected st
      in case pe_read env (source_count st) (trim_root name) of
           Inl err \<Rightarrow>
             if errors_is err ErrNotExist
             then (Some empty_storage_configuration, announce_source (src\<lparr>src_status := ''absent''\<rparr>) st)
             else (None, announce_source (src\<lparr>src_status := storage_status err\<rparr>) (storage_failed st))
         | Inr data \<Rightarrow> storage_document dec data selected src st)"

section \<open>Defaults\<close>

definition value_of :: "(string \<times> string) list \<Rightarrow> string \<Rightarrow> string" where
  "value_of entries key = (case map_of entries key of None \<Rightarrow> '''' | Some v \<Rightarrow> v)"

definition nonempty_config :: "config_string option \<Rightarrow> bool" where
  "nonempty_config v \<longleftrightarrow> (case v of None \<Rightarrow> False | Some c \<Rightarrow> cs_value c \<noteq> '''')"

definition plain_config :: "string \<Rightarrow> string \<Rightarrow> config_string" where
  "plain_config v source = \<lparr>cs_invalid = False, cs_value = v, cs_source_id = source\<rparr>"

definition storage_fallback :: "config_string option \<Rightarrow> string \<Rightarrow> string \<Rightarrow> config_string option" where
  "storage_fallback v fallback source = (if nonempty_config v then v else Some (plain_config fallback source))"

definition storage_fallback_value :: "config_string option \<Rightarrow> config_string option \<Rightarrow> config_string option" where
  "storage_fallback_value v fallback = (if nonempty_config v then v else fallback)"

definition driver_is :: "string list \<Rightarrow> config_string option \<Rightarrow> bool" where
  "driver_is names driver \<longleftrightarrow> (case driver of None \<Rightarrow> False | Some d \<Rightarrow> cs_value d \<in> set names)"

definition overlay_drivers :: "string list" where "overlay_drivers = [''overlay'', ''overlay2'']"

text \<open>The first of the two spellings of the option that is set.\<close>

definition ignore_chown_option :: "(string \<times> config_string) list \<Rightarrow> (string \<times> config_string) list" where
  "ignore_chown_option options =
     (case List.find (\<lambda>key. case map_of options key of None \<Rightarrow> False | Some v \<Rightarrow> cs_value v \<noteq> '''' \<or> cs_invalid v)
             [''ignore_chown_errors'', ''overlay.ignore_chown_errors''] of
        None \<Rightarrow> [] | Some key \<Rightarrow> [(''overlay.ignore_chown_errors'', the (map_of options key))])"

definition rootless_storage :: "storage_configuration \<Rightarrow> (string \<times> string) list \<Rightarrow> string \<Rightarrow> storage_configuration" where
  "rootless_storage system entries source =
     (let data = (if value_of entries ''XDG_DATA_HOME'' = '''' then path_join [value_of entries ''HOME'', ''.local/share'']
            else value_of entries ''XDG_DATA_HOME'');
          runtime = value_of entries ''XDG_RUNTIME_DIR'';
          driver = (if driver_is (overlay_drivers @ [''vfs'', ''btrfs'']) (st_driver system) then st_driver system else None)
      in empty_storage_configuration\<lparr>
           st_graph_root := storage_fallback (st_rootless_storage_path system) (path_join [data, ''containers/storage'']) source,
           st_rootless_storage_path := st_rootless_storage_path system,
           st_run_root := (if runtime = '''' then None else Some (plain_config (path_join [runtime, ''containers'']) source)),
           st_driver := driver,
           st_driver_priority := (if nonempty_config driver then None else st_driver_priority system),
           st_options := (if driver_is overlay_drivers driver then ignore_chown_option (st_options system) else [])\<rparr>)"

definition selected_mount_program :: "storage_configuration \<Rightarrow> config_string option" where
  "selected_mount_program storage =
     (if \<not> driver_is overlay_drivers (st_driver storage) then None
      else case List.find (\<lambda>key. case map_of (st_options storage) key of None \<Rightarrow> False | Some v \<Rightarrow> cs_value v \<noteq> '''')
                  [''overlay.mount_program'', ''mount_program''] of
        None \<Rightarrow> None | Some key \<Rightarrow> map_of (st_options storage) key)"

definition storage_options_invalid :: "storage_configuration \<Rightarrow> bool" where
  "storage_options_invalid storage \<longleftrightarrow>
     (case st_driver storage of
        None \<Rightarrow> False
      | Some driver \<Rightarrow> list_ex (\<lambda>(key, v). cs_invalid v \<and>
          (if cs_value driver \<in> set overlay_drivers then \<not> has_prefix key ''vfs.''
           else cs_value driver = ''vfs'' \<and> (key = ''ignore_chown_errors'' \<or> key = ''vfs.ignore_chown_errors'')))
          (st_options storage))"

section \<open>Roots (storage\_paths.go)\<close>

text \<open>One field: its expansion, or whether it is a required root that is missing.\<close>

definition expand_root :: "bool \<Rightarrow> (string \<times> string) list \<Rightarrow> 32 word \<Rightarrow> config_string option \<Rightarrow> go_error + (config_string option \<times> bool)" where
  "expand_root required entries u v =
     (if \<not> nonempty_config v then
        (if \<not> required then Inr (v, False)
         else if u \<noteq> 0 then Inl ErrConfigFieldUnsupported else Inr (v, True))
      else case expand_storage_path (cs_value (the v)) entries u of
        Inl err \<Rightarrow> Inl err
      | Inr p \<Rightarrow> Inr (Some (plain_config p (cs_source_id (the v))), False))"

definition same_value :: "config_string option \<Rightarrow> config_string option \<Rightarrow> bool" where
  "same_value a b \<longleftrightarrow> nonempty_config a \<and> nonempty_config b \<and> cs_value (the a) = cs_value (the b)"

definition expand_storage_roots :: "storage_configuration \<Rightarrow> (string \<times> string) list \<Rightarrow> 32 word \<Rightarrow> go_error + storage_configuration" where
  "expand_storage_roots storage entries u =
     (case expand_root True entries u (st_run_root storage) of
        Inl err \<Rightarrow> Inl err
      | Inr (run, no_run) \<Rightarrow> (case expand_root True entries u (st_graph_root storage) of
          Inl err \<Rightarrow> Inl err
        | Inr (graph, no_graph) \<Rightarrow> (case expand_root False entries u (st_rootless_storage_path storage) of
            Inl err \<Rightarrow> Inl err
          | Inr (rootless, _) \<Rightarrow>
              Inr (storage\<lparr>st_run_root := run, st_graph_root := graph, st_rootless_storage_path := rootless,
                st_driver := (if driver_is [''overlay2''] (st_driver storage)
                  then Some (plain_config ''overlay'' (cs_source_id (the (st_driver storage)))) else st_driver storage),
                st_problems := st_problems storage @ (if no_run then [''runroot_required''] else []) @
                  (if no_graph then [''graphroot_required''] else []) @
                  (if same_value (st_image_store storage) graph then [''imagestore_equals_graphroot''] else [])\<rparr>))))"

section \<open>The selection\<close>

definition add_problem_text :: "string \<Rightarrow> storage_configuration \<Rightarrow> storage_configuration" where
  "add_problem_text t storage = storage\<lparr>st_problems := st_problems storage @ [t]\<rparr>"

text \<open>The end of the selection, for the storage that won.\<close>

definition finish_storage :: "storage_configuration \<Rightarrow> (string \<times> string) list \<Rightarrow> 32 word \<Rightarrow> storage_collector \<Rightarrow> storage_collector" where
  "finish_storage selected entries u st =
     (if \<not> storage_settled st then st
      else case expand_storage_roots selected entries u of
        Inl _ \<Rightarrow> (storage_failed st)\<lparr>gs_diagnostics := gs_diagnostics st @ [\<lparr>code = ''storage_path_expansion_unsupported'',
          msg = Text ''storage roots require an unsupported path expansion'', reference = ''''\<rparr>]\<rparr>
      | Inr expanded \<Rightarrow>
          let s1 = expanded\<lparr>st_mount_program := selected_mount_program expanded\<rparr>;
              s2 = (if storage_options_invalid s1 then add_problem_text ''storage_option_invalid'' s1 else s1)
          in st\<lparr>gs_config := (gs_config st)\<lparr>c_storage := Some s2\<rparr>\<rparr>)"

text \<open>A second file replaces the first; what it leaves empty comes from the first, except for root in the old profile.\<close>

definition replace_storage :: "storage_configuration \<Rightarrow> storage_configuration \<Rightarrow> 32 word \<Rightarrow> string \<Rightarrow> storage_configuration" where
  "replace_storage selected replacement u profile =
     (if u \<noteq> 0 \<or> profile \<noteq> Containers493
      then let graph = (if nonempty_config (st_rootless_storage_path replacement) then st_rootless_storage_path replacement
                 else st_graph_root selected)
        in replacement\<lparr>st_run_root := storage_fallback_value (st_run_root replacement) (st_run_root selected),
             st_graph_root := storage_fallback_value (st_graph_root replacement) graph\<rparr>
      else replacement)"

definition override_storage :: "runtime_services \<Rightarrow> storage_decoder \<Rightarrow> 32 word \<Rightarrow> string \<Rightarrow> storage_configuration \<Rightarrow> storage_collector \<Rightarrow>
    storage_configuration \<times> storage_collector" where
  "override_storage env dec u final selected st =
     (case storage_exists env final st of
        (False, st1) \<Rightarrow> (selected, st1)
      | (True, st1) \<Rightarrow> (case storage_read env dec final ''override'' True st1 of
          (None, st2) \<Rightarrow> (selected, st2)
        | (Some replacement, st2) \<Rightarrow> (replace_storage selected replacement u (c_profile (gs_config st2)), st2)))"

definition default_roots :: "string \<Rightarrow> storage_configuration \<Rightarrow> storage_configuration" where
  "default_roots source baseline = baseline\<lparr>st_run_root := storage_fallback (st_run_root baseline) ''/run/containers/storage'' source,
     st_graph_root := storage_fallback (st_graph_root baseline) ''/var/lib/containers/storage'' source\<rparr>"

definition baseline_path :: "runtime_services \<Rightarrow> (string \<times> string) list \<Rightarrow> string \<Rightarrow> bool \<Rightarrow> storage_collector \<Rightarrow> string \<times> storage_collector" where
  "baseline_path env entries user_path system_exists st =
     (let base = (if system_exists then storageSystemPath else storageVendorPath)
      in if value_of entries ''XDG_CONFIG_HOME'' = '''' then (base, st)
         else case storage_exists env user_path st of (there, st1) \<Rightarrow> (if there then user_path else base, st1))"

definition select_storage :: "runtime_services \<Rightarrow> storage_decoder \<Rightarrow> 32 word \<Rightarrow> (string \<times> string) list \<Rightarrow> string \<Rightarrow> storage_collector \<Rightarrow>
    storage_collector" where
  "select_storage env dec u entries user_path st =
     (case storage_exists env storageSystemPath st of (system_exists, st1) \<Rightarrow>
      (case baseline_path env entries user_path system_exists st1 of (base, st2) \<Rightarrow>
      (case storage_read env dec base ''baseline'' True st2 of
         (None, st3) \<Rightarrow> st3
       | (Some baseline, st3) \<Rightarrow>
           if \<not> storage_settled st3 then st3
           else let source = c_version_source_id (gs_config st3);
                    first = default_roots source baseline;
                    selected = (if u \<noteq> 0 then rootless_storage first entries source else first);
                    final = (if u \<noteq> 0 then user_path else if system_exists then storageSystemPath else storageVendorPath)
             in (case override_storage env dec u final selected st3 of (storage, st4) \<Rightarrow> finish_storage storage entries u st4))))"

section \<open>The probe\<close>

record storage_probe =
  gp_selection :: engine_probe
  gp_engine :: observation

definition engine_bound :: "storage_probe \<Rightarrow> scope \<Rightarrow> bool" where
  "engine_bound p s \<longleftrightarrow>
     (case ob_configuration (gp_engine p) of
        None \<Rightarrow> False
      | Some c \<Rightarrow> (case c_engine c of
          None \<Rightarrow> False
        | Some engine \<Rightarrow>
            ob_scope (gp_engine p) = s \<and> ob_completeness (gp_engine p) = Complete \<and> c_parse_complete c \<and> c_selection_complete c \<and>
            c_family c = ''engine'' \<and> c_profile c = engine_profile (gp_selection p) s \<and> c_runtime_path c = ep_path (gp_selection p) \<and>
            c_version_source_id c = ob_id (ep_version (gp_selection p)) \<and>
            (case e_cgroup_manager engine of None \<Rightarrow> True | Some v \<Rightarrow> \<not> cs_invalid v) \<and>
            (case e_environment engine of None \<Rightarrow> True | Some e \<Rightarrow> cr_count e = 0 \<and> \<not> cr_inherited_default e)))"

definition profile_references :: "string \<Rightarrow> string list" where
  "profile_references profile =
     (let prefix = (if profile = Containers493
        then ''https://github.com/containers/podman/blob/v4.9.3/vendor/github.com/containers/storage/''
        else ''https://github.com/containers/podman/blob/v5.8.4/vendor/go.podman.io/storage/'')
      in map (\<lambda>f. prefix @ f) [''types/options.go'', ''types/utils.go'', ''pkg/config/config.go''])"

definition storage_references :: "string \<Rightarrow> string list" where
  "storage_references profile =
     (if profile = ContainersUnqualified then profile_references Containers493 @ profile_references Containers584
      else profile_references profile)"

definition storage_user_path :: "(string \<times> string) list \<Rightarrow> string" where
  "storage_user_path entries =
     path_join [if value_of entries ''XDG_CONFIG_HOME'' = '''' then path_join [value_of entries ''HOME'', ''.config'']
       else value_of entries ''XDG_CONFIG_HOME'', ''containers/storage.conf'']"

definition storage_observation :: "storage_collector \<Rightarrow> observation \<Rightarrow> observation" where
  "storage_observation st obs = obs\<lparr>ob_configuration := Some (gs_config st), ob_diagnostics := ob_diagnostics obs @ gs_diagnostics st\<rparr>"

definition read_candidates :: "runtime_services \<Rightarrow> storage_decoder \<Rightarrow> string list \<Rightarrow> storage_collector \<Rightarrow> storage_collector" where
  "read_candidates env dec names st = fold (\<lambda>name s. snd (storage_read env dec name ''candidate'' False s)) names st"

definition storage_start :: "storage_probe \<Rightarrow> runtime_services \<Rightarrow> configuration_observation" where
  "storage_start p env = initial_configuration ''storage'' (ob_id (ep_version (gp_selection p)))
     (storage_references (engine_profile (gp_selection p) (pe_scope env))) (gp_selection p) (pe_scope env)"

definition storage_probe_run :: "storage_decoder \<Rightarrow> storage_probe \<Rightarrow> runtime_services \<Rightarrow> observation \<times> go_error option" where
  "storage_probe_run dec p env =
     (let sel = gp_selection p; c = storage_start p env; obs = runtime_observation StorageConfigID (pe_scope env) (pe_now env 0);
          failed = (unavailable c obs, Some ErrIncomplete)
      in if ep_environment_error sel \<noteq> None \<or> \<not> pe_files env then failed
         else case target_environment (home_dir (ep_target sel)) (ep_environment sel) of
           Inl _ \<Rightarrow> failed
         | Inr policy \<Rightarrow>
             let entries = directory_values policy;
                 user_path = storage_user_path entries;
                 start = \<lparr>gs_config = c, gs_diagnostics = [], gs_complete = True\<rparr>
             in if \<not> c_selection_complete c \<or> \<not> engine_bound p (pe_scope env)
                then (failed_runtime_observation ''storage_selection_unqualified'' (storage_observation
                       (read_candidates env dec [storageVendorPath, storageSystemPath, user_path] (storage_unselected start)) obs),
                     pe_ctx env ''end'' 0)
                else let st = select_storage env dec (uid (ep_target sel)) entries user_path start;
                         obs1 = storage_observation st obs
                  in (if gs_complete st \<and> pe_ctx env ''complete'' 0 = None then obs1
                      else failed_runtime_observation ''config_evidence_incomplete'' obs1, pe_ctx env ''end'' 0))"

end
