(* ===== verification/Podman_Storage_Paths.thy ===== *)
theory Podman_Storage_Paths
  imports Podman_Executables Podman_Storage
begin

text \<open>
  The measurement of the storage directories that a runtime or a configuration selects
  (\<open>runtime/podman/storage\_metadata.go\<close>), and of the directories that Quadlet reads (\<open>quadlet.go\<close>).
\<close>

section \<open>One path\<close>

definition maxStorageAncestors :: nat where "maxStorageAncestors = 32"
definition maxStoragePaths :: nat where "maxStoragePaths = 32"

definition storage_path_item :: "string \<Rightarrow> string \<Rightarrow> storage_path_metadata" where
  "storage_path_item role p = \<lparr>sp_role = role, sp_path = p, sp_present = None, sp_directory = None, sp_checked_path = '''',
     sp_ancestor = False, sp_checked_uid = None, sp_checked_gid = None, sp_checked_mode = None, sp_accessible = None,
     sp_filesystem = None\<rparr>"

text \<open>
  The search for the nearest existing ancestor of the \<open>n\<close>-th path. The result is the metadata with an error, or with
  the path that exists and its file.
\<close>

fun ancestor_search :: "runtime_services \<Rightarrow> nat \<Rightarrow> nat \<Rightarrow> string \<Rightarrow> storage_path_metadata \<Rightarrow>
    storage_path_metadata \<times> (go_error + (string \<times> file_info))" where
  "ancestor_search env n 0 checked item = (item, Inl ErrIncomplete)"
| "ancestor_search env n (Suc left) checked item =
     (case pe_ctx env ''ancestor'' (maxStorageAncestors * n + left) of
        Some err \<Rightarrow> (item, Inl err)
      | None \<Rightarrow>
          (case pe_stat env n (trim_root checked) of
             Inr info \<Rightarrow>
               (if checked = sp_path item then item\<lparr>sp_present := Some True, sp_directory := Some (fst_dir info)\<rparr> else item,
                Inr (checked, info))
           | Inl err \<Rightarrow>
               if \<not> errors_is err ErrNotExist then (item, Inl err)
               else let item1 = item\<lparr>sp_present := Some False\<rparr>
                 in if checked = ''/'' then (item1, Inl ErrIncomplete)
                    else ancestor_search env n left (path_dir checked) (item1\<lparr>sp_ancestor := True\<rparr>)))"

definition storage_filesystem_of :: "mounted_filesystem \<Rightarrow> storage_filesystem" where
  "storage_filesystem_of fs = \<lparr>fs_type = fi_type fs,
     fs_read_only = (if fi_flags_known fs then Some (fi_read_only fs) else None),
     fs_nosuid = (if fi_flags_known fs then Some (fi_nosuid fs) else None),
     fs_noexec = (if fi_flags_known fs then Some (fi_noexec fs) else None)\<rparr>"

definition observe_storage_path :: "runtime_services \<Rightarrow> nat \<Rightarrow> storage_path_metadata \<Rightarrow> bool \<Rightarrow> storage_path_metadata \<times> go_error option" where
  "observe_storage_path env n item writable =
     (if \<not> safe_info_path (sp_path item) then (item, Some ErrMalformed)
      else case ancestor_search env n maxStorageAncestors (sp_path item) item of
        (item1, Inl err) \<Rightarrow> (item1, Some err)
      | (item1, Inr (checked, info)) \<Rightarrow>
          let item2 = item1\<lparr>sp_checked_path := checked, sp_checked_mode := Some (fst_perm info),
                sp_checked_uid := map_option fst (fst_owner info), sp_checked_gid := map_option snd (fst_owner info)\<rparr>
          in if \<not> fst_dir info then (item2\<lparr>sp_accessible := Some False\<rparr>, None)
             else let access = pe_directory env n (trim_root checked) writable;
                      filesystem = pe_statfs env n (trim_root checked);
                      item3 = (case access of Inl _ \<Rightarrow> item2 | Inr allowed \<Rightarrow> item2\<lparr>sp_accessible := Some allowed\<rparr>);
                      item4 = (case filesystem of Inl _ \<Rightarrow> item3 | Inr fs \<Rightarrow> item3\<lparr>sp_filesystem := Some (storage_filesystem_of fs)\<rparr>)
               in (item4, errors_join [error_of access, error_of filesystem]))"

section \<open>The selected paths\<close>

record storage_path_probe =
  pp_source :: observation
  pp_writable :: bool

definition storage_path_probe_id :: "storage_path_probe \<Rightarrow> string" where
  "storage_path_probe_id p = ''podman.storage.paths.'' @ (if ob_podman (pp_source p) \<noteq> None then sourceRuntime else sourceConfiguration) @
     ''.'' @ (if pp_writable p then ''roots'' else ''additional'')"

definition root_items :: "string list \<Rightarrow> storage_path_metadata list" where
  "root_items roots = map (\<lambda>(role, p). storage_path_item role p)
     (filter (\<lambda>(role, p). p \<noteq> '''') (zip [''graphroot'', ''runroot'', ''imagestore''] roots))"

text \<open>The loop over the additional stores, which ends one past the limit.\<close>

fun additional_items :: "(string \<times> string) list \<Rightarrow> storage_path_metadata list \<Rightarrow> storage_path_metadata list" where
  "additional_items [] names = names"
| "additional_items ((role, name) # rest) names =
     (let names' = names @ [storage_path_item role (path_clean (if role = ''additionalimagestore'' then name else trim_suffix name '':ref''))]
      in if maxStoragePaths < length names' then names' else additional_items rest names')"

definition additional_names :: "string \<Rightarrow> config_list option \<Rightarrow> (string \<times> string) list" where
  "additional_names role l =
     (case l of None \<Rightarrow> [] | Some paths \<Rightarrow> map (\<lambda>name. (role, name)) (concat (map (split_on CHR '','') (cl_values paths))))"

definition additional_storage_paths :: "config_list option \<Rightarrow> config_list option \<Rightarrow> storage_path_metadata list" where
  "additional_storage_paths images layers =
     additional_items (additional_names ''additionalimagestore'' images @ additional_names ''additionallayerstore'' layers) []"

definition config_value :: "config_string option \<Rightarrow> string" where
  "config_value v = (case v of None \<Rightarrow> '''' | Some c \<Rightarrow> cs_value c)"

text \<open>The paths to measure, and what the observation says about their source.\<close>

definition storage_path_source :: "storage_path_probe \<Rightarrow> string \<times> string" where
  "storage_path_source p =
     (case ob_podman (pp_source p) of
        Some info \<Rightarrow> (sourceRuntime, p_path info)
      | None \<Rightarrow> (sourceConfiguration, case ob_configuration (pp_source p) of None \<Rightarrow> '''' | Some c \<Rightarrow> c_runtime_path c))"

definition storage_path_items :: "storage_path_probe \<Rightarrow> storage_path_metadata list option" where
  "storage_path_items p =
     (case ob_podman (pp_source p) of
        Some info \<Rightarrow>
          if \<not> pp_writable p \<or> p_available info \<noteq> Some True \<or> p_service_is_remote info = Some True then None
          else (case (p_graph_root info, p_run_root info) of
              (Some graph, Some run) \<Rightarrow> if graph \<noteq> '''' \<and> run \<noteq> '''' then Some (root_items [graph, run, '''']) else None
            | _ \<Rightarrow> None)
      | None \<Rightarrow> (case ob_configuration (pp_source p) of
          None \<Rightarrow> None
        | Some c \<Rightarrow>
            if c_family c \<noteq> ''storage'' \<or> \<not> c_selection_complete c \<or> \<not> c_parse_complete c then None
            else (case c_storage c of
                None \<Rightarrow> None
              | Some storage \<Rightarrow>
                  if pp_writable p
                  then let graph = config_value (st_graph_root storage); run = config_value (st_run_root storage)
                    in if graph \<noteq> '''' \<and> run \<noteq> '''' then Some (root_items [graph, run, config_value (st_image_store storage)]) else None
                  else Some (additional_storage_paths (st_additional_image_stores storage) (st_additional_layer_stores storage)))))"

section \<open>The probe\<close>

definition add_storage_path :: "storage_path_metadata \<Rightarrow> observation \<Rightarrow> observation" where
  "add_storage_path item obs =
     obs\<lparr>ob_storage_paths := map_option (\<lambda>d. d\<lparr>so_paths := so_paths d @ [item]\<rparr>) (ob_storage_paths obs)\<rparr>"

fun storage_path_loop :: "runtime_services \<Rightarrow> bool \<Rightarrow> nat \<Rightarrow> storage_path_metadata list \<Rightarrow> observation \<Rightarrow> observation" where
  "storage_path_loop env writable n [] obs = obs"
| "storage_path_loop env writable n (item # rest) obs =
     (let (measured_item, err) = observe_storage_path env n item writable;
          obs1 = add_storage_path measured_item obs;
          obs2 = (if err = None then obs1 else failed_runtime_observation ''storage_path_metadata_incomplete'' obs1)
      in if pe_ctx env ''storage'' n \<noteq> None then obs2 else storage_path_loop env writable (Suc n) rest obs2)"

definition storage_path_start :: "storage_path_probe \<Rightarrow> runtime_services \<Rightarrow> string \<times> string \<Rightarrow> observation" where
  "storage_path_start p env source =
     (runtime_observation (storage_path_probe_id p) (pe_scope env) (pe_now env 0))\<lparr>ob_storage_paths :=
        Some \<lparr>so_source = fst source, so_source_id = ob_id (pp_source p), so_runtime_path = snd source,
          so_writable = pp_writable p, so_paths = []\<rparr>\<rparr>"

definition storage_path_run :: "storage_path_probe \<Rightarrow> runtime_services \<Rightarrow> observation \<times> go_error option" where
  "storage_path_run p env =
     (case pe_ctx env ''start'' 0 of
        Some err \<Rightarrow> (failed_runtime_observation ''storage_path_metadata_incomplete'' (storage_path_start p env (sourceConfiguration, '''')), Some err)
      | None \<Rightarrow>
          let obs = storage_path_start p env (storage_path_source p);
              failed = (failed_runtime_observation ''storage_path_selection_incomplete'' obs, Some ErrIncomplete)
          in case storage_path_items p of
               None \<Rightarrow> failed
             | Some items \<Rightarrow>
                 if ob_scope (pp_source p) \<noteq> pe_scope env \<or> ob_completeness (pp_source p) \<noteq> Complete \<or> \<not> pe_files env then failed
                 else (storage_path_loop env (pp_writable p) 0 (take maxStoragePaths items)
                        (if maxStoragePaths < length items then failed_runtime_observation ''storage_path_limit'' obs else obs),
                       pe_ctx env ''end'' 0))"

section \<open>Locations of Quadlet\<close>

definition quadletReference :: string where
  "quadletReference = ''https://github.com/podman-container-tools/podman/blob/v5.8.4/pkg/systemd/quadlet/unitdirs.go''"

record quadlet_probe =
  qp_target :: user_identity
  qp_environment :: "string list"
  qp_environment_error :: "go_error option"

definition quadlet_user_locations :: "quadlet_probe \<Rightarrow> go_error + string list" where
  "quadlet_user_locations p =
     (case qp_environment_error p of
        Some err \<Rightarrow> Inl err
      | None \<Rightarrow> (case target_environment (home_dir (qp_target p)) (qp_environment p) of
          Inl err \<Rightarrow> Inl err
        | Inr policy \<Rightarrow>
            let entries = directory_values policy;
                home = (if value_of entries ''XDG_CONFIG_HOME'' = '''' then value_of entries ''HOME'' @ ''/.config''
                  else value_of entries ''XDG_CONFIG_HOME'');
                runtime = value_of entries ''XDG_RUNTIME_DIR''
            in Inr ((if runtime = '''' then [] else [runtime @ ''/containers/systemd'']) @
                 [home @ ''/containers/systemd'', ''/etc/containers/systemd/users'',
                  ''/etc/containers/systemd/users/'' @ decimal_string (unat (uid (qp_target p)))])))"

definition quadlet_locations :: "quadlet_probe \<Rightarrow> go_error + string list" where
  "quadlet_locations p =
     (if uid (qp_target p) \<noteq> 0 then quadlet_user_locations p
      else Inr [''/run/containers/systemd'', ''/etc/containers/systemd'', ''/usr/share/containers/systemd''])"

definition add_location :: "search_location \<Rightarrow> observation \<Rightarrow> observation" where
  "add_location l obs = obs\<lparr>ob_quadlet := map_option (\<lambda>q. q\<lparr>q_locations := q_locations q @ [l]\<rparr>) (ob_quadlet obs)\<rparr>"

definition quadlet_diagnostic :: diagnostic where
  "quadlet_diagnostic = \<lparr>code = ''quadlet_generation_unverified'', msg = Text (''documented candidate input locations only; '' @
     ''generator execution and working deployment have not been verified''), reference = quadletReference\<rparr>"

fun quadlet_loop :: "runtime_services \<Rightarrow> nat \<Rightarrow> string list \<Rightarrow> observation \<Rightarrow> observation \<times> go_error option" where
  "quadlet_loop env n [] obs = (obs\<lparr>ob_diagnostics := ob_diagnostics obs @ [quadlet_diagnostic]\<rparr>, None)"
| "quadlet_loop env n (name # rest) obs =
     (case pe_ctx env ''quadlet'' n of
        Some err \<Rightarrow> (failed_runtime_observation ''quadlet_locations_cancelled'' obs, Some err)
      | None \<Rightarrow>
          (let l = \<lparr>sl_path = name, sl_present = None, sl_directory = None\<rparr>
           in case pe_stat env n (trim_root name) of
                Inr info \<Rightarrow> quadlet_loop env (Suc n) rest
                  (add_location (l\<lparr>sl_present := Some True, sl_directory := Some (fst_dir info)\<rparr>) obs)
              | Inl err \<Rightarrow>
                  if errors_is err ErrNotExist then quadlet_loop env (Suc n) rest (add_location (l\<lparr>sl_present := Some False\<rparr>) obs)
                  else quadlet_loop env (Suc n) rest (add_location l (incomplete_observation ''quadlet_location_denied'' obs))))"

definition quadlet_run :: "quadlet_probe \<Rightarrow> runtime_services \<Rightarrow> observation \<times> go_error option" where
  "quadlet_run p env =
     (let obs = (runtime_observation ''podman.quadlet.locations'' (pe_scope env) (pe_now env 0))\<lparr>ob_quadlet :=
            Some \<lparr>q_rootless = (uid (qp_target p) \<noteq> 0), q_reference = quadletReference, q_locations = []\<rparr>\<rparr>
      in case quadlet_locations p of
           Inl err \<Rightarrow> (failed_runtime_observation ''quadlet_environment_unavailable'' obs, Some err)
         | Inr names \<Rightarrow>
             if \<not> pe_files env then (failed_runtime_observation ''quadlet_locations_unavailable'' obs, Some ErrIncomplete)
             else quadlet_loop env 0 names obs)"

end
