(* ===== verification/Podman_Storage_Laws.thy ===== *)
theory Podman_Storage_Laws
  imports Podman_Storage_Paths Config_Storage_Laws Catalog_Examples
begin

text \<open>
  What the storage configuration and the measurement of its directories guarantee, and the interface of these probes.
\<close>

section \<open>The selection\<close>

definition settled_status :: "string \<Rightarrow> bool" where
  "settled_status t \<longleftrightarrow> t \<in> {''available'', ''absent'', ''parsed''}"

text \<open>While the selection is settled, every source was measured; nothing is selected before the end.\<close>

definition sound_collector :: "storage_collector \<Rightarrow> bool" where
  "sound_collector st \<longleftrightarrow> c_storage (gs_config st) = None \<and>
     (storage_settled st \<longrightarrow> (\<forall>src\<in>set (c_sources (gs_config st)). settled_status (src_status src)))"

lemma keep_source_fields [simp]:
  "c_storage (gs_config (keep_source src st)) = c_storage (gs_config st)" "storage_settled (keep_source src st) = storage_settled st"
  "c_sources (gs_config (keep_source src st)) = c_sources (gs_config st) @ [src]" "gs_complete (keep_source src st) = gs_complete st"
  by (simp_all add: keep_source_def storage_settled_def)

lemma announce_source_fields [simp]:
  "c_storage (gs_config (announce_source src st)) = c_storage (gs_config st)" "storage_settled (announce_source src st) = storage_settled st"
  "c_sources (gs_config (announce_source src st)) = c_sources (gs_config st) @ [src]"
  by (simp_all add: announce_source_def storage_settled_def keep_source_def)

lemma storage_failed_fields [simp]:
  "c_storage (gs_config (storage_failed st)) = c_storage (gs_config st)" "\<not> storage_settled (storage_failed st)"
  "c_sources (gs_config (storage_failed st)) = c_sources (gs_config st)"
  "c_storage (gs_config (storage_unselected st)) = c_storage (gs_config st)" "\<not> storage_settled (storage_unselected st)"
  "c_sources (gs_config (storage_unselected st)) = c_sources (gs_config st)"
  by (simp_all add: storage_failed_def storage_unselected_def storage_settled_def)

lemma sound_keep: "sound_collector st \<Longrightarrow> settled_status (src_status src) \<or> \<not> storage_settled st \<Longrightarrow> sound_collector (keep_source src st)"
  by (auto simp: sound_collector_def)

lemma sound_announce: "sound_collector st \<Longrightarrow> settled_status (src_status src) \<or> \<not> storage_settled st \<Longrightarrow> sound_collector (announce_source src st)"
  by (auto simp: sound_collector_def)

lemma sound_failed: "sound_collector st \<Longrightarrow> sound_collector (storage_failed st) \<and> sound_collector (storage_unselected st)"
  by (simp add: sound_collector_def)

lemma statuses [simp]: "settled_status ''available''" "settled_status ''absent''" "settled_status ''parsed''"
  by (simp_all add: settled_status_def)

lemma storage_exists_sound: "sound_collector st \<Longrightarrow> sound_collector (snd (storage_exists env name st))"
  by (auto simp: storage_exists_def Let_def intro!: sound_keep simp: sound_failed split: option.split sum.split)

lemma unparsed_fields [simp]:
  "c_storage (gs_config (st\<lparr>gs_config := (gs_config st)\<lparr>c_parse_complete := False\<rparr>\<rparr>)) = c_storage (gs_config st)"
  "\<not> storage_settled (st\<lparr>gs_config := (gs_config st)\<lparr>c_parse_complete := False\<rparr>\<rparr>)"
  by (simp_all add: storage_settled_def)

lemma sound_unparsed: "sound_collector st \<Longrightarrow> sound_collector (st\<lparr>gs_config := (gs_config st)\<lparr>c_parse_complete := False\<rparr>\<rparr>)"
  by (simp add: sound_collector_def)

lemma storage_document_sound: "sound_collector st \<Longrightarrow> sound_collector (snd (storage_document dec data selected src st))"
  unfolding storage_document_def Let_def
  by (auto intro!: sound_announce simp: sound_failed sound_unparsed split: sum.split)

lemma storage_read_sound: "sound_collector st \<Longrightarrow> sound_collector (snd (storage_read env dec name phase selected st))"
  unfolding storage_read_def Let_def
  by (auto intro!: sound_announce storage_document_sound simp: sound_failed split: sum.split)

section \<open>Roots\<close>

definition root_expanded :: "config_string option \<Rightarrow> bool" where
  "root_expanded v \<longleftrightarrow> (nonempty_config v \<longrightarrow> expanded_path (cs_value (the v)))"

lemma expand_root_Inr: "expand_root required entries u v = Inr (w, missing) \<Longrightarrow>
    root_expanded w \<and> (required \<and> u \<noteq> 0 \<longrightarrow> nonempty_config w \<and> \<not> missing) \<and> (required \<longrightarrow> nonempty_config w \<or> missing)"
proof (cases "nonempty_config v")
  case True
  assume r: "expand_root required entries u v = Inr (w, missing)"
  then obtain p where p: "expand_storage_path (cs_value (the v)) entries u = Inr p" "w = Some (plain_config p (cs_source_id (the v)))" "\<not> missing"
    using True by (auto simp: expand_root_def split: sum.splits)
  have "expanded_path p" using p(1) by (rule expand_storage_path_expanded)
  moreover from this have "p \<noteq> ''''" by (auto simp: expanded_path_def path_is_abs_def has_prefix_def)
  ultimately show ?thesis using p by (simp add: root_expanded_def nonempty_config_def plain_config_def)
qed (auto simp: expand_root_def root_expanded_def split: if_splits)

definition selected_storage_ok :: "32 word \<Rightarrow> storage_configuration \<Rightarrow> bool" where
  "selected_storage_ok u storage \<longleftrightarrow> root_expanded (st_run_root storage) \<and> root_expanded (st_graph_root storage) \<and>
     root_expanded (st_rootless_storage_path storage) \<and> \<not> driver_is [''overlay2''] (st_driver storage) \<and>
     (u \<noteq> 0 \<longrightarrow> nonempty_config (st_run_root storage) \<and> nonempty_config (st_graph_root storage)) \<and>
     (\<not> nonempty_config (st_run_root storage) \<longrightarrow> ''runroot_required'' \<in> set (st_problems storage)) \<and>
     (\<not> nonempty_config (st_graph_root storage) \<longrightarrow> ''graphroot_required'' \<in> set (st_problems storage))"

lemma expand_storage_roots_ok:
  assumes "expand_storage_roots storage entries u = Inr s"
  shows "selected_storage_ok u s"
proof -
  obtain run no_run graph no_graph rootless x where r: "expand_root True entries u (st_run_root storage) = Inr (run, no_run)"
      "expand_root True entries u (st_graph_root storage) = Inr (graph, no_graph)"
      "expand_root False entries u (st_rootless_storage_path storage) = Inr (rootless, x)"
    and s: "s = storage\<lparr>st_run_root := run, st_graph_root := graph, st_rootless_storage_path := rootless,
                st_driver := (if driver_is [''overlay2''] (st_driver storage)
                  then Some (plain_config ''overlay'' (cs_source_id (the (st_driver storage)))) else st_driver storage),
                st_problems := st_problems storage @ (if no_run then [''runroot_required''] else []) @
                  (if no_graph then [''graphroot_required''] else []) @
                  (if same_value (st_image_store storage) graph then [''imagestore_equals_graphroot''] else [])\<rparr>"
    using assms by (auto simp: expand_storage_roots_def split: sum.splits prod.splits)
  have driver: "\<not> driver_is [''overlay2''] (st_driver s)"
    by (simp add: s driver_is_def plain_config_def split: option.split)
  have roots: "st_run_root s = run" "st_graph_root s = graph" "st_rootless_storage_path s = rootless" by (simp_all add: s)
  have problems: "no_run \<Longrightarrow> ''runroot_required'' \<in> set (st_problems s)" "no_graph \<Longrightarrow> ''graphroot_required'' \<in> set (st_problems s)"
    by (simp_all add: s)
  show ?thesis unfolding selected_storage_ok_def roots
    using driver problems expand_root_Inr [OF r(1)] expand_root_Inr [OF r(2)] expand_root_Inr [OF r(3)] by blast
qed

lemma selected_storage_ok_fields [simp]:
  "selected_storage_ok u (s\<lparr>st_mount_program := m\<rparr>) = selected_storage_ok u s"
  "selected_storage_ok u s \<Longrightarrow> selected_storage_ok u (add_problem_text t s)"
  by (auto simp: selected_storage_ok_def add_problem_text_def)

section \<open>What is selected\<close>

text \<open>The result of the whole selection.\<close>

definition selection_sound :: "32 word \<Rightarrow> storage_collector \<Rightarrow> bool" where
  "selection_sound u st \<longleftrightarrow> (case c_storage (gs_config st) of
     None \<Rightarrow> True
   | Some storage \<Rightarrow> storage_settled st \<and> selected_storage_ok u storage \<and>
       (\<forall>src\<in>set (c_sources (gs_config st)). settled_status (src_status src)))"

lemma sound_selection: "sound_collector st \<Longrightarrow> selection_sound u st"
  by (simp add: sound_collector_def selection_sound_def)

lemma finish_storage_sound:
  assumes "sound_collector st"
  shows "selection_sound u (finish_storage storage entries u st)"
proof (cases "storage_settled st")
  case True
  show ?thesis
  proof (cases "expand_storage_roots storage entries u")
    case (Inl e)
    then show ?thesis using assms True
      by (simp add: finish_storage_def selection_sound_def sound_collector_def)
  next
    case (Inr s)
    then show ?thesis using assms True expand_storage_roots_ok [OF Inr]
      by (simp add: finish_storage_def selection_sound_def sound_collector_def Let_def) (simp add: storage_settled_def)
  qed
qed (use assms in \<open>simp add: finish_storage_def sound_selection\<close>)

lemma override_storage_sound: "sound_collector st \<Longrightarrow> sound_collector (snd (override_storage env dec u final selected st))"
  using storage_exists_sound [of st env final] storage_read_sound [of "snd (storage_exists env final st)" env dec final "''override''" True]
  by (auto simp: override_storage_def split: prod.split bool.split option.split)

lemma baseline_path_sound: "sound_collector st \<Longrightarrow> sound_collector (snd (baseline_path env entries user_path there st))"
  using storage_exists_sound [of st env user_path] by (auto simp: baseline_path_def Let_def split: prod.split)

lemma select_storage_sound:
  assumes "sound_collector st"
  shows "selection_sound u (select_storage env dec u entries user_path st)"
proof -
  obtain there st1 where s1: "storage_exists env storageSystemPath st = (there, st1)" by fastforce
  obtain base st2 where s2: "baseline_path env entries user_path there st1 = (base, st2)" by fastforce
  obtain baseline st3 where s3: "storage_read env dec base ''baseline'' True st2 = (baseline, st3)" by fastforce
  have sound: "sound_collector st3"
    using storage_exists_sound [OF assms, of env storageSystemPath] baseline_path_sound [of st1 env entries user_path there]
      storage_read_sound [of st2 env dec base "''baseline''" True] s1 s2 s3 by simp
  then have "selection_sound u (case override_storage env dec u f sel st3 of (storage, st4) \<Rightarrow> finish_storage storage entries u st4)" for f sel
    using override_storage_sound [OF sound, of env dec u f sel] finish_storage_sound by (auto split: prod.split)
  then show ?thesis using sound_selection [OF sound] s1 s2 s3 by (auto simp: select_storage_def Let_def split: option.split)
qed

lemma read_candidates_sound: "sound_collector st \<Longrightarrow> sound_collector (read_candidates env dec names st)"
  unfolding read_candidates_def by (induction names arbitrary: st) (simp_all add: storage_read_sound)

lemma storage_start_fields: "c_storage (storage_start p env) = None" "c_sources (storage_start p env) = []"
  by (simp_all add: storage_start_def initial_configuration_def Let_def)


section \<open>A rootless user without any file\<close>

definition storage_selection_probe :: engine_probe where
  "storage_selection_probe = \<lparr>ep_target = \<lparr>uid = 1000, gid = 1000, username = ''user'', home_dir = ''/home/user'',
       supplementary_groups = [], groups_known = True\<rparr>,
     ep_environment = [''HOME=/home/user'', ''XDG_RUNTIME_DIR=/run/user/1000''], ep_environment_error = None,
     ep_version = (runtime_observation ''podman.version'' podman_scope 1)\<lparr>ob_version := Some \<lparr>v_path = ''/usr/bin/podman'',
       v_runnable = Some True, v_version = Some \<lparr>pv_major = 5, pv_minor = 8, pv_patch = 4, pv_canonical = ''5.8.4'',
         pv_suffix = '''', pv_build = '''', pv_trailing = '''', pv_raw = ''podman version 5.8.4''\<rparr>\<rparr>\<rparr>,
     ep_path = ''/usr/bin/podman'', ep_now = (\<lambda>_. 1)\<rparr>"

definition bound_engine :: observation where
  "bound_engine = (runtime_observation ''podman.configuration.engine'' podman_scope 1)\<lparr>ob_configuration := Some
     \<lparr>c_network = None, c_storage = None, c_family = ''engine'', c_runtime_path = ''/usr/bin/podman'',
       c_version_source_id = ''podman.version'', c_profile = Containers584, c_references = [], c_selection_complete = True,
       c_parse_complete = True, c_sources = [], c_engine = Some empty_engine_configuration\<rparr>\<rparr>"

definition storage_services :: runtime_services where
  "storage_services = \<lparr>pe_scope = podman_scope, pe_now = (\<lambda>_. 7), pe_ctx = (\<lambda>_ _. None), pe_files = True,
     pe_stat = (\<lambda>_ p. Inl ErrNotExist), pe_read = (\<lambda>_ _. Inl ErrNotExist),
     pe_readlink = (\<lambda>_ _. Inl EINVAL), pe_executable = (\<lambda>_ _. Inr True), pe_directory = (\<lambda>_ _ _. Inr True),
     pe_statfs = (\<lambda>_ _. Inl EINVAL), pe_runner = None\<rparr>"

definition no_documents :: storage_decoder where
  "no_documents = \<lparr>sd_toml = (\<lambda>_. Inl ErrConfigMalformed), sd_sha256 = (\<lambda>_. '''')\<rparr>"

lemma storage_is_selected:
  "\<exists>c s. ob_configuration (fst (storage_probe_run no_documents
      \<lparr>gp_selection = storage_selection_probe, gp_engine = bound_engine\<rparr> storage_services)) = Some c \<and> c_storage c = Some s"
proof -
  let ?c = "ob_configuration (fst (storage_probe_run no_documents \<lparr>gp_selection = storage_selection_probe, gp_engine = bound_engine\<rparr> storage_services))"
  have "(case ?c of None \<Rightarrow> False | Some c \<Rightarrow> c_storage c \<noteq> None)" by code_simp
  then show ?thesis by (auto split: option.splits)
qed


end
