(* ===== verification/Podman_Storage_Verdicts.thy ===== *)
theory Podman_Storage_Verdicts
  imports Podman_Storage_Laws Podman_Probes Catalog_Searches Catalog_Verdicts
begin

text \<open>
  The interface of the probes over storage and Quadlet, and what a positive verdict about the storage directories
  rests on.
\<close>

section \<open>Interface\<close>

lemma read_shown [simp]: "runtime_wf i s (storage_observation st obs) = runtime_wf i s obs"
  by (simp add: storage_observation_def)

lemma unavailable_wf: "runtime_wf i s obs \<Longrightarrow> runtime_wf i s (unavailable c obs)"
  by (auto simp: unavailable_def Let_def)

lemma storage_probe_wf:
  assumes "pe_now env 0 \<noteq> 0"
  shows "runtime_wf StorageConfigID (pe_scope env) (fst (storage_probe_run dec p env))"
proof -
  have "StorageConfigID \<noteq> ''''" by (simp add: StorageConfigID_def)
  then have "runtime_wf StorageConfigID (pe_scope env) (runtime_observation StorageConfigID (pe_scope env) (pe_now env 0))"
    using assms by simp
  then show ?thesis by (simp add: storage_probe_run_def Let_def unavailable_wf runtime_wf_failed split: sum.split)
qed

lemma add_storage_path_wf [simp]: "runtime_wf i s (add_storage_path item obs) = runtime_wf i s obs"
  by (simp add: add_storage_path_def)

lemma storage_path_loop_wf: "runtime_wf i s obs \<Longrightarrow> runtime_wf i s (storage_path_loop env w n items obs)"
  by (induction items arbitrary: n obs) (auto simp: Let_def runtime_wf_failed split: prod.split)

lemma storage_path_wf:
  assumes "pe_now env 0 \<noteq> 0"
  shows "runtime_wf (storage_path_probe_id p) (pe_scope env) (fst (storage_path_run p env))"
proof -
  have "storage_path_probe_id p \<noteq> ''''" by (simp add: storage_path_probe_id_def)
  then have "runtime_wf (storage_path_probe_id p) (pe_scope env) (storage_path_start p env source)" for source
    using assms by (simp add: storage_path_start_def)
  then show ?thesis by (simp add: storage_path_run_def Let_def storage_path_loop_wf runtime_wf_failed split: option.split)
qed

lemma add_location_wf [simp]: "runtime_wf i s (add_location l obs) = runtime_wf i s obs"
  by (simp add: add_location_def)

lemma quadlet_loop_wf: "runtime_wf i s obs \<Longrightarrow> runtime_wf i s (fst (quadlet_loop env n names obs))"
  by (induction names arbitrary: n obs) (simp_all add: Let_def runtime_wf_failed runtime_wf_incomplete split: option.split sum.split)

lemma quadlet_wf: "pe_now env 0 \<noteq> 0 \<Longrightarrow> runtime_wf ''podman.quadlet.locations'' (pe_scope env) (fst (quadlet_run p env))"
  by (simp add: quadlet_run_def Let_def quadlet_loop_wf runtime_wf_failed del: quadlet_loop.simps split: sum.split)

interpretation storage_selection: runtime_probe "StorageConfigID" "storage_probe_run dec p" for dec p
  by (unfold_locales, simp add: StorageConfigID_def, simp add: storage_probe_wf)

interpretation storage_directories: runtime_probe "storage_path_probe_id p" "storage_path_run p" for p
  by (unfold_locales, simp add: storage_path_probe_id_def, simp add: storage_path_wf)

interpretation quadlet_inputs: runtime_probe "''podman.quadlet.locations''" "quadlet_run p" for p
  by unfold_locales (simp_all add: quadlet_wf)

section \<open>The measurement of one path\<close>

lemma ancestor_search_keeps:
  "ancestor_search env n left checked item = (item1, r) \<Longrightarrow>
     sp_role item1 = sp_role item \<and> sp_path item1 = sp_path item \<and> sp_checked_path item1 = sp_checked_path item \<and>
     sp_accessible item1 = sp_accessible item \<and> sp_filesystem item1 = sp_filesystem item \<and>
     (sp_ancestor item \<longrightarrow> sp_ancestor item1)"
proof (induction left arbitrary: checked item)
  case (Suc left)
  show ?case
  proof (cases "pe_ctx env ''ancestor'' (maxStorageAncestors * n + left)")
    case None
    show ?thesis
    proof (cases "pe_stat env n (trim_root checked)")
      case (Inl err)
      show ?thesis
      proof (cases "errors_is err ErrNotExist \<and> checked \<noteq> ''/''")
        case True
        then have "ancestor_search env n left (path_dir checked) (item\<lparr>sp_present := Some False, sp_ancestor := True\<rparr>) = (item1, r)"
          using Suc.prems None Inl by simp
        from Suc.IH [OF this] show ?thesis by simp
      next
        case False
        then show ?thesis using Suc.prems None Inl by (cases "errors_is err ErrNotExist") auto
      qed
    next
      case (Inr info)
      then show ?thesis using Suc.prems None by (cases "checked = sp_path item") auto
    qed
  qed (use Suc.prems in simp)
qed simp

lemma ancestor_search_direct:
  assumes "ancestor_search env n (Suc left) p item = (item1, Inr (checked, info))" and "\<not> sp_ancestor item1"
  shows "checked = p \<and> pe_stat env n (trim_root p) = Inr info"
proof (cases "pe_ctx env ''ancestor'' (maxStorageAncestors * n + left)")
  case None
  show ?thesis
  proof (cases "pe_stat env n (trim_root p)")
    case (Inl err)
    then have "ancestor_search env n left (path_dir p) (item\<lparr>sp_present := Some False, sp_ancestor := True\<rparr>) = (item1, Inr (checked, info))"
      using assms(1) None by (auto simp: Let_def split: if_splits)
    from ancestor_search_keeps [OF this] assms(2) show ?thesis by simp
  next
    case (Inr info')
    then show ?thesis using assms(1) None by (simp split: if_splits)
  qed
qed (use assms in simp)

text \<open>The result of a measurement that names the path itself, and not an ancestor, as the directory that was reached.\<close>

definition directory_measured :: "runtime_services \<Rightarrow> nat \<Rightarrow> bool \<Rightarrow> string \<Rightarrow> bool" where
  "directory_measured env n writable p \<longleftrightarrow> safe_info_path p \<and>
     (\<exists>info. pe_stat env n (trim_root p) = Inr info \<and> fst_dir info) \<and> pe_directory env n (trim_root p) writable = Inr True"

lemma observed_path_kept:
  assumes "observe_storage_path env n item w = (item', err)"
  shows "sp_path item' = sp_path item \<and> sp_role item' = sp_role item"
proof (cases "ancestor_search env n maxStorageAncestors (sp_path item) item")
  case (Pair item1 r)
  then show ?thesis using assms ancestor_search_keeps [OF Pair]
    by (auto simp: observe_storage_path_def Let_def split: if_splits sum.splits prod.splits)
qed

lemma observed_directory:
  assumes "observe_storage_path env n (storage_path_item role p) w = (item', err)" and "sp_present item' = Some True"
    and "\<not> sp_ancestor item'" and "sp_accessible item' = Some True"
  shows "directory_measured env n w p \<and> (\<forall>fs. sp_filesystem item' = Some fs \<longrightarrow>
    (\<exists>m. pe_statfs env n (trim_root p) = Inr m \<and> fs = storage_filesystem_of m))"
proof -
  let ?item = "storage_path_item role p"
  obtain item1 r where search: "ancestor_search env n (Suc 31) p ?item = (item1, r)" by fastforce
  have blank: "sp_present ?item = None" "sp_accessible ?item = None" "sp_filesystem ?item = None" "sp_path ?item = p"
    by (simp_all add: storage_path_item_def)
  have run: "observe_storage_path env n ?item w = (if \<not> safe_info_path p then (?item, Some ErrMalformed) else
      (case (item1, r) of (item1, Inl err) \<Rightarrow> (item1, Some err)
      | (item1, Inr (checked, info)) \<Rightarrow>
          let item2 = item1\<lparr>sp_checked_path := checked, sp_checked_mode := Some (fst_perm info),
                sp_checked_uid := map_option fst (fst_owner info), sp_checked_gid := map_option snd (fst_owner info)\<rparr>
          in if \<not> fst_dir info then (item2\<lparr>sp_accessible := Some False\<rparr>, None)
             else let access = pe_directory env n (trim_root checked) w;
                      filesystem = pe_statfs env n (trim_root checked);
                      item3 = (case access of Inl _ \<Rightarrow> item2 | Inr allowed \<Rightarrow> item2\<lparr>sp_accessible := Some allowed\<rparr>);
                      item4 = (case filesystem of Inl _ \<Rightarrow> item3 | Inr fs \<Rightarrow> item3\<lparr>sp_filesystem := Some (storage_filesystem_of fs)\<rparr>)
               in (item4, errors_join [error_of access, error_of filesystem])))"
    using search by (simp add: observe_storage_path_def blank maxStorageAncestors_def numeral_eq_Suc)
  have safe: "safe_info_path p" using assms(1,2) run blank(1) by (cases "safe_info_path p") auto
  obtain checked info where r: "r = Inr (checked, info)"
    using assms(1,4) run safe blank(2) ancestor_search_keeps [OF search] by (cases r) auto
  have "\<not> sp_ancestor item1" using assms(1,3) run safe r
    by (auto simp: Let_def split: if_splits sum.splits)
  then have first: "checked = p" "pe_stat env n (trim_root p) = Inr info"
    using ancestor_search_direct search unfolding r by blast+
  then show ?thesis using assms(1,4) run safe r blank(2,3) ancestor_search_keeps [OF search]
    by (auto simp: directory_measured_def Let_def split: if_splits sum.splits)
qed

section \<open>Every path of the observation was measured\<close>

definition path_measured :: "runtime_services \<Rightarrow> bool \<Rightarrow> storage_path_metadata \<Rightarrow> bool" where
  "path_measured env w item \<longleftrightarrow> (\<exists>n role p err. observe_storage_path env n (storage_path_item role p) w = (item, err))"

text \<open>What holds of the payload of every observation of this probe.\<close>

definition paths_measured :: "runtime_services \<Rightarrow> observation \<Rightarrow> bool" where
  "paths_measured env ob \<longleftrightarrow> (\<forall>m. ob_storage_paths ob = Some m \<longrightarrow> (\<forall>item\<in>set (so_paths m). path_measured env (so_writable m) item))"

lemma failed_observation_paths [simp]: "ob_storage_paths (failed_runtime_observation c obs) = ob_storage_paths obs"
  by (simp add: failed_runtime_observation_def incomplete_observation_def partial_measurement_def note_diagnostic_def split: list.split)

lemma storage_path_loop_measured:
  assumes "\<forall>item\<in>set items. \<exists>role p. item = storage_path_item role p"
    and "paths_measured env obs" and "\<forall>m. ob_storage_paths obs = Some m \<longrightarrow> so_writable m = w"
  shows "paths_measured env (storage_path_loop env w n items obs)"
  using assms
proof (induction items arbitrary: n obs)
  case (Cons item items)
  obtain role p where item: "item = storage_path_item role p" using Cons.prems(1) by auto
  obtain item' err where run: "observe_storage_path env n item w = (item', err)" by fastforce
  define obs2 where "obs2 = (if err = None then add_storage_path item' obs
      else failed_runtime_observation ''storage_path_metadata_incomplete'' (add_storage_path item' obs))"
  have payload: "ob_storage_paths obs2 = map_option (\<lambda>d. d\<lparr>so_paths := so_paths d @ [item']\<rparr>) (ob_storage_paths obs)"
    by (simp add: obs2_def add_storage_path_def)
  have "path_measured env w item'" using run item unfolding path_measured_def by blast
  with payload Cons.prems(2,3) have "paths_measured env obs2" "\<forall>m. ob_storage_paths obs2 = Some m \<longrightarrow> so_writable m = w"
    by (auto simp: paths_measured_def)
  then show ?case using Cons.IH [of obs2] Cons.prems(1) run by (simp add: Let_def obs2_def [symmetric])
qed simp

lemma additional_items_blank:
  "\<forall>item\<in>set names. \<exists>role p. item = storage_path_item role p \<Longrightarrow>
   \<forall>item\<in>set (additional_items l names). \<exists>role p. item = storage_path_item role p"
proof (induction l arbitrary: names)
  case (Cons a l)
  obtain role name where a: "a = (role, name)" by (cases a)
  define item where "item = storage_path_item role (path_clean (if role = ''additionalimagestore'' then name else trim_suffix name '':ref''))"
  have "\<forall>item\<in>set (names @ [item]). \<exists>role p. item = storage_path_item role p" using Cons.prems item_def by auto
  with Cons.IH [OF this] show ?case by (simp add: a item_def [symmetric] Let_def)
qed simp

lemma storage_path_items_blank:
  assumes "storage_path_items p = Some items"
  shows "\<forall>item\<in>set items. \<exists>role q. item = storage_path_item role q"
proof -
  have "\<forall>item\<in>set (root_items roots). \<exists>role q. item = storage_path_item role q" for roots
    by (auto simp: root_items_def)
  moreover have "\<forall>item\<in>set (additional_storage_paths a b). \<exists>role q. item = storage_path_item role q" for a b
    unfolding additional_storage_paths_def by (rule additional_items_blank) simp
  ultimately show ?thesis using assms by (auto simp: storage_path_items_def Let_def split: option.splits if_splits)
qed

lemma storage_path_run_measured: "paths_measured env (fst (storage_path_run p env))"
proof -
  have start: "paths_measured env (storage_path_start p env source)"
    "\<forall>m. ob_storage_paths (storage_path_start p env source) = Some m \<longrightarrow> so_writable m = pp_writable p" for source
    by (simp_all add: paths_measured_def storage_path_start_def)
  have failed: "paths_measured env (failed_runtime_observation c obs) = paths_measured env obs" for c obs
    by (simp add: paths_measured_def)
  have "paths_measured env (storage_path_loop env (pp_writable p) 0 (take k items) (if b then failed_runtime_observation c obs else obs))"
    if "storage_path_items p = Some items" "obs = storage_path_start p env source" for k items obs source b c
    using storage_path_items_blank [OF that(1)] start that(2)
    by (intro storage_path_loop_measured) (auto simp: failed dest: in_set_takeD)
  then show ?thesis using start by (auto simp: storage_path_run_def Let_def failed split: option.split)
qed

section \<open>The verdict\<close>

text \<open>The directory is reached by the target; a store that is written to lies on a file system that is not read-only.\<close>

definition storage_directory_ready :: "runtime_services \<Rightarrow> capability_id \<Rightarrow> bool \<Rightarrow> string \<Rightarrow> bool" where
  "storage_directory_ready env cid w p \<longleftrightarrow> (\<exists>n. directory_measured env n w p \<and>
     (cid \<noteq> StorageAdditionalID \<longrightarrow>
        (\<exists>m. pe_statfs env n (trim_root p) = Inr m \<and> fi_flags_known m \<and> \<not> fi_read_only m)))"

lemma measured_ready:
  assumes "path_measured env w item" and "storage_directory_state item cid = StateSupported"
  shows "storage_directory_ready env cid w (sp_path item)"
proof -
  obtain n role p err where run: "observe_storage_path env n (storage_path_item role p) w = (item, err)"
    using assms(1) by (auto simp: path_measured_def)
  then have p: "sp_path item = p" using observed_path_kept by (fastforce simp: storage_path_item_def)
  note state = assms(2) [unfolded storage_directory_supported]
  from observed_directory [OF run] state
  have "directory_measured env n w p \<and> (\<forall>fs. sp_filesystem item = Some fs \<longrightarrow>
      (\<exists>m. pe_statfs env n (trim_root p) = Inr m \<and> fs = storage_filesystem_of m))" by simp
  moreover have "\<exists>fs. sp_filesystem item = Some fs \<and> fs_read_only fs = Some False" if "cid \<noteq> StorageAdditionalID"
    using state that by (auto split: option.splits)
  ultimately show ?thesis unfolding storage_directory_ready_def p
    by (fastforce simp: storage_filesystem_of_def split: if_splits)
qed

lemma storage_measured_supported:
  "ev_state (storage_measured cid source expected obs ob m) = StateSupported \<Longrightarrow>
   selected_storage_paths_state expected (so_paths m) cid = StateSupported"
  by (auto simp: storage_measured_def Let_def dest!: bind_supported split: option.splits if_splits)

lemma selected_directories:
  assumes "selected_storage_paths_state expected (so_paths m) cid = StateSupported"
    and "\<forall>item\<in>set (so_paths m). path_measured env w item"
  shows "\<forall>p\<in>snd ` set expected. storage_directory_ready env cid w p"
proof -
  let ?selected = "filter (path_selected cid) (so_paths m)"
  have "map (\<lambda>item. (sp_role item, sp_path item)) ?selected = expected"
    and "\<forall>item\<in>set ?selected. storage_directory_state item cid = StateSupported"
    using assms(1) unfolding storage_paths_supported storage_directory_supported by (auto simp: Let_def list_all_iff)
  then show ?thesis using assms(2) measured_ready by fastforce
qed

lemma storage_evidence_source:
  assumes "ev \<in> set (storage_path_evidence cid s observations)" and "ev_state ev = StateSupported"
  obtains source expected where "source \<in> set observations" "ob_scope source = s" "expected_storage_paths source cid = Some expected"
    "expected = [] \<or> (\<exists>ob\<in>set observations. \<exists>m. ob_scope ob = s \<and> ob_storage_paths ob = Some m \<and> so_source_id m = ob_id source \<and>
       so_writable m = (cid \<noteq> StorageAdditionalID) \<and> selected_storage_paths_state expected (so_paths m) cid = StateSupported)"
proof -
  have "\<exists>source\<in>set observations. ev \<in> set (if ob_scope source \<noteq> s then [] else
      case expected_storage_paths source cid of None \<Rightarrow> [] | Some expected \<Rightarrow> storage_path_from cid s observations source expected)"
    using assms(1) by (cases "local_podman s") (simp_all add: storage_path_evidence_def, blast)
  then obtain source where round: "source \<in> set observations" "ev \<in> set (if ob_scope source \<noteq> s then [] else
      case expected_storage_paths source cid of None \<Rightarrow> [] | Some expected \<Rightarrow> storage_path_from cid s observations source expected)" by blast
  then obtain expected where source: "source \<in> set observations" "ob_scope source = s" "expected_storage_paths source cid = Some expected"
    and ev: "ev \<in> set (storage_path_from cid s observations source expected)"
    by (cases "ob_scope source = s"; cases "expected_storage_paths source cid") simp_all
  moreover have "\<exists>ob\<in>set observations. \<exists>m. ob_scope ob = s \<and> ob_storage_paths ob = Some m \<and> so_source_id m = ob_id source \<and>
       so_writable m = (cid \<noteq> StorageAdditionalID) \<and> selected_storage_paths_state expected (so_paths m) cid = StateSupported" if nonempty: "expected \<noteq> []"
  proof -
    have "ev \<in> set (concat (map (\<lambda>obs. case ob_storage_paths obs of None \<Rightarrow> []
        | Some m \<Rightarrow> if ob_scope obs \<noteq> s \<or> so_source_id m \<noteq> ob_id source \<or> so_writable m \<noteq> (cid \<noteq> StorageAdditionalID) then []
            else [storage_measured cid source expected observations obs m]) observations))"
      using ev nonempty unfolding storage_path_from_def by simp
    then obtain ob m where ob: "ob \<in> set observations" "ob_storage_paths ob = Some m"
      and one: "ev \<in> set (if ob_scope ob \<noteq> s \<or> so_source_id m \<noteq> ob_id source \<or> so_writable m \<noteq> (cid \<noteq> StorageAdditionalID) then []
            else [storage_measured cid source expected observations ob m])" by (rule concat_payloadE)
    then have "ev = storage_measured cid source expected observations ob m" "ob_scope ob = s" "so_source_id m = ob_id source"
        "so_writable m = (cid \<noteq> StorageAdditionalID)" by (auto split: if_splits)
    then show ?thesis using ob assms(2) storage_measured_supported by blast
  qed
  ultimately show thesis using that by blast
qed

text \<open>
  C15: a positive verdict about the storage directories (the roots, the image store or the additional stores) rests on
  the kernel's answers about exactly the directories that a source selects. Some observation of the context selects
  them; if it selects any, then one observation of storage paths refers to that source, and the services that this
  observation was made with (\<open>services\<close>, whatever they are) answered about each of the selected paths: the path is
  safe, \<open>Stat\<close> of the path itself (not of an ancestor) reported a directory, and the access check of the target allowed
  it, with write access unless the store is only read; a store that is written to lies on a file system whose flags
  are known and which is not read-only.
\<close>

theorem storage_verdict_measured:
  fixes services :: "observation \<Rightarrow> runtime_services"
  assumes "ev \<in> set (storage_path_evidence cid s observations)" and "ev_state ev = StateSupported"
    and "\<forall>ob\<in>set observations. ob_storage_paths ob = None \<or> (\<exists>p. ob = fst (storage_path_run p (services ob)))"
  shows "\<exists>source\<in>set observations. ob_scope source = s \<and> (\<exists>expected. expected_storage_paths source cid = Some expected \<and>
    (expected = [] \<or> (\<exists>ob\<in>set observations. \<exists>m. ob_scope ob = s \<and> ob_storage_paths ob = Some m \<and> so_source_id m = ob_id source \<and>
       (\<forall>p\<in>snd ` set expected. storage_directory_ready (services ob) cid (cid \<noteq> StorageAdditionalID) p))))"
proof -
  obtain source expected where source: "source \<in> set observations" "ob_scope source = s" "expected_storage_paths source cid = Some expected"
    and found: "expected = [] \<or> (\<exists>ob\<in>set observations. \<exists>m. ob_scope ob = s \<and> ob_storage_paths ob = Some m \<and> so_source_id m = ob_id source \<and>
       so_writable m = (cid \<noteq> StorageAdditionalID) \<and> selected_storage_paths_state expected (so_paths m) cid = StateSupported)"
    by (rule storage_evidence_source [OF assms(1,2)])
  have "\<exists>ob\<in>set observations. \<exists>m. ob_scope ob = s \<and> ob_storage_paths ob = Some m \<and> so_source_id m = ob_id source \<and>
       (\<forall>p\<in>snd ` set expected. storage_directory_ready (services ob) cid (cid \<noteq> StorageAdditionalID) p)" if "expected \<noteq> []"
  proof -
    obtain ob m where ob: "ob \<in> set observations" "ob_scope ob = s" "ob_storage_paths ob = Some m" "so_source_id m = ob_id source"
        "so_writable m = (cid \<noteq> StorageAdditionalID)"
      and st: "selected_storage_paths_state expected (so_paths m) cid = StateSupported" using found \<open>expected \<noteq> []\<close> by blast
    obtain p where "ob = fst (storage_path_run p (services ob))" using assms(3) ob(1,3) by force
    then have "paths_measured (services ob) ob" using storage_path_run_measured [of "services ob" p] by simp
    then show ?thesis using selected_directories [OF st] ob by (auto simp: paths_measured_def)
  qed
  then show ?thesis using source by blast
qed

section \<open>The roots that Podman reports\<close>

definition rooted_observation :: observation where
  "rooted_observation = info_observation\<lparr>ob_podman := Some (example_info\<lparr>p_graph_root := Some ''/var/lib/containers/storage'',
     p_run_root := Some ''/run/containers/storage''\<rparr>)\<rparr>"

definition directory_info :: file_info where
  "directory_info = \<lparr>fst_dir = True, fst_regular = False, fst_socket = False, fst_perm = 0x1c0, fst_setuid = False,
     fst_setgid = False, fst_sticky = False, fst_owner = Some (0, 0), fi_size = 4096, fi_identity = Some (1, 2),
     fi_null_device = False\<rparr>"

definition writable_services :: runtime_services where
  "writable_services = storage_services\<lparr>pe_stat := (\<lambda>_ _. Inr directory_info), pe_statfs := (\<lambda>_ _. Inr
     \<lparr>fi_type = 0x58465342, fi_nosuid = False, fi_noexec = False, fi_flags_known = True, fi_read_only = False\<rparr>)\<rparr>"

definition measured_roots :: observation where
  "measured_roots = fst (storage_path_run \<lparr>pp_source = rooted_observation, pp_writable = True\<rparr> writable_services)"

lemma roots_supported:
  "list_all (\<lambda>ev. ev_state ev = StateSupported) (storage_path_evidence StorageRootsID podman_scope [rooted_observation, measured_roots])"
  "storage_path_evidence StorageRootsID podman_scope [rooted_observation, measured_roots] \<noteq> []"
  "expected_storage_paths rooted_observation StorageRootsID =
     Some [(''graphroot'', ''/var/lib/containers/storage''), (''runroot'', ''/run/containers/storage'')]"
  "expected_storage_paths measured_roots StorageRootsID = None"
  by code_simp+

theorem storage_verdict_measured_witness:
  "storage_directory_ready writable_services StorageRootsID True ''/var/lib/containers/storage''"
proof -
  obtain ev where ev: "ev \<in> set (storage_path_evidence StorageRootsID podman_scope [rooted_observation, measured_roots])"
    using roots_supported(2) by (metis list.set_sel(1))
  have "\<forall>ob\<in>set [rooted_observation, measured_roots]. ob_storage_paths ob = None \<or> (\<exists>p. ob = fst (storage_path_run p writable_services))"
    unfolding measured_roots_def by (auto simp: rooted_observation_def info_observation_def Catalog_Examples.blank_observation_def)
  moreover have "ev_state ev = StateSupported" using roots_supported(1) ev by (simp add: list_all_iff)
  ultimately obtain source expected where s: "source \<in> {rooted_observation, measured_roots}"
      "expected_storage_paths source StorageRootsID = Some expected"
      "expected = [] \<or> (\<forall>p\<in>snd ` set expected. storage_directory_ready writable_services StorageRootsID (StorageRootsID \<noteq> StorageAdditionalID) p)"
    using storage_verdict_measured [OF ev, of "\<lambda>_. writable_services"] by auto
  have "source = rooted_observation" using s(1,2) roots_supported(4) by auto
  then have "expected = [(''graphroot'', ''/var/lib/containers/storage''), (''runroot'', ''/run/containers/storage'')]"
    using s(2) roots_supported(3) by simp
  then show ?thesis using s(3) by (simp add: StorageRootsID_def StorageAdditionalID_def)
qed

end
