(* ===== verification/Spec2Isabelle.thy ===== *)
theory Spec2Isabelle
  imports Host_Kernel Requirement_Eval Orchestrator_Run Catalog_Verdicts Config_Toml Config_Storage_Laws Podman_Collection
    Host_Verdicts Host_Formats App_Context Podman_Helper_Laws Podman_Info_Laws Podman_Storage_Verdicts
begin

text \<open>
  Verification library of capagent, a capability agent: it observes a host and a container runtime
  (Podman) through probes, derives from the observations what the runtime is capable of, and answers
  requirement documents over those capabilities. All paths below are relative to \<open>src/internal\<close>.

  \<^bold>\<open>The program and its parts.\<close> Probes are registered in a registry (\<open>probe/registry.go\<close>), which
  orders them by dependency and compiles a plan. The orchestrator (\<open>probe/orchestrator.go\<close>) runs the
  plan on concurrent workers and reports one result per probe. The probes measure the host (\<open>host\<close>) and
  Podman (\<open>runtime/podman\<close>) through the services of \<open>platform\<close>; the configuration documents they read
  are parsed, projected and merged by \<open>config\<close>. The observations enter a dataset, which is validated as
  a graph of contexts, observations and evidence (\<open>capability/graph.go\<close>), and are projected onto the
  evaluation context (\<open>app/host.go\<close>, \<open>app/context.go\<close>). The capability registry
  (\<open>capability/registry.go\<close>) evaluates its definitions in dependency order: each evaluator of the catalog
  (the other files of \<open>capability\<close>) derives evidence from observations, and the resolver
  (\<open>capability/resolver.go\<close>) turns the evidence on a claim into a state. The resulting candidate is what
  a requirement document (\<open>requirement\<close>) is evaluated over. The records exchanged are those of \<open>model\<close>.

  \<^bold>\<open>Which theory models what.\<close>
  \<^item> \<open>Prelude\<close>: Go's strings, errors, sorting, splitting, and list lemmas. \<open>Go_Path\<close>, \<open>Go_Net\<close>, \<open>Go_Text\<close>:
    the functions of \<open>path\<close>, \<open>net\<close>, \<open>netip\<close>, \<open>strconv\<close>, \<open>strings\<close> and \<open>utf8\<close> that the program calls.
  \<^item> \<open>Model_Core\<close>, \<open>Model_Identity\<close>, \<open>Model_Observation\<close>: \<open>model/*.go\<close>. Go's string enumerations are
    datatypes with a constructor for any other string, so that the validators have something to
    reject; a pointer field is an option; a map is an association list with distinct keys.
  \<^item> \<open>Kahn\<close>, \<open>Evidence_Graph\<close>: the topological sort and \<open>ValidateDataset\<close> of \<open>capability/graph.go\<close>.
  \<^item> \<open>Resolver\<close>, \<open>Capability_Registry\<close>: \<open>capability/resolver.go\<close> and \<open>registry.go\<close>. An index out of
    range or a nil call, which panics in Go, is \<open>None\<close>; an error is a value.
  \<^item> \<open>Requirement_Logic\<close>, \<open>Requirement_Eval\<close>: \<open>requirement/*.go\<close>. A document is a heap of nodes
    linked by addresses, as pointers may share nodes or form a cycle; the validator's traversal and
    the evaluator run over that heap.
  \<^item> \<open>Reg_Heap\<close>, \<open>Probe_Registry\<close>: \<open>probe/registry.go\<close> with the priority queue of
    \<open>container/heap\<close>, and the compiled plan.
  \<^item> \<open>Orchestrator\<close>, \<open>Orchestrator_Run\<close>: \<open>probe/orchestrator.go\<close>. A goroutine is a program counter
    in the state; each critical section of the scheduler is one step of the relation \<open>step\<close>, so an
    execution is any interleaving of them, with cancellation possible at any moment. Probes are a
    parameter: what a probe's \<open>Run\<close> may answer is an arbitrary relation.
  \<^item> \<open>Catalog_Base\<close>, \<open>Catalog_Runtime\<close>, \<open>Catalog_Engine\<close>, \<open>Catalog_Network\<close>, \<open>Catalog_Storage\<close>,
    \<open>Catalog_Quadlet\<close>, \<open>Catalog\<close>: the evaluators and definitions of \<open>capability\<close>, in the files' own
    order. \<open>Catalog_Searches\<close> and \<open>Catalog_Verdicts\<close> hold what their verdicts mean, and
    \<open>Catalog_Examples\<close> the observations on which statements are evaluated.
  \<^item> \<open>Config_Values\<close>, \<open>Config_Engine\<close>, \<open>Config_Network\<close>, \<open>Config_Storage\<close>, \<open>Config_Toml\<close>: \<open>config/*.go\<close>, the
    projection of decoded documents and their merge, over a parameter for the decoder.
    \<open>Config_Redaction\<close> says which text may be retained; \<open>Config_Laws\<close>, \<open>Config_Storage_Laws\<close> prove it.
  \<^item> \<open>Podman_Paths\<close>, \<open>Podman_Observation\<close>, \<open>Podman_Services\<close>: path and environment checks
    (\<open>platform/path.go\<close>, \<open>environment.go\<close>), the observations that the Podman probes start from, and the
    services they ask. \<open>Podman_Version\<close>, \<open>Podman_Info\<close>, \<open>Podman_Executables\<close>, \<open>Podman_Helpers\<close>,
    \<open>Podman_Storage\<close>, \<open>Podman_Storage_Paths\<close>: the probes of \<open>runtime/podman\<close>; \<open>Podman_Probes\<close> that each
    keeps the interface, and \<open>Podman_Info_Laws\<close>, \<open>Podman_Helper_Laws\<close>, \<open>Podman_Storage_Laws\<close>,
    \<open>Podman_Storage_Verdicts\<close> what the observations mean.
  \<^item> \<open>Podman_Config\<close>, \<open>Podman_Engine\<close>: the collector of the engine and network configuration
    (\<open>runtime/podman/engine.go\<close>, \<open>network\_configuration.go\<close>), a state machine over file services.
    \<open>Podman_Config_Laws\<close>, \<open>Podman_Coverage\<close>, \<open>Podman_Network_Laws\<close>, \<open>Podman_Collection\<close>: its invariants,
    the sources a run looked at, the network family, and what a supported configuration is worth.
  \<^item> \<open>Platform_Errors\<close>, \<open>Platform_Records\<close>: the sentinel errors and the record parsers of \<open>platform\<close>, with
    \<open>Platform_Records_Laws\<close>.
  \<^item> \<open>Host_Observation\<close>, \<open>Host_Measurement\<close>: what all host probes share (\<open>host/baseline.go\<close>).
    \<open>Host_Baseline\<close>, \<open>Host_Cgroups\<close>, \<open>Host_Security\<close>, \<open>Host_Prerequisites\<close>, \<open>Host_Subids\<close>, \<open>Host_Context\<close>,
    \<open>Host_Accounts\<close>, \<open>Host_Identity\<close>, \<open>Host_Kernel\<close>: the probes and parsers of \<open>host/*.go\<close>. \<open>Host_Probes\<close>,
    \<open>Host_Laws\<close>, \<open>Host_Subids_Laws\<close>, \<open>Host_Formats\<close>, \<open>Host_Verdicts\<close>: their laws.
  \<^item> \<open>App_Context\<close>: \<open>projectHost\<close> and \<open>projectContextMeasurements\<close> of \<open>app\<close>.

  \<^bold>\<open>Interfaces.\<close> \<open>ready_queue\<close> and \<open>priority_queue\<close> (Kahn) are the queue of the topological sort; the sorted
  slice of the evidence graph and the binary heap of the probe registry are its two implementations.
  \<open>connective\<close> (Requirement\_Logic) is what the evaluator needs of a conjunction and a disjunction.
  \<open>evidence_source\<close> (Catalog\_Base) is the contract of an evaluator, interpreted on each of the catalog's.
  \<open>host_probe\<close> (Host\_Measurement) and \<open>runtime_probe\<close> (Podman\_Services) are what the dataset relies on in
  a probe, interpreted on every probe of the two packages.

  \<^bold>\<open>Services as parameters.\<close> What the operating system, a command or a decoder answers is a field of a
  record of functions (\<open>host_services\<close>, \<open>runtime_services\<close>, \<open>services\<close>, \<open>storage_decoder\<close>), with an argument
  that numbers the calls where a probe may ask again, so that two answers may differ. A theorem holds for
  all answers unless it names a hypothesis; where a verdict is tied to a measurement, the theorem says
  that the services of the very run that produced the observation gave the answer.

  \<^bold>\<open>What the lemmas show.\<close> For the orchestrator: an inductive invariant of all reachable states, from
  which follow the start order, the report, the independence of the schedule, and, with a decreasing
  measure and a progress lemma, that every execution returns. For the registries: the order is
  topological and least, nothing is lost, a sealed registry keeps its first outcome. For the resolver:
  the loop computes a specification by sets, independent of the order of the evidence. For requirements:
  the evaluator refines a three-valued semantics of trees, and verdicts are stable under further
  knowledge. For the catalog: every evaluator keeps the contract that the registry checks, positive
  verdicts rest on measurements, and definite verdicts survive further observation. For the probes: the
  observations of an inspection are always an acceptable dataset, parsers accept exactly the formats
  they describe, and a verdict drawn from an observation is one that the services support. For the
  configuration: no text is retained that was not recognized, later sources win, and a configuration
  that counts as supported covers its whole plan. The root theory composes registry and requirements.

  \<^bold>\<open>Bounds and fuel.\<close> Two definitions take fuel. The rounds of the topological sort are as many as there are
  nodes, and \<open>kahn_loop_finished\<close> shows that the queue is empty by then. \<open>evaluate_node\<close> has fuel because the
  code's recursion has no bound of its own; \<open>evaluate_requirement_spec\<close> shows that \<open>MaxDepth\<close> is enough for every
  document the validator accepts. All other recursions are structural or have a termination proof (the cascade of
  skipped probes by the number of unfinalized probes and the stack's length; the traversal of documents by the nodes
  left), and a loop that the program itself bounds, as the search for an existing ancestor, recurses over the
  program's bound. The program's limits (4096 graph entries, 512 document nodes, 32 storage paths and so on) are
  part of the definitions. Times are integers; durations and the wall clock do not influence a verdict except
  through the comparison of time stamps.

  \<^bold>\<open>Not modelled.\<close> What is behind the services: the scoped readers, directory handles, memory-backed
  files, the command runner and the user manager's connection (\<open>platform\<close>); the JSON decoder, the TOML
  parser and the digest, which are libraries; rendering of reports and schemas (\<open>output\<close>), replay
  (\<open>fixture\<close>), the target worker, and the command line (\<open>app\<close>, \<open>cmd\<close>), of which the composition of the
  probes and of the catalog and the projections onto the context are here. \<open>SnapshotObservation\<close> and the
  other deep copies are the identity on the values of this model.
\<close>

section \<open>From the catalog to the verdict\<close>

lemma dataset_evidence_bounds:
  assumes "validate_dataset d = None"
  shows "distinct (map ev_id (ds_evidence d))" and "length (ds_evidence d) \<le> MaxCandidateEntries"
proof -
  have "dataset_wf d" using assms validate_dataset_wf by blast
  then show "distinct (map ev_id (ds_evidence d))" "length (ds_evidence d) \<le> MaxCandidateEntries"
    by (auto simp: dataset_wf_def MaxGraphEntries_def MaxCandidateEntries_def)
qed

lemma registry_bound: "new_registry ds = Inr reg \<Longrightarrow> length reg \<le> MaxCandidateEntries"
  using new_registry_order(1) [of ds reg]
  by (auto simp: new_registry_Inr topological_def MaxGraphEntries_def MaxCandidateEntries_def Let_def
      dest: mset_eq_length split: if_splits)

lemma registry_candidate_indexed:
  assumes reg: "new_registry ds = Inr reg" and ev: "evaluate reg scope data = Some (evl, None)"
  shows "\<exists>ix. index_candidate (evl_candidate evl) = Inr ix"
proof -
  let ?cand = "evl_candidate evl"
  note R = evaluate_result [OF reg ev]
  obtain data' where data': "validate_dataset data' = None"
    and evs: "cand_evidence ?cand = filter (\<lambda>e. ev_scope e = scope) (ds_evidence data')" using R(7) by blast
  note B = dataset_evidence_bounds [OF data']
  have "length (cand_evidence ?cand) \<le> MaxCandidateEntries"
    using B(2) length_filter_le [of _ "ds_evidence data'"] unfolding evs by (meson le_trans)
  moreover have "distinct (map ev_id (cand_evidence ?cand))" unfolding evs using B(1) by (rule distinct_map_filter)
  moreover have "length (cand_capabilities ?cand) \<le> MaxCandidateEntries"
    using registry_bound [OF reg] R(3) by (metis length_map)
  moreover have "distinct (map cap_id (cand_capabilities ?cand))" unfolding R(3) by (rule new_registry_order(2) [OF reg])
  moreover have "\<forall>c\<in>set (cand_capabilities ?cand). capability_validate c = None \<and> cap_scope c = scope"
    using R(4) by (simp add: grounded_def capability_validate_None)
  ultimately show ?thesis using R(1,2) by (simp add: index_candidate_Inr)
qed

text \<open>
  C10: the candidate that a completed evaluation of the registry returns is always accepted by the
  requirement evaluator, and the verdict on a capability of the catalog follows from its state
  alone: satisfied when supported, indeterminate when unknown or unavailable, unsatisfied
  otherwise. The two components' checks of scope, completeness, claim and state agree, so
  evidence is never missing or rejected at this boundary.
\<close>

theorem registry_candidate_verdict:
  assumes "new_registry ds = Inr reg" and "evaluate reg scope data = Some (evl, None)"
  shows "\<exists>ix. index_candidate (evl_candidate evl) = Inr ix \<and>
     (\<forall>c\<in>set (cand_capabilities (evl_candidate evl)).
        rs_state (predicate (cap_id c) ix) =
          (if cap_state c = StateSupported then Satisfied
           else if cap_state c = StateUnknown \<or> cap_state c = StateUnavailable then Indeterminate else Unsatisfied))"
proof -
  let ?cand = "evl_candidate evl"
  note R = evaluate_result [OF assms]
  obtain ix where ix: "index_candidate ?cand = Inr ix" using registry_candidate_indexed [OF assms] by blast
  have dist: "distinct (map cap_id (cand_capabilities ?cand))" using ix by (simp add: index_candidate_Inr)
  have "rs_state (predicate (cap_id c) ix) =
      (if cap_state c = StateSupported then Satisfied
       else if cap_state c = StateUnknown \<or> cap_state c = StateUnavailable then Indeterminate else Unsatisfied)"
    if c: "c \<in> set (cand_capabilities ?cand)" for c
  proof -
    have same: "x \<in> set (cand_capabilities ?cand) \<and> cap_id x = cap_id c \<longleftrightarrow> x = c" for x
      using dist c by (auto simp: distinct_map inj_on_def)
    have "grounded scope (cand_evidence ?cand) c" using R(4) c by blast
    then have "evidenced ?cand c" if "cap_state c \<noteq> StateUnknown"
      using that unfolding grounded_def evidenced_def supporting_def R(1) by blast
    moreover have "(\<exists>x\<in>set (cand_capabilities ?cand). cap_id x = cap_id c \<and> P x) \<longleftrightarrow> P c" for P
      using same by metis
    ultimately show ?thesis unfolding predicate_state [OF ix] by auto
  qed
  with ix show ?thesis by blast
qed

theorem registry_candidate_verdict_witness:
  "\<exists>evl ix. evaluate [example_definition] example_scope example_dataset = Some (evl, None) \<and>
     index_candidate (evl_candidate evl) = Inr ix"
proof -
  obtain evl where e: "evaluate [example_definition] example_scope example_dataset = Some (evl, None)"
    using example_evaluation by blast
  from registry_candidate_verdict [OF example_registry e] e show ?thesis by blast
qed

end
